(* ===== verification/Prelude.thy ===== *)
theory Prelude
  imports Main
begin

text \<open>
  Shared vocabulary of the development: the fact collections the component theories fill, the
  JavaScript array operations the sources use with their out-of-range behaviour written out,
  decimal printing of counters, and the locale of a system that keeps an invariant under its
  operations, which the stateful components interpret.
\<close>

section \<open>Fact collections\<close>

named_theorems guard_defs \<open>definitions of boolean guards, unfolded together\<close>
named_theorems op_defs \<open>definitions of state-changing operations\<close>

section \<open>JavaScript arrays\<close>

text \<open>\<open>xs.find(p)\<close> is the library's \<^const>\<open>List.find\<close> (\<open>undefined\<close> is \<^const>\<open>None\<close>).\<close>

text \<open>\<open>xs.slice(-n)\<close>: the last \<open>n\<close> elements; \<open>slice(-0)\<close> is \<open>slice(0)\<close>, the whole array.\<close>

definition js_slice_last :: "nat \<Rightarrow> 'a list \<Rightarrow> 'a list" where
  "js_slice_last n xs = (if n = 0 then xs else drop (length xs - n) xs)"

lemma length_js_slice_last:
  "length (js_slice_last n xs) = (if n = 0 then length xs else min n (length xs))"
  by (auto simp: js_slice_last_def)

lemma js_slice_last_suffix: "\<exists>ys. xs = ys @ js_slice_last n xs"
  unfolding js_slice_last_def
  by (cases "n = 0") (auto intro: exI [of _ "take (length xs - n) xs"])

lemma js_slice_last_snoc:
  "js_slice_last (Suc n) (xs @ [x]) = drop (length xs - n) xs @ [x]"
  by (simp add: js_slice_last_def Suc_diff_le)

lemma last_js_slice_last: "xs \<noteq> [] \<Longrightarrow> last (js_slice_last n xs) = last xs"
  by (cases "length xs") (auto simp: js_slice_last_def last_drop)

text \<open>
  Removing the first element that satisfies \<open>p\<close>: \<open>findIndex\<close> followed by \<open>splice(idx, 1)\<close>.
  Updating the first such element in place: a mutation through the reference that \<open>find\<close> returns.
\<close>

fun remove_first :: "('a \<Rightarrow> bool) \<Rightarrow> 'a list \<Rightarrow> ('a \<times> 'a list) option" where
  "remove_first p [] = None"
| "remove_first p (x # xs) =
     (if p x then Some (x, xs)
      else map_option (\<lambda>(y, ys). (y, x # ys)) (remove_first p xs))"

fun update_first :: "('a \<Rightarrow> bool) \<Rightarrow> ('a \<Rightarrow> 'a) \<Rightarrow> 'a list \<Rightarrow> 'a list" where
  "update_first p f [] = []"
| "update_first p f (x # xs) = (if p x then f x # xs else x # update_first p f xs)"

lemma remove_first_None_iff: "remove_first p xs = None \<longleftrightarrow> (\<forall>x \<in> set xs. \<not> p x)"
  by (induction xs) auto

lemma remove_first_SomeD:
  "remove_first p xs = Some (y, ys) \<Longrightarrow>
     \<exists>us vs. xs = us @ y # vs \<and> ys = us @ vs \<and> p y \<and> (\<forall>u \<in> set us. \<not> p u)"
proof (induction xs arbitrary: y ys)
  case Nil
  then show ?case by simp
next
  case (Cons x xs)
  show ?case
  proof (cases "p x")
    case True
    with Cons.prems show ?thesis by force
  next
    case False
    with Cons.prems obtain ys' where "remove_first p xs = Some (y, ys')" "ys = x # ys'"
      by auto
    with Cons.IH obtain us vs where
      "xs = us @ y # vs" "ys' = us @ vs" "p y" "\<forall>u \<in> set us. \<not> p u"
      by blast
    with False \<open>ys = x # ys'\<close> show ?thesis
      by (intro exI [of _ "x # us"] exI [of _ vs]) auto
  qed
qed

lemma length_update_first [simp]: "length (update_first p f xs) = length xs"
  by (induction xs) auto

lemma update_first_none: "find p xs = None \<Longrightarrow> update_first p f xs = xs"
  by (induction xs) (auto split: if_splits)

lemma update_first_split:
  "find p xs = Some x \<Longrightarrow>
     \<exists>us vs. xs = us @ x # vs \<and> p x \<and> (\<forall>u \<in> set us. \<not> p u) \<and>
       update_first p f xs = us @ f x # vs"
proof (induction xs)
  case Nil
  then show ?case by simp
next
  case (Cons y ys)
  show ?case
  proof (cases "p y")
    case True
    with Cons.prems show ?thesis by force
  next
    case False
    with Cons.prems have "find p ys = Some x" by simp
    with Cons.IH obtain us vs where
      "ys = us @ x # vs" "p x" "\<forall>u \<in> set us. \<not> p u" "update_first p f ys = us @ f x # vs"
      by blast
    with False show ?thesis
      by (intro exI [of _ "y # us"] exI [of _ vs]) auto
  qed
qed

lemma map_update_first:
  "(\<And>x. g (f x) = g x) \<Longrightarrow> map g (update_first p f xs) = map g xs"
  by (induction xs) auto

section \<open>Strings\<close>

text \<open>
  A string is the list of its code units. An optional string (\<open>string | null\<close>, or an optional
  property) is falsy when it is absent or empty.
\<close>

definition truthy_str :: "string option \<Rightarrow> bool" where
  "truthy_str s \<longleftrightarrow> s \<noteq> None \<and> s \<noteq> Some []"

text \<open>What \<open>trim\<close> removes, among the code units below 256.\<close>

definition js_space :: "char \<Rightarrow> bool" where
  "js_space c \<longleftrightarrow> (let n = of_char c :: nat in 9 \<le> n \<and> n \<le> 13 \<or> n = 32 \<or> n = 160)"

definition js_blank :: "string \<Rightarrow> bool" where
  "js_blank s \<longleftrightarrow> list_all js_space s"

text \<open>\<open>toLowerCase\<close> on ASCII text.\<close>

definition lower_char :: "char \<Rightarrow> char" where
  "lower_char c = (let n = of_char c :: nat in if 65 \<le> n \<and> n \<le> 90 then char_of (n + 32) else c)"

definition toLowerCase :: "string \<Rightarrow> string" where
  "toLowerCase s = map lower_char s"

definition upper_char :: "char \<Rightarrow> char" where
  "upper_char c = (let n = of_char c :: nat in if 97 \<le> n \<and> n \<le> 122 then char_of (n - 32) else c)"

definition toUpperCase :: "string \<Rightarrow> string" where
  "toUpperCase s = map upper_char s"

text \<open>\<open>s.includes(p)\<close>.\<close>

fun is_prefix :: "string \<Rightarrow> string \<Rightarrow> bool" where
  "is_prefix [] _ = True"
| "is_prefix (_ # _) [] = False"
| "is_prefix (p # ps) (c # cs) = (p = c \<and> is_prefix ps cs)"

fun text_includes :: "string \<Rightarrow> string \<Rightarrow> bool" where
  "text_includes [] p = is_prefix p []"
| "text_includes (c # cs) p = (is_prefix p (c # cs) \<or> text_includes cs p)"

section \<open>Decimal printing\<close>

definition digit_char :: "nat \<Rightarrow> char" where
  "digit_char d = char_of (48 + d)"

fun nat_str :: "nat \<Rightarrow> string" where
  "nat_str n = (if n < 10 then [digit_char n] else nat_str (n div 10) @ [digit_char (n mod 10)])"

declare nat_str.simps [simp del]

definition int_str :: "int \<Rightarrow> string" where
  "int_str n = (if n < 0 then ''-'' @ nat_str (nat (- n)) else nat_str (nat n))"

section \<open>Systems with an invariant\<close>

text \<open>
  A component with state is a step function and a predicate that every step keeps; then every
  run keeps it. The extended locale adds the state a component starts from.
\<close>

locale stepwise =
  fixes step :: "'s \<Rightarrow> 'e \<Rightarrow> 's"
    and inv :: "'s \<Rightarrow> bool"
  assumes inv_step: "inv s \<Longrightarrow> inv (step s e)"
begin

lemma run_inv: "inv s \<Longrightarrow> inv (foldl step s es)"
  by (induction es arbitrary: s) (auto intro: inv_step)

lemma run_prefix_inv: "inv s \<Longrightarrow> inv (foldl step s (take n es))"
  by (rule run_inv)

end

locale started = stepwise +
  fixes init :: 's
  assumes inv_init: "inv init"
begin

lemma reachable_inv: "inv (foldl step init es)"
  by (rule run_inv [OF inv_init])

end

text \<open>
  A predicate that holds as long as the events come from a set: the shape of the statements
  ``until one of these happens''.
\<close>

locale persists =
  fixes step :: "'s \<Rightarrow> 'e \<Rightarrow> 's"
    and quiet :: "'e \<Rightarrow> bool"
    and inv :: "'s \<Rightarrow> bool"
  assumes inv_quiet: "inv s \<Longrightarrow> quiet e \<Longrightarrow> inv (step s e)"
begin

lemma run_quiet: "inv s \<Longrightarrow> list_all quiet es \<Longrightarrow> inv (foldl step s es)"
  by (induction es arbitrary: s) (auto intro: inv_quiet)

end

end
