(* ===== verification/JsNumber.thy ===== *)
theory JsNumber
  imports Complex_Main Prelude
begin

text \<open>
  The JavaScript \<open>number\<close> type: IEEE 754 binary64 with round to nearest, ties to even. A finite
  double is the rational it denotes; every arithmetic operation is the exact rational operation
  followed by \<open>rnd\<close>, which rounds to 53 significant bits (fewer below the normal range) and
  overflows to an infinity. The two zeros are one value here: the code under verification
  divides by a zero it has not excluded only in the break-even rate of a target of zero, and prints none.

  Counters, array lengths and epoch milliseconds are integers far below \<open>2 ^ 53\<close>, on which the
  operations are exact (\<open>rnd_of_int\<close>); the component theories keep them as \<open>int\<close> or \<open>nat\<close>.
  Money, multipliers, rates and prices are \<open>jsnum\<close>.
\<close>

section \<open>Rounding\<close>

datatype jsnum = Fin rat | PInf | NInf | NaN

definition round_half_even :: "rat \<Rightarrow> int" where
  "round_half_even q =
     (let f = \<lfloor>q\<rfloor>; r = q - of_int f
      in if r < 1/2 then f else if r > 1/2 then f + 1 else if even f then f else f + 1)"

text \<open>The number of binary digits of a non-negative integer.\<close>

function nbits :: "int \<Rightarrow> int" where
  "nbits n = (if n \<le> 0 then 0 else 1 + nbits (n div 2))"
  by pat_completeness auto
termination
  by (relation "measure nat") auto

declare nbits.simps [simp del]

text \<open>The binade of a positive rational: \<open>2 powi (ilog2 x) \<le> x < 2 powi (ilog2 x + 1)\<close>.\<close>

definition ilog2 :: "rat \<Rightarrow> int" where
  "ilog2 x =
     (let (n, d) = quotient_of x;
          e = nbits n - nbits d
      in if 2 powi e \<le> x then e else e - 1)"

text \<open>The unit in the last place of a positive rational, and its rounding to a multiple of it.\<close>

definition ulp_exp :: "rat \<Rightarrow> int" where
  "ulp_exp x = max (ilog2 x) (-1022) - 52"

definition mag :: "rat \<Rightarrow> rat" where
  "mag x = of_int (round_half_even (x / 2 powi (ulp_exp x))) * 2 powi (ulp_exp x)"

definition rnd :: "rat \<Rightarrow> jsnum" where
  "rnd x =
     (if x = 0 then Fin 0
      else let y = mag \<bar>x\<bar>
           in if 2 ^ 1024 \<le> y then (if 0 < x then PInf else NInf)
              else Fin (if 0 < x then y else - y))"

section \<open>The operations of the language\<close>

fun jlt :: "jsnum \<Rightarrow> jsnum \<Rightarrow> bool" where
  "jlt (Fin a) (Fin b) = (a < b)"
| "jlt (Fin _) PInf = True"
| "jlt NInf (Fin _) = True"
| "jlt NInf PInf = True"
| "jlt _ _ = False"

definition jle :: "jsnum \<Rightarrow> jsnum \<Rightarrow> bool" where
  "jle a b \<longleftrightarrow> jlt a b \<or> a = b \<and> a \<noteq> NaN"

definition jeq :: "jsnum \<Rightarrow> jsnum \<Rightarrow> bool" where
  "jeq a b \<longleftrightarrow> a = b \<and> a \<noteq> NaN"

fun jneg :: "jsnum \<Rightarrow> jsnum" where
  "jneg (Fin a) = Fin (- a)"
| "jneg PInf = NInf"
| "jneg NInf = PInf"
| "jneg NaN = NaN"

fun jadd :: "jsnum \<Rightarrow> jsnum \<Rightarrow> jsnum" where
  "jadd (Fin a) (Fin b) = rnd (a + b)"
| "jadd NaN _ = NaN"
| "jadd _ NaN = NaN"
| "jadd PInf NInf = NaN"
| "jadd NInf PInf = NaN"
| "jadd PInf _ = PInf"
| "jadd NInf _ = NInf"
| "jadd _ b = b"

definition jsub :: "jsnum \<Rightarrow> jsnum \<Rightarrow> jsnum" where
  "jsub a b = jadd a (jneg b)"

text \<open>An infinity with the sign of a finite factor; \<open>0 * Infinity\<close> is \<open>NaN\<close>.\<close>

definition inf_times :: "rat \<Rightarrow> jsnum" where
  "inf_times a = (if 0 < a then PInf else if a < 0 then NInf else NaN)"

fun jmul :: "jsnum \<Rightarrow> jsnum \<Rightarrow> jsnum" where
  "jmul (Fin a) (Fin b) = rnd (a * b)"
| "jmul NaN _ = NaN"
| "jmul _ NaN = NaN"
| "jmul (Fin a) PInf = inf_times a"
| "jmul (Fin a) NInf = inf_times (- a)"
| "jmul PInf (Fin a) = inf_times a"
| "jmul NInf (Fin a) = inf_times (- a)"
| "jmul PInf PInf = PInf"
| "jmul PInf NInf = NInf"
| "jmul NInf PInf = NInf"
| "jmul NInf NInf = PInf"

fun jdiv :: "jsnum \<Rightarrow> jsnum \<Rightarrow> jsnum" where
  "jdiv (Fin a) (Fin b) = (if b = 0 then inf_times a else rnd (a / b))"
| "jdiv NaN _ = NaN"
| "jdiv _ NaN = NaN"
| "jdiv (Fin _) _ = Fin 0"
| "jdiv PInf (Fin a) = (if a < 0 then NInf else PInf)"
| "jdiv NInf (Fin a) = (if a < 0 then PInf else NInf)"
| "jdiv _ _ = NaN"

definition jmax :: "jsnum \<Rightarrow> jsnum \<Rightarrow> jsnum" where
  "jmax a b = (if a = NaN \<or> b = NaN then NaN else if jlt a b then b else a)"

definition jmin :: "jsnum \<Rightarrow> jsnum \<Rightarrow> jsnum" where
  "jmin a b = (if a = NaN \<or> b = NaN then NaN else if jlt b a then b else a)"

fun jabs :: "jsnum \<Rightarrow> jsnum" where
  "jabs (Fin a) = Fin \<bar>a\<bar>"
| "jabs NaN = NaN"
| "jabs _ = PInf"

fun is_fin :: "jsnum \<Rightarrow> bool" where
  "is_fin (Fin _) = True"
| "is_fin _ = False"

text \<open>A decimal literal of the source is the double nearest to it.\<close>

definition lit :: "rat \<Rightarrow> jsnum" where
  "lit q = rnd q"

definition jsint :: "int \<Rightarrow> jsnum" where
  "jsint n = rnd (of_int n)"

text \<open>\<open>Math.round\<close>: to the nearest integer, halves upwards.\<close>

fun js_round :: "jsnum \<Rightarrow> jsnum" where
  "js_round (Fin q) = rnd (of_int \<lfloor>q + 1/2\<rfloor>)"
| "js_round x = x"

section \<open>Properties of rounding\<close>

lemma round_half_even_of_int [simp]: "round_half_even (of_int n) = n"
  by (simp add: round_half_even_def)

lemma round_half_even_bounds:
  "of_int (round_half_even q) \<le> q + 1/2" "q - 1/2 \<le> of_int (round_half_even q)"
proof -
  have "of_int \<lfloor>q\<rfloor> \<le> q" "q < of_int \<lfloor>q\<rfloor> + 1" by linarith+
  then show "of_int (round_half_even q) \<le> q + 1/2" "q - 1/2 \<le> of_int (round_half_even q)"
    unfolding round_half_even_def Let_def
    by (auto split: if_splits simp: field_simps) (use of_int_floor_le [of q] in linarith)+
qed

lemma round_half_even_mono: "p \<le> q \<Longrightarrow> round_half_even p \<le> round_half_even q"
proof -
  assume le: "p \<le> q"
  then consider (same_floor) "\<lfloor>p\<rfloor> = \<lfloor>q\<rfloor>" | (next_floor) "\<lfloor>p\<rfloor> + 1 \<le> \<lfloor>q\<rfloor>"
    using floor_mono [OF le] by linarith
  then show ?thesis
  proof cases
    case same_floor
    with le show ?thesis by (auto simp: round_half_even_def Let_def)
  next
    case next_floor
    then show ?thesis by (auto simp: round_half_even_def Let_def)
  qed
qed

lemma nbits_nonneg: "0 \<le> nbits n"
proof (induction n rule: nbits.induct)
  case (1 n)
  then show ?case by (subst nbits.simps) auto
qed

lemma nbits_bounds:
  assumes "0 < n"
  shows "(2::rat) powi (nbits n - 1) \<le> of_int n" "of_int n < (2::rat) powi (nbits n)"
proof -
  have "(2::rat) powi (nbits n - 1) \<le> of_int n \<and> of_int n < (2::rat) powi (nbits n)"
    using assms
  proof (induction n rule: nbits.induct)
    case (1 n)
    show ?case
    proof (cases "n = 1")
      case True
      then show ?thesis by (simp add: nbits.simps [of 1] nbits.simps [of 0])
    next
      case False
      with 1 have IH: "(2::rat) powi (nbits (n div 2) - 1) \<le> of_int (n div 2)"
        "of_int (n div 2) < (2::rat) powi (nbits (n div 2))" by auto
      have e: "nbits n = nbits (n div 2) + 1" using 1 by (subst nbits.simps) simp
      have "(2::rat) powi (nbits (n div 2) - 1) * 2 = 2 powi (nbits n - 1)"
        "(2::rat) powi (nbits (n div 2)) * 2 = 2 powi (nbits n)"
        by (simp_all add: e power_int_add power_int_diff)
      moreover have "2 * (of_int (n div 2) :: rat) \<le> of_int n"
      proof -
        have "2 * (n div 2) \<le> n" by presburger
        then have "(of_int (2 * (n div 2)) :: rat) \<le> of_int n" by (rule of_int_le_iff [THEN iffD2])
        then show ?thesis by simp
      qed
      moreover have "(of_int n :: rat) < 2 * (of_int (n div 2) + 1)"
      proof -
        have "n < 2 * (n div 2 + 1)" by presburger
        then have "(of_int n :: rat) < of_int (2 * (n div 2 + 1))" by (rule of_int_less_iff [THEN iffD2])
        then show ?thesis by simp
      qed
      moreover have "of_int (n div 2) + 1 \<le> (2::rat) powi (nbits (n div 2))"
      proof -
        have "(2::rat) powi (nbits (n div 2)) = of_int (2 ^ nat (nbits (n div 2)))"
          using nbits_nonneg [of "n div 2"] by (simp add: power_int_def)
        note pow = this
        from IH(2) have "n div 2 < 2 ^ nat (nbits (n div 2))" by (simp only: pow of_int_less_iff)
        then have "n div 2 + 1 \<le> 2 ^ nat (nbits (n div 2))" by simp
        then have "(of_int (n div 2 + 1) :: rat) \<le> of_int (2 ^ nat (nbits (n div 2)))" by (simp only: of_int_le_iff)
        then show ?thesis by (simp only: pow of_int_add of_int_1)
      qed
      ultimately show ?thesis using IH by linarith
    qed
  qed
  then show "(2::rat) powi (nbits n - 1) \<le> of_int n" "of_int n < (2::rat) powi (nbits n)"
    by auto
qed

lemma ilog2_bounds:
  assumes "0 < x"
  shows "2 powi (ilog2 x) \<le> x" "x < 2 powi (ilog2 x + 1)"
proof -
  obtain n d where nd: "quotient_of x = (n, d)" by (cases "quotient_of x")
  have d: "0 < d" and x: "x = of_int n / of_int d"
    using quotient_of_denom_pos [OF nd] quotient_of_div [OF nd] by auto
  with assms have n: "0 < n" by (simp add: zero_less_divide_iff)
  define a b where "a = nbits n" and "b = nbits d"
  have N: "(2::rat) powi (a - 1) \<le> of_int n" "of_int n < (2::rat) powi a"
    using nbits_bounds [OF n] by (auto simp: a_def)
  have D: "(2::rat) powi (b - 1) \<le> of_int d" "of_int d < (2::rat) powi b"
    using nbits_bounds [OF d] by (auto simp: b_def)
  have lo: "(2::rat) powi (a - b - 1) < x"
  proof -
    have "(2::rat) powi (a - b - 1) * of_int d < 2 powi (a - b - 1) * 2 powi b"
      using D by (intro mult_strict_left_mono) auto
    also have "\<dots> = 2 powi (a - 1)" by (simp flip: power_int_add)
    finally have "(2::rat) powi (a - b - 1) * of_int d < of_int n" using N by linarith
    then show ?thesis using d x by (simp add: less_divide_eq)
  qed
  have hi: "x < (2::rat) powi (a - b + 1)"
  proof -
    have "of_int n < (2::rat) powi (a - b + 1) * 2 powi (b - 1)"
      using N by (simp flip: power_int_add)
    also have "\<dots> \<le> (2::rat) powi (a - b + 1) * of_int d"
      using D by (intro mult_left_mono) auto
    finally show ?thesis using d x by (simp add: divide_less_eq)
  qed
  have e: "ilog2 x = (if 2 powi (a - b) \<le> x then a - b else a - b - 1)"
    by (simp add: ilog2_def nd a_def b_def)
  from e lo hi show "2 powi (ilog2 x) \<le> x" "x < 2 powi (ilog2 x + 1)"
    by (auto simp: not_le algebra_simps split: if_splits)
qed

lemma powi2_le_cancel: "(2::rat) powi a \<le> 2 powi b \<longleftrightarrow> a \<le> b"
proof
  assume le: "(2::rat) powi a \<le> 2 powi b"
  show "a \<le> b"
  proof (rule ccontr)
    assume "\<not> a \<le> b"
    then have "(2::rat) powi b < 2 powi a" by (intro power_int_strict_increasing) auto
    with le show False by simp
  qed
qed (simp add: power_int_increasing)

lemma powi2_less_cancel: "(2::rat) powi a < 2 powi b \<longleftrightarrow> a < b"
  using powi2_le_cancel [of b a] by linarith

lemma powi2_not_neg [simp]: "\<not> (2::rat) powi a < 0"
  by (simp add: not_less)

lemma ilog2_mono: "0 < x \<Longrightarrow> x \<le> y \<Longrightarrow> ilog2 x \<le> ilog2 y"
proof -
  assume "0 < x" "x \<le> y"
  then have "(2::rat) powi (ilog2 x) < 2 powi (ilog2 y + 1)"
    using ilog2_bounds [of x] ilog2_bounds [of y] by linarith
  then show ?thesis by (simp add: powi2_less_cancel)
qed

text \<open>The scaled significand lies in the binade \<open>[2 ^ 52, 2 ^ 53)\<close>, or below it for subnormals.\<close>

lemma mag_bounds_ulp:
  assumes "0 < x"
  shows "x / 2 powi (ulp_exp x) \<le> 2 ^ 53"
    and "-1022 \<le> ilog2 x \<Longrightarrow> 2 ^ 52 \<le> x / 2 powi (ulp_exp x)"
proof -
  have "x < 2 powi (ilog2 x + 1)" using assms by (rule ilog2_bounds)
  also have "\<dots> \<le> 2 powi (53 + ulp_exp x)"
    by (simp add: powi2_le_cancel ulp_exp_def)
  also have "\<dots> = 2 ^ 53 * 2 powi (ulp_exp x)"
    by (simp add: power_int_add)
  finally show "x / 2 powi (ulp_exp x) \<le> 2 ^ 53"
    by (simp add: divide_le_eq)
next
  assume "-1022 \<le> ilog2 x"
  then have "2 powi (52 + ulp_exp x) \<le> x"
    using ilog2_bounds(1) [OF assms] by (simp add: ulp_exp_def max_def)
  then have "2 ^ 52 * 2 powi (ulp_exp x) \<le> x"
    by (simp add: power_int_add)
  then show "2 ^ 52 \<le> x / 2 powi (ulp_exp x)"
    by (simp add: le_divide_eq)
qed

lemma round_half_even_le: "q \<le> of_int n \<Longrightarrow> round_half_even q \<le> n"
  using round_half_even_mono [of q "of_int n"] by simp

lemma round_half_even_ge: "of_int n \<le> q \<Longrightarrow> n \<le> round_half_even q"
  using round_half_even_mono [of "of_int n" q] by simp

lemma mag_nonneg: "0 \<le> x \<Longrightarrow> 0 \<le> mag x"
  unfolding mag_def by (intro mult_nonneg_nonneg) (auto intro: round_half_even_ge)

lemma mag_le_binade: "0 < x \<Longrightarrow> mag x \<le> 2 powi (53 + ulp_exp x)"
proof -
  assume "0 < x"
  then have "round_half_even (x / 2 powi (ulp_exp x)) \<le> 2 ^ 53"
    using mag_bounds_ulp(1) [of x] by (intro round_half_even_le) simp
  then have "(of_int (round_half_even (x / 2 powi (ulp_exp x))) :: rat) \<le> 2 ^ 53"
    by (metis of_int_le_iff of_int_numeral of_int_power)
  then show ?thesis by (simp add: mag_def power_int_add)
qed

lemma mag_ge_binade: "0 < x \<Longrightarrow> -1022 \<le> ilog2 x \<Longrightarrow> 2 powi (ilog2 x) \<le> mag x"
proof -
  assume "0 < x" and n: "-1022 \<le> ilog2 x"
  then have "2 ^ 52 \<le> round_half_even (x / 2 powi (ulp_exp x))"
    using mag_bounds_ulp(2) [of x] by (intro round_half_even_ge) simp
  then have "2 ^ 52 \<le> (of_int (round_half_even (x / 2 powi (ulp_exp x))) :: rat)"
    by (metis of_int_le_iff of_int_numeral of_int_power)
  then have "2 powi (52 + ulp_exp x) \<le> mag x" by (simp add: mag_def power_int_add)
  with n show ?thesis by (simp add: ulp_exp_def max_def)
qed

lemma mag_mono: "0 < x \<Longrightarrow> x \<le> y \<Longrightarrow> mag x \<le> mag y"
proof -
  assume x: "0 < x" and le: "x \<le> y"
  then have y: "0 < y" by simp
  have e: "ulp_exp x \<le> ulp_exp y"
    using ilog2_mono [OF x le] by (simp add: ulp_exp_def)
  show ?thesis
  proof (cases "ulp_exp x = ulp_exp y")
    case True
    have "x / 2 powi (ulp_exp y) \<le> y / 2 powi (ulp_exp y)"
      using le by (simp add: divide_right_mono)
    then show ?thesis
      unfolding mag_def True by (intro mult_right_mono) (auto intro: round_half_even_mono)
  next
    case False
    with e have lt: "ulp_exp x < ulp_exp y" by simp
    then have n: "-1022 \<le> ilog2 y" "53 + ulp_exp x \<le> ilog2 y"
      by (auto simp: ulp_exp_def)
    have "mag x \<le> 2 powi (53 + ulp_exp x)" using x by (rule mag_le_binade)
    also have "\<dots> \<le> 2 powi (ilog2 y)" using n by (simp add: powi2_le_cancel)
    also have "\<dots> \<le> mag y" using y n by (intro mag_ge_binade)
    finally show ?thesis .
  qed
qed

text \<open>A number with at most 53 significant bits, not below the subnormal range, is exact.\<close>

lemma mag_exact:
  assumes "0 < m" "m < 2 ^ 53" "-1074 \<le> k"
  shows "mag (of_int m * 2 powi k) = of_int m * 2 powi k"
proof -
  let ?x = "of_int m * 2 powi k :: rat"
  have pos: "0 < ?x" using assms by simp
  have m: "(of_int m :: rat) < 2 ^ 53"
    using assms by (metis of_int_less_iff of_int_numeral of_int_power)
  have "2 powi (ilog2 ?x) \<le> ?x" using pos by (rule ilog2_bounds)
  also have "?x < 2 ^ 53 * 2 powi k" using m by simp
  also have "\<dots> = 2 powi (53 + k)" by (simp add: power_int_add)
  finally have "ulp_exp ?x \<le> k"
    using assms by (simp add: powi2_less_cancel ulp_exp_def)
  then obtain j where j: "k = int j + ulp_exp ?x"
    by (metis add.commute diff_add_cancel nonneg_int_cases diff_ge_0_iff_ge)
  define E where "E = ulp_exp ?x"
  define U where "U = (2::rat) powi E"
  have U: "0 < U" by (simp add: U_def)
  have "k = int j + E" using j by (simp add: E_def)
  then have K: "(2::rat) powi k = 2 ^ j * U" by (simp add: U_def power_int_add)
  have "?x / U = of_int (m * 2 ^ j)" using U by (simp add: K)
  then have "mag ?x = of_int (m * 2 ^ j) * U"
    by (simp only: mag_def round_half_even_of_int U_def E_def)
  also have "\<dots> = ?x" by (simp add: K)
  finally show ?thesis .
qed

lemma mag_exact_le:
  assumes "0 < m" "m \<le> 2 ^ 53" "-1074 \<le> k"
  shows "mag (of_int m * 2 powi k) = of_int m * 2 powi k"
proof (cases "m = 2 ^ 53")
  case True
  then have "(of_int m :: rat) * 2 powi k = of_int 1 * 2 powi (53 + k)"
    by (simp add: power_int_add)
  then show ?thesis using mag_exact [of 1 "53 + k"] assms by simp
next
  case False
  then show ?thesis using assms by (intro mag_exact) auto
qed

lemma mag_idem: "0 < x \<Longrightarrow> 0 < mag x \<Longrightarrow> mag (mag x) = mag x"
proof -
  assume x: "0 < x" and pos: "0 < mag x"
  define m where "m = round_half_even (x / 2 powi (ulp_exp x))"
  have eq: "mag x = of_int m * 2 powi (ulp_exp x)" by (simp add: mag_def m_def)
  have "m \<le> 2 ^ 53"
    unfolding m_def using mag_bounds_ulp(1) [OF x] by (intro round_half_even_le) simp
  moreover have "0 < m" using pos eq by (simp add: zero_less_mult_iff)
  moreover have "-1074 \<le> ulp_exp x" by (simp add: ulp_exp_def)
  ultimately show ?thesis unfolding eq by (intro mag_exact_le)
qed

lemma rnd_zero [simp]: "rnd 0 = Fin 0"
  by (simp add: rnd_def)

lemma rnd_neg: "rnd (- x) = jneg (rnd x)"
  by (auto simp: rnd_def Let_def)

lemma rnd_not_NaN [simp]: "rnd x \<noteq> NaN"
  by (auto simp: rnd_def Let_def)

lemma rnd_idem: "rnd x = Fin y \<Longrightarrow> rnd y = Fin y"
proof -
  assume r: "rnd x = Fin y"
  show ?thesis
  proof (cases "y = 0")
    case True
    then show ?thesis by simp
  next
    case False
    with r have x: "0 < \<bar>x\<bar>" and y: "\<bar>y\<bar> = mag \<bar>x\<bar>" "mag \<bar>x\<bar> < 2 ^ 1024"
      using mag_nonneg [of "\<bar>x\<bar>"] by (auto simp: rnd_def Let_def split: if_splits)
    from False y(1) have "0 < mag \<bar>x\<bar>" by linarith
    with x y(1) have "mag \<bar>y\<bar> = \<bar>y\<bar>" by (simp add: mag_idem)
    with y False show ?thesis by (auto simp: rnd_def Let_def)
  qed
qed

lemma rnd_pos_mono: "0 < x \<Longrightarrow> x \<le> y \<Longrightarrow> jle (rnd x) (rnd y)"
  using mag_mono [of x y] by (auto simp: rnd_def Let_def jle_def)

lemma rnd_nonneg: "0 \<le> x \<Longrightarrow> jle (Fin 0) (rnd x)"
  using mag_nonneg [of x] by (auto simp: rnd_def Let_def jle_def less_eq_rat_def)

lemma jle_refl [simp]: "jle a a \<longleftrightarrow> a \<noteq> NaN"
  by (auto simp: jle_def)

lemma jle_Fin [simp]: "jle (Fin a) (Fin b) \<longleftrightarrow> a \<le> b"
  by (auto simp: jle_def)

lemma jle_trans: "jle a b \<Longrightarrow> jle b c \<Longrightarrow> jle a c"
  by (cases a; cases b; cases c) (auto simp: jle_def)

lemma jle_jneg [simp]: "jle (jneg a) (jneg b) \<longleftrightarrow> jle b a"
  by (cases a; cases b) (auto simp: jle_def)

lemma jneg_jneg [simp]: "jneg (jneg a) = a"
  by (cases a) auto

lemma rnd_mono: "x \<le> y \<Longrightarrow> jle (rnd x) (rnd y)"
proof -
  assume le: "x \<le> y"
  consider "0 < x" | "y < 0" | "x \<le> 0" "0 \<le> y" by linarith
  then show ?thesis
  proof cases
    case 1
    then show ?thesis using le by (rule rnd_pos_mono)
  next
    case 2
    then have "jle (rnd (- y)) (rnd (- x))" using le by (intro rnd_pos_mono) auto
    then show ?thesis by (simp add: rnd_neg)
  next
    case 3
    then have "jle (rnd x) (Fin 0)" using rnd_nonneg [of "- x"]
      by (metis jle_jneg jneg.simps(1) neg_equal_0_iff_equal neg_0_le_iff_le rnd_neg)
    then show ?thesis using 3 rnd_nonneg [of y] by (blast intro: jle_trans)
  qed
qed

lemma rnd_dyadic:
  assumes "\<bar>m\<bar> \<le> 2 ^ 53" "-1074 \<le> k" "k \<le> 970"
  shows "rnd (of_int m * 2 powi k) = Fin (of_int m * 2 powi k)"
proof (cases "m = 0")
  case True
  then show ?thesis by simp
next
  case False
  let ?a = "of_int \<bar>m\<bar> * 2 powi k :: rat"
  have a: "\<bar>of_int m * 2 powi k :: rat\<bar> = ?a" by (simp add: abs_mult)
  have "mag ?a = ?a" using False assms by (intro mag_exact_le) auto
  moreover have "?a < 2 ^ 1024"
  proof -
    have "(of_int \<bar>m\<bar> :: rat) \<le> 2 ^ 53"
      using assms(1) by (metis of_int_le_iff of_int_numeral of_int_power)
    then have "?a \<le> 2 ^ 53 * 2 powi k" by (intro mult_right_mono) auto
    also have "\<dots> = 2 powi (53 + k)" by (simp add: power_int_add)
    also have "\<dots> < 2 powi 1024" using assms by (simp only: powi2_less_cancel)
    finally show ?thesis by simp
  qed
  ultimately show ?thesis using False a
    by (auto simp: rnd_def Let_def abs_if zero_less_mult_iff split: if_splits)
qed

lemma rnd_of_int: "\<bar>n\<bar> \<le> 2 ^ 53 \<Longrightarrow> rnd (of_int n) = Fin (of_int n)"
  using rnd_dyadic [of n 0] by simp

lemma rnd_numeral [simp]:
  "(numeral k :: int) \<le> 2 ^ 53 \<Longrightarrow> rnd (numeral k) = Fin (numeral k)"
  "(numeral k :: int) \<le> 2 ^ 53 \<Longrightarrow> rnd (- numeral k) = Fin (- numeral k)"
  "rnd 1 = Fin 1" "rnd (- 1) = Fin (- 1)"
  using rnd_of_int [of "numeral k"] rnd_of_int [of "- numeral k"] rnd_of_int [of 1]
    rnd_of_int [of "- 1"] by simp_all

text \<open>
  Evaluation of a rounding at a concrete rational: the binade \<open>e\<close> and the significand \<open>m\<close> are
  given, and their defining inequalities are decided on numerals.
\<close>

lemma ilog2_eqI: "2 powi e \<le> x \<Longrightarrow> x < 2 powi (e + 1) \<Longrightarrow> ilog2 x = e"
proof -
  assume *: "2 powi e \<le> x" "x < 2 powi (e + 1)"
  moreover have "(0::rat) < 2 powi e" by simp
  ultimately have "0 < x" by linarith
  from ilog2_bounds [OF this] * have "(2::rat) powi e < 2 powi (ilog2 x + 1)"
    "(2::rat) powi (ilog2 x) < 2 powi (e + 1)" by linarith+
  then show ?thesis by (simp only: powi2_less_cancel)
qed

lemma round_half_even_eqI: "\<bar>q - of_int m\<bar> < 1/2 \<Longrightarrow> round_half_even q = m"
  using round_half_even_bounds [of q] by linarith

lemma rnd_eqI:
  assumes "2 powi e \<le> x" "x < 2 powi (e + 1)" "-1022 \<le> e" "e < 1022"
    and "\<bar>x / 2 powi (e - 52) - of_int m\<bar> < 1/2" "m \<le> 2 ^ 53"
  shows "rnd x = Fin (of_int m * 2 powi (e - 52))"
proof -
  have "(0::rat) < 2 powi e" by simp
  with assms have x: "0 < x" by linarith
  have "ulp_exp x = e - 52" using ilog2_eqI [OF assms(1,2)] assms(3) by (simp add: ulp_exp_def)
  then have m: "mag x = of_int m * 2 powi (e - 52)"
    using round_half_even_eqI [OF assms(5)] by (simp add: mag_def)
  have "(of_int m :: rat) \<le> 2 ^ 53"
    using assms(6) by (metis of_int_le_iff of_int_numeral of_int_power)
  then have "mag x \<le> 2 ^ 53 * 2 powi (e - 52)" unfolding m by (intro mult_right_mono) auto
  also have "\<dots> = 2 powi (e + 1)" by (simp add: power_int_add power_int_diff)
  also have "\<dots> < 2 powi 1024" using assms(4) by (simp only: powi2_less_cancel)
  finally have "mag x < 2 ^ 1024" by simp
  with x m show ?thesis by (simp add: rnd_def)
qed

lemma lit_1_3: "lit (13/10) = Fin (5854679515581645 / 4503599627370496)"
  using rnd_eqI [of 0 "13/10" 5854679515581645] by (simp add: lit_def power_int_def power_one_over)

lemma lit_1_100: "lit (1/100) = Fin (5764607523034235 / 576460752303423488)"
  using rnd_eqI [of "-7" "1/100" 5764607523034235] by (simp add: lit_def power_int_def power_one_over)

section \<open>What the clients use of rounding\<close>

text \<open>
  The contract of a rounding mode of IEEE 754: monotone, symmetric, a projection, never \<open>NaN\<close>.
  The order facts about ledgers, drawdowns and thresholds are proved from it once.
\<close>

locale rounding =
  fixes r :: "rat \<Rightarrow> jsnum"
  assumes mono: "x \<le> y \<Longrightarrow> jle (r x) (r y)"
    and sym: "r (- x) = jneg (r x)"
    and idem: "r x = Fin y \<Longrightarrow> r y = Fin y"
    and zero: "r 0 = Fin 0"
begin

lemma diff_nonneg: "a \<le> b \<Longrightarrow> jle (Fin 0) (r (b - a))"
  using mono [of 0 "b - a"] by (simp add: zero)

lemma diff_le: "0 \<le> a \<Longrightarrow> r b = Fin b \<Longrightarrow> jle (r (b - a)) (Fin b)"
  using mono [of "b - a" b] by simp

lemma sum_ge: "0 \<le> b \<Longrightarrow> r a = Fin a \<Longrightarrow> jle (Fin a) (r (a + b))"
  using mono [of a "a + b"] by simp

lemma prod_nonneg: "0 \<le> a \<Longrightarrow> 0 \<le> b \<Longrightarrow> jle (Fin 0) (r (a * b))"
  using mono [of 0 "a * b"] by (simp add: zero)

lemma nonneg_result: "0 \<le> x \<Longrightarrow> r x = Fin y \<Longrightarrow> 0 \<le> y"
  using mono [of 0 x] by (simp add: zero)

lemma nonpos_result: "x \<le> 0 \<Longrightarrow> r x = Fin y \<Longrightarrow> y \<le> 0"
  using mono [of x 0] by (simp add: zero)

lemma between_finite:
  assumes "r a = Fin a" "a \<le> x" "x \<le> b" "r b = Fin b"
  obtains y where "r x = Fin y" "a \<le> y" "y \<le> b"
  using mono [OF assms(2)] mono [OF assms(3)] assms(1,4)
  by (cases "r x") (auto simp: jle_def)

end

interpretation fl: rounding rnd
  by unfold_locales (auto intro: rnd_mono rnd_idem simp: rnd_neg)

text \<open>
  Every \<open>number\<close> the program holds is a double: a finite one is a fixed point of \<open>rnd\<close>. The
  operations keep this invariant.
\<close>

definition dbl :: "jsnum \<Rightarrow> bool" where
  "dbl x \<longleftrightarrow> (case x of Fin q \<Rightarrow> rnd q = Fin q | _ \<Rightarrow> True)"

lemma dbl_simps [simp]: "dbl PInf" "dbl NInf" "dbl NaN" "dbl (Fin 0)" "dbl (Fin 1)"
  by (simp_all add: dbl_def)

lemma dbl_Fin: "dbl (Fin q) \<longleftrightarrow> rnd q = Fin q"
  by (simp add: dbl_def)

lemma dbl_rnd [simp]: "dbl (rnd q)"
  by (auto simp: dbl_def split: jsnum.split intro: rnd_idem)

lemma dbl_jneg [simp]: "dbl (jneg a) \<longleftrightarrow> dbl a"
proof -
  have "dbl (jneg b)" if "dbl b" for b
    using that by (cases b) (auto simp: dbl_def rnd_neg)
  from this [of a] this [of "jneg a"] show ?thesis by auto
qed

lemma dbl_inf_times [simp]: "dbl (inf_times a)"
  by (simp add: inf_times_def)

lemma dbl_jadd [simp]: "dbl a \<Longrightarrow> dbl b \<Longrightarrow> dbl (jadd a b)"
  by (cases a; cases b) auto

lemma dbl_jsub [simp]: "dbl a \<Longrightarrow> dbl b \<Longrightarrow> dbl (jsub a b)"
  by (simp add: jsub_def)

lemma dbl_jmul [simp]: "dbl (jmul a b)"
  by (cases a; cases b) auto

lemma dbl_jdiv [simp]: "dbl (jdiv a b)"
  by (cases a; cases b) auto

lemma dbl_jmax [simp]: "dbl a \<Longrightarrow> dbl b \<Longrightarrow> dbl (jmax a b)"
  by (simp add: jmax_def)

lemma dbl_jmin [simp]: "dbl a \<Longrightarrow> dbl b \<Longrightarrow> dbl (jmin a b)"
  by (simp add: jmin_def)

lemma jsub_Fin [simp]: "jsub (Fin a) (Fin b) = rnd (a - b)"
  by (simp add: jsub_def)

lemma jmax_Fin [simp]: "jmax (Fin a) (Fin b) = Fin (max a b)"
  by (simp add: jmax_def max_def)

lemma jmin_Fin [simp]: "jmin (Fin a) (Fin b) = Fin (min a b)"
  by (simp add: jmin_def min_def)

lemma jlt_irrefl [simp]: "\<not> jlt a a"
  by (cases a) auto

lemma jlt_not_jle: "jlt a b \<Longrightarrow> \<not> jle b a"
  by (cases a; cases b) (auto simp: jle_def)

lemma jle_not_NaN: "jle a b \<Longrightarrow> a \<noteq> NaN \<and> b \<noteq> NaN"
  by (cases a; cases b) (auto simp: jle_def)

lemma is_fin_iff: "is_fin x \<longleftrightarrow> (\<exists>q. x = Fin q)"
  by (cases x) auto

lemma jsint_mono: "m \<le> n \<Longrightarrow> jle (jsint m) (jsint n)"
  by (simp add: jsint_def rnd_mono)

end
