(* ===== verification/SmTypes.thy ===== *)
theory SmTypes
  imports JsNumber
begin

text \<open>
  The types of the betting state machine: \<open>src/src/core/state-machine/types.ts\<close>, with the
  round state of \<open>src/src/types/game.ts\<close> and the entry conditions of
  \<open>src/src/types/betting.ts\<close>. Constructors carry the names of the source's string literals.
  An ISO timestamp that the machine compares is kept as the epoch millisecond it denotes;
  one it only passes on stays a string.
\<close>

section \<open>The observed round\<close>

datatype round_phase = Ph_idle | Ph_starting | Ph_running | Ph_crashed | Ph_unknown

datatype observation_source = Src_websocket | Src_dom | Src_api | Src_unknown

datatype observation_confidence = Conf_high | Conf_medium | Conf_low

record round_state =
  rs_roundId :: "string option"
  rs_phase :: round_phase
  rs_currentMultiplier :: "jsnum option"
  rs_startedAt :: "string option"
  rs_crashedAt :: "string option"
  rs_crashPoint :: "jsnum option"
  rs_lastTickAt :: "string option"
  rs_source :: observation_source
  rs_confidence :: observation_confidence

record entry_conditions =
  ec_modeIsLive :: bool
  ec_operatorAuthorized :: bool
  ec_sessionAuthenticated :: bool
  ec_gameLoaded :: bool
  ec_roundStateValid :: bool
  ec_balanceSufficient :: bool
  ec_dailyEntriesBelowLimit :: bool
  ec_notPaused :: bool
  ec_killSwitchOff :: bool
  ec_browserHealthy :: bool
  ec_gameAdapterHealthy :: bool
  ec_observationConfidenceHigh :: bool
  ec_noOpenBet :: bool
  ec_cooldownElapsed :: bool

section \<open>States and events\<close>

datatype betting_state =
    IDLE | READY_TO_OBSERVE | OBSERVING | ENTRY_EVALUATING | ENTRY_APPROVED | BET_PLACING
  | BET_ACTIVE | CASH_OUT_ARMED | CASH_OUT_REQUESTED | ROUND_COMPLETE | RESULT_RECORDED
  | COOLDOWN | PAUSED | ERROR | HALTED | RECONCILING

datatype resolution = Res_CASHED_OUT | Res_LOST | Res_UNKNOWN

datatype sm_event =
    BROWSER_READY
  | AUTHENTICATED
  | GAME_LOADED
  | ROUND_STARTED string round_state
  | RISK_APPROVED entry_conditions
  | RISK_REJECTED string
  | ENTRY_CHECKS_PASSED
  | ENTRY_CHECKS_FAILED string
  | BET_SUBMITTED string
  | BET_CONFIRMED string
  | BET_PLACEMENT_FAILED string
  | BET_PLACEMENT_TIMEOUT
  | MULTIPLIER_REACHED_TARGET jsnum
  | CASH_OUT_TRIGGERED
  | CASH_OUT_CONFIRMED jsnum jsnum
  | CASH_OUT_FAILED string
  | CASH_OUT_TIMEOUT
  | ROUND_CRASHED jsnum
  | OUTCOME_RECORDED
  | COOLDOWN_ELAPSED
  | PAUSE_REQUESTED string
  | RESUME_REQUESTED
  | RECOVER
  | RECOVERY_COMPLETE
  | RECONCILE "string option"
  | RECONCILIATION_COMPLETE resolution
  | STALE_MULTIPLIER
  | HEALTH_DEGRADED string string
  | CRITICAL_ERROR string string
  | HALT string
  | RESET
  | FORCE_STATE string string

text \<open>The discriminator \<open>event.type\<close>.\<close>

datatype event_type =
    T_BROWSER_READY | T_AUTHENTICATED | T_GAME_LOADED | T_ROUND_STARTED | T_RISK_APPROVED
  | T_RISK_REJECTED | T_ENTRY_CHECKS_PASSED | T_ENTRY_CHECKS_FAILED | T_BET_SUBMITTED
  | T_BET_CONFIRMED | T_BET_PLACEMENT_FAILED | T_BET_PLACEMENT_TIMEOUT
  | T_MULTIPLIER_REACHED_TARGET | T_CASH_OUT_TRIGGERED | T_CASH_OUT_CONFIRMED
  | T_CASH_OUT_FAILED | T_CASH_OUT_TIMEOUT | T_ROUND_CRASHED | T_OUTCOME_RECORDED
  | T_COOLDOWN_ELAPSED | T_PAUSE_REQUESTED | T_RESUME_REQUESTED | T_RECOVER
  | T_RECOVERY_COMPLETE | T_RECONCILE | T_RECONCILIATION_COMPLETE | T_STALE_MULTIPLIER
  | T_HEALTH_DEGRADED | T_CRITICAL_ERROR | T_HALT | T_RESET | T_FORCE_STATE

fun ev_type :: "sm_event \<Rightarrow> event_type" where
  "ev_type BROWSER_READY = T_BROWSER_READY"
| "ev_type AUTHENTICATED = T_AUTHENTICATED"
| "ev_type GAME_LOADED = T_GAME_LOADED"
| "ev_type (ROUND_STARTED _ _) = T_ROUND_STARTED"
| "ev_type (RISK_APPROVED _) = T_RISK_APPROVED"
| "ev_type (RISK_REJECTED _) = T_RISK_REJECTED"
| "ev_type ENTRY_CHECKS_PASSED = T_ENTRY_CHECKS_PASSED"
| "ev_type (ENTRY_CHECKS_FAILED _) = T_ENTRY_CHECKS_FAILED"
| "ev_type (BET_SUBMITTED _) = T_BET_SUBMITTED"
| "ev_type (BET_CONFIRMED _) = T_BET_CONFIRMED"
| "ev_type (BET_PLACEMENT_FAILED _) = T_BET_PLACEMENT_FAILED"
| "ev_type BET_PLACEMENT_TIMEOUT = T_BET_PLACEMENT_TIMEOUT"
| "ev_type (MULTIPLIER_REACHED_TARGET _) = T_MULTIPLIER_REACHED_TARGET"
| "ev_type CASH_OUT_TRIGGERED = T_CASH_OUT_TRIGGERED"
| "ev_type (CASH_OUT_CONFIRMED _ _) = T_CASH_OUT_CONFIRMED"
| "ev_type (CASH_OUT_FAILED _) = T_CASH_OUT_FAILED"
| "ev_type CASH_OUT_TIMEOUT = T_CASH_OUT_TIMEOUT"
| "ev_type (ROUND_CRASHED _) = T_ROUND_CRASHED"
| "ev_type OUTCOME_RECORDED = T_OUTCOME_RECORDED"
| "ev_type COOLDOWN_ELAPSED = T_COOLDOWN_ELAPSED"
| "ev_type (PAUSE_REQUESTED _) = T_PAUSE_REQUESTED"
| "ev_type RESUME_REQUESTED = T_RESUME_REQUESTED"
| "ev_type RECOVER = T_RECOVER"
| "ev_type RECOVERY_COMPLETE = T_RECOVERY_COMPLETE"
| "ev_type (RECONCILE _) = T_RECONCILE"
| "ev_type (RECONCILIATION_COMPLETE _) = T_RECONCILIATION_COMPLETE"
| "ev_type STALE_MULTIPLIER = T_STALE_MULTIPLIER"
| "ev_type (HEALTH_DEGRADED _ _) = T_HEALTH_DEGRADED"
| "ev_type (CRITICAL_ERROR _ _) = T_CRITICAL_ERROR"
| "ev_type (HALT _) = T_HALT"
| "ev_type RESET = T_RESET"
| "ev_type (FORCE_STATE _ _) = T_FORCE_STATE"

section \<open>The context\<close>

record sm_context =
  ctx_sessionId :: string
  ctx_currentRoundId :: "string option"
  ctx_currentBetId :: "string option"
  ctx_roundState :: "round_state option"
  ctx_currentBalance :: "jsnum option"
  ctx_dryRun :: bool
  ctx_paused :: bool
  ctx_killSwitch :: bool
  ctx_consecutiveErrors :: int
  ctx_cashOutFailures :: int
  ctx_lastBetAt :: "int option"
  ctx_lastEntryConditions :: "entry_conditions option"
  ctx_lastRejectionReason :: "string option"
  ctx_openBetExists :: bool
  ctx_browserHealthy :: bool
  ctx_gameAdapterHealthy :: bool
  ctx_minConfidenceForEntry :: observation_confidence
  ctx_cooldownMs :: int
  ctx_maxConsecutiveErrors :: int
  ctx_maxCashOutFailures :: int

text \<open>\<open>Partial<StateMachineContext>\<close> spread over a context is a function on contexts.\<close>

definition createDefaultContext ::
  "string \<Rightarrow> (sm_context \<Rightarrow> sm_context) \<Rightarrow> sm_context" where
  "createDefaultContext sessionId overrides = overrides
     \<lparr>ctx_sessionId = sessionId,
      ctx_currentRoundId = None,
      ctx_currentBetId = None,
      ctx_roundState = None,
      ctx_currentBalance = None,
      ctx_dryRun = False,
      ctx_paused = False,
      ctx_killSwitch = False,
      ctx_consecutiveErrors = 0,
      ctx_cashOutFailures = 0,
      ctx_lastBetAt = None,
      ctx_lastEntryConditions = None,
      ctx_lastRejectionReason = None,
      ctx_openBetExists = False,
      ctx_browserHealthy = True,
      ctx_gameAdapterHealthy = True,
      ctx_minConfidenceForEntry = Conf_high,
      ctx_cooldownMs = 5000,
      ctx_maxConsecutiveErrors = 3,
      ctx_maxCashOutFailures = 2\<rparr>"

end
