(* ===== verification/SmTransitions.thy ===== *)
theory SmTransitions
  imports SmTypes
begin

text \<open>
  The transition matrix of \<open>src/src/core/state-machine/transitions.ts\<close>, in the order of the
  source, with the lookup map the module builds from it and its query functions. The rules'
  description texts are not modelled: a rule stands for its own description.
\<close>

record transition_rule =
  tr_from :: betting_state
  tr_event :: event_type
  tr_to :: betting_state
  tr_requiresGuard :: bool

abbreviation mk_rule ::
  "betting_state \<Rightarrow> event_type \<Rightarrow> betting_state \<Rightarrow> bool \<Rightarrow> transition_rule" where
  "mk_rule f e t g \<equiv> \<lparr>tr_from = f, tr_event = e, tr_to = t, tr_requiresGuard = g\<rparr>"

definition TRANSITION_RULES :: "transition_rule list" where
  "TRANSITION_RULES =
  [mk_rule IDLE T_BROWSER_READY READY_TO_OBSERVE False,
   mk_rule READY_TO_OBSERVE T_AUTHENTICATED READY_TO_OBSERVE False,
   mk_rule READY_TO_OBSERVE T_GAME_LOADED OBSERVING False,
   mk_rule OBSERVING T_ROUND_STARTED ENTRY_EVALUATING True,
   mk_rule COOLDOWN T_ROUND_STARTED ENTRY_EVALUATING True,
   mk_rule ENTRY_EVALUATING T_RISK_APPROVED ENTRY_APPROVED True,
   mk_rule ENTRY_EVALUATING T_RISK_REJECTED OBSERVING False,
   mk_rule ENTRY_EVALUATING T_ENTRY_CHECKS_FAILED OBSERVING False,
   mk_rule ENTRY_APPROVED T_ENTRY_CHECKS_PASSED BET_PLACING True,
   mk_rule ENTRY_APPROVED T_BET_SUBMITTED BET_PLACING True,
   mk_rule BET_PLACING T_BET_CONFIRMED BET_ACTIVE False,
   mk_rule BET_PLACING T_BET_PLACEMENT_FAILED ERROR False,
   mk_rule BET_PLACING T_BET_PLACEMENT_TIMEOUT ERROR False,
   mk_rule BET_ACTIVE T_MULTIPLIER_REACHED_TARGET CASH_OUT_ARMED False,
   mk_rule BET_ACTIVE T_ROUND_CRASHED ROUND_COMPLETE False,
   mk_rule CASH_OUT_ARMED T_CASH_OUT_TRIGGERED CASH_OUT_REQUESTED True,
   mk_rule CASH_OUT_REQUESTED T_CASH_OUT_CONFIRMED ROUND_COMPLETE False,
   mk_rule CASH_OUT_REQUESTED T_CASH_OUT_FAILED ERROR False,
   mk_rule CASH_OUT_REQUESTED T_CASH_OUT_TIMEOUT ERROR False,
   mk_rule CASH_OUT_REQUESTED T_ROUND_CRASHED ROUND_COMPLETE False,
   mk_rule ROUND_COMPLETE T_OUTCOME_RECORDED RESULT_RECORDED False,
   mk_rule RESULT_RECORDED T_COOLDOWN_ELAPSED COOLDOWN False,
   mk_rule COOLDOWN T_COOLDOWN_ELAPSED OBSERVING False,
   mk_rule OBSERVING T_PAUSE_REQUESTED PAUSED False,
   mk_rule ENTRY_EVALUATING T_PAUSE_REQUESTED PAUSED False,
   mk_rule ENTRY_APPROVED T_PAUSE_REQUESTED PAUSED False,
   mk_rule COOLDOWN T_PAUSE_REQUESTED PAUSED False,
   mk_rule PAUSED T_RESUME_REQUESTED OBSERVING True,
   mk_rule OBSERVING T_STALE_MULTIPLIER ERROR False,
   mk_rule OBSERVING T_HEALTH_DEGRADED ERROR False,
   mk_rule ENTRY_EVALUATING T_HEALTH_DEGRADED ERROR False,
   mk_rule BET_PLACING T_HEALTH_DEGRADED ERROR False,
   mk_rule BET_ACTIVE T_HEALTH_DEGRADED ERROR False,
   mk_rule CASH_OUT_REQUESTED T_HEALTH_DEGRADED ERROR False,
   mk_rule BET_ACTIVE T_CRITICAL_ERROR ERROR False,
   mk_rule BET_PLACING T_CRITICAL_ERROR ERROR False,
   mk_rule CASH_OUT_REQUESTED T_CRITICAL_ERROR ERROR False,
   mk_rule OBSERVING T_CRITICAL_ERROR ERROR False,
   mk_rule OBSERVING T_RECONCILE RECONCILING False,
   mk_rule ENTRY_EVALUATING T_RECONCILE RECONCILING False,
   mk_rule BET_PLACING T_RECONCILE RECONCILING False,
   mk_rule BET_ACTIVE T_RECONCILE RECONCILING False,
   mk_rule CASH_OUT_ARMED T_RECONCILE RECONCILING False,
   mk_rule CASH_OUT_REQUESTED T_RECONCILE RECONCILING False,
   mk_rule COOLDOWN T_RECONCILE RECONCILING False,
   mk_rule ERROR T_RECOVER RECONCILING True,
   mk_rule ERROR T_RECONCILE RECONCILING False,
   mk_rule RECONCILING T_RECONCILIATION_COMPLETE OBSERVING False,
   mk_rule RECONCILING T_RECOVERY_COMPLETE OBSERVING False,
   mk_rule ERROR T_HALT HALTED False,
   mk_rule OBSERVING T_HALT HALTED False,
   mk_rule PAUSED T_HALT HALTED False,
   mk_rule RECONCILING T_HALT HALTED False,
   mk_rule BET_ACTIVE T_HALT HALTED False,
   mk_rule HALTED T_RESET IDLE False,
   mk_rule ERROR T_RESET IDLE False,
   mk_rule PAUSED T_RESET IDLE False]"

text \<open>
  The module's \<open>Map\<close>, keyed by the pair of state and event type (the source joins the two with
  a colon, which neither contains), filled by one pass over the rules.
\<close>

type_synonym transition_map = "betting_state \<times> event_type \<rightharpoonup> transition_rule list"

definition add_rule :: "transition_map \<Rightarrow> transition_rule \<Rightarrow> transition_map" where
  "add_rule m r =
     (let key = (tr_from r, tr_event r);
          existing = (case m key of None \<Rightarrow> [] | Some rs \<Rightarrow> rs)
      in m(key \<mapsto> existing @ [r]))"

definition transitionMap :: transition_map where
  "transitionMap = foldl add_rule Map.empty TRANSITION_RULES"

definition findTransitions :: "betting_state \<Rightarrow> event_type \<Rightarrow> transition_rule list" where
  "findTransitions from et = (case transitionMap (from, et) of None \<Rightarrow> [] | Some rs \<Rightarrow> rs)"

definition isTransitionDefined :: "betting_state \<Rightarrow> event_type \<Rightarrow> bool" where
  "isTransitionDefined from et \<longleftrightarrow> transitionMap (from, et) \<noteq> None"

text \<open>A \<open>Set\<close> keeps insertion order: the first occurrence of each element.\<close>

fun add_new :: "'a list \<Rightarrow> 'a \<Rightarrow> 'a list" where
  "add_new xs x = (if x \<in> set xs then xs else xs @ [x])"

definition getValidEventsForState :: "betting_state \<Rightarrow> event_type list" where
  "getValidEventsForState from =
     foldl (\<lambda>acc r. if tr_from r = from then add_new acc (tr_event r) else acc) [] TRANSITION_RULES"

definition getReachableStates :: "betting_state \<Rightarrow> betting_state list" where
  "getReachableStates from =
     foldl (\<lambda>acc r. if tr_from r = from then add_new acc (tr_to r) else acc) [] TRANSITION_RULES"

section \<open>The map is the filter of the rules\<close>

lemma foldl_add_rule:
  "foldl add_rule m rs (s, e) =
     (let found = filter (\<lambda>r. tr_from r = s \<and> tr_event r = e) rs
      in if found = [] then m (s, e)
         else Some ((case m (s, e) of None \<Rightarrow> [] | Some xs \<Rightarrow> xs) @ found))"
  by (induction rs arbitrary: m) (auto simp: add_rule_def Let_def split: option.splits)

lemma findTransitions_filter:
  "findTransitions s e = filter (\<lambda>r. tr_from r = s \<and> tr_event r = e) TRANSITION_RULES"
  by (simp add: findTransitions_def transitionMap_def foldl_add_rule Let_def split: option.splits)

lemma isTransitionDefined_iff: "isTransitionDefined s e \<longleftrightarrow> findTransitions s e \<noteq> []"
  by (auto simp: isTransitionDefined_def findTransitions_filter transitionMap_def
        foldl_add_rule Let_def)

lemma findTransitions_mem:
  "findTransitions s e = r # rs \<Longrightarrow> r \<in> set TRANSITION_RULES \<and> tr_from r = s \<and> tr_event r = e"
proof -
  assume "findTransitions s e = r # rs"
  then have "r \<in> set (filter (\<lambda>r. tr_from r = s \<and> tr_event r = e) TRANSITION_RULES)"
    by (simp flip: findTransitions_filter)
  then show ?thesis by simp
qed

lemma foldl_add_new_set:
  "set (foldl (\<lambda>acc r. if P r then add_new acc (f r) else acc) acc rs) =
     set acc \<union> f ` {r \<in> set rs. P r}"
  by (induction rs arbitrary: acc) auto

lemma foldl_add_new_distinct:
  "distinct acc \<Longrightarrow> distinct (foldl (\<lambda>acc r. if P r then add_new acc (f r) else acc) acc rs)"
  by (induction rs arbitrary: acc) auto

lemma set_getValidEventsForState:
  "e \<in> set (getValidEventsForState s) \<longleftrightarrow> isTransitionDefined s e"
  by (auto simp: getValidEventsForState_def foldl_add_new_set isTransitionDefined_iff
        findTransitions_filter filter_empty_conv)

lemma set_getReachableStates:
  "t \<in> set (getReachableStates s) \<longleftrightarrow> (\<exists>r \<in> set TRANSITION_RULES. tr_from r = s \<and> tr_to r = t)"
  by (auto simp: getReachableStates_def foldl_add_new_set)

text \<open>No state/event pair has two rules, so taking the first loses nothing.\<close>

lemma rules_distinct: "distinct (map (\<lambda>r. (tr_from r, tr_event r)) TRANSITION_RULES)"
  by (simp add: TRANSITION_RULES_def)

lemma filter_unique:
  "distinct (map f rs) \<Longrightarrow> length (filter (\<lambda>r. f r = k) rs) \<le> 1"
proof (induction rs)
  case Nil
  then show ?case by simp
next
  case (Cons r rs)
  have "filter (\<lambda>x. f x = f r) rs = []"
    using Cons.prems by (auto simp: filter_empty_conv) (metis imageI)
  with Cons show ?case by auto
qed

lemma findTransitions_unique: "length (findTransitions s e) \<le> 1"
  using filter_unique [OF rules_distinct, of "(s, e)"] by (simp add: findTransitions_filter)

end
