(* ===== verification/SmGuards.thy ===== *)
theory SmGuards
  imports SmTransitions
begin

text \<open>
  The guards of \<open>src/src/core/state-machine/guards.ts\<close>. A guard result is \<open>Permitted\<close> or
  \<open>Rejected\<close> with its reason; each reason text of the source is a constructor that carries the
  values the text interpolates. \<open>Date.now()\<close> is the argument \<open>now\<close>.
\<close>

datatype guard_reason =
    R_browser_unhealthy
  | R_adapter_unhealthy
  | R_confidence observation_confidence observation_confidence
  | R_paused
  | R_kill_switch
  | R_open_bet
  | R_cooldown int
  | R_no_round_state
  | R_no_round_id
  | R_round_phase round_phase
  | R_balance_unknown
  | R_error_threshold int int
  | R_cash_out_threshold int int
  | R_needs_round_started
  | R_needs_risk_approved
  | R_needs_entry_checks
  | R_needs_cash_out_event
  | R_no_open_bet
  | R_no_bet_id
  | R_not_paused
  | R_resume_kill_switch
  | R_too_many_errors int

datatype guard_result = Permitted | Rejected guard_reason

fun permitted :: "guard_result \<Rightarrow> bool" where
  "permitted Permitted = True"
| "permitted (Rejected _) = False"

section \<open>Single guards\<close>

definition guardBrowserHealthy :: "sm_context \<Rightarrow> guard_result" where
  [guard_defs]: "guardBrowserHealthy ctx =
     (if \<not> ctx_browserHealthy ctx then Rejected R_browser_unhealthy else Permitted)"

definition guardGameAdapterHealthy :: "sm_context \<Rightarrow> guard_result" where
  [guard_defs]: "guardGameAdapterHealthy ctx =
     (if \<not> ctx_gameAdapterHealthy ctx then Rejected R_adapter_unhealthy else Permitted)"

fun conf_level :: "observation_confidence \<Rightarrow> nat" where
  "conf_level Conf_low = 1"
| "conf_level Conf_medium = 2"
| "conf_level Conf_high = 3"

definition guardObservationConfidence :: "sm_context \<Rightarrow> guard_result" where
  [guard_defs]: "guardObservationConfidence ctx =
     (let required = ctx_minConfidenceForEntry ctx;
          confidence = (case ctx_roundState ctx of None \<Rightarrow> Conf_low | Some r \<Rightarrow> rs_confidence r)
      in if conf_level confidence < conf_level required
         then Rejected (R_confidence confidence required) else Permitted)"

definition guardNotPaused :: "sm_context \<Rightarrow> guard_result" where
  [guard_defs]: "guardNotPaused ctx = (if ctx_paused ctx then Rejected R_paused else Permitted)"

definition guardKillSwitchOff :: "sm_context \<Rightarrow> guard_result" where
  [guard_defs]: "guardKillSwitchOff ctx =
     (if ctx_killSwitch ctx then Rejected R_kill_switch else Permitted)"

definition guardNoOpenBet :: "sm_context \<Rightarrow> guard_result" where
  [guard_defs]: "guardNoOpenBet ctx =
     (if ctx_openBetExists ctx then Rejected R_open_bet else Permitted)"

text \<open>The reason carries the rounded-up seconds that remain.\<close>

definition guardCooldownElapsed :: "int \<Rightarrow> sm_context \<Rightarrow> guard_result" where
  [guard_defs]: "guardCooldownElapsed now ctx =
     (case ctx_lastBetAt ctx of
        None \<Rightarrow> Permitted
      | Some t \<Rightarrow>
          let elapsed = now - t
          in if elapsed < ctx_cooldownMs ctx
             then Rejected (R_cooldown (- ((elapsed - ctx_cooldownMs ctx) div 1000)))
             else Permitted)"

definition guardRoundValid :: "sm_context \<Rightarrow> string option \<Rightarrow> guard_result" where
  [guard_defs]: "guardRoundValid ctx eventRoundId =
     (case ctx_roundState ctx of
        None \<Rightarrow> Rejected R_no_round_state
      | Some r \<Rightarrow>
          if \<not> truthy_str (ctx_currentRoundId ctx) \<and> \<not> truthy_str eventRoundId
          then Rejected R_no_round_id
          else if rs_phase r \<noteq> Ph_starting \<and> rs_phase r \<noteq> Ph_running
          then Rejected (R_round_phase (rs_phase r))
          else Permitted)"

definition guardBalanceKnown :: "sm_context \<Rightarrow> guard_result" where
  [guard_defs]: "guardBalanceKnown ctx =
     (if ctx_currentBalance ctx = None then Rejected R_balance_unknown else Permitted)"

definition guardErrorThreshold :: "sm_context \<Rightarrow> guard_result" where
  [guard_defs]: "guardErrorThreshold ctx =
     (if ctx_consecutiveErrors ctx \<ge> ctx_maxConsecutiveErrors ctx
      then Rejected (R_error_threshold (ctx_consecutiveErrors ctx) (ctx_maxConsecutiveErrors ctx))
      else Permitted)"

definition guardCashOutFailureThreshold :: "sm_context \<Rightarrow> guard_result" where
  [guard_defs]: "guardCashOutFailureThreshold ctx =
     (if ctx_cashOutFailures ctx \<ge> ctx_maxCashOutFailures ctx
      then Rejected (R_cash_out_threshold (ctx_cashOutFailures ctx) (ctx_maxCashOutFailures ctx))
      else Permitted)"

section \<open>Composite guards\<close>

text \<open>The loop over the guard list: the first rejection wins.\<close>

fun first_rejection :: "guard_result list \<Rightarrow> guard_result" where
  "first_rejection [] = Permitted"
| "first_rejection (g # gs) = (if permitted g then first_rejection gs else g)"

definition guardAllEntryConditions :: "int \<Rightarrow> sm_context \<Rightarrow> sm_event \<Rightarrow> guard_result" where
  "guardAllEntryConditions now ctx event =
     (let eventRoundId = (case event of ROUND_STARTED rid _ \<Rightarrow> Some rid | _ \<Rightarrow> None)
      in first_rejection
           [guardBrowserHealthy ctx,
            guardGameAdapterHealthy ctx,
            guardNotPaused ctx,
            guardKillSwitchOff ctx,
            guardNoOpenBet ctx,
            guardCooldownElapsed now ctx,
            guardRoundValid ctx eventRoundId,
            guardObservationConfidence ctx,
            guardBalanceKnown ctx,
            guardErrorThreshold ctx,
            guardCashOutFailureThreshold ctx])"

definition guardCanEvaluateEntry :: "int \<Rightarrow> sm_context \<Rightarrow> sm_event \<Rightarrow> guard_result" where
  "guardCanEvaluateEntry now ctx event =
     (case event of
        ROUND_STARTED rid _ \<Rightarrow>
          (let roundResult = guardRoundValid ctx (Some rid)
           in if \<not> permitted roundResult then roundResult
              else guardAllEntryConditions now ctx event)
      | _ \<Rightarrow> Rejected R_needs_round_started)"

definition guardCanApproveEntry :: "int \<Rightarrow> sm_context \<Rightarrow> sm_event \<Rightarrow> guard_result" where
  "guardCanApproveEntry now ctx event =
     (if ev_type event \<noteq> T_RISK_APPROVED then Rejected R_needs_risk_approved
      else guardAllEntryConditions now ctx event)"

definition guardCanPlaceBet :: "int \<Rightarrow> sm_context \<Rightarrow> sm_event \<Rightarrow> guard_result" where
  "guardCanPlaceBet now ctx event =
     (if ev_type event \<noteq> T_ENTRY_CHECKS_PASSED \<and> ev_type event \<noteq> T_BET_SUBMITTED
      then Rejected R_needs_entry_checks
      else guardAllEntryConditions now ctx event)"

definition guardCanCashOut :: "sm_context \<Rightarrow> sm_event \<Rightarrow> guard_result" where
  "guardCanCashOut ctx event =
     (if ev_type event \<noteq> T_MULTIPLIER_REACHED_TARGET \<and> ev_type event \<noteq> T_CASH_OUT_TRIGGERED
      then Rejected R_needs_cash_out_event
      else if \<not> ctx_openBetExists ctx then Rejected R_no_open_bet
      else if \<not> truthy_str (ctx_currentBetId ctx) then Rejected R_no_bet_id
      else Permitted)"

definition guardCanResume :: "sm_context \<Rightarrow> guard_result" where
  "guardCanResume ctx =
     (if \<not> ctx_paused ctx then Rejected R_not_paused
      else if ctx_killSwitch ctx then Rejected R_resume_kill_switch
      else Permitted)"

definition guardCanRecover :: "sm_context \<Rightarrow> guard_result" where
  "guardCanRecover ctx =
     (if ctx_consecutiveErrors ctx \<ge> ctx_maxConsecutiveErrors ctx
      then Rejected (R_too_many_errors (ctx_consecutiveErrors ctx))
      else Permitted)"

section \<open>What the entry guards establish\<close>

lemma permitted_first_rejection: "permitted (first_rejection gs) \<longleftrightarrow> list_all permitted gs"
  by (induction gs) auto

lemma first_rejection_mem: "first_rejection gs = Rejected r \<Longrightarrow> Rejected r \<in> set gs"
  by (induction gs) (auto split: if_splits)

text \<open>
  The condition under which money may be put at risk, as one predicate on the context and the round identifier
  that the event brings.
\<close>

definition entry_ok :: "int \<Rightarrow> sm_context \<Rightarrow> string option \<Rightarrow> bool" where
  "entry_ok now ctx eventRoundId \<longleftrightarrow>
     ctx_browserHealthy ctx \<and> ctx_gameAdapterHealthy ctx \<and> \<not> ctx_paused ctx \<and>
     \<not> ctx_killSwitch ctx \<and> \<not> ctx_openBetExists ctx \<and>
     (case ctx_lastBetAt ctx of None \<Rightarrow> True | Some t \<Rightarrow> t + ctx_cooldownMs ctx \<le> now) \<and>
     (case ctx_roundState ctx of
        None \<Rightarrow> False
      | Some r \<Rightarrow> (rs_phase r = Ph_starting \<or> rs_phase r = Ph_running) \<and>
          conf_level (ctx_minConfidenceForEntry ctx) \<le> conf_level (rs_confidence r)) \<and>
     (truthy_str (ctx_currentRoundId ctx) \<or> truthy_str eventRoundId) \<and>
     ctx_currentBalance ctx \<noteq> None \<and>
     ctx_consecutiveErrors ctx < ctx_maxConsecutiveErrors ctx \<and>
     ctx_cashOutFailures ctx < ctx_maxCashOutFailures ctx"

definition event_round :: "sm_event \<Rightarrow> string option" where
  "event_round event = (case event of ROUND_STARTED rid _ \<Rightarrow> Some rid | _ \<Rightarrow> None)"

lemma guardAll_iff:
  "permitted (guardAllEntryConditions now ctx event) \<longleftrightarrow> entry_ok now ctx (event_round event)"
  unfolding guardAllEntryConditions_def Let_def permitted_first_rejection event_round_def
  by (auto simp: guard_defs entry_ok_def Let_def split: option.splits if_splits)

end
