(* ===== verification/SmMachine.thy ===== *)
theory SmMachine
  imports SmGuards
begin

text \<open>
  \<open>BettingStateMachine\<close> of \<open>src/src/core/state-machine/machine.ts\<close>. A machine is its state, its
  context and whether each callback is registered. \<open>send\<close> returns the new machine, the
  transition result and the callback calls it makes, in order; the callbacks are observers whose
  exceptions the source swallows. A result text is a constructor that names what it says.
\<close>

record machine =
  m_state :: betting_state
  m_ctx :: sm_context
  m_onStateChange :: bool
  m_onFailure :: bool

datatype failure_reason =
    F_text string
  | F_guard guard_reason
  | F_forced string betting_state betting_state string "string option"

datatype notification =
    StateChange betting_state betting_state sm_event sm_context
  | Failure betting_state failure_reason sm_context

datatype sm_message =
    M_rule transition_rule
  | M_invalid betting_state event_type
  | M_guard_rejected guard_reason
  | M_guard_to_error guard_reason

record transition_result =
  res_accepted :: bool
  res_newState :: betting_state
  res_message :: sm_message
  res_context :: sm_context

datatype force_error = Force_needs_reason | Force_invalid_source string

section \<open>Construction and queries\<close>

definition createStateMachine ::
  "string \<Rightarrow> betting_state option \<Rightarrow> (sm_context \<Rightarrow> sm_context) \<Rightarrow> bool \<Rightarrow> bool \<Rightarrow> machine" where
  "createStateMachine sessionId initialState overrides hasChange hasFailure =
     \<lparr>m_state = (case initialState of None \<Rightarrow> IDLE | Some s \<Rightarrow> s),
      m_ctx = createDefaultContext sessionId overrides,
      m_onStateChange = hasChange, m_onFailure = hasFailure\<rparr>"

definition updateContext :: "machine \<Rightarrow> (sm_context \<Rightarrow> sm_context) \<Rightarrow> machine" where
  "updateContext m overrides = m\<lparr>m_ctx := overrides (m_ctx m)\<rparr>"

definition canAccept :: "machine \<Rightarrow> event_type \<Rightarrow> bool" where
  "canAccept m et = isTransitionDefined (m_state m) et"

definition isHalted :: "machine \<Rightarrow> bool" where
  "isHalted m \<longleftrightarrow> m_state m = HALTED"

definition hasActiveBet :: "machine \<Rightarrow> bool" where
  "hasActiveBet m \<longleftrightarrow>
     m_state m = BET_PLACING \<or> m_state m = BET_ACTIVE \<or>
     m_state m = CASH_OUT_ARMED \<or> m_state m = CASH_OUT_REQUESTED"

section \<open>Callbacks\<close>

definition notifyStateChange ::
  "machine \<Rightarrow> betting_state \<Rightarrow> betting_state \<Rightarrow> sm_event \<Rightarrow> notification list" where
  "notifyStateChange m from to event =
     (if m_onStateChange m then [StateChange from to event (m_ctx m)] else [])"

definition notifyFailure ::
  "machine \<Rightarrow> betting_state \<Rightarrow> failure_reason \<Rightarrow> notification list" where
  "notifyFailure m s reason = (if m_onFailure m then [Failure s reason (m_ctx m)] else [])"

section \<open>Forced transitions\<close>

definition force_sources :: "string list" where
  "force_sources = [''recovery'', ''emergency-stop'', ''operator-escalation'']"

definition forceState ::
  "machine \<Rightarrow> betting_state \<Rightarrow> string \<Rightarrow> string \<Rightarrow> string option \<Rightarrow>
     force_error + machine \<times> notification list" where
  "forceState m s reason source operatorId =
     (let from = m_state m
      in if js_blank reason then Inl Force_needs_reason
         else if source \<notin> set force_sources then Inl (Force_invalid_source source)
         else let m' = m\<lparr>m_state := s\<rparr>
              in Inr (m', notifyFailure m' s (F_forced source from s reason operatorId) @
                          notifyStateChange m' from s (FORCE_STATE reason source)))"

section \<open>Sending an event\<close>

definition preloadContextFromEvent :: "sm_context \<Rightarrow> sm_event \<Rightarrow> sm_context" where
  "preloadContextFromEvent ctx event =
     (case event of
        ROUND_STARTED rid rs \<Rightarrow> ctx\<lparr>ctx_currentRoundId := Some rid, ctx_roundState := Some rs\<rparr>
      | _ \<Rightarrow> ctx)"

definition evaluateGuard ::
  "int \<Rightarrow> betting_state \<Rightarrow> sm_context \<Rightarrow> sm_event \<Rightarrow> guard_result" where
  "evaluateGuard now s ctx event =
     (let et = ev_type event in
      case s of
        OBSERVING \<Rightarrow>
          if et = T_ROUND_STARTED then guardCanEvaluateEntry now ctx event
          else if et = T_RESUME_REQUESTED then guardCanResume ctx else Permitted
      | COOLDOWN \<Rightarrow>
          if et = T_ROUND_STARTED then guardCanEvaluateEntry now ctx event
          else if et = T_RESUME_REQUESTED then guardCanResume ctx else Permitted
      | ENTRY_EVALUATING \<Rightarrow>
          if et = T_RISK_APPROVED then guardCanApproveEntry now ctx event else Permitted
      | ENTRY_APPROVED \<Rightarrow>
          if et = T_ENTRY_CHECKS_PASSED \<or> et = T_BET_SUBMITTED
          then guardCanPlaceBet now ctx event else Permitted
      | CASH_OUT_ARMED \<Rightarrow>
          if et = T_CASH_OUT_TRIGGERED then guardCanCashOut ctx event else Permitted
      | PAUSED \<Rightarrow> if et = T_RESUME_REQUESTED then guardCanResume ctx else Permitted
      | ERROR \<Rightarrow> if et = T_RECOVER then guardCanRecover ctx else Permitted
      | _ \<Rightarrow> Permitted)"

definition shouldTransitionToErrorOnGuardFailure ::
  "betting_state \<Rightarrow> sm_context \<Rightarrow> sm_event \<Rightarrow> bool" where
  "shouldTransitionToErrorOnGuardFailure s ctx event =
     (if (s = OBSERVING \<or> s = COOLDOWN) \<and> ev_type event = T_ROUND_STARTED
      then ctx_killSwitch ctx else False)"

text \<open>The side effects on the context, one after the other as in the source.\<close>

definition effects_of_event :: "sm_event \<Rightarrow> sm_context \<Rightarrow> sm_context" where
  "effects_of_event event ctx =
     (case event of
        PAUSE_REQUESTED _ \<Rightarrow> ctx\<lparr>ctx_paused := True\<rparr>
      | RESUME_REQUESTED \<Rightarrow> ctx\<lparr>ctx_paused := False\<rparr>
      | ROUND_STARTED rid rs \<Rightarrow> ctx\<lparr>ctx_currentRoundId := Some rid, ctx_roundState := Some rs\<rparr>
      | BET_CONFIRMED betId \<Rightarrow>
          ctx\<lparr>ctx_openBetExists := True, ctx_currentBetId := Some betId, ctx_consecutiveErrors := 0\<rparr>
      | BET_SUBMITTED betId \<Rightarrow> ctx\<lparr>ctx_currentBetId := Some betId\<rparr>
      | CASH_OUT_CONFIRMED _ _ \<Rightarrow>
          ctx\<lparr>ctx_openBetExists := False, ctx_currentBetId := None, ctx_cashOutFailures := 0\<rparr>
      | ROUND_CRASHED _ \<Rightarrow> ctx\<lparr>ctx_openBetExists := False, ctx_currentBetId := None\<rparr>
      | _ \<Rightarrow> ctx)"

definition effects_of_error :: "sm_event \<Rightarrow> betting_state \<Rightarrow> sm_context \<Rightarrow> sm_context" where
  "effects_of_error event to ctx =
     (if to = ERROR then
        (if ev_type event = T_BET_PLACEMENT_FAILED \<or> ev_type event = T_BET_PLACEMENT_TIMEOUT
         then ctx\<lparr>ctx_consecutiveErrors := ctx_consecutiveErrors ctx + 1\<rparr>
         else if ev_type event = T_CASH_OUT_FAILED \<or> ev_type event = T_CASH_OUT_TIMEOUT
         then ctx\<lparr>ctx_cashOutFailures := ctx_cashOutFailures ctx + 1\<rparr>
         else ctx)
      else ctx)"

definition effects_of_control :: "sm_event \<Rightarrow> sm_context \<Rightarrow> sm_context" where
  "effects_of_control event ctx =
     (case event of
        HALT _ \<Rightarrow> ctx\<lparr>ctx_killSwitch := True\<rparr>
      | RESET \<Rightarrow>
          ctx\<lparr>ctx_consecutiveErrors := 0, ctx_cashOutFailures := 0, ctx_openBetExists := False,
              ctx_currentBetId := None, ctx_paused := False, ctx_killSwitch := False\<rparr>
      | RECONCILIATION_COMPLETE _ \<Rightarrow> ctx\<lparr>ctx_openBetExists := False, ctx_currentBetId := None\<rparr>
      | _ \<Rightarrow> ctx)"

definition applySideEffects ::
  "int \<Rightarrow> sm_event \<Rightarrow> betting_state \<Rightarrow> sm_context \<Rightarrow> sm_context" where
  "applySideEffects now event to ctx =
     (let ctx' = effects_of_control event (effects_of_error event to (effects_of_event event ctx))
      in if to = RESULT_RECORDED then ctx'\<lparr>ctx_lastBetAt := Some now\<rparr> else ctx')"

definition extractFailureReason :: "sm_event \<Rightarrow> betting_state \<Rightarrow> string" where
  "extractFailureReason event s =
     (if s = HALTED then (case event of HALT reason \<Rightarrow> reason | _ \<Rightarrow> ''System halted'')
      else case event of
             BET_PLACEMENT_FAILED reason \<Rightarrow> reason
           | HEALTH_DEGRADED component reason \<Rightarrow> component @ '': '' @ reason
           | STALE_MULTIPLIER \<Rightarrow> ''Multiplier data stale''
           | _ \<Rightarrow> ''Unknown error'')"

definition mk_result :: "bool \<Rightarrow> machine \<Rightarrow> sm_message \<Rightarrow> transition_result" where
  "mk_result ok m msg =
     \<lparr>res_accepted = ok, res_newState = m_state m, res_message = msg, res_context = m_ctx m\<rparr>"

text \<open>The guard failure branch of \<open>send\<close>: into \<open>ERROR\<close>, or a plain rejection.\<close>

definition on_guard_failure ::
  "machine \<Rightarrow> sm_event \<Rightarrow> guard_reason \<Rightarrow> machine \<times> transition_result \<times> notification list" where
  "on_guard_failure m event reason =
     (if shouldTransitionToErrorOnGuardFailure (m_state m) (m_ctx m) event
      then let from = m_state m;
               c = m_ctx m;
               m' = m\<lparr>m_state := ERROR,
                      m_ctx := c\<lparr>ctx_consecutiveErrors := ctx_consecutiveErrors c + 1\<rparr>\<rparr>
           in (m', mk_result True m' (M_guard_to_error reason),
               notifyStateChange m' from ERROR event @ notifyFailure m' ERROR (F_guard reason))
      else (m, mk_result False m (M_guard_rejected reason), []))"

text \<open>The transition itself: state, side effects, callbacks.\<close>

definition take_transition ::
  "int \<Rightarrow> machine \<Rightarrow> sm_event \<Rightarrow> transition_rule \<Rightarrow>
     machine \<times> transition_result \<times> notification list" where
  "take_transition now m event rule =
     (let from = m_state m; to = tr_to rule;
          m' = m\<lparr>m_state := to, m_ctx := applySideEffects now event to (m_ctx m)\<rparr>
      in (m', mk_result True m' (M_rule rule),
          notifyStateChange m' from to event @
          (if to = ERROR \<or> to = HALTED
           then notifyFailure m' to (F_text (extractFailureReason event to)) else [])))"

definition send ::
  "int \<Rightarrow> machine \<Rightarrow> sm_event \<Rightarrow> machine \<times> transition_result \<times> notification list" where
  "send now m0 event =
     (let m = m0\<lparr>m_ctx := preloadContextFromEvent (m_ctx m0) event\<rparr>
      in case findTransitions (m_state m) (ev_type event) of
           [] \<Rightarrow> (m, mk_result False m (M_invalid (m_state m) (ev_type event)), [])
         | rule # _ \<Rightarrow>
             if tr_requiresGuard rule then
               (case evaluateGuard now (m_state m) (m_ctx m) event of
                  Rejected reason \<Rightarrow> on_guard_failure m event reason
                | Permitted \<Rightarrow> take_transition now m event rule)
             else take_transition now m event rule)"

text \<open>A run of the machine: timestamped events, only the machine kept.\<close>

definition sm_step :: "machine \<Rightarrow> int \<times> sm_event \<Rightarrow> machine" where
  "sm_step m te = fst (send (fst te) m (snd te))"

definition sm_run :: "machine \<Rightarrow> (int \<times> sm_event) list \<Rightarrow> machine" where
  "sm_run = foldl sm_step"

end
