(* ===== verification/SmSafety.thy ===== *)
theory SmSafety
  imports SmMachine
begin

text \<open>
  Properties of the betting state machine: when a bet may be placed, that at most one bet is
  open, that a halt lasts until a reset, that rejections change nothing but the observed round,
  and that no state is a dead end. Facts about the matrix are decided on the rule list; facts
  about \<open>send\<close> rest on one case analysis (\<open>sm_step_cases\<close>).
\<close>

section \<open>The three things an event can do\<close>

lemma sm_step_cases [case_names rejected to_error taken]:
  obtains
    "sm_step m (now, e) = m\<lparr>m_ctx := preloadContextFromEvent (m_ctx m) e\<rparr>"
    "\<not> res_accepted (fst (snd (send now m e)))" "snd (snd (send now m e)) = []"
  | "m_state m \<in> {OBSERVING, COOLDOWN}" "ev_type e = T_ROUND_STARTED" "ctx_killSwitch (m_ctx m)"
    "sm_step m (now, e) =
       m\<lparr>m_state := ERROR,
         m_ctx := (preloadContextFromEvent (m_ctx m) e)
                    \<lparr>ctx_consecutiveErrors := ctx_consecutiveErrors (m_ctx m) + 1\<rparr>\<rparr>"
  | r where "r \<in> set TRANSITION_RULES" "tr_from r = m_state m" "tr_event r = ev_type e"
    "tr_requiresGuard r \<longrightarrow>
       permitted (evaluateGuard now (m_state m) (preloadContextFromEvent (m_ctx m) e) e)"
    "sm_step m (now, e) =
       m\<lparr>m_state := tr_to r,
         m_ctx := applySideEffects now e (tr_to r) (preloadContextFromEvent (m_ctx m) e)\<rparr>"
proof (cases "findTransitions (m_state m) (ev_type e)")
  case Nil
  then show ?thesis by (intro that(1)) (auto simp: sm_step_def send_def Let_def mk_result_def)
next
  case (Cons r rs)
  note r = findTransitions_mem [OF Cons]
  let ?c = "preloadContextFromEvent (m_ctx m) e"
  have pre: "ctx_killSwitch ?c = ctx_killSwitch (m_ctx m)"
    "ctx_consecutiveErrors ?c = ctx_consecutiveErrors (m_ctx m)"
    by (auto simp: preloadContextFromEvent_def split: sm_event.splits)
  show ?thesis
  proof (cases "tr_requiresGuard r \<and> \<not> permitted (evaluateGuard now (m_state m) ?c e)")
    case False
    then have "send now m e = take_transition now (m\<lparr>m_ctx := ?c\<rparr>) e r"
      by (cases "evaluateGuard now (m_state m) ?c e") (auto simp: send_def Let_def Cons)
    then have "sm_step m (now, e) = m\<lparr>m_state := tr_to r, m_ctx := applySideEffects now e (tr_to r) ?c\<rparr>"
      by (simp add: sm_step_def take_transition_def Let_def)
    then show ?thesis using that(3) [of r] r False by auto
  next
    case True
    then obtain reason where "evaluateGuard now (m_state m) ?c e = Rejected reason"
      by (cases "evaluateGuard now (m_state m) ?c e") auto
    then have s: "send now m e = on_guard_failure (m\<lparr>m_ctx := ?c\<rparr>) e reason"
      using True by (simp add: send_def Let_def Cons)
    show ?thesis
    proof (cases "shouldTransitionToErrorOnGuardFailure (m_state m) ?c e")
      case True
      then show ?thesis using pre
        by (intro that(2))
          (auto simp: sm_step_def s on_guard_failure_def Let_def
             shouldTransitionToErrorOnGuardFailure_def split: if_splits)
    next
      case False
      then show ?thesis
        by (intro that(1)) (auto simp: sm_step_def s on_guard_failure_def mk_result_def)
    qed
  qed
qed

lemma preload_frame [simp]:
  "ctx_openBetExists (preloadContextFromEvent c e) = ctx_openBetExists c"
  "ctx_currentBetId (preloadContextFromEvent c e) = ctx_currentBetId c"
  "ctx_killSwitch (preloadContextFromEvent c e) = ctx_killSwitch c"
  "ctx_paused (preloadContextFromEvent c e) = ctx_paused c"
  "ctx_consecutiveErrors (preloadContextFromEvent c e) = ctx_consecutiveErrors c"
  by (auto simp: preloadContextFromEvent_def split: sm_event.splits)

lemmas effect_defs =
  applySideEffects_def effects_of_event_def effects_of_error_def effects_of_control_def Let_def

section \<open>What an accepted event does to the tracked bet\<close>

definition settling :: "event_type \<Rightarrow> bool" where
  "settling t \<longleftrightarrow> t \<in> {T_CASH_OUT_CONFIRMED, T_ROUND_CRASHED, T_RECONCILIATION_COMPLETE, T_RESET}"

definition open_after :: "event_type \<Rightarrow> bool \<Rightarrow> bool" where
  "open_after t b = (if t = T_BET_CONFIRMED then True else if settling t then False else b)"

lemma effects_open [simp]:
  "ctx_openBetExists (applySideEffects now e to c) = open_after (ev_type e) (ctx_openBetExists c)"
  by (cases e) (auto simp: effect_defs open_after_def settling_def)

definition id_after :: "event_type \<Rightarrow> bool \<Rightarrow> bool" where
  "id_after t b =
     (if t = T_BET_CONFIRMED \<or> t = T_BET_SUBMITTED then True else if settling t then False else b)"

lemma effects_betId [simp]:
  "(ctx_currentBetId (applySideEffects now e to c) = None) =
     (\<not> id_after (ev_type e) (ctx_currentBetId c \<noteq> None))"
  by (cases e) (auto simp: effect_defs id_after_def settling_def)

lemma effects_killSwitch [simp]:
  "ctx_killSwitch (applySideEffects now e to c) =
     (if ev_type e = T_HALT then True else if ev_type e = T_RESET then False else ctx_killSwitch c)"
  by (cases e) (auto simp: effect_defs)

section \<open>Entry into the money path\<close>

definition entry_event :: "event_type \<Rightarrow> bool" where
  "entry_event t \<longleftrightarrow>
     t \<in> {T_ROUND_STARTED, T_RISK_APPROVED, T_ENTRY_CHECKS_PASSED, T_BET_SUBMITTED}"

lemma entry_rules:
  "list_all (\<lambda>r. entry_event (tr_event r) \<longleftrightarrow>
     tr_to r \<in> {ENTRY_EVALUATING, ENTRY_APPROVED, BET_PLACING}) TRANSITION_RULES"
  "list_all (\<lambda>r. entry_event (tr_event r) \<longrightarrow> tr_requiresGuard r \<and>
     tr_from r \<in> {OBSERVING, COOLDOWN, ENTRY_EVALUATING, ENTRY_APPROVED}) TRANSITION_RULES"
  "list_all (\<lambda>r. tr_to r = BET_PLACING \<longrightarrow> tr_from r = ENTRY_APPROVED \<and>
     tr_event r \<in> {T_ENTRY_CHECKS_PASSED, T_BET_SUBMITTED}) TRANSITION_RULES"
  "list_all (\<lambda>r. tr_event r = T_ROUND_STARTED \<longrightarrow> tr_from r \<in> {OBSERVING, COOLDOWN}) TRANSITION_RULES"
  "list_all (\<lambda>r. tr_event r = T_RISK_APPROVED \<longrightarrow> tr_from r = ENTRY_EVALUATING) TRANSITION_RULES"
  "list_all (\<lambda>r. tr_event r \<in> {T_ENTRY_CHECKS_PASSED, T_BET_SUBMITTED} \<longrightarrow>
     tr_from r = ENTRY_APPROVED) TRANSITION_RULES"
  by (simp_all add: TRANSITION_RULES_def entry_event_def)

lemma rule_fact: "list_all P TRANSITION_RULES \<Longrightarrow> r \<in> set TRANSITION_RULES \<Longrightarrow> P r"
  by (simp add: list_all_iff)

text \<open>Every guarded entry rule evaluates the whole list of entry conditions.\<close>

lemma guard_of_entry:
  assumes "entry_event (ev_type e)" "r \<in> set TRANSITION_RULES" "tr_from r = s" "tr_event r = ev_type e"
    and "permitted (evaluateGuard now s c e)"
  shows "entry_ok now c (event_round e)"
proof -
  consider "ev_type e = T_ROUND_STARTED" "s \<in> {OBSERVING, COOLDOWN}"
    | "ev_type e = T_RISK_APPROVED" "s = ENTRY_EVALUATING"
    | "ev_type e \<in> {T_ENTRY_CHECKS_PASSED, T_BET_SUBMITTED}" "s = ENTRY_APPROVED"
    using assms(1,3,4) rule_fact [OF entry_rules(4) assms(2)]
      rule_fact [OF entry_rules(5) assms(2)] rule_fact [OF entry_rules(6) assms(2)]
    by (auto simp: entry_event_def)
  then have "permitted (guardAllEntryConditions now c e)"
  proof cases
    case 1
    with assms(5) show ?thesis
      by (cases e) (auto simp: evaluateGuard_def guardCanEvaluateEntry_def Let_def split: if_splits)
  next
    case 2
    with assms(5) show ?thesis by (simp add: evaluateGuard_def guardCanApproveEntry_def)
  next
    case 3
    with assms(5) show ?thesis by (auto simp: evaluateGuard_def guardCanPlaceBet_def)
  qed
  then show ?thesis by (simp add: guardAll_iff)
qed

text \<open>
  C1. Money is put at risk only when every entry condition holds: an event that brings the machine
  into \<open>BET_PLACING\<close> arrives in \<open>ENTRY_APPROVED\<close>, and at that instant the browser and the game
  adapter are healthy, the machine is neither paused nor killed, no bet is open, the cooldown
  has elapsed, the observed round is starting or running with sufficient confidence, its
  identifier is known, the balance is known, and both failure counters are below their limits.
\<close>

theorem bet_placing_requires_entry_conditions:
  assumes "m_state m \<noteq> BET_PLACING" and "m_state (sm_step m (now, e)) = BET_PLACING"
  shows "m_state m = ENTRY_APPROVED \<and> entry_ok now (m_ctx m) None"
proof (cases rule: sm_step_cases [of m now e])
  case rejected
  with assms show ?thesis by simp
next
  case to_error
  with assms show ?thesis by simp
next
  case (taken r)
  with assms(2) have "tr_to r = BET_PLACING" by simp
  then have r: "tr_from r = ENTRY_APPROVED" "tr_event r \<in> {T_ENTRY_CHECKS_PASSED, T_BET_SUBMITTED}"
    using rule_fact [OF entry_rules(3) taken(1)] by auto
  then have ent: "entry_event (ev_type e)" using taken(3) by (auto simp: entry_event_def)
  then have "tr_requiresGuard r" using rule_fact [OF entry_rules(2) taken(1)] taken(3) by simp
  then have "entry_ok now (preloadContextFromEvent (m_ctx m) e) (event_round e)"
    using taken guard_of_entry [OF ent] by blast
  moreover have "preloadContextFromEvent (m_ctx m) e = m_ctx m" "event_round e = None"
    using r taken(3) by (cases e; auto simp: preloadContextFromEvent_def event_round_def)+
  ultimately show ?thesis using r taken(2) by simp
qed

text \<open>A concrete session for the witnesses: a healthy machine with an approved entry.\<close>

definition ex_round :: round_state where
  "ex_round = \<lparr>rs_roundId = Some ''r1'', rs_phase = Ph_starting, rs_currentMultiplier = None,
     rs_startedAt = None, rs_crashedAt = None, rs_crashPoint = None, rs_lastTickAt = None,
     rs_source = Src_websocket, rs_confidence = Conf_high\<rparr>"

definition ex_machine :: "betting_state \<Rightarrow> bool \<Rightarrow> machine" where
  "ex_machine s held = createStateMachine ''s1'' (Some s)
     (\<lambda>c. c\<lparr>ctx_currentRoundId := Some ''r1'', ctx_roundState := Some ex_round,
            ctx_currentBalance := Some (Fin 1000), ctx_lastBetAt := Some 1000,
            ctx_openBetExists := held, ctx_currentBetId := (if held then Some ''b1'' else None)\<rparr>)
     True True"

lemmas ex_defs = ex_machine_def ex_round_def createStateMachine_def createDefaultContext_def

lemmas send_eval =
  sm_step_def send_def Let_def findTransitions_filter TRANSITION_RULES_def
  preloadContextFromEvent_def evaluateGuard_def take_transition_def mk_result_def
  on_guard_failure_def shouldTransitionToErrorOnGuardFailure_def
  guardCanPlaceBet_def guardAllEntryConditions_def guard_defs truthy_str_def

theorem bet_placing_requires_entry_conditions_witness:
  "entry_ok 9000 (m_ctx (ex_machine ENTRY_APPROVED False)) None \<and>
   m_state (sm_step (ex_machine ENTRY_APPROVED False) (9000, ENTRY_CHECKS_PASSED)) = BET_PLACING"
proof -
  have a: "m_state (ex_machine ENTRY_APPROVED False) \<noteq> BET_PLACING" by (simp add: ex_defs)
  have b: "m_state (sm_step (ex_machine ENTRY_APPROVED False) (9000, ENTRY_CHECKS_PASSED)) = BET_PLACING"
    by (simp add: send_eval ex_defs)
  show ?thesis using bet_placing_requires_entry_conditions [OF a b] b by simp
qed

section \<open>At most one open bet\<close>

text \<open>The states in which a bet may be tracked as open, and those in which one must be.\<close>

definition may_hold_bet :: "betting_state \<Rightarrow> bool" where
  "may_hold_bet s \<longleftrightarrow>
     s \<in> {BET_ACTIVE, CASH_OUT_ARMED, CASH_OUT_REQUESTED, ERROR, RECONCILING, HALTED, OBSERVING, PAUSED}"

definition must_hold_bet :: "betting_state \<Rightarrow> bool" where
  "must_hold_bet s \<longleftrightarrow> s \<in> {BET_ACTIVE, CASH_OUT_ARMED, CASH_OUT_REQUESTED}"

definition bet_inv :: "machine \<Rightarrow> bool" where
  "bet_inv m \<longleftrightarrow>
     (ctx_openBetExists (m_ctx m) \<longrightarrow> may_hold_bet (m_state m)) \<and>
     (must_hold_bet (m_state m) \<longrightarrow> ctx_openBetExists (m_ctx m) \<and> ctx_currentBetId (m_ctx m) \<noteq> None)"

lemma bet_rules:
  "list_all (\<lambda>r. \<forall>b i.
     (b \<longrightarrow> may_hold_bet (tr_from r)) \<and> (must_hold_bet (tr_from r) \<longrightarrow> b \<and> i) \<and>
     (entry_event (tr_event r) \<longrightarrow> \<not> b) \<longrightarrow>
     (open_after (tr_event r) b \<longrightarrow> may_hold_bet (tr_to r)) \<and>
     (must_hold_bet (tr_to r) \<longrightarrow> open_after (tr_event r) b \<and> id_after (tr_event r) i)) TRANSITION_RULES"
  by (simp add: TRANSITION_RULES_def may_hold_bet_def must_hold_bet_def entry_event_def
        open_after_def id_after_def settling_def)

lemma taken_entry_closed:
  assumes "r \<in> set TRANSITION_RULES" "tr_from r = m_state m" "tr_event r = ev_type e"
    and "tr_requiresGuard r \<longrightarrow> permitted (evaluateGuard now (m_state m) (preloadContextFromEvent (m_ctx m) e) e)"
    and "entry_event (tr_event r)"
  shows "entry_ok now (preloadContextFromEvent (m_ctx m) e) (event_round e)"
  using assms rule_fact [OF entry_rules(2) assms(1)]
  by (intro guard_of_entry [of e r "m_state m"]) auto

lemma bet_inv_step: "bet_inv m \<Longrightarrow> bet_inv (sm_step m te)"
proof -
  assume inv: "bet_inv m"
  obtain now e where te: "te = (now, e)" by (cases te)
  have "bet_inv (sm_step m (now, e))"
  proof (cases rule: sm_step_cases [of m now e])
    case rejected
    with inv show ?thesis by (simp add: bet_inv_def)
  next
    case to_error
    then show ?thesis by (simp add: bet_inv_def may_hold_bet_def must_hold_bet_def)
  next
    case (taken r)
    have "\<not> ctx_openBetExists (m_ctx m)" if "entry_event (tr_event r)"
      using taken_entry_closed [OF taken(1,2,3,4) that] by (simp add: entry_ok_def)
    moreover note rule_fact [OF bet_rules taken(1),
        THEN spec [of _ "ctx_openBetExists (m_ctx m)"], THEN spec [of _ "ctx_currentBetId (m_ctx m) \<noteq> None"]]
    ultimately show ?thesis using inv taken(2,3)
      unfolding taken(5) bet_inv_def by (auto simp del: not_None_eq)
  qed
  then show ?thesis by (simp add: te)
qed

text \<open>
  What the owner of a machine does with it: it sends events, and it updates the context with what it observes
  (balance, health, session) by \<open>updateContext\<close>. An update is neutral when it leaves the tracked bet alone.
\<close>

datatype sm_op = Send int sm_event | Update "sm_context \<Rightarrow> sm_context"

fun sm_op_step :: "machine \<Rightarrow> sm_op \<Rightarrow> machine" where
  "sm_op_step m (Send now e) = sm_step m (now, e)"
| "sm_op_step m (Update f) = updateContext m f"

definition sm_ops :: "machine \<Rightarrow> sm_op list \<Rightarrow> machine" where
  "sm_ops = foldl sm_op_step"

definition bet_neutral :: "(sm_context \<Rightarrow> sm_context) \<Rightarrow> bool" where
  "bet_neutral f \<longleftrightarrow>
     (\<forall>c. ctx_openBetExists (f c) = ctx_openBetExists c \<and> ctx_currentBetId (f c) = ctx_currentBetId c)"

fun neutral_op :: "sm_op \<Rightarrow> bool" where
  "neutral_op (Send _ _) = True"
| "neutral_op (Update f) = bet_neutral f"

lemma bet_inv_op: "bet_inv m \<Longrightarrow> neutral_op op \<Longrightarrow> bet_inv (sm_op_step m op)"
  by (cases op) (auto simp: bet_inv_step, auto simp: bet_inv_def bet_neutral_def updateContext_def)

interpretation sm: persists sm_op_step neutral_op bet_inv
  by unfold_locales (rule bet_inv_op)

text \<open>
  C3. The bookkeeping of the open bet: start a machine with any initial context in which no bet is open, and send
  it any events, with any updates of its context in between that leave the tracked bet alone. Then a bet that is
  being played (active, cash-out armed or requested) is tracked as open with its identifier, and a bet is tracked
  as open only in these three states and in the states of error handling, halt, pause, reconciliation and
  observation; never while an entry is evaluated, approved or placed, nor in the result and cooldown states.
\<close>

theorem open_bet_tracked:
  assumes "\<not> ctx_openBetExists (createDefaultContext sid overrides)" and "list_all neutral_op ops"
  shows "let m = sm_ops (createStateMachine sid None overrides hc hf) ops
    in (m_state m \<in> {BET_ACTIVE, CASH_OUT_ARMED, CASH_OUT_REQUESTED} \<longrightarrow>
          ctx_openBetExists (m_ctx m) \<and> ctx_currentBetId (m_ctx m) \<noteq> None) \<and>
       (ctx_openBetExists (m_ctx m) \<longrightarrow>
          m_state m \<in> {BET_ACTIVE, CASH_OUT_ARMED, CASH_OUT_REQUESTED, ERROR, RECONCILING, HALTED, OBSERVING, PAUSED})"
proof -
  have "bet_inv (createStateMachine sid None overrides hc hf)"
    using assms(1) by (simp add: bet_inv_def createStateMachine_def must_hold_bet_def)
  then have "bet_inv (sm_ops (createStateMachine sid None overrides hc hf) ops)"
    unfolding sm_ops_def by (rule sm.run_quiet [OF _ assms(2)])
  then show ?thesis by (simp add: bet_inv_def must_hold_bet_def may_hold_bet_def Let_def)
qed

text \<open>A whole bet, from a fresh machine: the balance arrives by an update, and the bet is placed and confirmed.\<close>

definition ex_conditions :: entry_conditions where
  "ex_conditions = \<lparr>ec_modeIsLive = True, ec_operatorAuthorized = True, ec_sessionAuthenticated = True, ec_gameLoaded =
     True, ec_roundStateValid = True, ec_balanceSufficient = True, ec_dailyEntriesBelowLimit = True,
     ec_notPaused = True, ec_killSwitchOff = True, ec_browserHealthy = True, ec_gameAdapterHealthy =
     True, ec_observationConfidenceHigh = True, ec_noOpenBet = True, ec_cooldownElapsed = True\<rparr>"

definition ex_bet_run :: "sm_op list" where
  "ex_bet_run = [Send 1 BROWSER_READY, Send 2 GAME_LOADED, Update (\<lambda>c. c\<lparr>ctx_currentBalance := Some (Fin 1000)\<rparr>),
     Send 3 (ROUND_STARTED ''r1'' ex_round), Send 4 (RISK_APPROVED ex_conditions), Send 5 ENTRY_CHECKS_PASSED,
     Send 6 (BET_CONFIRMED ''b1'')]"

lemma ex_bet_active: "m_state (sm_ops (createStateMachine ''s1'' None (\<lambda>c. c) True True) ex_bet_run) = BET_ACTIVE"
  by (simp add: sm_ops_def ex_bet_run_def ex_conditions_def updateContext_def send_eval guardCanEvaluateEntry_def
      guardCanApproveEntry_def applySideEffects_def effects_of_event_def effects_of_error_def effects_of_control_def ex_defs)

theorem open_bet_tracked_witness:
  "let m = sm_ops (createStateMachine ''s1'' None (\<lambda>c. c) True True) ex_bet_run
   in m_state m = BET_ACTIVE \<and> ctx_openBetExists (m_ctx m) \<and> ctx_currentBetId (m_ctx m) \<noteq> None"
proof -
  have a: "\<not> ctx_openBetExists (createDefaultContext ''s1'' (\<lambda>c. c))" by (simp add: createDefaultContext_def)
  have b: "list_all neutral_op ex_bet_run" by (simp add: ex_bet_run_def bet_neutral_def)
  show ?thesis using open_bet_tracked [OF a b, of True True] ex_bet_active by (simp add: Let_def)
qed

definition holding_bet :: "string option \<Rightarrow> machine \<Rightarrow> bool" where
  "holding_bet b m \<longleftrightarrow> bet_inv m \<and> ctx_openBetExists (m_ctx m) \<and> ctx_currentBetId (m_ctx m) = b"

text \<open>The four events that release the tracked bet; the last two do so whatever became of it.\<close>

fun not_releasing :: "sm_op \<Rightarrow> bool" where
  "not_releasing (Send _ e) = (ev_type e \<notin> {T_CASH_OUT_CONFIRMED, T_ROUND_CRASHED, T_RECONCILIATION_COMPLETE, T_RESET})"
| "not_releasing (Update f) = bet_neutral f"

lemma confirm_rules: "list_all (\<lambda>r. tr_event r = T_BET_CONFIRMED \<longrightarrow> tr_from r = BET_PLACING) TRANSITION_RULES"
  by (simp add: TRANSITION_RULES_def)

lemma effects_keep_betId:
  "ev_type e \<notin> {T_BET_CONFIRMED, T_BET_SUBMITTED} \<Longrightarrow> \<not> settling (ev_type e) \<Longrightarrow>
   ctx_currentBetId (applySideEffects now e to c) = ctx_currentBetId c"
  by (cases e) (auto simp: effect_defs settling_def)

lemma holding_bet_send:
  assumes h: "holding_bet b m" and q: "\<not> settling (ev_type e)"
  shows "holding_bet b (sm_step m (now, e))"
proof (cases rule: sm_step_cases [of m now e])
  case (taken r)
  have free: "\<not> entry_event (tr_event r)"
    using taken_entry_closed [OF taken(1,2,3,4)] h by (auto simp: entry_ok_def holding_bet_def)
  have "m_state m \<noteq> BET_PLACING" using h by (auto simp: holding_bet_def bet_inv_def may_hold_bet_def)
  then have "ev_type e \<notin> {T_BET_CONFIRMED, T_BET_SUBMITTED}"
    using free rule_fact [OF confirm_rules taken(1)] taken(2,3) by (auto simp: entry_event_def)
  then show ?thesis
    using h q bet_inv_step [of m "(now, e)"] effects_keep_betId [of e] taken(5)
    by (auto simp: holding_bet_def open_after_def)
qed (use h bet_inv_step [of m "(now, e)"] in \<open>auto simp: holding_bet_def\<close>)

lemma holding_bet_step: "holding_bet b m \<Longrightarrow> not_releasing op \<Longrightarrow> holding_bet b (sm_op_step m op)"
proof (cases op)
  case (Update f)
  then show "holding_bet b m \<Longrightarrow> not_releasing op \<Longrightarrow> ?thesis"
    using bet_inv_op [of m op] by (auto simp: holding_bet_def bet_neutral_def updateContext_def)
qed (auto simp: holding_bet_send settling_def)

interpretation sm_held: persists sm_op_step not_releasing "holding_bet b" for b
  by unfold_locales (rule holding_bet_step)



text \<open>
  The reset releases a bet that has no result: after a halt with a bet open and the reset that follows, the
  tracked bet is gone while its round may still run.
\<close>

lemma halt_and_reset_drop_open_bet:
  "m_state m = BET_ACTIVE \<Longrightarrow> ctx_openBetExists (m_ctx m) \<Longrightarrow>
   \<not> ctx_openBetExists (m_ctx (sm_ops m [Send t (HALT why), Send t' RESET]))"
  by (simp add: sm_ops_def send_eval applySideEffects_def effects_of_event_def effects_of_error_def effects_of_control_def)

section \<open>Halting\<close>

definition not_reset :: "int \<times> sm_event \<Rightarrow> bool" where
  "not_reset te \<longleftrightarrow> ev_type (snd te) \<noteq> T_RESET"

definition halted_killed :: "machine \<Rightarrow> bool" where
  "halted_killed m \<longleftrightarrow> m_state m = HALTED \<and> ctx_killSwitch (m_ctx m)"

lemma halt_rules:
  "list_all (\<lambda>r. tr_from r = HALTED \<longrightarrow> tr_event r = T_RESET) TRANSITION_RULES"
  "list_all (\<lambda>r. tr_event r = T_HALT \<longrightarrow> tr_to r = HALTED) TRANSITION_RULES"
  by (simp_all add: TRANSITION_RULES_def)

lemma halted_killed_step: "halted_killed m \<Longrightarrow> not_reset te \<Longrightarrow> halted_killed (sm_step m te)"
proof -
  assume h: "halted_killed m" and q: "not_reset te"
  obtain now e where te: "te = (now, e)" by (cases te)
  have "halted_killed (sm_step m (now, e))"
  proof (cases rule: sm_step_cases [of m now e])
    case (taken r)
    with h q show ?thesis
      using rule_fact [OF halt_rules(1) taken(1)] by (simp add: halted_killed_def not_reset_def te)
  qed (use h in \<open>auto simp: halted_killed_def\<close>)
  then show ?thesis by (simp add: te)
qed

interpretation sm_halt: persists sm_step not_reset halted_killed
  by unfold_locales (rule halted_killed_step)

text \<open>
  C4. An accepted halt is final until a reset: whatever events follow, as long as none of them
  is \<open>RESET\<close>, the machine stays in \<open>HALTED\<close> with the kill switch engaged.
\<close>

theorem halt_lasts_until_reset:
  assumes "res_accepted (fst (snd (send now m (HALT reason))))" and "list_all not_reset tes"
  shows "m_state (sm_run (sm_step m (now, HALT reason)) tes) = HALTED \<and>
         ctx_killSwitch (m_ctx (sm_run (sm_step m (now, HALT reason)) tes))"
proof -
  have "halted_killed (sm_step m (now, HALT reason))"
  proof (cases rule: sm_step_cases [of m now "HALT reason"])
    case (taken r)
    then show ?thesis
      using rule_fact [OF halt_rules(2) taken(1)] by (simp add: halted_killed_def)
  qed (use assms(1) in auto)
  then have "halted_killed (sm_run (sm_step m (now, HALT reason)) tes)"
    unfolding sm_run_def by (rule sm_halt.run_quiet [OF _ assms(2)])
  then show ?thesis by (simp add: halted_killed_def)
qed

theorem halt_lasts_until_reset_witness:
  "m_state (sm_run (sm_step (ex_machine OBSERVING False) (5, HALT ''stop''))
     [(6, RESUME_REQUESTED), (7, RECOVER), (8, ROUND_STARTED ''r2'' ex_round)]) = HALTED"
proof -
  have a: "res_accepted (fst (snd (send 5 (ex_machine OBSERVING False) (HALT ''stop''))))"
    by (simp add: send_eval ex_defs)
  have b: "list_all not_reset [(6, RESUME_REQUESTED), (7, RECOVER), (8, ROUND_STARTED ''r2'' ex_round)]"
    by (simp add: not_reset_def)
  show ?thesis using halt_lasts_until_reset [OF a b] by simp
qed

section \<open>Rejections\<close>

text \<open>
  A rejected event changes nothing but the observed round that \<open>ROUND_STARTED\<close> carries: state,
  counters, flags and the tracked bet are as before, no callback is called, and the result
  reports the unchanged state.
\<close>

theorem rejected_event_changes_nothing:
  assumes "send now m e = (m', res, ns)" and "\<not> res_accepted res"
  shows "m' = m\<lparr>m_ctx := preloadContextFromEvent (m_ctx m) e\<rparr> \<and> ns = [] \<and>
         res_newState res = m_state m \<and>
         (ev_type e \<noteq> T_ROUND_STARTED \<longrightarrow> m' = m)"
proof -
  have "m' = m\<lparr>m_ctx := preloadContextFromEvent (m_ctx m) e\<rparr> \<and> ns = [] \<and> res_newState res = m_state m"
    using assms
    by (auto simp: send_def Let_def on_guard_failure_def take_transition_def mk_result_def
          split: list.splits guard_result.splits if_splits)
  moreover have "preloadContextFromEvent (m_ctx m) e = m_ctx m" if "ev_type e \<noteq> T_ROUND_STARTED"
    using that by (cases e) (auto simp: preloadContextFromEvent_def)
  ultimately show ?thesis by auto
qed

theorem rejected_event_changes_nothing_witness:
  "sm_step (ex_machine OBSERVING True) (5, BET_CONFIRMED ''b9'') = ex_machine OBSERVING True"
proof -
  obtain m' res ns where s: "send 5 (ex_machine OBSERVING True) (BET_CONFIRMED ''b9'') = (m', res, ns)"
    by (cases "send 5 (ex_machine OBSERVING True) (BET_CONFIRMED ''b9'')")
  have r: "\<not> res_accepted res" using s by (auto simp: send_eval ex_defs)
  have "m' = ex_machine OBSERVING True" 
    using rejected_event_changes_nothing [OF s r, THEN conjunct2, THEN conjunct2, THEN conjunct2] by simp
  then show ?thesis using s by (simp add: sm_step_def)
qed

section \<open>No dead ends\<close>

text \<open>From each state, unguarded events that lead back to observation.\<close>

fun escape :: "betting_state \<Rightarrow> sm_event list" where
  "escape IDLE = [BROWSER_READY, GAME_LOADED]"
| "escape READY_TO_OBSERVE = [GAME_LOADED]"
| "escape OBSERVING = []"
| "escape ENTRY_EVALUATING = [RISK_REJECTED []]"
| "escape ENTRY_APPROVED = [PAUSE_REQUESTED [], RESET, BROWSER_READY, GAME_LOADED]"
| "escape BET_PLACING = [RECONCILE None, RECONCILIATION_COMPLETE Res_UNKNOWN]"
| "escape BET_ACTIVE = [RECONCILE None, RECONCILIATION_COMPLETE Res_UNKNOWN]"
| "escape CASH_OUT_ARMED = [RECONCILE None, RECONCILIATION_COMPLETE Res_UNKNOWN]"
| "escape CASH_OUT_REQUESTED = [RECONCILE None, RECONCILIATION_COMPLETE Res_UNKNOWN]"
| "escape ROUND_COMPLETE = [OUTCOME_RECORDED, COOLDOWN_ELAPSED, COOLDOWN_ELAPSED]"
| "escape RESULT_RECORDED = [COOLDOWN_ELAPSED, COOLDOWN_ELAPSED]"
| "escape COOLDOWN = [COOLDOWN_ELAPSED]"
| "escape PAUSED = [RESET, BROWSER_READY, GAME_LOADED]"
| "escape ERROR = [RECONCILE None, RECONCILIATION_COMPLETE Res_UNKNOWN]"
| "escape HALTED = [RESET, BROWSER_READY, GAME_LOADED]"
| "escape RECONCILING = [RECONCILIATION_COMPLETE Res_UNKNOWN]"

lemma step_unguarded:
  assumes "findTransitions (m_state m) (ev_type e) = [mk_rule s t u False]"
  shows "m_state (sm_step m (now, e)) = u"
  using assms by (simp add: sm_step_def send_def Let_def take_transition_def)

lemma rule_lookup:
  "mk_rule s t u False \<in> set TRANSITION_RULES \<Longrightarrow> findTransitions s t = [mk_rule s t u False]"
proof -
  assume "mk_rule s t u False \<in> set TRANSITION_RULES"
  then have "mk_rule s t u False \<in> set (findTransitions s t)"
    by (simp add: findTransitions_filter)
  with findTransitions_unique [of s t] show ?thesis
    by (cases "findTransitions s t") (auto simp: le_Suc_eq)
qed

lemma step_rule:
  "mk_rule (m_state m) (ev_type e) u False \<in> set TRANSITION_RULES \<Longrightarrow> m_state (sm_step m (now, e)) = u"
  by (rule step_unguarded [OF rule_lookup])

lemma escape_steps:
  "m_state m = IDLE \<Longrightarrow> m_state (sm_step m (now, BROWSER_READY)) = READY_TO_OBSERVE"
  "m_state m = READY_TO_OBSERVE \<Longrightarrow> m_state (sm_step m (now, GAME_LOADED)) = OBSERVING"
  "m_state m = ENTRY_EVALUATING \<Longrightarrow> m_state (sm_step m (now, RISK_REJECTED why)) = OBSERVING"
  "m_state m = ENTRY_APPROVED \<Longrightarrow> m_state (sm_step m (now, PAUSE_REQUESTED why)) = PAUSED"
  "m_state m \<in> {PAUSED, HALTED} \<Longrightarrow> m_state (sm_step m (now, RESET)) = IDLE"
  "m_state m \<in> {BET_PLACING, BET_ACTIVE, CASH_OUT_ARMED, CASH_OUT_REQUESTED, ERROR} \<Longrightarrow>
     m_state (sm_step m (now, RECONCILE b)) = RECONCILING"
  "m_state m = RECONCILING \<Longrightarrow> m_state (sm_step m (now, RECONCILIATION_COMPLETE res)) = OBSERVING"
  "m_state m = ROUND_COMPLETE \<Longrightarrow> m_state (sm_step m (now, OUTCOME_RECORDED)) = RESULT_RECORDED"
  "m_state m = RESULT_RECORDED \<Longrightarrow> m_state (sm_step m (now, COOLDOWN_ELAPSED)) = COOLDOWN"
  "m_state m = COOLDOWN \<Longrightarrow> m_state (sm_step m (now, COOLDOWN_ELAPSED)) = OBSERVING"
  by (rule step_rule, auto simp: TRANSITION_RULES_def)+

text \<open>
  The machine has no dead end: from every state, whatever its context, a short sequence of
  events that no guard can refuse brings it back to \<open>OBSERVING\<close>.
\<close>

theorem observation_always_reachable:
  "m_state (sm_run m (map (\<lambda>e. (now, e)) (escape (m_state m)))) = OBSERVING"
  by (cases "m_state m")
    (simp_all add: sm_run_def escape_steps)

section \<open>Where the safe failure paths stop\<close>

text \<open>
  A crash is not handled while the cash-out is armed: in \<open>CASH_OUT_ARMED\<close> the event
  \<open>ROUND_CRASHED\<close> is rejected, so the lost bet stays tracked as open.
\<close>

theorem crash_while_armed_is_rejected:
  assumes "m_state m = CASH_OUT_ARMED"
  shows "\<not> res_accepted (fst (snd (send now m (ROUND_CRASHED x)))) \<and>
         sm_step m (now, ROUND_CRASHED x) = m"
proof -
  have "findTransitions CASH_OUT_ARMED T_ROUND_CRASHED = []"
    by (simp add: findTransitions_filter TRANSITION_RULES_def)
  with assms show ?thesis
    by (simp add: send_def sm_step_def mk_result_def Let_def preloadContextFromEvent_def)
qed

theorem crash_while_armed_is_rejected_witness:
  "sm_step (ex_machine CASH_OUT_ARMED True) (5, ROUND_CRASHED (Fin 1)) = ex_machine CASH_OUT_ARMED True"
proof -
  have a: "m_state (ex_machine CASH_OUT_ARMED True) = CASH_OUT_ARMED" by (simp add: ex_defs)
  show ?thesis using crash_while_armed_is_rejected [OF a] by simp
qed

text \<open>
  An emergency halt is accepted in exactly five states; in the others, among them
  \<open>BET_PLACING\<close>, \<open>CASH_OUT_ARMED\<close> and \<open>CASH_OUT_REQUESTED\<close>, it is rejected and the kill switch
  stays as it was.
\<close>

theorem halt_accepted_iff:
  "res_accepted (fst (snd (send now m (HALT reason)))) =
     (m_state m \<in> {ERROR, OBSERVING, PAUSED, RECONCILING, BET_ACTIVE})"
proof -
  have "findTransitions s T_HALT =
      (if s \<in> {ERROR, OBSERVING, PAUSED, RECONCILING, BET_ACTIVE}
       then [mk_rule s T_HALT HALTED False] else [])" for s
    by (cases s) (simp_all add: findTransitions_filter TRANSITION_RULES_def)
  then show ?thesis
    by (simp add: send_def mk_result_def Let_def preloadContextFromEvent_def take_transition_def)
qed

end
