(* ===== verification/CircuitBreaker.thy ===== *)
theory CircuitBreaker
  imports JsNumber
begin

text \<open>
  The two circuit breakers and the retry loop: \<open>FinancialCircuitBreaker\<close> of
  \<open>src/src/core/circuit-breaker/financial-circuit-breaker.ts\<close>, and \<open>CircuitBreaker\<close>,
  \<open>withRetry\<close> and \<open>withCircuitBreaker\<close> of \<open>src/src/utils/retry.ts\<close>. \<open>Date.now()\<close> is the
  argument \<open>now\<close>. What Redis returns for the breaker's key is an argument of the operations that
  read it; what they write is part of their result. Failures of Redis are swallowed by the
  source, so a failed read is \<open>None\<close>.
\<close>

datatype circuit_state = CLOSED | OPEN | HALF_OPEN

section \<open>The financial circuit breaker\<close>

record fcb =
  fcb_failures :: int
  fcb_state :: circuit_state
  fcb_openedAt :: int
  fcb_threshold :: int
  fcb_coolDownMs :: int
  fcb_redis :: bool

text \<open>The JSON record under the breaker's key.\<close>

type_synonym fcb_snapshot = "circuit_state \<times> int \<times> int"

definition fcb_new :: "int option \<Rightarrow> int option \<Rightarrow> bool \<Rightarrow> fcb" where
  "fcb_new threshold coolDownMs redis =
     \<lparr>fcb_failures = 0, fcb_state = CLOSED, fcb_openedAt = 0,
      fcb_threshold = (case threshold of None \<Rightarrow> 5 | Some t \<Rightarrow> t),
      fcb_coolDownMs = (case coolDownMs of None \<Rightarrow> 60000 | Some c \<Rightarrow> c),
      fcb_redis = redis\<rparr>"

definition fcb_hydrate :: "fcb \<Rightarrow> fcb_snapshot option \<Rightarrow> fcb" where
  "fcb_hydrate b remote =
     (if \<not> fcb_redis b then b
      else case remote of
             None \<Rightarrow> b
           | Some (s, f, t) \<Rightarrow> b\<lparr>fcb_state := s, fcb_failures := f, fcb_openedAt := t\<rparr>)"

definition fcb_persist :: "fcb \<Rightarrow> fcb_snapshot option" where
  "fcb_persist b =
     (if \<not> fcb_redis b then None else Some (fcb_state b, fcb_failures b, fcb_openedAt b))"

text \<open>The breaker after the call, the answer, and what is written to Redis.\<close>

definition fcb_isOpen ::
  "int \<Rightarrow> fcb_snapshot option \<Rightarrow> fcb \<Rightarrow> fcb \<times> bool \<times> fcb_snapshot option" where
  "fcb_isOpen now remote b0 =
     (let b = fcb_hydrate b0 remote
      in if fcb_state b = OPEN then
           (if now - fcb_openedAt b \<ge> fcb_coolDownMs b
            then let b' = b\<lparr>fcb_state := HALF_OPEN\<rparr> in (b', False, fcb_persist b')
            else (b, True, None))
         else (b, False, None))"

definition fcb_recordSuccess :: "fcb \<Rightarrow> fcb \<times> fcb_snapshot option" where
  "fcb_recordSuccess b =
     (let b' = b\<lparr>fcb_failures := 0, fcb_state := CLOSED\<rparr> in (b', fcb_persist b'))"

definition fcb_recordFailure :: "int \<Rightarrow> fcb \<Rightarrow> fcb \<times> fcb_snapshot option" where
  "fcb_recordFailure now b =
     (let b1 = b\<lparr>fcb_failures := fcb_failures b + 1\<rparr>;
          b2 = (if fcb_failures b1 \<ge> fcb_threshold b1
                then b1\<lparr>fcb_state := OPEN, fcb_openedAt := now\<rparr> else b1)
      in (b2, fcb_persist b2))"

definition fcb_snapshot_of :: "fcb \<Rightarrow> circuit_state \<times> int" where
  "fcb_snapshot_of b = (fcb_state b, fcb_failures b)"

section \<open>The generic circuit breaker\<close>

record cb =
  cb_state :: circuit_state
  cb_failures :: int
  cb_lastFailureTime :: "int option"
  cb_halfOpenCalls :: int
  cb_failureThreshold :: int
  cb_resetTimeoutMs :: int
  cb_halfOpenMaxCalls :: int

definition cb_new :: "int option \<Rightarrow> int option \<Rightarrow> int option \<Rightarrow> cb" where
  "cb_new threshold reset maxCalls =
     \<lparr>cb_state = CLOSED, cb_failures = 0, cb_lastFailureTime = None, cb_halfOpenCalls = 0,
      cb_failureThreshold = (case threshold of None \<Rightarrow> 5 | Some t \<Rightarrow> t),
      cb_resetTimeoutMs = (case reset of None \<Rightarrow> 30000 | Some r \<Rightarrow> r),
      cb_halfOpenMaxCalls = (case maxCalls of None \<Rightarrow> 3 | Some c \<Rightarrow> c)\<rparr>"

text \<open>\<open>lastFailureTime && ...\<close>: a missing or zero time is falsy.\<close>

definition cb_canExecute :: "int \<Rightarrow> cb \<Rightarrow> cb \<times> bool" where
  "cb_canExecute now b =
     (case cb_state b of
        CLOSED \<Rightarrow> (b, True)
      | OPEN \<Rightarrow>
          (case cb_lastFailureTime b of
             None \<Rightarrow> (b, False)
           | Some t \<Rightarrow>
               if t \<noteq> 0 \<and> now - t \<ge> cb_resetTimeoutMs b
               then (b\<lparr>cb_state := HALF_OPEN, cb_halfOpenCalls := 0\<rparr>, True)
               else (b, False))
      | HALF_OPEN \<Rightarrow> (b, cb_halfOpenCalls b < cb_halfOpenMaxCalls b))"

definition cb_recordSuccess :: "cb \<Rightarrow> cb" where
  "cb_recordSuccess b =
     (if cb_state b = HALF_OPEN then
        (let b' = b\<lparr>cb_halfOpenCalls := cb_halfOpenCalls b + 1\<rparr>
         in if cb_halfOpenCalls b' \<ge> cb_halfOpenMaxCalls b'
            then b'\<lparr>cb_state := CLOSED, cb_failures := 0, cb_lastFailureTime := None\<rparr>
            else b')
      else b\<lparr>cb_failures := 0, cb_lastFailureTime := None\<rparr>)"

definition cb_recordFailure :: "int \<Rightarrow> cb \<Rightarrow> cb" where
  "cb_recordFailure now b =
     (if cb_state b = HALF_OPEN then b\<lparr>cb_state := OPEN, cb_lastFailureTime := Some now\<rparr>
      else let b' = b\<lparr>cb_failures := cb_failures b + 1, cb_lastFailureTime := Some now\<rparr>
           in if cb_failures b' \<ge> cb_failureThreshold b' then b'\<lparr>cb_state := OPEN\<rparr> else b')"

text \<open>
  \<open>withCircuitBreaker\<close>: the outcome of \<open>fn\<close> is an argument, read only when the breaker lets the
  call through; \<open>None\<close> as the error is the breaker's own \<open>CIRCUIT_OPEN\<close> error. \<open>now2\<close> is the
  time at which a failure is recorded.
\<close>

definition withCircuitBreaker ::
  "int \<Rightarrow> int \<Rightarrow> cb \<Rightarrow> 'e + 'a \<Rightarrow> cb \<times> ('e option + 'a)" where
  "withCircuitBreaker now now2 b outcome =
     (case cb_canExecute now b of
        (b1, ok) \<Rightarrow>
          if \<not> ok then (b1, Inl None)
          else case outcome of
                 Inr x \<Rightarrow> (cb_recordSuccess b1, Inr x)
               | Inl e \<Rightarrow> (cb_recordFailure now2 b1, Inl (Some e)))"

section \<open>Retry with backoff\<close>

record retry_options =
  ro_maxRetries :: "int option"
  ro_baseDelayMs :: "jsnum option"
  ro_maxDelayMs :: "jsnum option"
  ro_jitter :: "bool option"
  ro_jitterFactor :: "jsnum option"

fun or_else :: "'a option \<Rightarrow> 'a \<Rightarrow> 'a" where
  "or_else None d = d"
| "or_else (Some x) d = x"

text \<open>\<open>Math.random()\<close> is the argument \<open>rand\<close>.\<close>

definition calculateDelay :: "nat \<Rightarrow> retry_options \<Rightarrow> jsnum \<Rightarrow> jsnum" where
  "calculateDelay attempt opts rand =
     (let baseDelay = or_else (ro_baseDelayMs opts) (Fin 1000);
          maxDelay = or_else (ro_maxDelayMs opts) (Fin 30000);
          jitterEnabled = or_else (ro_jitter opts) True;
          jitterFactor = or_else (ro_jitterFactor opts) (lit (3/10));
          exponential = jmul baseDelay (rnd (2 powi (int attempt - 1)));
          capped = jmin exponential maxDelay
      in if \<not> jitterEnabled then capped
         else let jitterAmount = jmul capped jitterFactor
              in jadd capped (jsub (jmul (jmul rand jitterAmount) (Fin 2)) jitterAmount))"

text \<open>
  \<open>isRetryable\<close>: the custom predicate if there is one; otherwise instances of the class
  \<open>TransientError\<close> and the listed names.
\<close>

record app_error =
  err_name :: string
  err_isTransientError :: bool

definition isRetryable :: "(app_error \<Rightarrow> bool) option \<Rightarrow> string list option \<Rightarrow> app_error \<Rightarrow> bool" where
  "isRetryable shouldRetry retryableErrors e =
     (case shouldRetry of
        Some f \<Rightarrow> f e
      | None \<Rightarrow>
          if err_isTransientError e then True
          else case retryableErrors of
                 Some names \<Rightarrow> err_name e \<in> set names
               | None \<Rightarrow> False)"

text \<open>
  The loop: \<open>fn k\<close> is the outcome of the \<open>k\<close>-th call, counted from 1. The result is the value
  or the thrown error (\<open>None\<close>: \<open>lastError\<close> undefined, when no attempt is allowed), with the
  number of calls made. \<open>n\<close> is the number of attempts left.
\<close>

fun retry_loop :: "(nat \<Rightarrow> 'e + 'a) \<Rightarrow> ('e \<Rightarrow> bool) \<Rightarrow> int \<Rightarrow> nat \<Rightarrow> nat \<Rightarrow> 'e option \<Rightarrow>
    ('e option + 'a) \<times> nat" where
  "retry_loop fn retryable maxRetries 0 attempt lastError = (Inl lastError, attempt - 1)"
| "retry_loop fn retryable maxRetries (Suc n) attempt lastError =
     (case fn attempt of
        Inr x \<Rightarrow> (Inr x, attempt)
      | Inl e \<Rightarrow>
          if int attempt > maxRetries \<or> \<not> retryable e then (Inl (Some e), attempt)
          else retry_loop fn retryable maxRetries n (Suc attempt) (Some e))"

definition withRetry ::
  "(nat \<Rightarrow> 'e + 'a) \<Rightarrow> ('e \<Rightarrow> bool) \<Rightarrow> int option \<Rightarrow> ('e option + 'a) \<times> nat" where
  "withRetry fn retryable maxRetries0 =
     (let maxRetries = or_else maxRetries0 3
      in retry_loop fn retryable maxRetries (nat (maxRetries + 1)) 1 None)"

section \<open>The financial breaker opens and stays open for the cool-down\<close>

definition fcb_fail_all :: "fcb \<Rightarrow> int list \<Rightarrow> fcb" where
  "fcb_fail_all = foldl (\<lambda>b t. fst (fcb_recordFailure t b))"

lemma fcb_fail_all_snoc [simp]:
  "fcb_fail_all b (ts @ [t]) = fst (fcb_recordFailure t (fcb_fail_all b ts))"
  by (simp add: fcb_fail_all_def)

lemma fcb_fail_all_fields:
  "fcb_threshold (fcb_fail_all b ts) = fcb_threshold b \<and>
   fcb_coolDownMs (fcb_fail_all b ts) = fcb_coolDownMs b \<and>
   fcb_redis (fcb_fail_all b ts) = fcb_redis b \<and>
   fcb_failures (fcb_fail_all b ts) = fcb_failures b + int (length ts)"
proof (induction ts rule: rev_induct)
  case Nil
  then show ?case by (simp add: fcb_fail_all_def)
next
  case (snoc t ts)
  then show ?case by (simp add: fcb_recordFailure_def Let_def)
qed

lemma fcb_fail_all_state:
  "fcb_failures b + int (length ts) < fcb_threshold b \<Longrightarrow>
     fcb_state (fcb_fail_all b ts) = fcb_state b"
proof (induction ts rule: rev_induct)
  case Nil
  then show ?case by (simp add: fcb_fail_all_def)
next
  case (snoc t ts)
  then show ?case using fcb_fail_all_fields [of b ts]
    by (simp add: fcb_recordFailure_def Let_def)
qed

text \<open>
  A process-local financial breaker trips exactly at its threshold: with fewer consecutive
  failures it is still closed; once their number reaches the threshold it is open since the last
  failure, and \<open>isOpen\<close> answers true at every time before the cool-down has passed and false,
  moving to \<open>HALF_OPEN\<close>, from then on.
\<close>

theorem financial_breaker_trips_at_threshold:
  assumes "b = fcb_fail_all (fcb_new (Some n) (Some c) False) ts" and "ts \<noteq> []"
  shows "(int (length ts) < n \<longrightarrow> fcb_state b = CLOSED) \<and>
         (n \<le> int (length ts) \<longrightarrow> fcb_state b = OPEN \<and>
            (\<forall>now remote. fst (snd (fcb_isOpen now remote b)) = (now < last ts + c)))"
proof -
  obtain ts' t where ts: "ts = ts' @ [t]" using assms(2) by (metis rev_exhaust)
  let ?b0 = "fcb_new (Some n) (Some c) False"
  have f: "fcb_failures ?b0 = 0" "fcb_threshold ?b0 = n" "fcb_coolDownMs ?b0 = c"
    "fcb_state ?b0 = CLOSED" "\<not> fcb_redis ?b0"
    by (simp_all add: fcb_new_def)
  note flds = fcb_fail_all_fields [of ?b0 ts'] f
  have "fcb_state b = CLOSED" if "int (length ts) < n"
    using that fcb_fail_all_state [of ?b0 ts] f assms(1) by simp
  moreover have "fcb_state b = OPEN \<and> fcb_openedAt b = t \<and> fcb_coolDownMs b = c \<and> \<not> fcb_redis b"
    if "n \<le> int (length ts)"
    using that flds unfolding assms(1) ts by (simp add: fcb_recordFailure_def Let_def)
  ultimately show ?thesis
    by (auto simp: fcb_isOpen_def fcb_hydrate_def Let_def ts)
qed

theorem financial_breaker_trips_at_threshold_witness:
  "fcb_state (fcb_fail_all (fcb_new (Some 2) (Some 60) False) [10, 20]) = OPEN \<and>
   fst (snd (fcb_isOpen 79 None (fcb_fail_all (fcb_new (Some 2) (Some 60) False) [10, 20]))) \<and>
   \<not> fst (snd (fcb_isOpen 80 None (fcb_fail_all (fcb_new (Some 2) (Some 60) False) [10, 20])))"
  using financial_breaker_trips_at_threshold [OF refl, of "[10, 20]" 2 60] by simp

section \<open>Operations of the generic breaker\<close>

datatype cb_op = CanExecute int | Success | Failed int

fun cb_step :: "cb \<Rightarrow> cb_op \<Rightarrow> cb" where
  "cb_step b (CanExecute now) = fst (cb_canExecute now b)"
| "cb_step b Success = cb_recordSuccess b"
| "cb_step b (Failed now) = cb_recordFailure now b"

definition cb_inv :: "cb \<Rightarrow> bool" where
  "cb_inv b \<longleftrightarrow>
     0 < cb_failureThreshold b \<and> 0 < cb_halfOpenMaxCalls b \<and>
     (cb_state b = CLOSED \<longrightarrow> cb_failures b < cb_failureThreshold b) \<and>
     (cb_state b = HALF_OPEN \<longrightarrow> cb_halfOpenCalls b < cb_halfOpenMaxCalls b)"

lemma cb_inv_step: "cb_inv b \<Longrightarrow> cb_inv (cb_step b op)"
  by (cases op)
    (auto simp: cb_inv_def cb_canExecute_def cb_recordSuccess_def cb_recordFailure_def Let_def
       split: circuit_state.splits option.splits)

interpretation cb: stepwise cb_step cb_inv
  by unfold_locales (rule cb_inv_step)

text \<open>
  In every run of a breaker with positive limits, a closed breaker has counted fewer failures
  than its threshold, and a half-open breaker never refuses: its call counter, which only
  successes advance, is below the limit as long as the state is \<open>HALF_OPEN\<close>.
\<close>

theorem half_open_never_refuses:
  assumes "0 < n" and "0 < k" and "b = foldl cb_step (cb_new (Some n) r (Some k)) ops"
  shows "(cb_state b = CLOSED \<longrightarrow> cb_failures b < n) \<and>
         (cb_state b = HALF_OPEN \<longrightarrow> snd (cb_canExecute now b))"
proof -
  have "cb_inv (cb_new (Some n) r (Some k))"
    using assms(1,2) by (simp add: cb_inv_def cb_new_def)
  then have "cb_inv b" unfolding assms(3) by (rule cb.run_inv)
  moreover have "cb_failureThreshold b = n"
    unfolding assms(3)
  proof (induction ops rule: rev_induct)
    case (snoc op ops)
    then show ?case
      by (cases op) (auto simp: cb_canExecute_def cb_recordSuccess_def cb_recordFailure_def Let_def
        split: circuit_state.splits option.splits)
  qed (simp add: cb_new_def)
  ultimately show ?thesis by (auto simp: cb_inv_def cb_canExecute_def)
qed

theorem half_open_never_refuses_witness:
  "snd (cb_canExecute 99 (foldl cb_step (cb_new (Some 1) (Some 50) (Some 2)) [Failed 10, CanExecute 70, Success]))"
proof -
  let ?b = "foldl cb_step (cb_new (Some 1) (Some 50) (Some 2)) [Failed 10, CanExecute 70, Success]"
  have "cb_state ?b = HALF_OPEN"
    by (simp add: cb_new_def cb_recordFailure_def cb_canExecute_def cb_recordSuccess_def)
  then show ?thesis
    using half_open_never_refuses [of 1 2 ?b "Some 50" _ 99, OF _ _ refl] by simp
qed

definition cb_stuck :: "cb \<Rightarrow> bool" where
  "cb_stuck b \<longleftrightarrow> cb_state b = OPEN \<and> cb_lastFailureTime b = None"

text \<open>Calls through \<open>withCircuitBreaker\<close>, each with its times and the outcome \<open>fn\<close> would have.\<close>

definition cb_call :: "cb \<Rightarrow> int \<times> int \<times> ('e + 'a) \<Rightarrow> cb" where
  "cb_call b c = (case c of (now, now2, outcome) \<Rightarrow> fst (withCircuitBreaker now now2 b outcome))"

lemma cb_call_stuck: "cb_stuck b \<Longrightarrow> cb_stuck (cb_call b c)"
  by (auto simp: cb_stuck_def cb_call_def withCircuitBreaker_def cb_canExecute_def split: prod.split)

interpretation cb_calls: stepwise cb_call cb_stuck
  by unfold_locales (rule cb_call_stuck)

text \<open>
  A success reported while the breaker is open (a call that was let through before it
  tripped) clears the time of the last failure but not the state: from then on every call is
  refused, at any time, whatever sequence of calls is attempted, and no call is ever executed.
\<close>

theorem late_success_locks_breaker:
  assumes "cb_state b = OPEN"
  shows "snd (withCircuitBreaker now now2 (foldl cb_call (cb_recordSuccess b) calls) outcome) = Inl None"
proof -
  have "cb_stuck (cb_recordSuccess b)"
    using assms by (simp add: cb_stuck_def cb_recordSuccess_def)
  then have "cb_stuck (foldl cb_call (cb_recordSuccess b) calls)"
    by (rule cb_calls.run_inv)
  then show ?thesis by (simp add: cb_stuck_def withCircuitBreaker_def cb_canExecute_def)
qed

theorem late_success_locks_breaker_witness:
  "snd (withCircuitBreaker 1000000 1000000
      (foldl cb_call (cb_recordSuccess (cb_recordFailure 5 (cb_new (Some 1) None None)))
         [(7, 8, Inr ()), (900000, 900001, Inr ())])
      (Inr () :: string + unit)) = Inl None"
proof -
  have "cb_state (cb_recordFailure 5 (cb_new (Some 1) None None)) = OPEN"
    by (simp add: cb_recordFailure_def cb_new_def)
  then show ?thesis by (rule late_success_locks_breaker)
qed

section \<open>The retry loop\<close>

fun thrown :: "'e + 'a \<Rightarrow> 'e option + 'a" where
  "thrown (Inl e) = Inl (Some e)"
| "thrown (Inr x) = Inr x"

definition gives_up :: "(nat \<Rightarrow> 'e + 'a) \<Rightarrow> ('e \<Rightarrow> bool) \<Rightarrow> nat \<Rightarrow> bool" where
  "gives_up fn retryable k = (case fn k of Inr _ \<Rightarrow> True | Inl e \<Rightarrow> \<not> retryable e)"

lemma retry_loop_spec:
  assumes "int (attempt + n) = maxRetries + 1"
  shows "\<exists>k. attempt \<le> k \<and> k \<le> attempt + n \<and>
    (\<forall>j. attempt \<le> j \<and> j < k \<longrightarrow> \<not> gives_up fn retryable j) \<and>
    (gives_up fn retryable k \<or> int k = maxRetries + 1) \<and>
    retry_loop fn retryable maxRetries (Suc n) attempt lastError = (thrown (fn k), k)"
  using assms
proof (induction n arbitrary: attempt lastError)
  case 0
  then show ?case
    by (intro exI [of _ attempt]) (auto simp: gives_up_def split: sum.splits)
next
  case (Suc n)
  show ?case
  proof (cases "gives_up fn retryable attempt")
    case True
    then show ?thesis
      by (intro exI [of _ attempt]) (auto simp: gives_up_def split: sum.splits)
  next
    case False
    then obtain e where e: "fn attempt = Inl e" "retryable e"
      by (auto simp: gives_up_def split: sum.splits)
    have "int (Suc attempt + n) = maxRetries + 1" using Suc.prems by simp
    from Suc.IH [OF this, of "Some e"] obtain k where k: "Suc attempt \<le> k" "k \<le> Suc attempt + n"
      "\<forall>j. Suc attempt \<le> j \<and> j < k \<longrightarrow> \<not> gives_up fn retryable j"
      "gives_up fn retryable k \<or> int k = maxRetries + 1"
      "retry_loop fn retryable maxRetries (Suc n) (Suc attempt) (Some e) = (thrown (fn k), k)"
      by blast
    moreover have "retry_loop fn retryable maxRetries (Suc (Suc n)) attempt lastError =
        retry_loop fn retryable maxRetries (Suc n) (Suc attempt) (Some e)"
      using e Suc.prems by simp
    moreover have "\<not> gives_up fn retryable j" if "attempt \<le> j" "j < k" for j
      using that k(3) False by (cases "j = attempt") auto
    ultimately show ?thesis by (intro exI [of _ k]) (auto simp del: retry_loop.simps)
  qed
qed

text \<open>
  \<open>withRetry\<close> calls its function between one and \<open>maxRetries + 1\<close> times and stops at the first
  call that succeeds or fails with an error that is not retryable, or at the last allowed call;
  what it returns or throws is the outcome of exactly that call.
\<close>

theorem withRetry_first_conclusive:
  assumes "0 \<le> or_else maxRetries 3"
  shows "\<exists>k. 1 \<le> k \<and> int k \<le> or_else maxRetries 3 + 1 \<and>
    (\<forall>j. 1 \<le> j \<and> j < k \<longrightarrow> \<not> gives_up fn retryable j) \<and>
    (gives_up fn retryable k \<or> int k = or_else maxRetries 3 + 1) \<and>
    withRetry fn retryable maxRetries = (thrown (fn k), k)"
proof -
  let ?n = "nat (or_else maxRetries 3)"
  have n: "int (1 + ?n) = or_else maxRetries 3 + 1" using assms by simp
  have "nat (or_else maxRetries 3 + 1) = Suc ?n" using assms by (simp add: nat_add_distrib)
  then have "withRetry fn retryable maxRetries = retry_loop fn retryable (or_else maxRetries 3) (Suc ?n) 1 None"
    by (simp add: withRetry_def Let_def)
  with retry_loop_spec [OF n, of fn retryable None] n show ?thesis
    by (metis of_nat_le_iff)
qed

theorem withRetry_first_conclusive_witness:
  "\<exists>k. 1 \<le> k \<and> int k \<le> 4 \<and>
    withRetry (\<lambda>k. if k < 3 then Inl ''40001'' else Inr k) (\<lambda>e. e = ''40001'') None =
      (thrown (if k < 3 then Inl ''40001'' else Inr k), k)"
proof -
  have a: "0 \<le> or_else None (3 :: int)" by simp
  show ?thesis using withRetry_first_conclusive [OF a,
      of "\<lambda>k. if k < 3 then Inl ''40001'' else Inr k" "\<lambda>e. e = ''40001''"] by auto
qed

end
