(* ===== verification/RiskEngine.thy ===== *)
theory RiskEngine
  imports SmTypes CircuitBreaker
begin

text \<open>
  \<open>RiskEngine\<close> of \<open>src/src/betting/risk-engine.ts\<close> over the risk types of
  \<open>src/src/betting/types.ts\<close>. The process-wide financial breaker is an argument. A failed
  condition is named by its key, in place of the message text the source attaches to the key;
  the rejection text is a constructor over the failed keys.
\<close>

datatype risk_mode = Mode_observe_only | Mode_dry_run | Mode_live | Mode_maintenance

text \<open>\<open>expiresAt\<close> as the instant it parses to; \<open>None\<close> is an unparseable date, whose time is \<open>NaN\<close>.\<close>

record prediction_signal =
  ps_predictionId :: string
  ps_probability :: jsnum
  ps_confidence :: jsnum
  ps_target :: jsnum
  ps_expiresAt :: "int option"
  ps_dataQuality :: jsnum

record risk_input =
  ri_mode :: risk_mode
  ri_operatorAuthorized :: bool
  ri_sessionAuthenticated :: bool
  ri_gameLoaded :: bool
  ri_roundState :: "round_state option"
  ri_currentBalance :: "jsnum option"
  ri_dailyEntriesConfirmed :: int
  ri_paused :: bool
  ri_killSwitch :: bool
  ri_browserHealthy :: bool
  ri_gameAdapterHealthy :: bool
  ri_openBetExists :: bool
  ri_cooldownElapsed :: bool
  ri_requiredStake :: jsnum
  ri_balanceBuffer :: jsnum
  ri_maxDailyEntries :: int
  ri_minConfidenceForEntry :: observation_confidence
  ri_consecutiveErrors :: int
  ri_maxConsecutiveErrors :: int
  ri_cashOutFailures :: int
  ri_maxCashOutFailures :: int
  ri_predictionSignal :: "prediction_signal option"
  ri_minPredictionProbability :: "jsnum option"
  ri_minPredictionConfidence :: "jsnum option"

datatype risk_key =
    K_modeIsLive | K_operatorAuthorized | K_sessionAuthenticated | K_gameLoaded
  | K_roundStateValid | K_balanceSufficient | K_dailyEntriesBelowLimit | K_notPaused
  | K_killSwitchOff | K_browserHealthy | K_gameAdapterHealthy | K_observationConfidenceHigh
  | K_noOpenBet | K_cooldownElapsed | K_errorThresholdOk | K_cashOutFailureThresholdOk
  | K_predictionAcceptable

text \<open>\<open>RiskConditionResults\<close>: a Boolean for each key.\<close>

type_synonym risk_conditions = "risk_key \<Rightarrow> bool"

datatype risk_rejection = Rej_circuit_open | Rej_entry "risk_key list"

datatype risk_failure = Fail_circuit_open | Fail_key risk_key

record risk_result =
  rr_approved :: bool
  rr_conditions :: risk_conditions
  rr_rejectionReason :: "risk_rejection option"
  rr_firstFailure :: "risk_failure option"

section \<open>Evaluation\<close>

definition evaluatePrediction :: "int \<Rightarrow> risk_input \<Rightarrow> bool" where
  "evaluatePrediction now inp =
     (let minProb = or_else (ri_minPredictionProbability inp) (Fin 0);
          minConf = or_else (ri_minPredictionConfidence inp) (Fin 0)
      in if jle minProb (Fin 0) \<and> jle minConf (Fin 0) then True
         else case ri_predictionSignal inp of
                None \<Rightarrow> False
              | Some sig \<Rightarrow>
                  if (case ps_expiresAt sig of None \<Rightarrow> False | Some t \<Rightarrow> t \<le> now) then False
                  else if jlt (ps_probability sig) minProb then False
                  else if jlt (ps_confidence sig) minConf then False
                  else if jlt (ps_dataQuality sig) (lit (3/10)) then False
                  else True)"

definition evaluateAllConditions :: "int \<Rightarrow> risk_input \<Rightarrow> risk_conditions" where
  "evaluateAllConditions now inp =
     (let roundPhase = (case ri_roundState inp of None \<Rightarrow> Ph_unknown | Some r \<Rightarrow> rs_phase r);
          confidence = (case ri_roundState inp of None \<Rightarrow> Conf_low | Some r \<Rightarrow> rs_confidence r);
          balance = or_else (ri_currentBalance inp) (Fin 0);
          required = jadd (ri_requiredStake inp) (ri_balanceBuffer inp);
          isDryRun = (ri_mode inp = Mode_dry_run)
      in (\<lambda>k. case k of
           K_modeIsLive \<Rightarrow> ri_mode inp = Mode_live \<or> isDryRun
         | K_operatorAuthorized \<Rightarrow> ri_operatorAuthorized inp
         | K_sessionAuthenticated \<Rightarrow> (if isDryRun then True else ri_sessionAuthenticated inp)
         | K_gameLoaded \<Rightarrow> ri_gameLoaded inp
         | K_roundStateValid \<Rightarrow>
             (case ri_roundState inp of
                None \<Rightarrow> False
              | Some r \<Rightarrow> (roundPhase = Ph_starting \<or> roundPhase = Ph_running) \<and> rs_roundId r \<noteq> None)
         | K_balanceSufficient \<Rightarrow>
             (if isDryRun then ri_currentBalance inp = None \<or> jle required balance
              else ri_currentBalance inp \<noteq> None \<and> jle required balance)
         | K_dailyEntriesBelowLimit \<Rightarrow> ri_dailyEntriesConfirmed inp < ri_maxDailyEntries inp
         | K_notPaused \<Rightarrow> \<not> ri_paused inp
         | K_killSwitchOff \<Rightarrow> \<not> ri_killSwitch inp
         | K_browserHealthy \<Rightarrow> ri_browserHealthy inp
         | K_gameAdapterHealthy \<Rightarrow> ri_gameAdapterHealthy inp
         | K_observationConfidenceHigh \<Rightarrow> confidence = Conf_high
         | K_noOpenBet \<Rightarrow> \<not> ri_openBetExists inp
         | K_cooldownElapsed \<Rightarrow> ri_cooldownElapsed inp
         | K_errorThresholdOk \<Rightarrow> ri_consecutiveErrors inp < ri_maxConsecutiveErrors inp
         | K_cashOutFailureThresholdOk \<Rightarrow> ri_cashOutFailures inp < ri_maxCashOutFailures inp
         | K_predictionAcceptable \<Rightarrow> evaluatePrediction now inp))"

text \<open>The checks, in the order in which failures are reported.\<close>

definition risk_checks :: "risk_key list" where
  "risk_checks =
     [K_modeIsLive, K_operatorAuthorized, K_sessionAuthenticated, K_gameLoaded,
      K_roundStateValid, K_balanceSufficient, K_dailyEntriesBelowLimit, K_notPaused,
      K_killSwitchOff, K_browserHealthy, K_gameAdapterHealthy, K_observationConfidenceHigh,
      K_noOpenBet, K_cooldownElapsed, K_errorThresholdOk, K_cashOutFailureThresholdOk,
      K_predictionAcceptable]"

definition collectFailures :: "risk_conditions \<Rightarrow> risk_key list" where
  "collectFailures conditions = filter (\<lambda>k. \<not> conditions k) risk_checks"

text \<open>\<open>Rej_entry\<close> of one key is the short text, of several the counted, joined one.\<close>

definition buildRejectionMessage :: "risk_key list \<Rightarrow> risk_rejection" where
  "buildRejectionMessage failures = Rej_entry failures"

definition evaluate :: "int \<Rightarrow> fcb \<Rightarrow> risk_input \<Rightarrow> risk_result" where
  "evaluate now breaker inp =
     (let conditions = evaluateAllConditions now inp
      in if fst (fcb_snapshot_of breaker) = OPEN then
           \<lparr>rr_approved = False, rr_conditions = conditions,
            rr_rejectionReason = Some Rej_circuit_open, rr_firstFailure = Some Fail_circuit_open\<rparr>
         else case collectFailures conditions of
                [] \<Rightarrow> \<lparr>rr_approved = True, rr_conditions = conditions,
                      rr_rejectionReason = None, rr_firstFailure = None\<rparr>
              | f # fs \<Rightarrow>
                  \<lparr>rr_approved = False, rr_conditions = conditions,
                   rr_rejectionReason = Some (buildRejectionMessage (f # fs)),
                   rr_firstFailure = Some (Fail_key f)\<rparr>)"

definition isApproved :: "int \<Rightarrow> fcb \<Rightarrow> risk_input \<Rightarrow> bool" where
  "isApproved now breaker inp = rr_approved (evaluate now breaker inp)"

text \<open>The daily statistics the pause rule reads: both fields are optional properties.\<close>

definition shouldPauseAfterStreak :: "(int option \<times> int option) option \<Rightarrow> bool" where
  "shouldPauseAfterStreak dailyStats =
     (case dailyStats of
        None \<Rightarrow> False
      | Some (consecutiveLosses, losses) \<Rightarrow>
          let threshold = 10
          in or_else consecutiveLosses 0 \<ge> threshold \<or> or_else losses 0 \<ge> threshold)"

section \<open>Properties\<close>

lemma risk_checks_all: "k \<in> set risk_checks"
  by (cases k) (simp_all add: risk_checks_def)

lemma collectFailures_empty: "collectFailures c = [] \<longleftrightarrow> (\<forall>k. c k)"
  using risk_checks_all by (auto simp: collectFailures_def filter_empty_conv)

lemma isApproved_iff:
  "isApproved now b inp \<longleftrightarrow> fcb_state b \<noteq> OPEN \<and> (\<forall>k. evaluateAllConditions now inp k)"
  by (auto simp: isApproved_def evaluate_def Let_def fcb_snapshot_of_def
        collectFailures_empty [symmetric] split: list.splits)

text \<open>A live input that passes every check, for the witnesses.\<close>

definition ex_input :: "jsnum \<Rightarrow> risk_input" where
  "ex_input balance =
     \<lparr>ri_mode = Mode_live, ri_operatorAuthorized = True, ri_sessionAuthenticated = True,
      ri_gameLoaded = True,
      ri_roundState = Some \<lparr>rs_roundId = Some ''r1'', rs_phase = Ph_running,
        rs_currentMultiplier = None, rs_startedAt = None, rs_crashedAt = None,
        rs_crashPoint = None, rs_lastTickAt = None, rs_source = Src_websocket,
        rs_confidence = Conf_high\<rparr>,
      ri_currentBalance = Some balance, ri_dailyEntriesConfirmed = 3, ri_paused = False,
      ri_killSwitch = False, ri_browserHealthy = True, ri_gameAdapterHealthy = True,
      ri_openBetExists = False, ri_cooldownElapsed = True, ri_requiredStake = Fin 700,
      ri_balanceBuffer = Fin 700, ri_maxDailyEntries = 100,
      ri_minConfidenceForEntry = Conf_high, ri_consecutiveErrors = 0,
      ri_maxConsecutiveErrors = 3, ri_cashOutFailures = 0, ri_maxCashOutFailures = 2,
      ri_predictionSignal = None, ri_minPredictionProbability = None,
      ri_minPredictionConfidence = None\<rparr>"

definition ex_breaker :: fcb where
  "ex_breaker = fcb_new None None False"

text \<open>
  C8. An approval in live mode is earned: the financial circuit is not open, operator and session are
  authorised, the observed round is starting or running with an identifier and high confidence,
  a balance is known and not below the rounded sum of stake and buffer, the day's entries and
  both failure counters are below their limits, nothing is paused, killed, unhealthy or already
  open, and the cooldown has elapsed. Conversely these facts and an acceptable prediction
  approve.
\<close>

theorem live_approval_iff:
  assumes "ri_mode inp = Mode_live"
  shows "isApproved now b inp \<longleftrightarrow>
    fcb_state b \<noteq> OPEN \<and> ri_operatorAuthorized inp \<and> ri_sessionAuthenticated inp \<and>
    ri_gameLoaded inp \<and>
    (\<exists>r. ri_roundState inp = Some r \<and> (rs_phase r = Ph_starting \<or> rs_phase r = Ph_running) \<and>
         rs_roundId r \<noteq> None \<and> rs_confidence r = Conf_high) \<and>
    (\<exists>bal. ri_currentBalance inp = Some bal \<and>
           jle (jadd (ri_requiredStake inp) (ri_balanceBuffer inp)) bal) \<and>
    ri_dailyEntriesConfirmed inp < ri_maxDailyEntries inp \<and>
    \<not> ri_paused inp \<and> \<not> ri_killSwitch inp \<and> ri_browserHealthy inp \<and>
    ri_gameAdapterHealthy inp \<and> \<not> ri_openBetExists inp \<and> ri_cooldownElapsed inp \<and>
    ri_consecutiveErrors inp < ri_maxConsecutiveErrors inp \<and>
    ri_cashOutFailures inp < ri_maxCashOutFailures inp \<and> evaluatePrediction now inp"
proof -
  have all: "(\<forall>k. c k) \<longleftrightarrow> list_all c risk_checks" for c
    using risk_checks_all by (auto simp: list_all_iff)
  show ?thesis
    unfolding isApproved_iff all risk_checks_def
    by (auto simp: evaluateAllConditions_def Let_def assms split: option.splits)
qed

theorem live_approval_iff_witness:
  "isApproved 0 ex_breaker (ex_input (Fin 1400)) \<and> \<not> isApproved 0 ex_breaker (ex_input (Fin 1399))"
proof -
  have m: "ri_mode (ex_input x) = Mode_live" for x by (simp add: ex_input_def)
  show ?thesis
    unfolding live_approval_iff [OF m]
    by (simp add: ex_input_def ex_breaker_def fcb_new_def evaluatePrediction_def)
qed

text \<open>
  An approved live bet is covered: with a finite non-negative stake and buffer the known balance is
  not below the stake, rounding of their sum included.
\<close>

theorem live_approval_covers_stake:
  assumes "ri_mode inp = Mode_live" and "isApproved now b inp"
    and "ri_requiredStake inp = Fin stake" and "rnd stake = Fin stake"
    and "ri_balanceBuffer inp = Fin buffer" and "0 \<le> buffer"
  shows "\<exists>bal. ri_currentBalance inp = Some bal \<and> jle (Fin stake) bal"
proof -
  from assms obtain bal where bal: "ri_currentBalance inp = Some bal"
    "jle (rnd (stake + buffer)) bal"
    by (auto simp: live_approval_iff)
  moreover have "jle (Fin stake) (rnd (stake + buffer))"
    using assms(4,6) by (intro fl.sum_ge)
  ultimately show ?thesis by (blast intro: jle_trans)
qed

theorem live_approval_covers_stake_witness: "jle (Fin 700) (Fin 1400)"
proof -
  have a: "isApproved 0 ex_breaker (ex_input (Fin 1400))"
    unfolding isApproved_iff
    using risk_checks_all
    by (auto simp: evaluateAllConditions_def Let_def ex_input_def ex_breaker_def fcb_new_def
          evaluatePrediction_def split: risk_key.split)
  have "\<exists>bal. ri_currentBalance (ex_input (Fin 1400)) = Some bal \<and> jle (Fin 700) bal"
    by (rule live_approval_covers_stake [OF _ a, of 700 700]) (simp_all add: ex_input_def)
  then show ?thesis by (simp add: ex_input_def)
qed

text \<open>
  The reported first failure is the earliest failing check in the documented order, and a result
  lists exactly the failed conditions when the circuit is not open.
\<close>

theorem rejection_reports_failures_in_order:
  assumes "fcb_state b \<noteq> OPEN" and "\<not> isApproved now b inp"
  shows "\<exists>f fs. rr_firstFailure (evaluate now b inp) = Some (Fail_key f) \<and>
      rr_rejectionReason (evaluate now b inp) = Some (Rej_entry (f # fs)) \<and>
      set (f # fs) = {k. \<not> evaluateAllConditions now inp k} \<and>
      (\<exists>us vs. risk_checks = us @ f # vs \<and> list_all (evaluateAllConditions now inp) us)"
proof -
  let ?c = "evaluateAllConditions now inp"
  from assms have "collectFailures ?c \<noteq> []"
    by (simp add: isApproved_iff collectFailures_empty)
  then obtain f fs where f: "collectFailures ?c = f # fs" by (cases "collectFailures ?c") auto
  then have "set (f # fs) = {k. \<not> ?c k}"
    using risk_checks_all by (auto simp: collectFailures_def simp flip: f)
  moreover from f obtain us vs where "risk_checks = us @ f # vs" "\<forall>u \<in> set us. ?c u"
    by (auto simp: collectFailures_def filter_eq_Cons_iff)
  ultimately show ?thesis using f assms(1)
    by (intro exI [of _ f] exI [of _ fs])
      (auto simp: evaluate_def Let_def fcb_snapshot_of_def buildRejectionMessage_def list_all_iff)
qed

theorem rejection_reports_failures_in_order_witness:
  "\<exists>f. rr_firstFailure (evaluate 0 ex_breaker (ex_input NaN)) = Some (Fail_key f)"
proof -
  have "\<not> evaluateAllConditions 0 (ex_input NaN) K_balanceSufficient"
    by (simp add: evaluateAllConditions_def ex_input_def jle_def Let_def)
  then have a: "\<not> isApproved 0 ex_breaker (ex_input NaN)"
    unfolding isApproved_iff by blast
  have b: "fcb_state ex_breaker \<noteq> OPEN" by (simp add: ex_breaker_def fcb_new_def)
  from rejection_reports_failures_in_order [OF b a] show ?thesis by blast
qed

text \<open>
  The configured \<open>minConfidenceForEntry\<close> is never read: replacing it leaves every evaluation
  unchanged, so a configuration that asks for medium confidence still requires high.
\<close>

theorem min_confidence_is_ignored:
  "evaluate now b (inp\<lparr>ri_minConfidenceForEntry := c\<rparr>) = evaluate now b inp"
proof -
  have "evaluatePrediction now (inp\<lparr>ri_minConfidenceForEntry := c\<rparr>) = evaluatePrediction now inp"
    by (cases inp) (simp only: evaluatePrediction_def risk_input.simps)
  then have "evaluateAllConditions now (inp\<lparr>ri_minConfidenceForEntry := c\<rparr>) = evaluateAllConditions now inp"
    by (cases inp) (simp only: evaluateAllConditions_def risk_input.simps)
  then show ?thesis by (simp only: evaluate_def)
qed

text \<open>
  A financial circuit that has opened blocks entries at every later time: the engine reads the
  stored state only, which the passing of the cool-down does not change.
\<close>

theorem open_circuit_blocks_at_all_times:
  assumes "ts \<noteq> []" and "n \<le> int (length ts)"
  shows "\<not> isApproved now (fcb_fail_all (fcb_new (Some n) (Some c) False) ts) inp"
proof -
  let ?b = "fcb_fail_all (fcb_new (Some n) (Some c) False) ts"
  obtain ts' t where ts: "ts = ts' @ [t]" using assms(1) by (metis rev_exhaust)
  have "fcb_state ?b = OPEN"
    using assms(2) fcb_fail_all_fields [of "fcb_new (Some n) (Some c) False" ts'] unfolding ts
    by (simp add: fcb_recordFailure_def Let_def fcb_new_def)
  then show ?thesis by (simp add: isApproved_iff)
qed

theorem open_circuit_blocks_at_all_times_witness:
  "\<not> isApproved 1000000000 (fcb_fail_all (fcb_new (Some 2) (Some 60000) False) [1, 2]) (ex_input (Fin 1400))"
  by (rule open_circuit_blocks_at_all_times) simp_all

end
