(* ===== verification/JobQueue.thy ===== *)
theory JobQueue
  imports Complex_Main Prelude "HOL-Library.Multiset"
begin

text \<open>
  \<open>PriorityJobQueue\<close> of \<open>src/src/core/job-queue/priority-queue.ts\<close>. A handler is asynchronous:
  \<open>run\<close> starts a job, and its end is a later event that names the job's place among those in
  flight. \<open>pump\<close> contains no \<open>await\<close>, so the flag that keeps it from nesting is never seen set
  between events and is not part of the state. The retry timer is the time at which it fires.
\<close>

datatype priority = P_critical | P_high | P_normal | P_low | P_background

text \<open>The order of urgency: \<open>critical\<close> is the least.\<close>

instantiation priority :: linorder
begin

fun priority_rank :: "priority \<Rightarrow> nat" where
  "priority_rank P_critical = 0"
| "priority_rank P_high = 1"
| "priority_rank P_normal = 2"
| "priority_rank P_low = 3"
| "priority_rank P_background = 4"

definition less_eq_priority :: "priority \<Rightarrow> priority \<Rightarrow> bool" where
  "less_eq_priority p r \<longleftrightarrow> priority_rank p \<le> priority_rank r"

definition less_priority :: "priority \<Rightarrow> priority \<Rightarrow> bool" where
  "less_priority p r \<longleftrightarrow> priority_rank p < priority_rank r"

instance
proof
  show "p = r" if "p \<le> r" "r \<le> p" for p r :: priority
    using that by (cases p; cases r) (simp_all add: less_eq_priority_def)
qed (auto simp: less_eq_priority_def less_priority_def)

end

definition PRIORITY_ORDER :: "priority list" where
  "PRIORITY_ORDER = [P_critical, P_high, P_normal, P_low, P_background]"

record 'a job =
  j_id :: string
  j_priority :: priority
  j_payload :: 'a
  j_createdAt :: int
  j_attempts :: int
  j_maxAttempts :: int
  j_availableAt :: int

record 'a jq =
  q_buckets :: "priority \<Rightarrow> 'a job list"
  q_maxDepth :: int
  q_concurrency :: int
  q_retryBaseMs :: int
  q_active :: int
  q_handler :: bool
  q_retryTimer :: "int option"
  q_running :: "'a job list"
  q_deadLettering :: "'a job list"

text \<open>\<open>q_running\<close> are the calls of \<open>run\<close> inside the handler, \<open>q_deadLettering\<close> those inside \<open>onDeadLetter\<close>.\<close>

section \<open>Operations\<close>

definition jq_new :: "int option \<Rightarrow> int option \<Rightarrow> int option \<Rightarrow> 'a jq" where
  "jq_new maxDepth concurrency retryBaseMs =
     \<lparr>q_buckets = (\<lambda>_. []),
      q_maxDepth = (case maxDepth of None \<Rightarrow> 10000 | Some d \<Rightarrow> d),
      q_concurrency = max 1 (case concurrency of None \<Rightarrow> 1 | Some c \<Rightarrow> c),
      q_retryBaseMs = (case retryBaseMs of None \<Rightarrow> 100 | Some r \<Rightarrow> r),
      q_active = 0, q_handler = False, q_retryTimer = None, q_running = [], q_deadLettering = []\<rparr>"

definition jq_depth :: "'a jq \<Rightarrow> nat" where
  "jq_depth q = sum_list (map (\<lambda>p. length (q_buckets q p)) PRIORITY_ORDER)"

definition depthByPriority :: "'a jq \<Rightarrow> (priority \<times> nat) list" where
  "depthByPriority q = map (\<lambda>p. (p, length (q_buckets q p))) PRIORITY_ORDER"

fun dequeue_in :: "priority list \<Rightarrow> int \<Rightarrow> 'a jq \<Rightarrow> ('a job \<times> 'a jq) option" where
  "dequeue_in [] now q = None"
| "dequeue_in (p # ps) now q =
     (case remove_first (\<lambda>j. j_availableAt j \<le> now) (q_buckets q p) of
        Some (j, rest) \<Rightarrow> Some (j, q\<lparr>q_buckets := (q_buckets q)(p := rest)\<rparr>)
      | None \<Rightarrow> dequeue_in ps now q)"

definition jq_dequeue :: "int \<Rightarrow> 'a jq \<Rightarrow> ('a job \<times> 'a jq) option" where
  "jq_dequeue = dequeue_in PRIORITY_ORDER"

text \<open>The start of \<open>run\<close>: the attempt is counted and the handler called.\<close>

definition run_start :: "'a job \<Rightarrow> 'a jq \<Rightarrow> 'a jq" where
  "run_start j q =
     q\<lparr>q_active := q_active q + 1, q_running := q_running q @ [j\<lparr>j_attempts := j_attempts j + 1\<rparr>]\<rparr>"

lemma length_remove_first:
  "remove_first p xs = Some (y, ys) \<Longrightarrow> length xs = Suc (length ys)"
  by (drule remove_first_SomeD) auto

lemma sum_buckets:
  "jq_depth q = length (q_buckets q P_critical) + length (q_buckets q P_high) +
     length (q_buckets q P_normal) + length (q_buckets q P_low) + length (q_buckets q P_background)"
  by (simp add: jq_depth_def PRIORITY_ORDER_def)

lemma dequeue_in_SomeE:
  assumes "dequeue_in ps now q = Some (j, q')"
  obtains us p vs rest where "ps = us @ p # vs"
    "\<forall>u \<in> set us. \<forall>x \<in> set (q_buckets q u). \<not> j_availableAt x \<le> now"
    "remove_first (\<lambda>j. j_availableAt j \<le> now) (q_buckets q p) = Some (j, rest)"
    "q' = q\<lparr>q_buckets := (q_buckets q)(p := rest)\<rparr>"
  using assms
proof (induction ps arbitrary: thesis)
  case Nil
  then show ?case by simp
next
  case (Cons p ps)
  show ?case
  proof (cases "remove_first (\<lambda>j. j_availableAt j \<le> now) (q_buckets q p)")
    case None
    with Cons.prems(2) have "dequeue_in ps now q = Some (j, q')" by simp
    from Cons.IH [OF _ this] obtain us p' vs rest where "ps = us @ p' # vs"
      "\<forall>u \<in> set us. \<forall>x \<in> set (q_buckets q u). \<not> j_availableAt x \<le> now"
      "remove_first (\<lambda>j. j_availableAt j \<le> now) (q_buckets q p') = Some (j, rest)"
      "q' = q\<lparr>q_buckets := (q_buckets q)(p' := rest)\<rparr>" by blast
    with None show ?thesis
      by (intro Cons.prems(1) [of "p # us" p' vs rest]) (auto simp: remove_first_None_iff fun_upd_def)
  next
    case (Some r)
    obtain j' rest where "r = (j', rest)" by (cases r)
    with Some Cons.prems(2) show ?thesis
      by (intro Cons.prems(1) [of "[]" p ps rest]) (auto simp: fun_upd_def)
  qed
qed

lemma dequeue_depth: "jq_dequeue now q = Some (j, q') \<Longrightarrow> jq_depth q = Suc (jq_depth q')"
proof -
  assume "jq_dequeue now q = Some (j, q')"
  then obtain p rest where "remove_first (\<lambda>j. j_availableAt j \<le> now) (q_buckets q p) = Some (j, rest)"
    "q' = q\<lparr>q_buckets := (q_buckets q)(p := rest)\<rparr>"
    unfolding jq_dequeue_def by (elim dequeue_in_SomeE)
  then show ?thesis
    by (cases p) (auto simp: sum_buckets dest: length_remove_first)
qed

lemma depth_run_start [simp]: "jq_depth (run_start j q) = jq_depth q"
  by (simp add: sum_buckets run_start_def)

text \<open>The loop of \<open>pump\<close>: each turn takes a waiting job, so the depth shrinks.\<close>

function pump_loop :: "int \<Rightarrow> 'a jq \<Rightarrow> 'a jq" where
  "pump_loop now q =
     (if q_active q < q_concurrency q then
        (case jq_dequeue now q of
           None \<Rightarrow> q
         | Some (j, q') \<Rightarrow> pump_loop now (run_start j q'))
      else q)"
  by pat_completeness auto
termination
  by (relation "measure (\<lambda>(now, q). jq_depth q)") (auto dest!: dequeue_depth)

declare pump_loop.simps [simp del]

definition pump :: "int \<Rightarrow> 'a jq \<Rightarrow> 'a jq" where
  "pump now q = (if \<not> q_handler q then q else pump_loop now q)"

definition onProcess :: "int \<Rightarrow> 'a jq \<Rightarrow> 'a jq" where
  "onProcess now q = pump now (q\<lparr>q_handler := True\<rparr>)"

text \<open>A timer is set only when none is pending.\<close>

definition scheduleRetryPump :: "int \<Rightarrow> int \<Rightarrow> 'a jq \<Rightarrow> 'a jq" where
  "scheduleRetryPump now due q =
     (if q_retryTimer q \<noteq> None then q else q\<lparr>q_retryTimer := Some (now + max 0 (due - now))\<rparr>)"

definition timer_fires :: "int \<Rightarrow> 'a jq \<Rightarrow> 'a jq" where
  "timer_fires now q =
     (case q_retryTimer q of
        None \<Rightarrow> q
      | Some due \<Rightarrow> if due \<le> now then pump now (q\<lparr>q_retryTimer := None\<rparr>) else q)"

definition push_job :: "'a job \<Rightarrow> 'a jq \<Rightarrow> 'a jq" where
  "push_job j q =
     q\<lparr>q_buckets := (q_buckets q)(j_priority j := q_buckets q (j_priority j) @ [j])\<rparr>"

datatype jq_error = Queue_depth_limit_exceeded

text \<open>\<open>fresh\<close> is the generated identifier, used when the caller gives none.\<close>

definition jq_enqueue ::
  "int \<Rightarrow> string \<Rightarrow> 'a \<Rightarrow> priority \<Rightarrow> string option \<Rightarrow> int option \<Rightarrow> 'a jq \<Rightarrow>
     jq_error + string \<times> 'a jq" where
  "jq_enqueue now fresh payload prio id0 maxAttempts q =
     (if int (jq_depth q) \<ge> q_maxDepth q then Inl Queue_depth_limit_exceeded
      else let jid = (case id0 of None \<Rightarrow> fresh | Some i \<Rightarrow> i);
               j = \<lparr>j_id = jid, j_priority = prio, j_payload = payload, j_createdAt = now,
                    j_attempts = 0,
                    j_maxAttempts = (case maxAttempts of None \<Rightarrow> 3 | Some m \<Rightarrow> m),
                    j_availableAt = now\<rparr>
           in Inr (jid, pump now (push_job j q)))"

text \<open>The \<open>finally\<close> block of \<open>run\<close>.\<close>

definition run_finally :: "int \<Rightarrow> 'a jq \<Rightarrow> 'a jq" where
  "run_finally now q = pump now (q\<lparr>q_active := q_active q - 1\<rparr>)"

definition without_at :: "nat \<Rightarrow> 'a list \<Rightarrow> 'a list" where
  "without_at i xs = take i xs @ drop (Suc i) xs"

text \<open>The \<open>i\<close>-th job in flight succeeds, or its handler rejects.\<close>

definition run_succeeds :: "int \<Rightarrow> nat \<Rightarrow> 'a jq \<Rightarrow> 'a jq" where
  "run_succeeds now i q = run_finally now (q\<lparr>q_running := without_at i (q_running q)\<rparr>)"

definition run_fails :: "int \<Rightarrow> nat \<Rightarrow> 'a jq \<Rightarrow> 'a jq" where
  "run_fails now i q =
     (let j = q_running q ! i;
          q1 = q\<lparr>q_running := without_at i (q_running q)\<rparr>
      in if j_attempts j < j_maxAttempts j then
           (let j' = j\<lparr>j_availableAt := now + q_retryBaseMs q * 2 ^ nat (j_attempts j - 1)\<rparr>
            in run_finally now (scheduleRetryPump now (j_availableAt j') (push_job j' q1)))
         else q1\<lparr>q_deadLettering := q_deadLettering q1 @ [j]\<rparr>)"

text \<open>The \<open>i\<close>-th pending call of \<open>onDeadLetter\<close> ends, normally or not.\<close>

definition deadletter_done :: "int \<Rightarrow> nat \<Rightarrow> 'a jq \<Rightarrow> 'a jq" where
  "deadletter_done now i q =
     run_finally now (q\<lparr>q_deadLettering := without_at i (q_deadLettering q)\<rparr>)"

datatype 'a jq_event =
    Ev_enqueue int string 'a priority "string option" "int option"
  | Ev_onProcess int
  | Ev_success int nat
  | Ev_failure int nat
  | Ev_deadletter_done int nat
  | Ev_timer int

text \<open>An event that names a job which is not in flight does not occur; a failed enqueue throws and changes nothing.\<close>

fun jq_step :: "'a jq \<Rightarrow> 'a jq_event \<Rightarrow> 'a jq" where
  "jq_step q (Ev_enqueue now fresh payload prio id0 m) =
     (case jq_enqueue now fresh payload prio id0 m q of Inl _ \<Rightarrow> q | Inr (_, q') \<Rightarrow> q')"
| "jq_step q (Ev_onProcess now) = onProcess now q"
| "jq_step q (Ev_success now i) =
     (if i < length (q_running q) then run_succeeds now i q else q)"
| "jq_step q (Ev_failure now i) =
     (if i < length (q_running q) then run_fails now i q else q)"
| "jq_step q (Ev_deadletter_done now i) =
     (if i < length (q_deadLettering q) then deadletter_done now i q else q)"
| "jq_step q (Ev_timer now) = timer_fires now q"


definition jq_run :: "'a jq \<Rightarrow> 'a jq_event list \<Rightarrow> 'a jq" where
  "jq_run = foldl jq_step"

section \<open>Which job is taken\<close>

lemma order_split:
  assumes "PRIORITY_ORDER = us @ p # vs" and "r < p"
  shows "r \<in> set us"
proof -
  have "sorted PRIORITY_ORDER" "set PRIORITY_ORDER = UNIV"
    by (auto simp: PRIORITY_ORDER_def less_eq_priority_def intro: priority.exhaust)
  then have "r \<in> set (us @ p # vs)" "\<forall>x \<in> set vs. p \<le> x"
    unfolding assms(1) by (auto simp: sorted_append)
  with assms(2) show ?thesis by (auto simp: leD)
qed

text \<open>
  \<open>dequeue\<close> takes the most urgent job that is due, and among the due jobs of one priority the
  one that was queued first: no more urgent bucket holds a due job, none of the jobs before it
  in its bucket is due, and only that job leaves the queue.
\<close>

theorem dequeue_most_urgent_first:
  assumes "jq_dequeue now q = Some (j, q')"
  shows "\<exists>p us vs. q_buckets q p = us @ j # vs \<and> j_availableAt j \<le> now \<and>
           (\<forall>x \<in> set us. now < j_availableAt x) \<and>
           (\<forall>r < p. \<forall>x \<in> set (q_buckets q r). now < j_availableAt x) \<and>
           q' = q\<lparr>q_buckets := (q_buckets q)(p := us @ vs)\<rparr>"
proof -
  from assms obtain ps p rs rest where o: "PRIORITY_ORDER = ps @ p # rs"
    "\<forall>u \<in> set ps. \<forall>x \<in> set (q_buckets q u). \<not> j_availableAt x \<le> now"
    "remove_first (\<lambda>j. j_availableAt j \<le> now) (q_buckets q p) = Some (j, rest)"
    "q' = q\<lparr>q_buckets := (q_buckets q)(p := rest)\<rparr>"
    unfolding jq_dequeue_def by (elim dequeue_in_SomeE)
  from remove_first_SomeD [OF o(3)] obtain us vs where
    "q_buckets q p = us @ j # vs" "rest = us @ vs" "j_availableAt j \<le> now"
    "\<forall>x \<in> set us. \<not> j_availableAt x \<le> now" by blast
  with o(2,4) order_split [OF o(1)] show ?thesis
    by (intro exI [of _ p] exI [of _ us] exI [of _ vs]) (auto simp: not_le)
qed

definition ex_job :: "string \<Rightarrow> priority \<Rightarrow> int \<Rightarrow> nat job" where
  "ex_job i p due = \<lparr>j_id = i, j_priority = p, j_payload = 0, j_createdAt = 0, j_attempts = 0,
     j_maxAttempts = 3, j_availableAt = due\<rparr>"

theorem dequeue_most_urgent_first_witness:
  "let q = push_job (ex_job ''b'' P_high 5) (push_job (ex_job ''a'' P_low 1) (jq_new None None None))
   in j_id (fst (the (jq_dequeue 3 q))) = ''a'' \<and>
      (\<exists>p us vs. q_buckets q p = us @ ex_job ''a'' P_low 1 # vs \<and> (\<forall>x \<in> set us. 3 < j_availableAt x))"
proof -
  define q where "q = push_job (ex_job ''b'' P_high 5) (push_job (ex_job ''a'' P_low 1) (jq_new None None None))"
  obtain q' where d: "jq_dequeue 3 q = Some (ex_job ''a'' P_low 1, q')"
    by (simp add: q_def push_job_def jq_new_def jq_dequeue_def PRIORITY_ORDER_def ex_job_def)
  from dequeue_most_urgent_first [OF d] d show ?thesis
    unfolding q_def [symmetric] Let_def by (auto simp: ex_job_def)
qed

lemma dequeue_in_None_iff:
  "dequeue_in ps now q = None \<longleftrightarrow> (\<forall>p \<in> set ps. \<forall>j \<in> set (q_buckets q p). now < j_availableAt j)"
  by (induction ps) (auto split: option.splits simp: remove_first_None_iff not_le dest: remove_first_SomeD)

lemma dequeue_None_iff:
  "jq_dequeue now q = None \<longleftrightarrow> (\<forall>p. \<forall>j \<in> set (q_buckets q p). now < j_availableAt j)"
proof -
  have "set PRIORITY_ORDER = UNIV" by (auto simp: PRIORITY_ORDER_def intro: priority.exhaust)
  then show ?thesis by (simp add: jq_dequeue_def dequeue_in_None_iff)
qed

section \<open>Slots and attempts\<close>

definition allowed :: "'a job \<Rightarrow> int" where
  "allowed j = max 1 (j_maxAttempts j)"

definition jq_ok :: "'a jq \<Rightarrow> bool" where
  "jq_ok q \<longleftrightarrow>
     q_active q = int (length (q_running q) + length (q_deadLettering q)) \<and>
     q_active q \<le> q_concurrency q \<and>
     (\<forall>p. \<forall>j \<in> set (q_buckets q p). j_priority j = p \<and> 0 \<le> j_attempts j \<and> j_attempts j < allowed j) \<and>
     (\<forall>j \<in> set (q_running q). 1 \<le> j_attempts j \<and> j_attempts j \<le> allowed j) \<and>
     (\<forall>j \<in> set (q_deadLettering q). j_attempts j = allowed j)"

lemma allowed_update [simp]:
  "allowed (j\<lparr>j_attempts := n\<rparr>) = allowed j" "allowed (j\<lparr>j_availableAt := d\<rparr>) = allowed j"
  by (simp_all add: allowed_def)

lemma set_without_at: "set (without_at i xs) \<subseteq> set xs"
  unfolding without_at_def by (auto dest: in_set_takeD in_set_dropD)

lemma without_at_split:
  assumes "i < length xs"
  obtains us vs where "xs = us @ xs ! i # vs" "without_at i xs = us @ vs"
  using id_take_nth_drop [OF assms] unfolding without_at_def by blast

lemma mset_without_at: "i < length xs \<Longrightarrow> mset xs = add_mset (xs ! i) (mset (without_at i xs))"
  by (erule without_at_split) (metis mset.simps(2) mset_append union_mset_add_mset_right)

lemma length_without_at: "i < length xs \<Longrightarrow> length xs = Suc (length (without_at i xs))"
  by (drule mset_without_at) (metis size_add_mset size_mset)

lemma dequeue_ok:
  assumes "jq_ok q" and "jq_dequeue now q = Some (j, q')" and "q_active q < q_concurrency q"
  shows "jq_ok (run_start j q')"
proof -
  from assms(2) obtain p rest where d:
    "remove_first (\<lambda>j. j_availableAt j \<le> now) (q_buckets q p) = Some (j, rest)"
    "q' = q\<lparr>q_buckets := (q_buckets q)(p := rest)\<rparr>"
    unfolding jq_dequeue_def by (elim dequeue_in_SomeE)
  from remove_first_SomeD [OF d(1)] have "set rest \<subseteq> set (q_buckets q p)" "j \<in> set (q_buckets q p)"
    by auto
  moreover from this(2) assms(1) have "1 \<le> j_attempts j + 1" "j_attempts j + 1 \<le> allowed j"
    by (fastforce simp: jq_ok_def)+
  ultimately show ?thesis
    using assms(1,3) d(2) by (auto simp: jq_ok_def run_start_def subset_iff)
qed

lemma pump_loop_ok: "jq_ok q \<Longrightarrow> jq_ok (pump_loop now q)"
proof (induction now q rule: pump_loop.induct)
  case (1 now q)
  have "jq_ok (pump_loop now (run_start j q'))"
    if "q_active q < q_concurrency q" "jq_dequeue now q = Some (j, q')" for j q'
    using 1 that dequeue_ok [OF 1(2) that(2,1)] by blast
  with 1(2) show ?case
    by (subst pump_loop.simps) (auto split: option.splits)
qed

lemma pump_ok: "jq_ok q \<Longrightarrow> jq_ok (pump now q)"
  by (simp add: pump_def pump_loop_ok)

lemma jq_ok_handler [simp]: "jq_ok (q\<lparr>q_handler := h\<rparr>) = jq_ok q"
  by (simp add: jq_ok_def)

lemma jq_ok_timer [simp]: "jq_ok (q\<lparr>q_retryTimer := h\<rparr>) = jq_ok q"
  by (simp add: jq_ok_def)

lemma schedule_ok [simp]: "jq_ok (scheduleRetryPump now due q) = jq_ok q"
  by (simp add: scheduleRetryPump_def del: not_None_eq)

lemma succeeds_ok: "jq_ok q \<Longrightarrow> i < length (q_running q) \<Longrightarrow> jq_ok (run_succeeds now i q)"
  unfolding run_succeeds_def run_finally_def
  using length_without_at [of i "q_running q"] set_without_at [of i "q_running q"]
  by (intro pump_ok) (auto simp: jq_ok_def subset_iff)

lemma deadletter_ok: "jq_ok q \<Longrightarrow> i < length (q_deadLettering q) \<Longrightarrow> jq_ok (deadletter_done now i q)"
  unfolding deadletter_done_def run_finally_def
  using length_without_at [of i "q_deadLettering q"] set_without_at [of i "q_deadLettering q"]
  by (intro pump_ok) (auto simp: jq_ok_def subset_iff)

text \<open>Everything up to the \<open>finally\<close> block, which then gives back the slot.\<close>

lemma retry_state_ok:
  assumes "jq_ok q" and "i < length (q_running q)" and "j_attempts (q_running q ! i) < j_maxAttempts (q_running q ! i)"
  defines "q1 \<equiv> q\<lparr>q_running := without_at i (q_running q)\<rparr>"
  shows "jq_ok ((scheduleRetryPump now due (push_job ((q_running q ! i)\<lparr>j_availableAt := due\<rparr>) q1))
           \<lparr>q_active := q_active (scheduleRetryPump now due (push_job ((q_running q ! i)\<lparr>j_availableAt := due\<rparr>) q1)) - 1\<rparr>)"
proof -
  have "1 \<le> j_attempts (q_running q ! i)" using assms(1,2) by (auto simp: jq_ok_def)
  then have "0 \<le> j_attempts (q_running q ! i)" by simp
  then show ?thesis
    using assms(1-3) length_without_at [OF assms(2)] set_without_at [of i "q_running q"]
    by (auto simp: jq_ok_def subset_iff q1_def scheduleRetryPump_def push_job_def allowed_def simp del: not_None_eq)
qed

lemma fails_ok:
  assumes "jq_ok q" and "i < length (q_running q)"
  shows "jq_ok (run_fails now i q)"
proof (cases "j_attempts (q_running q ! i) < j_maxAttempts (q_running q ! i)")
  case True
  then show ?thesis
    unfolding run_fails_def run_finally_def Let_def
    using retry_state_ok [OF assms True] by (auto intro!: pump_ok)
next
  case False
  moreover have "q_running q ! i \<in> set (q_running q)" using assms(2) by simp
  ultimately have "j_attempts (q_running q ! i) = allowed (q_running q ! i)"
    using assms(1) by (fastforce simp: jq_ok_def allowed_def)
  with False show ?thesis
    using assms length_without_at [OF assms(2)] set_without_at [of i "q_running q"]
    by (auto simp: run_fails_def Let_def jq_ok_def subset_iff)
qed

lemma push_fresh_ok: "jq_ok q \<Longrightarrow> j_attempts j = 0 \<Longrightarrow> jq_ok (push_job j q)"
  by (auto simp: push_job_def jq_ok_def allowed_def)

lemma enqueue_ok:
  "jq_ok q \<Longrightarrow> jq_enqueue now fresh v p i m q = Inr (jid, q') \<Longrightarrow> jq_ok q'"
  by (auto simp: jq_enqueue_def Let_def split: if_splits intro!: pump_ok push_fresh_ok)

lemma jq_step_ok: "jq_ok q \<Longrightarrow> jq_ok (jq_step q e)"
  by (cases e)
    (auto simp: onProcess_def timer_fires_def succeeds_ok deadletter_ok fails_ok enqueue_ok
       split: sum.splits option.splits intro!: pump_ok)

interpretation jq: started jq_step jq_ok "jq_new d c r"
  by unfold_locales (auto simp: jq_step_ok, simp add: jq_ok_def jq_new_def)

lemma dequeue_concurrency:
  "jq_dequeue now q = Some (j, q') \<Longrightarrow> q_concurrency q' = q_concurrency q"
  unfolding jq_dequeue_def by (auto elim: dequeue_in_SomeE)

lemma run_start_concurrency [simp]: "q_concurrency (run_start j q) = q_concurrency q"
  by (simp add: run_start_def)

lemma pump_loop_concurrency [simp]: "q_concurrency (pump_loop now q) = q_concurrency q"
proof (induction now q rule: pump_loop.induct)
  case (1 now q)
  then show ?case
    by (subst pump_loop.simps) (auto split: option.splits simp: dequeue_concurrency)
qed

lemma pump_concurrency [simp]: "q_concurrency (pump now q) = q_concurrency q"
  by (simp add: pump_def)

lemma jq_step_concurrency: "q_concurrency (jq_step q e) = q_concurrency q"
  by (cases e)
    (auto simp: onProcess_def timer_fires_def run_succeeds_def run_fails_def run_finally_def
       deadletter_done_def jq_enqueue_def push_job_def scheduleRetryPump_def Let_def
       simp del: not_None_eq split: sum.splits option.splits if_splits)

interpretation jq_conc: stepwise jq_step "\<lambda>q. q_concurrency q = k"
  by unfold_locales (simp add: jq_step_concurrency)

text \<open>
  C32. Whatever the events and their order: the slots in use are exactly the jobs in flight (in the
  handler or in the dead-letter hook) and never exceed the configured concurrency, at least one;
  every job in flight has been started between once and \<open>max(1, maxAttempts)\<close> times, and a job is
  handed to the dead-letter hook only when all its attempts are used.
\<close>

theorem queue_slots_and_attempts:
  "let q = jq_run (jq_new d c r) evs in
     q_active q = int (length (q_running q) + length (q_deadLettering q)) \<and>
     q_active q \<le> max 1 (case c of None \<Rightarrow> 1 | Some n \<Rightarrow> n) \<and>
     list_all (\<lambda>j. 1 \<le> j_attempts j \<and> j_attempts j \<le> max 1 (j_maxAttempts j)) (q_running q) \<and>
     list_all (\<lambda>j. j_attempts j = max 1 (j_maxAttempts j)) (q_deadLettering q)"
proof -
  have "jq_ok (jq_run (jq_new d c r) evs)" unfolding jq_run_def by (rule jq.reachable_inv)
  moreover have "q_concurrency (jq_run (jq_new d c r) evs) = max 1 (case c of None \<Rightarrow> 1 | Some n \<Rightarrow> n)"
    unfolding jq_run_def by (rule jq_conc.run_inv) (simp add: jq_new_def)
  ultimately show ?thesis by (auto simp: jq_ok_def allowed_def list_all_iff)
qed

section \<open>The pump leaves no slot and no due job idle\<close>

lemma pump_loop_exhausts:
  "q_concurrency q \<le> q_active (pump_loop now q) \<or> jq_dequeue now (pump_loop now q) = None"
proof (induction now q rule: pump_loop.induct)
  case (1 now q)
  have "q_concurrency q \<le> q_active (pump_loop now (run_start j q')) \<or>
          jq_dequeue now (pump_loop now (run_start j q')) = None"
    if "q_active q < q_concurrency q" "jq_dequeue now q = Some (j, q')" for j q'
    using 1 that dequeue_concurrency [OF that(2)] by fastforce
  then show ?case
    by (subst (1 2) pump_loop.simps) (simp split: option.split del: not_None_eq)
qed

text \<open>
  After a pump with a handler registered, either every slot is busy or no job that is due is
  left waiting, in any bucket.
\<close>

theorem pump_work_conserving:
  assumes "q_handler q"
  shows "q_concurrency q \<le> q_active (pump now q) \<or>
         (\<forall>p. \<forall>j \<in> set (q_buckets (pump now q) p). now < j_availableAt j)"
  using pump_loop_exhausts [of q now] assms by (simp add: pump_def dequeue_None_iff)

theorem pump_work_conserving_witness:
  "let q = (push_job (ex_job ''a'' P_low 1) (jq_new None None None))\<lparr>q_handler := True\<rparr>
   in 1 \<le> q_active (pump 3 q) \<or> (\<forall>j \<in> set (q_buckets (pump 3 q) P_low). 3 < j_availableAt j)"
  using pump_work_conserving [of "(push_job (ex_job ''a'' P_low 1) (jq_new None None None))\<lparr>q_handler := True\<rparr>" 3]
  by (auto simp: Let_def push_job_def jq_new_def)

section \<open>No job is lost or duplicated\<close>

text \<open>What never changes about a job, and the jobs the queue is responsible for.\<close>

definition job_key :: "'a job \<Rightarrow> string \<times> priority \<times> 'a \<times> int \<times> int" where
  "job_key j = (j_id j, j_priority j, j_payload j, j_createdAt j, j_maxAttempts j)"

definition held_jobs :: "'a jq \<Rightarrow> (string \<times> priority \<times> 'a \<times> int \<times> int) multiset" where
  "held_jobs q = image_mset job_key
     (mset (concat (map (q_buckets q) PRIORITY_ORDER) @ q_running q @ q_deadLettering q))"

lemma job_key_update [simp]:
  "job_key (j\<lparr>j_attempts := n\<rparr>) = job_key j" "job_key (j\<lparr>j_availableAt := d\<rparr>) = job_key j"
  by (simp_all add: job_key_def)

lemma held_push [simp]: "held_jobs (push_job j q) = add_mset (job_key j) (held_jobs q)"
  by (cases "j_priority j") (simp_all add: held_jobs_def push_job_def PRIORITY_ORDER_def)

lemma held_run_start [simp]: "held_jobs (run_start j q) = add_mset (job_key j) (held_jobs q)"
  by (simp add: held_jobs_def run_start_def)

lemma held_schedule [simp]: "held_jobs (scheduleRetryPump now due q) = held_jobs q"
  by (simp add: held_jobs_def scheduleRetryPump_def del: not_None_eq)

lemma held_fields [simp]:
  "held_jobs (q\<lparr>q_active := n\<rparr>) = held_jobs q"
  "held_jobs (q\<lparr>q_handler := h\<rparr>) = held_jobs q"
  "held_jobs (q\<lparr>q_retryTimer := t\<rparr>) = held_jobs q"
  by (simp_all add: held_jobs_def)

lemma held_dequeue:
  assumes "jq_dequeue now q = Some (j, q')"
  shows "held_jobs q = add_mset (job_key j) (held_jobs q')"
proof -
  from assms obtain p rest where d:
    "remove_first (\<lambda>j. j_availableAt j \<le> now) (q_buckets q p) = Some (j, rest)"
    "q' = q\<lparr>q_buckets := (q_buckets q)(p := rest)\<rparr>"
    unfolding jq_dequeue_def by (elim dequeue_in_SomeE)
  from remove_first_SomeD [OF d(1)] have "mset (q_buckets q p) = add_mset j (mset rest)" by auto
  with d(2) show ?thesis
    by (cases p) (simp_all add: held_jobs_def PRIORITY_ORDER_def)
qed

lemma held_pump_loop [simp]: "held_jobs (pump_loop now q) = held_jobs q"
proof (induction now q rule: pump_loop.induct)
  case (1 now q)
  have "held_jobs (pump_loop now (run_start j q')) = held_jobs q"
    if "q_active q < q_concurrency q" "jq_dequeue now q = Some (j, q')" for j q'
    using 1 that held_dequeue [OF that(2)] by simp
  then show ?case
    by (subst pump_loop.simps) (simp split: option.split)
qed

lemma held_pump [simp]: "held_jobs (pump now q) = held_jobs q"
  by (simp add: pump_def)

lemma held_remove_running:
  "i < length (q_running q) \<Longrightarrow>
     held_jobs q = add_mset (job_key (q_running q ! i)) (held_jobs (q\<lparr>q_running := without_at i (q_running q)\<rparr>))"
  by (simp add: held_jobs_def mset_without_at [of i "q_running q"])

lemma held_remove_dead:
  "i < length (q_deadLettering q) \<Longrightarrow>
     held_jobs q = add_mset (job_key (q_deadLettering q ! i))
       (held_jobs (q\<lparr>q_deadLettering := without_at i (q_deadLettering q)\<rparr>))"
  by (simp add: held_jobs_def mset_without_at [of i "q_deadLettering q"])

lemma held_fails:
  "i < length (q_running q) \<Longrightarrow> held_jobs (run_fails now i q) = held_jobs q"
  by (auto simp: run_fails_def Let_def run_finally_def held_remove_running)
    (simp add: held_jobs_def mset_without_at [of i "q_running q"])

text \<open>
  Jobs are neither lost nor duplicated: an accepted \<open>enqueue\<close> adds exactly its own job to the
  jobs waiting or in flight, the success of a handler and the end of the dead-letter hook remove
  exactly the job they concern, and nothing else (retries, timers, pumping) changes them.
\<close>

theorem jobs_conserved:
  "held_jobs (jq_step q e) =
     (case e of
        Ev_enqueue now fresh v p i m \<Rightarrow>
          (if int (jq_depth q) \<ge> q_maxDepth q then held_jobs q
           else add_mset ((case i of None \<Rightarrow> fresh | Some n \<Rightarrow> n), p, v, now, (case m of None \<Rightarrow> 3 | Some k \<Rightarrow> k))
                  (held_jobs q))
      | Ev_success now i \<Rightarrow>
          (if i < length (q_running q) then held_jobs q - {#job_key (q_running q ! i)#} else held_jobs q)
      | Ev_deadletter_done now i \<Rightarrow>
          (if i < length (q_deadLettering q) then held_jobs q - {#job_key (q_deadLettering q ! i)#}
           else held_jobs q)
      | _ \<Rightarrow> held_jobs q)"
proof (cases e)
  case (Ev_enqueue now fresh v p i m)
  then show ?thesis by (simp add: jq_enqueue_def Let_def job_key_def)
next
  case (Ev_success now i)
  then show ?thesis by (simp add: run_succeeds_def run_finally_def held_remove_running)
next
  case (Ev_deadletter_done now i)
  then show ?thesis by (simp add: deadletter_done_def run_finally_def held_remove_dead)
qed (auto simp: onProcess_def timer_fires_def held_fails split: option.split)

section \<open>A retry can be left without a timer\<close>

text \<open>The events the queue brings about itself: everything but \<open>enqueue\<close> and \<open>onProcess\<close>.\<close>

fun jq_internal :: "'a jq_event \<Rightarrow> bool" where
  "jq_internal (Ev_enqueue _ _ _ _ _ _) = False"
| "jq_internal (Ev_onProcess _) = False"
| "jq_internal _ = True"

lemma internal_idle:
  "\<lbrakk>q_running q = []; q_deadLettering q = []; q_retryTimer q = None; jq_internal e\<rbrakk> \<Longrightarrow> jq_step q e = q"
  by (cases e) (simp_all add: timer_fires_def)

definition ex_two_failures :: "nat jq_event list" where
  "ex_two_failures =
     [Ev_onProcess 0, Ev_enqueue 0 ''a'' 1 P_normal None None, Ev_enqueue 0 ''b'' 2 P_normal None None,
      Ev_failure 10 0, Ev_failure 60 0, Ev_timer 110, Ev_success 120 0]"

lemma stranded_state:
  "let q = jq_run (jq_new None None None) ex_two_failures
   in q_running q = [] \<and> q_deadLettering q = [] \<and> q_retryTimer q = None \<and> q_handler q \<and>
      map j_id (q_buckets q P_normal) = [''b''] \<and> map j_availableAt (q_buckets q P_normal) = [160]"
  by (simp add: jq_run_def ex_two_failures_def jq_new_def onProcess_def jq_enqueue_def Let_def pump_def
      pump_loop.simps without_at_def jq_dequeue_def PRIORITY_ORDER_def jq_depth_def push_job_def run_start_def
      run_fails_def scheduleRetryPump_def run_finally_def timer_fires_def run_succeeds_def)

text \<open>
  The retry of a job can be lost until somebody else wakes the queue. The retry timer is set only
  when none is pending, and one firing serves the first failed job only: after two jobs have
  failed once, the first of them is retried and succeeds while the second, due at time 160, stays
  in its bucket with the handler idle, no timer pending, and no event the queue raises itself,
  at any time, that would start it.
\<close>

theorem second_retry_is_stranded:
  "let q = jq_run (jq_new None None None) ex_two_failures
   in map j_id (q_buckets q P_normal) = [''b''] \<and> map j_availableAt (q_buckets q P_normal) = [160] \<and>
      q_handler q \<and> q_running q = [] \<and> jq_run q (filter jq_internal es) = q"
proof -
  define q where "q = jq_run (jq_new None None None) ex_two_failures"
  have s: "q_running q = []" "q_deadLettering q = []" "q_retryTimer q = None" "q_handler q"
    "map j_id (q_buckets q P_normal) = [''b'']" "map j_availableAt (q_buckets q P_normal) = [160]"
    using stranded_state unfolding Let_def q_def by blast+
  have "jq_run q (filter jq_internal es) = q"
    unfolding jq_run_def by (induction es) (simp_all add: internal_idle s)
  with s show ?thesis unfolding q_def by (simp add: Let_def)
qed

end
