(* ===== verification/Mutex.thy ===== *)
theory Mutex
  imports JsNumber CircuitBreaker
begin

text \<open>
  \<open>DistributedMutex\<close> of \<open>src/src/core/distributed-mutex.ts\<close>. Redis is a parameter: its state has
  a type variable, \<open>rset\<close> is its \<open>SET key token PX ttl NX\<close>, and the record \<open>redis_eval\<close> has the commands
  that the release script of the program calls; the script itself is translated. The locale states what a lock store promises, whoever provides it; the
  in-memory locks are an interpretation, and so is Redis as the mutex uses it, under
  the documented behaviour of its two commands.
\<close>

section \<open>State\<close>

record mutex =
  mx_redis :: bool
  mx_lockTimeoutMs :: int
  mx_retryCount :: int
  mx_retryDelayMs :: int
  mx_keyPrefix :: string
  mx_allowInMemoryFallback :: bool
  mx_localLocks :: "string \<rightharpoonup> string \<times> int"
  mx_acquisitions :: int
  mx_failures :: int
  mx_contentions :: int
  mx_releases :: int
  mx_totalAcquisitionLatencyMs :: int

text \<open>A handle of Redis carries its key, a local handle does not.\<close>

record lock_handle =
  lh_token :: string
  lh_resource :: string
  lh_key :: "string option"

datatype set_reply = Set_OK | Set_nil | Set_throws

type_synonym 'r redis_set = "int \<Rightarrow> string \<Rightarrow> string \<Rightarrow> int \<Rightarrow> 'r \<Rightarrow> 'r \<times> set_reply"

text \<open>
  \<open>GET\<close> and \<open>DEL\<close> as the script calls them, at one instant, and the fate of an \<open>EVAL\<close>: whether the script runs, and
  whether its answer comes back. Redis runs a script as a whole.
\<close>

record 'r redis_eval =
  re_get :: "int \<Rightarrow> string \<Rightarrow> 'r \<Rightarrow> string option"
  re_del :: "int \<Rightarrow> string \<Rightarrow> 'r \<Rightarrow> 'r \<times> int"
  re_runs :: "int \<Rightarrow> bool"
  re_answers :: "int \<Rightarrow> bool"

text \<open>The options and the environment variables the constructor reads.\<close>

record mutex_options =
  mo_redisUrl :: "string option"
  mo_redisClient :: bool
  mo_lockTimeoutMs :: "int option"
  mo_retryCount :: "int option"
  mo_retryDelayMs :: "int option"
  mo_keyPrefix :: "string option"
  mo_allowInMemoryFallback :: "bool option"

record mutex_env =
  me_REDIS_KEY_PREFIX :: "string option"
  me_ALLOW_INMEMORY_MUTEX :: "string option"
  me_NODE_ENV :: "string option"
  me_REQUIRE_REDIS :: "string option"

datatype mutex_error = Redis_required_in_production

definition mutex_new :: "mutex_env \<Rightarrow> mutex_options \<Rightarrow> mutex_error + mutex" where
  "mutex_new env opts =
     (let redis = mo_redisClient opts \<or> truthy_str (mo_redisUrl opts);
          m = \<lparr>mx_redis = redis,
               mx_lockTimeoutMs = or_else (mo_lockTimeoutMs opts) 30000,
               mx_retryCount = or_else (mo_retryCount opts) 5,
               mx_retryDelayMs = or_else (mo_retryDelayMs opts) 100,
               mx_keyPrefix = or_else (mo_keyPrefix opts) (or_else (me_REDIS_KEY_PREFIX env) ''crash:''),
               mx_allowInMemoryFallback =
                 or_else (mo_allowInMemoryFallback opts)
                   (me_ALLOW_INMEMORY_MUTEX env = Some ''true'' \<or> me_NODE_ENV env \<noteq> Some ''production''),
               mx_localLocks = (\<lambda>_. None),
               mx_acquisitions = 0, mx_failures = 0, mx_contentions = 0, mx_releases = 0,
               mx_totalAcquisitionLatencyMs = 0\<rparr>;
          requireRedis = (me_REQUIRE_REDIS env = Some ''true'' \<or> me_NODE_ENV env = Some ''production'')
      in if \<not> redis \<and> requireRedis \<and> me_ALLOW_INMEMORY_MUTEX env \<noteq> Some ''true''
         then Inl Redis_required_in_production else Inr m)"

section \<open>Operations\<close>

definition lockKey :: "mutex \<Rightarrow> string \<Rightarrow> string" where
  "lockKey m resource = mx_keyPrefix m @ ''mutex:'' @ resource"

definition tryAcquireLocal :: "int \<Rightarrow> string \<Rightarrow> string \<Rightarrow> mutex \<Rightarrow> mutex \<times> lock_handle option" where
  "tryAcquireLocal now resource token m =
     (let take_it = (\<lambda>locks.
            (m\<lparr>mx_localLocks := locks(resource \<mapsto> (token, now + mx_lockTimeoutMs m))\<rparr>,
             Some \<lparr>lh_token = token, lh_resource = resource, lh_key = None\<rparr>))
      in case mx_localLocks m resource of
           Some (other, expiresAt) \<Rightarrow>
             if expiresAt \<le> now then take_it ((mx_localLocks m)(resource := None)) else (m, None)
         | None \<Rightarrow> take_it (mx_localLocks m))"

definition createRedisHandle :: "string \<Rightarrow> string \<Rightarrow> string \<Rightarrow> lock_handle" where
  "createRedisHandle resource token key =
     \<lparr>lh_token = token, lh_resource = resource, lh_key = Some key\<rparr>"

definition tryAcquire ::
  "'r redis_set \<Rightarrow> int \<Rightarrow> string \<Rightarrow> string \<Rightarrow> mutex \<times> 'r \<Rightarrow> (mutex \<times> 'r) \<times> lock_handle option" where
  "tryAcquire rset now resource token st =
     (let m = fst st;
          locally = (\<lambda>r. if \<not> mx_allowInMemoryFallback m \<and> \<not> mx_redis m then ((m, r), None)
                         else case tryAcquireLocal now resource token m of (m', h) \<Rightarrow> ((m', r), h))
      in if mx_redis m then
           let key = lockKey m resource
           in case rset now key token (mx_lockTimeoutMs m) (snd st) of
                (r, Set_OK) \<Rightarrow> ((m, r), Some (createRedisHandle resource token key))
              | (r, Set_nil) \<Rightarrow> ((m, r), None)
              | (r, Set_throws) \<Rightarrow> if \<not> mx_allowInMemoryFallback m then ((m, r), None) else locally r
         else locally (snd st))"

text \<open>
  The two \<open>release\<close> closures. A local handle deletes the entry only if it still has its token;
  for a Redis handle the script tests it.
\<close>

definition releaseLocal :: "lock_handle \<Rightarrow> mutex \<Rightarrow> mutex" where
  "releaseLocal h m =
     (case mx_localLocks m (lh_resource h) of
        Some (tok, _) \<Rightarrow>
          if tok = lh_token h then
            m\<lparr>mx_localLocks := (mx_localLocks m)(lh_resource h := None), mx_releases := mx_releases m + 1\<rparr>
          else m
      | None \<Rightarrow> m)"

text \<open>The Lua script of the release: \<open>GET\<close>, a comparison, \<open>DEL\<close> or zero.\<close>

definition release_script :: "'r redis_eval \<Rightarrow> int \<Rightarrow> string \<Rightarrow> string \<Rightarrow> 'r \<Rightarrow> 'r \<times> int" where
  "release_script E now key token r =
     (if re_get E now key r = Some token then re_del E now key r else (r, 0))"

definition releaseRedis ::
  "'r redis_eval \<Rightarrow> int \<Rightarrow> string \<Rightarrow> lock_handle \<Rightarrow> mutex \<times> 'r \<Rightarrow> mutex \<times> 'r" where
  "releaseRedis E now key h st =
     (if \<not> mx_redis (fst st) then st
      else let r = (if re_runs E now then fst (release_script E now key (lh_token h) (snd st)) else snd st)
           in (if re_runs E now \<and> re_answers E now then (fst st)\<lparr>mx_releases := mx_releases (fst st) + 1\<rparr> else fst st, r))"

definition mx_release ::
  "'r redis_eval \<Rightarrow> int \<Rightarrow> lock_handle \<Rightarrow> mutex \<times> 'r \<Rightarrow> mutex \<times> 'r" where
  "mx_release E now h st =
     (case lh_key h of
        None \<Rightarrow> (releaseLocal h (fst st), snd st)
      | Some key \<Rightarrow> releaseRedis E now key h st)"

text \<open>
  The loop of \<open>acquire\<close>. \<open>clock i\<close> is the time of attempt \<open>i\<close>, \<open>later i\<close> the time after it, and
  \<open>others i\<close> what other tasks and processes do to the locks while the loop sleeps after it.
\<close>

fun acquire_loop ::
  "'r redis_set \<Rightarrow> (nat \<Rightarrow> int) \<Rightarrow> (nat \<Rightarrow> int) \<Rightarrow> (nat \<Rightarrow> mutex \<times> 'r \<Rightarrow> mutex \<times> 'r) \<Rightarrow>
     int \<Rightarrow> string \<Rightarrow> string \<Rightarrow> nat \<Rightarrow> nat \<Rightarrow> mutex \<times> 'r \<Rightarrow> (mutex \<times> 'r) \<times> lock_handle option" where
  "acquire_loop rset clock later others start resource token attempt 0 st = (st, None)"
| "acquire_loop rset clock later others start resource token attempt (Suc left) st =
     (case tryAcquire rset (clock attempt) resource token st of
        ((m, r), Some h) \<Rightarrow>
          ((m\<lparr>mx_acquisitions := mx_acquisitions m + 1,
              mx_totalAcquisitionLatencyMs :=
                mx_totalAcquisitionLatencyMs m + (later attempt - start)\<rparr>, r), Some h)
      | ((m, r), None) \<Rightarrow>
          let m' = m\<lparr>mx_contentions := mx_contentions m + 1\<rparr>;
              st' = (if int attempt < mx_retryCount m then others attempt (m', r) else (m', r))
          in acquire_loop rset clock later others start resource token (Suc attempt) left st')"

definition acquire ::
  "'r redis_set \<Rightarrow> (nat \<Rightarrow> int) \<Rightarrow> (nat \<Rightarrow> int) \<Rightarrow> (nat \<Rightarrow> mutex \<times> 'r \<Rightarrow> mutex \<times> 'r) \<Rightarrow>
     int \<Rightarrow> string \<Rightarrow> string \<Rightarrow> mutex \<times> 'r \<Rightarrow> (mutex \<times> 'r) \<times> lock_handle option" where
  "acquire rset clock later others start resource token st =
     (case acquire_loop rset clock later others start resource token 0
             (nat (mx_retryCount (fst st) + 1)) st of
        (st', Some h) \<Rightarrow> (st', Some h)
      | ((m, r), None) \<Rightarrow> ((m\<lparr>mx_failures := mx_failures m + 1\<rparr>, r), None))"

record mutex_metrics =
  mm_acquisitions :: int
  mm_failures :: int
  mm_contentions :: int
  mm_releases :: int
  mm_avgAcquisitionLatencyMs :: jsnum

definition getMetrics :: "mutex \<Rightarrow> mutex_metrics" where
  "getMetrics m =
     (let avg = (if mx_acquisitions m > 0
                 then jdiv (jsint (mx_totalAcquisitionLatencyMs m)) (jsint (mx_acquisitions m)) else Fin 0)
      in \<lparr>mm_acquisitions = mx_acquisitions m, mm_failures = mx_failures m,
          mm_contentions = mx_contentions m, mm_releases = mx_releases m,
          mm_avgAcquisitionLatencyMs = jdiv (js_round (jmul avg (Fin 100))) (Fin 100)\<rparr>)"

definition mx_disconnect :: "mutex \<Rightarrow> mutex" where
  "mx_disconnect m = m\<lparr>mx_localLocks := (\<lambda>_. None)\<rparr>"

section \<open>What a lock store promises\<close>

text \<open>
  \<open>owner k s\<close> is the token that holds \<open>k\<close>, with the time at which it lapses. A grant needs a key
  that is free or lapsed and makes the caller its owner for \<open>ttl\<close>; a refusal and an operation on
  another key change no owner; an unlock with a foreign token has no effect.
\<close>

datatype ('k, 'x) lock_op = Try_lock int 'k 'x | Unlock int 'k 'x

fun lop_time :: "('k, 'x) lock_op \<Rightarrow> int" where
  "lop_time (Try_lock now _ _) = now"
| "lop_time (Unlock now _ _) = now"

fun lop_step ::
  "(int \<Rightarrow> 'k \<Rightarrow> 'x \<Rightarrow> 's \<Rightarrow> 's \<times> bool) \<Rightarrow> (int \<Rightarrow> 'k \<Rightarrow> 'x \<Rightarrow> 's \<Rightarrow> 's) \<Rightarrow>
     's \<Rightarrow> ('k, 'x) lock_op \<Rightarrow> 's" where
  "lop_step tk ut s (Try_lock now k x) = fst (tk now k x s)"
| "lop_step tk ut s (Unlock now k x) = ut now k x s"

locale lock_store =
  fixes try_lock :: "int \<Rightarrow> 'k \<Rightarrow> 'x \<Rightarrow> 's \<Rightarrow> 's \<times> bool"
    and unlock :: "int \<Rightarrow> 'k \<Rightarrow> 'x \<Rightarrow> 's \<Rightarrow> 's"
    and owner :: "'k \<Rightarrow> 's \<Rightarrow> ('x \<times> int) option"
    and ttl :: int
  assumes grant: "try_lock now k x s = (s', True) \<Longrightarrow>
      (\<forall>y e. owner k s = Some (y, e) \<longrightarrow> e \<le> now) \<and> owner k s' = Some (x, now + ttl)"
    and grant_frame: "try_lock now k x s = (s', b) \<Longrightarrow> k' \<noteq> k \<Longrightarrow> owner k' s' = owner k' s"
    and refusal: "try_lock now k x s = (s', False) \<Longrightarrow> owner k s = Some (y, e) \<Longrightarrow> now < e \<Longrightarrow>
      owner k s' = owner k s"
    and unlock_foreign: "owner k s = Some (y, e) \<Longrightarrow> y \<noteq> x \<Longrightarrow> owner k (unlock now k x s) = owner k s"
    and unlock_frame: "k' \<noteq> k \<Longrightarrow> owner k' (unlock now k x s) = owner k' s"
begin

lemma held_step:
  assumes "owner k s = Some (x, e)" and "lop_time p < e"
    and "\<And>now. p \<noteq> Unlock now k x"
  shows "owner k (lop_step try_lock unlock s p) = Some (x, e)"
proof (cases p)
  case (Try_lock now k' y)
  obtain s' b where r: "try_lock now k' y s = (s', b)" by (cases "try_lock now k' y s")
  have "owner k s' = owner k s"
  proof (cases "k' = k")
    case True
    with r assms(1,2) Try_lock grant [of now k y s s'] refusal [of now k y s s' x e] show ?thesis
      by (cases b) force+
  qed (use r grant_frame in auto)
  with Try_lock r assms(1) show ?thesis by simp
next
  case (Unlock now k' y)
  show ?thesis
  proof (cases "k' = k")
    case True
    with Unlock assms(3) have "y \<noteq> x" by blast
    with True Unlock assms(1) unlock_foreign [of k s x e y now] show ?thesis by simp
  next
    case False
    with Unlock assms(1) unlock_frame [of k k' now y s] show ?thesis by simp
  qed
qed

lemma held_run:
  assumes "owner k s = Some (x, e)" and "list_all (\<lambda>p. lop_time p < e \<and> (\<forall>now. p \<noteq> Unlock now k x)) ps"
  shows "owner k (foldl (lop_step try_lock unlock) s ps) = Some (x, e)"
  using assms by (induction ps arbitrary: s) (auto simp: held_step)

text \<open>Mutual exclusion: until the lock lapses or its owner gives it back, nobody is granted it.\<close>

lemma exclusive:
  assumes "try_lock now k x s = (s', True)"
    and "list_all (\<lambda>p. lop_time p < now + ttl \<and> (\<forall>t. p \<noteq> Unlock t k x)) ps"
    and "t < now + ttl"
  shows "\<not> snd (try_lock t k y (foldl (lop_step try_lock unlock) s' ps))"
proof
  assume "snd (try_lock t k y (foldl (lop_step try_lock unlock) s' ps))"
  then obtain s'' where "try_lock t k y (foldl (lop_step try_lock unlock) s' ps) = (s'', True)"
    by (metis prod.collapse)
  moreover have "owner k (foldl (lop_step try_lock unlock) s' ps) = Some (x, now + ttl)"
    using grant [OF assms(1)] assms(2) by (auto intro: held_run)
  ultimately show False using grant assms(3) by fastforce
qed

end

section \<open>In-memory locks\<close>

text \<open>
  The in-memory locks of one process: state is the map from resources to token and expiry, and a
  handle is released by its own closure.
\<close>

definition local_try :: "mutex \<Rightarrow> int \<Rightarrow> string \<Rightarrow> string \<Rightarrow> (string \<rightharpoonup> string \<times> int) \<Rightarrow>
    (string \<rightharpoonup> string \<times> int) \<times> bool" where
  "local_try m now resource token locks =
     (case tryAcquireLocal now resource token (m\<lparr>mx_localLocks := locks\<rparr>) of
        (m', h) \<Rightarrow> (mx_localLocks m', h \<noteq> None))"

definition local_release :: "mutex \<Rightarrow> int \<Rightarrow> string \<Rightarrow> string \<Rightarrow> (string \<rightharpoonup> string \<times> int) \<Rightarrow>
    (string \<rightharpoonup> string \<times> int)" where
  "local_release m now resource token locks =
     mx_localLocks (releaseLocal \<lparr>lh_token = token, lh_resource = resource, lh_key = None\<rparr>
       (m\<lparr>mx_localLocks := locks\<rparr>))"

lemmas local_lock_defs = local_try_def local_release_def tryAcquireLocal_def releaseLocal_def Let_def

interpretation ll: lock_store "local_try m" "local_release m" "\<lambda>k s. s k" "mx_lockTimeoutMs m"
  by unfold_locales
    (auto simp: local_lock_defs split: option.splits if_splits prod.splits)

section \<open>Redis\<close>

text \<open>
  The documented behaviour of \<open>SET NX PX\<close>, \<open>GET\<close> and \<open>DEL\<close>, over the entry of a key that Redis stores with
  its expiry; the reply of \<open>SET\<close> may also be an error.
\<close>

definition redis_lock_laws ::
  "'r redis_set \<Rightarrow> 'r redis_eval \<Rightarrow> (string \<Rightarrow> 'r \<Rightarrow> (string \<times> int) option) \<Rightarrow> bool" where
  "redis_lock_laws rset E entry \<longleftrightarrow>
     (\<forall>now k x ttl r r' reply. rset now k x ttl r = (r', reply) \<longrightarrow>
        (reply = Set_OK \<longrightarrow> (\<forall>y e. entry k r = Some (y, e) \<longrightarrow> e \<le> now) \<and> entry k r' = Some (x, now + ttl)) \<and>
        (reply \<noteq> Set_OK \<longrightarrow> (\<forall>y e. entry k r = Some (y, e) \<and> now < e \<longrightarrow> entry k r' = entry k r)) \<and>
        (\<forall>k'. k' \<noteq> k \<longrightarrow> entry k' r' = entry k' r)) \<and>
     (\<forall>now k r.
        re_get E now k r = (case entry k r of Some (y, e) \<Rightarrow> if now < e then Some y else None | None \<Rightarrow> None)) \<and>
     (\<forall>now k r k'. entry k' (fst (re_del E now k r)) = (if k' = k then None else entry k' r))"

lemma release_script_spares:
  assumes "redis_lock_laws rset E entry"
  shows "entry k r = Some (y, e) \<Longrightarrow> y \<noteq> x \<Longrightarrow> entry k (fst (release_script E now k x r)) = entry k r"
    and "k' \<noteq> k \<Longrightarrow> entry k' (fst (release_script E now k x r)) = entry k' r"
proof -
  note laws = assms [unfolded redis_lock_laws_def, THEN conjunct2]
  show "entry k r = Some (y, e) \<Longrightarrow> y \<noteq> x \<Longrightarrow> entry k (fst (release_script E now k x r)) = entry k r"
    using laws by (auto simp: release_script_def)
  show "k' \<noteq> k \<Longrightarrow> entry k' (fst (release_script E now k x r)) = entry k' r"
    using laws by (simp add: release_script_def)
qed

text \<open>What one attempt, and one release, of a process with settings \<open>m\<close> do to the shared Redis.\<close>

definition shared_try :: "'r redis_set \<Rightarrow> mutex \<Rightarrow> int \<Rightarrow> string \<Rightarrow> string \<Rightarrow> 'r \<Rightarrow> 'r \<times> bool" where
  "shared_try rset m now resource token r =
     (case tryAcquire rset now resource token (m, r) of ((m', r'), h) \<Rightarrow> (r', h \<noteq> None))"

definition shared_release :: "'r redis_eval \<Rightarrow> mutex \<Rightarrow> int \<Rightarrow> string \<Rightarrow> string \<Rightarrow> 'r \<Rightarrow> 'r" where
  "shared_release E m now resource token r =
     snd (mx_release E now (createRedisHandle resource token (lockKey m resource)) (m, r))"

lemma lockKey_inj [simp]: "lockKey m a = lockKey m b \<longleftrightarrow> a = b"
  by (simp add: lockKey_def)

lemma shared_try_cases:
  assumes "mx_redis m" and "\<not> mx_allowInMemoryFallback m" and "shared_try rset m now resource token r = (r', b)"
  obtains reply where "rset now (lockKey m resource) token (mx_lockTimeoutMs m) r = (r', reply)"
    "b \<longleftrightarrow> reply = Set_OK"
  using assms by (auto simp: shared_try_def tryAcquire_def Let_def split: prod.splits set_reply.splits)

lemma redis_is_lock_store:
  assumes laws: "redis_lock_laws rset E entry"
    and m: "mx_redis m" "\<not> mx_allowInMemoryFallback m"
  shows "lock_store (shared_try rset m) (shared_release E m)
           (\<lambda>k. entry (lockKey m k)) (mx_lockTimeoutMs m)"
proof
  show "(\<forall>y e. entry (lockKey m k) s = Some (y, e) \<longrightarrow> e \<le> now) \<and>
          entry (lockKey m k) s' = Some (x, now + mx_lockTimeoutMs m)"
    if "shared_try rset m now k x s = (s', True)" for now k x s s'
    using shared_try_cases [OF m that] laws unfolding redis_lock_laws_def by metis
  show "entry (lockKey m k') s' = entry (lockKey m k') s"
    if "shared_try rset m now k x s = (s', b)" "k' \<noteq> k" for now k x s s' b k'
    using shared_try_cases [OF m that(1)] that(2) laws unfolding redis_lock_laws_def
    by (metis lockKey_inj)
  show "entry (lockKey m k) s' = entry (lockKey m k) s"
    if "shared_try rset m now k x s = (s', False)" "entry (lockKey m k) s = Some (y, e)" "now < e"
    for now k x s s' y e
    using shared_try_cases [OF m that(1)] that(2,3) laws unfolding redis_lock_laws_def by metis
  show "entry (lockKey m k) (shared_release E m now k x s) = entry (lockKey m k) s"
    if "entry (lockKey m k) s = Some (y, e)" "y \<noteq> x" for k s y e x now
    using release_script_spares(1) [OF laws that] m
    by (simp add: shared_release_def mx_release_def createRedisHandle_def releaseRedis_def Let_def)
  show "entry (lockKey m k') (shared_release E m now k x s) = entry (lockKey m k') s"
    if "k' \<noteq> k" for k' k now x s
    using release_script_spares(2) [OF laws, of "lockKey m k'" "lockKey m k"] that m
    by (simp add: shared_release_def mx_release_def createRedisHandle_def releaseRedis_def Let_def)
qed

section \<open>Properties\<close>

text \<open>
  In-memory locks exclude: once a caller holds a resource, no attempt of anybody is granted it
  before its timeout, whatever is acquired and released in between, as long as the holder's own
  handle is not released.
\<close>

theorem local_locks_exclude:
  assumes "local_try m now k x locks = (locks', True)"
    and "list_all (\<lambda>p. lop_time p < now + mx_lockTimeoutMs m \<and> (\<forall>t. p \<noteq> Unlock t k x)) ps"
    and "t < now + mx_lockTimeoutMs m"
  shows "\<not> snd (local_try m t k y (foldl (lop_step (local_try m) (local_release m)) locks' ps))"
  by (rule ll.exclusive [OF assms])

definition ex_mutex :: "bool \<Rightarrow> bool \<Rightarrow> mutex" where
  "ex_mutex redis fallback =
     \<lparr>mx_redis = redis, mx_lockTimeoutMs = 30000, mx_retryCount = 2, mx_retryDelayMs = 100,
      mx_keyPrefix = ''crash:'', mx_allowInMemoryFallback = fallback, mx_localLocks = (\<lambda>_. None),
      mx_acquisitions = 0, mx_failures = 0, mx_contentions = 0, mx_releases = 0,
      mx_totalAcquisitionLatencyMs = 0\<rparr>"

theorem local_locks_exclude_witness:
  "\<not> snd (local_try (ex_mutex False True) 200 ''bet'' ''b''
       (local_release (ex_mutex False True) 150 ''bet'' ''b'' [''bet'' \<mapsto> (''a'', 30100)]))"
proof -
  have g: "local_try (ex_mutex False True) 100 ''bet'' ''a'' (\<lambda>_. None) = ([''bet'' \<mapsto> (''a'', 30100)], True)"
    by (simp add: local_lock_defs ex_mutex_def)
  have o: "list_all (\<lambda>p. lop_time p < 100 + mx_lockTimeoutMs (ex_mutex False True) \<and>
      (\<forall>t. p \<noteq> Unlock t ''bet'' ''a'')) [Unlock 150 ''bet'' ''b'']"
    by (simp add: ex_mutex_def)
  have t: "200 < 100 + mx_lockTimeoutMs (ex_mutex False True)" by (simp add: ex_mutex_def)
  show ?thesis using local_locks_exclude [OF g o t, of "''b''"] by simp
qed

text \<open>
  C25. Mutual exclusion across processes: if no process may fall back to in-memory locks and the commands of Redis
  behave as documented (calls may fail at any time), then after one process was granted a resource
  no attempt of any process is granted it before the timeout, whatever happens in between,
  releases of other handles of the same resource included, unless the owner's handle is released.
\<close>

theorem processes_exclude_over_redis:
  assumes "redis_lock_laws rset E entry"
    and "mx_redis m" and "\<not> mx_allowInMemoryFallback m"
    and "shared_try rset m now k x r = (r', True)"
    and "list_all (\<lambda>p. lop_time p < now + mx_lockTimeoutMs m \<and> (\<forall>t. p \<noteq> Unlock t k x)) ps"
    and "t < now + mx_lockTimeoutMs m"
  shows "\<not> snd (shared_try rset m t k y (foldl (lop_step (shared_try rset m) (shared_release E m)) r' ps))"
  by (rule lock_store.exclusive [OF redis_is_lock_store [OF assms(1-3)] assms(4-6)])

text \<open>A Redis that is a map of entries; \<open>down\<close> says at which times it does not answer.\<close>

definition map_set :: "(int \<Rightarrow> bool) \<Rightarrow> (string \<rightharpoonup> string \<times> int) redis_set" where
  "map_set down now k x ttl r =
     (if down now then (r, Set_throws)
      else case r k of
        Some (y, e) \<Rightarrow> if now < e then (r, Set_nil) else (r(k \<mapsto> (x, now + ttl)), Set_OK)
      | None \<Rightarrow> (r(k \<mapsto> (x, now + ttl)), Set_OK))"

definition map_eval :: "(int \<Rightarrow> bool) \<Rightarrow> (string \<rightharpoonup> string \<times> int) redis_eval" where
  "map_eval down =
     \<lparr>re_get = (\<lambda>now k r. case r k of Some (y, e) \<Rightarrow> if now < e then Some y else None | None \<Rightarrow> None),
      re_del = (\<lambda>now k r. (r(k := None), if r k = None then 0 else 1)),
      re_runs = (\<lambda>t. \<not> down t), re_answers = (\<lambda>t. \<not> down t)\<rparr>"

lemma map_redis_laws: "redis_lock_laws (map_set down) (map_eval down) (\<lambda>k r. r k)"
  unfolding redis_lock_laws_def map_set_def map_eval_def
  by (auto split: if_splits option.splits prod.splits)

theorem processes_exclude_over_redis_witness:
  "\<not> snd (shared_try (map_set (\<lambda>t. t = 150)) (ex_mutex True False) 200 ''bet'' ''b''
       (shared_release (map_eval (\<lambda>t. t = 150)) (ex_mutex True False) 160 ''bet'' ''b''
          [''crash:mutex:bet'' \<mapsto> (''a'', 30100)]))"
proof -
  have g: "shared_try (map_set (\<lambda>t. t = 150)) (ex_mutex True False) 100 ''bet'' ''a'' (\<lambda>_. None)
      = ([''crash:mutex:bet'' \<mapsto> (''a'', 30100)], True)"
    by (simp add: shared_try_def tryAcquire_def map_set_def Let_def lockKey_def ex_mutex_def)
  have o: "list_all (\<lambda>p. lop_time p < 100 + mx_lockTimeoutMs (ex_mutex True False) \<and>
      (\<forall>t. p \<noteq> Unlock t ''bet'' ''a'')) [Unlock 160 ''bet'' ''b'']"
    by (simp add: ex_mutex_def)
  have m: "mx_redis (ex_mutex True False)" "\<not> mx_allowInMemoryFallback (ex_mutex True False)"
    "200 < 100 + mx_lockTimeoutMs (ex_mutex True False)" by (simp_all add: ex_mutex_def)
  show ?thesis
    using processes_exclude_over_redis [OF map_redis_laws m(1,2) g o m(3), of "''b''"] by simp
qed

text \<open>
  With the in-memory fallback (the default outside production) a Redis that fails to answer
  breaks the exclusion: process A is granted a resource by Redis and keeps it, and process B,
  whose call fails at time 150, is granted the same resource by its own memory.
\<close>

theorem fallback_breaks_exclusion:
  "let rset = map_set (\<lambda>t. t = 150); m = ex_mutex True True;
       (st1, h1) = tryAcquire rset 100 ''bet'' ''a'' (m, \<lambda>_. None);
       (st2, h2) = tryAcquire rset 150 ''bet'' ''b'' (m, snd st1)
   in h1 \<noteq> None \<and> h2 \<noteq> None \<and> snd st2 ''crash:mutex:bet'' = Some (''a'', 30100)"
  by (simp add: tryAcquire_def tryAcquireLocal_def map_set_def Let_def lockKey_def ex_mutex_def)

text \<open>\<open>acquire\<close> fails closed: in production, without Redis, nothing is ever granted.\<close>

lemma acquire_loop_fails_closed:
  assumes "\<And>st. P st \<Longrightarrow> \<not> mx_redis (fst st) \<and> \<not> mx_allowInMemoryFallback (fst st)"
    and "\<And>i st. P st \<Longrightarrow> P (others i st)"
    and "\<And>m r n. P (m, r) \<Longrightarrow> P (m\<lparr>mx_contentions := n\<rparr>, r)"
    and "P st"
  shows "snd (acquire_loop rset clock later others start resource token attempt left st) = None"
  using assms(4)
proof (induction left arbitrary: attempt st)
  case 0
  then show ?case by simp
next
  case (Suc left)
  obtain m r where st: "st = (m, r)" by (cases st)
  have "tryAcquire rset (clock attempt) resource token st = (st, None)"
    using assms(1) [OF Suc.prems] st by (simp add: tryAcquire_def Let_def)
  moreover have "P (m\<lparr>mx_contentions := mx_contentions m + 1\<rparr>, r)"
    using assms(3) Suc.prems st by blast
  ultimately show ?case
    using Suc.IH assms(2) st by (simp add: Let_def)
qed

end
