(* ===== verification/DailyEntries.thy ===== *)
theory DailyEntries
  imports JsNumber CircuitBreaker
begin

text \<open>
  The daily entry ledgers of \<open>src/src/ledger/daily-entries.ts\<close>: the PostgreSQL ledger, whose
  transaction bodies act on the two tables, its in-memory replacement, and the standalone
  counter. Serializable transactions are, as PostgreSQL documents them, bodies run one after the
  other, each committed whole or not at all. The locale is the contract both ledgers keep.
\<close>

section \<open>Data\<close>

datatype slot_status = St_RESERVED | St_CONFIRMED | St_RELEASED | St_FAILED

record 'i daily_entry =
  de_id :: 'i
  de_dailyKey :: string
  de_betId :: string
  de_slotNumber :: int
  de_status :: slot_status
  de_sessionId :: string
  de_reservedAt :: int
  de_confirmedAt :: "int option"
  de_releasedAt :: "int option"
  de_reason :: "string option"

record daily_stats =
  ds_dailyKey :: string
  ds_entriesConfirmed :: int
  ds_entriesAttempted :: int
  ds_entriesFailed :: int
  ds_entriesReserved :: int
  ds_wins :: int
  ds_losses :: int
  ds_grossProfit :: jsnum
  ds_grossLoss :: jsnum
  ds_netPnl :: jsnum
  ds_balanceStart :: "jsnum option"
  ds_balanceEnd :: "jsnum option"
  ds_maxDrawdown :: jsnum
  ds_currentDrawdown :: jsnum
  ds_hitRate :: "jsnum option"
  ds_averageLatencyMs :: "jsnum option"
  ds_cashOutSuccessRate :: "jsnum option"
  ds_updatedAt :: int
  ds_createdAt :: int

datatype ledger_message = Msg_limit_reached int int | Msg_slot_reserved int

record 'i reservation =
  rv_success :: bool
  rv_slot :: "'i daily_entry option"
  rv_dailyKey :: string
  rv_confirmedCount :: int
  rv_reservedCount :: int
  rv_message :: ledger_message

text \<open>A fresh row: the columns' defaults in the table, the object literal in memory.\<close>

definition fresh_stats :: "int \<Rightarrow> string \<Rightarrow> daily_stats" where
  "fresh_stats now key =
     \<lparr>ds_dailyKey = key, ds_entriesConfirmed = 0, ds_entriesAttempted = 0, ds_entriesFailed = 0,
      ds_entriesReserved = 0, ds_wins = 0, ds_losses = 0, ds_grossProfit = Fin 0,
      ds_grossLoss = Fin 0, ds_netPnl = Fin 0, ds_balanceStart = None, ds_balanceEnd = None,
      ds_maxDrawdown = Fin 0, ds_currentDrawdown = Fin 0, ds_hitRate = None,
      ds_averageLatencyMs = None, ds_cashOutSuccessRate = None, ds_updatedAt = now, ds_createdAt = now\<rparr>"

section \<open>The PostgreSQL ledger\<close>

text \<open>The tables; identifiers come from a sequence.\<close>

record ledger_db =
  db_entries :: "nat daily_entry list"
  db_stats :: "string \<rightharpoonup> daily_stats"
  db_seq :: nat

datatype ledger_error = Entry_not_found | Cannot_confirm slot_status | Serialization_failure

definition lockDailyStats :: "int \<Rightarrow> string \<Rightarrow> ledger_db \<Rightarrow> (int \<times> int) \<times> ledger_db" where
  "lockDailyStats now key db =
     (let db' = (case db_stats db key of
                   None \<Rightarrow> db\<lparr>db_stats := (db_stats db)(key \<mapsto> fresh_stats now key)\<rparr>
                 | Some _ \<Rightarrow> db)
      in (case db_stats db' key of
            None \<Rightarrow> (0, 0)
          | Some s \<Rightarrow> (ds_entriesConfirmed s, ds_entriesReserved s), db'))"

text \<open>\<open>UPDATE daily_stats ... WHERE daily_key = $1\<close>.\<close>

definition sql_update_stats :: "string \<Rightarrow> (daily_stats \<Rightarrow> daily_stats) \<Rightarrow> ledger_db \<Rightarrow> ledger_db" where
  "sql_update_stats key f db = db\<lparr>db_stats := (db_stats db)(key := map_option f (db_stats db key))\<rparr>"

definition sql_reserve ::
  "int \<Rightarrow> int \<Rightarrow> string \<Rightarrow> string \<Rightarrow> string \<Rightarrow> ledger_db \<Rightarrow> ledger_error + nat reservation \<times> ledger_db" where
  "sql_reserve maxEntries now key bet sess db =
     (let ((confirmed, reserved), db1) = lockDailyStats now key db;
          activeCount = confirmed + reserved
      in if activeCount \<ge> maxEntries then
           Inr (\<lparr>rv_success = False, rv_slot = None, rv_dailyKey = key, rv_confirmedCount = confirmed,
                 rv_reservedCount = reserved, rv_message = Msg_limit_reached activeCount maxEntries\<rparr>, db1)
         else
           let slotNumber = activeCount + 1;
               slot = \<lparr>de_id = db_seq db1, de_dailyKey = key, de_betId = bet, de_slotNumber = slotNumber,
                       de_status = St_RESERVED, de_sessionId = sess, de_reservedAt = now,
                       de_confirmedAt = None, de_releasedAt = None, de_reason = None\<rparr>;
               db2 = db1\<lparr>db_entries := db_entries db1 @ [slot], db_seq := Suc (db_seq db1)\<rparr>;
               db3 = sql_update_stats key (\<lambda>s. s\<lparr>ds_entriesReserved := ds_entriesReserved s + 1,
                       ds_entriesAttempted := ds_entriesAttempted s + 1, ds_updatedAt := now\<rparr>) db2
           in Inr (\<lparr>rv_success = True, rv_slot = Some slot, rv_dailyKey = key, rv_confirmedCount = confirmed,
                    rv_reservedCount = reserved + 1, rv_message = Msg_slot_reserved slotNumber\<rparr>, db3))"

text \<open>
  The row that \<open>SELECT ... WHERE daily_key = $1 AND bet_id = $2\<close> yields first, and the update of a
  row by its identifier.
\<close>

definition is_entry :: "string \<Rightarrow> string \<Rightarrow> 'i daily_entry \<Rightarrow> bool" where
  "is_entry key bet e \<longleftrightarrow> de_dailyKey e = key \<and> de_betId e = bet"

definition sql_update_entry :: "nat \<Rightarrow> (nat daily_entry \<Rightarrow> nat daily_entry) \<Rightarrow> ledger_db \<Rightarrow> ledger_db" where
  "sql_update_entry i f db = db\<lparr>db_entries := map (\<lambda>e. if de_id e = i then f e else e) (db_entries db)\<rparr>"

definition sql_confirm :: "int \<Rightarrow> string \<Rightarrow> string \<Rightarrow> ledger_db \<Rightarrow> ledger_error + unit \<times> ledger_db" where
  "sql_confirm now key bet db =
     (case find (is_entry key bet) (db_entries db) of
        None \<Rightarrow> Inl Entry_not_found
      | Some e \<Rightarrow>
          if de_status e = St_CONFIRMED then Inr ((), db)
          else if de_status e \<noteq> St_RESERVED then Inl (Cannot_confirm (de_status e))
          else Inr ((), sql_update_stats key
                 (\<lambda>s. s\<lparr>ds_entriesConfirmed := ds_entriesConfirmed s + 1,
                        ds_entriesReserved := max (ds_entriesReserved s - 1) 0, ds_updatedAt := now\<rparr>)
                 (sql_update_entry (de_id e)
                    (\<lambda>e. e\<lparr>de_status := St_CONFIRMED, de_confirmedAt := Some now\<rparr>) db)))"

definition sql_release ::
  "int \<Rightarrow> string \<Rightarrow> string \<Rightarrow> string \<Rightarrow> ledger_db \<Rightarrow> ledger_error + unit \<times> ledger_db" where
  "sql_release now key bet why db =
     (case find (is_entry key bet) (db_entries db) of
        None \<Rightarrow> Inr ((), db)
      | Some e \<Rightarrow>
          if de_status e = St_RELEASED \<or> de_status e = St_FAILED then Inr ((), db)
          else
            let db1 = sql_update_entry (de_id e)
                  (\<lambda>e. e\<lparr>de_status := St_RELEASED, de_releasedAt := Some now, de_reason := Some why\<rparr>) db;
                wasConfirmed = (de_status e = St_CONFIRMED)
            in Inr ((), sql_update_stats key
                 (\<lambda>s. if wasConfirmed then
                        s\<lparr>ds_entriesReserved := max (ds_entriesReserved s - 1) 0,
                          ds_entriesFailed := ds_entriesFailed s + 1,
                          ds_entriesConfirmed := max (ds_entriesConfirmed s - 1) 0, ds_updatedAt := now\<rparr>
                      else
                        s\<lparr>ds_entriesReserved := max (ds_entriesReserved s - 1) 0,
                          ds_entriesFailed := ds_entriesFailed s + 1, ds_updatedAt := now\<rparr>) db1))"

definition sql_getConfirmedCount :: "string \<Rightarrow> ledger_db \<Rightarrow> int" where
  "sql_getConfirmedCount key db =
     (case db_stats db key of None \<Rightarrow> 0 | Some s \<Rightarrow> ds_entriesConfirmed s)"

definition sql_getReservedCount :: "string \<Rightarrow> ledger_db \<Rightarrow> int" where
  "sql_getReservedCount key db =
     (case db_stats db key of None \<Rightarrow> 0 | Some s \<Rightarrow> ds_entriesReserved s)"

definition sql_getDailyStats :: "string \<Rightarrow> ledger_db \<Rightarrow> daily_stats option" where
  "sql_getDailyStats key db = db_stats db key"

definition sql_getRemainingEntries :: "int \<Rightarrow> string \<Rightarrow> ledger_db \<Rightarrow> int" where
  "sql_getRemainingEntries maxEntries key db =
     (case sql_getDailyStats key db of
        None \<Rightarrow> maxEntries
      | Some s \<Rightarrow> max 0 (maxEntries - (ds_entriesConfirmed s + ds_entriesReserved s)))"

definition sql_isLimitReached :: "int \<Rightarrow> string \<Rightarrow> ledger_db \<Rightarrow> bool" where
  "sql_isLimitReached maxEntries key db \<longleftrightarrow> sql_getRemainingEntries maxEntries key db \<le> 0"

definition sql_getEntriesForDay :: "string \<Rightarrow> ledger_db \<Rightarrow> nat daily_entry list" where
  "sql_getEntriesForDay key db =
     sort_key de_slotNumber (filter (\<lambda>e. de_dailyKey e = key) (db_entries db))"

definition sql_ensureDailyStats :: "int \<Rightarrow> string \<Rightarrow> ledger_db \<Rightarrow> ledger_db" where
  "sql_ensureDailyStats now key db = snd (lockDailyStats now key db)"

text \<open>
  \<open>withSerializableTransaction\<close>: \<open>clash i\<close> says that PostgreSQL aborts attempt \<open>i\<close> with code
  40001, and \<open>others i\<close> is what other transactions commit between attempt \<open>i\<close> and the next. An
  aborted or failed attempt is rolled back.
\<close>

fun tx_loop ::
  "('d \<Rightarrow> ledger_error + 'r \<times> 'd) \<Rightarrow> (nat \<Rightarrow> bool) \<Rightarrow> (nat \<Rightarrow> 'd \<Rightarrow> 'd) \<Rightarrow> nat \<Rightarrow> nat \<Rightarrow> 'd \<Rightarrow>
     (ledger_error + 'r) \<times> 'd" where
  "tx_loop body clash others attempt 0 db = (Inl Serialization_failure, db)"
| "tx_loop body clash others attempt (Suc left) db =
     (case (if clash attempt then Inl Serialization_failure else body db) of
        Inr (r, db') \<Rightarrow> (Inr r, db')
      | Inl e \<Rightarrow>
          if e = Serialization_failure \<and> left > 0
          then tx_loop body clash others (Suc attempt) left (others attempt db)
          else (Inl e, db))"

definition withSerializableTransaction ::
  "('d \<Rightarrow> ledger_error + 'r \<times> 'd) \<Rightarrow> (nat \<Rightarrow> bool) \<Rightarrow> (nat \<Rightarrow> 'd \<Rightarrow> 'd) \<Rightarrow> 'd \<Rightarrow> (ledger_error + 'r) \<times> 'd" where
  "withSerializableTransaction body clash others db = tx_loop body clash others 1 3 db"

section \<open>The in-memory ledger\<close>

record mem_ledger =
  ml_maxEntries :: int
  ml_entries :: "string \<rightharpoonup> string daily_entry list"
  ml_stats :: "string \<rightharpoonup> daily_stats"

definition mem_new :: "int \<Rightarrow> mem_ledger" where
  "mem_new maxEntries = \<lparr>ml_maxEntries = maxEntries, ml_entries = (\<lambda>_. None), ml_stats = (\<lambda>_. None)\<rparr>"

definition getOrCreateStats :: "int \<Rightarrow> string \<Rightarrow> mem_ledger \<Rightarrow> daily_stats \<times> mem_ledger" where
  "getOrCreateStats now key l =
     (case ml_stats l key of
        Some s \<Rightarrow> (s, l)
      | None \<Rightarrow> (fresh_stats now key, l\<lparr>ml_stats := (ml_stats l)(key \<mapsto> fresh_stats now key)\<rparr>))"

definition mem_reserve ::
  "int \<Rightarrow> string \<Rightarrow> string \<Rightarrow> string \<Rightarrow> mem_ledger \<Rightarrow> string reservation \<times> mem_ledger" where
  "mem_reserve now key bet sess l =
     (let (stats0, l1) = getOrCreateStats now key l;
          stats = stats0\<lparr>ds_entriesAttempted := ds_entriesAttempted stats0 + 1\<rparr>;
          activeCount = ds_entriesConfirmed stats + ds_entriesReserved stats
      in if activeCount \<ge> ml_maxEntries l1 then
           (\<lparr>rv_success = False, rv_slot = None, rv_dailyKey = key,
             rv_confirmedCount = ds_entriesConfirmed stats, rv_reservedCount = ds_entriesReserved stats,
             rv_message = Msg_limit_reached activeCount (ml_maxEntries l1)\<rparr>,
            l1\<lparr>ml_stats := (ml_stats l1)(key \<mapsto> stats)\<rparr>)
         else
           let slotNumber = activeCount + 1;
               slot = \<lparr>de_id = key @ ''-'' @ int_str slotNumber, de_dailyKey = key, de_betId = bet,
                       de_slotNumber = slotNumber, de_status = St_RESERVED, de_sessionId = sess,
                       de_reservedAt = now, de_confirmedAt = None, de_releasedAt = None, de_reason = None\<rparr>;
               dayEntries = or_else (ml_entries l1 key) [] @ [slot];
               stats' = stats\<lparr>ds_entriesReserved := ds_entriesReserved stats + 1\<rparr>
           in (\<lparr>rv_success = True, rv_slot = Some slot, rv_dailyKey = key,
                rv_confirmedCount = ds_entriesConfirmed stats', rv_reservedCount = ds_entriesReserved stats',
                rv_message = Msg_slot_reserved slotNumber\<rparr>,
               l1\<lparr>ml_entries := (ml_entries l1)(key \<mapsto> dayEntries),
                  ml_stats := (ml_stats l1)(key \<mapsto> stats')\<rparr>))"

text \<open>\<open>find\<close> returns the first entry of the bet, and the mutation goes through that reference.\<close>

definition mem_confirm :: "int \<Rightarrow> string \<Rightarrow> string \<Rightarrow> mem_ledger \<Rightarrow> mem_ledger" where
  "mem_confirm now key bet l =
     (let dayEntries = or_else (ml_entries l key) []
      in case find (\<lambda>e. de_betId e = bet) dayEntries of
           None \<Rightarrow> l
         | Some e \<Rightarrow>
             if de_status e = St_CONFIRMED then l
             else
               let l1 = l\<lparr>ml_entries := (ml_entries l)(key \<mapsto>
                          update_first (\<lambda>e. de_betId e = bet)
                            (\<lambda>e. e\<lparr>de_status := St_CONFIRMED, de_confirmedAt := Some now\<rparr>) dayEntries)\<rparr>;
                   (stats, l2) = getOrCreateStats now key l1
               in l2\<lparr>ml_stats := (ml_stats l2)(key \<mapsto>
                      stats\<lparr>ds_entriesConfirmed := ds_entriesConfirmed stats + 1,
                            ds_entriesReserved := max 0 (ds_entriesReserved stats - 1)\<rparr>)\<rparr>)"

definition mem_release :: "int \<Rightarrow> string \<Rightarrow> string \<Rightarrow> mem_ledger \<Rightarrow> mem_ledger" where
  "mem_release now key bet l =
     (let dayEntries = or_else (ml_entries l key) []
      in case find (\<lambda>e. de_betId e = bet) dayEntries of
           None \<Rightarrow> l
         | Some e \<Rightarrow>
             if de_status e = St_RELEASED \<or> de_status e = St_FAILED then l
             else
               let wasConfirmed = (de_status e = St_CONFIRMED);
                   l1 = l\<lparr>ml_entries := (ml_entries l)(key \<mapsto>
                          update_first (\<lambda>e. de_betId e = bet)
                            (\<lambda>e. e\<lparr>de_status := St_RELEASED, de_releasedAt := Some now\<rparr>) dayEntries)\<rparr>;
                   (stats, l2) = getOrCreateStats now key l1;
                   stats1 = stats\<lparr>ds_entriesReserved := max 0 (ds_entriesReserved stats - 1),
                                  ds_entriesFailed := ds_entriesFailed stats + 1\<rparr>;
                   stats2 = (if wasConfirmed
                             then stats1\<lparr>ds_entriesConfirmed := max 0 (ds_entriesConfirmed stats1 - 1)\<rparr>
                             else stats1)
               in l2\<lparr>ml_stats := (ml_stats l2)(key \<mapsto> stats2)\<rparr>)"

definition mem_getConfirmedCount :: "int \<Rightarrow> string \<Rightarrow> mem_ledger \<Rightarrow> int \<times> mem_ledger" where
  "mem_getConfirmedCount now key l =
     (case getOrCreateStats now key l of (s, l') \<Rightarrow> (ds_entriesConfirmed s, l'))"

definition mem_getReservedCount :: "int \<Rightarrow> string \<Rightarrow> mem_ledger \<Rightarrow> int \<times> mem_ledger" where
  "mem_getReservedCount now key l =
     (case getOrCreateStats now key l of (s, l') \<Rightarrow> (ds_entriesReserved s, l'))"

definition mem_getDailyStats :: "int \<Rightarrow> string \<Rightarrow> mem_ledger \<Rightarrow> daily_stats \<times> mem_ledger" where
  "mem_getDailyStats now key l = getOrCreateStats now key l"

definition mem_getRemainingEntries :: "int \<Rightarrow> string \<Rightarrow> mem_ledger \<Rightarrow> int \<times> mem_ledger" where
  "mem_getRemainingEntries now key l =
     (case getOrCreateStats now key l of
        (s, l') \<Rightarrow> (max 0 (ml_maxEntries l - (ds_entriesConfirmed s + ds_entriesReserved s)), l'))"

definition mem_isLimitReached :: "int \<Rightarrow> string \<Rightarrow> mem_ledger \<Rightarrow> bool \<times> mem_ledger" where
  "mem_isLimitReached now key l =
     (case mem_getRemainingEntries now key l of (n, l') \<Rightarrow> (n \<le> 0, l'))"

definition mem_getEntriesForDay :: "string \<Rightarrow> mem_ledger \<Rightarrow> string daily_entry list" where
  "mem_getEntriesForDay key l = or_else (ml_entries l key) []"

definition mem_clear :: "mem_ledger \<Rightarrow> mem_ledger" where
  "mem_clear l = l\<lparr>ml_entries := (\<lambda>_. None), ml_stats := (\<lambda>_. None)\<rparr>"

section \<open>The standalone counter\<close>

text \<open>\<open>today\<close> is \<open>computeDailyKey()\<close> at the time of the call.\<close>

record daily_counter =
  dc_count :: int
  dc_dailyKey :: string

definition dc_new :: "string \<Rightarrow> daily_counter" where
  "dc_new today = \<lparr>dc_count = 0, dc_dailyKey = today\<rparr>"

definition dc_getCount :: "string \<Rightarrow> daily_counter \<Rightarrow> int \<times> daily_counter" where
  "dc_getCount today c =
     (let c' = (if today \<noteq> dc_dailyKey c then \<lparr>dc_count = 0, dc_dailyKey = today\<rparr> else c)
      in (dc_count c', c'))"

definition dc_increment :: "string \<Rightarrow> daily_counter \<Rightarrow> daily_counter" where
  "dc_increment today c = (let c' = snd (dc_getCount today c) in c'\<lparr>dc_count := dc_count c' + 1\<rparr>)"

definition dc_reset :: "string \<Rightarrow> daily_counter \<Rightarrow> daily_counter" where
  "dc_reset today c = \<lparr>dc_count = 0, dc_dailyKey = today\<rparr>"

section \<open>The contract of a slot ledger\<close>

text \<open>
  A client sees, for each day, the list of its slots (bet and status, oldest first) and the pair of
  counters. \<open>lax\<close> says that \<open>confirm\<close> does not look at a released slot's status.
\<close>

type_synonym slots = "(string \<times> slot_status) list"

definition find_slot :: "string \<Rightarrow> slots \<Rightarrow> slot_status option" where
  "find_slot bet xs = map_option snd (find (\<lambda>p. fst p = bet) xs)"

definition set_slot :: "string \<Rightarrow> slot_status \<Rightarrow> slots \<Rightarrow> slots" where
  "set_slot bet st xs = update_first (\<lambda>p. fst p = bet) (\<lambda>p. (fst p, st)) xs"

definition count_slots :: "slot_status \<Rightarrow> slots \<Rightarrow> int" where
  "count_slots st xs = int (length (filter (\<lambda>p. snd p = st) xs))"

lemma count_slots_nonneg [simp]: "0 \<le> count_slots st xs"
  by (simp add: count_slots_def)

lemma count_slots_snoc [simp]:
  "count_slots st (xs @ [(b, st')]) = count_slots st xs + (if st' = st then 1 else 0)"
  by (simp add: count_slots_def)

lemma count_set_slot:
  assumes "find_slot b xs = Some old"
  shows "count_slots st (set_slot b new xs) =
           count_slots st xs - (if old = st then 1 else 0) + (if new = st then 1 else 0)"
proof -
  from assms obtain p where "find (\<lambda>p. fst p = b) xs = Some p" "snd p = old"
    by (auto simp: find_slot_def)
  with update_first_split [of "\<lambda>p. fst p = b" xs p "\<lambda>p. (fst p, new)"] show ?thesis
    by (auto simp: set_slot_def count_slots_def)
qed

lemma count_found: "find_slot b xs = Some st \<Longrightarrow> 1 \<le> count_slots st xs"
  using count_set_slot [of b xs st st St_FAILED] count_set_slot [of b xs st st St_RESERVED]
    count_slots_nonneg [of st "set_slot b St_FAILED xs"] count_slots_nonneg [of st "set_slot b St_RESERVED xs"]
  by (auto split: if_splits)

datatype slot_op =
    Op_reserve int string string string
  | Op_confirm int string string
  | Op_release int string string string

text \<open>
  Proper use: no confirmed slot is released, and, where \<open>confirm\<close> does not check it, no
  released slot is confirmed.
\<close>

fun proper_op :: "bool \<Rightarrow> (string \<Rightarrow> 's \<Rightarrow> slots) \<Rightarrow> 's \<Rightarrow> slot_op \<Rightarrow> bool" where
  "proper_op lax slots s (Op_reserve now key bet sess) = True"
| "proper_op lax slots s (Op_confirm now key bet) =
     (lax \<longrightarrow> find_slot bet (slots key s) \<notin> {Some St_RELEASED, Some St_FAILED})"
| "proper_op lax slots s (Op_release now key bet why) = (find_slot bet (slots key s) \<noteq> Some St_CONFIRMED)"

fun proper_run ::
  "bool \<Rightarrow> (string \<Rightarrow> 's \<Rightarrow> slots) \<Rightarrow> ('s \<Rightarrow> slot_op \<Rightarrow> 's) \<Rightarrow> 's \<Rightarrow> slot_op list \<Rightarrow> bool" where
  "proper_run lax slots step s [] = True"
| "proper_run lax slots step s (p # ps) =
     (proper_op lax slots s p \<and> proper_run lax slots step (step s p) ps)"

fun ledger_step ::
  "(int \<Rightarrow> string \<Rightarrow> string \<Rightarrow> string \<Rightarrow> 's \<Rightarrow> 's) \<Rightarrow> (int \<Rightarrow> string \<Rightarrow> string \<Rightarrow> 's \<Rightarrow> 's) \<Rightarrow>
     (int \<Rightarrow> string \<Rightarrow> string \<Rightarrow> string \<Rightarrow> 's \<Rightarrow> 's) \<Rightarrow> 's \<Rightarrow> slot_op \<Rightarrow> 's" where
  "ledger_step reserve confirm release s (Op_reserve now key bet sess) = reserve now key bet sess s"
| "ledger_step reserve confirm release s (Op_confirm now key bet) = confirm now key bet s"
| "ledger_step reserve confirm release s (Op_release now key bet why) = release now key bet why s"

text \<open>The counters are the numbers of slots, and the limit holds.\<close>

definition balanced :: "int \<Rightarrow> slots \<Rightarrow> int \<times> int \<Rightarrow> bool" where
  "balanced limit xs cr \<longleftrightarrow>
     cr = (count_slots St_CONFIRMED xs, count_slots St_RESERVED xs) \<and>
     count_slots St_CONFIRMED xs + count_slots St_RESERVED xs \<le> max 0 limit"

lemma balanced_reserve:
  assumes "balanced limit xs (c, r)" and "c + r < limit"
  shows "balanced limit (xs @ [(b, St_RESERVED)]) (c, r + 1)"
  using assms by (auto simp: balanced_def)

lemma balanced_confirm:
  assumes "balanced limit xs (c, r)" and "find_slot b xs = Some St_RESERVED"
  shows "balanced limit (set_slot b St_CONFIRMED xs) (c + 1, max 0 (r - 1))"
  using assms count_found [OF assms(2)] by (auto simp: balanced_def count_set_slot)

lemma balanced_release:
  assumes "balanced limit xs (c, r)" and "find_slot b xs = Some St_RESERVED"
  shows "balanced limit (set_slot b St_RELEASED xs) (c, max 0 (r - 1))"
  using assms count_found [OF assms(2)] by (auto simp: balanced_def count_set_slot)

locale slot_ledger =
  fixes reserve :: "int \<Rightarrow> string \<Rightarrow> string \<Rightarrow> string \<Rightarrow> 's \<Rightarrow> 's"
    and confirm :: "int \<Rightarrow> string \<Rightarrow> string \<Rightarrow> 's \<Rightarrow> 's"
    and release :: "int \<Rightarrow> string \<Rightarrow> string \<Rightarrow> string \<Rightarrow> 's \<Rightarrow> 's"
    and slots :: "string \<Rightarrow> 's \<Rightarrow> slots"
    and counts :: "string \<Rightarrow> 's \<Rightarrow> int \<times> int"
    and ok :: "'s \<Rightarrow> bool"
    and lax :: bool
    and limit :: int
  assumes ok_step: "ok s \<Longrightarrow> ok (ledger_step reserve confirm release s p)"
    and reserve_grants: "ok s \<Longrightarrow> counts key s = (c, r) \<Longrightarrow> c + r < limit \<Longrightarrow>
      slots key (reserve now key bet sess s) = slots key s @ [(bet, St_RESERVED)] \<and>
      counts key (reserve now key bet sess s) = (c, r + 1)"
    and reserve_refuses: "ok s \<Longrightarrow> counts key s = (c, r) \<Longrightarrow> limit \<le> c + r \<Longrightarrow>
      slots key (reserve now key bet sess s) = slots key s \<and> counts key (reserve now key bet sess s) = (c, r)"
    and confirm_reserved: "ok s \<Longrightarrow> counts key s = (c, r) \<Longrightarrow> find_slot bet (slots key s) = Some St_RESERVED \<Longrightarrow>
      slots key (confirm now key bet s) = set_slot bet St_CONFIRMED (slots key s) \<and>
      counts key (confirm now key bet s) = (c + 1, max 0 (r - 1))"
    and confirm_nothing: "ok s \<Longrightarrow> find_slot bet (slots key s) \<noteq> Some St_RESERVED \<Longrightarrow>
      lax \<longrightarrow> find_slot bet (slots key s) \<notin> {Some St_RELEASED, Some St_FAILED} \<Longrightarrow>
      slots key (confirm now key bet s) = slots key s \<and> counts key (confirm now key bet s) = counts key s"
    and release_reserved: "ok s \<Longrightarrow> counts key s = (c, r) \<Longrightarrow> find_slot bet (slots key s) = Some St_RESERVED \<Longrightarrow>
      slots key (release now key bet why s) = set_slot bet St_RELEASED (slots key s) \<and>
      counts key (release now key bet why s) = (c, max 0 (r - 1))"
    and release_nothing: "ok s \<Longrightarrow> find_slot bet (slots key s) \<notin> {Some St_RESERVED, Some St_CONFIRMED} \<Longrightarrow>
      slots key (release now key bet why s) = slots key s \<and> counts key (release now key bet why s) = counts key s"
    and other_days: "ok s \<Longrightarrow> key' \<noteq> key \<Longrightarrow>
      slots key' (reserve now key bet sess s) = slots key' s \<and> counts key' (reserve now key bet sess s) = counts key' s \<and>
      slots key' (confirm now key bet s) = slots key' s \<and> counts key' (confirm now key bet s) = counts key' s \<and>
      slots key' (release now key bet why s) = slots key' s \<and> counts key' (release now key bet why s) = counts key' s"
begin

lemma balanced_step:
  assumes "ok s" and bal: "balanced limit (slots key s) (counts key s)" and "proper_op lax slots s p"
  shows "balanced limit (slots key (ledger_step reserve confirm release s p))
           (counts key (ledger_step reserve confirm release s p))"
proof -
  obtain c r where cr: "counts key s = (c, r)" by (cases "counts key s")
  show ?thesis
  proof (cases p)
    case (Op_reserve now day bet sess)
    show ?thesis
    proof (cases "day = key")
      case True
      then show ?thesis
        using Op_reserve bal cr reserve_grants [OF assms(1) cr] reserve_refuses [OF assms(1) cr]
        by (cases "c + r < limit") (auto simp: balanced_reserve)
    qed (use Op_reserve bal other_days [OF assms(1)] in auto)
  next
    case (Op_confirm now day bet)
    show ?thesis
    proof (cases "day = key")
      case True
      then show ?thesis
        using Op_confirm assms bal cr confirm_reserved [OF assms(1) cr, of bet now]
          confirm_nothing [OF assms(1), of bet key now]
        by (cases "find_slot bet (slots key s) = Some St_RESERVED") (auto simp: balanced_confirm)
    qed (use Op_confirm bal other_days [OF assms(1)] in auto)
  next
    case (Op_release now day bet why)
    show ?thesis
    proof (cases "day = key")
      case True
      then show ?thesis
        using Op_release assms bal cr release_reserved [OF assms(1) cr, of bet now why]
          release_nothing [OF assms(1), of bet key now why]
        by (cases "find_slot bet (slots key s) = Some St_RESERVED") (auto simp: balanced_release)
    qed (use Op_release bal other_days [OF assms(1)] in auto)
  qed
qed

lemma balanced_run:
  assumes "ok s" and "balanced limit (slots key s) (counts key s)"
    and "proper_run lax slots (ledger_step reserve confirm release) s ps"
  shows "balanced limit (slots key (foldl (ledger_step reserve confirm release) s ps))
           (counts key (foldl (ledger_step reserve confirm release) s ps))"
  using assms
proof (induction ps arbitrary: s)
  case (Cons p ps)
  then show ?case using ok_step balanced_step by simp
qed simp

end

section \<open>The in-memory ledger keeps the contract\<close>

definition slot_of :: "'i daily_entry \<Rightarrow> string \<times> slot_status" where
  "slot_of e = (de_betId e, de_status e)"

lemma find_slot_map:
  "find_slot b (map slot_of es) = map_option de_status (find (\<lambda>e. de_betId e = b) es)"
  by (induction es) (auto simp: find_slot_def slot_of_def)

lemma set_slot_map:
  assumes "\<And>e. slot_of (f e) = (de_betId e, st)"
  shows "set_slot b st (map slot_of es) = map slot_of (update_first (\<lambda>e. de_betId e = b) f es)"
  using assms by (induction es) (auto simp: set_slot_def slot_of_def)

definition mem_slots :: "string \<Rightarrow> mem_ledger \<Rightarrow> slots" where
  "mem_slots key l = map slot_of (or_else (ml_entries l key) [])"

definition mem_counts :: "string \<Rightarrow> mem_ledger \<Rightarrow> int \<times> int" where
  "mem_counts key l =
     (case ml_stats l key of None \<Rightarrow> (0, 0) | Some s \<Rightarrow> (ds_entriesConfirmed s, ds_entriesReserved s))"

definition mem_op_reserve :: "int \<Rightarrow> string \<Rightarrow> string \<Rightarrow> string \<Rightarrow> mem_ledger \<Rightarrow> mem_ledger" where
  "mem_op_reserve now key bet sess l = snd (mem_reserve now key bet sess l)"

definition mem_op_release :: "int \<Rightarrow> string \<Rightarrow> string \<Rightarrow> string \<Rightarrow> mem_ledger \<Rightarrow> mem_ledger" where
  "mem_op_release now key bet why l = mem_release now key bet l"

abbreviation mem_step :: "mem_ledger \<Rightarrow> slot_op \<Rightarrow> mem_ledger" where
  "mem_step \<equiv> ledger_step mem_op_reserve mem_confirm mem_op_release"

lemmas mem_defs = mem_op_reserve_def mem_op_release_def mem_reserve_def mem_confirm_def mem_release_def
  mem_slots_def mem_counts_def getOrCreateStats_def fresh_stats_def Let_def find_slot_map

lemma mem_limit_step [simp]: "ml_maxEntries (mem_step l p) = ml_maxEntries l"
  by (cases p) (auto simp: mem_defs split: option.splits)

lemma mem_reserve_laws:
  "mem_counts key l = (c, r) \<Longrightarrow> c + r < ml_maxEntries l \<Longrightarrow>
     mem_slots key (mem_op_reserve now key bet sess l) = mem_slots key l @ [(bet, St_RESERVED)] \<and>
     mem_counts key (mem_op_reserve now key bet sess l) = (c, r + 1)"
  "mem_counts key l = (c, r) \<Longrightarrow> ml_maxEntries l \<le> c + r \<Longrightarrow>
     mem_slots key (mem_op_reserve now key bet sess l) = mem_slots key l \<and>
     mem_counts key (mem_op_reserve now key bet sess l) = (c, r)"
  by (auto simp: mem_defs slot_of_def split: option.splits)

lemma mem_confirm_laws:
  "mem_counts key l = (c, r) \<Longrightarrow> find_slot bet (mem_slots key l) = Some St_RESERVED \<Longrightarrow>
     mem_slots key (mem_confirm now key bet l) = set_slot bet St_CONFIRMED (mem_slots key l) \<and>
     mem_counts key (mem_confirm now key bet l) = (c + 1, max 0 (r - 1))"
  "find_slot bet (mem_slots key l) \<notin> {Some St_RESERVED, Some St_RELEASED, Some St_FAILED} \<Longrightarrow>
     mem_confirm now key bet l = l"
proof -
  assume "mem_counts key l = (c, r)" "find_slot bet (mem_slots key l) = Some St_RESERVED"
  then show "mem_slots key (mem_confirm now key bet l) = set_slot bet St_CONFIRMED (mem_slots key l) \<and>
     mem_counts key (mem_confirm now key bet l) = (c + 1, max 0 (r - 1))"
    by (auto simp: mem_defs split: option.splits intro!: set_slot_map [symmetric]) (simp_all add: slot_of_def)
next
  assume "find_slot bet (mem_slots key l) \<notin> {Some St_RESERVED, Some St_RELEASED, Some St_FAILED}"
  then show "mem_confirm now key bet l = l"
    by (auto simp: mem_confirm_def mem_slots_def find_slot_map Let_def split: option.splits)
      (metis slot_status.exhaust)
qed

lemma mem_release_laws:
  "mem_counts key l = (c, r) \<Longrightarrow> find_slot bet (mem_slots key l) = Some St_RESERVED \<Longrightarrow>
     mem_slots key (mem_op_release now key bet why l) = set_slot bet St_RELEASED (mem_slots key l) \<and>
     mem_counts key (mem_op_release now key bet why l) = (c, max 0 (r - 1))"
  "find_slot bet (mem_slots key l) \<notin> {Some St_RESERVED, Some St_CONFIRMED} \<Longrightarrow>
     mem_op_release now key bet why l = l"
proof -
  assume "mem_counts key l = (c, r)" "find_slot bet (mem_slots key l) = Some St_RESERVED"
  then show "mem_slots key (mem_op_release now key bet why l) = set_slot bet St_RELEASED (mem_slots key l) \<and>
     mem_counts key (mem_op_release now key bet why l) = (c, max 0 (r - 1))"
    by (auto simp: mem_defs split: option.splits intro!: set_slot_map [symmetric]) (simp_all add: slot_of_def)
next
  assume "find_slot bet (mem_slots key l) \<notin> {Some St_RESERVED, Some St_CONFIRMED}"
  then show "mem_op_release now key bet why l = l"
    by (auto simp: mem_op_release_def mem_release_def mem_slots_def find_slot_map Let_def split: option.splits)
      (metis slot_status.exhaust)
qed

lemma mem_other_days:
  "key' \<noteq> key \<Longrightarrow>
     mem_slots key' (mem_op_reserve now key bet sess l) = mem_slots key' l \<and>
     mem_counts key' (mem_op_reserve now key bet sess l) = mem_counts key' l \<and>
     mem_slots key' (mem_confirm now key bet l) = mem_slots key' l \<and>
     mem_counts key' (mem_confirm now key bet l) = mem_counts key' l \<and>
     mem_slots key' (mem_op_release now key bet why l) = mem_slots key' l \<and>
     mem_counts key' (mem_op_release now key bet why l) = mem_counts key' l"
  by (intro conjI) (auto simp: mem_defs split: option.splits)

interpretation mem: slot_ledger mem_op_reserve mem_confirm mem_op_release mem_slots mem_counts
  "\<lambda>l. ml_maxEntries l = n" True n
proof
  show "mem_slots key (mem_confirm now key bet l) = mem_slots key l \<and>
          mem_counts key (mem_confirm now key bet l) = mem_counts key l"
    if "find_slot bet (mem_slots key l) \<noteq> Some St_RESERVED"
      "True \<longrightarrow> find_slot bet (mem_slots key l) \<notin> {Some St_RELEASED, Some St_FAILED}" for bet key l now
    using that mem_confirm_laws(2) [of bet key l now] by simp
  show "mem_slots key (mem_op_release now key bet why l) = mem_slots key l \<and>
          mem_counts key (mem_op_release now key bet why l) = mem_counts key l"
    if "find_slot bet (mem_slots key l) \<notin> {Some St_RESERVED, Some St_CONFIRMED}" for bet key l now why
    using mem_release_laws(2) [OF that] by simp
qed (use mem_reserve_laws mem_confirm_laws(1) mem_release_laws(1) mem_other_days in auto)

section \<open>The PostgreSQL ledger keeps the contract\<close>

text \<open>What a committed transaction leaves behind; a failed one is rolled back.\<close>

definition committed :: "('d \<Rightarrow> ledger_error + 'r \<times> 'd) \<Rightarrow> 'd \<Rightarrow> 'd" where
  "committed body db = (case body db of Inl _ \<Rightarrow> db | Inr (_, db') \<Rightarrow> db')"

text \<open>
  A transaction has its effect exactly once or not at all, whichever attempts PostgreSQL aborts;
  all other changes are those of the other transactions.
\<close>

lemma tx_loop_once:
  "\<exists>db0. (case tx_loop body clash others attempt left db of
            (Inr r, db') \<Rightarrow> body db0 = Inr (r, db')
          | (Inl _, db') \<Rightarrow> db' = db0) \<and>
        (\<exists>n. db0 = foldl (\<lambda>d i. others i d) db [attempt..<attempt + n] \<and> n \<le> left)"
proof (induction left arbitrary: attempt db)
  case 0
  show ?case by (auto intro: exI [of _ "0::nat"])
next
  case (Suc left)
  show ?case
  proof (cases "if clash attempt then Inl Serialization_failure else body db")
    case (Inr a)
    then show ?thesis
      by (cases a) (auto intro!: exI [of _ db] exI [of _ "0::nat"] split: if_splits)
  next
    case (Inl e)
    show ?thesis
    proof (cases "e = Serialization_failure \<and> left > 0")
      case True
      from Suc [of "Suc attempt" "others attempt db"] obtain db0 n where
        "case tx_loop body clash others (Suc attempt) left (others attempt db) of
            (Inr r, db') \<Rightarrow> body db0 = Inr (r, db') | (Inl _, db') \<Rightarrow> db' = db0"
        "db0 = foldl (\<lambda>d i. others i d) (others attempt db) [Suc attempt..<Suc attempt + n]" "n \<le> left"
        by (elim exE conjE)
      moreover have "[attempt..<attempt + Suc n] = attempt # [Suc attempt..<Suc attempt + n]"
        by (simp add: upt_conv_Cons)
      ultimately show ?thesis
        using Inl True by (intro exI [of _ db0] conjI exI [of _ "Suc n"]) (auto simp del: upt_Suc)
    next
      case False
      with Inl show ?thesis by (auto intro!: exI [of _ db] exI [of _ "0::nat"])
    qed
  qed
qed

definition sql_slots :: "string \<Rightarrow> ledger_db \<Rightarrow> slots" where
  "sql_slots key db = map slot_of (filter (\<lambda>e. de_dailyKey e = key) (db_entries db))"

definition sql_counts :: "string \<Rightarrow> ledger_db \<Rightarrow> int \<times> int" where
  "sql_counts key db = (sql_getConfirmedCount key db, sql_getReservedCount key db)"

definition sql_op_reserve :: "int \<Rightarrow> int \<Rightarrow> string \<Rightarrow> string \<Rightarrow> string \<Rightarrow> ledger_db \<Rightarrow> ledger_db" where
  "sql_op_reserve n now key bet sess = committed (sql_reserve n now key bet sess)"

definition sql_op_confirm :: "int \<Rightarrow> string \<Rightarrow> string \<Rightarrow> ledger_db \<Rightarrow> ledger_db" where
  "sql_op_confirm now key bet = committed (sql_confirm now key bet)"

definition sql_op_release :: "int \<Rightarrow> string \<Rightarrow> string \<Rightarrow> string \<Rightarrow> ledger_db \<Rightarrow> ledger_db" where
  "sql_op_release now key bet why = committed (sql_release now key bet why)"

abbreviation sql_step :: "int \<Rightarrow> ledger_db \<Rightarrow> slot_op \<Rightarrow> ledger_db" where
  "sql_step n \<equiv> ledger_step (sql_op_reserve n) sql_op_confirm sql_op_release"

text \<open>Identifiers are those the sequence has given out, and each entry's day has its row of statistics.\<close>

definition db_ok :: "ledger_db \<Rightarrow> bool" where
  "db_ok db \<longleftrightarrow> distinct (map de_id (db_entries db)) \<and>
     (\<forall>e \<in> set (db_entries db). de_id e < db_seq db \<and> db_stats db (de_dailyKey e) \<noteq> None)"

lemma find_day:
  "find (\<lambda>e. de_betId e = b) (filter (\<lambda>e. de_dailyKey e = key) es) = find (is_entry key b) es"
  by (induction es) (auto simp: is_entry_def)

lemma find_slot_sql:
  "find_slot b (sql_slots key db) = map_option de_status (find (is_entry key b) (db_entries db))"
  by (simp add: sql_slots_def find_slot_map find_day)

lemma update_by_id:
  "distinct (map de_id es) \<Longrightarrow> find p es = Some e0 \<Longrightarrow>
     map (\<lambda>e. if de_id e = de_id e0 then f e else e) es = update_first p f es"
proof (induction es)
  case Nil
  then show ?case by simp
next
  case (Cons e es)
  then have "e0 \<in> set es" if "\<not> p e" using that by (auto simp: find_Some_iff)
  moreover have "map (\<lambda>x. if de_id x = de_id e then f x else x) es = es"
    using Cons.prems(1) by (intro map_idI) (metis distinct.simps(2) image_eqI list.set_map list.simps(9))
  moreover have "de_id e0 \<noteq> de_id e" if "e0 \<in> set es"
    using Cons.prems(1) that by (metis distinct.simps(2) image_eqI list.set_map list.simps(9))
  ultimately show ?case using Cons by (cases "p e") auto
qed

lemma filter_update_first:
  assumes "\<And>e. de_dailyKey (f e) = de_dailyKey e"
  shows "filter (\<lambda>e. de_dailyKey e = key) (update_first (is_entry key b) f es) =
           update_first (\<lambda>e. de_betId e = b) f (filter (\<lambda>e. de_dailyKey e = key) es)"
  using assms by (induction es) (auto simp: is_entry_def)

lemma filter_update_other:
  assumes "\<And>e. de_dailyKey (f e) = de_dailyKey e" and "key' \<noteq> key"
  shows "filter (\<lambda>e. de_dailyKey e = key') (update_first (is_entry key b) f es) =
           filter (\<lambda>e. de_dailyKey e = key') es"
  using assms by (induction es) (auto simp: is_entry_def)

lemma slots_update:
  assumes "db_ok db" and "find (is_entry key b) (db_entries db) = Some e0"
    and "\<And>e. de_dailyKey (f e) = de_dailyKey e" and "\<And>e. slot_of (f e) = (de_betId e, st)"
  shows "sql_slots key' (sql_update_entry (de_id e0) f db) =
           (if key' = key then set_slot b st (sql_slots key db) else sql_slots key' db)"
proof -
  have "db_entries (sql_update_entry (de_id e0) f db) = update_first (is_entry key b) f (db_entries db)"
    unfolding sql_update_entry_def using assms(1,2) by (simp add: db_ok_def update_by_id)
  then show ?thesis
    using assms(3,4) by (simp add: sql_slots_def filter_update_first filter_update_other set_slot_map [where f = f])
qed

lemma slots_stats [simp]: "sql_slots key (sql_update_stats key' f db) = sql_slots key db"
  by (simp add: sql_slots_def sql_update_stats_def)

lemma found_entry:
  "db_ok db \<Longrightarrow> find (is_entry key b) (db_entries db) = Some e \<Longrightarrow>
     e \<in> set (db_entries db) \<and> de_dailyKey e = key \<and> db_stats db key \<noteq> None"
  by (auto simp: find_Some_iff is_entry_def db_ok_def dest: nth_mem)

lemma db_ok_update:
  "db_ok db \<Longrightarrow> (\<And>e. de_dailyKey (f e) = de_dailyKey e \<and> de_id (f e) = de_id e) \<Longrightarrow>
     db_ok (sql_update_stats key g (sql_update_entry i f db))"
  by (auto simp: db_ok_def sql_update_stats_def sql_update_entry_def comp_def if_distrib cong: if_cong)

lemma lock_stats:
  "lockDailyStats now key db = (sql_counts key db, sql_ensureDailyStats now key db)"
  "sql_slots k (sql_ensureDailyStats now key db) = sql_slots k db"
  "sql_counts k (sql_ensureDailyStats now key db) = sql_counts k db"
  "db_stats (sql_ensureDailyStats now key db) key \<noteq> None"
  "db_ok db \<Longrightarrow> db_ok (sql_ensureDailyStats now key db)"
  by (auto simp: lockDailyStats_def sql_ensureDailyStats_def sql_counts_def sql_getConfirmedCount_def
      sql_getReservedCount_def sql_slots_def fresh_stats_def db_ok_def Let_def split: option.splits)

lemma sql_counts_update:
  "db_stats db key \<noteq> None \<Longrightarrow> sql_counts key' (sql_update_stats key f db) =
     (if key' = key then (ds_entriesConfirmed (f (the (db_stats db key))), ds_entriesReserved (f (the (db_stats db key))))
      else sql_counts key' db)"
  by (auto simp: sql_counts_def sql_getConfirmedCount_def sql_getReservedCount_def sql_update_stats_def)

lemma sql_counts_fields [simp]:
  "sql_counts key (sql_update_entry i f db) = sql_counts key db"
  "sql_counts key (db\<lparr>db_entries := es, db_seq := n\<rparr>) = sql_counts key db"
  "db_stats (sql_update_entry i f db) = db_stats db"
  by (simp_all add: sql_counts_def sql_getConfirmedCount_def sql_getReservedCount_def sql_update_entry_def)

lemma sql_counts_row:
  "db_stats db key = Some s \<Longrightarrow> sql_counts key db = (ds_entriesConfirmed s, ds_entriesReserved s)"
  by (simp add: sql_counts_def sql_getConfirmedCount_def sql_getReservedCount_def)

lemma sql_reserve_full:
  assumes "sql_counts key db = (c, r)" and "n \<le> c + r"
  shows "sql_op_reserve n now key bet sess db = sql_ensureDailyStats now key db"
  using assms by (simp add: sql_op_reserve_def committed_def sql_reserve_def lock_stats(1))

lemma sql_reserve_grant:
  assumes "sql_counts key db = (c, r)" and "c + r < n"
  shows "\<exists>slot f. sql_op_reserve n now key bet sess db =
           sql_update_stats key f ((sql_ensureDailyStats now key db)
             \<lparr>db_entries := db_entries db @ [slot], db_seq := Suc (db_seq db)\<rparr>) \<and>
           de_dailyKey slot = key \<and> slot_of slot = (bet, St_RESERVED) \<and> de_id slot = db_seq db \<and>
           (\<forall>s. ds_entriesConfirmed (f s) = ds_entriesConfirmed s \<and>
                ds_entriesReserved (f s) = ds_entriesReserved s + 1)"
proof -
  have "db_entries (sql_ensureDailyStats now key db) = db_entries db"
    "db_seq (sql_ensureDailyStats now key db) = db_seq db"
    by (auto simp: sql_ensureDailyStats_def lockDailyStats_def Let_def split: option.split)
  then show ?thesis
    using assms
    by (auto simp: sql_op_reserve_def committed_def sql_reserve_def lock_stats(1) Let_def slot_of_def
        intro!: exI)
qed

lemma sql_reserve_laws:
  "db_ok db \<Longrightarrow> db_ok (sql_op_reserve n now key bet sess db)"
  "sql_counts key db = (c, r) \<Longrightarrow> c + r < n \<Longrightarrow>
     sql_slots key (sql_op_reserve n now key bet sess db) = sql_slots key db @ [(bet, St_RESERVED)] \<and>
     sql_counts key (sql_op_reserve n now key bet sess db) = (c, r + 1)"
  "sql_counts key db = (c, r) \<Longrightarrow> n \<le> c + r \<Longrightarrow>
     sql_slots key (sql_op_reserve n now key bet sess db) = sql_slots key db \<and>
     sql_counts key (sql_op_reserve n now key bet sess db) = (c, r)"
  "key' \<noteq> key \<Longrightarrow> sql_slots key' (sql_op_reserve n now key bet sess db) = sql_slots key' db \<and>
     sql_counts key' (sql_op_reserve n now key bet sess db) = sql_counts key' db"
proof -
  obtain c0 r0 where cr: "sql_counts key db = (c0, r0)" by (cases "sql_counts key db")
  let ?db1 = "sql_ensureDailyStats now key db"
  have row: "db_stats ?db1 key \<noteq> None" by (rule lock_stats(4))
  show "db_ok (sql_op_reserve n now key bet sess db)" if ok: "db_ok db"
  proof (cases "c0 + r0 < n")
    case True
    from sql_reserve_grant [OF cr True] obtain slot f where s:
      "sql_op_reserve n now key bet sess db = sql_update_stats key f (?db1
         \<lparr>db_entries := db_entries db @ [slot], db_seq := Suc (db_seq db)\<rparr>)"
      "de_dailyKey slot = key" "de_id slot = db_seq db" by blast
    have e: "db_entries ?db1 = db_entries db" "db_seq ?db1 = db_seq db"
      by (auto simp: sql_ensureDailyStats_def lockDailyStats_def Let_def split: option.split)
    have "db_ok ?db1" using lock_stats(5) [OF ok] .
    with s e row show ?thesis
      by (auto simp: db_ok_def sql_update_stats_def less_Suc_eq)
  qed (use cr sql_reserve_full lock_stats(5) ok in auto)
  show "sql_slots key (sql_op_reserve n now key bet sess db) = sql_slots key db @ [(bet, St_RESERVED)] \<and>
     sql_counts key (sql_op_reserve n now key bet sess db) = (c, r + 1)"
    if "sql_counts key db = (c, r)" "c + r < n" for c r
  proof -
    from sql_reserve_grant [OF that] obtain slot f where s:
      "sql_op_reserve n now key bet sess db = sql_update_stats key f (?db1
         \<lparr>db_entries := db_entries db @ [slot], db_seq := Suc (db_seq db)\<rparr>)"
      "de_dailyKey slot = key" "slot_of slot = (bet, St_RESERVED)"
      "\<forall>s. ds_entriesConfirmed (f s) = ds_entriesConfirmed s \<and> ds_entriesReserved (f s) = ds_entriesReserved s + 1"
      by blast
    from row obtain st where st: "db_stats ?db1 key = Some st" by auto
    have "(ds_entriesConfirmed st, ds_entriesReserved st) = (c, r)"
      using sql_counts_row [OF st] lock_stats(3) [of key now key db] that(1) by simp
    with s st show ?thesis by (simp add: sql_counts_update) (simp add: sql_slots_def)
  qed
  show "sql_slots key (sql_op_reserve n now key bet sess db) = sql_slots key db \<and>
     sql_counts key (sql_op_reserve n now key bet sess db) = (c, r)"
    if "sql_counts key db = (c, r)" "n \<le> c + r" for c r
    using sql_reserve_full [OF that] lock_stats(2,3) that(1) by simp
  show "sql_slots key' (sql_op_reserve n now key bet sess db) = sql_slots key' db \<and>
     sql_counts key' (sql_op_reserve n now key bet sess db) = sql_counts key' db" if "key' \<noteq> key"
  proof (cases "c0 + r0 < n")
    case True
    from sql_reserve_grant [OF cr True] obtain slot f where s:
      "sql_op_reserve n now key bet sess db = sql_update_stats key f (?db1
         \<lparr>db_entries := db_entries db @ [slot], db_seq := Suc (db_seq db)\<rparr>)" "de_dailyKey slot = key"
      by blast
    with row that lock_stats(3) [of key' now key db] show ?thesis
      by (simp add: sql_counts_update) (simp add: sql_slots_def)
  qed (use cr sql_reserve_full lock_stats(2,3) in auto)
qed

lemma sql_confirm_hit:
  assumes ok: "db_ok db" and cr: "sql_counts key db = (c, r)"
    and hit: "find_slot bet (sql_slots key db) = Some St_RESERVED"
  shows "db_ok (sql_op_confirm now key bet db) \<and>
         sql_slots key' (sql_op_confirm now key bet db) =
           (if key' = key then set_slot bet St_CONFIRMED (sql_slots key db) else sql_slots key' db) \<and>
         sql_counts key' (sql_op_confirm now key bet db) =
           (if key' = key then (c + 1, max 0 (r - 1)) else sql_counts key' db)"
proof -
  from hit obtain e where e: "find (is_entry key bet) (db_entries db) = Some e" "de_status e = St_RESERVED"
    by (auto simp: find_slot_sql)
  from found_entry [OF ok e(1)] obtain st where st: "db_stats db key = Some st" by auto
  let ?f = "\<lambda>e. e\<lparr>de_status := St_CONFIRMED, de_confirmedAt := Some now\<rparr>"
  have "sql_slots key' (sql_update_entry (de_id e) ?f db) =
      (if key' = key then set_slot bet St_CONFIRMED (sql_slots key db) else sql_slots key' db)"
    by (rule slots_update [OF ok e(1)]) (simp_all add: slot_of_def)
  with e st cr sql_counts_row [OF st] show ?thesis
    by (simp add: sql_op_confirm_def committed_def sql_confirm_def sql_counts_update db_ok_update [OF ok] max.commute)
qed

lemma sql_release_hit:
  assumes ok: "db_ok db" and cr: "sql_counts key db = (c, r)"
    and hit: "find_slot bet (sql_slots key db) = Some old" "old \<in> {St_RESERVED, St_CONFIRMED}"
  shows "db_ok (sql_op_release now key bet why db) \<and>
         sql_slots key' (sql_op_release now key bet why db) =
           (if key' = key then set_slot bet St_RELEASED (sql_slots key db) else sql_slots key' db) \<and>
         sql_counts key' (sql_op_release now key bet why db) =
           (if key' = key then (if old = St_CONFIRMED then max 0 (c - 1) else c, max 0 (r - 1))
            else sql_counts key' db)"
proof -
  from hit obtain e where e: "find (is_entry key bet) (db_entries db) = Some e" "de_status e = old"
    by (auto simp: find_slot_sql)
  from found_entry [OF ok e(1)] obtain st where st: "db_stats db key = Some st" by auto
  let ?f = "\<lambda>e. e\<lparr>de_status := St_RELEASED, de_releasedAt := Some now, de_reason := Some why\<rparr>"
  have "sql_slots key' (sql_update_entry (de_id e) ?f db) =
      (if key' = key then set_slot bet St_RELEASED (sql_slots key db) else sql_slots key' db)"
    by (rule slots_update [OF ok e(1)]) (simp_all add: slot_of_def)
  with e st cr hit(2) sql_counts_row [OF st] show ?thesis
    by (auto simp: sql_op_release_def committed_def sql_release_def sql_counts_update Let_def
        db_ok_update [OF ok] max.commute)
qed

lemma sql_confirm_miss:
  "find_slot bet (sql_slots key db) \<noteq> Some St_RESERVED \<Longrightarrow> sql_op_confirm now key bet db = db"
  by (auto simp: sql_op_confirm_def committed_def sql_confirm_def find_slot_sql split: option.splits)

lemma sql_release_miss:
  "find_slot bet (sql_slots key db) \<notin> {Some St_RESERVED, Some St_CONFIRMED} \<Longrightarrow>
     sql_op_release now key bet why db = db"
  using slot_status.exhaust
  by (auto simp: sql_op_release_def committed_def sql_release_def find_slot_sql Let_def split: option.splits)

lemma sql_ok_step:
  assumes "db_ok db"
  shows "db_ok (sql_step n db p)"
proof (cases p)
  case (Op_reserve now key bet sess)
  then show ?thesis using sql_reserve_laws(1) [OF assms] by simp
next
  case (Op_confirm now key bet)
  then show ?thesis
    using sql_confirm_hit [OF assms, of key _ _ bet now key] sql_confirm_miss [of bet key db now] assms
    by (cases "find_slot bet (sql_slots key db) = Some St_RESERVED"; cases "sql_counts key db") auto
next
  case (Op_release now key bet why)
  then show ?thesis
    using sql_release_hit [OF assms, of key _ _ bet _ now why key] sql_release_miss [of bet key db now why] assms
    by (cases "find_slot bet (sql_slots key db) \<in> {Some St_RESERVED, Some St_CONFIRMED}";
        cases "sql_counts key db") auto
qed

interpretation sql: slot_ledger "sql_op_reserve n" sql_op_confirm sql_op_release sql_slots sql_counts db_ok False n
proof
  show "db_ok (sql_step n s p)" if "db_ok s" for s p
    by (rule sql_ok_step [OF that])
  show "sql_slots key (sql_op_confirm now key bet s) = sql_slots key s \<and>
          sql_counts key (sql_op_confirm now key bet s) = sql_counts key s"
    if "find_slot bet (sql_slots key s) \<noteq> Some St_RESERVED" for key s now bet
    using sql_confirm_miss [OF that] by simp
  show "sql_slots key (sql_op_release now key bet why s) = sql_slots key s \<and>
          sql_counts key (sql_op_release now key bet why s) = sql_counts key s"
    if "find_slot bet (sql_slots key s) \<notin> {Some St_RESERVED, Some St_CONFIRMED}" for key s now bet why
    using sql_release_miss [OF that] by simp
  show "sql_slots key (sql_op_confirm now key bet s) = set_slot bet St_CONFIRMED (sql_slots key s) \<and>
          sql_counts key (sql_op_confirm now key bet s) = (c + 1, max 0 (r - 1))"
    if "db_ok s" "sql_counts key s = (c, r)" "find_slot bet (sql_slots key s) = Some St_RESERVED"
    for key s now bet c r
    using sql_confirm_hit [OF that, of now key] by simp
  show "sql_slots key (sql_op_release now key bet why s) = set_slot bet St_RELEASED (sql_slots key s) \<and>
          sql_counts key (sql_op_release now key bet why s) = (c, max 0 (r - 1))"
    if "db_ok s" "sql_counts key s = (c, r)" "find_slot bet (sql_slots key s) = Some St_RESERVED"
    for key s now bet why c r
    using sql_release_hit [OF that, of now why key] by simp
  show "sql_slots key' (sql_op_reserve n now key bet sess s) = sql_slots key' s \<and>
        sql_counts key' (sql_op_reserve n now key bet sess s) = sql_counts key' s \<and>
        sql_slots key' (sql_op_confirm now key bet s) = sql_slots key' s \<and>
        sql_counts key' (sql_op_confirm now key bet s) = sql_counts key' s \<and>
        sql_slots key' (sql_op_release now key bet why s) = sql_slots key' s \<and>
        sql_counts key' (sql_op_release now key bet why s) = sql_counts key' s"
    if "db_ok s" "key' \<noteq> key" for key' key now bet sess why s
    using that sql_reserve_laws(4) [OF that(2)] sql_confirm_hit [OF that(1), of key _ _ bet now key']
      sql_release_hit [OF that(1), of key _ _ bet _ now why key']
      sql_confirm_miss [of bet key s now] sql_release_miss [of bet key s now why]
    by (cases "sql_counts key s"; cases "find_slot bet (sql_slots key s)"; cases "the (find_slot bet (sql_slots key s))") auto
qed (use sql_reserve_laws in auto)

section \<open>Properties\<close>

text \<open>
  C16. The daily limit of the PostgreSQL ledger: after any sequence of committed operations, for every
  day, as long as no confirmed slot is released, the two counters are the numbers of confirmed
  and of reserved slots, and together they do not exceed the limit.
\<close>

theorem sql_daily_limit:
  assumes "proper_run False sql_slots (sql_step n) \<lparr>db_entries = [], db_stats = Map.empty, db_seq = 0\<rparr> ps"
  shows "let db = foldl (sql_step n) \<lparr>db_entries = [], db_stats = Map.empty, db_seq = 0\<rparr> ps in
           sql_getConfirmedCount key db = count_slots St_CONFIRMED (sql_slots key db) \<and>
           sql_getReservedCount key db = count_slots St_RESERVED (sql_slots key db) \<and>
           sql_getConfirmedCount key db + sql_getReservedCount key db \<le> max 0 n"
proof -
  let ?e = "\<lparr>db_entries = [], db_stats = Map.empty, db_seq = 0\<rparr>"
  have "balanced n (sql_slots key ?e) (sql_counts key ?e)"
    by (simp add: balanced_def sql_slots_def sql_counts_def count_slots_def
        sql_getConfirmedCount_def sql_getReservedCount_def)
  from sql.balanced_run [OF _ this assms] show ?thesis
    by (simp add: db_ok_def balanced_def sql_counts_def Let_def)
qed

definition ex_proper :: "slot_op list" where
  "ex_proper = [Op_reserve 1 ''d'' ''a'' ''s'', Op_reserve 2 ''d'' ''b'' ''s'', Op_confirm 3 ''d'' ''a'',
     Op_release 4 ''d'' ''b'' ''failed'', Op_confirm 5 ''d'' ''b'']"

lemmas ledger_eval = sql_op_reserve_def sql_op_confirm_def sql_op_release_def committed_def
  sql_reserve_def sql_confirm_def sql_release_def sql_slots_def slot_of_def find_slot_def lockDailyStats_def
  sql_update_stats_def sql_update_entry_def is_entry_def fresh_stats_def Let_def
  sql_getConfirmedCount_def sql_getReservedCount_def

theorem sql_daily_limit_witness:
  "let db = foldl (sql_step 2) \<lparr>db_entries = [], db_stats = Map.empty, db_seq = 0\<rparr> ex_proper
   in sql_getConfirmedCount ''d'' db + sql_getReservedCount ''d'' db \<le> 2"
proof -
  have "proper_run False sql_slots (sql_step 2) \<lparr>db_entries = [], db_stats = Map.empty, db_seq = 0\<rparr> ex_proper"
    by (simp add: ex_proper_def ledger_eval)
  from sql_daily_limit [OF this, of "''d''"] show ?thesis by (simp add: Let_def)
qed

text \<open>
  The in-memory ledger keeps the same contract, with one more condition: its \<open>confirm\<close> also
  accepts released slots, so none may be confirmed.
\<close>

theorem mem_daily_limit:
  assumes "proper_run True mem_slots mem_step (mem_new n) ps"
  shows "let l = foldl mem_step (mem_new n) ps in
           mem_counts key l = (count_slots St_CONFIRMED (mem_slots key l), count_slots St_RESERVED (mem_slots key l)) \<and>
           fst (mem_counts key l) + snd (mem_counts key l) \<le> max 0 n"
proof -
  have "balanced n (mem_slots key (mem_new n)) (mem_counts key (mem_new n))"
    by (simp add: balanced_def mem_slots_def mem_counts_def mem_new_def count_slots_def)
  from mem.balanced_run [OF _ this assms] show ?thesis
    by (simp add: mem_new_def balanced_def Let_def)
qed

lemmas mem_eval = mem_defs slot_of_def find_slot_def mem_new_def

theorem mem_daily_limit_witness:
  "let l = foldl mem_step (mem_new 2) [Op_reserve 1 ''d'' ''a'' ''s'', Op_confirm 3 ''d'' ''a'', Op_reserve 4 ''d'' ''b'' ''s'']
   in fst (mem_counts ''d'' l) + snd (mem_counts ''d'' l) \<le> 2"
proof -
  have "proper_run True mem_slots mem_step (mem_new 2)
      [Op_reserve 1 ''d'' ''a'' ''s'', Op_confirm 3 ''d'' ''a'', Op_reserve 4 ''d'' ''b'' ''s'']"
    by (simp add: mem_eval)
  from mem_daily_limit [OF this, of "''d''", unfolded Let_def, THEN conjunct2] show ?thesis
    by (simp add: Let_def)
qed

definition ex_overrun :: "slot_op list" where
  "ex_overrun =
     [Op_reserve 1 ''d'' ''a'' ''s'', Op_confirm 2 ''d'' ''a'', Op_reserve 3 ''d'' ''b'' ''s'',
      Op_release 4 ''d'' ''a'' ''void'', Op_reserve 5 ''d'' ''c'' ''s'', Op_reserve 6 ''d'' ''e'' ''s'',
      Op_confirm 7 ''d'' ''b'', Op_confirm 8 ''d'' ''c'', Op_confirm 9 ''d'' ''e'']"

text \<open>
  Releasing a confirmed slot lets the day exceed its limit, in both ledgers: \<open>release\<close> of a
  confirmed slot takes one off the reserved counter too, although that slot is no longer reserved, so a
  slot reserved for another bet is forgotten. With a limit of two, three bets end up confirmed.
\<close>

theorem releasing_confirmed_overruns_limit:
  "sql_counts ''d'' (foldl (sql_step 2) \<lparr>db_entries = [], db_stats = Map.empty, db_seq = 0\<rparr> ex_overrun) = (3, 0) \<and>
   mem_counts ''d'' (foldl mem_step (mem_new 2) ex_overrun) = (3, 0)"
  by (simp add: ex_overrun_def ledger_eval sql_counts_def mem_eval)

text \<open>
  \<open>withSerializableTransaction\<close> runs its body to effect at most once: a result means that exactly one
  attempt was committed, on the tables as the other transactions had left them; an error means that
  only the others changed anything. There are at most three attempts.
\<close>

theorem transaction_commits_at_most_once:
  "\<exists>n db0. n \<le> 3 \<and> db0 = foldl (\<lambda>d i. others i d) db [1..<1 + n] \<and>
     (case withSerializableTransaction body clash others db of
        (Inr r, db') \<Rightarrow> body db0 = Inr (r, db')
      | (Inl e, db') \<Rightarrow> db' = db0)"
proof -
  from tx_loop_once [of body clash others 1 3 db] obtain db0 n where
    "case tx_loop body clash others 1 3 db of (Inr r, db') \<Rightarrow> body db0 = Inr (r, db') | (Inl _, db') \<Rightarrow> db' = db0"
    "db0 = foldl (\<lambda>d i. others i d) db [1..<1 + n]" "n \<le> 3"
    by (elim exE conjE)
  then show ?thesis
    unfolding withSerializableTransaction_def by (intro exI [of _ n] exI [of _ db0] conjI)
qed

text \<open>The standalone counter counts the increments of the current day and starts again on the next.\<close>

lemma counter_increments:
  "(dc_increment today ^^ n) (dc_new today) = \<lparr>dc_count = int n, dc_dailyKey = today\<rparr>"
  by (induction n) (simp_all add: dc_new_def dc_increment_def dc_getCount_def Let_def)

lemma counter_rollover:
  "tomorrow \<noteq> today \<Longrightarrow> fst (dc_getCount tomorrow ((dc_increment today ^^ n) (dc_new today))) = 0"
  by (simp add: counter_increments dc_getCount_def Let_def)

end
