(* ===== verification/Idempotency.thy ===== *)
theory Idempotency
  imports Mutex
begin

text \<open>
  \<open>IdempotencyKeyStore\<close> and \<open>InMemoryIdempotencyStore\<close> of \<open>src/src/betting/idempotency.ts\<close>. The
  Redis commands are parameters; a stored value is the record itself, which \<open>JSON.parse\<close> gives
  back from the text that \<open>JSON.stringify\<close> wrote. The operations that read and then write are two
  commands, with whatever other processes do between them. The locale is what the executors rely
  on: a reservation succeeds at most once.
\<close>

section \<open>Data\<close>

datatype idem_status = I_PENDING | I_COMPLETED | I_FAILED | I_EXPIRED | I_UNKNOWN

record placement_result =
  pr_success :: bool
  pr_betId :: "string option"
  pr_error :: "string option"

text \<open>The Redis store writes records without the fields \<open>key\<close> and \<open>expiresAt\<close>.\<close>

record idem_record =
  ir_key :: "string option"
  ir_status :: idem_status
  ir_betId :: "string option"
  ir_roundId :: string
  ir_sessionId :: string
  ir_createdAt :: int
  ir_expiresAt :: "int option"
  ir_result :: "placement_result option"

record idem_config =
  ic_ttlMs :: int
  ic_prefix :: string

text \<open>The commands: \<open>SET PX NX\<close>, \<open>SET PX\<close>, \<open>GET\<close> and \<open>DEL\<close>. A call may fail (\<open>False\<close>, outer \<open>None\<close>).\<close>

record 'r redis_kv =
  rk_setnx :: "int \<Rightarrow> string \<Rightarrow> idem_record \<Rightarrow> int \<Rightarrow> 'r \<Rightarrow> 'r \<times> set_reply"
  rk_set :: "int \<Rightarrow> string \<Rightarrow> idem_record \<Rightarrow> int \<Rightarrow> 'r \<Rightarrow> 'r \<times> bool"
  rk_get :: "int \<Rightarrow> string \<Rightarrow> 'r \<Rightarrow> idem_record option option"
  rk_del :: "int \<Rightarrow> string \<Rightarrow> 'r \<Rightarrow> 'r \<times> bool"

definition generateKey :: "string \<Rightarrow> string \<Rightarrow> string" where
  "generateKey sess rid = sess @ '':'' @ rid"

definition idem_key :: "idem_config \<Rightarrow> string \<Rightarrow> string \<Rightarrow> string" where
  "idem_key cfg sess rid = ic_prefix cfg @ ''idempotency:'' @ generateKey sess rid"

definition idem_config_new :: "int option \<Rightarrow> string \<Rightarrow> idem_config" where
  "idem_config_new ttl prefix = \<lparr>ic_ttlMs = or_else ttl 300000, ic_prefix = prefix\<rparr>"

section \<open>The Redis store\<close>

definition idem_reserve ::
  "'r redis_kv \<Rightarrow> idem_config \<Rightarrow> int \<Rightarrow> string \<Rightarrow> string \<Rightarrow> string \<Rightarrow> 'r \<Rightarrow> 'r \<times> bool" where
  "idem_reserve R cfg now sess rid bet st =
     (case rk_setnx R now (idem_key cfg sess rid)
             \<lparr>ir_key = None, ir_status = I_PENDING, ir_betId = Some bet, ir_roundId = rid,
              ir_sessionId = sess, ir_createdAt = now, ir_expiresAt = None, ir_result = None\<rparr>
             (ic_ttlMs cfg) st of
        (st', Set_OK) \<Rightarrow> (st', True)
      | (st', Set_nil) \<Rightarrow> (st', False)
      | (st', Set_throws) \<Rightarrow> (st', False))"

text \<open>The second half of \<open>complete\<close>, \<open>fail\<close> and \<open>markUnknown\<close>, and its time to live.\<close>

datatype idem_write_kind = W_complete | W_fail | W_unknown

fun write_ttl :: "idem_config \<Rightarrow> idem_write_kind \<Rightarrow> int" where
  "write_ttl cfg W_complete = ic_ttlMs cfg"
| "write_ttl cfg W_fail = min (ic_ttlMs cfg) 60000"
| "write_ttl cfg W_unknown = max (ic_ttlMs cfg) (30 * 60 * 1000)"

definition idem_write ::
  "'r redis_kv \<Rightarrow> idem_config \<Rightarrow> int \<Rightarrow> string \<Rightarrow> string \<Rightarrow> idem_record \<Rightarrow> idem_write_kind \<Rightarrow> 'r \<Rightarrow> 'r" where
  "idem_write R cfg now sess rid rec kind st =
     fst (rk_set R now (idem_key cfg sess rid) rec (write_ttl cfg kind) st)"

definition idem_update ::
  "'r redis_kv \<Rightarrow> idem_config \<Rightarrow> int \<Rightarrow> ('r \<Rightarrow> 'r) \<Rightarrow> int \<Rightarrow> string \<Rightarrow> string \<Rightarrow>
     (idem_record \<Rightarrow> idem_record) \<Rightarrow> idem_write_kind \<Rightarrow> 'r \<Rightarrow> 'r" where
  "idem_update R cfg now1 others now2 sess rid f kind st =
     (case rk_get R now1 (idem_key cfg sess rid) st of
        None \<Rightarrow> st
      | Some None \<Rightarrow> st
      | Some (Some rec) \<Rightarrow> idem_write R cfg now2 sess rid (f rec) kind (others st))"

definition failed_result :: "string \<Rightarrow> placement_result" where
  "failed_result why = \<lparr>pr_success = False, pr_betId = None, pr_error = Some why\<rparr>"

definition idem_complete ::
  "'r redis_kv \<Rightarrow> idem_config \<Rightarrow> int \<Rightarrow> ('r \<Rightarrow> 'r) \<Rightarrow> int \<Rightarrow> string \<Rightarrow> string \<Rightarrow> placement_result \<Rightarrow> 'r \<Rightarrow> 'r" where
  "idem_complete R cfg now1 others now2 sess rid res st =
     idem_update R cfg now1 others now2 sess rid
       (\<lambda>rec. rec\<lparr>ir_status := I_COMPLETED, ir_result := Some res\<rparr>) W_complete st"

definition idem_fail ::
  "'r redis_kv \<Rightarrow> idem_config \<Rightarrow> int \<Rightarrow> ('r \<Rightarrow> 'r) \<Rightarrow> int \<Rightarrow> string \<Rightarrow> string \<Rightarrow> string \<Rightarrow> 'r \<Rightarrow> 'r" where
  "idem_fail R cfg now1 others now2 sess rid why st =
     idem_update R cfg now1 others now2 sess rid
       (\<lambda>rec. rec\<lparr>ir_status := I_FAILED, ir_result := Some (failed_result why)\<rparr>) W_fail st"

definition idem_markUnknown ::
  "'r redis_kv \<Rightarrow> idem_config \<Rightarrow> int \<Rightarrow> ('r \<Rightarrow> 'r) \<Rightarrow> int \<Rightarrow> string \<Rightarrow> string \<Rightarrow> string \<Rightarrow> 'r \<Rightarrow> 'r" where
  "idem_markUnknown R cfg now1 others now2 sess rid why st =
     idem_update R cfg now1 others now2 sess rid
       (\<lambda>rec. rec\<lparr>ir_status := I_UNKNOWN, ir_result := Some (failed_result why)\<rparr>) W_unknown st"

definition idem_getRecord :: "'r redis_kv \<Rightarrow> idem_config \<Rightarrow> int \<Rightarrow> string \<Rightarrow> string \<Rightarrow> 'r \<Rightarrow> idem_record option" where
  "idem_getRecord R cfg now sess rid st =
     (case rk_get R now (idem_key cfg sess rid) st of None \<Rightarrow> None | Some v \<Rightarrow> v)"

definition idem_hasStatus ::
  "'r redis_kv \<Rightarrow> idem_config \<Rightarrow> int \<Rightarrow> string \<Rightarrow> string \<Rightarrow> idem_status \<Rightarrow> 'r \<Rightarrow> bool" where
  "idem_hasStatus R cfg now sess rid status st =
     (case idem_getRecord R cfg now sess rid st of None \<Rightarrow> False | Some rec \<Rightarrow> ir_status rec = status)"

definition idem_exists :: "'r redis_kv \<Rightarrow> idem_config \<Rightarrow> int \<Rightarrow> string \<Rightarrow> string \<Rightarrow> 'r \<Rightarrow> bool" where
  "idem_exists R cfg now sess rid st \<longleftrightarrow> idem_getRecord R cfg now sess rid st \<noteq> None"

definition idem_release :: "'r redis_kv \<Rightarrow> idem_config \<Rightarrow> int \<Rightarrow> string \<Rightarrow> string \<Rightarrow> 'r \<Rightarrow> 'r" where
  "idem_release R cfg now sess rid st = fst (rk_del R now (idem_key cfg sess rid) st)"

text \<open>The commands that reach Redis, one event each.\<close>

datatype idem_op =
    IO_reserve int string string string
  | IO_write int string string idem_record idem_write_kind
  | IO_release int string string

fun io_time :: "idem_op \<Rightarrow> int" where
  "io_time (IO_reserve now _ _ _) = now"
| "io_time (IO_write now _ _ _ _) = now"
| "io_time (IO_release now _ _) = now"

fun idem_step :: "'r redis_kv \<Rightarrow> idem_config \<Rightarrow> 'r \<Rightarrow> idem_op \<Rightarrow> 'r" where
  "idem_step R cfg st (IO_reserve now sess rid bet) = fst (idem_reserve R cfg now sess rid bet st)"
| "idem_step R cfg st (IO_write now sess rid rec kind) = idem_write R cfg now sess rid rec kind st"
| "idem_step R cfg st (IO_release now sess rid) = idem_release R cfg now sess rid st"

text \<open>So each operation that reads first is either nothing or, after the others, one such event.\<close>

lemma idem_update_step:
  "idem_update R cfg now1 others now2 sess rid f kind st = st \<or>
   (\<exists>rec. idem_update R cfg now1 others now2 sess rid f kind st =
            idem_step R cfg (others st) (IO_write now2 sess rid (f rec) kind))"
  by (auto simp: idem_update_def split: option.split)

section \<open>The in-memory store\<close>

type_synonym idem_store = "string \<rightharpoonup> idem_record"

definition mi_reserve :: "int \<Rightarrow> string \<Rightarrow> string \<Rightarrow> string \<Rightarrow> idem_store \<Rightarrow> idem_store \<times> bool" where
  "mi_reserve now sess rid bet s =
     (let key = generateKey sess rid
      in if s key \<noteq> None then (s, False)
         else (s(key \<mapsto> \<lparr>ir_key = Some key, ir_status = I_PENDING, ir_betId = Some bet, ir_roundId = rid,
                ir_sessionId = sess, ir_createdAt = now, ir_expiresAt = Some (now + 300000),
                ir_result = None\<rparr>), True))"

definition mi_update :: "string \<Rightarrow> string \<Rightarrow> idem_status \<Rightarrow> placement_result \<Rightarrow> idem_store \<Rightarrow> idem_store" where
  "mi_update sess rid status res s =
     (let key = generateKey sess rid
      in case s key of
           None \<Rightarrow> s
         | Some rec \<Rightarrow> s(key \<mapsto> rec\<lparr>ir_status := status, ir_result := Some res\<rparr>))"

definition mi_complete :: "string \<Rightarrow> string \<Rightarrow> placement_result \<Rightarrow> idem_store \<Rightarrow> idem_store" where
  "mi_complete sess rid res = mi_update sess rid I_COMPLETED res"

definition mi_fail :: "string \<Rightarrow> string \<Rightarrow> string \<Rightarrow> idem_store \<Rightarrow> idem_store" where
  "mi_fail sess rid why = mi_update sess rid I_FAILED (failed_result why)"

definition mi_markUnknown :: "string \<Rightarrow> string \<Rightarrow> string \<Rightarrow> idem_store \<Rightarrow> idem_store" where
  "mi_markUnknown sess rid why = mi_update sess rid I_UNKNOWN (failed_result why)"

definition mi_getRecord :: "string \<Rightarrow> string \<Rightarrow> idem_store \<Rightarrow> idem_record option" where
  "mi_getRecord sess rid s = s (generateKey sess rid)"

definition mi_release :: "string \<Rightarrow> string \<Rightarrow> idem_store \<Rightarrow> idem_store" where
  "mi_release sess rid s = s(generateKey sess rid := None)"

definition mi_cleanup :: "int \<Rightarrow> idem_store \<Rightarrow> idem_store" where
  "mi_cleanup now s = (\<lambda>key. case s key of
     Some rec \<Rightarrow> (case ir_expiresAt rec of Some t \<Rightarrow> if t < now then None else Some rec | None \<Rightarrow> Some rec)
   | None \<Rightarrow> None)"

datatype mi_op =
    MI_reserve int string string string
  | MI_complete string string placement_result
  | MI_fail string string string
  | MI_unknown string string string
  | MI_release string string
  | MI_cleanup int

fun mi_step :: "idem_store \<Rightarrow> mi_op \<Rightarrow> idem_store" where
  "mi_step s (MI_reserve now sess rid bet) = fst (mi_reserve now sess rid bet s)"
| "mi_step s (MI_complete sess rid res) = mi_complete sess rid res s"
| "mi_step s (MI_fail sess rid why) = mi_fail sess rid why s"
| "mi_step s (MI_unknown sess rid why) = mi_markUnknown sess rid why s"
| "mi_step s (MI_release sess rid) = mi_release sess rid s"
| "mi_step s (MI_cleanup now) = mi_cleanup now s"

section \<open>At most one reservation\<close>

text \<open>
  \<open>held k d s\<close>: the key is in the store at all times before \<open>d\<close>. A reservation is refused while
  the key is held, holds it for \<open>life\<close>, and an operation that is quiet about it keeps it held.
\<close>

locale reservation_store =
  fixes reserve :: "int \<Rightarrow> 'k \<Rightarrow> 'b \<Rightarrow> 's \<Rightarrow> 's \<times> bool"
    and step :: "'s \<Rightarrow> 'e \<Rightarrow> 's"
    and quiet :: "'k \<Rightarrow> int \<Rightarrow> 'e \<Rightarrow> bool"
    and held :: "'k \<Rightarrow> int \<Rightarrow> 's \<Rightarrow> bool"
    and life :: int
  assumes refused: "held k d s \<Longrightarrow> now < d \<Longrightarrow> \<not> snd (reserve now k b s)"
    and holds: "reserve now k b s = (s', True) \<Longrightarrow> held k (now + life) s'"
    and kept: "held k d s \<Longrightarrow> quiet k d e \<Longrightarrow> held k d (step s e)"
    and sooner: "held k d s \<Longrightarrow> d' \<le> d \<Longrightarrow> held k d' s"
begin

sublocale quietly: persists step "quiet k d" "held k d"
  by unfold_locales (rule kept)

lemma at_most_once:
  assumes "reserve now k b s = (s', True)" and "d \<le> now + life"
    and "list_all (quiet k d) es" and "t < d"
  shows "\<not> snd (reserve t k b' (foldl step s' es))"
  by (rule refused [OF quietly.run_quiet [OF sooner [OF holds [OF assms(1)] assms(2)] assms(3)] assms(4)])

end

text \<open>The documented behaviour of the commands; a call that fails may or may not have been carried out.\<close>

definition redis_kv_laws :: "'r redis_kv \<Rightarrow> (string \<Rightarrow> 'r \<Rightarrow> (idem_record \<times> int) option) \<Rightarrow> bool" where
  "redis_kv_laws R entry \<longleftrightarrow>
     (\<forall>now k v ttl r r' reply. rk_setnx R now k v ttl r = (r', reply) \<longrightarrow>
        (reply = Set_OK \<longrightarrow> (\<forall>w e. entry k r = Some (w, e) \<longrightarrow> e \<le> now) \<and> entry k r' = Some (v, now + ttl)) \<and>
        (\<forall>w e. entry k r = Some (w, e) \<and> now < e \<longrightarrow> entry k r' = entry k r) \<and>
        (\<forall>k'. k' \<noteq> k \<longrightarrow> entry k' r' = entry k' r)) \<and>
     (\<forall>now k v ttl r r' ok. rk_set R now k v ttl r = (r', ok) \<longrightarrow>
        entry k r' \<in> {entry k r, Some (v, now + ttl)} \<and>
        (ok \<longrightarrow> entry k r' = Some (v, now + ttl)) \<and>
        (\<forall>k'. k' \<noteq> k \<longrightarrow> entry k' r' = entry k' r)) \<and>
     (\<forall>now k r r' ok. rk_del R now k r = (r', ok) \<longrightarrow> (\<forall>k'. k' \<noteq> k \<longrightarrow> entry k' r' = entry k' r)) \<and>
     (\<forall>now k r v. rk_get R now k r = Some v \<longrightarrow>
        v = (case entry k r of Some (w, e) \<Rightarrow> if now < e then Some w else None | None \<Rightarrow> None))"

definition redis_held ::
  "(string \<Rightarrow> 'r \<Rightarrow> (idem_record \<times> int) option) \<Rightarrow> idem_config \<Rightarrow> string \<times> string \<Rightarrow> int \<Rightarrow> 'r \<Rightarrow> bool" where
  "redis_held entry cfg sr d r \<longleftrightarrow>
     (\<exists>v e. entry (idem_key cfg (fst sr) (snd sr)) r = Some (v, e) \<and> d \<le> e)"

text \<open>What must not happen to the key: a release, or a write that would let it lapse before \<open>d\<close>.\<close>

fun idem_quiet :: "idem_config \<Rightarrow> string \<times> string \<Rightarrow> int \<Rightarrow> idem_op \<Rightarrow> bool" where
  "idem_quiet cfg sr d (IO_reserve now sess rid bet) \<longleftrightarrow> now < d"
| "idem_quiet cfg sr d (IO_write now sess rid rec kind) \<longleftrightarrow>
     (generateKey sess rid = generateKey (fst sr) (snd sr) \<longrightarrow> d \<le> now + write_ttl cfg kind)"
| "idem_quiet cfg sr d (IO_release now sess rid) \<longleftrightarrow> generateKey sess rid \<noteq> generateKey (fst sr) (snd sr)"

lemma idem_key_eq [simp]:
  "idem_key cfg a b = idem_key cfg c d \<longleftrightarrow> generateKey a b = generateKey c d"
  by (simp add: idem_key_def)

lemma redis_laws_setnx:
  assumes "redis_kv_laws R entry" and "rk_setnx R now k v ttl r = (r', reply)"
  shows "reply = Set_OK \<Longrightarrow> entry k r = Some (w, e) \<Longrightarrow> e \<le> now"
    and "reply = Set_OK \<Longrightarrow> entry k r' = Some (v, now + ttl)"
    and "entry k r = Some (w, e) \<Longrightarrow> now < e \<Longrightarrow> entry k r' = entry k r"
    and "k' \<noteq> k \<Longrightarrow> entry k' r' = entry k' r"
  using assms(1) [unfolded redis_kv_laws_def, THEN conjunct1, rule_format, OF assms(2)] by blast+

lemma redis_laws_set:
  assumes "redis_kv_laws R entry"
  shows "entry k (fst (rk_set R now k v ttl r)) \<in> {entry k r, Some (v, now + ttl)}"
    and "snd (rk_set R now k v ttl r) \<Longrightarrow> entry k (fst (rk_set R now k v ttl r)) = Some (v, now + ttl)"
    and "k' \<noteq> k \<Longrightarrow> entry k' (fst (rk_set R now k v ttl r)) = entry k' r"
  using assms [unfolded redis_kv_laws_def, THEN conjunct2, THEN conjunct1, rule_format, OF prod.collapse [symmetric]]
  by blast+

lemma redis_laws_del:
  assumes "redis_kv_laws R entry" and "k' \<noteq> k"
  shows "entry k' (fst (rk_del R now k r)) = entry k' r"
  using assms(1) [unfolded redis_kv_laws_def, THEN conjunct2, THEN conjunct2, THEN conjunct1, rule_format,
      OF prod.collapse [symmetric] assms(2)] .

lemma idem_reserve_reply:
  assumes "idem_reserve R cfg now sess rid bet st = (st', ok)"
  obtains v reply where "rk_setnx R now (idem_key cfg sess rid) v (ic_ttlMs cfg) st = (st', reply)"
    "ok \<longleftrightarrow> reply = Set_OK"
  using assms by (auto simp: idem_reserve_def split: prod.splits set_reply.splits)

lemma redis_kept:
  assumes laws: "redis_kv_laws R entry" and h: "redis_held entry cfg sr d r" and q: "idem_quiet cfg sr d p"
  shows "redis_held entry cfg sr d (idem_step R cfg r p)"
proof -
  let ?k = "idem_key cfg (fst sr) (snd sr)"
  from h obtain v e where e: "entry ?k r = Some (v, e)" "d \<le> e" by (auto simp: redis_held_def)
  show ?thesis
  proof (cases p)
    case (IO_reserve now sess rid bet)
    obtain r' ok where r': "idem_reserve R cfg now sess rid bet r = (r', ok)"
      by (cases "idem_reserve R cfg now sess rid bet r")
    from idem_reserve_reply [OF this] obtain w reply where
      "rk_setnx R now (idem_key cfg sess rid) w (ic_ttlMs cfg) r = (r', reply)" by metis
    note l = redis_laws_setnx(3,4) [OF laws this]
    have "entry ?k r' = entry ?k r"
    proof (cases "?k = idem_key cfg sess rid")
      case True
      with e q IO_reserve show ?thesis using l(1) [of v e] by (simp del: idem_key_eq)
    next
      case False
      then show ?thesis by (rule l(2))
    qed
    with IO_reserve r' e show ?thesis by (auto simp: redis_held_def)
  next
    case (IO_write now sess rid rec kind)
    show ?thesis
    proof (cases "?k = idem_key cfg sess rid")
      case True
      with q IO_write have "d \<le> now + write_ttl cfg kind" by simp
      moreover from redis_laws_set(1) [OF laws, of ?k now rec "write_ttl cfg kind" r] e
      have "entry ?k (fst (rk_set R now ?k rec (write_ttl cfg kind) r)) \<in>
          {Some (v, e), Some (rec, now + write_ttl cfg kind)}" by simp
      ultimately show ?thesis
        using e(2) IO_write True by (auto simp: redis_held_def idem_write_def simp del: idem_key_eq)
    next
      case False
      with redis_laws_set(3) [OF laws False] e IO_write show ?thesis
        by (auto simp: redis_held_def idem_write_def)
    qed
  next
    case (IO_release now sess rid)
    with q have "?k \<noteq> idem_key cfg sess rid" by simp
    from redis_laws_del [OF laws this] e IO_release show ?thesis
      by (auto simp: redis_held_def idem_release_def)
  qed
qed

lemma redis_reservation_store:
  assumes laws: "redis_kv_laws R entry"
  shows "reservation_store (\<lambda>now sr bet. idem_reserve R cfg now (fst sr) (snd sr) bet)
           (idem_step R cfg) (idem_quiet cfg) (redis_held entry cfg) (ic_ttlMs cfg)"
proof
  show "\<not> snd (idem_reserve R cfg now (fst sr) (snd sr) bet s)"
    if h: "redis_held entry cfg sr d s" "now < d" for sr d s now bet
  proof -
    obtain s' ok where r: "idem_reserve R cfg now (fst sr) (snd sr) bet s = (s', ok)"
      by (cases "idem_reserve R cfg now (fst sr) (snd sr) bet s")
    from idem_reserve_reply [OF this] obtain w reply where
      w: "rk_setnx R now (idem_key cfg (fst sr) (snd sr)) w (ic_ttlMs cfg) s = (s', reply)"
        "ok \<longleftrightarrow> reply = Set_OK" by metis
    from h obtain v e where "entry (idem_key cfg (fst sr) (snd sr)) s = Some (v, e)" "d \<le> e"
      by (auto simp: redis_held_def)
    with redis_laws_setnx(1) [OF laws w(1)] h(2) w(2) r show ?thesis by force
  qed
  show "redis_held entry cfg sr (now + ic_ttlMs cfg) s'"
    if "idem_reserve R cfg now (fst sr) (snd sr) bet s = (s', True)" for now sr bet s s'
    using idem_reserve_reply [OF that] redis_laws_setnx(2) [OF laws] unfolding redis_held_def
    by (metis order_refl)
  show "redis_held entry cfg sr d (idem_step R cfg s p)"
    if "redis_held entry cfg sr d s" "idem_quiet cfg sr d p" for sr d s p
    by (rule redis_kept [OF laws that])
  show "redis_held entry cfg sr d' s" if "redis_held entry cfg sr d s" "d' \<le> d" for sr d d' s
    using that by (auto simp: redis_held_def)
qed

text \<open>The in-memory store; a key lapses only when \<open>cleanup\<close> finds it expired.\<close>

fun mi_quiet :: "string \<times> string \<Rightarrow> int \<Rightarrow> mi_op \<Rightarrow> bool" where
  "mi_quiet sr d (MI_release sess rid) \<longleftrightarrow> generateKey sess rid \<noteq> generateKey (fst sr) (snd sr)"
| "mi_quiet sr d (MI_cleanup now) \<longleftrightarrow> now < d"
| "mi_quiet sr d _ \<longleftrightarrow> True"

definition mi_held :: "string \<times> string \<Rightarrow> int \<Rightarrow> idem_store \<Rightarrow> bool" where
  "mi_held sr d s \<longleftrightarrow>
     (\<exists>rec t. s (generateKey (fst sr) (snd sr)) = Some rec \<and> ir_expiresAt rec = Some t \<and> d \<le> t)"

lemma mi_kept: "mi_held sr d s \<Longrightarrow> mi_quiet sr d p \<Longrightarrow> mi_held sr d (mi_step s p)"
  by (cases p)
    (auto simp: mi_held_def mi_reserve_def mi_complete_def mi_fail_def mi_markUnknown_def mi_update_def
       mi_release_def mi_cleanup_def Let_def split: option.splits)

interpretation mi: reservation_store "\<lambda>now sr bet. mi_reserve now (fst sr) (snd sr) bet"
  mi_step mi_quiet mi_held 300000
  by unfold_locales
    (auto simp: mi_kept, auto simp: mi_held_def mi_reserve_def Let_def split: if_splits)

section \<open>Properties\<close>

text \<open>Does the event write the failure of the round, or release it?\<close>

fun io_fails :: "string \<times> string \<Rightarrow> idem_op \<Rightarrow> bool" where
  "io_fails sr (IO_write now sess rid rec W_fail) \<longleftrightarrow> generateKey sess rid = generateKey (fst sr) (snd sr)"
| "io_fails sr _ \<longleftrightarrow> False"

fun io_releases :: "string \<times> string \<Rightarrow> idem_op \<Rightarrow> bool" where
  "io_releases sr (IO_release now sess rid) \<longleftrightarrow> generateKey sess rid = generateKey (fst sr) (snd sr)"
| "io_releases sr _ \<longleftrightarrow> False"

lemma quiet_events:
  assumes "list_all (\<lambda>p. t0 \<le> io_time p \<and> io_time p < d \<and> \<not> io_releases sr p) ps"
    and "d = t0 + (if list_ex (io_fails sr) ps then min (ic_ttlMs cfg) 60000 else ic_ttlMs cfg)"
  shows "list_all (idem_quiet cfg sr d) ps"
  unfolding list_all_iff
proof
  fix p assume p: "p \<in> set ps"
  show "idem_quiet cfg sr d p"
  proof (cases p)
    case (IO_write now sess rid rec kind)
    have "list_ex (io_fails sr) ps"
      if "kind = W_fail" "generateKey sess rid = generateKey (fst sr) (snd sr)"
      using p IO_write that by (auto simp: list_ex_iff intro!: bexI [of _ p])
    with p IO_write assms show ?thesis
      by (cases kind) (auto simp: list_all_iff split: if_splits)
  qed (use p assms(1) in \<open>auto simp: list_all_iff\<close>)
qed

text \<open>
  C24. At most one reservation of a round: once \<open>reserve\<close> has succeeded, every later \<open>reserve\<close> of the same
  session and round is refused until the key's time to live is over (one minute at most if the
  round was marked failed in between), whatever commands other processes send meanwhile, also
  between the two commands of one operation, if the key is not released. Redis is assumed
  to behave as documented, and may fail at any time.
\<close>

theorem one_reservation_per_round:
  assumes "redis_kv_laws R entry"
    and "idem_reserve R cfg t0 sess rid bet st = (st', True)"
    and "list_all (\<lambda>p. t0 \<le> io_time p \<and> io_time p < d \<and> \<not> io_releases (sess, rid) p) ps"
    and "d = t0 + (if list_ex (io_fails (sess, rid)) ps then min (ic_ttlMs cfg) 60000 else ic_ttlMs cfg)"
    and "t < d"
  shows "\<not> snd (idem_reserve R cfg t sess rid bet' (foldl (idem_step R cfg) st' ps))"
proof -
  have life: "d \<le> t0 + ic_ttlMs cfg" using assms(4) by auto
  show ?thesis
    using reservation_store.at_most_once [OF redis_reservation_store [OF assms(1)], of cfg t0 "(sess, rid)" bet]
      assms(2) life quiet_events [OF assms(3,4)] assms(5) by simp
qed

text \<open>A Redis that is a map from keys to records and expiry times, failing at the times in \<open>down\<close>.\<close>

definition map_kv :: "(int \<Rightarrow> bool) \<Rightarrow> (string \<rightharpoonup> idem_record \<times> int) redis_kv" where
  "map_kv down =
     \<lparr>rk_setnx = (\<lambda>now k v ttl r.
        if down now then (r, Set_throws)
        else case r k of
               Some (w, e) \<Rightarrow> if now < e then (r, Set_nil) else (r(k \<mapsto> (v, now + ttl)), Set_OK)
             | None \<Rightarrow> (r(k \<mapsto> (v, now + ttl)), Set_OK)),
      rk_set = (\<lambda>now k v ttl r. if down now then (r, False) else (r(k \<mapsto> (v, now + ttl)), True)),
      rk_get = (\<lambda>now k r. if down now then None
        else Some (case r k of Some (w, e) \<Rightarrow> if now < e then Some w else None | None \<Rightarrow> None)),
      rk_del = (\<lambda>now k r. if down now then (r, False) else (r(k := None), True))\<rparr>"

lemma map_kv_laws: "redis_kv_laws (map_kv down) (\<lambda>k r. r k)"
  unfolding redis_kv_laws_def map_kv_def
  by (auto split: if_splits option.splits prod.splits)

definition ex_cfg :: idem_config where
  "ex_cfg = \<lparr>ic_ttlMs = 300000, ic_prefix = ''crash:''\<rparr>"

definition ex_rec :: "idem_status \<Rightarrow> idem_record" where
  "ex_rec status = \<lparr>ir_key = None, ir_status = status, ir_betId = Some ''b1'', ir_roundId = ''r'',
     ir_sessionId = ''s'', ir_createdAt = 0, ir_expiresAt = None, ir_result = None\<rparr>"

theorem one_reservation_per_round_witness:
  "\<not> snd (idem_reserve (map_kv (\<lambda>_. False)) ex_cfg 200000 ''s'' ''r'' ''b2''
       (idem_step (map_kv (\<lambda>_. False)) ex_cfg
          [''crash:idempotency:s:r'' \<mapsto> (ex_rec I_PENDING, 300000)]
          (IO_write 1000 ''s'' ''r'' (ex_rec I_COMPLETED) W_complete)))"
proof -
  let ?R = "map_kv (\<lambda>_. False)"
  have r: "idem_reserve ?R ex_cfg 0 ''s'' ''r'' ''b1'' (\<lambda>_. None) =
      ([''crash:idempotency:s:r'' \<mapsto> (ex_rec I_PENDING, 300000)], True)"
    by (simp add: idem_reserve_def map_kv_def idem_key_def generateKey_def ex_cfg_def ex_rec_def)
  let ?ps = "[IO_write 1000 ''s'' ''r'' (ex_rec I_COMPLETED) W_complete]"
  have a: "list_all (\<lambda>p. 0 \<le> io_time p \<and> io_time p < 300000 \<and> \<not> io_releases (''s'', ''r'') p) ?ps"
    by simp
  have d: "300000 = 0 + (if list_ex (io_fails (''s'', ''r'')) ?ps then min (ic_ttlMs ex_cfg) 60000 else ic_ttlMs ex_cfg)"
    by (simp add: ex_cfg_def)
  have t: "(200000 :: int) < 300000" by simp
  show ?thesis
    using one_reservation_per_round [OF map_kv_laws r a d t, of "''b2''"] unfolding foldl.simps .
qed

text \<open>The in-memory store excludes for five minutes, whatever the configured time to live.\<close>

lemma mi_one_reservation:
  assumes "mi_reserve t0 sess rid bet s = (s', True)" and "list_all (mi_quiet (sess, rid) (t0 + 300000)) ps"
    and "t < t0 + 300000"
  shows "\<not> snd (mi_reserve t sess rid bet' (foldl mi_step s' ps))"
  using mi.at_most_once [of t0 "(sess, rid)" bet s s' "t0 + 300000" ps t bet'] assms by simp

lemma redis_unknown_blocks:
  "\<not> snd (idem_reserve (map_kv (\<lambda>_. False)) ex_cfg 1800999 ''s'' ''r'' ''b2''
       (idem_markUnknown (map_kv (\<lambda>_. False)) ex_cfg 1000 id 1000 ''s'' ''r'' ''timeout''
          (fst (idem_reserve (map_kv (\<lambda>_. False)) ex_cfg 0 ''s'' ''r'' ''b1'' (\<lambda>_. None)))))"
  unfolding idem_markUnknown_def idem_update_def idem_write_def
  by (simp add: idem_reserve_def map_kv_def ex_cfg_def)

lemma memory_unknown_lapses:
  "snd (mi_reserve 300001 ''s'' ''r'' ''b2''
     (mi_cleanup 300001 (mi_markUnknown ''s'' ''r'' ''timeout'' (fst (mi_reserve 0 ''s'' ''r'' ''b1'' (\<lambda>_. None))))))"
  by (simp add: mi_reserve_def mi_cleanup_def mi_markUnknown_def mi_update_def Let_def del: not_None_eq)

text \<open>
  A round whose bet has an unknown outcome stays blocked for half an hour in Redis, but not in
  memory, where the expiry set by \<open>reserve\<close> is kept: after five minutes the clean-up drops
  the key and the round can be bet again.
\<close>

theorem unknown_outcome_blocks_only_in_redis:
  "(let R = map_kv (\<lambda>_. False);
        r1 = fst (idem_reserve R ex_cfg 0 ''s'' ''r'' ''b1'' (\<lambda>_. None));
        r2 = idem_markUnknown R ex_cfg 1000 id 1000 ''s'' ''r'' ''timeout'' r1
    in \<not> snd (idem_reserve R ex_cfg 1800999 ''s'' ''r'' ''b2'' r2)) \<and>
   (let s1 = fst (mi_reserve 0 ''s'' ''r'' ''b1'' (\<lambda>_. None));
        s2 = mi_cleanup 300001 (mi_markUnknown ''s'' ''r'' ''timeout'' s1)
    in snd (mi_reserve 300001 ''s'' ''r'' ''b2'' s2))"
  unfolding Let_def using redis_unknown_blocks memory_unknown_lapses by blast

text \<open>Keys identify the round, unless a session identifier contains a colon.\<close>

lemma append_colon_inj:
  "CHR '':'' \<notin> set a \<Longrightarrow> CHR '':'' \<notin> set c \<Longrightarrow> a @ '':'' @ b = c @ '':'' @ d \<longleftrightarrow> a = c \<and> b = d"
proof (induction a arbitrary: c)
  case Nil
  then show ?case by (cases c) auto
next
  case (Cons x a)
  then show ?case by (cases c) auto
qed

lemma generateKey_inj:
  "CHR '':'' \<notin> set a \<Longrightarrow> CHR '':'' \<notin> set c \<Longrightarrow> generateKey a b = generateKey c d \<longleftrightarrow> a = c \<and> b = d"
  unfolding generateKey_def by (rule append_colon_inj)

lemma generateKey_collision: "generateKey ''a:b'' ''c'' = generateKey ''a'' ''b:c''"
  by (simp add: generateKey_def)

end
