(* ===== verification/PnL.thy ===== *)
theory PnL
  imports JsNumber Prelude "HOL-Library.Sublist"
begin

text \<open>
  \<open>PnlCalculator\<close> of \<open>src/src/ledger/pnl-calculator.ts\<close>: summaries, equity curve, drawdown and the
  dry-run simulation. Loops are folds over a record of their local variables; the reference
  definitions against which they are proved are runs and suffixes of the list of outcomes.
\<close>

section \<open>Data\<close>

datatype bet_outcome = Win | Loss | Failed_bet | Unknown_bet

record pnl_entry =
  pe_betId :: string
  pe_roundId :: string
  pe_dailyKey :: string
  pe_stake :: jsnum
  pe_target :: jsnum
  pe_outcome :: bet_outcome
  pe_pnl :: jsnum
  pe_cashOutMultiplier :: "jsnum option"
  pe_timestamp :: int

record equity_point =
  ep_timestamp :: int
  ep_cumulativePnl :: jsnum
  ep_peakPnl :: jsnum
  ep_currentDrawdown :: jsnum
  ep_betId :: string

datatype streak_type = Streak_win | Streak_loss | Streak_none

record pnl_summary =
  pm_totalBets :: nat
  pm_wins :: nat
  pm_losses :: nat
  pm_failed :: nat
  pm_unknown :: nat
  pm_grossProfit :: jsnum
  pm_grossLoss :: jsnum
  pm_netPnl :: jsnum
  pm_hitRate :: jsnum
  pm_breakEvenHitRate :: jsnum
  pm_maxDrawdown :: jsnum
  pm_currentDrawdown :: jsnum
  pm_averageWin :: jsnum
  pm_averageLoss :: jsnum
  pm_expectedValue :: jsnum
  pm_winStreakMax :: nat
  pm_lossStreakMax :: nat
  pm_currentStreak :: nat
  pm_currentStreakType :: streak_type

record pnl_calc =
  pc_stake :: jsnum
  pc_target :: jsnum

definition pc_new :: "jsnum option \<Rightarrow> jsnum option \<Rightarrow> pnl_calc" where
  "pc_new stake target =
     \<lparr>pc_stake = (case stake of None \<Rightarrow> Fin 700 | Some s \<Rightarrow> s),
      pc_target = (case target of None \<Rightarrow> lit (13/10) | Some t \<Rightarrow> t)\<rparr>"

section \<open>Single bets\<close>

definition getBreakEvenHitRate :: "pnl_calc \<Rightarrow> jsnum" where
  "getBreakEvenHitRate c = jdiv (Fin 1) (pc_target c)"

definition calculateWinProfit :: "pnl_calc \<Rightarrow> jsnum" where
  "calculateWinProfit c = jmul (pc_stake c) (jsub (pc_target c) (Fin 1))"

definition calculateLoss :: "pnl_calc \<Rightarrow> jsnum" where
  "calculateLoss c = jneg (pc_stake c)"

definition calculateExpectedValue :: "pnl_calc \<Rightarrow> jsnum \<Rightarrow> jsnum" where
  "calculateExpectedValue c hitRate = jmul (pc_stake c) (jsub (jmul hitRate (pc_target c)) (Fin 1))"

section \<open>Equity curve and drawdown\<close>

definition settled :: "pnl_entry \<Rightarrow> bool" where
  "settled e \<longleftrightarrow> pe_outcome e = Win \<or> pe_outcome e = Loss"

text \<open>One turn of the three loops: the running profit and its peak.\<close>

definition equity_turn :: "pnl_entry \<Rightarrow> jsnum \<times> jsnum \<Rightarrow> jsnum \<times> jsnum" where
  "equity_turn e = (\<lambda>(cumulativePnl, peakPnl).
     let cumulativePnl = (if settled e then jadd cumulativePnl (pe_pnl e) else cumulativePnl)
     in (cumulativePnl, jmax peakPnl cumulativePnl))"

fun equity_loop :: "jsnum \<times> jsnum \<Rightarrow> pnl_entry list \<Rightarrow> equity_point list" where
  "equity_loop st [] = []"
| "equity_loop st (e # es) =
     (case equity_turn e st of
        (cumulativePnl, peakPnl) \<Rightarrow>
          \<lparr>ep_timestamp = pe_timestamp e, ep_cumulativePnl = cumulativePnl, ep_peakPnl = peakPnl,
           ep_currentDrawdown = jsub peakPnl cumulativePnl, ep_betId = pe_betId e\<rparr>
          # equity_loop (cumulativePnl, peakPnl) es)"

definition buildEquityCurve :: "pnl_entry list \<Rightarrow> equity_point list" where
  "buildEquityCurve entries = equity_loop (Fin 0, Fin 0) entries"

definition drawdown_turn :: "(jsnum \<times> jsnum) \<times> jsnum \<Rightarrow> pnl_entry \<Rightarrow> (jsnum \<times> jsnum) \<times> jsnum" where
  "drawdown_turn = (\<lambda>(st, maxDrawdown) e.
     case equity_turn e st of
       (cumulativePnl, peakPnl) \<Rightarrow>
         ((cumulativePnl, peakPnl), jmax maxDrawdown (jsub peakPnl cumulativePnl)))"

definition computeDrawdown :: "pnl_entry list \<Rightarrow> jsnum \<times> jsnum" where
  "computeDrawdown entries =
     (case foldl drawdown_turn ((Fin 0, Fin 0), Fin 0) entries of
        ((cumulativePnl, peakPnl), maxDrawdown) \<Rightarrow> (maxDrawdown, jsub peakPnl cumulativePnl))"

text \<open>\<open>Math.max(...xs)\<close> starts from minus infinity.\<close>

definition computeDrawdownFromCurve :: "equity_point list \<Rightarrow> jsnum \<times> jsnum" where
  "computeDrawdownFromCurve curve =
     (if curve = [] then (Fin 0, Fin 0)
      else (foldl jmax NInf (map ep_currentDrawdown curve), ep_currentDrawdown (last curve)))"

section \<open>Summaries\<close>

record pnl_acc =
  pa_wins :: nat
  pa_losses :: nat
  pa_failed :: nat
  pa_unknown :: nat
  pa_grossProfit :: jsnum
  pa_grossLoss :: jsnum
  pa_winStreakMax :: nat
  pa_lossStreakMax :: nat
  pa_currentWinStreak :: nat
  pa_currentLossStreak :: nat

definition pa_init :: pnl_acc where
  "pa_init = \<lparr>pa_wins = 0, pa_losses = 0, pa_failed = 0, pa_unknown = 0, pa_grossProfit = Fin 0,
     pa_grossLoss = Fin 0, pa_winStreakMax = 0, pa_lossStreakMax = 0, pa_currentWinStreak = 0,
     pa_currentLossStreak = 0\<rparr>"

definition summary_turn :: "pnl_acc \<Rightarrow> pnl_entry \<Rightarrow> pnl_acc" where
  "summary_turn a e =
     (case pe_outcome e of
        Win \<Rightarrow> a\<lparr>pa_wins := pa_wins a + 1, pa_grossProfit := jadd (pa_grossProfit a) (pe_pnl e),
                 pa_currentWinStreak := pa_currentWinStreak a + 1, pa_currentLossStreak := 0,
                 pa_winStreakMax := max (pa_winStreakMax a) (pa_currentWinStreak a + 1)\<rparr>
      | Loss \<Rightarrow> a\<lparr>pa_losses := pa_losses a + 1, pa_grossLoss := jadd (pa_grossLoss a) (pe_pnl e),
                  pa_currentLossStreak := pa_currentLossStreak a + 1, pa_currentWinStreak := 0,
                  pa_lossStreakMax := max (pa_lossStreakMax a) (pa_currentLossStreak a + 1)\<rparr>
      | Failed_bet \<Rightarrow> a\<lparr>pa_failed := pa_failed a + 1, pa_currentWinStreak := 0, pa_currentLossStreak := 0\<rparr>
      | Unknown_bet \<Rightarrow> a\<lparr>pa_unknown := pa_unknown a + 1, pa_currentWinStreak := 0, pa_currentLossStreak := 0\<rparr>)"

definition emptySummary :: "pnl_calc \<Rightarrow> pnl_summary" where
  "emptySummary c =
     \<lparr>pm_totalBets = 0, pm_wins = 0, pm_losses = 0, pm_failed = 0, pm_unknown = 0,
      pm_grossProfit = Fin 0, pm_grossLoss = Fin 0, pm_netPnl = Fin 0, pm_hitRate = Fin 0,
      pm_breakEvenHitRate = getBreakEvenHitRate c, pm_maxDrawdown = Fin 0, pm_currentDrawdown = Fin 0,
      pm_averageWin = Fin 0, pm_averageLoss = Fin 0, pm_expectedValue = Fin 0, pm_winStreakMax = 0,
      pm_lossStreakMax = 0, pm_currentStreak = 0, pm_currentStreakType = Streak_none\<rparr>"

definition jsnat :: "nat \<Rightarrow> jsnum" where
  "jsnat n = jsint (int n)"

definition computeSummary :: "pnl_calc \<Rightarrow> pnl_entry list \<Rightarrow> pnl_summary" where
  "computeSummary c entries =
     (if entries = [] then emptySummary c
      else
        let a = foldl summary_turn pa_init entries;
            hitRate = (if pa_wins a + pa_losses a > 0
                       then jdiv (jsnat (pa_wins a)) (jsnat (pa_wins a + pa_losses a)) else Fin 0);
            (maxDrawdown, currentDrawdown) = computeDrawdown entries
        in \<lparr>pm_totalBets = length entries, pm_wins = pa_wins a, pm_losses = pa_losses a,
            pm_failed = pa_failed a, pm_unknown = pa_unknown a,
            pm_grossProfit = pa_grossProfit a, pm_grossLoss = pa_grossLoss a,
            pm_netPnl = jadd (pa_grossProfit a) (pa_grossLoss a), pm_hitRate = hitRate,
            pm_breakEvenHitRate = getBreakEvenHitRate c,
            pm_maxDrawdown = maxDrawdown, pm_currentDrawdown = currentDrawdown,
            pm_averageWin = (if pa_wins a > 0 then jdiv (pa_grossProfit a) (jsnat (pa_wins a)) else Fin 0),
            pm_averageLoss = (if pa_losses a > 0 then jdiv (pa_grossLoss a) (jsnat (pa_losses a)) else Fin 0),
            pm_expectedValue = calculateExpectedValue c hitRate,
            pm_winStreakMax = pa_winStreakMax a, pm_lossStreakMax = pa_lossStreakMax a,
            pm_currentStreak = (if pa_currentWinStreak a > 0 then pa_currentWinStreak a
                                else pa_currentLossStreak a),
            pm_currentStreakType = (if pa_currentWinStreak a > 0 then Streak_win
                                    else if pa_currentLossStreak a > 0 then Streak_loss else Streak_none)\<rparr>)"

definition dry_run_entry :: "pnl_calc \<Rightarrow> int \<Rightarrow> nat \<Rightarrow> jsnum \<Rightarrow> pnl_entry" where
  "dry_run_entry c now i crashPoint =
     (let won = jle (pc_target c) crashPoint
      in \<lparr>pe_betId = ''dry-run-'' @ nat_str i, pe_roundId = ''dry-run-round-'' @ nat_str i,
          pe_dailyKey = ''dry-run'', pe_stake = pc_stake c, pe_target = pc_target c,
          pe_outcome = (if won then Win else Loss),
          pe_pnl = (if won then calculateWinProfit c else calculateLoss c),
          pe_cashOutMultiplier = (if won then Some (pc_target c) else None), pe_timestamp = now\<rparr>)"

definition simulateDryRun :: "pnl_calc \<Rightarrow> int \<Rightarrow> jsnum list \<Rightarrow> pnl_summary" where
  "simulateDryRun c now crashPoints =
     computeSummary c (map (\<lambda>(i, x). dry_run_entry c now i x) (enumerate 0 crashPoints))"

datatype pnl_error = Need_100_crash_points nat

definition simulate100Entries :: "pnl_calc \<Rightarrow> int \<Rightarrow> jsnum list \<Rightarrow> pnl_error + pnl_summary" where
  "simulate100Entries c now crashPoints =
     (let points = take 100 crashPoints
      in if length points < 100 then Inl (Need_100_crash_points (length points))
         else Inr (simulateDryRun c now points))"

definition computeRollingWindows ::
  "pnl_calc \<Rightarrow> pnl_entry list \<Rightarrow> nat list \<Rightarrow> (nat \<rightharpoonup> pnl_summary)" where
  "computeRollingWindows c entries windowSizes =
     foldl (\<lambda>results size.
        if length entries \<ge> size then results(size \<mapsto> computeSummary c (js_slice_last size entries))
        else results) (\<lambda>_. None) windowSizes"

section \<open>Streaks\<close>

definition longest_run :: "('a \<Rightarrow> bool) \<Rightarrow> 'a list \<Rightarrow> nat \<Rightarrow> bool" where
  "longest_run P xs n \<longleftrightarrow>
     (\<exists>ys. sublist ys xs \<and> list_all P ys \<and> length ys = n) \<and>
     (\<forall>ys. sublist ys xs \<and> list_all P ys \<longrightarrow> length ys \<le> n)"

definition final_run :: "('a \<Rightarrow> bool) \<Rightarrow> 'a list \<Rightarrow> nat" where
  "final_run P xs = length (takeWhile P (rev xs))"

lemma final_run_snoc: "final_run P (xs @ [x]) = (if P x then Suc (final_run P xs) else 0)"
  by (simp add: final_run_def)

lemma suffix_run_le: "suffix ys xs \<Longrightarrow> list_all P ys \<Longrightarrow> length ys \<le> final_run P xs"
proof (induction xs arbitrary: ys rule: rev_induct)
  case Nil
  then show ?case by simp
next
  case (snoc x xs)
  then show ?case by (auto simp: final_run_snoc)
qed

lemma final_run_witness: "\<exists>ys. suffix ys xs \<and> list_all P ys \<and> length ys = final_run P xs"
proof (induction xs rule: rev_induct)
  case Nil
  then show ?case by (simp add: final_run_def)
next
  case (snoc x xs)
  then obtain ys where "suffix ys xs" "list_all P ys" "length ys = final_run P xs" by blast
  then show ?case
    by (intro exI [of _ "if P x then ys @ [x] else []"]) (simp add: final_run_snoc)
qed

lemma longest_run_nil: "longest_run P [] 0"
  by (simp add: longest_run_def)

lemma longest_run_snoc:
  assumes "longest_run P xs n"
  shows "longest_run P (xs @ [x]) (if P x then max n (Suc (final_run P xs)) else n)"
proof -
  have le: "length ys \<le> (if P x then max n (Suc (final_run P xs)) else n)"
    if "sublist ys (xs @ [x])" "list_all P ys" for ys
  proof -
    from that(1) have "suffix ys (xs @ [x]) \<or> sublist ys xs" by (simp only: sublist_snoc)
    then show ?thesis
    proof
      assume "suffix ys (xs @ [x])"
      then have "length ys \<le> final_run P (xs @ [x])" using that(2) by (rule suffix_run_le)
      then show ?thesis by (auto simp: final_run_snoc split: if_splits)
    next
      assume "sublist ys xs"
      then show ?thesis using assms that(2) by (auto simp: longest_run_def)
    qed
  qed
  obtain ys where ys: "sublist ys xs" "list_all P ys" "length ys = n"
    using assms by (auto simp: longest_run_def)
  obtain zs where zs: "suffix zs xs" "list_all P zs" "length zs = final_run P xs"
    using final_run_witness by blast
  have "sublist ys (xs @ [x])" using ys(1) by (simp add: sublist_snoc)
  moreover have "sublist (zs @ [x]) (xs @ [x])" using zs(1) by (simp add: suffix_imp_sublist)
  ultimately have "\<exists>ws. sublist ws (xs @ [x]) \<and> list_all P ws \<and>
      length ws = (if P x then max n (Suc (final_run P xs)) else n)"
    using ys zs by (cases "P x \<and> n \<le> final_run P xs")
      (auto intro: exI [of _ "zs @ [x]"] exI [of _ ys])
  with le show ?thesis by (auto simp: longest_run_def)
qed

lemma summary_fold:
  "let a = foldl summary_turn pa_init es; os = map pe_outcome es in
     pa_currentWinStreak a = final_run (\<lambda>q. q = Win) os \<and>
     pa_currentLossStreak a = final_run (\<lambda>q. q = Loss) os \<and>
     longest_run (\<lambda>q. q = Win) os (pa_winStreakMax a) \<and>
     longest_run (\<lambda>q. q = Loss) os (pa_lossStreakMax a) \<and>
     pa_wins a = length (filter (\<lambda>q. q = Win) os) \<and> pa_losses a = length (filter (\<lambda>q. q = Loss) os) \<and>
     pa_wins a + pa_losses a + pa_failed a + pa_unknown a = length es"
proof (induction es rule: rev_induct)
  case Nil
  then show ?case by (simp add: pa_init_def final_run_def longest_run_nil)
next
  case (snoc e es)
  obtain a where a: "foldl summary_turn pa_init es = a" by simp
  note w = longest_run_snoc [of "\<lambda>q. q = Win" "map pe_outcome es" "pa_winStreakMax a" "pe_outcome e"]
  note l = longest_run_snoc [of "\<lambda>q. q = Loss" "map pe_outcome es" "pa_lossStreakMax a" "pe_outcome e"]
  have step: "foldl summary_turn pa_init (es @ [e]) = summary_turn a e" by (simp add: a)
  from snoc [unfolded a] w l show ?case
    unfolding step
    by (cases "pe_outcome e") (simp_all add: Let_def summary_turn_def final_run_snoc)
qed

text \<open>
  The streak counters are what their names say: the longest winning (losing) streak is the length
  of a longest run of consecutive wins (losses), the current streak is the run of equal
  results at the end of the list, and the four counts add up to the number of bets.
\<close>

theorem summary_counts_and_streaks:
  "let s = computeSummary c es; os = map pe_outcome es in
     longest_run (\<lambda>q. q = Win) os (pm_winStreakMax s) \<and>
     longest_run (\<lambda>q. q = Loss) os (pm_lossStreakMax s) \<and>
     pm_currentStreak s = max (final_run (\<lambda>q. q = Win) os) (final_run (\<lambda>q. q = Loss) os) \<and>
     (pm_currentStreakType s = Streak_win) = (os \<noteq> [] \<and> last os = Win) \<and>
     (pm_currentStreakType s = Streak_loss) = (os \<noteq> [] \<and> last os = Loss) \<and>
     pm_wins s = length (filter (\<lambda>q. q = Win) os) \<and> pm_losses s = length (filter (\<lambda>q. q = Loss) os) \<and>
     pm_wins s + pm_losses s + pm_failed s + pm_unknown s = pm_totalBets s \<and> pm_totalBets s = length es"
proof (cases es rule: rev_cases)
  case Nil
  then show ?thesis
    by (simp add: computeSummary_def emptySummary_def longest_run_nil final_run_def Let_def)
next
  case (snoc xs e)
  obtain d where "computeDrawdown es = d" by simp
  then show ?thesis
    using snoc summary_fold [of es] by (cases d; cases "pe_outcome e")
      (simp_all add: computeSummary_def Let_def final_run_snoc)
qed

section \<open>Drawdown\<close>

definition equity_end :: "jsnum \<times> jsnum \<Rightarrow> pnl_entry list \<Rightarrow> jsnum \<times> jsnum" where
  "equity_end st es = foldl (\<lambda>st e. equity_turn e st) st es"

definition gap :: "jsnum \<times> jsnum \<Rightarrow> jsnum" where
  "gap st = jsub (snd st) (fst st)"

lemma drawdown_fold:
  "foldl drawdown_turn (st, m) es =
     (equity_end st es, foldl jmax m (map ep_currentDrawdown (equity_loop st es)))"
  by (induction es arbitrary: st m)
    (auto simp: equity_end_def drawdown_turn_def split: prod.split)

lemma last_gap:
  "es \<noteq> [] \<Longrightarrow> ep_currentDrawdown (last (equity_loop st es)) = gap (equity_end st es)"
proof (induction es arbitrary: st)
  case Nil
  then show ?case by simp
next
  case (Cons e es)
  have "equity_loop (equity_turn e st) es = [] \<longleftrightarrow> es = []"
    by (cases es) (auto split: prod.split)
  with Cons show ?case
    by (cases "es = []") (auto simp: equity_end_def gap_def split: prod.split)
qed

lemma curve_Nil_iff [simp]: "equity_loop st es = [] \<longleftrightarrow> es = []"
  by (cases es) (auto split: prod.split)

lemma computeDrawdown_eq:
  "computeDrawdown es =
     (foldl jmax (Fin 0) (map ep_currentDrawdown (buildEquityCurve es)), gap (equity_end (Fin 0, Fin 0) es))"
  by (simp add: computeDrawdown_def drawdown_fold buildEquityCurve_def gap_def split: prod.split)

lemma jle_jmax: "jmax a b \<noteq> NaN \<Longrightarrow> jle a (jmax a b) \<and> jle b (jmax a b)"
  by (cases a; cases b) (auto simp: jmax_def jle_def)

lemma jmax_NInf [simp]: "jmax NInf d = d"
  by (cases d) (simp_all add: jmax_def)

lemma jmax_zero: "d = NaN \<or> jle (Fin 0) d \<Longrightarrow> jmax (Fin 0) d = d"
  by (cases d) (auto simp: jmax_def jle_def)

lemma gap_turn: "gap (equity_turn e st) = NaN \<or> jle (Fin 0) (gap (equity_turn e st))"
proof -
  obtain c p where st: "equity_turn e st = (c, p)" by (cases "equity_turn e st")
  then have p: "p = NaN \<or> jle c p"
    using jle_jmax [of "snd st" c] by (auto simp: equity_turn_def Let_def split: prod.splits)
  have "jsub p c = NaN \<or> jle (Fin 0) (jsub p c)"
    using p by (cases p; cases c) (auto simp: jsub_def intro: rnd_nonneg, auto simp: jle_def)
  with st show ?thesis by (simp add: gap_def)
qed

lemma curve_gaps: "d \<in> set (map ep_currentDrawdown (equity_loop st es)) \<Longrightarrow> d = NaN \<or> jle (Fin 0) d"
proof (induction es arbitrary: st)
  case Nil
  then show ?case by simp
next
  case (Cons e es)
  obtain c p where "equity_turn e st = (c, p)" by (cases "equity_turn e st")
  with Cons gap_turn [of e st] show ?case by (auto simp: gap_def)
qed

text \<open>
  The two computations of the drawdown agree: the one that folds over the bets and the one that reads
  it off the equity curve give the same maximum and the same current value, on every list of
  bets, also when amounts overflow or are not numbers.
\<close>

theorem drawdown_from_curve:
  "computeDrawdownFromCurve (buildEquityCurve es) = computeDrawdown es"
proof (cases es)
  case Nil
  then show ?thesis
    by (simp add: computeDrawdownFromCurve_def buildEquityCurve_def computeDrawdown_def)
next
  case (Cons e es')
  obtain d ds where dds: "map ep_currentDrawdown (buildEquityCurve es) = d # ds"
    using Cons by (cases "map ep_currentDrawdown (buildEquityCurve es)")
      (simp_all add: buildEquityCurve_def del: equity_loop.simps)
  then have "d = NaN \<or> jle (Fin 0) d"
    using curve_gaps [of d "(Fin 0, Fin 0)" es] unfolding buildEquityCurve_def by auto
  then have "foldl jmax NInf (d # ds) = foldl jmax (Fin 0) (d # ds)"
    by (simp add: jmax_zero)
  with dds Cons last_gap [of es "(Fin 0, Fin 0)"] show ?thesis
    by (simp add: computeDrawdown_eq computeDrawdownFromCurve_def buildEquityCurve_def del: equity_loop.simps)
qed

lemma foldl_jmax_NaN: "foldl jmax NaN ds = NaN"
  by (induction ds) (simp_all add: jmax_def)

lemma foldl_jmax_ge:
  "foldl jmax m ds \<noteq> NaN \<Longrightarrow> jle m (foldl jmax m ds) \<and> (\<forall>d \<in> set ds. jle d (foldl jmax m ds))"
proof (induction ds arbitrary: m)
  case Nil
  then show ?case by simp
next
  case (Cons d ds)
  then have "jmax m d \<noteq> NaN" using foldl_jmax_NaN [of ds] by auto
  with Cons jle_jmax [of m d] show ?case by (auto intro: jle_trans)
qed

text \<open>
  Drawdowns are bounded: whenever the maximum is a number, the current drawdown lies between zero and
  it, and so does the drawdown of every point of the equity curve.
\<close>

theorem drawdown_bounds:
  assumes "fst (computeDrawdown es) \<noteq> NaN"
  shows "jle (Fin 0) (snd (computeDrawdown es)) \<and> jle (snd (computeDrawdown es)) (fst (computeDrawdown es)) \<and>
         list_all (\<lambda>p. jle (Fin 0) (ep_currentDrawdown p) \<and>
           jle (ep_currentDrawdown p) (fst (computeDrawdown es))) (buildEquityCurve es)"
proof -
  have all: "jle (Fin 0) d \<and> jle d (fst (computeDrawdown es))"
    if "d \<in> set (map ep_currentDrawdown (buildEquityCurve es))" for d
    using that assms foldl_jmax_ge [of "Fin 0" "map ep_currentDrawdown (buildEquityCurve es)"]
      curve_gaps [of d "(Fin 0, Fin 0)" es] jle_not_NaN [of d]
    by (auto simp: computeDrawdown_eq buildEquityCurve_def)
  have "jle (Fin 0) (snd (computeDrawdown es)) \<and> jle (snd (computeDrawdown es)) (fst (computeDrawdown es))"
  proof (cases "es = []")
    case True
    then show ?thesis by (simp add: computeDrawdown_def)
  next
    case False
    then have "snd (computeDrawdown es) = ep_currentDrawdown (last (buildEquityCurve es))"
      using last_gap [OF False, of "(Fin 0, Fin 0)"] by (simp add: computeDrawdown_eq buildEquityCurve_def)
    with False all show ?thesis by (simp add: buildEquityCurve_def)
  qed
  with all show ?thesis by (auto simp: list_all_iff)
qed

definition ex_bet :: "bet_outcome \<Rightarrow> jsnum \<Rightarrow> pnl_entry" where
  "ex_bet q p = \<lparr>pe_betId = ''b'', pe_roundId = ''r'', pe_dailyKey = ''d'', pe_stake = Fin 700,
     pe_target = Fin 2, pe_outcome = q, pe_pnl = p, pe_cashOutMultiplier = None, pe_timestamp = 0\<rparr>"

theorem drawdown_bounds_witness:
  "jle (snd (computeDrawdown [ex_bet Loss (Fin (- 700))])) (fst (computeDrawdown [ex_bet Loss (Fin (- 700))]))"
proof -
  have "rnd (- 700) = Fin (- 700)" using rnd_of_int [of "- 700"] by simp
  then have "fst (computeDrawdown [ex_bet Loss (Fin (- 700))]) \<noteq> NaN"
    by (simp add: computeDrawdown_def drawdown_turn_def equity_turn_def settled_def ex_bet_def)
  from drawdown_bounds [OF this] show ?thesis by blast
qed

text \<open>The counts of a simulated run are those of the crash points that reach the target.\<close>

lemma dry_run_outcomes:
  "map pe_outcome (map (\<lambda>(i, x). dry_run_entry c now i x) (enumerate n xs)) =
     map (\<lambda>x. if jle (pc_target c) x then Win else Loss) xs"
  by (induction xs arbitrary: n) (simp_all add: dry_run_entry_def Let_def)

lemma dry_run_wins:
  "pm_wins (simulateDryRun c now xs) = length (filter (jle (pc_target c)) xs) \<and>
   pm_losses (simulateDryRun c now xs) = length (filter (\<lambda>x. \<not> jle (pc_target c) x) xs)"
proof -
  let ?es = "map (\<lambda>(i, x). dry_run_entry c now i x) (enumerate 0 xs)"
  have os: "map pe_outcome ?es = map (\<lambda>x. if jle (pc_target c) x then Win else Loss) xs"
    by (rule dry_run_outcomes)
  have "pm_wins (computeSummary c ?es) = length (filter (\<lambda>q. q = Win) (map pe_outcome ?es))"
    "pm_losses (computeSummary c ?es) = length (filter (\<lambda>q. q = Loss) (map pe_outcome ?es))"
    using summary_fold [of ?es]
    by (auto simp: computeSummary_def emptySummary_def Let_def split: prod.split)
  then show ?thesis
    unfolding simulateDryRun_def os by (simp add: filter_map comp_def if_distrib cong: if_cong)
qed

end
