(* ===== verification/BalanceTracker.thy ===== *)
theory BalanceTracker
  imports JsNumber Prelude CircuitBreaker
begin

text \<open>
  \<open>BalanceTracker\<close> and \<open>resolveBestBalance\<close> of \<open>src/src/ledger/balance-tracker.ts\<close>. Timestamps are
  their epoch milliseconds; the texts of the results are determined by their other fields.
\<close>

datatype balance_source = BS_ui | BS_api | BS_websocket | BS_estimated

record balance_snapshot =
  bs_timestamp :: int
  bs_balance :: jsnum
  bs_currencyOrUnit :: string
  bs_source :: balance_source
  bs_roundId :: "string option"
  bs_betId :: "string option"
  bs_sessionId :: "string option"

record balance_tracker =
  bt_snapshots :: "balance_snapshot list"
  bt_maxHistorySize :: nat
  bt_tolerance :: jsnum
  bt_lastKnownBalance :: "jsnum option"
  bt_lastKnownSource :: "balance_source option"
  bt_unparseable :: bool

record balance_reconciliation =
  br_matched :: bool
  br_observedBalance :: jsnum
  br_expectedBalance :: jsnum
  br_difference :: jsnum
  br_withinTolerance :: bool
  br_tolerance :: jsnum

definition bt_new :: "nat option \<Rightarrow> jsnum option \<Rightarrow> balance_tracker" where
  "bt_new maxHistorySize tolerance =
     \<lparr>bt_snapshots = [], bt_maxHistorySize = or_else maxHistorySize 1000,
      bt_tolerance = or_else tolerance (lit (1/100)), bt_lastKnownBalance = None,
      bt_lastKnownSource = None, bt_unparseable = False\<rparr>"

definition bt_record :: "balance_snapshot \<Rightarrow> balance_tracker \<Rightarrow> balance_tracker" where
  "bt_record s t =
     (let t1 = t\<lparr>bt_snapshots := bt_snapshots t @ [s], bt_lastKnownBalance := Some (bs_balance s),
                 bt_lastKnownSource := Some (bs_source s), bt_unparseable := False\<rparr>
      in if length (bt_snapshots t1) > bt_maxHistorySize t1
         then t1\<lparr>bt_snapshots := js_slice_last (bt_maxHistorySize t1) (bt_snapshots t1)\<rparr> else t1)"

definition getLatestSnapshot :: "balance_tracker \<Rightarrow> balance_snapshot option" where
  "getLatestSnapshot t = (if bt_snapshots t = [] then None else Some (last (bt_snapshots t)))"

definition getConservativeBalance :: "jsnum \<Rightarrow> balance_tracker \<Rightarrow> jsnum option" where
  "getConservativeBalance buffer t =
     (case bt_lastKnownBalance t of
        None \<Rightarrow> None
      | Some b \<Rightarrow> if bt_unparseable t then None else Some (jmax (Fin 0) (jsub b buffer)))"

definition markUnparseable :: "balance_tracker \<Rightarrow> balance_tracker" where
  "markUnparseable t = t\<lparr>bt_unparseable := True\<rparr>"

definition clearUnparseable :: "balance_tracker \<Rightarrow> balance_tracker" where
  "clearUnparseable t = t\<lparr>bt_unparseable := False\<rparr>"

definition getSnapshotsInRange :: "int \<Rightarrow> int \<Rightarrow> balance_tracker \<Rightarrow> balance_snapshot list" where
  "getSnapshotsInRange start finish t =
     filter (\<lambda>s. start \<le> bs_timestamp s \<and> bs_timestamp s \<le> finish) (bt_snapshots t)"

definition getSnapshotBefore :: "int \<Rightarrow> balance_tracker \<Rightarrow> balance_snapshot option" where
  "getSnapshotBefore ts t =
     (let before = filter (\<lambda>s. bs_timestamp s < ts) (bt_snapshots t)
      in if length before > 0 then Some (before ! (length before - 1)) else None)"

definition getSnapshotAfter :: "int \<Rightarrow> balance_tracker \<Rightarrow> balance_snapshot option" where
  "getSnapshotAfter ts t =
     (let after = filter (\<lambda>s. bs_timestamp s > ts) (bt_snapshots t)
      in if length after > 0 then Some (after ! 0) else None)"

definition bt_reconcile :: "jsnum \<Rightarrow> jsnum \<Rightarrow> balance_tracker \<Rightarrow> balance_reconciliation" where
  "bt_reconcile observed expected t =
     (let difference = jsub observed expected;
          withinTolerance = jle (jabs difference) (bt_tolerance t)
      in \<lparr>br_matched = withinTolerance, br_observedBalance = observed, br_expectedBalance = expected,
          br_difference = difference, br_withinTolerance = withinTolerance, br_tolerance = bt_tolerance t\<rparr>)"

definition reconcileWithLatest :: "jsnum \<Rightarrow> balance_tracker \<Rightarrow> balance_reconciliation option" where
  "reconcileWithLatest observed t =
     (case getLatestSnapshot t of
        None \<Rightarrow> None
      | Some latest \<Rightarrow> Some (bt_reconcile observed (bs_balance latest) t))"

definition calculateExpectedBalance :: "jsnum \<Rightarrow> jsnum \<Rightarrow> jsnum option \<Rightarrow> jsnum" where
  "calculateExpectedBalance balanceBefore stake pnl =
     (case pnl of None \<Rightarrow> balanceBefore | Some p \<Rightarrow> jadd balanceBefore p)"

record anomaly =
  an_anomaly :: bool
  an_expectedChange :: jsnum
  an_actualChange :: jsnum
  an_unexplained :: jsnum

definition detectAnomaly ::
  "balance_snapshot \<Rightarrow> balance_snapshot \<Rightarrow> jsnum list \<Rightarrow> balance_tracker \<Rightarrow> anomaly" where
  "detectAnomaly previous current knownPnls t =
     (let expectedChange = foldl jadd (Fin 0) knownPnls;
          actualChange = jsub (bs_balance current) (bs_balance previous);
          unexplained = jsub actualChange expectedChange
      in \<lparr>an_anomaly = jlt (bt_tolerance t) (jabs unexplained), an_expectedChange = expectedChange,
          an_actualChange = actualChange, an_unexplained = unexplained\<rparr>)"

datatype trend = Up | Down | Flat

definition getTrend :: "nat \<Rightarrow> balance_tracker \<Rightarrow> trend \<times> jsnum" where
  "getTrend snapshotCount t =
     (let recent = js_slice_last snapshotCount (bt_snapshots t)
      in if length recent < 2 then (Flat, Fin 0)
         else
           let totalChange = foldl (\<lambda>sum (cur, prev). jadd sum (jsub (bs_balance cur) (bs_balance prev)))
                 (Fin 0) (zip (tl recent) recent);
               averageChange = jdiv totalChange (jsint (int (length recent) - 1));
               threshold = bt_tolerance t
           in (if jlt threshold averageChange then Up
               else if jlt averageChange (jneg threshold) then Down else Flat, averageChange))"

definition bt_clear :: "balance_tracker \<Rightarrow> balance_tracker" where
  "bt_clear t = t\<lparr>bt_snapshots := [], bt_lastKnownBalance := None, bt_lastKnownSource := None\<rparr>"

definition getHistorySize :: "balance_tracker \<Rightarrow> nat" where
  "getHistorySize t = length (bt_snapshots t)"

definition BALANCE_SOURCE_PRIORITY :: "balance_source list" where
  "BALANCE_SOURCE_PRIORITY = [BS_api, BS_websocket, BS_ui, BS_estimated]"

fun resolve_in :: "balance_source list \<Rightarrow> (balance_source \<rightharpoonup> jsnum) \<Rightarrow> (jsnum \<times> balance_source) option" where
  "resolve_in [] sources = None"
| "resolve_in (s # ss) sources =
     (case sources s of
        Some v \<Rightarrow> if v \<noteq> NaN then Some (v, s) else resolve_in ss sources
      | None \<Rightarrow> resolve_in ss sources)"

definition resolveBestBalance :: "(balance_source \<rightharpoonup> jsnum) \<Rightarrow> (jsnum \<times> balance_source) option" where
  "resolveBestBalance = resolve_in BALANCE_SOURCE_PRIORITY"

section \<open>The history and the last known balance\<close>

datatype bt_op = BT_record balance_snapshot | BT_unparseable | BT_clear_unparseable | BT_clear

fun bt_step :: "balance_tracker \<Rightarrow> bt_op \<Rightarrow> balance_tracker" where
  "bt_step t (BT_record s) = bt_record s t"
| "bt_step t BT_unparseable = markUnparseable t"
| "bt_step t BT_clear_unparseable = clearUnparseable t"
| "bt_step t BT_clear = bt_clear t"

definition bt_inv :: "nat \<Rightarrow> balance_tracker \<Rightarrow> bool" where
  "bt_inv n t \<longleftrightarrow> bt_maxHistorySize t = n \<and> length (bt_snapshots t) \<le> n \<and>
     bt_lastKnownBalance t = map_option bs_balance (getLatestSnapshot t) \<and>
     bt_lastKnownSource t = map_option bs_source (getLatestSnapshot t)"

lemma bt_record_inv:
  assumes "bt_inv (Suc n) t"
  shows "bt_inv (Suc n) (bt_record s t)"
  using assms last_js_slice_last [of "bt_snapshots t @ [s]" "Suc n"] length_js_slice_last [of "Suc n" "bt_snapshots t @ [s]"]
  by (auto simp: bt_inv_def bt_record_def getLatestSnapshot_def Let_def)

lemma bt_step_inv: "bt_inv (Suc n) t \<Longrightarrow> bt_inv (Suc n) (bt_step t p)"
  using bt_record_inv
  by (cases p) (auto simp: markUnparseable_def clearUnparseable_def bt_clear_def, auto simp: bt_inv_def getLatestSnapshot_def)

interpretation bt: started bt_step "bt_inv (Suc n)" "bt_new (Some (Suc n)) tol"
  by unfold_locales (rule bt_step_inv, assumption, simp add: bt_inv_def bt_new_def getLatestSnapshot_def)

text \<open>
  The history never exceeds its configured size (at least one), and after any sequence of
  operations the last known balance and its source are those of the newest snapshot kept, or
  unknown when there is none.
\<close>

theorem history_bounded_and_current:
  "let t = foldl bt_step (bt_new (Some (Suc n)) tol) ps in
     getHistorySize t \<le> Suc n \<and>
     bt_lastKnownBalance t = map_option bs_balance (getLatestSnapshot t) \<and>
     bt_lastKnownSource t = map_option bs_source (getLatestSnapshot t)"
  using bt.reachable_inv [of n tol ps] by (simp add: bt_inv_def getHistorySize_def Let_def)

text \<open>
  The balance offered for entry decisions is conservative: it is given only when a balance was read
  and its last reading was not marked unparseable, it is never negative, and with a buffer it
  is not above the last known balance.
\<close>

theorem conservative_balance_bounds:
  assumes "getConservativeBalance buffer t = Some v" and "bt_lastKnownBalance t = Some (Fin b)"
    and "rnd b = Fin b" and "0 \<le> b" and "buffer = Fin f" and "0 \<le> f"
  shows "\<not> bt_unparseable t \<and> jle (Fin 0) v \<and> jle v (Fin b)"
proof -
  from assms(1,2,5) have v: "v = jmax (Fin 0) (rnd (b - f))" "\<not> bt_unparseable t"
    by (auto simp: getConservativeBalance_def split: if_splits)
  have le: "jle (rnd (b - f)) (Fin b)" using fl.diff_le [OF assms(6,3)] .
  have "jle (Fin 0) v \<and> jle v (Fin b)"
    using le assms(4) unfolding v(1)
    by (cases "rnd (b - f)") (auto simp: jmax_def jle_def split: if_splits)
  with v(2) show ?thesis by simp
qed

definition ex_snapshot :: "jsnum \<Rightarrow> balance_snapshot" where
  "ex_snapshot b = \<lparr>bs_timestamp = 0, bs_balance = b, bs_currencyOrUnit = ''NGN'', bs_source = BS_api,
     bs_roundId = None, bs_betId = None, bs_sessionId = None\<rparr>"

theorem conservative_balance_bounds_witness:
  "jle (Fin 0) (Fin 300) \<and> getConservativeBalance (Fin 700)
     (bt_record (ex_snapshot (Fin 1000)) (bt_new None None)) = Some (Fin 300)"
proof -
  let ?t = "bt_record (ex_snapshot (Fin 1000)) (bt_new None None)"
  have g: "getConservativeBalance (Fin 700) ?t = Some (Fin 300)" and k: "bt_lastKnownBalance ?t = Some (Fin 1000)"
    by (simp_all add: getConservativeBalance_def bt_record_def bt_new_def ex_snapshot_def Let_def)
  from conservative_balance_bounds [OF g k] g show ?thesis by simp
qed

text \<open>The first source in the order of priority that has a number wins.\<close>

lemma resolve_in_find:
  "resolve_in ss sources =
     (case find (\<lambda>s. sources s \<notin> {None, Some NaN}) ss of
        None \<Rightarrow> None
      | Some s \<Rightarrow> Some (the (sources s), s))"
  by (induction ss) (auto split: option.split)

lemma find_SomeD: "find P xs = Some x \<Longrightarrow> P x"
  by (induction xs) (auto split: if_splits)

lemma resolveBestBalance_None:
  "resolveBestBalance sources = None \<longleftrightarrow> (\<forall>s. sources s \<in> {None, Some NaN})"
proof -
  have "s \<in> set BALANCE_SOURCE_PRIORITY" for s
    by (cases s) (simp_all add: BALANCE_SOURCE_PRIORITY_def)
  then show ?thesis
    by (auto simp: resolveBestBalance_def resolve_in_find find_None_iff split: option.splits dest!: find_SomeD)
qed

end
