(* ===== verification/Reconciliation.thy ===== *)
theory Reconciliation
  imports JsNumber CircuitBreaker
begin

text \<open>
  \<open>ReconciliationEngine\<close> of \<open>src/src/ledger/reconciliation.ts\<close>: which evidence settles a bet
  of unknown outcome, and what the operator's override records.
\<close>

datatype rec_resolution = Rec_CASHED_OUT | Rec_LOST | Rec_FAILED | Rec_UNKNOWN

datatype rec_source = From_balance | From_round_history | From_game_api | From_manual

datatype rec_reason =
    Api_confirms_cash_out | Api_confirms_no_cash_out
  | Balance_matches_win | Balance_matches_loss | Balance_shows_no_movement
  | Insufficient_evidence
  | Manual_override string string

record evidence =
  ev_crashPoint :: "jsnum option"
  ev_balanceBefore :: "jsnum option"
  ev_balanceAfter :: "jsnum option"
  ev_gameApiShowsCashOut :: "bool option"
  ev_gameApiMultiplier :: "jsnum option"
  ev_balanceDeltaIsolated :: "bool option"
  ev_externalReference :: "string option"

record rec_result =
  rx_betId :: string
  rx_resolution :: rec_resolution
  rx_pnl :: "jsnum option"
  rx_cashOutMultiplier :: "jsnum option"
  rx_reason :: rec_reason
  rx_source :: rec_source
  rx_manualOverride :: bool

record override_request =
  or_betId :: string
  or_targetState :: rec_resolution
  or_pnl :: "jsnum option"
  or_cashOutMultiplier :: "jsnum option"
  or_reason :: string
  or_operatorId :: string

definition buildResult ::
  "string \<Rightarrow> rec_resolution \<Rightarrow> jsnum option \<Rightarrow> jsnum option \<Rightarrow> rec_reason \<Rightarrow> rec_source \<Rightarrow> rec_result" where
  "buildResult betId res pnl mult why src =
     \<lparr>rx_betId = betId, rx_resolution = res, rx_pnl = pnl, rx_cashOutMultiplier = mult,
      rx_reason = why, rx_source = src, rx_manualOverride = False\<rparr>"

text \<open>\<open>Math.abs(a - b) < 0.01\<close>.\<close>

definition within_cent :: "jsnum \<Rightarrow> jsnum \<Rightarrow> bool" where
  "within_cent a b \<longleftrightarrow> jlt (jabs (jsub a b)) (lit (1/100))"

definition isolated_change :: "evidence \<Rightarrow> jsnum option" where
  "isolated_change ev =
     (if ev_balanceDeltaIsolated ev = Some True then
        case (ev_balanceBefore ev, ev_balanceAfter ev) of
          (Some before, Some after) \<Rightarrow> Some (jsub after before)
        | _ \<Rightarrow> None
      else None)"

definition rec_reconcile :: "string \<Rightarrow> jsnum \<Rightarrow> jsnum \<Rightarrow> evidence \<Rightarrow> rec_result" where
  "rec_reconcile betId stake target ev =
     (let inconclusive = buildResult betId Rec_UNKNOWN None None Insufficient_evidence From_round_history;
          by_balance =
            (case isolated_change ev of
               None \<Rightarrow> inconclusive
             | Some actualChange \<Rightarrow>
                 let expectedWin = jmul stake (jsub target (Fin 1));
                     expectedLoss = jneg stake
                 in if within_cent actualChange expectedWin then
                      buildResult betId Rec_CASHED_OUT (Some expectedWin) (Some target) Balance_matches_win From_balance
                    else if within_cent actualChange expectedLoss then
                      buildResult betId Rec_LOST (Some expectedLoss) None Balance_matches_loss From_balance
                    else if jlt (jabs actualChange) (lit (1/100)) then
                      buildResult betId Rec_FAILED (Some (Fin 0)) None Balance_shows_no_movement From_balance
                    else inconclusive)
      in case (ev_gameApiShowsCashOut ev, ev_gameApiMultiplier ev) of
           (Some True, Some mult) \<Rightarrow>
             buildResult betId Rec_CASHED_OUT (Some (jmul stake (jsub mult (Fin 1)))) (Some mult)
               Api_confirms_cash_out From_game_api
         | (Some False, _) \<Rightarrow> buildResult betId Rec_LOST None None Api_confirms_no_cash_out From_game_api
         | _ \<Rightarrow> by_balance)"

definition applyManualOverride :: "override_request \<Rightarrow> rec_result" where
  "applyManualOverride q =
     \<lparr>rx_betId = or_betId q, rx_resolution = or_targetState q,
      rx_pnl = (if or_targetState q = Rec_CASHED_OUT then Some (or_else (or_pnl q) (Fin 0))
                else if or_targetState q = Rec_LOST then Some (or_else (or_pnl q) (Fin 0)) else None),
      rx_cashOutMultiplier = (if or_targetState q = Rec_CASHED_OUT then or_cashOutMultiplier q else None),
      rx_reason = Manual_override (or_operatorId q) (or_reason q), rx_source = From_manual,
      rx_manualOverride = True\<rparr>"

definition canAutoReconcile :: "evidence \<Rightarrow> bool" where
  "canAutoReconcile ev \<longleftrightarrow>
     (if ev_gameApiShowsCashOut ev = Some True \<and> ev_gameApiMultiplier ev \<noteq> None then True
      else if ev_gameApiShowsCashOut ev = Some False then True
      else case isolated_change ev of
             Some change \<Rightarrow> jlt (lit (1/100)) (jabs change)
           | None \<Rightarrow> False)"

section \<open>Properties\<close>

text \<open>
  Only authority settles an unknown bet: a resolution other than \<open>UNKNOWN\<close> comes either from an
  explicit answer of the game API or from a balance change isolated to this bet, never from
  the crash point or an external reference.
\<close>

theorem only_authority_settles:
  assumes "rx_resolution (rec_reconcile betId stake target ev) \<noteq> Rec_UNKNOWN"
  shows "(ev_gameApiShowsCashOut ev = Some True \<and> ev_gameApiMultiplier ev \<noteq> None) \<or>
         ev_gameApiShowsCashOut ev = Some False \<or>
         (ev_balanceDeltaIsolated ev = Some True \<and> ev_balanceBefore ev \<noteq> None \<and> ev_balanceAfter ev \<noteq> None)"
  using assms
  by (auto simp: rec_reconcile_def buildResult_def isolated_change_def Let_def
      split: option.splits bool.splits if_splits)

definition ex_evidence :: "bool option \<Rightarrow> jsnum option \<Rightarrow> jsnum option \<Rightarrow> evidence" where
  "ex_evidence api before after =
     \<lparr>ev_crashPoint = Some (Fin 5), ev_balanceBefore = before, ev_balanceAfter = after,
      ev_gameApiShowsCashOut = api, ev_gameApiMultiplier = None,
      ev_balanceDeltaIsolated = Some True, ev_externalReference = None\<rparr>"

theorem only_authority_settles_witness:
  "rx_resolution (rec_reconcile ''b'' (Fin 700) (Fin 2) (ex_evidence (Some False) None None)) = Rec_LOST \<and>
   ev_gameApiShowsCashOut (ex_evidence (Some False) None None) = Some False"
proof -
  have r: "rx_resolution (rec_reconcile ''b'' (Fin 700) (Fin 2) (ex_evidence (Some False) None None)) \<noteq> Rec_UNKNOWN"
    by (simp add: rec_reconcile_def buildResult_def ex_evidence_def Let_def)
  from only_authority_settles [OF r] show ?thesis
    by (simp add: rec_reconcile_def buildResult_def ex_evidence_def Let_def)
qed

text \<open>
  The pre-check \<open>canAutoReconcile\<close> disagrees with the engine in both directions. An isolated change of 100 on
  a stake of 700 at target 2 passes the check but stays \<open>UNKNOWN\<close>, and no change at all is
  resolved as \<open>FAILED\<close> although the check refuses it.
\<close>

theorem auto_reconcile_check_disagrees:
  "canAutoReconcile (ex_evidence None (Some (Fin 1000)) (Some (Fin 1100))) \<and>
   rx_resolution (rec_reconcile ''b'' (Fin 700) (Fin 2) (ex_evidence None (Some (Fin 1000)) (Some (Fin 1100)))) = Rec_UNKNOWN \<and>
   \<not> canAutoReconcile (ex_evidence None (Some (Fin 1000)) (Some (Fin 1000))) \<and>
   rx_resolution (rec_reconcile ''b'' (Fin 700) (Fin 2) (ex_evidence None (Some (Fin 1000)) (Some (Fin 1000)))) = Rec_FAILED"
proof -
  have n: "rnd (- 600) = Fin (- 600)" "rnd (- 700) = Fin (- 700)"
    using rnd_of_int [of "- 600"] rnd_of_int [of "- 700"] by simp_all
  show ?thesis
    by (simp add: canAutoReconcile_def rec_reconcile_def buildResult_def isolated_change_def ex_evidence_def
        within_cent_def lit_1_100 n Let_def)
qed

text \<open>The game API's loss carries no amount, the one shown by the balance does.\<close>

lemma lost_amount_depends_on_source:
  "rx_pnl (rec_reconcile betId stake target (ex_evidence (Some False) b a)) = None"
  by (simp add: rec_reconcile_def buildResult_def ex_evidence_def)

end
