(* ===== verification/SheathMode.thy ===== *)
theory SheathMode
  imports JsNumber CircuitBreaker
begin

text \<open>
  \<open>SheathMode\<close> of \<open>src/src/core/sheath-mode/sheath-mode.ts\<close>: the protective mode that suspends
  betting. Every operation of the class is a function on its state; the transitions it emits are
  collected in \<open>sh_emitted\<close>. Texts and metadata are constructors.
\<close>

section \<open>Data\<close>

datatype sheath_state =
  NORMAL | SHEATH_EVALUATING | SHEATH_ACTIVE | SHEATH_RECOVERING | SHEATH_PERSISTENT

datatype sheath_severity = Sev_critical | Sev_high | Sev_medium | Sev_manual

datatype sheath_trigger_id =
    T_low_prediction_confidence | T_poor_prediction_accuracy | T_abnormal_market
  | T_data_quality_degradation | T_worker_instability | T_excessive_false_signals
  | T_execution_problems | T_api_failures | T_model_drift | T_unexpected_volatility
  | T_risk_thresholds | T_system_health_degradation | T_queue_backlog | T_operator_command
  | T_prediction_divergence | T_prediction_calibration_degraded | T_prediction_cold_state

datatype sheath_message =
    Txt string | Txt_operator_sheath | Txt_cold | Txt_calibration jsnum | Txt_divergence int

datatype sheath_metadata = Md_cold | Md_ece jsnum | Md_level int | Md_other string

record sheath_trigger =
  tr_id :: sheath_trigger_id
  tr_severity :: sheath_severity
  tr_message :: sheath_message
  tr_detectedAt :: int
  tr_metadata :: "sheath_metadata option"

record recovery_check =
  rc_name :: string
  rc_passed :: bool

record sheath_transition =
  st_previous :: sheath_state
  st_next :: sheath_state
  st_triggers :: "sheath_trigger list"
  st_timestamp :: int
  st_unsheath :: bool
  st_recoveryResults :: "recovery_check list option"

record sheath =
  sh_state :: sheath_state
  sh_activeTriggers :: "sheath_trigger list"
  sh_evaluatingSince :: "int option"
  sh_recoveringSince :: "int option"
  sh_recoveryAttempts :: int
  sh_consecutiveRecoveryRounds :: int
  sh_evaluateRoundCount :: int
  sh_lastTransition :: "sheath_transition option"
  sh_evaluateHighRounds :: int
  sh_evaluateMediumRounds :: int
  sh_recoveryRequiredRounds :: int
  sh_maxRecoveryAttempts :: int
  sh_emitted :: "sheath_transition list"

definition sh_new :: "int option \<Rightarrow> int option \<Rightarrow> int option \<Rightarrow> int option \<Rightarrow> sheath" where
  "sh_new hi med req att =
     \<lparr>sh_state = NORMAL, sh_activeTriggers = [], sh_evaluatingSince = None, sh_recoveringSince = None,
      sh_recoveryAttempts = 0, sh_consecutiveRecoveryRounds = 0, sh_evaluateRoundCount = 0,
      sh_lastTransition = None, sh_evaluateHighRounds = or_else hi 3,
      sh_evaluateMediumRounds = or_else med 5, sh_recoveryRequiredRounds = or_else req 10,
      sh_maxRecoveryAttempts = or_else att 3, sh_emitted = []\<rparr>"

section \<open>Operations\<close>

definition isBettingSuspended :: "sheath \<Rightarrow> bool" where
  "isBettingSuspended s \<longleftrightarrow> sh_state s \<noteq> NORMAL"

definition maxSeverity :: "sheath_trigger list \<Rightarrow> sheath_severity option" where
  "maxSeverity ts =
     (if list_ex (\<lambda>t. tr_severity t = Sev_manual) ts then Some Sev_manual
      else if list_ex (\<lambda>t. tr_severity t = Sev_critical) ts then Some Sev_critical
      else if list_ex (\<lambda>t. tr_severity t = Sev_high) ts then Some Sev_high
      else if list_ex (\<lambda>t. tr_severity t = Sev_medium) ts then Some Sev_medium
      else None)"

definition sh_transition ::
  "int \<Rightarrow> sheath_state \<Rightarrow> sheath_trigger list \<Rightarrow> bool \<Rightarrow> recovery_check list option \<Rightarrow> sheath \<Rightarrow> sheath" where
  "sh_transition now to ts unsheath results s =
     (if to = sh_state s then s
      else let tr = \<lparr>st_previous = sh_state s, st_next = to, st_triggers = ts, st_timestamp = now,
                     st_unsheath = unsheath, st_recoveryResults = results\<rparr>
           in s\<lparr>sh_state := to, sh_lastTransition := Some tr, sh_emitted := sh_emitted s @ [tr]\<rparr>)"

text \<open>\<open>Object.assign(existing, t)\<close>: an absent optional property leaves the old one.\<close>

definition assign_trigger :: "sheath_trigger \<Rightarrow> sheath_trigger \<Rightarrow> sheath_trigger" where
  "assign_trigger t old =
     (case tr_metadata t of None \<Rightarrow> t\<lparr>tr_metadata := tr_metadata old\<rparr> | Some _ \<Rightarrow> t)"

definition merge_trigger :: "sheath_trigger list \<Rightarrow> sheath_trigger \<Rightarrow> sheath_trigger list" where
  "merge_trigger active t =
     (case find (\<lambda>x. tr_id x = tr_id t) active of
        None \<Rightarrow> active @ [t]
      | Some _ \<Rightarrow> update_first (\<lambda>x. tr_id x = tr_id t) (assign_trigger t) active)"

definition reportTriggers :: "int \<Rightarrow> sheath_trigger list \<Rightarrow> sheath \<Rightarrow> sheath" where
  "reportTriggers now ts s =
     (if ts = [] then s
      else
        let s1 = s\<lparr>sh_activeTriggers := foldl merge_trigger (sh_activeTriggers s) ts\<rparr>;
            sev = maxSeverity (sh_activeTriggers s1)
        in case sh_state s1 of
             NORMAL \<Rightarrow>
               if sev = Some Sev_critical \<or> sev = Some Sev_manual
               then sh_transition now SHEATH_ACTIVE ts False None s1
               else (sh_transition now SHEATH_EVALUATING ts False None s1)
                      \<lparr>sh_evaluatingSince := Some now, sh_evaluateRoundCount := 0\<rparr>
           | SHEATH_EVALUATING \<Rightarrow>
               if sev = Some Sev_critical \<or> sev = Some Sev_manual
               then sh_transition now SHEATH_ACTIVE ts False None s1 else s1
           | SHEATH_RECOVERING \<Rightarrow>
               if sev = Some Sev_critical \<or> sev = Some Sev_high
               then sh_transition now SHEATH_ACTIVE ts False None (s1\<lparr>sh_consecutiveRecoveryRounds := 0\<rparr>)
               else s1
           | _ \<Rightarrow> s1)"

definition operatorSheath :: "int \<Rightarrow> sheath \<Rightarrow> sheath" where
  "operatorSheath now s =
     reportTriggers now [\<lparr>tr_id = T_operator_command, tr_severity = Sev_manual,
       tr_message = Txt_operator_sheath, tr_detectedAt = now, tr_metadata = None\<rparr>] s"

definition operatorUnsheath :: "int \<Rightarrow> sheath \<Rightarrow> sheath" where
  "operatorUnsheath now s =
     (if sh_state s = SHEATH_ACTIVE \<or> sh_state s = SHEATH_PERSISTENT then
        (sh_transition now SHEATH_RECOVERING [] True None s)
          \<lparr>sh_recoveringSince := Some now, sh_consecutiveRecoveryRounds := 0\<rparr>
      else if sh_state s = SHEATH_EVALUATING then
        let s1 = s\<lparr>sh_activeTriggers := filter (\<lambda>t. tr_severity t = Sev_critical) (sh_activeTriggers s)\<rparr>
        in if sh_activeTriggers s1 = [] then
             (sh_transition now NORMAL [] True None s1)
               \<lparr>sh_evaluatingSince := None, sh_evaluateRoundCount := 0\<rparr>
           else s1
      else s)"

definition onRoundTick :: "int \<Rightarrow> recovery_check list option \<Rightarrow> sheath \<Rightarrow> sheath" where
  "onRoundTick now checks s =
     (if sh_state s = SHEATH_EVALUATING then
        let s1 = s\<lparr>sh_evaluateRoundCount := sh_evaluateRoundCount s + 1\<rparr>;
            threshold = (if maxSeverity (sh_activeTriggers s1) = Some Sev_medium
                         then sh_evaluateMediumRounds s1 else sh_evaluateHighRounds s1)
        in if sh_evaluateRoundCount s1 \<ge> threshold then
             if length (sh_activeTriggers s1) > 0
             then sh_transition now SHEATH_ACTIVE (sh_activeTriggers s1) False None s1
             else (sh_transition now NORMAL [] False None s1)
                    \<lparr>sh_evaluatingSince := None, sh_evaluateRoundCount := 0\<rparr>
           else s1
      else if sh_state s = SHEATH_RECOVERING then
        case checks of
          None \<Rightarrow> s
        | Some [] \<Rightarrow> s
        | Some (c # cs) \<Rightarrow>
            if list_all rc_passed (c # cs) then
              let s1 = s\<lparr>sh_consecutiveRecoveryRounds := sh_consecutiveRecoveryRounds s + 1\<rparr>
              in if sh_consecutiveRecoveryRounds s1 \<ge> sh_recoveryRequiredRounds s1 then
                   (sh_transition now NORMAL [] False checks (s1\<lparr>sh_activeTriggers := []\<rparr>))
                     \<lparr>sh_recoveringSince := None, sh_recoveryAttempts := 0, sh_consecutiveRecoveryRounds := 0\<rparr>
                 else s1
            else
              let s1 = s\<lparr>sh_consecutiveRecoveryRounds := 0, sh_recoveryAttempts := sh_recoveryAttempts s + 1\<rparr>
              in if sh_recoveryAttempts s1 \<ge> sh_maxRecoveryAttempts s1
                 then sh_transition now SHEATH_PERSISTENT (sh_activeTriggers s1) False checks s1 else s1
      else s)"

definition clearTrigger :: "int \<Rightarrow> sheath_trigger_id \<Rightarrow> sheath \<Rightarrow> sheath" where
  "clearTrigger now i s =
     (let s1 = s\<lparr>sh_activeTriggers := filter (\<lambda>t. tr_id t \<noteq> i) (sh_activeTriggers s)\<rparr>
      in if sh_state s1 = SHEATH_ACTIVE \<and> sh_activeTriggers s1 = [] \<and>
            \<not> list_ex (\<lambda>t. tr_severity t = Sev_manual) (sh_activeTriggers s1)
         then (sh_transition now SHEATH_RECOVERING [] False None s1)
                \<lparr>sh_recoveringSince := Some now, sh_consecutiveRecoveryRounds := 0\<rparr>
         else s1)"

definition mk_trigger ::
  "int \<Rightarrow> sheath_trigger_id \<Rightarrow> sheath_severity \<Rightarrow> sheath_message \<Rightarrow> sheath_metadata \<Rightarrow> sheath_trigger" where
  "mk_trigger now i sev msg md =
     \<lparr>tr_id = i, tr_severity = sev, tr_message = msg, tr_detectedAt = now, tr_metadata = Some md\<rparr>"

definition reportPredictionHealth ::
  "int \<Rightarrow> int \<Rightarrow> jsnum option \<Rightarrow> string option \<Rightarrow> bool \<Rightarrow> sheath \<Rightarrow> sheath" where
  "reportPredictionHealth now level ece why coldState s =
     (let msg = (case why of Some w \<Rightarrow> Txt w | None \<Rightarrow> Txt_divergence level);
          ts = (if coldState then [mk_trigger now T_prediction_cold_state Sev_critical Txt_cold Md_cold] else [])
             @ (case ece of
                  Some e \<Rightarrow>
                    if jlt (lit (8/100)) e then
                      [mk_trigger now T_prediction_calibration_degraded
                         (if jlt (lit (12/100)) e then Sev_critical else Sev_high) (Txt_calibration e) (Md_ece e)]
                    else []
                | None \<Rightarrow> [])
             @ (if level \<ge> 5 then [mk_trigger now T_prediction_divergence Sev_critical msg (Md_level level)]
                else if level \<ge> 3 then [mk_trigger now T_prediction_divergence Sev_high msg (Md_level level)]
                else if level \<ge> 1 then [mk_trigger now T_poor_prediction_accuracy Sev_medium msg (Md_level level)]
                else [])
      in if ts \<noteq> [] then reportTriggers now ts s else s)"

definition isPredictionEntriesBlocked :: "sheath \<Rightarrow> bool" where
  "isPredictionEntriesBlocked s \<longleftrightarrow>
     list_ex (\<lambda>t. tr_id t = T_prediction_divergence \<and> tr_severity t = Sev_critical \<or>
                  tr_id t = T_prediction_cold_state) (sh_activeTriggers s) \<or> isBettingSuspended s"

datatype sheath_event =
    SE_report int "sheath_trigger list"
  | SE_sheath int
  | SE_unsheath int
  | SE_tick int "recovery_check list option"
  | SE_clear int sheath_trigger_id
  | SE_prediction int int "jsnum option" "string option" bool

fun sh_step :: "sheath \<Rightarrow> sheath_event \<Rightarrow> sheath" where
  "sh_step s (SE_report now ts) = reportTriggers now ts s"
| "sh_step s (SE_sheath now) = operatorSheath now s"
| "sh_step s (SE_unsheath now) = operatorUnsheath now s"
| "sh_step s (SE_tick now checks) = onRoundTick now checks s"
| "sh_step s (SE_clear now i) = clearTrigger now i s"
| "sh_step s (SE_prediction now level ece why cold) = reportPredictionHealth now level ece why cold s"

section \<open>Normal means no trigger\<close>

definition quiet_normal :: "sheath \<Rightarrow> bool" where
  "quiet_normal s \<longleftrightarrow> (sh_state s = NORMAL \<longrightarrow> sh_activeTriggers s = [])"

lemma transition_fields [simp]:
  "sh_state (sh_transition now to ts u r s) = to"
  "sh_activeTriggers (sh_transition now to ts u r s) = sh_activeTriggers s"
  "sh_consecutiveRecoveryRounds (sh_transition now to ts u r s) = sh_consecutiveRecoveryRounds s"
  "sh_recoveryRequiredRounds (sh_transition now to ts u r s) = sh_recoveryRequiredRounds s"
  "sh_recoveryAttempts (sh_transition now to ts u r s) = sh_recoveryAttempts s"
  "sh_maxRecoveryAttempts (sh_transition now to ts u r s) = sh_maxRecoveryAttempts s"
  by (simp_all add: sh_transition_def Let_def)

lemma report_quiet: "quiet_normal s \<Longrightarrow> quiet_normal (reportTriggers now ts s)"
  by (auto simp: quiet_normal_def reportTriggers_def Let_def split: sheath_state.splits if_splits)

lemma sh_step_quiet: "quiet_normal s \<Longrightarrow> quiet_normal (sh_step s e)"
proof (cases e)
  case (SE_prediction now level ece why cold)
  then show "quiet_normal s \<Longrightarrow> quiet_normal (sh_step s e)"
    by (simp add: reportPredictionHealth_def Let_def report_quiet)
qed (auto simp: report_quiet operatorSheath_def,
     auto simp: quiet_normal_def operatorUnsheath_def onRoundTick_def clearTrigger_def Let_def
       split: option.splits list.splits if_splits)

interpretation sh: started sh_step quiet_normal "sh_new hi med req att"
  by unfold_locales (rule sh_step_quiet, assumption, simp add: quiet_normal_def sh_new_def)

text \<open>
  In every run the mode is \<open>NORMAL\<close> only when no trigger is active; so the extra test of
  \<open>isPredictionEntriesBlocked\<close> for critical prediction triggers never decides, and entries are
  blocked exactly when betting is suspended.
\<close>

theorem blocked_iff_suspended:
  "let s = foldl sh_step (sh_new hi med req att) es in
     (isBettingSuspended s \<or> sh_activeTriggers s = []) \<and>
     isPredictionEntriesBlocked s = isBettingSuspended s"
  using sh.reachable_inv [of hi med req att es]
  by (auto simp: quiet_normal_def isPredictionEntriesBlocked_def isBettingSuspended_def Let_def)

section \<open>The way back to normal\<close>

text \<open>A round whose recovery checks were supplied and all passed.\<close>

fun good_round :: "sheath_event \<Rightarrow> bool" where
  "good_round (SE_tick now (Some (c # cs))) = list_all rc_passed (c # cs)"
| "good_round _ = False"

text \<open>Betting stays suspended: at most \<open>n\<close> good rounds have been counted.\<close>

definition sheathed :: "int \<Rightarrow> sheath \<Rightarrow> bool" where
  "sheathed n s \<longleftrightarrow> sh_state s = SHEATH_ACTIVE \<or> sh_state s = SHEATH_PERSISTENT \<or>
     sh_state s = SHEATH_RECOVERING \<and> sh_consecutiveRecoveryRounds s \<le> n"

lemma report_required [simp]: "sh_recoveryRequiredRounds (reportTriggers now ts s) = sh_recoveryRequiredRounds s"
  by (simp add: reportTriggers_def Let_def split: sheath_state.split)

lemma step_required [simp]: "sh_recoveryRequiredRounds (sh_step s e) = sh_recoveryRequiredRounds s"
  by (cases e)
    (simp_all add: operatorSheath_def reportPredictionHealth_def operatorUnsheath_def onRoundTick_def
       clearTrigger_def Let_def split: option.split list.split)

lemma sheathed_report: "sheathed n s \<Longrightarrow> sheathed n (reportTriggers now ts s)"
  by (auto simp: sheathed_def reportTriggers_def Let_def split: sheath_state.split)

lemma sheathed_mono: "sheathed n s \<Longrightarrow> n \<le> m \<Longrightarrow> sheathed m s"
  by (auto simp: sheathed_def)

lemma sheathed_tick:
  assumes "sheathed n s" and "0 \<le> n"
    and "n + (if good_round (SE_tick now checks) then 1 else 0) < sh_recoveryRequiredRounds s"
  shows "sheathed (n + (if good_round (SE_tick now checks) then 1 else 0)) (onRoundTick now checks s)"
proof (cases checks)
  case None
  with assms(1) show ?thesis by (auto simp: sheathed_def onRoundTick_def)
next
  case (Some cs)
  with assms show ?thesis
    by (cases cs) (auto simp: sheathed_def onRoundTick_def Let_def split: if_splits)
qed

lemma sheathed_step:
  assumes "sheathed n s" and "0 \<le> n" and "n + (if good_round e then 1 else 0) < sh_recoveryRequiredRounds s"
  shows "sheathed (n + (if good_round e then 1 else 0)) (sh_step s e)"
proof (cases e)
  case (SE_tick now checks)
  with sheathed_tick assms show ?thesis by simp
next
  case (SE_unsheath now)
  with assms show ?thesis by (auto simp: operatorUnsheath_def sheathed_def)
next
  case (SE_clear now i)
  with assms show ?thesis by (auto simp: clearTrigger_def sheathed_def Let_def)
next
  case (SE_prediction now level ece why cold)
  with assms show ?thesis by (simp add: reportPredictionHealth_def Let_def sheathed_report)
qed (use assms in \<open>simp_all add: operatorSheath_def sheathed_report\<close>)

lemma sheathed_run:
  assumes "sheathed n s" and "0 \<le> n"
    and "n + int (length (filter good_round es)) < sh_recoveryRequiredRounds s"
  shows "sheathed (n + int (length (filter good_round es))) (foldl sh_step s es)"
  using assms
proof (induction es arbitrary: s n)
  case Nil
  then show ?case by simp
next
  case (Cons e es)
  let ?k = "n + (if good_round e then 1 else 0)"
  have "sheathed ?k (sh_step s e)"
    using Cons.prems by (intro sheathed_step) (auto split: if_splits)
  with Cons.IH [of ?k "sh_step s e"] Cons.prems(2,3) show ?case
    by (auto split: if_splits simp: algebra_simps)
qed

text \<open>
  The only way out of an active or persistent sheath is recovery: as long as fewer rounds than
  \<open>recoveryRequiredRounds\<close> have passed all their checks, no sequence of events, operator commands
  included, brings back normal operation.
\<close>

theorem leaving_needs_recovery_rounds:
  assumes "sh_state s = SHEATH_ACTIVE \<or> sh_state s = SHEATH_PERSISTENT"
    and "int (length (filter good_round es)) < sh_recoveryRequiredRounds s"
  shows "isBettingSuspended (foldl sh_step s es) \<and> sh_state (foldl sh_step s es) \<noteq> SHEATH_EVALUATING"
proof -
  have "sheathed 0 s" using assms(1) by (auto simp: sheathed_def)
  from sheathed_run [OF this _ ] assms(2)
  have "sheathed (int (length (filter good_round es))) (foldl sh_step s es)" by fastforce
  then show ?thesis by (auto simp: sheathed_def isBettingSuspended_def)
qed

theorem leaving_needs_recovery_rounds_witness:
  "isBettingSuspended (foldl sh_step (operatorSheath 1 (sh_new None None None None))
     [SE_unsheath 2, SE_tick 3 (Some [\<lparr>rc_name = ''api'', rc_passed = True\<rparr>]), SE_clear 4 T_operator_command])"
proof -
  let ?s = "operatorSheath 1 (sh_new None None None None)"
  let ?es = "[SE_unsheath 2, SE_tick 3 (Some [\<lparr>rc_name = ''api'', rc_passed = True\<rparr>]), SE_clear 4 T_operator_command]"
  have a: "sh_state ?s = SHEATH_ACTIVE \<or> sh_state ?s = SHEATH_PERSISTENT"
    by (simp add: operatorSheath_def reportTriggers_def sh_new_def merge_trigger_def maxSeverity_def Let_def)
  have n: "int (length (filter good_round ?es)) < sh_recoveryRequiredRounds ?s"
    by (simp add: operatorSheath_def sh_new_def)
  show ?thesis using leaving_needs_recovery_rounds [OF a n] by blast
qed

section \<open>Triggers\<close>

lemma merge_has:
  "\<exists>x \<in> set (merge_trigger active t). tr_id x = tr_id t \<and> tr_severity x = tr_severity t"
proof (cases "find (\<lambda>x. tr_id x = tr_id t) active")
  case None
  then show ?thesis by (simp add: merge_trigger_def)
next
  case (Some a)
  have sev: "tr_id (assign_trigger t a) = tr_id t" "tr_severity (assign_trigger t a) = tr_severity t" for a
    by (auto simp: assign_trigger_def split: option.split)
  from update_first_split [OF Some, of "assign_trigger t"] obtain us vs where
    "update_first (\<lambda>x. tr_id x = tr_id t) (assign_trigger t) active = us @ assign_trigger t a # vs" by blast
  with Some sev show ?thesis by (auto simp: merge_trigger_def)
qed

lemma merge_keeps:
  assumes "x \<in> set active" and "tr_id x \<noteq> tr_id t"
  shows "x \<in> set (merge_trigger active t)"
proof (cases "find (\<lambda>x. tr_id x = tr_id t) active")
  case None
  with assms show ?thesis by (simp add: merge_trigger_def)
next
  case (Some a)
  from update_first_split [OF Some, of "assign_trigger t"] obtain us vs where
    "active = us @ a # vs" "tr_id a = tr_id t"
    "update_first (\<lambda>x. tr_id x = tr_id t) (assign_trigger t) active = us @ assign_trigger t a # vs" by blast
  with Some assms show ?thesis by (auto simp: merge_trigger_def)
qed

lemma fold_merge_keeps:
  "x \<in> set active \<Longrightarrow> tr_id x \<notin> tr_id ` set ts \<Longrightarrow> x \<in> set (foldl merge_trigger active ts)"
  by (induction ts arbitrary: active) (auto simp: merge_keeps)

lemma fold_merge_has:
  assumes "t \<in> set ts" and "distinct (map tr_id ts)"
  shows "\<exists>x \<in> set (foldl merge_trigger active ts). tr_id x = tr_id t \<and> tr_severity x = tr_severity t"
  using assms
proof (induction ts arbitrary: active)
  case Nil
  then show ?case by simp
next
  case (Cons u us)
  show ?case
  proof (cases "t = u")
    case True
    obtain x where "x \<in> set (merge_trigger active t)" "tr_id x = tr_id t" "tr_severity x = tr_severity t"
      using merge_has by blast
    moreover have "tr_id t \<notin> tr_id ` set us" using Cons.prems(2) True by simp
    ultimately show ?thesis
      using True fold_merge_keeps [of x "merge_trigger active t" us] by auto
  next
    case False
    with Cons show ?thesis by auto
  qed
qed

lemma critical_seen: "x \<in> set ts \<Longrightarrow> tr_severity x = Sev_critical \<Longrightarrow> maxSeverity ts \<in> {Some Sev_critical, Some Sev_manual}"
  by (auto simp: maxSeverity_def list_ex_iff)

text \<open>
  A critical trigger reported while operation is normal or under evaluation activates the sheath
  at once, if the triggers reported together have different identifiers.
\<close>

theorem critical_trigger_activates:
  assumes "sh_state s = NORMAL \<or> sh_state s = SHEATH_EVALUATING"
    and "t \<in> set ts" and "tr_severity t = Sev_critical" and "distinct (map tr_id ts)"
  shows "sh_state (reportTriggers now ts s) = SHEATH_ACTIVE"
proof -
  obtain x where "x \<in> set (foldl merge_trigger (sh_activeTriggers s) ts)" "tr_severity x = Sev_critical"
    using fold_merge_has [OF assms(2,4)] assms(3) by metis
  from critical_seen [OF this] assms(1,2) show ?thesis
    by (cases "sh_state s") (auto simp: reportTriggers_def Let_def)
qed

theorem critical_trigger_activates_witness:
  "sh_state (reportTriggers 5 [mk_trigger 5 T_api_failures Sev_critical (Txt ''down'') Md_cold]
     (sh_new None None None None)) = SHEATH_ACTIVE"
  by (rule critical_trigger_activates [of _ "mk_trigger 5 T_api_failures Sev_critical (Txt ''down'') Md_cold"])
    (simp_all add: sh_new_def mk_trigger_def)

text \<open>
  After an operator's \<open>/sheath\<close> the recovery is blind: the trigger of that command stays active and
  has the greatest severity, so while recovering no reported trigger, however critical, goes
  back to the active sheath.
\<close>

theorem manual_trigger_hides_critical:
  assumes "sh_state s = SHEATH_RECOVERING" and "x \<in> set (sh_activeTriggers s)"
    and "tr_severity x = Sev_manual" and "tr_id x \<notin> tr_id ` set ts"
  shows "sh_state (reportTriggers now ts s) = SHEATH_RECOVERING"
proof -
  have "maxSeverity (foldl merge_trigger (sh_activeTriggers s) ts) = Some Sev_manual"
    using fold_merge_keeps [OF assms(2,4)] assms(3) by (auto simp: maxSeverity_def list_ex_iff)
  with assms(1) show ?thesis by (simp add: reportTriggers_def Let_def)
qed

theorem manual_trigger_hides_critical_witness:
  "sh_state (reportTriggers 5 [mk_trigger 5 T_api_failures Sev_critical (Txt ''down'') Md_cold]
     (operatorUnsheath 2 (operatorSheath 1 (sh_new None None None None)))) = SHEATH_RECOVERING"
proof -
  let ?s = "operatorUnsheath 2 (operatorSheath 1 (sh_new None None None None))"
  let ?x = "\<lparr>tr_id = T_operator_command, tr_severity = Sev_manual, tr_message = Txt_operator_sheath,
      tr_detectedAt = 1, tr_metadata = None\<rparr>"
  have s: "sh_state ?s = SHEATH_RECOVERING" "?x \<in> set (sh_activeTriggers ?s)"
    by (simp_all add: operatorUnsheath_def operatorSheath_def reportTriggers_def sh_new_def merge_trigger_def
        maxSeverity_def Let_def)
  show ?thesis
    by (rule manual_trigger_hides_critical [OF s]) (simp_all add: mk_trigger_def)
qed

text \<open>Leaving the persistent sheath keeps the count of failed attempts: one failure brings it back.\<close>

lemma persistent_has_one_attempt:
  assumes "sh_state s = SHEATH_PERSISTENT" and "sh_maxRecoveryAttempts s \<le> sh_recoveryAttempts s"
    and "\<not> list_all rc_passed (c # cs)"
  shows "sh_state (onRoundTick now (Some (c # cs)) (operatorUnsheath t s)) = SHEATH_PERSISTENT"
  using assms by (auto simp: operatorUnsheath_def onRoundTick_def Let_def)

end
