(* ===== verification/Settlement.thy ===== *)
theory Settlement
  imports JsNumber CircuitBreaker
begin

text \<open>
  The double-entry settlement of \<open>src/src/settlement\<close>: \<open>AuthoritativeSettlementEngine\<close> on its
  three tables, and \<open>DriftGuard\<close>, which compares its balance with the operator's. A transaction
  either commits its body or changes nothing. What the database schema adds is a parameter: the
  conversion of a number to \<open>NUMERIC\<close>, the checks on a journal line and the guard on status
  changes.
\<close>

section \<open>Data\<close>

datatype order_status =
    ORDER_INTENT | DISPATCHED | PENDING_SETTLEMENT | OS_RECONCILING
  | SETTLED_WIN | SETTLED_LOSS | OS_VOID | OS_FAILED

datatype account = HOT_WALLET | UNSETTLED | REALIZED_PNL | HOUSE_EDGE

datatype settle_status = S_WIN | S_LOSS | S_VOID

datatype memo =
    Exposure_open | Wager_lock | Void_refund | Exposure_close_void | Pnl_loss | Exposure_close
  | Payout | Pnl_profit | Pnl_residual

record settlement_order =
  so_id :: nat
  so_clientOrderId :: string
  so_tenantId :: "string option"
  so_betId :: "string option"
  so_gameId :: "string option"
  so_roundId :: "string option"
  so_wager :: rat
  so_target :: rat
  so_status :: order_status
  so_grossPayout :: "rat option"
  so_exitMultiplier :: "rat option"
  so_settledAt :: "jsnum option"
  so_externalReference :: "string option"

record journal_line =
  jn_order :: nat
  jn_account :: account
  jn_debit :: rat
  jn_credit :: rat
  jn_memo :: memo

record settlement_db =
  sd_orders :: "settlement_order list"
  sd_journal :: "journal_line list"
  sd_cache :: "account \<Rightarrow> rat"
  sd_seq :: nat

record order_intent =
  oi_clientOrderId :: string
  oi_tenantId :: "string option"
  oi_betId :: "string option"
  oi_gameId :: "string option"
  oi_roundId :: "string option"
  oi_wagerAmount :: jsnum
  oi_targetMultiplier :: jsnum

record settlement_payload =
  sp_clientOrderId :: string
  sp_status :: settle_status
  sp_grossPayout :: jsnum
  sp_multiplier :: jsnum
  sp_settledAt :: jsnum
  sp_externalReference :: "string option"

record schema =
  sc_numeric :: "jsnum \<Rightarrow> rat option"
  sc_line :: "rat \<Rightarrow> rat \<Rightarrow> bool"
  sc_change :: "order_status \<Rightarrow> order_status \<Rightarrow> bool"

datatype settlement_error =
    Order_not_found | Ledger_imbalance | Invalid_payload | Rejected_by_schema

section \<open>Journal lines\<close>

text \<open>\<open>toFixed(8)\<close>: to the nearest multiple of \<open>10\<^sup>-\<^sup>8\<close>, halves away from zero; it is exact. Amounts
  are numbers: a \<open>NaN\<close>, which a \<open>NUMERIC\<close> column would store, is outside of the model, which refuses it.\<close>

definition fixed8_pos :: "rat \<Rightarrow> rat" where
  "fixed8_pos x = of_int \<lfloor>x * 10 ^ 8 + 1/2\<rfloor> / 10 ^ 8"

fun toFixed8 :: "jsnum \<Rightarrow> rat option" where
  "toFixed8 (Fin x) = Some (if x < 0 then - fixed8_pos (- x) else fixed8_pos x)"
| "toFixed8 _ = None"

definition insertEntry ::
  "schema \<Rightarrow> nat \<Rightarrow> account \<Rightarrow> jsnum \<Rightarrow> jsnum \<Rightarrow> memo \<Rightarrow> settlement_db \<Rightarrow> settlement_error + settlement_db" where
  "insertEntry sc oid acc debit credit memo db =
     (if debit = Fin 0 \<and> credit = Fin 0 then Inr db
      else case (toFixed8 debit, toFixed8 credit) of
             (Some d, Some c) \<Rightarrow>
               if sc_line sc d c then
                 Inr (db\<lparr>sd_journal := sd_journal db @
                   [\<lparr>jn_order = oid, jn_account = acc, jn_debit = d, jn_credit = c, jn_memo = memo\<rparr>]\<rparr>)
               else Inl Rejected_by_schema
           | _ \<Rightarrow> Inl Rejected_by_schema)"

definition order_lines :: "nat \<Rightarrow> settlement_db \<Rightarrow> journal_line list" where
  "order_lines oid db = filter (\<lambda>l. jn_order l = oid) (sd_journal db)"

definition balanced_lines :: "journal_line list \<Rightarrow> bool" where
  "balanced_lines ls \<longleftrightarrow>
     (let d = rnd (sum_list (map jn_debit ls)); c = rnd (sum_list (map jn_credit ls))
      in \<not> jlt (lit (1 / 10 ^ 8)) (jabs (jsub d c)))"

definition assertBalanced :: "nat \<Rightarrow> settlement_db \<Rightarrow> settlement_error + settlement_db" where
  "assertBalanced oid db =
     (if \<not> balanced_lines (order_lines oid db) then Inl Ledger_imbalance else Inr db)"

fun bind_err :: "'e + 'a \<Rightarrow> ('a \<Rightarrow> 'e + 'b) \<Rightarrow> 'e + 'b" where
  "bind_err (Inl e) f = Inl e"
| "bind_err (Inr x) f = f x"

section \<open>Transactions\<close>

definition find_order :: "string \<Rightarrow> settlement_db \<Rightarrow> settlement_order option" where
  "find_order coid db = find (\<lambda>q. so_clientOrderId q = coid) (sd_orders db)"

definition new_order :: "nat \<Rightarrow> order_intent \<Rightarrow> rat \<Rightarrow> rat \<Rightarrow> settlement_order" where
  "new_order oid intent w tgt =
     \<lparr>so_id = oid, so_clientOrderId = oi_clientOrderId intent, so_tenantId = oi_tenantId intent,
      so_betId = oi_betId intent, so_gameId = oi_gameId intent, so_roundId = oi_roundId intent,
      so_wager = w, so_target = tgt, so_status = ORDER_INTENT, so_grossPayout = None,
      so_exitMultiplier = None, so_settledAt = None, so_externalReference = None\<rparr>"

definition createOrderIntentOnce ::
  "schema \<Rightarrow> order_intent \<Rightarrow> settlement_db \<Rightarrow> settlement_error + nat \<times> settlement_db" where
  "createOrderIntentOnce sc intent db =
     (case find_order (oi_clientOrderId intent) db of
        Some q \<Rightarrow> Inr (so_id q, db)
      | None \<Rightarrow>
          (case (sc_numeric sc (oi_wagerAmount intent), sc_numeric sc (oi_targetMultiplier intent)) of
             (Some w, Some tgt) \<Rightarrow>
               let orderId = sd_seq db;
                   db1 = db\<lparr>sd_orders := sd_orders db @ [new_order orderId intent w tgt], sd_seq := Suc (sd_seq db)\<rparr>
               in bind_err (insertEntry sc orderId UNSETTLED (oi_wagerAmount intent) (Fin 0) Exposure_open db1)
                    (\<lambda>db2. bind_err (insertEntry sc orderId HOT_WALLET (Fin 0) (oi_wagerAmount intent) Wager_lock db2)
                    (\<lambda>db3. bind_err (assertBalanced orderId db3) (\<lambda>db4. Inr (orderId, db4))))
           | _ \<Rightarrow> Inl Rejected_by_schema))"

text \<open>\<open>UPDATE settlement_orders ... WHERE id = $1\<close>; the guard sees each row whose status changes.\<close>

definition update_order ::
  "schema \<Rightarrow> (settlement_order \<Rightarrow> bool) \<Rightarrow> (settlement_order \<Rightarrow> settlement_order) \<Rightarrow> settlement_db \<Rightarrow>
     settlement_error + settlement_db" where
  "update_order sc sel f db =
     (if list_all (\<lambda>q. sel q \<longrightarrow> so_status (f q) = so_status q \<or> sc_change sc (so_status q) (so_status (f q)))
           (sd_orders db)
      then Inr (db\<lparr>sd_orders := map (\<lambda>q. if sel q then f q else q) (sd_orders db)\<rparr>)
      else Inl Rejected_by_schema)"

definition markDispatched :: "schema \<Rightarrow> string \<Rightarrow> settlement_db \<Rightarrow> settlement_error + settlement_db" where
  "markDispatched sc coid =
     update_order sc (\<lambda>q. so_clientOrderId q = coid \<and> so_status q = ORDER_INTENT)
       (\<lambda>q. q\<lparr>so_status := DISPATCHED\<rparr>)"

definition markReconciling :: "schema \<Rightarrow> string \<Rightarrow> settlement_db \<Rightarrow> settlement_error + settlement_db" where
  "markReconciling sc coid =
     update_order sc
       (\<lambda>q. so_clientOrderId q = coid \<and> so_status q \<in> {DISPATCHED, PENDING_SETTLEMENT, ORDER_INTENT})
       (\<lambda>q. q\<lparr>so_status := OS_RECONCILING\<rparr>)"

text \<open>What \<open>SettlementPayloadSchema\<close> accepts.\<close>

definition valid_payload :: "settlement_payload \<Rightarrow> bool" where
  "valid_payload p \<longleftrightarrow>
     sp_clientOrderId p \<noteq> [] \<and> jle (Fin 0) (sp_grossPayout p) \<and> jle (Fin 1) (sp_multiplier p) \<and>
     sp_settledAt p \<noteq> NaN"

definition final_status :: "order_status \<Rightarrow> bool" where
  "final_status st \<longleftrightarrow> st \<in> {SETTLED_WIN, SETTLED_LOSS, OS_VOID}"

definition settle_lines ::
  "schema \<Rightarrow> nat \<Rightarrow> settle_status \<Rightarrow> jsnum \<Rightarrow> jsnum \<Rightarrow> settlement_db \<Rightarrow> settlement_error + settlement_db" where
  "settle_lines sc oid status wager gross db =
     (let netPnl = jsub gross wager
      in case status of
           S_VOID \<Rightarrow>
             bind_err (insertEntry sc oid HOT_WALLET wager (Fin 0) Void_refund db)
               (insertEntry sc oid UNSETTLED (Fin 0) wager Exposure_close_void)
         | S_LOSS \<Rightarrow>
             bind_err (insertEntry sc oid REALIZED_PNL wager (Fin 0) Pnl_loss db)
               (insertEntry sc oid UNSETTLED (Fin 0) wager Exposure_close)
         | S_WIN \<Rightarrow>
             bind_err (if jlt (Fin 0) gross then insertEntry sc oid HOT_WALLET gross (Fin 0) Payout db else Inr db)
               (\<lambda>db1. bind_err (insertEntry sc oid UNSETTLED (Fin 0) wager Exposure_close db1)
               (\<lambda>db2. if jlt (Fin 0) netPnl then insertEntry sc oid REALIZED_PNL (Fin 0) netPnl Pnl_profit db2
                      else if jlt netPnl (Fin 0)
                           then insertEntry sc oid REALIZED_PNL (jabs netPnl) (Fin 0) Pnl_residual db2
                      else Inr db2)))"

fun final_of :: "settle_status \<Rightarrow> order_status" where
  "final_of S_WIN = SETTLED_WIN"
| "final_of S_LOSS = SETTLED_LOSS"
| "final_of S_VOID = OS_VOID"

datatype settle_answer = Settled | Already_final

definition settled_order :: "settlement_payload \<Rightarrow> rat \<Rightarrow> rat \<Rightarrow> settlement_order \<Rightarrow> settlement_order" where
  "settled_order p g x r =
     r\<lparr>so_status := final_of (sp_status p), so_grossPayout := Some g, so_exitMultiplier := Some x,
       so_settledAt := Some (sp_settledAt p),
       so_externalReference :=
         (case sp_externalReference p of None \<Rightarrow> so_externalReference r | Some e \<Rightarrow> Some e)\<rparr>"

definition settleOrderOnce ::
  "schema \<Rightarrow> settlement_payload \<Rightarrow> settlement_db \<Rightarrow> settlement_error + settle_answer \<times> settlement_db" where
  "settleOrderOnce sc p db =
     (if \<not> valid_payload p then Inl Invalid_payload
      else case find_order (sp_clientOrderId p) db of
             None \<Rightarrow> Inl Order_not_found
           | Some q \<Rightarrow>
               if final_status (so_status q) then Inr (Already_final, db)
               else
                 bind_err (settle_lines sc (so_id q) (sp_status p) (rnd (so_wager q)) (sp_grossPayout p) db)
                   (\<lambda>db1. bind_err (assertBalanced (so_id q) db1)
                   (\<lambda>db2. case (sc_numeric sc (sp_grossPayout p), sc_numeric sc (sp_multiplier p)) of
                       (Some g, Some x) \<Rightarrow>
                         bind_err (update_order sc (\<lambda>r. so_id r = so_id q) (settled_order p g x) db2)
                           (\<lambda>db3. Inr (Settled, db3))
                     | _ \<Rightarrow> Inl Rejected_by_schema)))"

definition getAccountBalance :: "account \<Rightarrow> settlement_db \<Rightarrow> jsnum" where
  "getAccountBalance acc db = rnd (sd_cache db acc)"

section \<open>Drift guard\<close>

record drift_guard =
  dg_threshold :: jsnum
  dg_tripped :: bool

text \<open>The result is \<open>ok\<close> and \<open>delta\<close>; the third component says that the halt is emitted and the callback called.\<close>

definition dg_check :: "settlement_db \<Rightarrow> jsnum \<Rightarrow> drift_guard \<Rightarrow> drift_guard \<times> bool \<times> jsnum \<times> bool" where
  "dg_check db remote g =
     (if dg_tripped g then (g, False, NaN, False)
      else
        let ledger = getAccountBalance HOT_WALLET db;
            delta = jabs (jsub ledger remote)
        in if jlt (dg_threshold g) delta then (g\<lparr>dg_tripped := True\<rparr>, False, delta, True)
           else (g, True, delta, False))"

definition dg_evaluate :: "jsnum \<Rightarrow> jsnum \<Rightarrow> drift_guard \<Rightarrow> drift_guard \<times> bool" where
  "dg_evaluate ledger remote g =
     (if jlt (dg_threshold g) (jabs (jsub ledger remote)) then (g\<lparr>dg_tripped := True\<rparr>, False) else (g, True))"

section \<open>Runs\<close>

datatype settlement_op =
    SO_intent order_intent
  | SO_dispatched string
  | SO_reconciling string
  | SO_settle settlement_payload

fun or_same :: "settlement_db \<Rightarrow> 'e + settlement_db \<Rightarrow> settlement_db" where
  "or_same db (Inl e) = db"
| "or_same db (Inr db') = db'"

fun so_step :: "schema \<Rightarrow> settlement_db \<Rightarrow> settlement_op \<Rightarrow> settlement_db" where
  "so_step sc db (SO_intent i) = (case createOrderIntentOnce sc i db of Inl _ \<Rightarrow> db | Inr (_, db') \<Rightarrow> db')"
| "so_step sc db (SO_dispatched coid) = or_same db (markDispatched sc coid db)"
| "so_step sc db (SO_reconciling coid) = or_same db (markReconciling sc coid db)"
| "so_step sc db (SO_settle p) = (case settleOrderOnce sc p db of Inl _ \<Rightarrow> db | Inr (_, db') \<Rightarrow> db')"

definition empty_db :: settlement_db where
  "empty_db = \<lparr>sd_orders = [], sd_journal = [], sd_cache = (\<lambda>_. 0), sd_seq = 0\<rparr>"

section \<open>What a transaction may change\<close>

definition grows :: "nat \<Rightarrow> settlement_db \<Rightarrow> settlement_db \<Rightarrow> bool" where
  "grows oid db db' \<longleftrightarrow> sd_orders db' = sd_orders db \<and> sd_cache db' = sd_cache db \<and> sd_seq db' = sd_seq db \<and>
     (\<exists>ls. sd_journal db' = sd_journal db @ ls \<and> (\<forall>l \<in> set ls. jn_order l = oid))"

lemma grows_refl [simp]: "grows oid db db"
  by (simp add: grows_def)

lemma grows_trans: "grows oid a b \<Longrightarrow> grows oid b c \<Longrightarrow> grows oid a c"
  by (auto simp: grows_def)

lemma bind_err_Inr: "bind_err x f = Inr y \<longleftrightarrow> (\<exists>a. x = Inr a \<and> f a = Inr y)"
  by (cases x) auto

lemma insertEntry_grows: "insertEntry sc oid acc d c m db = Inr db' \<Longrightarrow> grows oid db db'"
  by (auto simp: insertEntry_def grows_def split: if_splits option.splits)

lemma settle_lines_grows:
  assumes "settle_lines sc oid st w g db = Inr db'"
  shows "grows oid db db'"
proof (cases st)
  case S_WIN
  with assms obtain db1 db2 where
    1: "(if jlt (Fin 0) g then insertEntry sc oid HOT_WALLET g (Fin 0) Payout db else Inr db) = Inr db1" and
    2: "insertEntry sc oid UNSETTLED (Fin 0) w Exposure_close db1 = Inr db2" and
    3: "(if jlt (Fin 0) (jsub g w) then insertEntry sc oid REALIZED_PNL (Fin 0) (jsub g w) Pnl_profit db2
         else if jlt (jsub g w) (Fin 0) then insertEntry sc oid REALIZED_PNL (jabs (jsub g w)) (Fin 0) Pnl_residual db2
         else Inr db2) = Inr db'"
    by (auto simp: settle_lines_def Let_def bind_err_Inr)
  from 1 have "grows oid db db1" by (auto split: if_splits intro: insertEntry_grows)
  moreover from 2 have "grows oid db1 db2" by (rule insertEntry_grows)
  moreover from 3 have "grows oid db2 db'" by (auto split: if_splits intro: insertEntry_grows)
  ultimately show ?thesis by (blast intro: grows_trans)
qed (use assms in \<open>auto simp: settle_lines_def Let_def bind_err_Inr intro: grows_trans insertEntry_grows\<close>)

lemma assertBalanced_Inr: "assertBalanced oid db = Inr db' \<longleftrightarrow> db' = db \<and> balanced_lines (order_lines oid db)"
  by (auto simp: assertBalanced_def)

lemma grows_other_lines: "grows oid db db' \<Longrightarrow> i \<noteq> oid \<Longrightarrow> order_lines i db' = order_lines i db"
  by (auto simp: grows_def order_lines_def filter_empty_conv)

lemma update_order_Inr:
  "update_order sc sel f db = Inr db' \<Longrightarrow>
     db' = db\<lparr>sd_orders := map (\<lambda>q. if sel q then f q else q) (sd_orders db)\<rparr>"
  by (simp add: update_order_def split: if_splits)

text \<open>The three shapes of a committed step.\<close>

inductive so_effect :: "settlement_db \<Rightarrow> settlement_db \<Rightarrow> bool" where
  nothing: "so_effect db db"
| opened: "\<lbrakk>find_order (so_clientOrderId q) db = None; so_id q = sd_seq db;
     grows (so_id q) (db\<lparr>sd_orders := sd_orders db @ [q], sd_seq := Suc (sd_seq db)\<rparr>) db';
     balanced_lines (order_lines (so_id q) db')\<rbrakk> \<Longrightarrow> so_effect db db'"
| marked: "\<lbrakk>\<And>q. sel q \<Longrightarrow> \<not> final_status (so_status q);
     \<And>q. so_id (f q) = so_id q \<and> so_clientOrderId (f q) = so_clientOrderId q\<rbrakk> \<Longrightarrow>
     so_effect db (db\<lparr>sd_orders := map (\<lambda>q. if sel q then f q else q) (sd_orders db)\<rparr>)"
| settled: "\<lbrakk>q \<in> set (sd_orders db); \<not> final_status (so_status q); grows (so_id q) db db1;
     balanced_lines (order_lines (so_id q) db1);
     \<And>r. so_id (f r) = so_id r \<and> so_clientOrderId (f r) = so_clientOrderId r\<rbrakk> \<Longrightarrow>
     so_effect db (db1\<lparr>sd_orders := map (\<lambda>r. if so_id r = so_id q then f r else r) (sd_orders db)\<rparr>)"

lemma find_order_Some: "find_order coid db = Some q \<Longrightarrow> q \<in> set (sd_orders db) \<and> so_clientOrderId q = coid"
  unfolding find_order_def by (auto simp: find_Some_iff)

lemma intent_effect:
  assumes "createOrderIntentOnce sc i db = Inr (oid, db')"
  shows "so_effect db db'"
proof (cases "find_order (oi_clientOrderId i) db")
  case (Some q)
  with assms show ?thesis by (auto simp: createOrderIntentOnce_def intro: so_effect.nothing)
next
  case None
  with assms obtain w tgt db1 db2 where
    1: "insertEntry sc (sd_seq db) UNSETTLED (oi_wagerAmount i) (Fin 0) Exposure_open
         (db\<lparr>sd_orders := sd_orders db @ [new_order (sd_seq db) i w tgt], sd_seq := Suc (sd_seq db)\<rparr>) = Inr db1" and
    2: "insertEntry sc (sd_seq db) HOT_WALLET (Fin 0) (oi_wagerAmount i) Wager_lock db1 = Inr db2" and
    3: "assertBalanced (sd_seq db) db2 = Inr db'"
    by (auto simp: createOrderIntentOnce_def Let_def bind_err_Inr split: option.splits)
  have q: "so_id (new_order (sd_seq db) i w tgt) = sd_seq db"
    "so_clientOrderId (new_order (sd_seq db) i w tgt) = oi_clientOrderId i" by (simp_all add: new_order_def)
  from grows_trans [OF insertEntry_grows [OF 1] insertEntry_grows [OF 2]] 3 None q show ?thesis
    by (intro so_effect.opened [of "new_order (sd_seq db) i w tgt"]) (auto simp: assertBalanced_Inr)
qed

lemma settle_effect:
  assumes "settleOrderOnce sc p db = Inr (a, db')"
  shows "so_effect db db'"
proof -
  from assms obtain q where q: "find_order (sp_clientOrderId p) db = Some q"
    by (auto simp: settleOrderOnce_def split: if_splits option.splits)
  show ?thesis
  proof (cases "final_status (so_status q)")
    case True
    with assms q show ?thesis by (auto simp: settleOrderOnce_def intro: so_effect.nothing split: if_splits)
  next
    case False
    from False assms q obtain db1 g x where
      1: "settle_lines sc (so_id q) (sp_status p) (rnd (so_wager q)) (sp_grossPayout p) db = Inr db1" and
      2: "assertBalanced (so_id q) db1 = Inr db1" and
      3: "update_order sc (\<lambda>r. so_id r = so_id q) (settled_order p g x) db1 = Inr db'"
      by (cases "sc_numeric sc (sp_grossPayout p)"; cases "sc_numeric sc (sp_multiplier p)")
        (auto simp: settleOrderOnce_def bind_err_Inr assertBalanced_Inr split: if_splits)
    from settle_lines_grows [OF 1] have g: "grows (so_id q) db db1" .
    then have o: "sd_orders db1 = sd_orders db" by (simp add: grows_def)
    show ?thesis
      using so_effect.settled [of q db db1 "settled_order p g x"] find_order_Some [OF q] False g 2 update_order_Inr [OF 3] o
      by (auto simp: assertBalanced_Inr settled_order_def)
  qed
qed

lemma so_step_effect: "so_effect db (so_step sc db p)"
proof (cases p)
  case (SO_intent i)
  then show ?thesis
    by (cases "createOrderIntentOnce sc i db") (auto intro: so_effect.nothing intent_effect)
next
  case (SO_settle pl)
  then show ?thesis
    by (cases "settleOrderOnce sc pl db") (auto intro: so_effect.nothing settle_effect)
next
  case (SO_dispatched coid)
  then show ?thesis
    by (cases "markDispatched sc coid db")
      (auto simp: markDispatched_def final_status_def dest!: update_order_Inr intro!: so_effect.nothing so_effect.marked)
next
  case (SO_reconciling coid)
  then show ?thesis
    by (cases "markReconciling sc coid db")
      (auto simp: markReconciling_def final_status_def dest!: update_order_Inr intro!: so_effect.nothing so_effect.marked)
qed

section \<open>Invariants\<close>

definition sd_ok :: "settlement_db \<Rightarrow> bool" where
  "sd_ok db \<longleftrightarrow>
     distinct (map so_id (sd_orders db)) \<and> distinct (map so_clientOrderId (sd_orders db)) \<and>
     (\<forall>q \<in> set (sd_orders db). so_id q < sd_seq db) \<and>
     (\<forall>q \<in> set (sd_orders db). balanced_lines (order_lines (so_id q) db))"

lemma find_order_None: "find_order coid db = None \<longleftrightarrow> coid \<notin> so_clientOrderId ` set (sd_orders db)"
  by (auto simp: find_order_def find_None_iff)

lemma map_order_keeps:
  assumes "\<And>q. so_id (f q) = so_id q \<and> so_clientOrderId (f q) = so_clientOrderId q"
  shows "map so_id (map (\<lambda>q. if sel q then f q else q) qs) = map so_id qs"
    and "map so_clientOrderId (map (\<lambda>q. if sel q then f q else q) qs) = map so_clientOrderId qs"
  using assms by (induction qs) auto

lemma order_lines_orders [simp]: "order_lines i (db\<lparr>sd_orders := qs\<rparr>) = order_lines i db"
  "order_lines i (db\<lparr>sd_orders := qs, sd_seq := n\<rparr>) = order_lines i db"
  by (simp_all add: order_lines_def)

lemma sd_ok_ids:
  assumes "map so_id qs = map so_id (sd_orders db)"
    and "map so_clientOrderId qs = map so_clientOrderId (sd_orders db)"
    and "distinct (map so_id (sd_orders db))" "distinct (map so_clientOrderId (sd_orders db))"
    and "\<forall>q \<in> set (sd_orders db). so_id q < sd_seq db"
    and "\<forall>q \<in> set (sd_orders db). balanced_lines (order_lines (so_id q) db)"
  shows "sd_ok (db\<lparr>sd_orders := qs\<rparr>)"
proof -
  have "\<exists>r \<in> set (sd_orders db). so_id r = so_id q" if "q \<in> set qs" for q
  proof -
    have "so_id q \<in> set (map so_id qs)" using that by simp
    with assms(1) show ?thesis by auto
  qed
  with assms show ?thesis by (simp add: sd_ok_def) metis
qed

lemma so_effect_ok:
  assumes "so_effect db db'" and "sd_ok db"
  shows "sd_ok db'"
  using assms(1)
proof cases
  case nothing
  with assms(2) show ?thesis by simp
next
  case (opened q)
  then have g: "sd_orders db' = sd_orders db @ [q]" "sd_seq db' = Suc (sd_seq db)"
    "\<And>i. i \<noteq> so_id q \<Longrightarrow> order_lines i db' = order_lines i db"
    using grows_other_lines [OF opened(3)] by (auto simp: grows_def)
  with opened assms(2) show ?thesis
    by (auto simp: sd_ok_def find_order_None less_Suc_eq)
next
  case (marked sel f)
  from map_order_keeps [of f] marked(3) assms(2) show ?thesis
    unfolding marked(1) by (intro sd_ok_ids) (auto simp: sd_ok_def)
next
  case (settled q db1 f)
  have o: "sd_orders db1 = sd_orders db" "sd_seq db1 = sd_seq db"
    using settled(4) by (simp_all add: grows_def)
  have "balanced_lines (order_lines (so_id r) db1)" if "r \<in> set (sd_orders db)" for r
    using that settled(5) grows_other_lines [OF settled(4)] assms(2)
    by (cases "so_id r = so_id q") (auto simp: sd_ok_def)
  moreover note map_order_keeps [of f "\<lambda>r. so_id r = so_id q"] settled(6)
  ultimately show ?thesis
    unfolding settled(1) using o assms(2) by (intro sd_ok_ids) (auto simp: sd_ok_def)
qed

interpretation so: started "so_step sc" sd_ok empty_db
  by unfold_locales (erule so_effect_ok [OF so_step_effect], simp add: sd_ok_def empty_db_def)

text \<open>
  C17. The journal is balanced: after any sequence of committed operations, whatever the schema accepts,
  debits and credits of every order agree to within the tolerance \<open>10\<^sup>-\<^sup>8\<close> that the engine
  checks, and there is at most one order for each client order identifier.
\<close>

theorem journal_always_balanced:
  "let db = foldl (so_step sc) empty_db ops in
     list_all (\<lambda>q. balanced_lines (order_lines (so_id q) db)) (sd_orders db) \<and>
     distinct (map so_clientOrderId (sd_orders db))"
  using so.reachable_inv [of sc ops] by (simp add: sd_ok_def list_all_iff Let_def)

text \<open>A final order, with its journal lines.\<close>

definition final_kept :: "settlement_order \<Rightarrow> journal_line list \<Rightarrow> settlement_db \<Rightarrow> bool" where
  "final_kept q ls db \<longleftrightarrow> sd_ok db \<and> q \<in> set (sd_orders db) \<and> final_status (so_status q) \<and>
     order_lines (so_id q) db = ls"

lemma final_kept_effect:
  assumes "so_effect db db'" and f: "final_kept q ls db"
  shows "final_kept q ls db'"
proof -
  have ok: "sd_ok db'" using so_effect_ok [OF assms(1)] f by (simp add: final_kept_def)
  from assms(1) have "q \<in> set (sd_orders db') \<and> order_lines (so_id q) db' = ls"
  proof cases
    case nothing
    with f show ?thesis by (simp add: final_kept_def)
  next
    case (opened q')
    from f have "so_id q < sd_seq db" by (auto simp: final_kept_def sd_ok_def)
    with opened f grows_other_lines [OF opened(3), of "so_id q"] show ?thesis
      by (auto simp: final_kept_def grows_def)
  next
    case (marked sel g)
    with f show ?thesis by (auto simp: final_kept_def intro!: image_eqI [of _ _ q])
  next
    case (settled r db1 g)
    have "so_id q \<noteq> so_id r"
    proof
      assume "so_id q = so_id r"
      with f settled(2) have "q = r"
        by (auto simp: final_kept_def sd_ok_def distinct_map inj_on_def)
      with f settled(3) show False by (simp add: final_kept_def)
    qed
    with f settled(1) grows_other_lines [OF settled(4), of "so_id q"] show ?thesis
      by (auto simp: final_kept_def intro!: image_eqI [of _ _ q])
  qed
  with ok f show ?thesis by (simp add: final_kept_def)
qed

interpretation so_final: stepwise "so_step sc" "final_kept q ls"
  by unfold_locales (rule final_kept_effect [OF so_step_effect])

text \<open>
  C18. An order is settled at most once: when it is won, lost or void, no later operation (a second
  settlement with other figures, a new intent with the same identifier, a status mark) changes
  its row or adds a line to its journal.
\<close>

theorem final_order_never_changes:
  assumes "q \<in> set (sd_orders (foldl (so_step sc) empty_db ops))" and "final_status (so_status q)"
  shows "let db = foldl (so_step sc) empty_db ops; db' = foldl (so_step sc) db ops' in
           q \<in> set (sd_orders db') \<and> order_lines (so_id q) db' = order_lines (so_id q) db"
proof -
  have "final_kept q (order_lines (so_id q) (foldl (so_step sc) empty_db ops)) (foldl (so_step sc) empty_db ops)"
    using assms so.reachable_inv [of sc ops] by (simp add: final_kept_def)
  from so_final.run_inv [OF this, of sc ops'] show ?thesis by (simp add: final_kept_def Let_def)
qed

text \<open>A schema without guards, an intent of 700 and its settlement.\<close>

definition ex_schema :: schema where
  "ex_schema = \<lparr>sc_numeric = (\<lambda>x. case x of Fin q \<Rightarrow> Some q | _ \<Rightarrow> None),
     sc_line = (\<lambda>d c. 0 \<le> d \<and> 0 \<le> c), sc_change = (\<lambda>_ _. True)\<rparr>"

definition ex_intent :: order_intent where
  "ex_intent = \<lparr>oi_clientOrderId = ''c1'', oi_tenantId = None, oi_betId = None, oi_gameId = None,
     oi_roundId = None, oi_wagerAmount = Fin 700, oi_targetMultiplier = Fin 2\<rparr>"

definition ex_payload :: "settle_status \<Rightarrow> jsnum \<Rightarrow> settlement_payload" where
  "ex_payload st gross = \<lparr>sp_clientOrderId = ''c1'', sp_status = st, sp_grossPayout = gross,
     sp_multiplier = Fin 2, sp_settledAt = Fin 5, sp_externalReference = None\<rparr>"

lemma fixed8_int [simp]: "fixed8_pos (of_int n) = of_int n" "fixed8_pos (numeral k) = numeral k" "fixed8_pos 0 = 0"
proof -
  have *: "fixed8_pos (of_int m) = of_int m" for m
  proof -
    have "\<lfloor>(of_int m :: rat) * 10 ^ 8 + 1/2\<rfloor> = m * 10 ^ 8" by (rule floor_unique) simp_all
    then show ?thesis by (simp add: fixed8_pos_def)
  qed
  show "fixed8_pos (of_int n) = of_int n" by (rule *)
  show "fixed8_pos (numeral k) = numeral k" using * [of "numeral k"] by simp
  show "fixed8_pos 0 = 0" using * [of 0] by simp
qed

lemma balanced_equal: "sum_list (map jn_debit ls) = sum_list (map jn_credit ls) \<Longrightarrow> balanced_lines ls"
proof -
  assume "sum_list (map jn_debit ls) = sum_list (map jn_credit ls)"
  moreover have "\<not> jlt (lit (1 / 10 ^ 8)) (jabs (jsub (rnd x) (rnd x)))" for x
  proof (cases "rnd x")
    case (Fin y)
    have "jle (Fin 0) (lit (1 / 10 ^ 8))" unfolding lit_def by (rule rnd_nonneg) simp
    with Fin show ?thesis using jlt_not_jle by fastforce
  qed (auto simp: jsub_def)
  ultimately show ?thesis by (simp add: balanced_lines_def Let_def)
qed

lemmas settlement_eval = ex_schema_def ex_intent_def ex_payload_def empty_db_def createOrderIntentOnce_def
  find_order_def insertEntry_def assertBalanced_def new_order_def order_lines_def Let_def

theorem final_order_never_changes_witness:
  "let db = foldl (so_step ex_schema) empty_db [SO_intent ex_intent, SO_settle (ex_payload S_LOSS (Fin 0))];
       db' = foldl (so_step ex_schema) db [SO_settle (ex_payload S_WIN (Fin 1400)), SO_intent ex_intent] in
     sd_orders db \<noteq> [] \<and> hd (sd_orders db) \<in> set (sd_orders db') \<and> so_status (hd (sd_orders db)) = SETTLED_LOSS"
proof -
  let ?db1 = "so_step ex_schema empty_db (SO_intent ex_intent)"
  let ?db = "foldl (so_step ex_schema) empty_db [SO_intent ex_intent, SO_settle (ex_payload S_LOSS (Fin 0))]"
  have 1: "?db1 = \<lparr>sd_orders = [new_order 0 ex_intent 700 2],
      sd_journal = [\<lparr>jn_order = 0, jn_account = UNSETTLED, jn_debit = 700, jn_credit = 0, jn_memo = Exposure_open\<rparr>,
        \<lparr>jn_order = 0, jn_account = HOT_WALLET, jn_debit = 0, jn_credit = 700, jn_memo = Wager_lock\<rparr>],
      sd_cache = (\<lambda>_. 0), sd_seq = 1\<rparr>"
    by (simp add: settlement_eval balanced_equal)
  have 2: "sd_orders ?db = [settled_order (ex_payload S_LOSS (Fin 0)) 0 2 (new_order 0 ex_intent 700 2)]"
    by (simp add: 1 [unfolded settlement_eval new_order_def]) 
      (simp add: 1 settleOrderOnce_def valid_payload_def final_status_def settle_lines_def update_order_def
        settlement_eval balanced_equal)
  then have q: "hd (sd_orders ?db) \<in> set (sd_orders ?db)" "final_status (so_status (hd (sd_orders ?db)))"
    by (simp_all add: settled_order_def ex_payload_def final_status_def)
  from final_order_never_changes [OF q, of "[SO_settle (ex_payload S_WIN (Fin 1400)), SO_intent ex_intent]"] 2
  show ?thesis unfolding Let_def by (simp add: settled_order_def ex_payload_def)
qed

section \<open>What a settlement books\<close>

text \<open>Debits minus credits of an order on an account.\<close>

definition account_net :: "account \<Rightarrow> nat \<Rightarrow> settlement_db \<Rightarrow> rat" where
  "account_net acc oid db =
     sum_list (map (\<lambda>l. jn_debit l - jn_credit l) (filter (\<lambda>l. jn_account l = acc) (order_lines oid db)))"

lemma account_net_orders [simp]: "account_net acc i (db\<lparr>sd_orders := qs\<rparr>) = account_net acc i db"
  by (simp add: account_net_def)

lemma insertEntry_net:
  assumes "insertEntry sc oid acc (Fin d) (Fin c) m db = Inr db'" and "0 \<le> d" and "0 \<le> c"
  shows "account_net a oid db' = account_net a oid db + (if a = acc then fixed8_pos d - fixed8_pos c else 0)"
  using assms by (auto simp: insertEntry_def account_net_def order_lines_def split: if_splits)

lemma insertEntry_other:
  assumes "insertEntry sc oid acc d c m db = Inr db'" and "a \<noteq> acc"
  shows "account_net a oid db' = account_net a oid db"
  using assms by (auto simp: insertEntry_def account_net_def order_lines_def split: if_splits option.splits)

lemma settle_lines_net:
  assumes "settle_lines sc oid st (Fin w) (Fin g) db = Inr db'" and "0 \<le> w" and "0 \<le> g"
  shows "account_net UNSETTLED oid db' = account_net UNSETTLED oid db - fixed8_pos w"
    and "account_net HOT_WALLET oid db' = account_net HOT_WALLET oid db +
           (case st of S_WIN \<Rightarrow> fixed8_pos g | S_LOSS \<Rightarrow> 0 | S_VOID \<Rightarrow> fixed8_pos w)"
proof -
  have "account_net UNSETTLED oid db' = account_net UNSETTLED oid db - fixed8_pos w \<and>
        account_net HOT_WALLET oid db' = account_net HOT_WALLET oid db +
          (case st of S_WIN \<Rightarrow> fixed8_pos g | S_LOSS \<Rightarrow> 0 | S_VOID \<Rightarrow> fixed8_pos w)"
  proof (cases st)
    case S_WIN
    with assms(1) obtain db1 db2 where
      1: "(if 0 < g then insertEntry sc oid HOT_WALLET (Fin g) (Fin 0) Payout db else Inr db) = Inr db1" and
      2: "insertEntry sc oid UNSETTLED (Fin 0) (Fin w) Exposure_close db1 = Inr db2" and
      3: "(if jlt (Fin 0) (rnd (g - w)) then insertEntry sc oid REALIZED_PNL (Fin 0) (rnd (g - w)) Pnl_profit db2
           else if jlt (rnd (g - w)) (Fin 0) then insertEntry sc oid REALIZED_PNL (jabs (rnd (g - w))) (Fin 0) Pnl_residual db2
           else Inr db2) = Inr db'"
      by (auto simp: settle_lines_def Let_def bind_err_Inr)
    have n3: "account_net a oid db' = account_net a oid db2" if "a \<noteq> REALIZED_PNL" for a
      using 3 that by (auto split: if_splits dest: insertEntry_other)
    have n1: "account_net a oid db1 = account_net a oid db + (if a = HOT_WALLET then fixed8_pos g else 0)" for a
      using 1 assms(3) by (auto split: if_splits dest: insertEntry_net [where a = a])
    show ?thesis
      using n3 n1 insertEntry_net [OF 2] assms(2) S_WIN by simp
  next
    case S_LOSS
    with assms(1) obtain db1 where
      1: "insertEntry sc oid REALIZED_PNL (Fin w) (Fin 0) Pnl_loss db = Inr db1" and
      2: "insertEntry sc oid UNSETTLED (Fin 0) (Fin w) Exposure_close db1 = Inr db'"
      by (auto simp: settle_lines_def Let_def bind_err_Inr)
    show ?thesis using insertEntry_net [OF 1] insertEntry_net [OF 2] assms(2) S_LOSS by simp
  next
    case S_VOID
    with assms(1) obtain db1 where
      1: "insertEntry sc oid HOT_WALLET (Fin w) (Fin 0) Void_refund db = Inr db1" and
      2: "insertEntry sc oid UNSETTLED (Fin 0) (Fin w) Exposure_close_void db1 = Inr db'"
      by (auto simp: settle_lines_def Let_def bind_err_Inr)
    show ?thesis using insertEntry_net [OF 1] insertEntry_net [OF 2] assms(2) S_VOID by simp
  qed
  then show "account_net UNSETTLED oid db' = account_net UNSETTLED oid db - fixed8_pos w"
    and "account_net HOT_WALLET oid db' = account_net HOT_WALLET oid db +
           (case st of S_WIN \<Rightarrow> fixed8_pos g | S_LOSS \<Rightarrow> 0 | S_VOID \<Rightarrow> fixed8_pos w)" by simp_all
qed

text \<open>
  C20. A settlement closes the exposure by exactly the wager on record, whatever the result, and credits
  the hot wallet with the gross payout of a win, the wager of a void order and nothing for a
  loss (amounts to eight decimals).
\<close>

theorem settlement_books:
  assumes "settleOrderOnce sc p db = Inr (Settled, db')"
    and "find_order (sp_clientOrderId p) db = Some q"
    and "rnd (so_wager q) = Fin w" and "0 \<le> w" and "sp_grossPayout p = Fin g"
  shows "account_net UNSETTLED (so_id q) db' = account_net UNSETTLED (so_id q) db - fixed8_pos w \<and>
         account_net HOT_WALLET (so_id q) db' = account_net HOT_WALLET (so_id q) db +
           (case sp_status p of S_WIN \<Rightarrow> fixed8_pos g | S_LOSS \<Rightarrow> 0 | S_VOID \<Rightarrow> fixed8_pos w)"
proof -
  have v: "valid_payload p" "\<not> final_status (so_status q)"
    using assms(1,2) by (auto simp: settleOrderOnce_def split: if_splits)
  with assms obtain db1 gn x where
    1: "settle_lines sc (so_id q) (sp_status p) (Fin w) (Fin g) db = Inr db1" and
    2: "update_order sc (\<lambda>r. so_id r = so_id q) (settled_order p gn x) db1 = Inr db'"
    by (cases "sc_numeric sc (sp_grossPayout p)"; cases "sc_numeric sc (sp_multiplier p)")
      (auto simp: settleOrderOnce_def bind_err_Inr assertBalanced_Inr split: if_splits)
  have "0 \<le> g" using v(1) assms(5) by (simp add: valid_payload_def)
  from settle_lines_net [OF 1 assms(4) this] update_order_Inr [OF 2] show ?thesis by simp
qed

definition ex_open_db :: settlement_db where
  "ex_open_db = so_step ex_schema empty_db (SO_intent ex_intent)"

lemma ex_open_eval:
  "ex_open_db = \<lparr>sd_orders = [new_order 0 ex_intent 700 2],
     sd_journal = [\<lparr>jn_order = 0, jn_account = UNSETTLED, jn_debit = 700, jn_credit = 0, jn_memo = Exposure_open\<rparr>,
       \<lparr>jn_order = 0, jn_account = HOT_WALLET, jn_debit = 0, jn_credit = 700, jn_memo = Wager_lock\<rparr>],
     sd_cache = (\<lambda>_. 0), sd_seq = 1\<rparr>"
  by (simp add: ex_open_db_def settlement_eval balanced_equal)

theorem settlement_books_witness:
  "\<exists>db'. settleOrderOnce ex_schema (ex_payload S_VOID (Fin 700)) ex_open_db = Inr (Settled, db') \<and>
     account_net UNSETTLED 0 db' = 0 \<and> account_net HOT_WALLET 0 db' = 0"
proof -
  obtain db' where s: "settleOrderOnce ex_schema (ex_payload S_VOID (Fin 700)) ex_open_db = Inr (Settled, db')"
    by (simp add: ex_open_eval settleOrderOnce_def valid_payload_def final_status_def settle_lines_def
        update_order_def settlement_eval balanced_equal)
  have q: "find_order (sp_clientOrderId (ex_payload S_VOID (Fin 700))) ex_open_db = Some (new_order 0 ex_intent 700 2)"
    by (simp add: ex_open_eval settlement_eval)
  have w: "rnd (so_wager (new_order 0 ex_intent 700 2)) = Fin 700" by (simp add: new_order_def)
  have g: "sp_grossPayout (ex_payload S_VOID (Fin 700)) = Fin 700" by (simp add: ex_payload_def)
  have n: "account_net UNSETTLED 0 ex_open_db = 700" "account_net HOT_WALLET 0 ex_open_db = - 700"
    by (simp_all add: account_net_def ex_open_eval order_lines_def)
  from settlement_books [OF s q w _ g] n s show ?thesis
    by (simp add: new_order_def) (simp add: ex_payload_def)
qed

section \<open>The drift guard compares with a constant\<close>

lemma so_effect_cache: "so_effect db db' \<Longrightarrow> sd_cache db' = sd_cache db"
  by (erule so_effect.cases) (simp_all add: grows_def)

lemma cache_never_updated: "sd_cache (foldl (so_step sc) db ops) = sd_cache db"
proof (induction ops arbitrary: db)
  case (Cons p ops)
  then show ?case using so_effect_cache [OF so_step_effect [of db sc p]] by simp
qed simp

text \<open>
  The drift guard does not see the journal: the balance it reads comes from a cache that no operation
  of the engine writes. Whatever has been booked, an armed guard passes exactly when the
  remote balance itself lies within the threshold, so it halts on any real balance.
\<close>

theorem drift_guard_ignores_journal:
  assumes "dbl (Fin r)"
  shows "fst (snd (dg_check (foldl (so_step sc) empty_db ops) (Fin r)
           \<lparr>dg_threshold = Fin t, dg_tripped = False\<rparr>)) = (\<bar>r\<bar> \<le> t)"
proof -
  have "rnd (- r) = Fin (- r)" using assms by (simp add: dbl_Fin rnd_neg)
  then show ?thesis
    by (auto simp: dg_check_def getAccountBalance_def cache_never_updated empty_db_def Let_def)
qed

theorem drift_guard_ignores_journal_witness:
  "\<not> fst (snd (dg_check (foldl (so_step ex_schema) empty_db [SO_intent ex_intent]) (Fin 700)
       \<lparr>dg_threshold = Fin 50, dg_tripped = False\<rparr>))"
proof -
  have "dbl (Fin 700)" by (simp add: dbl_Fin)
  from drift_guard_ignores_journal [OF this, of ex_schema "[SO_intent ex_intent]" 50] show ?thesis by simp
qed

end
