(* ===== verification/DryRun.thy ===== *)
theory DryRun
  imports JsNumber CircuitBreaker "HOL-Library.AList"
begin

text \<open>
  The dry-run mode of \<open>src/src/core/dry-run\<close>: the virtual ledger, the controller in front of it
  and the executor that reports simulated executions. A \<open>Map\<close> whose order is visible is an
  association list in insertion order; \<^const>\<open>AList.update\<close> is its \<open>set\<close>.
\<close>

section \<open>Virtual ledger\<close>

datatype trade_status = V_OPEN | V_WIN | V_LOSS | V_CANCELLED

record virtual_trade =
  vt_id :: string
  vt_tenantId :: "string option"
  vt_sessionId :: "string option"
  vt_predictionId :: "string option"
  vt_signalId :: "string option"
  vt_roundId :: string
  vt_stake :: jsnum
  vt_target :: jsnum
  vt_entryTimestamp :: int
  vt_status :: trade_status
  vt_crashPoint :: "jsnum option"
  vt_pnl :: "jsnum option"
  vt_resolvedAt :: "int option"

record virtual_ledger =
  vl_trades :: "(string \<times> virtual_trade) list"
  vl_byRound :: "string \<rightharpoonup> string list"
  vl_bySignal :: "string set"
  vl_balance :: jsnum
  vl_initialBalance :: jsnum
  vl_peakEquity :: jsnum
  vl_maxDrawdown :: jsnum
  vl_wins :: int
  vl_losses :: int
  vl_netPnl :: jsnum

record open_params =
  op_id :: string
  op_tenantId :: "string option"
  op_sessionId :: "string option"
  op_predictionId :: "string option"
  op_signalId :: "string option"
  op_roundId :: string
  op_stake :: jsnum
  op_target :: jsnum

definition vl_new :: "jsnum \<Rightarrow> virtual_ledger" where
  "vl_new initial =
     \<lparr>vl_trades = [], vl_byRound = (\<lambda>_. None), vl_bySignal = {}, vl_balance = initial,
      vl_initialBalance = initial, vl_peakEquity = initial, vl_maxDrawdown = Fin 0, vl_wins = 0,
      vl_losses = 0, vl_netPnl = Fin 0\<rparr>"

definition updateDrawdown :: "virtual_ledger \<Rightarrow> virtual_ledger" where
  "updateDrawdown l =
     (let l1 = (if jlt (vl_peakEquity l) (vl_balance l) then l\<lparr>vl_peakEquity := vl_balance l\<rparr> else l);
          dd = (if jlt (Fin 0) (vl_peakEquity l1)
                then jdiv (jsub (vl_peakEquity l1) (vl_balance l1)) (vl_peakEquity l1) else Fin 0)
      in if jlt (vl_maxDrawdown l1) dd then l1\<lparr>vl_maxDrawdown := dd\<rparr> else l1)"

definition openTrade :: "int \<Rightarrow> open_params \<Rightarrow> virtual_ledger \<Rightarrow> virtual_trade option \<times> virtual_ledger" where
  "openTrade now p l =
     (if truthy_str (op_signalId p) \<and> the (op_signalId p) \<in> vl_bySignal l then (None, l)
      else if jlt (vl_balance l) (op_stake p) then (None, l)
      else
        let t = \<lparr>vt_id = op_id p, vt_tenantId = op_tenantId p, vt_sessionId = op_sessionId p,
                 vt_predictionId = op_predictionId p, vt_signalId = op_signalId p,
                 vt_roundId = op_roundId p, vt_stake = op_stake p, vt_target = op_target p,
                 vt_entryTimestamp = now, vt_status = V_OPEN, vt_crashPoint = None, vt_pnl = None,
                 vt_resolvedAt = None\<rparr>
        in (Some t, updateDrawdown
              (l\<lparr>vl_trades := AList.update (op_id p) t (vl_trades l),
                 vl_byRound := (vl_byRound l)(op_roundId p \<mapsto> or_else (vl_byRound l (op_roundId p)) [] @ [op_id p]),
                 vl_bySignal := (if truthy_str (op_signalId p) then insert (the (op_signalId p)) (vl_bySignal l)
                                 else vl_bySignal l),
                 vl_balance := jsub (vl_balance l) (op_stake p)\<rparr>)))"

text \<open>One turn of the loop of \<open>resolveRound\<close>.\<close>

definition resolve_one ::
  "int \<Rightarrow> jsnum \<Rightarrow> virtual_ledger \<times> virtual_trade list \<Rightarrow> string \<Rightarrow> virtual_ledger \<times> virtual_trade list" where
  "resolve_one now crash = (\<lambda>(l, resolved) i.
     case map_of (vl_trades l) i of
       None \<Rightarrow> (l, resolved)
     | Some t \<Rightarrow>
         if vt_status t \<noteq> V_OPEN then (l, resolved)
         else
           let win = jle (vt_target t) crash;
               payout = jmul (vt_stake t) (vt_target t);
               pnl = (if win then jsub payout (vt_stake t) else jneg (vt_stake t));
               t' = t\<lparr>vt_status := (if win then V_WIN else V_LOSS), vt_pnl := Some pnl,
                      vt_crashPoint := Some crash, vt_resolvedAt := Some now\<rparr>;
               l' = l\<lparr>vl_trades := AList.update i t' (vl_trades l),
                      vl_balance := (if win then jadd (vl_balance l) payout else vl_balance l),
                      vl_wins := (if win then vl_wins l + 1 else vl_wins l),
                      vl_losses := (if win then vl_losses l else vl_losses l + 1),
                      vl_netPnl := jadd (vl_netPnl l) pnl\<rparr>
           in (updateDrawdown l', resolved @ [t']))"

definition resolveRound :: "int \<Rightarrow> string \<Rightarrow> jsnum \<Rightarrow> virtual_ledger \<Rightarrow> virtual_ledger \<times> virtual_trade list" where
  "resolveRound now rid crash l =
     foldl (resolve_one now crash) (l, []) (or_else (vl_byRound l rid) [])"

record ledger_snapshot =
  ls_virtualBalance :: jsnum
  ls_initialBalance :: jsnum
  ls_openTrades :: nat
  ls_wins :: int
  ls_losses :: int
  ls_winRate :: jsnum
  ls_netPnl :: jsnum
  ls_trades :: int
  ls_equity :: jsnum
  ls_maxDrawdown :: jsnum

definition vl_snapshot :: "virtual_ledger \<Rightarrow> ledger_snapshot" where
  "vl_snapshot l =
     (let n = vl_wins l + vl_losses l
      in \<lparr>ls_virtualBalance = vl_balance l, ls_initialBalance = vl_initialBalance l,
          ls_openTrades = length (filter (\<lambda>(_, t). vt_status t = V_OPEN) (vl_trades l)),
          ls_wins = vl_wins l, ls_losses = vl_losses l,
          ls_winRate = (if n > 0 then jdiv (jsint (vl_wins l)) (jsint n) else Fin 0),
          ls_netPnl = vl_netPnl l, ls_trades = n, ls_equity = vl_balance l,
          ls_maxDrawdown = vl_maxDrawdown l\<rparr>)"

section \<open>Controller\<close>

record dry_run_config =
  dr_stake :: jsnum
  dr_target :: jsnum
  dr_initialVirtualBalance :: jsnum
  dr_maxDailyVirtualTrades :: int
  dr_minProbability :: jsnum
  dr_minConfidence :: jsnum

definition DEFAULT_CFG :: dry_run_config where
  "DEFAULT_CFG = \<lparr>dr_stake = Fin 700, dr_target = lit (13/10), dr_initialVirtualBalance = Fin 10000,
     dr_maxDailyVirtualTrades = 100, dr_minProbability = lit (35/100), dr_minConfidence = lit (3/10)\<rparr>"

record dry_run_signal =
  dsg_signalId :: string
  dsg_predictionId :: "string option"
  dsg_roundId :: string
  dsg_probability :: jsnum
  dsg_confidence :: jsnum
  dsg_target :: jsnum
  dsg_stake :: "jsnum option"

record dry_run_controller =
  ct_cfg :: dry_run_config
  ct_ledger :: virtual_ledger
  ct_dailyTrades :: int
  ct_dailyKey :: string
  ct_predictions :: int
  ct_signals :: int
  ct_signalsAccepted :: int
  ct_signalsRejected :: int
  ct_roundsObserved :: int
  ct_sessionId :: "string option"
  ct_tenantId :: "string option"
  ct_running :: bool

text \<open>\<open>shared\<close> is the process-wide ledger, if one exists already; then its balance is kept.\<close>

definition ct_new :: "dry_run_config \<Rightarrow> virtual_ledger option \<Rightarrow> string \<Rightarrow> dry_run_controller" where
  "ct_new cfg shared today =
     \<lparr>ct_cfg = cfg, ct_ledger = or_else shared (vl_new (dr_initialVirtualBalance cfg)), ct_dailyTrades = 0,
      ct_dailyKey = today, ct_predictions = 0, ct_signals = 0, ct_signalsAccepted = 0,
      ct_signalsRejected = 0, ct_roundsObserved = 0, ct_sessionId = None, ct_tenantId = None,
      ct_running = False\<rparr>"

definition ct_start :: "string \<Rightarrow> string option \<Rightarrow> dry_run_controller \<Rightarrow> dry_run_controller" where
  "ct_start sess tenant c = c\<lparr>ct_sessionId := Some sess, ct_tenantId := tenant, ct_running := True\<rparr>"

definition ct_stop :: "dry_run_controller \<Rightarrow> dry_run_controller" where
  "ct_stop c = c\<lparr>ct_running := False\<rparr>"

definition ct_onRoundCompleted :: "int \<Rightarrow> string \<Rightarrow> jsnum \<Rightarrow> dry_run_controller \<Rightarrow> dry_run_controller" where
  "ct_onRoundCompleted now rid crash c =
     (if \<not> ct_running c then c
      else c\<lparr>ct_roundsObserved := ct_roundsObserved c + 1,
             ct_ledger := fst (resolveRound now rid crash (ct_ledger c))\<rparr>)"

definition recordPrediction :: "dry_run_controller \<Rightarrow> dry_run_controller" where
  "recordPrediction c = c\<lparr>ct_predictions := ct_predictions c + 1\<rparr>"

definition rollDaily :: "string \<Rightarrow> dry_run_controller \<Rightarrow> dry_run_controller" where
  "rollDaily today c =
     (if today \<noteq> ct_dailyKey c then c\<lparr>ct_dailyKey := today, ct_dailyTrades := 0\<rparr> else c)"

datatype dry_run_reason = Not_running | Low_probability | Low_confidence | Daily_limit | Ledger_rejected

text \<open>\<open>signal.target || cfg.target\<close>: zero and \<open>NaN\<close> count as absent.\<close>

definition evaluateAndSimulate ::
  "int \<Rightarrow> string \<Rightarrow> string \<Rightarrow> dry_run_signal \<Rightarrow> dry_run_controller \<Rightarrow> dry_run_reason option \<times> dry_run_controller" where
  "evaluateAndSimulate now today uuid sig c =
     (if \<not> ct_running c then (Some Not_running, c)
      else
        let c1 = rollDaily today (c\<lparr>ct_signals := ct_signals c + 1\<rparr>);
            reject = (\<lambda>why. (Some why, c1\<lparr>ct_signalsRejected := ct_signalsRejected c1 + 1\<rparr>))
        in if jlt (dsg_probability sig) (dr_minProbability (ct_cfg c1)) then reject Low_probability
           else if jlt (dsg_confidence sig) (dr_minConfidence (ct_cfg c1)) then reject Low_confidence
           else if ct_dailyTrades c1 \<ge> dr_maxDailyVirtualTrades (ct_cfg c1) then reject Daily_limit
           else
             let stake = or_else (dsg_stake sig) (dr_stake (ct_cfg c1));
                 target = (if dsg_target sig = Fin 0 \<or> dsg_target sig = NaN
                           then dr_target (ct_cfg c1) else dsg_target sig)
             in case openTrade now
                       \<lparr>op_id = uuid, op_tenantId = ct_tenantId c1, op_sessionId = ct_sessionId c1,
                        op_predictionId = dsg_predictionId sig, op_signalId = Some (dsg_signalId sig),
                        op_roundId = dsg_roundId sig, op_stake = stake, op_target = target\<rparr> (ct_ledger c1) of
                  (None, _) \<Rightarrow> reject Ledger_rejected
                | (Some _, l') \<Rightarrow>
                    (None, c1\<lparr>ct_ledger := l', ct_dailyTrades := ct_dailyTrades c1 + 1,
                              ct_signalsAccepted := ct_signalsAccepted c1 + 1\<rparr>))"

section \<open>Executor\<close>

datatype dry_run_outcome = D_WIN | D_LOSS | D_VOID

record dry_run_execution =
  dx_tenantId :: string
  dx_signalId :: string
  dx_roundId :: string
  dx_stake :: jsnum
  dx_targetMultiplier :: jsnum
  dx_entryMultiplier :: "jsnum option"
  dx_exitMultiplier :: "jsnum option"
  dx_outcome :: dry_run_outcome
  dx_pnl :: jsnum
  dx_latencyMs :: int

record dry_run_executor =
  de_controller :: dry_run_controller
  de_pending :: "string \<rightharpoonup> dry_run_signal \<times> int \<times> jsnum \<times> jsnum"

definition executeSignal ::
  "int \<Rightarrow> int \<Rightarrow> string \<Rightarrow> string \<Rightarrow> dry_run_signal \<Rightarrow> string \<Rightarrow> dry_run_executor \<Rightarrow>
     dry_run_execution option \<times> dry_run_executor" where
  "executeSignal begun later today uuid sig tenant x =
     (case evaluateAndSimulate begun today uuid sig (de_controller x) of
        (Some why, c') \<Rightarrow> (None, x\<lparr>de_controller := c'\<rparr>)
      | (None, c') \<Rightarrow>
          let stake = or_else (dsg_stake sig) (Fin 700);
              target = dsg_target sig
          in (Some \<lparr>dx_tenantId = tenant, dx_signalId = dsg_signalId sig, dx_roundId = dsg_roundId sig,
                    dx_stake = stake, dx_targetMultiplier = target, dx_entryMultiplier = None,
                    dx_exitMultiplier = None, dx_outcome = D_VOID, dx_pnl = Fin 0,
                    dx_latencyMs = later - begun\<rparr>,
              x\<lparr>de_controller := c',
                de_pending := (de_pending x)(dsg_roundId sig \<mapsto> (sig, begun, stake, target))\<rparr>))"

definition onRoundComplete ::
  "int \<Rightarrow> string \<Rightarrow> jsnum \<Rightarrow> string \<Rightarrow> dry_run_executor \<Rightarrow> dry_run_execution list \<times> dry_run_executor" where
  "onRoundComplete now rid crash tenant x =
     (let x' = x\<lparr>de_controller := ct_onRoundCompleted now rid crash (de_controller x),
                 de_pending := (de_pending x)(rid := None)\<rparr>
      in case de_pending x rid of
           None \<Rightarrow> ([], x')
         | Some (sig, openedAt, stake, target) \<Rightarrow>
             let win = jle target crash;
                 pnl = (if win then jmul stake (jsub target (Fin 1)) else jneg stake)
             in ([\<lparr>dx_tenantId = tenant, dx_signalId = dsg_signalId sig, dx_roundId = rid, dx_stake = stake,
                   dx_targetMultiplier = target, dx_entryMultiplier = Some (Fin 1),
                   dx_exitMultiplier = Some (if win then target else crash),
                   dx_outcome = (if win then D_WIN else D_LOSS), dx_pnl = pnl, dx_latencyMs = now - openedAt\<rparr>],
                 x'))"

section \<open>A trade is resolved once\<close>

lemma updateDrawdown_fields [simp]:
  "vl_trades (updateDrawdown l) = vl_trades l" "vl_byRound (updateDrawdown l) = vl_byRound l"
  "vl_balance (updateDrawdown l) = vl_balance l" "vl_wins (updateDrawdown l) = vl_wins l"
  "vl_losses (updateDrawdown l) = vl_losses l" "vl_netPnl (updateDrawdown l) = vl_netPnl l"
  by (simp_all add: updateDrawdown_def Let_def)

definition is_open :: "virtual_ledger \<Rightarrow> string \<Rightarrow> bool" where
  "is_open l i \<longleftrightarrow> (\<exists>t. map_of (vl_trades l) i = Some t \<and> vt_status t = V_OPEN)"

lemma resolve_one_skip: "\<not> is_open l i \<Longrightarrow> resolve_one now crash (l, rs) i = (l, rs)"
  by (auto simp: is_open_def resolve_one_def split: option.split)

lemma resolve_one_closes: "\<not> is_open (fst (resolve_one now crash (l, rs) i)) i"
  by (auto simp: is_open_def resolve_one_def Let_def update_conv' split: option.split)

lemma resolve_one_keeps: "\<not> is_open l j \<Longrightarrow> \<not> is_open (fst (resolve_one now crash (l, rs) i)) j"
  by (cases "j = i") (auto simp: is_open_def resolve_one_def Let_def update_conv' split: option.split)

lemma resolve_one_byRound: "vl_byRound (fst (resolve_one now crash (l, rs) i)) = vl_byRound l"
  by (auto simp: resolve_one_def Let_def split: option.split)

lemma resolve_loop_keeps:
  "\<not> is_open (fst st) j \<Longrightarrow> \<not> is_open (fst (foldl (resolve_one now crash) st is)) j"
proof (induction "is" arbitrary: st)
  case (Cons i js)
  then show ?case
    using resolve_one_keeps [of "fst st" j now crash "snd st" i] by simp
qed simp

lemma resolve_loop_closes:
  "j \<in> set is \<Longrightarrow> \<not> is_open (fst (foldl (resolve_one now crash) st is)) j"
proof (induction "is" arbitrary: st)
  case (Cons i js)
  show ?case
  proof (cases "j = i")
    case True
    have "\<not> is_open (fst (resolve_one now crash st i)) i"
      using resolve_one_closes [of now crash "fst st" "snd st" i] by simp
    with True show ?thesis by (simp add: resolve_loop_keeps)
  next
    case False
    with Cons show ?thesis by simp
  qed
qed simp

lemma resolve_loop_byRound: "vl_byRound (fst (foldl (resolve_one now crash) st is)) = vl_byRound (fst st)"
proof (induction "is" arbitrary: st)
  case (Cons i js)
  then show ?case using resolve_one_byRound [of now crash "fst st" "snd st" i] by simp
qed simp

lemma resolve_loop_skip:
  "\<forall>i \<in> set is. \<not> is_open l i \<Longrightarrow> foldl (resolve_one now crash) (l, rs) is = (l, rs)"
  by (induction "is") (simp_all add: resolve_one_skip)

text \<open>
  A virtual trade is resolved once: when the crash of a round is reported again, with any crash
  point, nothing is resolved and the ledger stays as it is.
\<close>

theorem round_resolved_once:
  "resolveRound now2 rid crash2 (fst (resolveRound now1 rid crash1 l)) = (fst (resolveRound now1 rid crash1 l), [])"
  unfolding resolveRound_def
  by (simp add: resolve_loop_byRound resolve_loop_skip resolve_loop_closes)

section \<open>The virtual balance\<close>

datatype vl_event = VE_open int open_params | VE_crash int string jsnum

fun vl_step :: "virtual_ledger \<Rightarrow> vl_event \<Rightarrow> virtual_ledger" where
  "vl_step l (VE_open now p) = snd (openTrade now p l)"
| "vl_step l (VE_crash now rid crash) = fst (resolveRound now rid crash l)"

definition amount :: "jsnum \<Rightarrow> bool" where
  "amount x \<longleftrightarrow> is_fin x \<and> jle (Fin 0) x"

fun sane_event :: "vl_event \<Rightarrow> bool" where
  "sane_event (VE_open now p) = (amount (op_stake p) \<and> amount (op_target p))"
| "sane_event _ = True"

definition vl_sane :: "virtual_ledger \<Rightarrow> bool" where
  "vl_sane l \<longleftrightarrow> jle (Fin 0) (vl_balance l) \<and>
     (\<forall>i t. map_of (vl_trades l) i = Some t \<longrightarrow> amount (vt_stake t) \<and> amount (vt_target t))"

lemma jle_zero [simp]: "jle (Fin 0) PInf" "\<not> jle (Fin 0) NInf" "\<not> jle (Fin 0) NaN"
  by (simp_all add: jle_def)

lemma jle_zero_add: "jle (Fin 0) a \<Longrightarrow> jle (Fin 0) b \<Longrightarrow> jle (Fin 0) (jadd a b)"
  by (cases a; cases b) (simp_all add: rnd_nonneg)

lemma jle_zero_sub: "jle (Fin 0) a \<Longrightarrow> amount s \<Longrightarrow> \<not> jlt a s \<Longrightarrow> jle (Fin 0) (jsub a s)"
  by (cases a; cases s) (simp_all add: rnd_nonneg jsub_def amount_def)

lemma jle_zero_mul: "amount a \<Longrightarrow> amount b \<Longrightarrow> jle (Fin 0) (jmul a b)"
  by (cases a; cases b) (simp_all add: rnd_nonneg amount_def)

lemma openTrade_sane:
  assumes "vl_sane l" and "amount (op_stake p)" "amount (op_target p)"
  shows "vl_sane (snd (openTrade now p l))"
proof -
  have "jle (Fin 0) (jsub (vl_balance l) (op_stake p))" if "\<not> jlt (vl_balance l) (op_stake p)"
    using assms that by (simp add: vl_sane_def jle_zero_sub)
  with assms show ?thesis
    by (simp add: openTrade_def Let_def vl_sane_def update_conv')
qed

lemma resolve_one_sane:
  assumes "vl_sane l"
  shows "vl_sane (fst (resolve_one now crash (l, rs) i))"
proof (cases "is_open l i")
  case False
  with assms show ?thesis by (simp add: resolve_one_skip)
next
  case True
  then obtain t where t: "map_of (vl_trades l) i = Some t" "vt_status t = V_OPEN"
    by (auto simp: is_open_def)
  with assms have "amount (vt_stake t)" "amount (vt_target t)" by (auto simp: vl_sane_def)
  moreover from this have "jle (Fin 0) (jadd (vl_balance l) (jmul (vt_stake t) (vt_target t)))"
    using assms by (simp add: vl_sane_def jle_zero_add jle_zero_mul)
  ultimately show ?thesis
    using assms t by (simp add: resolve_one_def Let_def vl_sane_def update_conv')
qed

lemma resolve_loop_sane: "vl_sane (fst st) \<Longrightarrow> vl_sane (fst (foldl (resolve_one now crash) st is))"
proof (induction "is" arbitrary: st)
  case (Cons i js)
  then show ?case using resolve_one_sane [of "fst st" now crash "snd st" i] by simp
qed simp

interpretation vl: persists vl_step sane_event vl_sane
proof
  show "vl_sane (vl_step s e)" if "vl_sane s" "sane_event e" for s e
    using that by (cases e) (simp_all add: openTrade_sane resolveRound_def resolve_loop_sane)
qed

text \<open>
  The virtual balance never goes below zero and never becomes \<open>NaN\<close>: starting from a non-negative
  balance, whatever trades with finite non-negative stakes and targets are opened and however
  rounds end, in double precision.
\<close>

theorem virtual_balance_never_negative:
  assumes "jle (Fin 0) initial" and "list_all sane_event es"
  shows "jle (Fin 0) (vl_balance (foldl vl_step (vl_new initial) es))"
proof -
  have "vl_sane (vl_new initial)" using assms(1) by (simp add: vl_sane_def vl_new_def)
  from vl.run_quiet [OF this assms(2)] show ?thesis by (simp add: vl_sane_def)
qed

definition ex_open :: "string \<Rightarrow> jsnum \<Rightarrow> open_params" where
  "ex_open i stake = \<lparr>op_id = i, op_tenantId = None, op_sessionId = None, op_predictionId = None,
     op_signalId = Some i, op_roundId = ''r'', op_stake = stake, op_target = Fin 2\<rparr>"

theorem virtual_balance_never_negative_witness:
  "jle (Fin 0) (vl_balance (foldl vl_step (vl_new (Fin 10000))
     [VE_open 1 (ex_open ''a'' (Fin 700)), VE_open 2 (ex_open ''b'' (Fin 9500)), VE_crash 3 ''r'' (Fin 1)]))"
  by (rule virtual_balance_never_negative) (simp_all add: ex_open_def amount_def)

text \<open>
  The executor's report can differ from the ledger: a signal without a stake is booked at the
  configured stake and reported at 700.
\<close>

lemma executor_reports_other_stake:
  "let sig = \<lparr>dsg_signalId = ''s'', dsg_predictionId = None, dsg_roundId = ''r'', dsg_probability = Fin 1,
             dsg_confidence = Fin 1, dsg_target = Fin 2, dsg_stake = None\<rparr>;
       c = ct_start ''sess'' None (ct_new (DEFAULT_CFG\<lparr>dr_stake := Fin 100, dr_minProbability := Fin 0,
             dr_minConfidence := Fin 0\<rparr>) None ''d'');
       (ex, x) = executeSignal 0 1 ''d'' ''u'' sig ''t'' \<lparr>de_controller = c, de_pending = (\<lambda>_. None)\<rparr>
   in map_option dx_stake ex = Some (Fin 700) \<and>
      map (vt_stake \<circ> snd) (vl_trades (ct_ledger (de_controller x))) = [Fin 100]"
  by (simp add: executeSignal_def evaluateAndSimulate_def ct_start_def ct_new_def DEFAULT_CFG_def vl_new_def
      rollDaily_def openTrade_def truthy_str_def Let_def)

end
