(* ===== verification/AsyncLocks.thy ===== *)
theory AsyncLocks
  imports Prelude
begin

text \<open>
  \<open>Mutex\<close> and \<open>Semaphore\<close> of \<open>src/src/utils/async.ts\<close>. \<open>acquire\<close> either goes on at once or leaves
  its resolver in a queue; \<open>release\<close> hands the permit to the head of the queue without ever
  returning it. A waiter is the identity of the call that waits. The system around them keeps the
  calls that hold a permit, which the objects themselves do not know.
\<close>

section \<open>The objects\<close>

record 'p async_mutex =
  am_locked :: bool
  am_queue :: "'p list"

definition am_new :: "'p async_mutex" where
  "am_new = \<lparr>am_locked = False, am_queue = []\<rparr>"

text \<open>The flag of the result: the call goes on at once.\<close>

definition am_acquire :: "'p \<Rightarrow> 'p async_mutex \<Rightarrow> 'p async_mutex \<times> bool" where
  "am_acquire p m =
     (if \<not> am_locked m then (m\<lparr>am_locked := True\<rparr>, True) else (m\<lparr>am_queue := am_queue m @ [p]\<rparr>, False))"

text \<open>The waiter that is resumed, if any.\<close>

definition am_release :: "'p async_mutex \<Rightarrow> 'p async_mutex \<times> 'p option" where
  "am_release m =
     (case am_queue m of
        w # ws \<Rightarrow> (m\<lparr>am_queue := ws\<rparr>, Some w)
      | [] \<Rightarrow> (m\<lparr>am_locked := False\<rparr>, None))"

definition am_isLocked :: "'p async_mutex \<Rightarrow> bool" where
  "am_isLocked m = am_locked m"

record 'p semaphore =
  sem_permits :: int
  sem_queue :: "'p list"

definition sem_new :: "int \<Rightarrow> 'p semaphore" where
  "sem_new permits = \<lparr>sem_permits = permits, sem_queue = []\<rparr>"

definition sem_acquire :: "'p \<Rightarrow> 'p semaphore \<Rightarrow> 'p semaphore \<times> bool" where
  "sem_acquire p s =
     (if sem_permits s > 0 then (s\<lparr>sem_permits := sem_permits s - 1\<rparr>, True)
      else (s\<lparr>sem_queue := sem_queue s @ [p]\<rparr>, False))"

definition sem_release :: "'p semaphore \<Rightarrow> 'p semaphore \<times> 'p option" where
  "sem_release s =
     (case sem_queue s of
        w # ws \<Rightarrow> (s\<lparr>sem_queue := ws\<rparr>, Some w)
      | [] \<Rightarrow> (s\<lparr>sem_permits := sem_permits s + 1\<rparr>, None))"

section \<open>Calls around them\<close>

text \<open>
  \<open>ls_arrived\<close> and \<open>ls_granted\<close> record the order in which calls arrived and were let through;
  a call releases once, and only when it holds a permit (the \<open>finally\<close> block of the callers).
\<close>

record ('o, 'p) lock_sys =
  ls_obj :: 'o
  ls_holders :: "'p list"
  ls_arrived :: "'p list"
  ls_granted :: "'p list"

datatype 'p lock_event = L_acquire 'p | L_release 'p

definition ls_new :: "'o \<Rightarrow> ('o, 'p) lock_sys" where
  "ls_new ob = \<lparr>ls_obj = ob, ls_holders = [], ls_arrived = [], ls_granted = []\<rparr>"

fun ls_step :: "('p \<Rightarrow> 'o \<Rightarrow> 'o \<times> bool) \<Rightarrow> ('o \<Rightarrow> 'o \<times> 'p option) \<Rightarrow>
    ('o, 'p) lock_sys \<Rightarrow> 'p lock_event \<Rightarrow> ('o, 'p) lock_sys" where
  "ls_step acq rel s (L_acquire p) =
     (let (ob, now) = acq p (ls_obj s)
      in s\<lparr>ls_obj := ob, ls_arrived := ls_arrived s @ [p],
           ls_holders := (if now then p # ls_holders s else ls_holders s),
           ls_granted := (if now then ls_granted s @ [p] else ls_granted s)\<rparr>)"
| "ls_step acq rel s (L_release p) =
     (if p \<in> set (ls_holders s)
      then let (ob, w) = rel (ls_obj s); hs = remove1 p (ls_holders s)
           in (case w of
                 None \<Rightarrow> s\<lparr>ls_obj := ob, ls_holders := hs\<rparr>
               | Some q \<Rightarrow> s\<lparr>ls_obj := ob, ls_holders := q # hs, ls_granted := ls_granted s @ [q]\<rparr>)
      else s)"

abbreviation mutex_step :: "('p async_mutex, 'p) lock_sys \<Rightarrow> 'p lock_event \<Rightarrow> ('p async_mutex, 'p) lock_sys" where
  "mutex_step \<equiv> ls_step am_acquire am_release"

abbreviation sem_step :: "('p semaphore, 'p) lock_sys \<Rightarrow> 'p lock_event \<Rightarrow> ('p semaphore, 'p) lock_sys" where
  "sem_step \<equiv> ls_step sem_acquire sem_release"

section \<open>The semaphore keeps its count and its order\<close>

definition sem_inv :: "int \<Rightarrow> ('p semaphore, 'p) lock_sys \<Rightarrow> bool" where
  "sem_inv n s \<longleftrightarrow>
     sem_permits (ls_obj s) + int (length (ls_holders s)) = n \<and> 0 \<le> sem_permits (ls_obj s) \<and>
     (sem_queue (ls_obj s) \<noteq> [] \<longrightarrow> sem_permits (ls_obj s) = 0) \<and>
     ls_arrived s = ls_granted s @ sem_queue (ls_obj s)"

lemma length_remove1_mem: "x \<in> set xs \<Longrightarrow> int (length (remove1 x xs)) = int (length xs) - 1"
  by (induction xs) auto

lemma sem_inv_step: "sem_inv n s \<Longrightarrow> sem_inv n (sem_step s e)"
proof (cases e)
  case (L_acquire p)
  assume "sem_inv n s"
  then show ?thesis
    by (auto simp: L_acquire sem_inv_def sem_acquire_def)
next
  case (L_release p)
  assume inv: "sem_inv n s"
  show ?thesis
  proof (cases "p \<in> set (ls_holders s)")
    case True
    then show ?thesis
      using inv length_remove1_mem [OF True]
      by (cases "sem_queue (ls_obj s)") (auto simp: L_release sem_inv_def sem_release_def)
  next
    case False
    then show ?thesis using inv by (simp add: L_release)
  qed
qed

interpretation sem: stepwise sem_step "sem_inv n"
  by unfold_locales (rule sem_inv_step)

lemma sem_inv_new: "0 \<le> n \<Longrightarrow> sem_inv n (ls_new (sem_new n))"
  by (simp add: sem_inv_def ls_new_def sem_new_def)

section \<open>The mutex is a semaphore of one permit\<close>

definition sem_of :: "'p async_mutex \<Rightarrow> 'p semaphore" where
  "sem_of m = \<lparr>sem_permits = (if am_locked m then 0 else 1), sem_queue = am_queue m\<rparr>"

definition sem_sys :: "('p async_mutex, 'p) lock_sys \<Rightarrow> ('p semaphore, 'p) lock_sys" where
  "sem_sys s = \<lparr>ls_obj = sem_of (ls_obj s), ls_holders = ls_holders s, ls_arrived = ls_arrived s,
     ls_granted = ls_granted s\<rparr>"

lemma am_acquire_sim: "sem_acquire p (sem_of m) = (sem_of (fst (am_acquire p m)), snd (am_acquire p m))"
  by (simp add: sem_acquire_def am_acquire_def sem_of_def)

text \<open>A release of an unlocked mutex has no counterpart; a holder exists only when it is locked.\<close>

lemma am_release_sim:
  "am_locked m \<Longrightarrow> sem_release (sem_of m) = (sem_of (fst (am_release m)), snd (am_release m))"
  by (cases "am_queue m") (simp_all add: sem_release_def am_release_def sem_of_def)

definition mutex_inv :: "('p async_mutex, 'p) lock_sys \<Rightarrow> bool" where
  "mutex_inv s \<longleftrightarrow> sem_inv 1 (sem_sys s)"

lemma mutex_holder_locks: "mutex_inv s \<Longrightarrow> p \<in> set (ls_holders s) \<Longrightarrow> am_locked (ls_obj s)"
  by (rule ccontr) (auto simp: mutex_inv_def sem_inv_def sem_sys_def sem_of_def)

lemma mutex_step_sim: "mutex_inv s \<Longrightarrow> sem_sys (mutex_step s e) = sem_step (sem_sys s) e"
proof (cases e)
  case (L_acquire p)
  then show ?thesis
    using am_acquire_sim [of p "ls_obj s"] by (simp add: sem_sys_def Let_def split: prod.split)
next
  case (L_release p)
  assume inv: "mutex_inv s"
  show ?thesis
  proof (cases "p \<in> set (ls_holders s)")
    case True
    then show ?thesis
      using am_release_sim [OF mutex_holder_locks [OF inv True]]
      by (simp add: L_release sem_sys_def Let_def split: prod.split option.split)
  next
    case False
    then show ?thesis by (simp add: L_release sem_sys_def)
  qed
qed

lemma mutex_inv_step: "mutex_inv s \<Longrightarrow> mutex_inv (mutex_step s e)"
  using sem_inv_step [of 1 "sem_sys s" e] mutex_step_sim [of s e] by (simp add: mutex_inv_def)

interpretation amutex: started mutex_step mutex_inv "ls_new am_new"
proof
  show "mutex_inv (ls_new am_new)"
    by (simp add: mutex_inv_def sem_inv_def sem_sys_def sem_of_def ls_new_def am_new_def)
qed (rule mutex_inv_step)

lemma mutex_run_sim:
  "sem_sys (foldl mutex_step (ls_new am_new) es) = foldl sem_step (ls_new (sem_new 1)) es"
proof (induction es rule: rev_induct)
  case Nil
  show ?case by (simp add: sem_sys_def sem_of_def ls_new_def am_new_def sem_new_def)
next
  case (snoc e es)
  then show ?case using mutex_step_sim [OF amutex.reachable_inv, of es e] by simp
qed

section \<open>Properties\<close>

text \<open>
  Refinement: in every run the mutex behaves as the semaphore with one permit: at most
  one call holds it, it is locked exactly when a call holds it, and calls are let through in the
  order in which they arrived.
\<close>

theorem mutex_excludes_in_fifo_order:
  "let s = foldl mutex_step (ls_new am_new) es
   in sem_sys s = foldl sem_step (ls_new (sem_new 1)) es \<and>
      length (ls_holders s) = (if am_isLocked (ls_obj s) then 1 else 0) \<and>
      ls_arrived s = ls_granted s @ am_queue (ls_obj s)"
proof -
  define s :: "('a async_mutex, 'a) lock_sys" where "s = foldl mutex_step (ls_new am_new) es"
  have "sem_inv 1 (sem_sys s)"
    using amutex.reachable_inv [of es] by (simp add: mutex_inv_def s_def)
  then have "length (ls_holders s) = (if am_isLocked (ls_obj s) then 1 else 0) \<and>
      ls_arrived s = ls_granted s @ am_queue (ls_obj s)"
    by (auto simp: sem_inv_def sem_sys_def sem_of_def am_isLocked_def split: if_splits)
  then show ?thesis
    using mutex_run_sim [of es] by (simp add: s_def [symmetric])
qed

text \<open>A semaphore never lets more than its permits through, and keeps none back while calls wait.\<close>

lemma semaphore_bounds_holders:
  assumes "0 \<le> n"
  shows "let s = foldl sem_step (ls_new (sem_new n)) es
    in int (length (ls_holders s)) \<le> n \<and>
       (sem_queue (ls_obj s) = [] \<or> int (length (ls_holders s)) = n)"
  using sem.run_inv [OF sem_inv_new [OF assms], of es] by (auto simp: sem_inv_def Let_def)

text \<open>A semaphore created without permits lets nobody through: \<open>promisePool\<close> with concurrency 0 never ends.\<close>

lemma semaphore_without_permits_blocks:
  "ls_holders (foldl sem_step (ls_new (sem_new 0)) es) = []"
proof -
  define s :: "('a semaphore, 'a) lock_sys" where "s = foldl sem_step (ls_new (sem_new 0)) es"
  have "sem_inv 0 s" using sem.run_inv [OF sem_inv_new [of 0], of es] by (simp add: s_def)
  then have "int (length (ls_holders s)) \<le> 0" unfolding sem_inv_def by linarith
  then show ?thesis by (simp add: s_def)
qed

end
