(* ===== verification/BetExecution.thy ===== *)
theory BetExecution
  imports Idempotency AsyncLocks
begin

text \<open>
  \<open>BetExecutor.placeBet\<close> of \<open>src/src/betting/executor.ts\<close> over the idempotency stores of the theory
  \<open>Idempotency\<close>. The adapter is a parameter: for each attempt, how its two calls end. The stores
  catch their own errors, so the calls on them do not throw and the outer \<open>catch\<close> of
  \<open>placeBet\<close> is never entered. The mutex around \<open>placeBet\<close> is the one of \<open>AsyncLocks\<close>.
\<close>

section \<open>Data\<close>

datatype bet_state =
    BS_PENDING | BS_RESERVED | BS_PLACED | BS_CONFIRMED | BS_ACTIVE | BS_CASH_OUT_REQUESTED
  | BS_CASHED_OUT | BS_LOST | BS_FAILED | BS_UNKNOWN | BS_RECONCILED

record bx_config =
  bx_stake :: jsnum
  bx_target :: jsnum
  bx_placementTimeoutMs :: int
  bx_cashOutTimeoutMs :: int
  bx_maxPlacementRetries :: nat
  bx_placementRetryDelayMs :: int
  bx_useNativeAutoCashOut :: bool

definition bx_default :: bx_config where
  "bx_default = \<lparr>bx_stake = Fin 700, bx_target = lit (13/10), bx_placementTimeoutMs = 10000,
     bx_cashOutTimeoutMs = 8000, bx_maxPlacementRetries = 2, bx_placementRetryDelayMs = 1000,
     bx_useNativeAutoCashOut = False\<rparr>"

record place_request =
  rq_betId :: string
  rq_roundId :: string
  rq_sessionId :: string
  rq_stake :: jsnum
  rq_target :: jsnum
  rq_idempotencyKey :: string
  rq_dryRun :: bool

record exec_result =
  ex_placed :: bool
  ex_state :: bet_state
  ex_error :: "string option"
  ex_retryCount :: nat

text \<open>How a promise of the adapter ends, as seen at the deadline of \<open>withTimeout\<close>.\<close>

datatype call_end = Returns bool | Throws string | Pending

text \<open>\<open>withTimeout\<close>: a promise that is still pending at the deadline is rejected.\<close>

definition withTimeout :: "string \<Rightarrow> call_end \<Rightarrow> call_end" where
  "withTimeout msg c = (case c of Pending \<Rightarrow> Throws msg | _ \<Rightarrow> c)"

record bet_adapter =
  ad_submit :: "nat \<Rightarrow> call_end"
  ad_confirm :: "nat \<Rightarrow> call_end"

text \<open>What reaches the outside: a submission, a wait for its confirmation, a pause before a retry.\<close>

datatype exec_action = A_submit nat | A_confirm nat | A_delay int

section \<open>The test \<open>/timed out/i\<close>\<close>

fun starts_with :: "string \<Rightarrow> string \<Rightarrow> bool" where
  "starts_with [] s = True"
| "starts_with (p # ps) [] = False"
| "starts_with (p # ps) (c # cs) = (p = lower_char c \<and> starts_with ps cs)"

fun contains_ci :: "string \<Rightarrow> string \<Rightarrow> bool" where
  "contains_ci pat [] = starts_with pat []"
| "contains_ci pat (c # cs) = (starts_with pat (c # cs) \<or> contains_ci pat cs)"

definition timed_out_text :: "string \<Rightarrow> bool" where
  "timed_out_text s = contains_ci ''timed out'' s"

section \<open>One attempt\<close>

text \<open>
  What an attempt does: it is confirmed, it leaves the message and whether the side effect counts
  as attempted (and the loop goes on or breaks), or its submission never returns.
\<close>

datatype attempt_end = At_confirmed | At_failed string bool | At_hangs

definition rejected_msg :: string where
  "rejected_msg = ''Bet submission rejected by adapter''"

definition unconfirmed_msg :: string where
  "unconfirmed_msg = ''Bet was submitted but confirmation was not received''"

definition timeout_msg :: string where
  "timeout_msg = ''Bet confirmation timed out''"

definition run_attempt :: "bet_adapter \<Rightarrow> nat \<Rightarrow> attempt_end \<times> exec_action list" where
  "run_attempt ad k =
     (case ad_submit ad k of
        Pending \<Rightarrow> (At_hangs, [A_submit k])
      | Throws msg \<Rightarrow> (At_failed msg False, [A_submit k])
      | Returns False \<Rightarrow> (At_failed rejected_msg False, [A_submit k])
      | Returns True \<Rightarrow>
          ((case withTimeout timeout_msg (ad_confirm ad k) of
              Returns True \<Rightarrow> At_confirmed
            | Returns False \<Rightarrow> At_failed unconfirmed_msg False
            | Throws msg \<Rightarrow> At_failed msg (\<not> timed_out_text msg)
            | Pending \<Rightarrow> At_hangs), [A_submit k, A_confirm k]))"

section \<open>The loop over the attempts\<close>

datatype loop_end =
    Placed nat
  | Gave_up "string option" nat bool
  | Hangs

text \<open>
  \<open>attempts_left\<close> counts the attempts from \<open>attempt\<close> to \<open>maxPlacementRetries\<close>; the arguments after it
  are \<open>lastError\<close>, \<open>retryCount\<close> and \<open>externalSideEffectAttempted\<close>.
\<close>

fun place_loop :: "bx_config \<Rightarrow> bet_adapter \<Rightarrow> nat \<Rightarrow> nat \<Rightarrow> string option \<Rightarrow> nat \<Rightarrow> bool \<Rightarrow>
    loop_end \<times> exec_action list" where
  "place_loop cfg ad 0 attempt lastError retryCount ext = (Gave_up lastError retryCount ext, [])"
| "place_loop cfg ad (Suc attempts_left) attempt lastError retryCount ext =
     (if attempt > 0 \<and> ext then (Gave_up lastError retryCount ext, [])
      else
        let retries = (if attempt > 0 then attempt else retryCount);
            pause = (if attempt > 0 then [A_delay (bx_placementRetryDelayMs cfg * int attempt)] else []);
            (res, acts) = run_attempt ad attempt
        in case res of
             At_confirmed \<Rightarrow> (Placed retries, pause @ acts)
           | At_hangs \<Rightarrow> (Hangs, pause @ acts)
           | At_failed msg ext' \<Rightarrow>
               (if ext' then (Gave_up (Some msg) retries True, pause @ acts)
                else let (fin, rest) = place_loop cfg ad attempts_left (attempt + 1) (Some msg) retries False
                     in (fin, pause @ acts @ rest)))"

section \<open>The idempotency store as the executor sees it\<close>

record 's idem_ops =
  io_reserve :: "string \<Rightarrow> string \<Rightarrow> string \<Rightarrow> 's \<Rightarrow> 's \<times> bool"
  io_complete :: "string \<Rightarrow> string \<Rightarrow> placement_result \<Rightarrow> 's \<Rightarrow> 's"
  io_fail :: "string \<Rightarrow> string \<Rightarrow> string \<Rightarrow> 's \<Rightarrow> 's"
  io_markUnknown :: "string \<Rightarrow> string \<Rightarrow> string \<Rightarrow> 's \<Rightarrow> 's"

definition memory_ops :: "int \<Rightarrow> idem_store idem_ops" where
  "memory_ops now = \<lparr>io_reserve = mi_reserve now, io_complete = mi_complete, io_fail = mi_fail,
     io_markUnknown = mi_markUnknown\<rparr>"

text \<open>Over Redis, with one reading of the clock and the actions of others between two commands.\<close>

definition redis_ops :: "'r redis_kv \<Rightarrow> idem_config \<Rightarrow> int \<Rightarrow> ('r \<Rightarrow> 'r) \<Rightarrow> 'r idem_ops" where
  "redis_ops R cfg now others = \<lparr>io_reserve = idem_reserve R cfg now,
     io_complete = idem_complete R cfg now others now, io_fail = idem_fail R cfg now others now,
     io_markUnknown = idem_markUnknown R cfg now others now\<rparr>"

section \<open>Placing a bet\<close>

definition duplicate_msg :: string where
  "duplicate_msg = ''Duplicate bet attempt blocked by idempotency check''"

definition success_result :: "string \<Rightarrow> placement_result" where
  "success_result bet = \<lparr>pr_success = True, pr_betId = Some bet, pr_error = None\<rparr>"

definition final_error :: "string option \<Rightarrow> bool \<Rightarrow> string" where
  "final_error lastError isUnknown =
     (case lastError of
        Some msg \<Rightarrow> msg
      | None \<Rightarrow> if isUnknown then ''Bet placement outcome unknown after external submission''
                else ''Bet placement failed after all retries'')"

text \<open>No result (\<^const>\<open>None\<close>): \<open>submitBet\<close> never returns, and the mutex is never released.\<close>

definition placeBet ::
  "'s idem_ops \<Rightarrow> bx_config \<Rightarrow> bet_adapter \<Rightarrow> place_request \<Rightarrow> 's \<Rightarrow>
     's \<times> exec_result option \<times> exec_action list" where
  "placeBet ops cfg ad req st =
     (let sess = rq_sessionId req; rid = rq_roundId req; bet = rq_betId req;
          (st1, reserved) = io_reserve ops sess rid bet st
      in if \<not> reserved
         then (st1, Some \<lparr>ex_placed = False, ex_state = BS_FAILED, ex_error = Some duplicate_msg,
                 ex_retryCount = 0\<rparr>, [])
         else if rq_dryRun req
         then (io_complete ops sess rid (success_result bet) st1,
               Some \<lparr>ex_placed = True, ex_state = BS_CONFIRMED, ex_error = None, ex_retryCount = 0\<rparr>, [])
         else (case place_loop cfg ad (bx_maxPlacementRetries cfg + 1) 0 None 0 False of
                 (Hangs, acts) \<Rightarrow> (st1, None, acts)
               | (Placed n, acts) \<Rightarrow>
                   (io_complete ops sess rid (success_result bet) st1,
                    Some \<lparr>ex_placed = True, ex_state = BS_CONFIRMED, ex_error = None, ex_retryCount = n\<rparr>, acts)
               | (Gave_up lastError n isUnknown, acts) \<Rightarrow>
                   (let err = final_error lastError isUnknown
                    in (if isUnknown then io_markUnknown ops sess rid err st1 else io_fail ops sess rid err st1,
                        Some \<lparr>ex_placed = False, ex_state = (if isUnknown then BS_UNKNOWN else BS_FAILED),
                          ex_error = Some err, ex_retryCount = n\<rparr>, acts))))"

section \<open>What ends the loop\<close>

fun is_submit :: "exec_action \<Rightarrow> bool" where
  "is_submit (A_submit _) = True"
| "is_submit _ = False"

definition submissions :: "exec_action list \<Rightarrow> nat" where
  "submissions acts = length (filter is_submit acts)"

lemma submissions_simps [simp]:
  "submissions [] = 0" "submissions (a # acts) = (if is_submit a then 1 else 0) + submissions acts"
  "submissions (acts @ acts') = submissions acts + submissions acts'"
  by (simp_all add: submissions_def)

text \<open>An attempt that is followed by another one if there is one left.\<close>

definition retries_after :: "bet_adapter \<Rightarrow> nat \<Rightarrow> bool" where
  "retries_after ad k =
     (case ad_submit ad k of
        Pending \<Rightarrow> False
      | Throws _ \<Rightarrow> True
      | Returns False \<Rightarrow> True
      | Returns True \<Rightarrow> (case ad_confirm ad k of
            Returns c \<Rightarrow> \<not> c
          | Pending \<Rightarrow> True
          | Throws msg \<Rightarrow> timed_out_text msg))"

lemma timeout_msg_timed_out: "timed_out_text timeout_msg"
  by code_simp

lemma run_attempt_submits [simp]: "submissions (snd (run_attempt ad k)) = 1"
  by (auto simp: run_attempt_def split: call_end.split bool.split)

lemma run_attempt_retries:
  "retries_after ad k \<longleftrightarrow> (\<exists>msg. fst (run_attempt ad k) = At_failed msg False)"
  using timeout_msg_timed_out
  by (auto simp: run_attempt_def retries_after_def withTimeout_def split: call_end.split bool.split)

lemma run_attempt_confirmed:
  "fst (run_attempt ad k) = At_confirmed \<longleftrightarrow> ad_submit ad k = Returns True \<and> ad_confirm ad k = Returns True"
  by (auto simp: run_attempt_def withTimeout_def split: call_end.split bool.split)

lemma run_attempt_uncertain:
  "fst (run_attempt ad k) = At_failed msg True \<longleftrightarrow>
     ad_submit ad k = Returns True \<and> ad_confirm ad k = Throws msg \<and> \<not> timed_out_text msg"
  using timeout_msg_timed_out
  by (auto simp: run_attempt_def withTimeout_def split: call_end.split bool.split)

lemma run_attempt_hangs: "fst (run_attempt ad k) = At_hangs \<longleftrightarrow> ad_submit ad k = Pending"
  by (auto simp: run_attempt_def withTimeout_def split: call_end.split bool.split)

text \<open>How the loop ends at the attempt \<open>k\<close> that is not retried.\<close>

definition ends_at :: "bet_adapter \<Rightarrow> nat \<Rightarrow> nat \<Rightarrow> loop_end" where
  "ends_at ad retries k =
     (case fst (run_attempt ad k) of
        At_confirmed \<Rightarrow> Placed retries
      | At_failed msg ext \<Rightarrow> Gave_up (Some msg) retries ext
      | At_hangs \<Rightarrow> Hangs)"

lemma place_loop_ends:
  assumes "\<not> retries_after ad a"
  shows "fst (place_loop cfg ad (Suc n) a le rc False) = ends_at ad (if a > 0 then a else rc) a"
    and "submissions (snd (place_loop cfg ad (Suc n) a le rc False)) = 1"
proof -
  obtain res acts where r: "run_attempt ad a = (res, acts)" by (cases "run_attempt ad a")
  then have "submissions acts = 1" "\<nexists>msg. res = At_failed msg False"
    using run_attempt_submits [of ad a] assms by (simp_all add: run_attempt_retries)
  then show "fst (place_loop cfg ad (Suc n) a le rc False) = ends_at ad (if a > 0 then a else rc) a"
    and "submissions (snd (place_loop cfg ad (Suc n) a le rc False)) = 1"
    by (cases res; simp add: r ends_at_def Let_def)+
qed

lemma place_loop_goes_on:
  assumes "retries_after ad a"
  obtains msg where
    "fst (place_loop cfg ad (Suc n) a le rc False) =
       fst (place_loop cfg ad n (a + 1) (Some msg) (if a > 0 then a else rc) False)"
    "submissions (snd (place_loop cfg ad (Suc n) a le rc False)) =
       1 + submissions (snd (place_loop cfg ad n (a + 1) (Some msg) (if a > 0 then a else rc) False))"
    "fst (run_attempt ad a) = At_failed msg False"
proof -
  obtain msg acts where m: "run_attempt ad a = (At_failed msg False, acts)"
    using assms by (auto simp: run_attempt_retries) (metis prod.collapse)
  have "submissions acts = 1" using run_attempt_submits [of ad a] m by simp
  then show ?thesis by (intro that [of msg]) (simp_all add: m Let_def split: prod.split)
qed

declare place_loop.simps(2) [simp del]

text \<open>The loop from attempt \<open>a\<close> on is decided by the first attempt that is not retried.\<close>

lemma place_loop_result:
  "case find (\<lambda>k. \<not> retries_after ad k) [a..<a + n] of
      Some k \<Rightarrow> a \<le> k \<and> fst (place_loop cfg ad n a le rc False) = ends_at ad (if k > 0 then k else rc) k \<and>
        submissions (snd (place_loop cfg ad n a le rc False)) = k + 1 - a
    | None \<Rightarrow> (\<exists>msg r. fst (place_loop cfg ad n a le rc False) = Gave_up msg r False) \<and>
        submissions (snd (place_loop cfg ad n a le rc False)) = n"
proof (induction n arbitrary: a le rc)
  case 0
  then show ?case by simp
next
  case (Suc n)
  have range: "[a..<a + Suc n] = a # [a + 1..<a + 1 + n]"
    by (simp add: upt_rec del: upt_Suc)
  show ?case
  proof (cases "retries_after ad a")
    case False
    then show ?thesis using place_loop_ends [OF False, of cfg n le rc] by (simp only: range) simp
  next
    case True
    then obtain msg where m: "fst (place_loop cfg ad (Suc n) a le rc False) =
        fst (place_loop cfg ad n (a + 1) (Some msg) (if a > 0 then a else rc) False)"
      "submissions (snd (place_loop cfg ad (Suc n) a le rc False)) =
        1 + submissions (snd (place_loop cfg ad n (a + 1) (Some msg) (if a > 0 then a else rc) False))"
      by (rule place_loop_goes_on)
    show ?thesis
      using Suc.IH [of "a + 1" "Some msg" "if a > 0 then a else rc"] True
      unfolding range m by (auto simp del: upt_Suc split: option.splits)
  qed
qed

text \<open>The attempt that decides, if one does.\<close>

definition deciding_attempt :: "bx_config \<Rightarrow> bet_adapter \<Rightarrow> nat option" where
  "deciding_attempt cfg ad = find (\<lambda>k. \<not> retries_after ad k) [0..<bx_maxPlacementRetries cfg + 1]"

lemmas deciding_loop = place_loop_result
  [where a = 0 and n = "bx_maxPlacementRetries cfg + 1" and rc = 0 and le = None and cfg = cfg,
   unfolded add_0, folded deciding_attempt_def] for cfg

section \<open>A round is taken\<close>

text \<open>
  What the executor relies on: a taken round refuses every reservation, a reservation at a fresh time takes it,
  recording the outcome of any round gives none back, and neither does a quiet operation that others run on the
  store.
\<close>

locale round_store =
  fixes ops :: "'t \<Rightarrow> 's idem_ops"
    and fresh :: "'t \<Rightarrow> bool"
    and taken :: "string \<Rightarrow> string \<Rightarrow> 's \<Rightarrow> bool"
    and other :: "'s \<Rightarrow> 'e \<Rightarrow> 's"
    and quiet :: "string \<Rightarrow> string \<Rightarrow> 'e \<Rightarrow> bool"
  assumes refuses: "taken sess rid s \<Longrightarrow> io_reserve (ops now) sess rid bet s = (s, False)"
    and takes: "fresh now \<Longrightarrow> io_reserve (ops now) sess rid bet s = (s', True) \<Longrightarrow> taken sess rid s'"
    and keeps_reserve: "taken sess rid s \<Longrightarrow> taken sess rid (fst (io_reserve (ops now) sess' rid' bet s))"
    and keeps_complete: "taken sess rid s \<Longrightarrow> taken sess rid (io_complete (ops now) sess' rid' res s)"
    and keeps_fail: "taken sess rid s \<Longrightarrow> taken sess rid (io_fail (ops now) sess' rid' why s)"
    and keeps_unknown: "taken sess rid s \<Longrightarrow> taken sess rid (io_markUnknown (ops now) sess' rid' why s)"
    and keeps_other: "taken sess rid s \<Longrightarrow> quiet sess rid e \<Longrightarrow> taken sess rid (other s e)"
begin

lemma placeBet_keeps:
  assumes "taken sess rid s"
  shows "taken sess rid (fst (placeBet (ops now) cfg ad req s))"
  using keeps_reserve [OF assms, of now "rq_sessionId req" "rq_roundId req" "rq_betId req"]
  by (auto simp: placeBet_def Let_def keeps_complete keeps_fail keeps_unknown
      split: prod.split loop_end.split)

lemma placeBet_takes:
  assumes "fresh now"
    and "snd (io_reserve (ops now) (rq_sessionId req) (rq_roundId req) (rq_betId req) s)"
  shows "taken (rq_sessionId req) (rq_roundId req) (fst (placeBet (ops now) cfg ad req s))"
proof -
  obtain s1 where r: "io_reserve (ops now) (rq_sessionId req) (rq_roundId req) (rq_betId req) s = (s1, True)"
    using assms(2) by (metis prod.collapse)
  have "taken (rq_sessionId req) (rq_roundId req) s1" using assms(1) r by (rule takes)
  then show ?thesis
    by (auto simp: placeBet_def r Let_def keeps_complete keeps_fail keeps_unknown
        split: prod.split loop_end.split)
qed

lemma placeBet_refused:
  assumes "taken (rq_sessionId req) (rq_roundId req) s"
  shows "placeBet (ops now) cfg ad req s =
    (s, Some \<lparr>ex_placed = False, ex_state = BS_FAILED, ex_error = Some duplicate_msg, ex_retryCount = 0\<rparr>, [])"
  by (simp add: placeBet_def refuses [OF assms])

definition turn :: "'s \<Rightarrow> 't \<times> bx_config \<times> bet_adapter \<times> place_request + 'e \<Rightarrow> 's" where
  "turn s ev = (case ev of Inl (now, cfg, ad, req) \<Rightarrow> fst (placeBet (ops now) cfg ad req s) | Inr e \<Rightarrow> other s e)"

definition quiet_turn :: "string \<Rightarrow> string \<Rightarrow> 't \<times> bx_config \<times> bet_adapter \<times> place_request + 'e \<Rightarrow> bool" where
  "quiet_turn sess rid ev = (case ev of Inl _ \<Rightarrow> True | Inr e \<Rightarrow> quiet sess rid e)"

sublocale bets: persists turn "quiet_turn sess rid" "taken sess rid"
  by unfold_locales (auto simp: turn_def quiet_turn_def intro: placeBet_keeps keeps_other split: sum.splits)

lemma no_second_placement:
  assumes "fresh now" "snd (io_reserve (ops now) (rq_sessionId req) (rq_roundId req) (rq_betId req) s)"
    and "rq_sessionId req' = rq_sessionId req" "rq_roundId req' = rq_roundId req"
    and "list_all (quiet_turn (rq_sessionId req) (rq_roundId req)) evs"
  shows "let s2 = foldl turn (fst (placeBet (ops now) cfg ad req s)) evs
    in placeBet (ops later) cfg' ad' req' s2 =
      (s2, Some \<lparr>ex_placed = False, ex_state = BS_FAILED, ex_error = Some duplicate_msg, ex_retryCount = 0\<rparr>, [])"
proof -
  have "taken (rq_sessionId req) (rq_roundId req) (foldl turn (fst (placeBet (ops now) cfg ad req s)) evs)"
    using placeBet_takes [OF assms(1,2)] assms(5) by (rule bets.run_quiet)
  then show ?thesis using assms(3,4) by (simp add: placeBet_refused Let_def)
qed

end

interpretation mem_rounds: round_store memory_ops "\<lambda>now. d \<le> now + 300000" "\<lambda>sess rid. mi_held (sess, rid) d" mi_step
    "\<lambda>sess rid. mi_quiet (sess, rid) d" for d
proof
  show "mi_held (sess, rid) d s'" if "d \<le> now + 300000" "io_reserve (memory_ops now) sess rid bet s = (s', True)"
    for now sess rid bet s s'
    using that by (auto simp: memory_ops_def mi_held_def mi_reserve_def Let_def split: if_splits)
  show "io_reserve (memory_ops now) sess rid bet s = (s, False)" if "mi_held (sess, rid) d s" for now sess rid bet s
    using that by (auto simp: memory_ops_def mi_held_def mi_reserve_def Let_def)
  show "mi_held (sess, rid) d (fst (io_reserve (memory_ops now) sess' rid' bet s))" if "mi_held (sess, rid) d s"
    for now sess rid sess' rid' bet s
    using mi_kept [OF that, of "MI_reserve now sess' rid' bet"] by (simp add: memory_ops_def)
  show "mi_held (sess, rid) d (io_complete (memory_ops now) sess' rid' res s)" if "mi_held (sess, rid) d s"
    for now sess rid sess' rid' res s
    using mi_kept [OF that, of "MI_complete sess' rid' res"] by (simp add: memory_ops_def)
  show "mi_held (sess, rid) d (io_fail (memory_ops now) sess' rid' why s)" if "mi_held (sess, rid) d s"
    for now sess rid sess' rid' why s
    using mi_kept [OF that, of "MI_fail sess' rid' why"] by (simp add: memory_ops_def)
  show "mi_held (sess, rid) d (io_markUnknown (memory_ops now) sess' rid' why s)" if "mi_held (sess, rid) d s"
    for now sess rid sess' rid' why s
    using mi_kept [OF that, of "MI_unknown sess' rid' why"] by (simp add: memory_ops_def)
qed (rule mi_kept)

text \<open>A turn on the in-memory store: a placement, or another operation, the timer's clean-up among them.\<close>

definition store_turn :: "idem_store \<Rightarrow> int \<times> bx_config \<times> bet_adapter \<times> place_request + mi_op \<Rightarrow> idem_store" where
  "store_turn s ev =
     (case ev of Inl (now, cfg, ad, req) \<Rightarrow> fst (placeBet (memory_ops now) cfg ad req s) | Inr op \<Rightarrow> mi_step s op)"

definition store_quiet :: "string \<times> string \<Rightarrow> int \<Rightarrow> int \<times> bx_config \<times> bet_adapter \<times> place_request + mi_op \<Rightarrow> bool" where
  "store_quiet sr d ev = (case ev of Inl _ \<Rightarrow> True | Inr op \<Rightarrow> mi_quiet sr d op)"

lemma store_turn_is_turn: "mem_rounds.turn = store_turn" "mem_rounds.quiet_turn d sess rid = store_quiet (sess, rid) d"
  by (auto simp: fun_eq_iff mem_rounds.turn_def store_turn_def mem_rounds.quiet_turn_def store_quiet_def)

section \<open>Properties\<close>

lemma placeBet_reserved:
  assumes "io_reserve ops (rq_sessionId req) (rq_roundId req) (rq_betId req) st = (st1, True)"
    and "\<not> rq_dryRun req"
    and "place_loop cfg ad (bx_maxPlacementRetries cfg + 1) 0 None 0 False = (fin, acts)"
  shows "placeBet ops cfg ad req st =
    (case fin of
       Hangs \<Rightarrow> (st1, None, acts)
     | Placed n \<Rightarrow> (io_complete ops (rq_sessionId req) (rq_roundId req) (success_result (rq_betId req)) st1,
         Some \<lparr>ex_placed = True, ex_state = BS_CONFIRMED, ex_error = None, ex_retryCount = n\<rparr>, acts)
     | Gave_up le n ext \<Rightarrow>
         ((if ext then io_markUnknown ops else io_fail ops) (rq_sessionId req) (rq_roundId req) (final_error le ext) st1,
          Some \<lparr>ex_placed = False, ex_state = (if ext then BS_UNKNOWN else BS_FAILED),
            ex_error = Some (final_error le ext), ex_retryCount = n\<rparr>, acts))"
  using assms by (simp add: placeBet_def Let_def split: loop_end.split)

text \<open>
  Functional behaviour of a placement that got its reservation: the first attempt that is not
  retried decides. It is confirmed when both calls say yes, unknown when the wait for the
  confirmation throws anything but a timeout, and hangs when the submission never returns; when every
  attempt is retried the bet is FAILED. The record of the round is written to match, and the
  adapter is called to submit once for each attempt up to the deciding one.
\<close>

theorem placement_outcome:
  assumes "io_reserve ops (rq_sessionId req) (rq_roundId req) (rq_betId req) st = (st1, True)"
    and "\<not> rq_dryRun req"
    and "placeBet ops cfg ad req st = (st2, res, acts)"
  shows "case deciding_attempt cfg ad of
      None \<Rightarrow> submissions acts = bx_maxPlacementRetries cfg + 1 \<and> map_option ex_state res = Some BS_FAILED \<and>
        (\<exists>why. st2 = io_fail ops (rq_sessionId req) (rq_roundId req) why st1)
    | Some k \<Rightarrow> submissions acts = k + 1 \<and>
        (if ad_submit ad k = Pending then res = None \<and> st2 = st1
         else if ad_confirm ad k = Returns True
         then map_option ex_state res = Some BS_CONFIRMED \<and>
           st2 = io_complete ops (rq_sessionId req) (rq_roundId req) (success_result (rq_betId req)) st1
         else map_option ex_state res = Some BS_UNKNOWN \<and>
           (\<exists>why. ad_confirm ad k = Throws why \<and>
              st2 = io_markUnknown ops (rq_sessionId req) (rq_roundId req) why st1))"
proof -
  obtain fin acts' where loop: "place_loop cfg ad (bx_maxPlacementRetries cfg + 1) 0 None 0 False = (fin, acts')"
    by (cases "place_loop cfg ad (bx_maxPlacementRetries cfg + 1) 0 None 0 False")
  note run = placeBet_reserved [OF assms(1,2) loop] and ends = deciding_loop [of cfg ad, unfolded loop]
  show ?thesis
  proof (cases "deciding_attempt cfg ad")
    case None
    then obtain msg r where "fin = Gave_up msg r False" "submissions acts' = bx_maxPlacementRetries cfg + 1"
      using ends by auto
    then show ?thesis using assms(3) run None by auto
  next
    case (Some k)
    then have fin: "fin = ends_at ad k k" "submissions acts' = k + 1"
      using ends by (auto split: if_splits)
    have "\<not> retries_after ad k" using Some by (auto simp: deciding_attempt_def find_Some_iff)
    then consider (confirmed) "fst (run_attempt ad k) = At_confirmed"
      | (uncertain) why where "fst (run_attempt ad k) = At_failed why True"
      | (hangs) "fst (run_attempt ad k) = At_hangs"
      by (cases "fst (run_attempt ad k)") (auto simp: run_attempt_retries)
    then show ?thesis
    proof cases
      case confirmed
      then have "fin = Placed k" by (simp add: fin(1) ends_at_def)
      then show ?thesis using assms(3) run Some fin(2) confirmed by (auto simp: run_attempt_confirmed)
    next
      case uncertain
      then have "fin = Gave_up (Some why) k True" by (simp add: fin(1) ends_at_def)
      then show ?thesis using assms(3) run Some fin(2) uncertain by (auto simp: run_attempt_uncertain final_error_def)
    next
      case hangs
      then have "fin = Hangs" by (simp add: fin(1) ends_at_def)
      then show ?thesis using assms(3) run Some fin(2) hangs by (auto simp: run_attempt_hangs)
    qed
  qed
qed

text \<open>
  The adapter as the comments of the executor presume it: \<open>submitBet\<close> answers or never returns, and the wait for
  a confirmation says yes, or throws an error that is no timeout.
\<close>

definition plain_adapter :: "bet_adapter \<Rightarrow> bool" where
  "plain_adapter ad \<longleftrightarrow>
     (\<forall>k. (\<nexists>why. ad_submit ad k = Throws why) \<and>
       (ad_confirm ad k = Returns True \<or> (\<exists>why. ad_confirm ad k = Throws why \<and> \<not> timed_out_text why)))"

text \<open>The first attempt whose submission is not rejected.\<close>

definition first_unrejected :: "bx_config \<Rightarrow> bet_adapter \<Rightarrow> nat option" where
  "first_unrejected cfg ad = find (\<lambda>k. ad_submit ad k \<noteq> Returns False) [0..<bx_maxPlacementRetries cfg + 1]"

lemma plain_adapter_decides: "plain_adapter ad \<Longrightarrow> deciding_attempt cfg ad = first_unrejected cfg ad"
proof -
  assume p: "plain_adapter ad"
  have "retries_after ad k \<longleftrightarrow> ad_submit ad k = Returns False" for k
    using p [unfolded plain_adapter_def, THEN spec, of k]
    by (auto simp: retries_after_def split: call_end.splits bool.splits)
  then show ?thesis by (simp add: deciding_attempt_def first_unrejected_def)
qed


definition demo_request :: "string \<Rightarrow> place_request" where
  "demo_request bet = \<lparr>rq_betId = bet, rq_roundId = ''r1'', rq_sessionId = ''s1'', rq_stake = Fin 700,
     rq_target = lit (13/10), rq_idempotencyKey = ''s1:r1'', rq_dryRun = False\<rparr>"

text \<open>An adapter that rejects the first submission, accepts the second and then loses its connection.\<close>

definition demo_adapter :: bet_adapter where
  "demo_adapter = \<lparr>ad_submit = (\<lambda>k. Returns (k \<noteq> 0)), ad_confirm = (\<lambda>k. Throws ''socket closed'')\<rparr>"


text \<open>
  C12. Once a placement has reserved its round in the in-memory store, no later placement for the same session and
  round reaches the adapter, whatever the first one ended with (unknown, failed, hanging), as long as the record
  lives: any placements of any rounds may come in between, releases of other rounds, and clean-ups by the timer
  before the record expires, five minutes after the reservation. The later placement is refused as a duplicate and
  changes nothing.
\<close>

theorem round_submitted_by_one_placement:
  assumes "snd (io_reserve (memory_ops now) (rq_sessionId req) (rq_roundId req) (rq_betId req) st)"
    and "rq_sessionId req' = rq_sessionId req" "rq_roundId req' = rq_roundId req"
    and "list_all (store_quiet (rq_sessionId req, rq_roundId req) (now + 300000)) evs"
  shows "let st2 = foldl store_turn (fst (placeBet (memory_ops now) cfg ad req st)) evs
         in placeBet (memory_ops later) cfg' ad' req' st2 =
              (st2, Some \<lparr>ex_placed = False, ex_state = BS_FAILED, ex_error = Some duplicate_msg,
                 ex_retryCount = 0\<rparr>, [])"
  using mem_rounds.no_second_placement [where d = "now + 300000" and now = now and req = req and s = st and req' = req'
      and evs = evs and later = later and cfg = cfg and ad = ad and cfg' = cfg' and ad' = ad'] assms
  by (simp add: store_turn_is_turn)

theorem round_submitted_by_one_placement_witness:
  "let st2 = foldl store_turn (fst (placeBet (memory_ops 0) bx_default demo_adapter (demo_request ''b1'') Map.empty))
         [Inr (MI_cleanup 240000), Inr (MI_release ''s1'' ''r0''), Inl (250000, bx_default, demo_adapter, demo_request ''b3'')]
   in placeBet (memory_ops 260000) bx_default demo_adapter (demo_request ''b2'') st2 =
        (st2, Some \<lparr>ex_placed = False, ex_state = BS_FAILED, ex_error = Some duplicate_msg,
           ex_retryCount = 0\<rparr>, [])"
  by (rule round_submitted_by_one_placement)
    (simp_all add: demo_request_def memory_ops_def mi_reserve_def store_quiet_def generateKey_def Let_def)

text \<open>After that the clean-up frees the round, also one whose bet is unknown, and it is submitted again.\<close>

lemma expired_round_is_submitted_again:
  "let st1 = fst (placeBet (memory_ops 0) bx_default demo_adapter (demo_request ''b1'') Map.empty)
   in submissions (snd (snd (placeBet (memory_ops 400000) bx_default demo_adapter (demo_request ''b2'')
        (mi_step st1 (MI_cleanup 360000))))) = 2"
proof -
  have "\<not> timed_out_text ''socket closed''" by code_simp
  then have plain: "plain_adapter demo_adapter" by (simp add: plain_adapter_def demo_adapter_def)
  have first: "deciding_attempt bx_default demo_adapter = Some 1"
    unfolding plain_adapter_decides [OF plain]
    by (simp add: first_unrejected_def bx_default_def demo_adapter_def upt_rec)
  have calls: "ad_submit demo_adapter (Suc 0) = Returns True" "ad_confirm demo_adapter (Suc 0) = Throws ''socket closed''"
    by (simp_all add: demo_adapter_def)
  have out: "submissions (snd (snd (placeBet (memory_ops t) bx_default demo_adapter (demo_request b) s))) = 2 \<and>
      (\<exists>why. fst (placeBet (memory_ops t) bx_default demo_adapter (demo_request b) s) =
        mi_markUnknown ''s1'' ''r1'' why (fst (mi_reserve t ''s1'' ''r1'' b s)))"
    if "s (generateKey ''s1'' ''r1'') = None" for t b s
    using placement_outcome [of "memory_ops t" "demo_request b" s "fst (mi_reserve t ''s1'' ''r1'' b s)" bx_default
        demo_adapter "fst (placeBet (memory_ops t) bx_default demo_adapter (demo_request b) s)"
        "fst (snd (placeBet (memory_ops t) bx_default demo_adapter (demo_request b) s))"
        "snd (snd (placeBet (memory_ops t) bx_default demo_adapter (demo_request b) s))"] that
    unfolding first by (auto simp: calls demo_request_def memory_ops_def mi_reserve_def Let_def)
  from out [of Map.empty 0 "''b1''"]
  have freed: "mi_step (fst (placeBet (memory_ops 0) bx_default demo_adapter (demo_request ''b1'') Map.empty))
      (MI_cleanup 360000) (generateKey ''s1'' ''r1'') = None"
    by (auto simp: mi_cleanup_def mi_markUnknown_def mi_update_def mi_reserve_def Let_def)
  show ?thesis
    using out [of "mi_step (fst (placeBet (memory_ops 0) bx_default demo_adapter (demo_request ''b1'') Map.empty))
        (MI_cleanup 360000)" 400000 "''b2''"] freed by (simp only: Let_def simp_thms)
qed

text \<open>
  A confirmation that does not come in time (or comes as a clean ``no'') after an accepted
  submission is followed by another submission, up to the last attempt, and the bet ends as FAILED
  and not as UNKNOWN: one request may put several bets on the platform.
\<close>

theorem confirmation_timeout_submits_again:
  "let ad = \<lparr>ad_submit = (\<lambda>k. Returns True), ad_confirm = (\<lambda>k. if late k then Pending else Returns False)\<rparr>;
       (st2, res, acts) = placeBet (memory_ops now) cfg ad (demo_request bet) Map.empty
   in submissions acts = bx_maxPlacementRetries cfg + 1 \<and> map_option ex_state res = Some BS_FAILED \<and>
      map_option ir_status (st2 (generateKey ''s1'' ''r1'')) = Some I_FAILED"
proof -
  let ?ad = "\<lparr>ad_submit = (\<lambda>k. Returns True), ad_confirm = (\<lambda>k. if late k then Pending else Returns False)\<rparr>"
  let ?N = "bx_maxPlacementRetries cfg + 1"
  have "deciding_attempt cfg ?ad = None"
    by (auto simp: deciding_attempt_def find_None_iff retries_after_def)
  then obtain msg r acts where
    loop: "place_loop cfg ?ad ?N 0 None 0 False = (Gave_up msg r False, acts)" "submissions acts = ?N"
    using deciding_loop [of cfg ?ad] by (cases "place_loop cfg ?ad ?N 0 None 0 False") auto
  have "io_reserve (memory_ops now) ''s1'' ''r1'' bet Map.empty =
      (fst (io_reserve (memory_ops now) ''s1'' ''r1'' bet Map.empty), True)"
    by (simp add: memory_ops_def mi_reserve_def Let_def)
  then show ?thesis
    using placeBet_reserved [OF _ _ loop(1), of "memory_ops now" "demo_request bet" Map.empty
        "fst (io_reserve (memory_ops now) ''s1'' ''r1'' bet Map.empty)"] loop(2)
    by (auto simp: demo_request_def memory_ops_def mi_reserve_def mi_fail_def mi_update_def Let_def)
qed

text \<open>A submission that never returns keeps the mutex: the placement has no result.\<close>

lemma hanging_submission_never_returns:
  assumes "io_reserve ops (rq_sessionId req) (rq_roundId req) (rq_betId req) st = (st1, True)"
    and "\<not> rq_dryRun req" and "ad_submit ad 0 = Pending"
  shows "fst (snd (placeBet ops cfg ad req st)) = None"
proof -
  have "deciding_attempt cfg ad = Some 0"
    using assms(3) by (simp add: deciding_attempt_def retries_after_def upt_rec del: upt_Suc)
  then obtain acts where loop: "place_loop cfg ad (bx_maxPlacementRetries cfg + 1) 0 None 0 False = (Hangs, acts)"
    using deciding_loop [of cfg ad] run_attempt_hangs [of ad 0] assms(3)
    by (cases "place_loop cfg ad (bx_maxPlacementRetries cfg + 1) 0 None 0 False") (auto simp: ends_at_def)
  then show ?thesis using placeBet_reserved [OF assms(1,2) loop] by simp
qed

end
