(* ===== verification/CashOut.thy ===== *)
theory CashOut
  imports BetExecution
begin

text \<open>
  \<open>CashOutController\<close> of \<open>src/src/betting/cashout.ts\<close>. The monitor registers callbacks on the stream
  of multipliers and on the crash, and starts one timer; its calls on the adapter are answered later.
  Each callback, answer and timer is an event; the handlers between two events run without
  interruption, as on the JavaScript event loop.
\<close>

section \<open>Data\<close>

record cashout_config =
  cc_targetMultiplier :: jsnum
  cc_latencyBufferMs :: int
  cc_confirmationTimeoutMs :: int
  cc_preferNativeAutoCashOut :: bool

definition cashout_default :: cashout_config where
  "cashout_default = \<lparr>cc_targetMultiplier = lit (13/10), cc_latencyBufferMs = 50,
     cc_confirmationTimeoutMs = 8000, cc_preferNativeAutoCashOut = False\<rparr>"

record cashout_result =
  cr_success :: bool
  cr_multiplier :: "jsnum option"
  cr_pnl :: "jsnum option"
  cr_error :: "string option"

record monitor_result =
  mr_success :: bool
  mr_finalState :: bet_state
  mr_pnl :: "jsnum option"
  mr_cashOutMultiplier :: "jsnum option"
  mr_error :: "string option"

text \<open>How far \<open>executeCashOut\<close> has come: it has two calls on the adapter to wait for.\<close>

datatype cashout_phase = CP_idle | CP_requesting | CP_confirming | CP_done

text \<open>
  The controller's state, its flag \<open>aborted\<close>, the monitor's two local flags and the result of its
  promise; \<open>co_requests\<close> records the calls of \<open>requestCashOut\<close>.
\<close>

record controller =
  co_config :: cashout_config
  co_triggered :: bool
  co_confirmed :: bool
  co_triggeredAtMultiplier :: "jsnum option"
  co_confirmedAtMultiplier :: "jsnum option"
  co_pnl :: "jsnum option"
  co_error :: "string option"
  co_aborted :: bool
  co_inFlight :: bool
  co_result :: "monitor_result option"
  co_phase :: cashout_phase
  co_requests :: nat

definition controller_new :: "cashout_config \<Rightarrow> controller" where
  "controller_new cfg = \<lparr>co_config = cfg, co_triggered = False, co_confirmed = False,
     co_triggeredAtMultiplier = None, co_confirmedAtMultiplier = None, co_pnl = None, co_error = None,
     co_aborted = False, co_inFlight = False, co_result = None, co_phase = CP_idle, co_requests = 0\<rparr>"

datatype cashout_event =
    CE_tick jsnum
  | CE_crash jsnum
  | CE_requested "string + bool"
  | CE_confirmed "string + cashout_result"
  | CE_confirmation_timeout
  | CE_safety_timeout
  | CE_abort

section \<open>The handlers\<close>

definition resolveOnce :: "monitor_result \<Rightarrow> controller \<Rightarrow> controller" where
  "resolveOnce r c = (if co_result c \<noteq> None then c else c\<lparr>co_result := Some r\<rparr>)"

definition on_tick :: "jsnum \<Rightarrow> controller \<Rightarrow> controller" where
  "on_tick multiplier c =
     (if co_result c \<noteq> None \<or> co_aborted c then c
      else if jle (cc_targetMultiplier (co_config c)) multiplier \<and> \<not> co_inFlight c \<and> \<not> co_triggered c
      then c\<lparr>co_inFlight := True, co_triggered := True, co_triggeredAtMultiplier := Some multiplier,
             co_phase := CP_requesting, co_requests := co_requests c + 1\<rparr>
      else c)"

text \<open>The continuation of \<open>executeCashOut\<close>.\<close>

definition executed :: "cashout_result \<Rightarrow> controller \<Rightarrow> controller" where
  "executed r c =
     (if co_result c \<noteq> None then c
      else if cr_success r
      then resolveOnce \<lparr>mr_success = True, mr_finalState = BS_CASHED_OUT,
               mr_pnl = Some (case cr_pnl r of Some p \<Rightarrow> p | None \<Rightarrow> Fin 0),
               mr_cashOutMultiplier = cr_multiplier r, mr_error = None\<rparr>
             (c\<lparr>co_confirmed := True, co_confirmedAtMultiplier := cr_multiplier r, co_pnl := cr_pnl r\<rparr>)
      else let why = (case cr_error r of Some e \<Rightarrow> e | None \<Rightarrow> ''Cash-out failed'')
           in resolveOnce \<lparr>mr_success = False, mr_finalState = BS_FAILED, mr_pnl = None,
                mr_cashOutMultiplier = None, mr_error = Some why\<rparr> (c\<lparr>co_error := Some why\<rparr>))"

definition cashout_failure :: "string \<Rightarrow> cashout_result" where
  "cashout_failure why = \<lparr>cr_success = False, cr_multiplier = None, cr_pnl = None, cr_error = Some why\<rparr>"

definition on_requested :: "string + bool \<Rightarrow> controller \<Rightarrow> controller" where
  "on_requested answer c =
     (if co_phase c \<noteq> CP_requesting then c
      else case answer of
             Inl why \<Rightarrow> executed (cashout_failure why) (c\<lparr>co_phase := CP_done\<rparr>)
           | Inr False \<Rightarrow> executed (cashout_failure ''Cash-out request was rejected by adapter'')
                            (c\<lparr>co_phase := CP_done\<rparr>)
           | Inr True \<Rightarrow> c\<lparr>co_phase := CP_confirming\<rparr>)"

definition on_confirmed :: "string + cashout_result \<Rightarrow> controller \<Rightarrow> controller" where
  "on_confirmed answer c =
     (if co_phase c \<noteq> CP_confirming then c
      else executed (case answer of Inl why \<Rightarrow> cashout_failure why | Inr r \<Rightarrow> r) (c\<lparr>co_phase := CP_done\<rparr>))"

definition on_crash :: "controller \<Rightarrow> controller" where
  "on_crash c =
     (if co_result c \<noteq> None then c
      else if co_inFlight c then c
      else if \<not> co_triggered c
      then resolveOnce \<lparr>mr_success = False, mr_finalState = BS_LOST, mr_pnl = None,
             mr_cashOutMultiplier = None, mr_error = None\<rparr> c
      else c)"

definition on_safety_timeout :: "controller \<Rightarrow> controller" where
  "on_safety_timeout c =
     (if co_result c = None
      then resolveOnce \<lparr>mr_success = False, mr_finalState = BS_UNKNOWN, mr_pnl = None,
             mr_cashOutMultiplier = None, mr_error = Some ''Cash-out monitor safety timeout exceeded''\<rparr> c
      else c)"

definition co_abort :: "controller \<Rightarrow> controller" where
  "co_abort c = c\<lparr>co_aborted := True\<rparr>"

definition co_isComplete :: "controller \<Rightarrow> bool" where
  "co_isComplete c \<longleftrightarrow> co_confirmed c \<or> co_error c \<noteq> None"

fun cashout_step :: "controller \<Rightarrow> cashout_event \<Rightarrow> controller" where
  "cashout_step c (CE_tick m) = on_tick m c"
| "cashout_step c (CE_crash _) = on_crash c"
| "cashout_step c (CE_requested a) = on_requested a c"
| "cashout_step c (CE_confirmed a) = on_confirmed a c"
| "cashout_step c CE_confirmation_timeout = on_confirmed (Inl ''Cash-out confirmation timed out'') c"
| "cashout_step c CE_safety_timeout = on_safety_timeout c"
| "cashout_step c CE_abort = co_abort c"

text \<open>\<open>configureNativeAutoCashOut\<close>: the answer of the adapter, \<^const>\<open>None\<close> when it has no such call.\<close>

definition configureNativeAutoCashOut :: "cashout_config \<Rightarrow> (jsnum \<Rightarrow> string + bool) option \<Rightarrow> bool" where
  "configureNativeAutoCashOut cfg setNative =
     (case setNative of
        None \<Rightarrow> False
      | Some call \<Rightarrow> cc_preferNativeAutoCashOut cfg \<and> call (cc_targetMultiplier cfg) = Inr True)"

lemmas cashout_defs = resolveOnce_def on_tick_def executed_def on_requested_def on_confirmed_def
  on_crash_def on_safety_timeout_def co_abort_def

section \<open>The invariant\<close>

definition cashout_inv :: "controller \<Rightarrow> bool" where
  "cashout_inv c \<longleftrightarrow>
     co_inFlight c = co_triggered c \<and> (co_phase c = CP_idle \<longleftrightarrow> \<not> co_triggered c) \<and>
     co_requests c = (if co_triggered c then 1 else 0) \<and>
     (co_triggered c \<longleftrightarrow> (\<exists>m. co_triggeredAtMultiplier c = Some m \<and> jle (cc_targetMultiplier (co_config c)) m)) \<and>
     (co_triggeredAtMultiplier c = None \<longleftrightarrow> \<not> co_triggered c) \<and>
     (co_confirmed c \<longrightarrow> co_triggered c \<and> co_phase c = CP_done) \<and>
     (case co_result c of
        None \<Rightarrow> \<not> co_confirmed c \<and> co_error c = None \<and> co_phase c \<noteq> CP_done
      | Some r \<Rightarrow> mr_success r = co_confirmed c \<and>
          (case mr_finalState r of
             BS_CASHED_OUT \<Rightarrow> co_confirmed c
           | BS_FAILED \<Rightarrow> co_triggered c \<and> \<not> co_confirmed c \<and> co_phase c = CP_done \<and> co_error c = mr_error r
           | BS_LOST \<Rightarrow> \<not> co_triggered c
           | BS_UNKNOWN \<Rightarrow> \<not> co_confirmed c
           | _ \<Rightarrow> False))"

lemma cashout_inv_new: "cashout_inv (controller_new cfg)"
  by (simp add: cashout_inv_def controller_new_def)

lemma cashout_inv_tick: "cashout_inv c \<Longrightarrow> cashout_inv (on_tick m c)"
  by (auto simp: cashout_inv_def on_tick_def split: option.splits bet_state.splits)

lemma cashout_inv_executed:
  assumes "cashout_inv c" "co_phase c = CP_requesting \<or> co_phase c = CP_confirming"
  shows "cashout_inv (executed r (c\<lparr>co_phase := CP_done\<rparr>))"
proof (cases "co_result c")
  case None
  then show ?thesis
    using assms by (auto simp: cashout_inv_def executed_def resolveOnce_def Let_def)
next
  case (Some res)
  then show ?thesis
    using assms by (auto simp: cashout_inv_def executed_def split: bet_state.splits)
qed

lemma cashout_inv_phase: "cashout_inv c \<Longrightarrow> co_phase c = CP_requesting \<Longrightarrow> cashout_inv (c\<lparr>co_phase := CP_confirming\<rparr>)"
  by (auto simp: cashout_inv_def split: option.splits bet_state.splits)

lemma cashout_inv_step: "cashout_inv c \<Longrightarrow> cashout_inv (cashout_step c e)"
proof (cases e)
  case (CE_crash m)
  assume "cashout_inv c"
  then show ?thesis
    by (cases "co_result c") (auto simp: CE_crash cashout_inv_def on_crash_def resolveOnce_def)
next
  case CE_safety_timeout
  assume "cashout_inv c"
  then show ?thesis
    by (cases "co_result c") (auto simp: CE_safety_timeout cashout_inv_def on_safety_timeout_def resolveOnce_def)
next
  case CE_abort
  assume "cashout_inv c"
  then show ?thesis
    by (cases "co_result c") (auto simp: CE_abort cashout_inv_def co_abort_def split: bet_state.splits)
qed (auto simp: on_requested_def on_confirmed_def intro: cashout_inv_tick cashout_inv_executed cashout_inv_phase
     split: sum.split bool.split)

interpretation cashout: started cashout_step cashout_inv "controller_new cfg"
  by unfold_locales (auto intro: cashout_inv_step cashout_inv_new)

section \<open>What does not change\<close>

lemma step_config [simp]: "co_config (cashout_step c e) = co_config c"
  by (cases e) (auto simp: cashout_defs Let_def split: sum.split bool.split)

lemma step_resolved: "co_result c = Some r \<Longrightarrow> co_result (cashout_step c e) = Some r \<and>
    co_requests (cashout_step c e) = co_requests c \<and> co_confirmed (cashout_step c e) = co_confirmed c \<and>
    co_pnl (cashout_step c e) = co_pnl c"
  by (cases e) (auto simp: cashout_defs Let_def split: sum.split bool.split)

lemma run_config [simp]: "co_config (foldl cashout_step c es) = co_config c"
  by (induction es arbitrary: c) auto

text \<open>An aborted controller sends no request any more.\<close>

interpretation aborted: stepwise cashout_step "\<lambda>c. co_aborted c \<and> co_requests c = n"
proof
  show "co_aborted (cashout_step c e) \<and> co_requests (cashout_step c e) = n"
    if "co_aborted c \<and> co_requests c = n" for c e
    using that by (cases e) (auto simp: cashout_defs Let_def split: sum.split bool.split)
qed

interpretation triggered: stepwise cashout_step co_triggered
proof
  show "co_triggered (cashout_step c e)" if "co_triggered c" for c e
    using that by (cases e) (auto simp: cashout_defs Let_def split: sum.split bool.split)
qed

text \<open>The only steps that resolve the monitor.\<close>

fun ends_monitor :: "cashout_event \<Rightarrow> bool" where
  "ends_monitor CE_safety_timeout = True"
| "ends_monitor _ = False"

lemma safety_timeout_resolves: "co_result (cashout_step c CE_safety_timeout) \<noteq> None"
  by (auto simp: on_safety_timeout_def resolveOnce_def)

lemma resolved_run: "co_result c = Some r \<Longrightarrow>
    co_result (foldl cashout_step c es) = Some r \<and> co_confirmed (foldl cashout_step c es) = co_confirmed c"
  by (induction es arbitrary: c) (auto simp: step_resolved)

section \<open>Properties\<close>

text \<open>In the code as it is no request is sent below the target.\<close>

lemma cashout_requested_at_target:
  "let c = foldl cashout_step (controller_new cfg) es
   in co_requests c = 1 \<longleftrightarrow>
        (case co_triggeredAtMultiplier c of Some m \<Rightarrow> jle (cc_targetMultiplier cfg) m | None \<Rightarrow> False)"
  using cashout.reachable_inv [of cfg es] by (auto simp: cashout_inv_def controller_new_def Let_def split: option.split)


text \<open>
  C15. The monitor always comes to an end: after the safety timer has fired, or after a crash
  when nothing was requested before it, the promise has a result, and the result it has first
  stands against every later event.
\<close>

theorem cashout_monitor_resolves:
  "let before = foldl cashout_step (controller_new cfg) es;
       timed = foldl cashout_step (cashout_step before CE_safety_timeout) rest;
       crashed = foldl cashout_step (cashout_step before (CE_crash m)) rest
   in co_result timed \<noteq> None \<and> co_result timed = co_result (cashout_step before CE_safety_timeout) \<and>
      (if co_requests before = 0
       then co_result crashed \<noteq> None \<and> co_result crashed = co_result (cashout_step before (CE_crash m))
       else True)"
proof -
  define b where "b = foldl cashout_step (controller_new cfg) es"
  have inv: "cashout_inv b" unfolding b_def by (rule cashout.reachable_inv)
  have "co_result (cashout_step b (CE_crash m)) \<noteq> None" if "co_requests b = 0"
    using that inv by (auto simp: cashout_inv_def on_crash_def resolveOnce_def split: if_splits)
  then show ?thesis
    using safety_timeout_resolves [of b] resolved_run
    by (auto simp: Let_def b_def [symmetric] simp del: cashout_step.simps)
qed

text \<open>
  A confirmation that does not come in time ends as FAILED with no profit or loss, although
  the platform has accepted the request; a confirmation after it is dropped.
\<close>

lemma cashout_timeout_reports_failed:
  assumes "jle (cc_targetMultiplier cfg) m"
  shows "let c = foldl cashout_step (controller_new cfg)
              ([CE_tick m, CE_requested (Inr True), CE_confirmation_timeout] @ es)
         in map_option mr_finalState (co_result c) = Some BS_FAILED \<and> \<not> co_confirmed c"
proof -
  define c where "c = foldl cashout_step (controller_new cfg)
    [CE_tick m, CE_requested (Inr True), CE_confirmation_timeout]"
  have r: "map_option mr_finalState (co_result c) = Some BS_FAILED" "\<not> co_confirmed c"
    using assms by (simp_all add: c_def controller_new_def cashout_defs cashout_failure_def Let_def)
  then have "co_result (foldl cashout_step c es) = co_result c \<and> \<not> co_confirmed (foldl cashout_step c es)"
    using resolved_run by (cases "co_result c") auto
  then show ?thesis using r by (simp add: Let_def c_def)
qed

text \<open>The latency buffer of the configuration has no effect: nothing is triggered before the target.\<close>

lemma latency_buffer_unused:
  "foldl cashout_step (controller_new (cfg\<lparr>cc_latencyBufferMs := x\<rparr>)) es =
     (foldl cashout_step (controller_new cfg) es)\<lparr>co_config := cfg\<lparr>cc_latencyBufferMs := x\<rparr>\<rparr>"
proof (induction es rule: rev_induct)
  case Nil
  then show ?case by (simp add: controller_new_def)
next
  case (snoc e es)
  have "cashout_step (c\<lparr>co_config := co_config c\<lparr>cc_latencyBufferMs := x\<rparr>\<rparr>) e =
      (cashout_step c e)\<lparr>co_config := co_config c\<lparr>cc_latencyBufferMs := x\<rparr>\<rparr>" for c
    by (cases e) (auto simp: cashout_defs Let_def split: sum.split bool.split)
  from this [of "foldl cashout_step (controller_new cfg) es"] show ?case
    using snoc by (simp add: controller_new_def)
qed

end
