(* ===== verification/IncrementalState.thy ===== *)
theory IncrementalState
  imports JsNumber
begin

text \<open>
  The O(1) statistics of \<open>src/src/prediction/state/incremental-state-engine.ts\<close> and the full-history
  calculators of \<open>src/src/prediction/features/calculators.ts\<close> they replace on the critical path:
  ring buffers of the last 64 and the last 30 crash points, hit counters, runs, the 2x2 Markov
  counts, Welford's accumulator and two moving averages. A history is the list of the accepted
  crash points; each statistic is shown to be the function of it that the calculators recompute.
\<close>

section \<open>Circular buffers\<close>

text \<open>
  A buffer of \<open>cap\<close> cells, the next write position and the number of cells in use hold the last
  cells of the history \<open>h\<close>: element \<open>j\<close> of \<open>h\<close> sits in cell \<open>j mod cap\<close>.
\<close>

definition ring_holds :: "nat \<Rightarrow> 'a list \<Rightarrow> nat \<Rightarrow> nat \<Rightarrow> 'a list \<Rightarrow> bool" where
  "ring_holds cap r pos len h \<longleftrightarrow>
     0 < cap \<and> length r = cap \<and> pos = length h mod cap \<and> len = min cap (length h) \<and>
     (\<forall>j. length h \<le> j + cap \<and> j < length h \<longrightarrow> r ! (j mod cap) = h ! j)"

lemma ring_holds_empty: "0 < cap \<Longrightarrow> length r = cap \<Longrightarrow> ring_holds cap r 0 0 []"
  by (simp add: ring_holds_def)

text \<open>Two indices less than \<open>cap\<close> apart share a cell only when they are equal.\<close>

lemma mod_window_inj:
  fixes i j cap :: nat
  assumes "i mod cap = j mod cap" "i \<le> j" "j < i + cap"
  shows "i = j"
proof -
  from assms(1,2) obtain k where "j = i + cap * k"
    by (metis mod_eq_dvd_iff_nat dvd_def le_add_diff_inverse)
  with assms(3) show ?thesis by (cases k) auto
qed

lemma ring_holds_write:
  assumes "ring_holds cap r pos len h"
  shows "ring_holds cap (r[pos := x]) ((pos + 1) mod cap) (if len < cap then len + 1 else len) (h @ [x])"
proof -
  have r: "0 < cap" "length r = cap" "pos = length h mod cap" "len = min cap (length h)"
    and c: "\<And>j. length h \<le> j + cap \<Longrightarrow> j < length h \<Longrightarrow> r ! (j mod cap) = h ! j"
    using assms by (auto simp: ring_holds_def)
  have "r[pos := x] ! (j mod cap) = (h @ [x]) ! j"
    if "length (h @ [x]) \<le> j + cap" "j < length (h @ [x])" for j
  proof (cases "j = length h")
    case True
    then show ?thesis using r by simp
  next
    case False
    with that have j: "length h < j + cap" "j < length h" by auto
    then have "j mod cap \<noteq> pos" using mod_window_inj [of j cap "length h"] r(3) by auto
    then show ?thesis using c [of j] j by (simp add: nth_append)
  qed
  then show ?thesis using r by (auto simp: ring_holds_def mod_Suc_eq)
qed

text \<open>The cell that the next write of a full buffer overwrites holds the oldest element.\<close>

lemma ring_holds_oldest:
  "ring_holds cap r pos cap h \<Longrightarrow> cap \<le> length h \<and> r ! pos = h ! (length h - cap)"
proof -
  assume a: "ring_holds cap r pos cap h"
  then have le: "cap \<le> length h" and p: "pos = length h mod cap" and "0 < cap"
    by (auto simp: ring_holds_def min_def split: if_splits)
  have "length h mod cap = (length h - cap) mod cap"
    using le by (metis mod_if mod_add_self2 le_add_diff_inverse2)
  then show ?thesis using a le p \<open>0 < cap\<close> by (auto simp: ring_holds_def)
qed

text \<open>Both readers start at the cell of the oldest element.\<close>

lemma ring_start:
  assumes "ring_holds cap r pos len h"
  shows "(if len < cap then 0 else pos) mod cap = (length h - cap) mod cap"
    and "(pos + cap - len) mod cap = (length h - cap) mod cap"
  using assms
  by (cases "length h < cap"; simp add: ring_holds_def le_mod_geq [of cap "length h"])+

text \<open>Reading the cells in use from there on gives the last \<open>cap\<close> elements of the history.\<close>

lemma ring_holds_list:
  assumes "ring_holds cap r pos len h" and s: "s mod cap = (length h - cap) mod cap"
  shows "map (\<lambda>i. r ! ((s + i) mod cap)) [0..<len] = drop (length h - cap) h"
proof (rule nth_equalityI)
  have len: "len = min cap (length h)"
    and c: "\<And>j. length h \<le> j + cap \<Longrightarrow> j < length h \<Longrightarrow> r ! (j mod cap) = h ! j"
    using assms(1) by (auto simp: ring_holds_def)
  then show "length (map (\<lambda>i. r ! ((s + i) mod cap)) [0..<len]) = length (drop (length h - cap) h)"
    by auto
  fix i
  assume "i < length (map (\<lambda>i. r ! ((s + i) mod cap)) [0..<len])"
  then have i: "i < len" by simp
  have "(s + i) mod cap = (length h - cap + i) mod cap" using s by (metis mod_add_left_eq)
  then show "map (\<lambda>i. r ! ((s + i) mod cap)) [0..<len] ! i = drop (length h - cap) h ! i"
    using c [of "length h - cap + i"] i len by (auto simp: min_def split: if_splits)
qed

text \<open>How the window of the last \<open>n\<close> elements moves when the history grows.\<close>

lemma window_snoc:
  assumes "0 < n"
  shows "n \<le> length h \<Longrightarrow> drop (length h - n) h = h ! (length h - n) # drop (Suc (length h) - n) h"
    and "drop (Suc (length h) - n) (h @ [x]) = drop (Suc (length h) - n) h @ [x]"
  using assms by (auto simp: Suc_diff_le Cons_nth_drop_Suc)

section \<open>The calculators over the full history\<close>

datatype data_quality = DQ_high | DQ_medium | DQ_low

record historical_round =
  hr_id :: string
  hr_externalRoundId :: string
  hr_sessionId :: "string option"
  hr_startedAt :: "string option"
  hr_crashedAt :: "string option"
  hr_crashPoint :: jsnum
  hr_observationSource :: "string option"
  hr_dataQuality :: "data_quality option"
  hr_createdAt :: string
  hr_sequenceIndex :: "nat option"

text \<open>\<open>a >= b\<close> on numbers is \<^term>\<open>jle b a\<close>, false on \<open>NaN\<close>.\<close>

definition mean :: "jsnum list \<Rightarrow> jsnum" where
  "mean values =
     (if length values = 0 then Fin 0 else jdiv (foldl jadd (Fin 0) values) (jsint (int (length values))))"

definition sq :: "jsnum \<Rightarrow> jsnum" where
  "sq x = jmul x x"

definition variance :: "jsnum list \<Rightarrow> jsnum" where
  "variance values =
     (if length values < 2 then Fin 0
      else let m = mean values
           in jdiv (foldl (\<lambda>acc v. jadd acc (sq (jsub v m))) (Fin 0) values)
                (jsint (int (length values) - 1)))"

definition hitRate :: "historical_round list \<Rightarrow> jsnum \<Rightarrow> jsnum" where
  "hitRate rounds threshold =
     (if length rounds = 0 then Fin 0
      else jdiv (jsint (int (length (filter (\<lambda>r. jle threshold (hr_crashPoint r)) rounds))))
             (jsint (int (length rounds))))"

text \<open>The loops run from the last index down; they recurse over the reversed list.\<close>

fun since_from :: "nat \<Rightarrow> nat \<Rightarrow> historical_round list \<Rightarrow> jsnum \<Rightarrow> nat" where
  "since_from passed n [] threshold = n"
| "since_from passed n (r # rs) threshold =
     (if jle threshold (hr_crashPoint r) then passed else since_from (passed + 1) n rs threshold)"

definition roundsSince :: "historical_round list \<Rightarrow> jsnum \<Rightarrow> nat" where
  "roundsSince rounds threshold = since_from 0 (length rounds) (rev rounds) threshold"

fun streak_from :: "nat \<Rightarrow> historical_round list \<Rightarrow> (jsnum \<Rightarrow> bool) \<Rightarrow> nat" where
  "streak_from streak [] predicate = streak"
| "streak_from streak (r # rs) predicate =
     (if predicate (hr_crashPoint r) then streak_from (streak + 1) rs predicate else streak)"

definition consecutiveStreak :: "historical_round list \<Rightarrow> (jsnum \<Rightarrow> bool) \<Rightarrow> nat" where
  "consecutiveStreak rounds predicate = streak_from 0 (rev rounds) predicate"

text \<open>Both loops in one function of the crash points: the length of the last run of \<open>p\<close>.\<close>

definition run_of :: "('a \<Rightarrow> bool) \<Rightarrow> 'a list \<Rightarrow> nat" where
  "run_of p h = length (takeWhile p (rev h))"

lemma run_of_simps [simp]:
  "run_of p [] = 0"
  "run_of p (h @ [x]) = (if p x then run_of p h + 1 else 0)"
  by (simp_all add: run_of_def)

lemma run_of_cong: "(\<And>x. x \<in> set h \<Longrightarrow> p x = q x) \<Longrightarrow> run_of p h = run_of q h"
  unfolding run_of_def by (rule arg_cong [of _ _ length], rule takeWhile_cong) auto

lemma streak_from_run: "streak_from n rs p = n + length (takeWhile p (map hr_crashPoint rs))"
  by (induction n rs p rule: streak_from.induct) auto

lemma consecutiveStreak_run: "consecutiveStreak rounds p = run_of p (map hr_crashPoint rounds)"
  by (simp add: consecutiveStreak_def streak_from_run run_of_def rev_map)

lemma since_from_run:
  "passed + length rs = n \<Longrightarrow>
     since_from passed n rs th = passed + length (takeWhile (\<lambda>x. \<not> jle th x) (map hr_crashPoint rs))"
  by (induction passed n rs th rule: since_from.induct) auto

lemma roundsSince_run: "roundsSince rounds th = run_of (\<lambda>x. \<not> jle th x) (map hr_crashPoint rounds)"
  by (simp add: roundsSince_def since_from_run run_of_def rev_map)

section \<open>The engine\<close>

abbreviation LAG_CAP :: nat where "LAG_CAP \<equiv> 64"
abbreviation SHORT_CAP :: nat where "SHORT_CAP \<equiv> 30"

definition EWMA_ALPHA :: jsnum where
  "EWMA_ALPHA = lit (5/100)"

datatype prediction_target = T13 | T20 | T50

record hit_counters =
  t13 :: nat
  t20 :: nat
  t50 :: nat

record run_state =
  below13 :: nat
  above13 :: nat
  below15 :: nat
  above20 :: nat
  maxBelow13 :: nat
  maxAbove13 :: nat

text \<open>The 2x2 table \<open>trans[from][to]\<close>; index 1 is a point of at least 1.3.\<close>

record markov_state =
  mk_trans :: "(nat \<times> nat) \<times> (nat \<times> nat)"
  lastAbove13 :: "bool option"

record welford_state =
  wf_n :: nat
  wf_mean :: jsnum
  wf_m2 :: jsnum

record engine =
  e_count :: nat
  e_lastCrash :: "jsnum option"
  e_welford :: welford_state
  e_ewma :: jsnum
  e_ewmaHit13 :: jsnum
  e_hits :: hit_counters
  e_runs :: run_state
  e_markov :: markov_state
  e_lagRing :: "jsnum list"
  e_lagLen :: nat
  e_lagPos :: nat
  e_shortRing :: "jsnum list"
  e_shortLen :: nat
  e_shortPos :: nat
  e_shortSum :: jsnum
  e_shortSumSq :: jsnum
  e_shortHits13 :: int
  e_updatedAt :: int

definition emptyWelford :: welford_state where
  "emptyWelford = \<lparr>wf_n = 0, wf_mean = Fin 0, wf_m2 = Fin 0\<rparr>"

definition emptyRuns :: run_state where
  "emptyRuns = \<lparr>below13 = 0, above13 = 0, below15 = 0, above20 = 0, maxBelow13 = 0, maxAbove13 = 0\<rparr>"

definition emptyMarkov :: markov_state where
  "emptyMarkov = \<lparr>mk_trans = ((0, 0), (0, 0)), lastAbove13 = None\<rparr>"

definition is_reset :: engine where
  "is_reset = \<lparr>e_count = 0, e_lastCrash = None, e_welford = emptyWelford, e_ewma = lit (13/10),
     e_ewmaHit13 = lit (65/100), e_hits = \<lparr>t13 = 0, t20 = 0, t50 = 0\<rparr>, e_runs = emptyRuns,
     e_markov = emptyMarkov, e_lagRing = replicate LAG_CAP (Fin 0), e_lagLen = 0, e_lagPos = 0,
     e_shortRing = replicate SHORT_CAP (Fin 0), e_shortLen = 0, e_shortPos = 0, e_shortSum = Fin 0,
     e_shortSumSq = Fin 0, e_shortHits13 = 0, e_updatedAt = 0\<rparr>"

definition welford_step :: "jsnum \<Rightarrow> welford_state \<Rightarrow> welford_state" where
  "welford_step x w =
     (let n = wf_n w + 1;
          delta = jsub x (wf_mean w);
          m = jadd (wf_mean w) (jdiv delta (jsint (int n)));
          delta2 = jsub x m
      in \<lparr>wf_n = n, wf_mean = m, wf_m2 = jadd (wf_m2 w) (jmul delta delta2)\<rparr>)"

definition ewma_step :: "jsnum \<Rightarrow> jsnum \<Rightarrow> jsnum" where
  "ewma_step x e = jadd (jmul EWMA_ALPHA x) (jmul (jsub (Fin 1) EWMA_ALPHA) e)"

definition hits_step :: "jsnum \<Rightarrow> hit_counters \<Rightarrow> hit_counters" where
  "hits_step x h =
     (let h1 = (if jle (lit (13/10)) x then h\<lparr>t13 := t13 h + 1\<rparr> else h);
          h2 = (if jle (Fin 2) x then h1\<lparr>t20 := t20 h1 + 1\<rparr> else h1)
      in if jle (Fin 5) x then h2\<lparr>t50 := t50 h2 + 1\<rparr> else h2)"

definition runs_step :: "jsnum \<Rightarrow> run_state \<Rightarrow> run_state" where
  "runs_step x r =
     (let r1 = (if jle (lit (13/10)) x
                then let a = above13 r + 1
                     in r\<lparr>above13 := a, below13 := 0,
                          maxAbove13 := (if a > maxAbove13 r then a else maxAbove13 r)\<rparr>
                else let b = below13 r + 1
                     in r\<lparr>below13 := b, above13 := 0,
                          maxBelow13 := (if b > maxBelow13 r then b else maxBelow13 r)\<rparr>);
          r2 = r1\<lparr>below15 := (if jlt x (Fin (3/2)) then below15 r1 + 1 else 0)\<rparr>
      in r2\<lparr>above20 := (if jle (Fin 2) x then above20 r2 + 1 else 0)\<rparr>)"

fun count_trans :: "bool \<Rightarrow> bool \<Rightarrow> (nat \<times> nat) \<times> (nat \<times> nat) \<Rightarrow> (nat \<times> nat) \<times> (nat \<times> nat)" where
  "count_trans False False ((a, b), (c, d)) = ((a + 1, b), (c, d))"
| "count_trans False True ((a, b), (c, d)) = ((a, b + 1), (c, d))"
| "count_trans True False ((a, b), (c, d)) = ((a, b), (c + 1, d))"
| "count_trans True True ((a, b), (c, d)) = ((a, b), (c, d + 1))"

definition markov_step :: "jsnum \<Rightarrow> markov_state \<Rightarrow> markov_state" where
  "markov_step x m =
     (let above = jle (lit (13/10)) x
      in \<lparr>mk_trans = (case lastAbove13 m of None \<Rightarrow> mk_trans m
                      | Some from \<Rightarrow> count_trans from above (mk_trans m)),
          lastAbove13 = Some above\<rparr>)"

definition lag_step :: "jsnum \<Rightarrow> engine \<Rightarrow> engine" where
  "lag_step x e =
     e\<lparr>e_lagRing := (e_lagRing e)[e_lagPos e := x],
       e_lagPos := (e_lagPos e + 1) mod LAG_CAP,
       e_lagLen := (if e_lagLen e < LAG_CAP then e_lagLen e + 1 else e_lagLen e)\<rparr>"

definition short_step :: "jsnum \<Rightarrow> engine \<Rightarrow> engine" where
  "short_step x e =
     (let e1 = (if e_shortLen e = SHORT_CAP
                then let evicted = e_shortRing e ! e_shortPos e
                     in e\<lparr>e_shortSum := jsub (e_shortSum e) evicted,
                          e_shortSumSq := jsub (e_shortSumSq e) (jmul evicted evicted),
                          e_shortHits13 := (if jle (lit (13/10)) evicted
                                            then e_shortHits13 e - 1 else e_shortHits13 e)\<rparr>
                else e\<lparr>e_shortLen := e_shortLen e + 1\<rparr>)
      in e1\<lparr>e_shortRing := (e_shortRing e1)[e_shortPos e1 := x],
            e_shortPos := (e_shortPos e1 + 1) mod SHORT_CAP,
            e_shortSum := jadd (e_shortSum e1) x,
            e_shortSumSq := jadd (e_shortSumSq e1) (jmul x x),
            e_shortHits13 := (if jle (lit (13/10)) x
                              then e_shortHits13 e1 + 1 else e_shortHits13 e1)\<rparr>)"

text \<open>\<open>update\<close> ignores a point that is not a positive finite number.\<close>

definition valid_point :: "jsnum \<Rightarrow> bool" where
  "valid_point x \<longleftrightarrow> is_fin x \<and> \<not> jle x (Fin 0)"

definition is_update :: "int \<Rightarrow> engine \<Rightarrow> jsnum \<Rightarrow> engine" where
  "is_update now e x =
     (if \<not> valid_point x then e
      else let e1 = e\<lparr>e_welford := welford_step x (e_welford e)\<rparr>;
               e2 = e1\<lparr>e_ewma := ewma_step x (e_ewma e1),
                       e_ewmaHit13 := ewma_step (if jle (lit (13/10)) x then Fin 1 else Fin 0) (e_ewmaHit13 e1)\<rparr>;
               e3 = e2\<lparr>e_hits := hits_step x (e_hits e2), e_runs := runs_step x (e_runs e2),
                       e_markov := markov_step x (e_markov e2)\<rparr>;
               e4 = short_step x (lag_step x e3)
           in e4\<lparr>e_count := e_count e4 + 1, e_lastCrash := Some x, e_updatedAt := now\<rparr>)"

text \<open>\<open>seed\<close> starts over and feeds the points in order (one clock reading for the batch).\<close>

definition is_seed :: "int \<Rightarrow> jsnum list \<Rightarrow> engine" where
  "is_seed now crashPoints = foldl (is_update now) is_reset crashPoints"

definition getLagArray :: "engine \<Rightarrow> jsnum list" where
  "getLagArray e =
     (if e_lagLen e = 0 then []
      else let start = (if e_lagLen e < LAG_CAP then 0 else e_lagPos e)
           in map (\<lambda>i. e_lagRing e ! ((start + i) mod LAG_CAP)) [0..<e_lagLen e])"

text \<open>The variable \<open>n\<close> only decides whether there is anything to return; the loop stops at \<open>max\<close>.\<close>

definition getRecentPoints :: "engine \<Rightarrow> nat \<Rightarrow> jsnum list" where
  "getRecentPoints e mx =
     (let cap = length (e_lagRing e); n = min (min mx (e_lagLen e)) cap
      in if n \<le> 0 then []
         else let start = (e_lagPos e + cap - e_lagLen e) mod cap
              in map (\<lambda>i. e_lagRing e ! ((start + i) mod cap)) [0..<min (e_lagLen e) mx])"

definition is_variance :: "engine \<Rightarrow> jsnum" where
  "is_variance e =
     (let w = e_welford e in if wf_n w > 1 then jdiv (wf_m2 w) (jsint (int (wf_n w) - 1)) else Fin 0)"

fun hits_of :: "prediction_target \<Rightarrow> hit_counters \<Rightarrow> nat" where
  "hits_of T13 h = t13 h"
| "hits_of T20 h = t20 h"
| "hits_of T50 h = t50 h"

definition is_hitRate :: "engine \<Rightarrow> prediction_target \<Rightarrow> jsnum" where
  "is_hitRate e target =
     (if e_count e = 0 then Fin 0
      else jdiv (jsint (int (hits_of target (e_hits e)))) (jsint (int (e_count e))))"

definition shortHitRate13 :: "engine \<Rightarrow> jsnum" where
  "shortHitRate13 e =
     (if e_shortLen e > 0 then jdiv (jsint (e_shortHits13 e)) (jsint (int (e_shortLen e))) else Fin 0)"

definition shortMean :: "engine \<Rightarrow> jsnum" where
  "shortMean e = (if e_shortLen e > 0 then jdiv (e_shortSum e) (jsint (int (e_shortLen e))) else Fin 0)"

definition shortVariance :: "engine \<Rightarrow> jsnum" where
  "shortVariance e =
     (if e_shortLen e < 2 then Fin 0
      else let m = jdiv (e_shortSum e) (jsint (int (e_shortLen e)))
           in jmax (Fin 0) (jsub (jdiv (e_shortSumSq e) (jsint (int (e_shortLen e)))) (jmul m m)))"

definition markovPNextAbove13 :: "engine \<Rightarrow> jsnum" where
  "markovPNextAbove13 e =
     (case lastAbove13 (e_markov e) of
        None \<Rightarrow> e_ewmaHit13 e
      | Some from \<Rightarrow>
          (let row = (if from then snd (mk_trans (e_markov e)) else fst (mk_trans (e_markov e)));
               n = fst row + snd row
           in if n < 10 then e_ewmaHit13 e else jdiv (jsint (int (snd row))) (jsint (int n))))"

definition isWarm :: "engine \<Rightarrow> nat \<Rightarrow> bool" where
  "isWarm e minCount \<longleftrightarrow> minCount \<le> e_count e"

section \<open>The features computed from the engine\<close>

text \<open>\<open>computeRunFeatures\<close> and \<open>computeMarkovFeatures\<close>, the records in the order of the source.\<close>

definition computeRunFeatures :: "engine \<Rightarrow> nat list" where
  "computeRunFeatures e =
     (let s = e_runs e in [below13 s, above13 s, below15 s, above20 s, maxBelow13 s, maxAbove13 s])"

record markov_features =
  markov_p_above_13 :: jsnum
  markov_p_below_13 :: jsnum
  markov_support :: nat
  markov_from_above :: nat

definition computeMarkovFeatures :: "engine \<Rightarrow> markov_features" where
  "computeMarkovFeatures e =
     (let m = e_markov e; pAbove = markovPNextAbove13 e;
          support = (case lastAbove13 m of None \<Rightarrow> 0
                     | Some from \<Rightarrow> (let row = (if from then snd (mk_trans m) else fst (mk_trans m))
                                    in fst row + snd row))
      in \<lparr>markov_p_above_13 = pAbove, markov_p_below_13 = jsub (Fin 1) pAbove,
          markov_support = support,
          markov_from_above = (if lastAbove13 m = Some True then 1 else 0)\<rparr>)"

text \<open>\<open>lag(k)\<close>: the \<open>k\<close>-th last point, 0 when there are fewer.\<close>

definition lag_at :: "jsnum list \<Rightarrow> nat \<Rightarrow> jsnum" where
  "lag_at lags k = (if k \<le> length lags then lags ! (length lags - k) else Fin 0)"

definition lag_ratio :: "jsnum \<Rightarrow> jsnum \<Rightarrow> jsnum" where
  "lag_ratio a b = (if jlt (Fin 0) b then jdiv a b else Fin 1)"

definition computeLagFeatures :: "engine \<Rightarrow> jsnum list" where
  "computeLagFeatures e =
     (let lags = getLagArray e; lag = lag_at lags; l = lag 1; prev = lag 2; lag4 = lag 4; lag8 = lag 8
      in [l, lag 2, lag 3, lag4, lag 5, lag8, lag 10, jsub l prev, jsub prev (lag 3),
          lag_ratio l prev, lag_ratio l (lag 5),
          jdiv (jadd (jadd l prev) (lag 3)) (Fin 3),
          jdiv (jadd (jadd (jadd (jadd l prev) (lag 3)) lag4) (lag 5)) (Fin 5)])"

section \<open>What each statistic is of the history\<close>

abbreviation ge13 :: "jsnum \<Rightarrow> bool" where
  "ge13 x \<equiv> jle (lit (13/10)) x"

definition count_if :: "('a \<Rightarrow> bool) \<Rightarrow> 'a list \<Rightarrow> nat" where
  "count_if p h = length (filter p h)"

lemma count_if_simps [simp]:
  "count_if p [] = 0" "count_if p (x # h) = (if p x then 1 else 0) + count_if p h"
  "count_if p (h @ g) = count_if p h + count_if p g"
  by (simp_all add: count_if_def)

lemma count_if_le: "count_if p h \<le> length h"
  by (simp add: count_if_def)

text \<open>The moves from a point with \<open>p = a\<close> to a next point with \<open>p = b\<close>.\<close>

definition moves :: "('a \<Rightarrow> bool) \<Rightarrow> bool \<Rightarrow> bool \<Rightarrow> 'a list \<Rightarrow> nat" where
  "moves p a b h = count_if (\<lambda>(x, y). p x = a \<and> p y = b) (zip h (drop 1 h))"

lemma zip_next_snoc: "h \<noteq> [] \<Longrightarrow> zip (h @ [x]) (drop 1 (h @ [x])) = zip h (drop 1 h) @ [(last h, x)]"
  by (induction h rule: induct_list012) auto

lemma moves_simps [simp]:
  "moves p a b [] = 0" "moves p a b [x] = 0"
  "h \<noteq> [] \<Longrightarrow> moves p a b (h @ [x]) = moves p a b h + (if p (last h) = a \<and> p x = b then 1 else 0)"
  by (simp_all add: moves_def zip_next_snoc [simplified])

text \<open>The longest run seen so far.\<close>

fun run_record :: "('a \<Rightarrow> bool) \<Rightarrow> 'a list \<Rightarrow> nat \<Rightarrow> nat" where
  "run_record p h 0 = 0"
| "run_record p h (Suc n) = max (run_record p h n) (run_of p (take (Suc n) h))"

lemma run_record_append: "n \<le> length h \<Longrightarrow> run_record p (h @ g) n = run_record p h n"
  by (induction n) auto

definition max_run :: "('a \<Rightarrow> bool) \<Rightarrow> 'a list \<Rightarrow> nat" where
  "max_run p h = run_record p h (length h)"

lemma max_run_simps [simp]:
  "max_run p [] = 0" "max_run p (h @ [x]) = max (max_run p h) (run_of p (h @ [x]))"
  by (simp_all add: max_run_def run_record_append)

definition counts_match :: "engine \<Rightarrow> jsnum list \<Rightarrow> bool" where
  "counts_match e h \<longleftrightarrow>
     e_count e = length h \<and> e_lastCrash e = (if h = [] then None else Some (last h)) \<and>
     wf_n (e_welford e) = length h \<and>
     t13 (e_hits e) = count_if ge13 h \<and> t20 (e_hits e) = count_if (jle (Fin 2)) h \<and>
     t50 (e_hits e) = count_if (jle (Fin 5)) h"

definition runs_match :: "engine \<Rightarrow> jsnum list \<Rightarrow> bool" where
  "runs_match e h \<longleftrightarrow>
     below13 (e_runs e) = run_of (\<lambda>x. \<not> ge13 x) h \<and> above13 (e_runs e) = run_of ge13 h \<and>
     below15 (e_runs e) = run_of (\<lambda>x. jlt x (Fin (3/2))) h \<and>
     above20 (e_runs e) = run_of (jle (Fin 2)) h \<and>
     maxBelow13 (e_runs e) = max_run (\<lambda>x. \<not> ge13 x) h \<and>
     maxAbove13 (e_runs e) = max_run ge13 h"

definition markov_match :: "engine \<Rightarrow> jsnum list \<Rightarrow> bool" where
  "markov_match e h \<longleftrightarrow>
     lastAbove13 (e_markov e) = (if h = [] then None else Some (ge13 (last h))) \<and>
     mk_trans (e_markov e) =
       ((moves ge13 False False h, moves ge13 False True h),
        (moves ge13 True False h, moves ge13 True True h))"

definition rings_match :: "engine \<Rightarrow> jsnum list \<Rightarrow> bool" where
  "rings_match e h \<longleftrightarrow>
     ring_holds LAG_CAP (e_lagRing e) (e_lagPos e) (e_lagLen e) h \<and>
     ring_holds SHORT_CAP (e_shortRing e) (e_shortPos e) (e_shortLen e) h \<and>
     e_shortHits13 e = int (count_if ge13 (drop (length h - SHORT_CAP) h))"

definition abstracts :: "engine \<Rightarrow> jsnum list \<Rightarrow> bool" where
  "abstracts e h \<longleftrightarrow> counts_match e h \<and> runs_match e h \<and> markov_match e h \<and> rings_match e h"

lemma abstracts_reset: "abstracts is_reset []"
  by (simp add: abstracts_def counts_match_def runs_match_def markov_match_def rings_match_def
      is_reset_def emptyWelford_def emptyRuns_def emptyMarkov_def ring_holds_empty)

text \<open>The parts of an update touch disjoint fields.\<close>

lemma lag_step_fields:
  "e_lagRing (lag_step x e) = (e_lagRing e)[e_lagPos e := x]" "e_lagPos (lag_step x e) = (e_lagPos e + 1) mod LAG_CAP"
  "e_lagLen (lag_step x e) = (if e_lagLen e < LAG_CAP then e_lagLen e + 1 else e_lagLen e)"
  "e_count (lag_step x e) = e_count e" "e_welford (lag_step x e) = e_welford e" "e_hits (lag_step x e) = e_hits e"
  "e_runs (lag_step x e) = e_runs e" "e_markov (lag_step x e) = e_markov e" "e_ewma (lag_step x e) = e_ewma e"
  "e_ewmaHit13 (lag_step x e) = e_ewmaHit13 e" "e_shortRing (lag_step x e) = e_shortRing e"
  "e_shortPos (lag_step x e) = e_shortPos e" "e_shortLen (lag_step x e) = e_shortLen e"
  "e_shortHits13 (lag_step x e) = e_shortHits13 e"
  by (simp_all add: lag_step_def)

lemma short_step_fields:
  "e_shortRing (short_step x e) = (e_shortRing e)[e_shortPos e := x]"
  "e_shortPos (short_step x e) = (e_shortPos e + 1) mod SHORT_CAP"
  "e_shortLen (short_step x e) = (if e_shortLen e = SHORT_CAP then e_shortLen e else e_shortLen e + 1)"
  "e_shortHits13 (short_step x e) = e_shortHits13 e
     - (if e_shortLen e = SHORT_CAP \<and> ge13 (e_shortRing e ! e_shortPos e) then 1 else 0) + (if ge13 x then 1 else 0)"
  "e_count (short_step x e) = e_count e" "e_welford (short_step x e) = e_welford e" "e_hits (short_step x e) = e_hits e"
  "e_runs (short_step x e) = e_runs e" "e_markov (short_step x e) = e_markov e" "e_ewma (short_step x e) = e_ewma e"
  "e_ewmaHit13 (short_step x e) = e_ewmaHit13 e" "e_lagRing (short_step x e) = e_lagRing e"
  "e_lagPos (short_step x e) = e_lagPos e" "e_lagLen (short_step x e) = e_lagLen e"
  by (simp_all add: short_step_def Let_def)

lemmas update_defs = is_update_def Let_def lag_step_fields short_step_fields

lemma is_update_parts:
  assumes "valid_point x"
  shows "e_count (is_update now e x) = e_count e + 1" "e_lastCrash (is_update now e x) = Some x"
    and "e_welford (is_update now e x) = welford_step x (e_welford e)"
    and "e_hits (is_update now e x) = hits_step x (e_hits e)"
    and "e_runs (is_update now e x) = runs_step x (e_runs e)"
    and "e_markov (is_update now e x) = markov_step x (e_markov e)"
    and "e_ewma (is_update now e x) = ewma_step x (e_ewma e)"
    and "e_ewmaHit13 (is_update now e x) = ewma_step (if ge13 x then Fin 1 else Fin 0) (e_ewmaHit13 e)"
    and "e_lagRing (is_update now e x) = (e_lagRing e)[e_lagPos e := x]"
    and "e_lagPos (is_update now e x) = (e_lagPos e + 1) mod LAG_CAP"
    and "e_lagLen (is_update now e x) = (if e_lagLen e < LAG_CAP then e_lagLen e + 1 else e_lagLen e)"
    and "e_shortRing (is_update now e x) = (e_shortRing e)[e_shortPos e := x]"
    and "e_shortPos (is_update now e x) = (e_shortPos e + 1) mod SHORT_CAP"
    and "e_shortLen (is_update now e x) = (if e_shortLen e = SHORT_CAP then e_shortLen e else e_shortLen e + 1)"
    and "e_shortHits13 (is_update now e x) = e_shortHits13 e
           - (if e_shortLen e = SHORT_CAP \<and> ge13 (e_shortRing e ! e_shortPos e) then 1 else 0)
           + (if ge13 x then 1 else 0)"
  using assms by (simp_all add: update_defs)

lemma is_update_ignores: "\<not> valid_point x \<Longrightarrow> is_update now e x = e"
  by (simp add: is_update_def)

lemma counts_match_step:
  "valid_point x \<Longrightarrow> counts_match e h \<Longrightarrow> counts_match (is_update now e x) (h @ [x])"
  by (simp add: counts_match_def is_update_parts welford_step_def hits_step_def Let_def)

lemma runs_match_step:
  "valid_point x \<Longrightarrow> runs_match e h \<Longrightarrow> runs_match (is_update now e x) (h @ [x])"
  by (simp add: runs_match_def is_update_parts runs_step_def Let_def max_def)

lemma markov_match_step:
  "valid_point x \<Longrightarrow> markov_match e h \<Longrightarrow> markov_match (is_update now e x) (h @ [x])"
  by (cases "h = []"; cases "ge13 (last h)"; cases "ge13 x")
    (simp_all add: markov_match_def is_update_parts markov_step_def Let_def)

lemma rings_match_step:
  assumes x: "valid_point x" and m: "rings_match e h"
  shows "rings_match (is_update now e x) (h @ [x])"
proof -
  have lag: "ring_holds LAG_CAP (e_lagRing e) (e_lagPos e) (e_lagLen e) h"
    and short: "ring_holds SHORT_CAP (e_shortRing e) (e_shortPos e) (e_shortLen e) h"
    and hits: "e_shortHits13 e = int (count_if ge13 (drop (length h - SHORT_CAP) h))"
    using m by (auto simp: rings_match_def)
  have len: "e_shortLen e = min SHORT_CAP (length h)" using short by (simp add: ring_holds_def)
  have "e_shortHits13 (is_update now e x) =
      int (count_if ge13 (drop (Suc (length h) - SHORT_CAP) (h @ [x])))"
  proof (cases "SHORT_CAP \<le> length h")
    case True
    then have "e_shortRing e ! e_shortPos e = h ! (length h - SHORT_CAP)"
      using ring_holds_oldest short len by (metis min_absorb1)
    moreover have "count_if ge13 (drop (length h - SHORT_CAP) h) =
        (if ge13 (h ! (length h - SHORT_CAP)) then 1 else 0)
        + count_if ge13 (drop (Suc (length h) - SHORT_CAP) h)"
      using window_snoc(1) [of SHORT_CAP h] True by simp
    ultimately show ?thesis
      using True len hits by (simp add: is_update_parts [OF x] window_snoc(2))
  next
    case False
    then show ?thesis using len hits by (simp add: is_update_parts [OF x])
  qed
  then show ?thesis
    using ring_holds_write [OF lag, of x] ring_holds_write [OF short, of x] len
    by (auto simp: rings_match_def is_update_parts [OF x] min_def split: if_splits)
qed

lemma abstracts_step:
  "valid_point x \<Longrightarrow> abstracts e h \<Longrightarrow> abstracts (is_update now e x) (h @ [x])"
  by (simp add: abstracts_def counts_match_step runs_match_step markov_match_step rings_match_step)

lemma abstracts_run:
  "abstracts e h \<Longrightarrow> abstracts (foldl (is_update now) e cps) (h @ filter valid_point cps)"
proof (induction cps arbitrary: e h)
  case Nil
  then show ?case by simp
next
  case (Cons x cps)
  show ?case
  proof (cases "valid_point x")
    case True
    then show ?thesis using Cons.IH [OF abstracts_step [OF True Cons.prems]] by simp
  next
    case False
    then show ?thesis using Cons by (simp add: is_update_ignores)
  qed
qed

lemma abstracts_seed: "abstracts (is_seed now cps) (filter valid_point cps)"
  using abstracts_run [OF abstracts_reset] by (simp add: is_seed_def)

section \<open>What the readers return\<close>

lemma valid_point_Fin: "valid_point x \<longleftrightarrow> (\<exists>q. x = Fin q \<and> 0 < q)"
  by (cases x) (auto simp: valid_point_def)

lemma abstracts_lag_ring:
  "abstracts e h \<Longrightarrow> ring_holds LAG_CAP (e_lagRing e) (e_lagPos e) (e_lagLen e) h"
  by (simp add: abstracts_def rings_match_def)

lemma abstracts_lag_list:
  assumes "abstracts e h" "s mod LAG_CAP = (length h - LAG_CAP) mod LAG_CAP"
  shows "map (\<lambda>i. e_lagRing e ! ((s + i) mod LAG_CAP)) [0..<e_lagLen e] = js_slice_last LAG_CAP h"
  using ring_holds_list [OF abstracts_lag_ring [OF assms(1)] assms(2)] by (simp add: js_slice_last_def)

lemma getLagArray_window: "abstracts e h \<Longrightarrow> getLagArray e = js_slice_last LAG_CAP h"
  using abstracts_lag_list [OF _ ring_start(1) [OF abstracts_lag_ring], of e h]
  by (auto simp: getLagArray_def Let_def)

lemma getRecentPoints_window:
  assumes "abstracts e h"
  shows "getRecentPoints e mx = take mx (js_slice_last LAG_CAP h)"
proof -
  note ring = abstracts_lag_ring [OF assms]
  have cap: "length (e_lagRing e) = LAG_CAP" and len: "e_lagLen e \<le> LAG_CAP"
    using ring by (auto simp: ring_holds_def)
  have s: "(e_lagPos e + LAG_CAP - e_lagLen e) mod LAG_CAP mod LAG_CAP = (length h - LAG_CAP) mod LAG_CAP"
    using ring_start(2) [OF ring] by simp
  have "getRecentPoints e mx = take mx (map (\<lambda>i. e_lagRing e ! (((e_lagPos e + LAG_CAP - e_lagLen e)
      mod LAG_CAP + i) mod LAG_CAP)) [0..<e_lagLen e])"
    using len by (cases "mx = 0"; cases "e_lagLen e = 0")
      (auto simp: getRecentPoints_def cap Let_def take_map min_def)
  then show ?thesis using abstracts_lag_list [OF assms s] by simp
qed

text \<open>A rate of \<open>k\<close> out of \<open>n\<close> lies between 0 and 1, whatever the rounding.\<close>

definition unit_interval :: "jsnum \<Rightarrow> bool" where
  "unit_interval x \<longleftrightarrow> jle (Fin 0) x \<and> jle x (Fin 1)"

lemma unit_interval_simps [simp]: "unit_interval (Fin 0)" "unit_interval (Fin 1)"
  by (simp_all add: unit_interval_def)

lemma unit_interval_rnd: "0 \<le> q \<Longrightarrow> q \<le> 1 \<Longrightarrow> unit_interval (rnd q)"
  using fl.mono [of 0 q] fl.mono [of q 1] by (simp add: unit_interval_def)

lemma unit_interval_Fin: "unit_interval x \<Longrightarrow> \<exists>q. x = Fin q \<and> 0 \<le> q \<and> q \<le> 1"
  by (cases x) (auto simp: unit_interval_def jle_def)

lemma jsint_ge_1: "1 \<le> n \<Longrightarrow> jsint n = PInf \<or> (\<exists>q. jsint n = Fin q \<and> 1 \<le> q)"
  using jsint_mono [of 1 n] by (cases "jsint n") (auto simp: jsint_def jle_def)

text \<open>Up to \<open>2 ^ 53\<close> rounds, where counters stop being exact numbers.\<close>

lemma unit_interval_rate:
  assumes "k \<le> n" "n \<le> 2 ^ 53" "0 < n"
  shows "unit_interval (jdiv (jsint (int k)) (jsint (int n)))"
proof -
  have "jsint (int k) = Fin (of_nat k)" "jsint (int n) = Fin (of_nat n)"
    using rnd_of_int [of "int k"] rnd_of_int [of "int n"] assms by (simp_all add: jsint_def)
  then show ?thesis using assms by (auto intro!: unit_interval_rnd simp: divide_le_eq)
qed

lemma EWMA_ALPHA_value: "EWMA_ALPHA = Fin (7205759403792794 / 144115188075855872)"
  using rnd_eqI [of "-5" "5/100" 7205759403792794]
  by (simp add: EWMA_ALPHA_def lit_def power_int_def power_one_over)

lemma one_minus_EWMA_ALPHA: "jsub (Fin 1) EWMA_ALPHA = Fin (8556839292003942 / 9007199254740992)"
proof -
  have "rnd (68454714336031539 / 72057594037927936) = Fin (of_int 8556839292003942 * 2 powi (-1 - 52))"
    by (rule rnd_eqI) (simp_all add: power_int_def power_one_over)
  also have "of_int 8556839292003942 * 2 powi (-1 - 52) = (4278419646001971 / 4503599627370496 :: rat)"
    by (simp add: power_int_def power_one_over)
  finally show ?thesis by (simp add: EWMA_ALPHA_value)
qed

text \<open>The two weights add up to at most one, so the average stays in the unit interval.\<close>

lemma ewma_step_unit:
  assumes "unit_interval x" "unit_interval e"
  shows "unit_interval (ewma_step x e)"
proof -
  define a b :: rat where "a = 7205759403792794 / 144115188075855872"
    and "b = 8556839292003942 / 9007199254740992"
  have A: "EWMA_ALPHA = Fin a" unfolding a_def by (rule EWMA_ALPHA_value)
  have B: "jsub (Fin 1) EWMA_ALPHA = Fin b" unfolding b_def by (rule one_minus_EWMA_ALPHA)
  have ab: "0 \<le> a" "0 \<le> b" "a + b \<le> 1" by (simp_all add: a_def b_def)
  have ra: "rnd a = Fin a" "rnd b = Fin b"
    using rnd_dyadic [of 7205759403792794 "-57"] rnd_dyadic [of 8556839292003942 "-53"]
    by (simp_all add: a_def b_def power_int_def power_one_over)
  from assms obtain p q where p: "x = Fin p" "0 \<le> p" "p \<le> 1" and q: "e = Fin q" "0 \<le> q" "q \<le> 1"
    using unit_interval_Fin by metis
  have "0 \<le> a * p" "a * p \<le> a" "0 \<le> b * q" "b * q \<le> b"
    using ab p q by (simp_all add: mult_left_le)
  then obtain u v where "rnd (a * p) = Fin u" "0 \<le> u" "u \<le> a" "rnd (b * q) = Fin v" "0 \<le> v" "v \<le> b"
    using fl.between_finite [of 0 "a * p" a] fl.between_finite [of 0 "b * q" b] ra by (metis rnd_zero)
  then show ?thesis
    using ab p q unfolding ewma_step_def B by (simp add: A unit_interval_rnd)
qed

lemma ewmaHit13_unit: "unit_interval (e_ewmaHit13 e) \<Longrightarrow> unit_interval (e_ewmaHit13 (is_update now e x))"
  by (cases "valid_point x") (simp_all add: is_update_parts is_update_ignores ewma_step_unit)

interpretation hit_average: started "is_update now" "\<lambda>e. unit_interval (e_ewmaHit13 e)" is_reset
proof
  show "unit_interval (e_ewmaHit13 is_reset)"
    by (simp add: is_reset_def lit_def unit_interval_rnd)
qed (rule ewmaHit13_unit)

lemma moves_row_le: "moves p a False h + moves p a True h \<le> length h"
proof (induction h rule: rev_induct)
  case (snoc x h)
  then show ?case by (cases "h = []") auto
qed simp

section \<open>Properties\<close>

text \<open>
  C26. Refinement of the history: after any run of updates from a reset engine, the ring buffers,
  counters, runs and Markov counts are the last 64 accepted points, the hits among the last 30,
  the current and longest runs, and the numbers of moves between points below and from 1.3;
  points that are not positive and finite leave no trace.
\<close>

theorem incremental_statistics:
  "let h = filter valid_point cps; e = foldl (is_update now) is_reset cps
   in getLagArray e = js_slice_last 64 h \<and>
      e_shortHits13 e = int (length (filter (jle (lit (13/10))) (js_slice_last 30 h))) \<and>
      e_count e = length h \<and> e_lastCrash e = (if h = [] then None else Some (last h)) \<and>
      below13 (e_runs e) = run_of (\<lambda>x. \<not> jle (lit (13/10)) x) h \<and>
      maxBelow13 (e_runs e) = max_run (\<lambda>x. \<not> jle (lit (13/10)) x) h \<and>
      maxAbove13 (e_runs e) = max_run (jle (lit (13/10))) h \<and>
      mk_trans (e_markov e) =
        ((moves (jle (lit (13/10))) False False h, moves (jle (lit (13/10))) False True h),
         (moves (jle (lit (13/10))) True False h, moves (jle (lit (13/10))) True True h))"
proof -
  have a: "abstracts (foldl (is_update now) is_reset cps) (filter valid_point cps)"
    using abstracts_seed by (simp add: is_seed_def)
  show ?thesis
    unfolding Let_def
    using a getLagArray_window [OF a]
    by (simp add: abstracts_def counts_match_def runs_match_def markov_match_def rings_match_def
        js_slice_last_def count_if_def)
qed

text \<open>
  C27. The O(1) statistics equal the ones the calculators recompute from all rounds, to the last
  bit: the hit rates, the rounds since the last point of 1.3, the three streaks and the hit rate of the
  last 30 rounds. Rounds whose crash point is not a positive number are skipped by the engine.
\<close>

theorem incremental_equals_recomputed:
  "let rs = filter (\<lambda>r. valid_point (hr_crashPoint r)) rounds; e = is_seed now (map hr_crashPoint rounds)
   in is_hitRate e T13 = hitRate rs (lit (13/10)) \<and> is_hitRate e T20 = hitRate rs (Fin 2) \<and>
      is_hitRate e T50 = hitRate rs (Fin 5) \<and>
      shortHitRate13 e = hitRate (js_slice_last 30 rs) (lit (13/10)) \<and>
      below13 (e_runs e) = roundsSince rs (lit (13/10)) \<and>
      above13 (e_runs e) = consecutiveStreak rs (\<lambda>x. jle (lit (13/10)) x) \<and>
      above20 (e_runs e) = consecutiveStreak rs (\<lambda>x. jle (Fin 2) x) \<and>
      below15 (e_runs e) = consecutiveStreak rs (\<lambda>x. jlt x (Fin (3/2)))"
proof -
  define rs where "rs = filter (\<lambda>r. valid_point (hr_crashPoint r)) rounds"
  define e where "e = is_seed now (map hr_crashPoint rounds)"
  have h: "filter valid_point (map hr_crashPoint rounds) = map hr_crashPoint rs"
    by (simp add: rs_def filter_map o_def)
  have a: "abstracts e (map hr_crashPoint rs)"
    using abstracts_seed [of now "map hr_crashPoint rounds"] h by (simp add: e_def)
  have count: "length (filter (\<lambda>r. p (hr_crashPoint r)) xs) = count_if p (map hr_crashPoint xs)"
    for p and xs :: "historical_round list"
    by (simp add: count_if_def filter_map o_def)
  have len: "e_shortLen e = length (js_slice_last 30 rs)"
    using a by (simp add: abstracts_def rings_match_def ring_holds_def length_js_slice_last)
  have short: "e_shortHits13 e = int (count_if ge13 (map hr_crashPoint (js_slice_last 30 rs)))"
    using a by (simp add: abstracts_def rings_match_def js_slice_last_def drop_map)
  have "is_hitRate e T13 = hitRate rs (lit (13/10)) \<and> is_hitRate e T20 = hitRate rs (Fin 2) \<and>
      is_hitRate e T50 = hitRate rs (Fin 5)"
    using a by (simp add: is_hitRate_def hitRate_def abstracts_def counts_match_def count)
  moreover have "shortHitRate13 e = hitRate (js_slice_last 30 rs) (lit (13/10))"
    by (simp add: shortHitRate13_def hitRate_def len short count)
  ultimately show ?thesis
    unfolding Let_def rs_def [symmetric] e_def [symmetric]
    using a by (simp add: abstracts_def runs_match_def roundsSince_run consecutiveStreak_run)
qed

text \<open>
  Bounds: in every run of at most \<open>2 ^ 53\<close> rounds the hit rates, the short-window hit rate, the
  moving average of hits and the Markov probability of the next hit lie between 0 and 1, for all
  the rounding of the arithmetic.
\<close>

theorem probabilities_in_unit_interval:
  assumes "length cps \<le> 2 ^ 53"
  shows "list_all unit_interval
    (let e = foldl (is_update now) is_reset cps
     in [is_hitRate e T13, is_hitRate e T20, is_hitRate e T50, shortHitRate13 e, e_ewmaHit13 e,
         markovPNextAbove13 e])"
proof -
  define e where "e = foldl (is_update now) is_reset cps"
  define h where "h = filter valid_point cps"
  have a: "abstracts e h" using abstracts_seed by (simp add: e_def h_def is_seed_def)
  have len: "length h \<le> 2 ^ 53"
    using assms length_filter_le [of valid_point cps] unfolding h_def by linarith
  have hits: "hits_of t (e_hits e) \<le> length h" "e_count e = length h" for t
    using a by (cases t; simp add: abstracts_def counts_match_def count_if_le)+
  have rate: "unit_interval (is_hitRate e t)" for t
    using unit_interval_rate [OF hits(1) len] hits(2) by (auto simp: is_hitRate_def)
  have shortLen: "e_shortLen e = min SHORT_CAP (length h)"
    and short: "e_shortHits13 e = int (count_if ge13 (drop (length h - SHORT_CAP) h))"
    using a by (simp_all add: abstracts_def rings_match_def ring_holds_def)
  have "count_if ge13 (drop (length h - SHORT_CAP) h) \<le> e_shortLen e"
    using count_if_le [of ge13 "drop (length h - SHORT_CAP) h"] shortLen by auto
  then have short_rate: "unit_interval (shortHitRate13 e)"
    using unit_interval_rate [of _ "e_shortLen e"] short shortLen len
    by (auto simp: shortHitRate13_def)
  have ewma: "unit_interval (e_ewmaHit13 e)"
    unfolding e_def by (rule hit_average.reachable_inv)
  have rows: "fst row + snd row \<le> length h"
    if "row = fst (mk_trans (e_markov e)) \<or> row = snd (mk_trans (e_markov e))" for row
    using that a moves_row_le [of ge13 _ h] by (auto simp: abstracts_def markov_match_def)
  have "unit_interval (markovPNextAbove13 e)"
  proof (cases "lastAbove13 (e_markov e)")
    case None
    then show ?thesis using ewma by (simp add: markovPNextAbove13_def)
  next
    case (Some b)
    define row where "row = (if b then snd (mk_trans (e_markov e)) else fst (mk_trans (e_markov e)))"
    have "fst row + snd row \<le> 2 ^ 53" using rows [of row] len by (auto simp: row_def)
    then have "10 \<le> fst row + snd row \<Longrightarrow>
        unit_interval (jdiv (jsint (int (snd row))) (jsint (int (fst row + snd row))))"
      by (intro unit_interval_rate) auto
    then show ?thesis
      using ewma Some by (simp add: markovPNextAbove13_def row_def [symmetric] Let_def)
  qed
  then show ?thesis
    using rate short_rate ewma by (simp add: e_def [symmetric])
qed

theorem probabilities_in_unit_interval_witness:
  "list_all unit_interval
    (let e = foldl (is_update 0) is_reset [Fin 1, Fin 2]
     in [is_hitRate e T13, is_hitRate e T20, is_hitRate e T50, shortHitRate13 e, e_ewmaHit13 e,
         markovPNextAbove13 e])"
  by (rule probabilities_in_unit_interval) simp

text \<open>
  \<open>getRecentPoints(max)\<close> does not return the most recent points when it is asked for fewer than
  the ring holds: it returns the oldest ones.
\<close>

lemma getRecentPoints_returns_oldest:
  "let h = filter valid_point cps
   in getRecentPoints (is_seed now cps) mx = take mx (js_slice_last 64 h)"
  unfolding Let_def by (rule getRecentPoints_window [OF abstracts_seed])

end
