(* ===== verification/EntryDecision.thy ===== *)
theory EntryDecision
  imports RiskEngine SheathMode IncrementalState
begin

text \<open>
  \<open>EntryDecisionService.evaluateEntry\<close> of \<open>src/src/prediction/entry-decision-service.ts\<close>: the gates
  between a prediction and the risk engine, with the readiness flags of
  \<open>observability/readiness.ts\<close>, the version registry of \<open>prediction/state-snapshot.ts\<close>, the freshness
  test of \<open>prediction/signals/signal.ts\<close> and the version test of
  \<open>features/feature-version-assert.ts\<close>. What the learning engine, the pipeline and the
  calibration say is an argument; the sheath mode, the incremental engine and the risk engine are
  the modelled ones.
\<close>

section \<open>Readiness\<close>

record readiness =
  rd_predictionWarm :: bool
  rd_historyRounds :: int
  rd_acieHistorySize :: int
  rd_calibrationWarm :: bool
  rd_prewarmCompleted :: bool
  rd_prewarmError :: "string option"

definition readiness_new :: readiness where
  "readiness_new = \<lparr>rd_predictionWarm = False, rd_historyRounds = 0, rd_acieHistorySize = 0,
     rd_calibrationWarm = False, rd_prewarmCompleted = False, rd_prewarmError = None\<rparr>"

record prewarm_result =
  pw_stateWarm :: "bool option"
  pw_calibrationWarm :: "bool option"
  pw_historyRounds :: "int option"
  pw_acieHistorySize :: "int option"

definition setPrewarmResult :: "prewarm_result option \<Rightarrow> string option \<Rightarrow> readiness \<Rightarrow> readiness" where
  "setPrewarmResult res err s =
     (case res of
        Some r \<Rightarrow>
          if truthy_str err
          then s\<lparr>rd_prewarmCompleted := False, rd_predictionWarm := False, rd_prewarmError := err\<rparr>
          else s\<lparr>rd_predictionWarm := or_else (pw_stateWarm r) False,
                 rd_calibrationWarm := or_else (pw_calibrationWarm r) False,
                 rd_historyRounds := or_else (pw_historyRounds r) 0,
                 rd_acieHistorySize := or_else (pw_acieHistorySize r) 0,
                 rd_prewarmCompleted := True, rd_prewarmError := None\<rparr>
      | None \<Rightarrow> s\<lparr>rd_prewarmCompleted := False, rd_predictionWarm := False,
                 rd_prewarmError := Some (or_else err ''prewarm failed'')\<rparr>)"

definition isReadyForLive :: "int option \<Rightarrow> int option \<Rightarrow> readiness \<Rightarrow> bool" where
  "isReadyForLive minHistory minAcie s \<longleftrightarrow>
     rd_prewarmCompleted s \<and> rd_predictionWarm s \<and> or_else minHistory 50 \<le> rd_historyRounds s \<and>
     or_else minAcie 20 \<le> rd_acieHistorySize s \<and> \<not> truthy_str (rd_prewarmError s)"

section \<open>The version registry\<close>

record registry =
  rg_version :: nat
  rg_featureVersion :: string
  rg_modelVersion :: string
  rg_regimeVersion :: nat
  rg_calibrationVersion :: nat

definition registry_new :: registry where
  "registry_new = \<lparr>rg_version = 1, rg_featureVersion = ''acie-online-1'', rg_modelVersion = ''acie-v3'',
     rg_regimeVersion = 1, rg_calibrationVersion = 1\<rparr>"

record registry_update =
  ru_featureVersion :: "string option"
  ru_modelVersion :: "string option"
  ru_regimeVersion :: "nat option"
  ru_calibrationVersion :: "nat option"

definition publish :: "registry_update \<Rightarrow> registry \<Rightarrow> registry" where
  "publish u r = \<lparr>rg_version = rg_version r + 1, rg_featureVersion = or_else (ru_featureVersion u) (rg_featureVersion r),
     rg_modelVersion = or_else (ru_modelVersion u) (rg_modelVersion r),
     rg_regimeVersion = or_else (ru_regimeVersion u) (rg_regimeVersion r),
     rg_calibrationVersion = or_else (ru_calibrationVersion u) (rg_calibrationVersion r)\<rparr>"

text \<open>
  The only call of \<open>publishLearningState\<close> passes the divergence level and its reason, which are no
  fields of the snapshot.
\<close>

definition divergence_update :: registry_update where
  "divergence_update = \<lparr>ru_featureVersion = None, ru_modelVersion = None, ru_regimeVersion = None,
     ru_calibrationVersion = None\<rparr>"

section \<open>Signals\<close>

record entry_signal =
  es_predictionId :: string
  es_timestamp :: int
  es_modelVersion :: string
  es_featureVersion :: string
  es_target :: jsnum
  es_probability :: jsnum
  es_confidence :: jsnum
  es_dataQuality :: jsnum
  es_expiresAt :: int

definition isSignalExpired :: "entry_signal \<Rightarrow> int \<Rightarrow> bool" where
  "isSignalExpired s now \<longleftrightarrow> es_expiresAt s \<le> now"

definition isSignalFresh :: "entry_signal \<Rightarrow> int \<Rightarrow> int \<Rightarrow> bool" where
  "isSignalFresh s maxAgeMs now = (if isSignalExpired s now then False else now - es_timestamp s \<le> maxAgeMs)"

definition FEATURE_VERSION_V2 :: string where
  "FEATURE_VERSION_V2 = ''fv-2.0.0''"

text \<open>\<open>assertFeatureVersionMatch\<close>: whether it returns; an empty version is accepted.\<close>

definition featureVersionMatches :: "string \<Rightarrow> bool" where
  "featureVersionMatches stored = (if stored = '''' then True else stored = FEATURE_VERSION_V2)"

text \<open>\<open>assertPredictionWarmForLive\<close>: whether it returns.\<close>

definition predictionWarmForLive :: "engine \<Rightarrow> nat \<Rightarrow> bool" where
  "predictionWarmForLive e minHistory = isWarm e minHistory"

section \<open>The decision\<close>

record decision_context =
  dc_roundId :: string
  dc_decisionTime :: int
  dc_riskInput :: risk_input
  dc_target :: "jsnum option"
  dc_minHistory :: "nat option"

text \<open>The evaluation of the learning engine; \<open>ae_signal\<close>: it sees an opportunity.\<close>

record acie_eval =
  ae_signal :: bool
  ae_probability :: jsnum
  ae_modelUncertainty :: jsnum

record pipeline_out =
  po_predictionId :: string
  po_target :: jsnum
  po_calibratedProbability :: jsnum
  po_confidence :: jsnum

record decision_env =
  de_readiness :: readiness
  de_registry :: registry
  de_bufferWarm :: bool
  de_priorLength :: nat
  de_historySize :: nat
  de_evaluateNext :: acie_eval
  de_calibrated :: jsnum
  de_legacy :: "entry_signal option"
  de_pipeline :: "entry_signal \<Rightarrow> pipeline_out"
  de_uuid :: string
  de_incremental :: engine
  de_entriesAllowed :: bool
  de_sheath :: "sheath option"
  de_now :: int
  de_breaker :: fcb

record decision_service =
  ds_preferAcie :: bool
  ds_usePipeline :: bool

text \<open>\<open>er_notReady\<close> stands for the texts \<open>PREDICTION_NOT_READY\<close> in the result.\<close>

record entry_result =
  er_signal :: "entry_signal option"
  er_risk :: risk_result
  er_notReady :: bool
  er_acie :: "acie_eval option"

definition acie_signal :: "decision_env \<Rightarrow> decision_context \<Rightarrow> entry_signal" where
  "acie_signal env ctx =
     \<lparr>es_predictionId = de_uuid env, es_timestamp = dc_decisionTime ctx,
      es_modelVersion = rg_modelVersion (de_registry env),
      es_featureVersion = rg_featureVersion (de_registry env),
      es_target = or_else (dc_target ctx) (lit (13/10)), es_probability = de_calibrated env,
      es_confidence = jmax (Fin 0) (jmin (Fin 1) (jsub (Fin 1) (ae_modelUncertainty (de_evaluateNext env)))),
      es_dataQuality = jmin (Fin 1) (jdiv (jsint (int (de_historySize env))) (Fin 200)),
      es_expiresAt = dc_decisionTime ctx + 45000\<rparr>"

definition applyPipelineToSignal :: "decision_env \<Rightarrow> entry_signal \<Rightarrow> entry_signal" where
  "applyPipelineToSignal env s =
     (let p = de_pipeline env s
      in s\<lparr>es_predictionId := (if po_predictionId p = '''' then es_predictionId s else po_predictionId p),
           es_target := po_target p, es_probability := po_calibratedProbability p,
           es_confidence := po_confidence p\<rparr>)"

text \<open>
  An accepted signal gets its model version overwritten. A legacy signal that did not go through the
  pipeline is a frozen object, on which that assignment throws: \<open>ds_usePipeline\<close> is true or the
  learning engine is preferred, as in every construction of the service.
\<close>

definition out_of_unit :: "jsnum \<Rightarrow> bool" where
  "out_of_unit x \<longleftrightarrow> \<not> is_fin x \<or> jlt x (Fin 0) \<or> jlt (Fin 1) x"

definition build_signal :: "decision_service \<Rightarrow> decision_env \<Rightarrow> decision_context \<Rightarrow> entry_signal option" where
  "build_signal svc env ctx =
     (let minHistory = or_else (dc_minHistory ctx) 20;
          base = (if minHistory \<le> de_priorLength env \<or> minHistory \<le> de_historySize env
                  then if ds_preferAcie svc then Some (acie_signal env ctx)
                       else if minHistory \<le> de_priorLength env then de_legacy env else None
                  else None);
          piped = (if ds_usePipeline svc then map_option (applyPipelineToSignal env) base else base)
      in (case piped of
            None \<Rightarrow> None
          | Some s \<Rightarrow>
              if out_of_unit (es_probability s) \<or> out_of_unit (es_confidence s) then None
              else if \<not> isSignalFresh s 60000 (dc_decisionTime ctx) then None
              else Some (s\<lparr>es_modelVersion := ''acie-v3''\<rparr>)))"

definition acie_of :: "decision_env \<Rightarrow> decision_context \<Rightarrow> acie_eval option" where
  "acie_of env ctx =
     (let minHistory = or_else (dc_minHistory ctx) 20
      in if minHistory \<le> de_priorLength env \<or> minHistory \<le> de_historySize env
         then Some (de_evaluateNext env) else None)"

definition risk_signal :: "entry_signal \<Rightarrow> prediction_signal" where
  "risk_signal s = \<lparr>ps_predictionId = es_predictionId s, ps_probability = es_probability s,
     ps_confidence = es_confidence s, ps_target = es_target s, ps_expiresAt = Some (es_expiresAt s),
     ps_dataQuality = es_dataQuality s\<rparr>"

text \<open>The sheath hears about a cold prediction stack before it is asked whether entries are blocked.\<close>

definition evaluateEntry ::
  "decision_service \<Rightarrow> decision_env \<Rightarrow> decision_context \<Rightarrow> entry_result \<times> sheath option" where
  "evaluateEntry svc env ctx =
     (let ri = dc_riskInput ctx; live = (ri_mode ri = Mode_live)
      in if live \<and> \<not> isReadyForLive None None (de_readiness env)
         then (\<lparr>er_signal = None, er_risk = (evaluate (de_now env) (de_breaker env) ri)\<lparr>rr_approved := False\<rparr>,
                er_notReady = True, er_acie = None\<rparr>, de_sheath env)
         else if \<not> de_bufferWarm env
         then (\<lparr>er_signal = None,
                er_risk = evaluate (de_now env) (de_breaker env) (ri\<lparr>ri_predictionSignal := None\<rparr>),
                er_notReady = False, er_acie = None\<rparr>, de_sheath env)
         else let signal = build_signal svc env ctx; acie = acie_of env ctx;
                  attached = (case signal of Some s \<Rightarrow> Some (risk_signal s) | None \<Rightarrow> ri_predictionSignal ri);
                  attached1 = (case acie of
                      Some a \<Rightarrow> if \<not> ae_signal a \<and> ds_preferAcie svc then None else attached
                    | None \<Rightarrow> attached);
                  signal1 = (case signal of
                      Some s \<Rightarrow> if \<not> featureVersionMatches (es_featureVersion s) \<and> live then None else Some s
                    | None \<Rightarrow> None);
                  cold = (live \<and> \<not> predictionWarmForLive (de_incremental env) 40);
                  sheath = (if cold then map_option (reportPredictionHealth (de_now env) 0 None None True) (de_sheath env)
                            else de_sheath env);
                  attached2 = (if cold then None else attached1);
                  signal2 = (if cold then None else signal1);
                  blocked = (case sheath of Some sh \<Rightarrow> isPredictionEntriesBlocked sh | None \<Rightarrow> False);
                  attached3 = (if \<not> de_entriesAllowed env \<or> blocked then None else attached2)
              in (\<lparr>er_signal = signal2,
                    er_risk = evaluate (de_now env) (de_breaker env) (ri\<lparr>ri_predictionSignal := attached3\<rparr>),
                    er_notReady = False, er_acie = acie\<rparr>, sheath))"

section \<open>What the gates decide\<close>

text \<open>With a positive threshold the risk engine approves only with a signal.\<close>

definition thresholds_on :: "risk_input \<Rightarrow> bool" where
  "thresholds_on ri \<longleftrightarrow>
     \<not> (jle (or_else (ri_minPredictionProbability ri) (Fin 0)) (Fin 0) \<and>
        jle (or_else (ri_minPredictionConfidence ri) (Fin 0)) (Fin 0))"

lemma conditions_of_signal:
  "evaluateAllConditions now (ri\<lparr>ri_predictionSignal := sig\<rparr>) k =
     (if k = K_predictionAcceptable then evaluatePrediction now (ri\<lparr>ri_predictionSignal := sig\<rparr>)
      else evaluateAllConditions now ri k)"
  by (cases k) (simp_all add: evaluateAllConditions_def Let_def)

lemma approved_iff:
  "rr_approved (evaluate now b (ri\<lparr>ri_predictionSignal := sig\<rparr>)) \<longleftrightarrow>
     fcb_state b \<noteq> OPEN \<and> evaluatePrediction now (ri\<lparr>ri_predictionSignal := sig\<rparr>) \<and>
     (\<forall>k. k \<noteq> K_predictionAcceptable \<longrightarrow> evaluateAllConditions now ri k)"
  using isApproved_iff [of now b "ri\<lparr>ri_predictionSignal := sig\<rparr>", unfolded isApproved_def]
  by (auto simp: conditions_of_signal split: if_splits)

lemma approval_needs_signal:
  "thresholds_on ri \<Longrightarrow> rr_approved (evaluate now b (ri\<lparr>ri_predictionSignal := sig\<rparr>)) \<Longrightarrow> sig \<noteq> None"
  by (auto simp: approved_iff thresholds_on_def evaluatePrediction_def Let_def split: option.splits)

text \<open>Without one the signal does not matter.\<close>

lemma approval_ignores_signal:
  "\<not> thresholds_on ri \<Longrightarrow>
     rr_approved (evaluate now b (ri\<lparr>ri_predictionSignal := sig\<rparr>)) = rr_approved (evaluate now b ri)"
proof -
  assume off: "\<not> thresholds_on ri"
  then have "evaluatePrediction now (ri\<lparr>ri_predictionSignal := s\<rparr>)" for s
    by (simp add: thresholds_on_def evaluatePrediction_def Let_def)
  from this [of sig] this [of "ri_predictionSignal ri"] show ?thesis
    using approved_iff [where ri = ri and sig = sig and now = now and b = b]
      approved_iff [where ri = ri and sig = "ri_predictionSignal ri" and now = now and b = b] by simp
qed

section \<open>Properties\<close>

text \<open>
  C9. Every gate before the risk engine blocks a live entry when a prediction threshold is set: an
  approved live decision implies that the start-up warm-up completed, the history buffer is
  warm, the incremental statistics have seen 40 rounds, entries are allowed by the divergence monitor, the
  sheath does not block them, and an evaluation of the learning engine that is preferred saw an
  opportunity.
\<close>

theorem live_approval_passes_every_gate:
  assumes "ri_mode (dc_riskInput ctx) = Mode_live" and "thresholds_on (dc_riskInput ctx)"
    and "rr_approved (er_risk (fst (evaluateEntry svc env ctx)))"
  shows "isReadyForLive None None (de_readiness env) \<and> de_bufferWarm env \<and>
    predictionWarmForLive (de_incremental env) 40 \<and> de_entriesAllowed env \<and>
    (case de_sheath env of Some sh \<Rightarrow> \<not> isPredictionEntriesBlocked sh | None \<Rightarrow> True) \<and>
    (case acie_of env ctx of Some a \<Rightarrow> ae_signal a \<or> \<not> ds_preferAcie svc | None \<Rightarrow> True)"
  using assms(3) approval_needs_signal [OF assms(2)] assms(1)
  by (auto simp: evaluateEntry_def Let_def split: if_splits option.splits)

definition demo_env :: decision_env where
  "demo_env = \<lparr>de_readiness = setPrewarmResult (Some \<lparr>pw_stateWarm = Some True, pw_calibrationWarm = None,
       pw_historyRounds = Some 60, pw_acieHistorySize = Some 60\<rparr>) None readiness_new,
     de_registry = registry_new, de_bufferWarm = True, de_priorLength = 60, de_historySize = 200,
     de_evaluateNext = \<lparr>ae_signal = True, ae_probability = Fin 1, ae_modelUncertainty = Fin 0\<rparr>,
     de_calibrated = Fin 1, de_legacy = None,
     de_pipeline = (\<lambda>s. \<lparr>po_predictionId = '''', po_target = es_target s,
       po_calibratedProbability = es_probability s, po_confidence = es_confidence s\<rparr>),
     de_uuid = ''p1'', de_incremental = is_reset\<lparr>e_count := 60\<rparr>, de_entriesAllowed = True,
     de_sheath = None, de_now = 0, de_breaker = ex_breaker\<rparr>"

definition demo_service :: decision_service where
  "demo_service = \<lparr>ds_preferAcie = True, ds_usePipeline = True\<rparr>"

definition demo_context :: "jsnum \<Rightarrow> decision_context" where
  "demo_context minProb = \<lparr>dc_roundId = ''r1'', dc_decisionTime = 0,
     dc_riskInput = (ex_input (Fin 5000))\<lparr>ri_minPredictionProbability := Some minProb\<rparr>, dc_target = None,
     dc_minHistory = None\<rparr>"

lemmas demo_defs = demo_env_def demo_service_def demo_context_def ex_input_def ex_breaker_def
  fcb_new_def readiness_new_def setPrewarmResult_def truthy_str_def

lemma demo_gates:
  "isReadyForLive None None (de_readiness demo_env)" "predictionWarmForLive (de_incremental demo_env) 40"
  "de_bufferWarm demo_env" "de_entriesAllowed demo_env" "de_sheath demo_env = None"
  "acie_of demo_env (demo_context p) = Some \<lparr>ae_signal = True, ae_probability = Fin 1, ae_modelUncertainty = Fin 0\<rparr>"
  by (simp_all add: demo_defs isReadyForLive_def predictionWarmForLive_def isWarm_def acie_of_def)

lemma jsint_200: "jsint 200 = Fin 200"
  using rnd_of_int [of 200] by (simp add: jsint_def)

lemma demo_signal:
  "\<exists>s. build_signal demo_service demo_env (demo_context p) = Some s \<and> es_probability s = Fin 1 \<and>
     es_confidence s = Fin 1 \<and> es_dataQuality s = Fin 1 \<and> es_expiresAt s = 45000 \<and>
     es_featureVersion s = ''acie-online-1''"
  by (simp add: build_signal_def demo_defs acie_signal_def applyPipelineToSignal_def registry_new_def
      out_of_unit_def isSignalFresh_def isSignalExpired_def jsint_200 Let_def)

lemma demo_approved:
  "rr_approved (er_risk (fst (evaluateEntry demo_service demo_env (demo_context (Fin 1)))))"
proof -
  obtain s where s: "build_signal demo_service demo_env (demo_context (Fin 1)) = Some s"
    "es_probability s = Fin 1" "es_confidence s = Fin 1" "es_dataQuality s = Fin 1" "es_expiresAt s = 45000"
    using demo_signal by metis
  let ?ri = "dc_riskInput (demo_context (Fin 1))"
  have q: "\<not> jlt (Fin 1) (lit (3/10))"
    using rnd_mono [of "3/10" 1] jlt_not_jle by (auto simp: lit_def)
  have "evaluatePrediction 0 (?ri\<lparr>ri_predictionSignal := Some (risk_signal s)\<rparr>)"
    using s q by (simp add: evaluatePrediction_def risk_signal_def demo_context_def ex_input_def Let_def)
  moreover have "evaluateAllConditions 0 ?ri k" if "k \<noteq> K_predictionAcceptable" for k
    using that by (cases k) (simp_all add: evaluateAllConditions_def demo_context_def ex_input_def Let_def)
  ultimately have "rr_approved (evaluate 0 ex_breaker (?ri\<lparr>ri_predictionSignal := Some (risk_signal s)\<rparr>))"
    by (simp add: approved_iff ex_breaker_def fcb_new_def)
  moreover have "de_now demo_env = 0" "de_breaker demo_env = ex_breaker" "ds_preferAcie demo_service"
    by (simp_all add: demo_env_def demo_service_def)
  ultimately show ?thesis
    using demo_gates(1-5) demo_gates(6) [of "Fin 1"] s(1) by (simp add: evaluateEntry_def Let_def)
qed

theorem live_approval_passes_every_gate_witness:
  "de_bufferWarm demo_env \<and> de_entriesAllowed demo_env"
  using live_approval_passes_every_gate [of "demo_context (Fin 1)" demo_service demo_env, OF _ _ demo_approved]
  by (simp add: demo_context_def ex_input_def thresholds_on_def)

text \<open>
  The gates speak only through the attached signal: when both prediction thresholds are zero
  (or absent) the risk engine does not look at it, and an entry that the sheath, the divergence
  monitor or the learning engine forbids is approved like any other.
\<close>

theorem zero_thresholds_bypass_the_gates:
  assumes "\<not> thresholds_on (dc_riskInput ctx)"
    and "ri_mode (dc_riskInput ctx) \<noteq> Mode_live \<or> isReadyForLive None None (de_readiness env)"
  shows "rr_approved (er_risk (fst (evaluateEntry svc env ctx))) =
    rr_approved (evaluate (de_now env) (de_breaker env) (dc_riskInput ctx))"
  using assms(2) approval_ignores_signal [OF assms(1)]
  by (auto simp: evaluateEntry_def Let_def)

theorem zero_thresholds_bypass_the_gates_witness:
  "let env = demo_env\<lparr>de_entriesAllowed := False, de_sheath := Some sh\<rparr>
   in rr_approved (er_risk (fst (evaluateEntry demo_service env (demo_context (Fin 0))))) =
      rr_approved (evaluate (de_now env) (de_breaker env) (dc_riskInput (demo_context (Fin 0))))"
  unfolding Let_def
  by (rule zero_thresholds_bypass_the_gates)
    (simp_all add: demo_defs thresholds_on_def isReadyForLive_def)

text \<open>
  In live mode no signal of the preferred learning engine is ever returned: it carries the
  feature version of the registry, which the published updates never change and which is not the one
  the version test asks for.
\<close>

theorem preferred_signal_never_live:
  assumes "ds_preferAcie svc" and "ri_mode (dc_riskInput ctx) = Mode_live"
    and "de_registry env = ((publish divergence_update) ^^ n) registry_new"
  shows "er_signal (fst (evaluateEntry svc env ctx)) = None"
proof -
  have "rg_featureVersion (((publish divergence_update) ^^ n) registry_new) = ''acie-online-1''"
    by (induction n) (simp_all add: registry_new_def publish_def divergence_update_def)
  then have "es_featureVersion (acie_signal env ctx) = ''acie-online-1''"
    using assms(3) by (simp add: acie_signal_def)
  then have "build_signal svc env ctx = Some s \<Longrightarrow> \<not> featureVersionMatches (es_featureVersion s)" for s
    using assms(1)
    by (auto simp: build_signal_def Let_def applyPipelineToSignal_def featureVersionMatches_def
        FEATURE_VERSION_V2_def split: if_splits)
  then show ?thesis
    using assms(2) by (auto simp: evaluateEntry_def Let_def split: option.split)
qed

theorem preferred_signal_never_live_witness:
  "er_signal (fst (evaluateEntry demo_service demo_env (demo_context (Fin 1)))) = None"
  by (rule preferred_signal_never_live [where n = 0])
    (simp_all add: demo_defs)

end
