(* ===== verification/LiveExecution.thy ===== *)
theory LiveExecution
  imports EntryDecision BetExecution
begin

text \<open>
  The live path: the gate of \<open>src/src/betting/execution-mode-gate.ts\<close>, \<open>LiveBetExecutor\<close>,
  \<open>LiveCashOutExecutor\<close>, the choice of a placement path in \<open>bet-executor-factory.ts\<close>, and the
  bridge of \<open>src/src/core/live-bridge.ts\<close> from an observed round over the entry decision to the
  executor. The page is a parameter: how each attempt on it ends.
\<close>

section \<open>The mode gate\<close>

text \<open>The environment variables, absent or with their text.\<close>

record process_env =
  pe_APP_SYSTEM_MODE :: "string option"
  pe_EXECUTION_MODE :: "string option"
  pe_DRY_RUN :: "string option"
  pe_ALLOW_REAL_EXECUTION :: "string option"

definition env_mode :: "process_env \<Rightarrow> string" where
  "env_mode env = or_else (pe_APP_SYSTEM_MODE env) (or_else (pe_EXECUTION_MODE env) '''')"

definition isDryRunMode :: "process_env \<Rightarrow> bool option \<Rightarrow> bool" where
  "isDryRunMode env requestDryRun \<longleftrightarrow>
     toLowerCase (env_mode env) = ''dry-run'' \<or> pe_DRY_RUN env = Some ''true'' \<or>
     pe_DRY_RUN env = Some ''1'' \<or> requestDryRun = Some True"

definition allow_real :: "process_env \<Rightarrow> bool" where
  "allow_real env \<longleftrightarrow> pe_ALLOW_REAL_EXECUTION env = Some ''true'' \<or> pe_ALLOW_REAL_EXECUTION env = Some ''1''"

definition isRealExecutionAllowed :: "process_env \<Rightarrow> bool option \<Rightarrow> string option \<Rightarrow> bool" where
  "isRealExecutionAllowed env requestDryRun mode =
     (let effectiveMode = toLowerCase (or_else mode (env_mode env))
      in if isDryRunMode env requestDryRun then False
         else if effectiveMode \<noteq> ''live'' then False
         else allow_real env)"

definition dry_run_block_reason :: string where
  "dry_run_block_reason = ''DRY_RUN: real execution disabled''"

definition not_live_reason :: string where
  "not_live_reason = ''Real execution blocked (require live mode and ALLOW_REAL_EXECUTION=true)''"

definition realExecutionBlockReason :: "process_env \<Rightarrow> bool option \<Rightarrow> string option \<Rightarrow> string option" where
  "realExecutionBlockReason env requestDryRun mode =
     (let effectiveMode = toLowerCase (or_else mode (env_mode env))
      in if isDryRunMode env requestDryRun then Some dry_run_block_reason
         else if effectiveMode \<noteq> ''live'' \<or> \<not> allow_real env then Some not_live_reason
         else None)"

section \<open>The choice of a path\<close>

datatype execution_mode = EM_live | EM_dry_run | EM_observe_only | EM_maintenance

datatype placement_path = Path_live | Path_mock | Path_none

definition resolvePlacementPath :: "execution_mode \<Rightarrow> bool \<Rightarrow> bool \<Rightarrow> placement_path" where
  "resolvePlacementPath mode liveBound mockBound =
     (if mode = EM_live then (if \<not> liveBound then Path_none else Path_live)
      else if mode = EM_dry_run \<and> mockBound then Path_mock
      else Path_none)"

section \<open>The live executor\<close>

record live_config =
  lc_systemMode :: "string option"
  lc_maxPlacementRetries :: nat
  lc_placementRetryDelayMs :: int

definition live_default :: live_config where
  "live_default = \<lparr>lc_systemMode = None, lc_maxPlacementRetries = 2, lc_placementRetryDelayMs = 500\<rparr>"

text \<open>
  An attempt on the page: it fails before the click, the click itself throws (it may or may not have
  reached the page), or the button is clicked and the indicator of an active bet appears or not.
\<close>

datatype page_attempt = Before_click string | Click_throws string | Clicked bool

record live_page =
  lp_available :: bool
  lp_attempt :: "nat \<Rightarrow> page_attempt"
  lp_created :: "string option"

record live_executor =
  le_stopped :: bool
  le_config :: live_config

record live_result =
  lr_placed :: bool
  lr_betId :: string
  lr_roundId :: string
  lr_state :: bet_state
  lr_error :: "string option"
  lr_retryCount :: nat
  lr_stake :: jsnum
  lr_target :: jsnum

definition live_fail :: "place_request \<Rightarrow> string \<Rightarrow> nat \<Rightarrow> live_result" where
  "live_fail req err retries = \<lparr>lr_placed = False, lr_betId = rq_betId req, lr_roundId = rq_roundId req,
     lr_state = BS_FAILED, lr_error = Some err, lr_retryCount = retries, lr_stake = rq_stake req,
     lr_target = rq_target req\<rparr>"

definition not_confirmed :: string where
  "not_confirmed = ''PLACEMENT_NOT_CONFIRMED''"

text \<open>The loop: the attempt that confirmed, or the last error; and the number of clicks made.\<close>

fun live_loop :: "live_page \<Rightarrow> nat \<Rightarrow> nat \<Rightarrow> string \<Rightarrow> (string + nat) \<times> nat" where
  "live_loop pg 0 retryCount lastError = (Inl lastError, 0)"
| "live_loop pg (Suc attempts_left) retryCount lastError =
     (case lp_attempt pg retryCount of
        Before_click err \<Rightarrow> live_loop pg attempts_left (retryCount + 1) err
      | Click_throws err \<Rightarrow>
          (let (res, clicks) = live_loop pg attempts_left (retryCount + 1) err in (res, clicks + 1))
      | Clicked True \<Rightarrow> (Inr retryCount, 1)
      | Clicked False \<Rightarrow>
          (let (res, clicks) = live_loop pg attempts_left (retryCount + 1) not_confirmed in (res, clicks + 1)))"

text \<open>The last component is the number of clicks on the button that places the bet.\<close>

definition placeLiveBet ::
  "'s idem_ops \<Rightarrow> process_env \<Rightarrow> live_executor \<Rightarrow> live_page \<Rightarrow> place_request \<Rightarrow> 's \<Rightarrow> 's \<times> live_result \<times> nat" where
  "placeLiveBet ops env le pg req st =
     (if le_stopped le then (st, live_fail req ''Executor is stopped'' 0, 0)
      else case realExecutionBlockReason env (Some (rq_dryRun req))
             (Some (toLowerCase (or_else (lc_systemMode (le_config le)) (or_else (pe_APP_SYSTEM_MODE env) '''')))) of
        Some blocked \<Rightarrow> (st, live_fail req blocked 0, 0)
      | None \<Rightarrow>
          if \<not> lp_available pg then (st, live_fail req ''BROWSER_PAGE_UNAVAILABLE'' 0, 0)
          else let (st1, reserved) = io_reserve ops (rq_sessionId req) (rq_roundId req) (rq_betId req) st
               in if \<not> reserved then (st1, live_fail req ''Duplicate bet blocked by idempotency'' 0, 0)
                  else let betId = or_else (lp_created pg) (rq_betId req)
                       in (case live_loop pg (lc_maxPlacementRetries (le_config le) + 1) 0 ''placement_failed'' of
                             (Inr n, clicks) \<Rightarrow>
                               (io_complete ops (rq_sessionId req) (rq_roundId req)
                                  \<lparr>pr_success = True, pr_betId = None, pr_error = None\<rparr> st1,
                                \<lparr>lr_placed = True, lr_betId = betId, lr_roundId = rq_roundId req,
                                 lr_state = BS_CONFIRMED, lr_error = None, lr_retryCount = n,
                                 lr_stake = rq_stake req, lr_target = rq_target req\<rparr>, clicks)
                           | (Inl err, clicks) \<Rightarrow>
                               (st1, live_fail req err (lc_maxPlacementRetries (le_config le) + 1), clicks)))"

definition buildRequest :: "string \<Rightarrow> string \<Rightarrow> string \<Rightarrow> jsnum \<Rightarrow> jsnum \<Rightarrow> bool option \<Rightarrow> place_request" where
  "buildRequest uuid rid sess stake target dryRun =
     \<lparr>rq_betId = uuid, rq_roundId = rid, rq_sessionId = sess, rq_stake = stake, rq_target = target,
      rq_idempotencyKey = generateKey sess rid, rq_dryRun = or_else dryRun False\<rparr>"

section \<open>The live cash-out\<close>

record live_cashout =
  lo_stopped :: bool
  lo_targetMultiplier :: jsnum
  lo_systemMode :: "string option"

record live_cashout_result =
  lx_success :: bool
  lx_betId :: string
  lx_roundId :: string
  lx_state :: bet_state
  lx_cashOutMultiplier :: "jsnum option"
  lx_error :: "string option"

definition setTarget :: "jsnum \<Rightarrow> live_cashout \<Rightarrow> live_cashout" where
  "setTarget target lo = lo\<lparr>lo_targetMultiplier := target\<rparr>"

definition cashout_failed :: "string \<Rightarrow> string \<Rightarrow> string \<Rightarrow> live_cashout_result" where
  "cashout_failed bet rid err = \<lparr>lx_success = False, lx_betId = bet, lx_roundId = rid,
     lx_state = BS_FAILED, lx_cashOutMultiplier = None, lx_error = Some err\<rparr>"

text \<open>\<open>click\<close>: the error of the click, or \<^const>\<open>None\<close>. The flag of the result: the page was clicked.\<close>

definition cashOut ::
  "process_env \<Rightarrow> live_cashout \<Rightarrow> bool \<Rightarrow> string option \<Rightarrow> string \<Rightarrow> string \<Rightarrow> bool \<Rightarrow> live_cashout_result \<times> bool" where
  "cashOut env lo available click bet rid dryRun =
     (case realExecutionBlockReason env (Some dryRun)
             (Some (toLowerCase (or_else (lo_systemMode lo) (or_else (pe_APP_SYSTEM_MODE env) '''')))) of
        Some blocked \<Rightarrow> (cashout_failed bet rid blocked, False)
      | None \<Rightarrow>
          if lo_stopped lo \<or> \<not> available then (cashout_failed bet rid ''PAGE_OR_STOPPED'', False)
          else case click of
                 Some err \<Rightarrow> (cashout_failed bet rid err, True)
               | None \<Rightarrow> (\<lparr>lx_success = True, lx_betId = bet, lx_roundId = rid, lx_state = BS_CASHED_OUT,
                            lx_cashOutMultiplier = Some (lo_targetMultiplier lo), lx_error = None\<rparr>, True))"


section \<open>The bridge\<close>

text \<open>The numbers of the configuration, absent when the file does not give them.\<close>

record bridge_config =
  bc_mode :: "string option"
  bc_stakePerEntry :: "jsnum option"
  bc_cashOutTarget :: "jsnum option"
  bc_maxDailyEntries :: "int option"
  bc_balanceBuffer :: "jsnum option"
  bc_maxConsecutiveErrors :: "int option"
  bc_maxCashOutFailures :: "int option"
  bc_minPredictionProbability :: "jsnum option"
  bc_minPredictionConfidence :: "jsnum option"

record bridge_deps =
  bd_config :: bridge_config
  bd_executor :: "live_executor option"
  bd_executorBusy :: bool
  bd_cashOut :: "live_cashout option"
  bd_sessionId :: string
  bd_isAuthenticated :: bool
  bd_isGameLoaded :: bool
  bd_isObserving :: bool
  bd_getBalance :: jsnum

definition buildRiskInput :: "bridge_deps \<Rightarrow> string \<Rightarrow> string \<Rightarrow> risk_input" where
  "buildRiskInput deps rid startedAt =
     (let cfg = bd_config deps; stake = or_else (bc_stakePerEntry cfg) (Fin 700)
      in \<lparr>ri_mode = Mode_live, ri_operatorAuthorized = True,
          ri_sessionAuthenticated = bd_isAuthenticated deps, ri_gameLoaded = bd_isGameLoaded deps,
          ri_roundState = Some \<lparr>rs_roundId = Some rid, rs_phase = Ph_starting,
            rs_currentMultiplier = Some (Fin 1), rs_startedAt = Some startedAt, rs_crashedAt = None,
            rs_crashPoint = None, rs_lastTickAt = None, rs_source = Src_dom, rs_confidence = Conf_medium\<rparr>,
          ri_currentBalance = Some (bd_getBalance deps), ri_dailyEntriesConfirmed = 0, ri_paused = False,
          ri_killSwitch = False, ri_browserHealthy = True, ri_gameAdapterHealthy = True,
          ri_openBetExists = (bd_executor deps \<noteq> None \<and> bd_executorBusy deps), ri_cooldownElapsed = True,
          ri_requiredStake = stake, ri_balanceBuffer = or_else (bc_balanceBuffer cfg) stake,
          ri_maxDailyEntries = or_else (bc_maxDailyEntries cfg) 500, ri_minConfidenceForEntry = Conf_medium,
          ri_consecutiveErrors = 0, ri_maxConsecutiveErrors = or_else (bc_maxConsecutiveErrors cfg) 3,
          ri_cashOutFailures = 0, ri_maxCashOutFailures = or_else (bc_maxCashOutFailures cfg) 2,
          ri_predictionSignal = None,
          ri_minPredictionProbability = Some (or_else (bc_minPredictionProbability cfg) (lit (35/100))),
          ri_minPredictionConfidence = Some (or_else (bc_minPredictionConfidence cfg) (lit (3/10)))\<rparr>)"

text \<open>What the bridge changes: the rounds with an open live bet, the target of the cash-out, the store.\<close>

record 's bridge_state =
  bs_openLiveBets :: "string list"
  bs_cashOut :: "live_cashout option"
  bs_store :: 's

text \<open>
  \<open>service\<close> is \<^const>\<open>None\<close> when the evaluation throws. The last component counts the clicks that place
  a bet.
\<close>

definition onRoundStartedForLive ::
  "'s idem_ops \<Rightarrow> process_env \<Rightarrow> (decision_service \<times> decision_env) option \<Rightarrow> live_page \<Rightarrow> string \<Rightarrow> string \<Rightarrow> int \<Rightarrow>
     bridge_deps \<Rightarrow> string \<Rightarrow> 's bridge_state \<Rightarrow> 's bridge_state \<times> live_result option \<times> nat" where
  "onRoundStartedForLive ops env service pg uuid startedAt now deps rid st =
     (let cfg = bd_config deps; mode = toLowerCase (or_else (bc_mode cfg) '''')
      in if mode \<noteq> ''live'' then (st, None, 0)
         else if \<not> isRealExecutionAllowed env (Some False) (Some mode) then (st, None, 0)
         else if \<not> bd_isAuthenticated deps \<or> \<not> bd_isObserving deps then (st, None, 0)
         else case bd_executor deps of
           None \<Rightarrow> (st, None, 0)
         | Some le \<Rightarrow>
             (case service of
                None \<Rightarrow> (st, None, 0)
              | Some (svc, denv) \<Rightarrow>
                  let target = or_else (bc_cashOutTarget cfg) (lit (13/10));
                      stake = or_else (bc_stakePerEntry cfg) (Fin 700);
                      decision = fst (evaluateEntry svc denv
                        \<lparr>dc_roundId = rid, dc_decisionTime = now,
                         dc_riskInput = buildRiskInput deps rid startedAt,
                         dc_target = Some target, dc_minHistory = None\<rparr>)
                  in case er_signal decision of
                       None \<Rightarrow> (st, None, 0)
                     | Some sig \<Rightarrow>
                         if \<not> rr_approved (er_risk decision) then (st, None, 0)
                         else let req = buildRequest uuid rid (bd_sessionId deps) stake (es_target sig) None;
                                  (store, res, clicks) = placeLiveBet ops env le pg req (bs_store st);
                                  st1 = st\<lparr>bs_store := store\<rparr>
                              in if lr_placed res
                                 then (st1\<lparr>bs_openLiveBets := List.insert rid (bs_openLiveBets st1),
                                        bs_cashOut := map_option (setTarget (es_target sig)) (bs_cashOut st1)\<rparr>,
                                       Some res, clicks)
                                 else (st1, Some res, clicks)))"

text \<open>
  After the crash of a round with an open bet the bridge asks for a cash-out, with the round's identifier
  in place of the bet's. The second component: the cash-out, if one was asked for.
\<close>

definition onRoundCrashedForLive ::
  "process_env \<Rightarrow> bool \<Rightarrow> string option \<Rightarrow> bridge_deps \<Rightarrow> string \<Rightarrow> jsnum \<Rightarrow> 's bridge_state \<Rightarrow>
     's bridge_state \<times> (live_cashout_result \<times> bool) option" where
  "onRoundCrashedForLive env available click deps rid cp st =
     (if toLowerCase (or_else (bc_mode (bd_config deps)) '''') \<noteq> ''live'' then (st, None)
      else if rid = '''' \<or> \<not> is_fin cp \<or> jle cp (Fin 0) then (st, None)
      else case bs_cashOut st of
             Some lo \<Rightarrow>
               if rid \<in> set (bs_openLiveBets st)
               then (st\<lparr>bs_openLiveBets := removeAll rid (bs_openLiveBets st)\<rparr>,
                     Some (cashOut env lo available click rid rid False))
               else (st, None)
           | None \<Rightarrow> (st, None))"

section \<open>Lemmas\<close>

lemma live_loop_clicks: "snd (live_loop pg n k le) \<le> n"
  by (induction pg n k le rule: live_loop.induct) (auto split: page_attempt.split bool.split prod.split)

lemma live_loop_unconfirmed:
  "(\<And>k. lp_attempt pg k = Clicked False) \<Longrightarrow> live_loop pg n k err = (Inl (if n = 0 then err else not_confirmed), n)"
  by (induction n arbitrary: k err) auto

text \<open>The two forms of the gate agree.\<close>

lemma gate_forms_agree:
  "realExecutionBlockReason env dry mode = None \<longleftrightarrow> isRealExecutionAllowed env dry mode"
  by (auto simp: realExecutionBlockReason_def isRealExecutionAllowed_def Let_def)

text \<open>The round state of the bridge never has the confidence the risk engine asks for.\<close>

lemma bridge_input_rejected: "\<not> rr_approved (evaluate now b ((buildRiskInput deps rid t)\<lparr>ri_predictionSignal := sig\<rparr>))"
proof -
  have "\<not> evaluateAllConditions now (buildRiskInput deps rid t) K_observationConfidenceHigh"
    by (simp add: evaluateAllConditions_def buildRiskInput_def Let_def)
  then show ?thesis by (auto simp: approved_iff)
qed

lemma bridge_decision_rejected:
  "dc_riskInput ctx = buildRiskInput deps rid t \<Longrightarrow> \<not> rr_approved (er_risk (fst (evaluateEntry svc env ctx)))"
  by (auto simp: evaluateEntry_def Let_def bridge_input_rejected)

section \<open>Properties\<close>

text \<open>
  C11. The live executor touches the button that places a bet only when nothing blocks it: it is
  not stopped, the process is in live mode with real execution switched on, no dry-run switch is set
  in the environment or the request, the page is there and the round was reserved for this bet; and then
  it makes at most one click for each attempt.
\<close>

theorem live_click_needs_open_gate:
  "let (st2, res, clicks) = placeLiveBet ops env le pg req st
   in clicks \<le> lc_maxPlacementRetries (le_config le) + 1 \<and>
      (if clicks > 0 \<or> lr_placed res
       then \<not> le_stopped le \<and> \<not> rq_dryRun req \<and> \<not> isDryRunMode env None \<and> allow_real env \<and>
         toLowerCase (or_else (lc_systemMode (le_config le)) (or_else (pe_APP_SYSTEM_MODE env) '''')) = ''live'' \<and>
         lp_available pg \<and> snd (io_reserve ops (rq_sessionId req) (rq_roundId req) (rq_betId req) st)
       else True)"
proof -
  have low: "toLowerCase (toLowerCase s) = toLowerCase s" for s
    by (auto simp: toLowerCase_def lower_char_def Let_def)
  have clicks: "snd (live_loop pg (lc_maxPlacementRetries (le_config le) + 1) 0 ''placement_failed'') \<le>
      lc_maxPlacementRetries (le_config le) + 1"
    by (rule live_loop_clicks)
  show ?thesis
    using clicks
    by (auto simp: placeLiveBet_def live_fail_def realExecutionBlockReason_def isDryRunMode_def low Let_def
        simp del: live_loop.simps split: option.split prod.split sum.split if_splits)
qed

text \<open>
  The live bridge never places a bet: it gives the risk engine a round state of medium
  confidence, which the engine always rejects. Whatever the configuration, the environment, the
  prediction and the page are, a started round ends with no result, no click and an unchanged state.
\<close>

theorem live_bridge_never_bets:
  "onRoundStartedForLive ops env service pg uuid startedAt now deps rid st = (st, None, 0)"
  by (auto simp: onRoundStartedForLive_def Let_def bridge_decision_rejected split: option.split prod.split)

text \<open>
  A click whose confirmation does not show is followed by another click: with the default
  of two retries the live executor may place three bets for one request, reports FAILED and
  leaves the record of the round as PENDING.
\<close>

theorem unconfirmed_click_is_repeated:
  assumes "\<And>k. lp_attempt pg k = Clicked False" and "lp_available pg" and "\<not> le_stopped le"
    and "realExecutionBlockReason env (Some (rq_dryRun req))
      (Some (toLowerCase (or_else (lc_systemMode (le_config le)) (or_else (pe_APP_SYSTEM_MODE env) '''')))) = None"
  shows "let (st2, res, clicks) = placeLiveBet (memory_ops now) env le pg req Map.empty
    in clicks = lc_maxPlacementRetries (le_config le) + 1 \<and> lr_state res = BS_FAILED \<and>
       map_option ir_status (st2 (generateKey (rq_sessionId req) (rq_roundId req))) = Some I_PENDING"
  using assms(2-4) live_loop_unconfirmed [OF assms(1)]
  by (simp add: placeLiveBet_def memory_ops_def mi_reserve_def live_fail_def Let_def del: live_loop.simps)

definition demo_process :: process_env where
  "demo_process = \<lparr>pe_APP_SYSTEM_MODE = Some ''live'', pe_EXECUTION_MODE = None, pe_DRY_RUN = None,
     pe_ALLOW_REAL_EXECUTION = Some ''true''\<rparr>"

theorem unconfirmed_click_is_repeated_witness:
  "let (st2, res, clicks) = placeLiveBet (memory_ops 0) demo_process
         \<lparr>le_stopped = False, le_config = live_default\<rparr>
         \<lparr>lp_available = True, lp_attempt = (\<lambda>k. Clicked False), lp_created = None\<rparr> (demo_request ''b1'') Map.empty
   in clicks = 3 \<and> lr_state res = BS_FAILED"
proof -
  let ?le = "\<lparr>le_stopped = False, le_config = live_default\<rparr>"
  let ?pg = "\<lparr>lp_available = True, lp_attempt = (\<lambda>k. Clicked False), lp_created = None\<rparr>"
  have low: "toLowerCase ''live'' = ''live''" "toLowerCase [] = []"
    by (simp_all add: toLowerCase_def lower_char_def of_char_def)
  have "realExecutionBlockReason demo_process (Some (rq_dryRun (demo_request ''b1'')))
      (Some (toLowerCase (or_else (lc_systemMode (le_config ?le)) (or_else (pe_APP_SYSTEM_MODE demo_process) '''')))) = None"
    by (simp add: realExecutionBlockReason_def isDryRunMode_def demo_process_def demo_request_def env_mode_def
        live_default_def allow_real_def low Let_def)
  then show ?thesis
    using unconfirmed_click_is_repeated [of ?pg ?le demo_process "demo_request ''b1''" 0]
    by (simp add: live_default_def split: prod.splits)
qed

text \<open>The cash-out of the bridge comes after the crash, and names the round where the bet is meant.\<close>

lemma bridge_cashes_out_after_crash:
  assumes "toLowerCase (or_else (bc_mode (bd_config deps)) '''') = ''live''" and "rid \<noteq> ''''"
    and "is_fin cp" "jlt (Fin 0) cp" and "rid \<in> set (bs_openLiveBets st)" and "bs_cashOut st = Some lo"
  shows "map_option (lx_betId \<circ> fst) (snd (onRoundCrashedForLive env available click deps rid cp st)) = Some rid"
  using assms jlt_not_jle [OF assms(4)]
  by (auto simp: onRoundCrashedForLive_def cashOut_def cashout_failed_def Let_def split: option.split)

end
