(* ===== verification/BetStore.thy ===== *)
theory BetStore
  imports BetExecution
begin

text \<open>
  \<open>BetRepository\<close> of \<open>src/src/persistence/repositories/bet-repo.ts\<close> as operations on a table of bets with
  the journal of financial events and the outbox, and \<open>EmergencyStop\<close> of
  \<open>src/src/core/emergency-stop.ts\<close> over it. The database is a parameter where its behaviour matters:
  whether a connection fails, whether the optional tables exist, and what \<open>COMMIT\<close> does with a transaction in which
  a statement has failed. A row keeps the columns the program reads; the phase timestamps are left out.
\<close>

section \<open>Rows\<close>

record bet_row =
  br_id :: string
  br_sessionId :: "string option"
  br_roundId :: "string option"
  br_dailyKey :: string
  br_stake :: jsnum
  br_cashOutTarget :: jsnum
  br_state :: bet_state
  br_observed :: "jsnum option"
  br_confirmed :: "jsnum option"
  br_pnl :: "jsnum option"
  br_balanceBefore :: "jsnum option"
  br_balanceAfter :: "jsnum option"
  br_failureReason :: "string option"
  br_createdAt :: int

record create_bet_input =
  cb_sessionId :: "string option"
  cb_roundId :: "string option"
  cb_dailyKey :: string
  cb_stake :: jsnum
  cb_cashOutTarget :: jsnum
  cb_state :: "bet_state option"
  cb_balanceBefore :: "jsnum option"

text \<open>A field that is absent is not written; a present one may be null.\<close>

record update_bet_input =
  ub_sessionId :: "string option option"
  ub_roundId :: "string option option"
  ub_state :: "bet_state option"
  ub_observed :: "jsnum option option"
  ub_confirmed :: "jsnum option option"
  ub_pnl :: "jsnum option option"
  ub_balanceBefore :: "jsnum option option"
  ub_balanceAfter :: "jsnum option option"
  ub_failureReason :: "string option option"

definition no_update :: update_bet_input where
  "no_update = \<lparr>ub_sessionId = None, ub_roundId = None, ub_state = None, ub_observed = None,
     ub_confirmed = None, ub_pnl = None, ub_balanceBefore = None, ub_balanceAfter = None,
     ub_failureReason = None\<rparr>"

datatype fin_event_type =
    FE_BET_INTENDED | FE_BET_RESERVED | FE_BET_PLACED | FE_BET_CONFIRMED | FE_CASH_OUT_REQUESTED
  | FE_CASH_OUT_CONFIRMED | FE_BET_LOST | FE_BET_FAILED | FE_BET_UNKNOWN | FE_RECONCILED

datatype bet_event = EV_EntryApproved | EV_BetPlaced | EV_BetFailed | EV_CashOutRequested | EV_CashOutConfirmed | EV_CashOutFailed

fun financialEventType :: "bet_state \<Rightarrow> fin_event_type" where
  "financialEventType BS_RESERVED = FE_BET_RESERVED"
| "financialEventType BS_PLACED = FE_BET_PLACED"
| "financialEventType BS_CONFIRMED = FE_BET_CONFIRMED"
| "financialEventType BS_CASH_OUT_REQUESTED = FE_CASH_OUT_REQUESTED"
| "financialEventType BS_CASHED_OUT = FE_CASH_OUT_CONFIRMED"
| "financialEventType BS_LOST = FE_BET_LOST"
| "financialEventType BS_FAILED = FE_BET_FAILED"
| "financialEventType BS_UNKNOWN = FE_BET_UNKNOWN"
| "financialEventType BS_RECONCILED = FE_RECONCILED"
| "financialEventType _ = FE_BET_UNKNOWN"

fun systemEventForState :: "bet_state \<Rightarrow> bet_event option" where
  "systemEventForState BS_PLACED = Some EV_BetPlaced"
| "systemEventForState BS_FAILED = Some EV_BetFailed"
| "systemEventForState BS_CASH_OUT_REQUESTED = Some EV_CashOutRequested"
| "systemEventForState BS_CASHED_OUT = Some EV_CashOutConfirmed"
| "systemEventForState BS_LOST = Some EV_CashOutFailed"
| "systemEventForState BS_UNKNOWN = Some EV_CashOutFailed"
| "systemEventForState _ = None"

record bet_db =
  bd_rows :: "bet_row list"
  bd_financial :: "(string \<times> fin_event_type \<times> jsnum option) list"
  bd_outbox :: "(bet_event \<times> string) list"

text \<open>
  \<open>pg_commit failed before after\<close>: the database after \<open>COMMIT\<close> of a transaction that started in \<open>before\<close> and
  would lead to \<open>after\<close>; \<open>failed\<close> says that a statement of it was rejected whose error is ignored.
  \<open>pg_connect_error\<close>: the error with which a write ends that gets no connection, or whose own \<open>INSERT\<close> or \<open>UPDATE\<close>
  is rejected: the transaction is rolled back and the error is thrown.
\<close>

record pg_env =
  pg_connect_error :: "string option"
  pg_has_financial :: bool
  pg_has_outbox :: bool
  pg_commit :: "bool \<Rightarrow> bet_db \<Rightarrow> bet_db \<Rightarrow> bet_db"

text \<open>
  PostgreSQL: once a statement of a transaction fails, the transaction is aborted and its \<open>COMMIT\<close> rolls it
  back; otherwise \<open>COMMIT\<close> makes it permanent.
\<close>

definition pg_laws :: "pg_env \<Rightarrow> bool" where
  "pg_laws P \<longleftrightarrow> (\<forall>before after. pg_commit P False before after = after \<and> pg_commit P True before after = before)"

section \<open>The repository\<close>

definition bet_create ::
  "pg_env \<Rightarrow> string \<Rightarrow> int \<Rightarrow> create_bet_input \<Rightarrow> bet_db \<Rightarrow> bet_db \<times> (string + bet_row)" where
  "bet_create P newId now inp db =
     (case pg_connect_error P of
        Some err \<Rightarrow> (db, Inl err)
      | None \<Rightarrow>
          let row = \<lparr>br_id = newId, br_sessionId = cb_sessionId inp, br_roundId = cb_roundId inp,
                br_dailyKey = cb_dailyKey inp, br_stake = cb_stake inp, br_cashOutTarget = cb_cashOutTarget inp,
                br_state = or_else (cb_state inp) BS_PENDING, br_observed = None, br_confirmed = None, br_pnl = None,
                br_balanceBefore = cb_balanceBefore inp, br_balanceAfter = None, br_failureReason = None,
                br_createdAt = now\<rparr>;
              failed = (\<not> pg_has_financial P \<or> \<not> pg_has_outbox P);
              after = \<lparr>bd_rows = bd_rows db @ [row],
                bd_financial = bd_financial db @ [(newId, FE_BET_INTENDED, Some (br_stake row))],
                bd_outbox = bd_outbox db @ [(EV_EntryApproved, newId)]\<rparr>
          in (pg_commit P failed db after, Inr row))"

definition bet_findById :: "string \<Rightarrow> bet_db \<Rightarrow> bet_row option" where
  "bet_findById i db = List.find (\<lambda>r. br_id r = i) (bd_rows db)"

text \<open>\<open>ORDER BY created_at DESC LIMIT n\<close>; rows of equal time come in the reverse order of insertion.\<close>

definition bet_findByState :: "bet_state \<Rightarrow> nat \<Rightarrow> bet_db \<Rightarrow> bet_row list" where
  "bet_findByState st limit db =
     take limit (rev (sort_key br_createdAt (filter (\<lambda>r. br_state r = st) (bd_rows db))))"

definition findUnknownBets :: "nat \<Rightarrow> bet_db \<Rightarrow> bet_row list" where
  "findUnknownBets limit db = bet_findByState BS_UNKNOWN limit db"

definition findActiveBets :: "bet_db \<Rightarrow> bet_row list" where
  "findActiveBets db = rev (sort_key br_createdAt
     (filter (\<lambda>r. br_state r \<in> {BS_PLACED, BS_CONFIRMED, BS_ACTIVE, BS_CASH_OUT_REQUESTED}) (bd_rows db)))"

definition countByState :: "bet_state \<Rightarrow> bet_db \<Rightarrow> nat" where
  "countByState st db = length (filter (\<lambda>r. br_state r = st) (bd_rows db))"

definition countByDailyKey :: "string \<Rightarrow> bet_db \<Rightarrow> nat" where
  "countByDailyKey k db = length (filter (\<lambda>r. br_dailyKey r = k) (bd_rows db))"

definition apply_update :: "update_bet_input \<Rightarrow> bet_row \<Rightarrow> bet_row" where
  "apply_update u r = r\<lparr>br_sessionId := or_else (ub_sessionId u) (br_sessionId r),
     br_roundId := or_else (ub_roundId u) (br_roundId r), br_state := or_else (ub_state u) (br_state r),
     br_observed := or_else (ub_observed u) (br_observed r), br_confirmed := or_else (ub_confirmed u) (br_confirmed r),
     br_pnl := or_else (ub_pnl u) (br_pnl r), br_balanceBefore := or_else (ub_balanceBefore u) (br_balanceBefore r),
     br_balanceAfter := or_else (ub_balanceAfter u) (br_balanceAfter r),
     br_failureReason := or_else (ub_failureReason u) (br_failureReason r)\<rparr>"

definition bet_update :: "pg_env \<Rightarrow> string \<Rightarrow> update_bet_input \<Rightarrow> bet_db \<Rightarrow> bet_db \<times> (string + bet_row option)" where
  "bet_update P i u db =
     (if u = no_update then (db, Inr (bet_findById i db))
      else case pg_connect_error P of
        Some err \<Rightarrow> (db, Inl err)
      | None \<Rightarrow>
          (case bet_findById i db of
             None \<Rightarrow> (db, Inr None)
           | Some previous \<Rightarrow>
               let row = apply_update u previous;
                   db1 = db\<lparr>bd_rows := update_first (\<lambda>r. br_id r = i) (apply_update u) (bd_rows db)\<rparr>
               in (case ub_state u of
                     Some st \<Rightarrow>
                       if st \<noteq> br_state previous
                       then let ev = systemEventForState st;
                                failed = (\<not> pg_has_financial P \<or> ev \<noteq> None \<and> \<not> pg_has_outbox P);
                                after = db1\<lparr>bd_financial := bd_financial db1 @ [(i, financialEventType st, br_pnl row)],
                                  bd_outbox := bd_outbox db1 @ (case ev of Some e \<Rightarrow> [(e, i)] | None \<Rightarrow> [])\<rparr>
                            in (pg_commit P failed db after, Inr (Some row))
                       else (pg_commit P False db db1, Inr (Some row))
                   | None \<Rightarrow> (pg_commit P False db db1, Inr (Some row)))))"

definition bet_updateState ::
  "pg_env \<Rightarrow> string \<Rightarrow> bet_state \<Rightarrow> string option \<Rightarrow> bet_db \<Rightarrow> bet_db \<times> (string + bet_row option)" where
  "bet_updateState P i st why db =
     bet_update P i (no_update\<lparr>ub_state := Some st, ub_failureReason := map_option Some why\<rparr>) db"

definition bet_delete :: "string \<Rightarrow> bet_db \<Rightarrow> bet_db \<times> bool" where
  "bet_delete i db =
     (db\<lparr>bd_rows := filter (\<lambda>r. br_id r \<noteq> i) (bd_rows db)\<rparr>, bet_findById i db \<noteq> None)"

section \<open>Lemmas on the table\<close>

definition ids_distinct :: "bet_db \<Rightarrow> bool" where
  "ids_distinct db \<longleftrightarrow> distinct (map br_id (bd_rows db))"

lemma apply_update_id [simp]: "br_id (apply_update u r) = br_id r"
  by (simp add: apply_update_def)

lemma pg_commit_laws: "pg_laws P \<Longrightarrow> pg_commit P failed before after = (if failed then before else after)"
  by (cases failed) (auto simp: pg_laws_def)

lemma ids_distinct_update:
  assumes "pg_laws P" "ids_distinct db"
  shows "ids_distinct (fst (bet_update P i u db))"
  using assms map_update_first [of br_id "apply_update u" "\<lambda>r. br_id r = i" "bd_rows db"]
  by (auto simp: bet_update_def pg_commit_laws ids_distinct_def Let_def split: option.split)

lemma set_findByState:
  "set (bet_findByState st limit db) \<subseteq> {r \<in> set (bd_rows db). br_state r = st}"
  by (auto simp: bet_findByState_def dest!: in_set_takeD)

lemma length_findByState: "length (bet_findByState st limit db) = min limit (countByState st db)"
  by (simp add: bet_findByState_def countByState_def)

lemma findByState_ids: "ids_distinct db \<Longrightarrow> distinct (map br_id (bet_findByState st limit db))"
proof -
  assume "ids_distinct db"
  then have inj: "inj_on br_id (set (bd_rows db))" and d: "distinct (bd_rows db)"
    by (auto simp: ids_distinct_def distinct_map)
  have "distinct (bet_findByState st limit db)"
    using d by (simp add: bet_findByState_def)
  moreover have "inj_on br_id (set (bet_findByState st limit db))"
    using inj set_findByState [of st limit db] by (auto intro: inj_on_subset)
  ultimately show ?thesis by (simp add: distinct_map)
qed

text \<open>What a committed update of a row does to the table: that row changes and no other.\<close>

lemma bet_update_rows:
  assumes "pg_laws P" "pg_connect_error P = None" "bet_findById i db = Some r" "u \<noteq> no_update"
    and "case ub_state u of None \<Rightarrow> True | Some st \<Rightarrow> pg_has_financial P \<and> pg_has_outbox P \<or> st = br_state r"
  shows "bd_rows (fst (bet_update P i u db)) = update_first (\<lambda>r. br_id r = i) (apply_update u) (bd_rows db)"
    and "snd (bet_update P i u db) = Inr (Some (apply_update u r))"
  using assms by (auto simp: bet_update_def pg_commit_laws Let_def split: option.splits)

lemma findById_other:
  assumes "pg_laws P" "j \<noteq> i"
  shows "bet_findById j (fst (bet_update P i u db)) = bet_findById j db"
proof -
  have find: "List.find (\<lambda>r. br_id r = j) (update_first (\<lambda>r. br_id r = i) (apply_update u) rs) =
      List.find (\<lambda>r. br_id r = j) rs" for rs
    using assms(2) by (induction rs) auto
  then show ?thesis
    by (auto simp: bet_update_def bet_findById_def pg_commit_laws [OF assms(1)] Let_def split: option.split)
qed

section \<open>Emergency stop\<close>

datatype emergency_state = ES_armed | ES_triggered | ES_resetting | ES_idle

record emergency_config =
  ec_attemptCancelPending :: bool
  ec_preserveState :: bool
  ec_notifyOperator :: bool

definition emergency_default :: emergency_config where
  "emergency_default = \<lparr>ec_attemptCancelPending = True, ec_preserveState = True, ec_notifyOperator = True\<rparr>"

record emergency_result =
  em_triggered :: bool
  em_state :: emergency_state
  em_haltedExecutors :: bool
  em_cancelledPendingBets :: nat
  em_preservedState :: bool
  em_operatorNotified :: bool

record emergency_stop =
  es_state :: emergency_state
  es_lastResult :: "emergency_result option"
  es_triggerReason :: "string option"

definition emergency_new :: emergency_stop where
  "emergency_new = \<lparr>es_state = ES_armed, es_lastResult = None, es_triggerReason = None\<rparr>"

definition isTriggered :: "emergency_stop \<Rightarrow> bool" where
  "isTriggered s \<longleftrightarrow> es_state s = ES_triggered"

definition cancel_reason :: string where
  "cancel_reason = ''Cancelled by emergency stop''"

text \<open>
  \<open>cancelPendingBets\<close>: the bets are read first and updated one by one, \<open>others\<close> being what the rest of the program
  writes in between. \<open>query_ok\<close>: neither of the two queries throws.
\<close>

fun cancel_loop :: "pg_env \<Rightarrow> bet_row list \<Rightarrow> bet_db \<Rightarrow> bet_db \<times> nat" where
  "cancel_loop P [] db = (db, 0)"
| "cancel_loop P (b # bs) db =
     (case bet_updateState P (br_id b) BS_FAILED (Some cancel_reason) db of
        (db1, Inl _) \<Rightarrow> cancel_loop P bs db1
      | (db1, Inr _) \<Rightarrow> (let (db2, n) = cancel_loop P bs db1 in (db2, n + 1)))"

definition cancelPendingBets :: "pg_env \<Rightarrow> bool \<Rightarrow> (bet_db \<Rightarrow> bet_db) \<Rightarrow> bet_db \<Rightarrow> bet_db \<times> nat" where
  "cancelPendingBets P query_ok others db =
     (if \<not> query_ok then (db, 0)
      else cancel_loop P (bet_findByState BS_PENDING 100 db @ bet_findByState BS_RESERVED 100 db) (others db))"

text \<open>
  \<open>emit_ok\<close>: no emission on the event bus throws. \<open>trigger\<close> stops both executors at once, before any of its
  awaits; the last component says that it did.
\<close>

definition emergency_trigger ::
  "pg_env \<Rightarrow> emergency_config \<Rightarrow> bool \<Rightarrow> bool \<Rightarrow> (bet_db \<Rightarrow> bet_db) \<Rightarrow> string \<Rightarrow> emergency_stop \<Rightarrow> bet_db \<Rightarrow>
     emergency_stop \<times> bet_db \<times> emergency_result \<times> bool" where
  "emergency_trigger P cfg query_ok emit_ok others why s db =
     (if es_state s = ES_triggered
      then (s, db, \<lparr>em_triggered = True, em_state = ES_triggered, em_haltedExecutors = False,
              em_cancelledPendingBets = 0, em_preservedState = False, em_operatorNotified = False\<rparr>, False)
      else let (db1, cancelled) =
                 (if ec_attemptCancelPending cfg then cancelPendingBets P query_ok others db else (db, 0));
               preserved = (ec_preserveState cfg \<and> query_ok);
               res = \<lparr>em_triggered = True, em_state = ES_triggered, em_haltedExecutors = True,
                 em_cancelledPendingBets = cancelled, em_preservedState = preserved,
                 em_operatorNotified = (emit_ok \<and> ec_notifyOperator cfg)\<rparr>
           in (\<lparr>es_state = ES_triggered, es_lastResult = Some res, es_triggerReason = Some why\<rparr>, db1, res, True))"

definition emergency_reset :: "emergency_stop \<Rightarrow> emergency_stop" where
  "emergency_reset s =
     (if es_state s \<noteq> ES_triggered then s else s\<lparr>es_state := ES_armed, es_triggerReason := None\<rparr>)"

datatype emergency_op =
    EO_trigger pg_env emergency_config bool bool "bet_db \<Rightarrow> bet_db" string
  | EO_reset
  | EO_write "bet_db \<Rightarrow> bet_db"

fun emergency_step :: "emergency_stop \<times> bet_db \<Rightarrow> emergency_op \<Rightarrow> emergency_stop \<times> bet_db" where
  "emergency_step (s, db) (EO_trigger P cfg q e others why) =
     (let (s1, db1, _) = emergency_trigger P cfg q e others why s db in (s1, db1))"
| "emergency_step (s, db) EO_reset = (emergency_reset s, db)"
| "emergency_step (s, db) (EO_write f) = (s, f db)"

fun no_reset :: "emergency_op \<Rightarrow> bool" where
  "no_reset EO_reset = False"
| "no_reset _ = True"

text \<open>What the rest of the program writes in a run.\<close>

fun writes :: "emergency_op list \<Rightarrow> bet_db \<Rightarrow> bet_db" where
  "writes [] db = db"
| "writes (EO_write f # ops) db = writes ops (f db)"
| "writes (_ # ops) db = writes ops db"

lemma emergency_step_stopped:
  "isTriggered s \<Longrightarrow> no_reset e \<Longrightarrow> emergency_step (s, db) e = (s, writes [e] db)"
  by (cases e) (simp_all add: isTriggered_def emergency_trigger_def)

lemma writes_Cons: "writes (e # ops) db = writes ops (writes [e] db)"
  by (cases e) simp_all

lemma stopped_run:
  "isTriggered s \<Longrightarrow> list_all no_reset ops \<Longrightarrow> foldl emergency_step (s, db) ops = (s, writes ops db)"
proof (induction ops arbitrary: db)
  case Nil
  then show ?case by simp
next
  case (Cons e ops)
  then show ?case by (simp add: emergency_step_stopped writes_Cons [of e ops])
qed

lemma trigger_unless_triggered:
  assumes "\<not> isTriggered s"
  obtains s1 db1 res where "emergency_trigger P cfg q e others why s db = (s1, db1, res, True)"
    and "isTriggered s1" and "es_triggerReason s1 = Some why"
  using assms
  by (cases "if ec_attemptCancelPending cfg then cancelPendingBets P q others db else (db, 0)")
    (auto simp: emergency_trigger_def isTriggered_def Let_def)

section \<open>Properties\<close>

text \<open>
  Without the optional tables nothing is stored: the failed statement aborts the
  transaction, the ignored error does not undo that, and \<open>COMMIT\<close> rolls everything back, while \<open>create\<close> and
  a change of state by \<open>update\<close> return the row as if it had been written.
\<close>

theorem missing_tables_lose_every_write:
  assumes "pg_laws P" and "pg_connect_error P = None" and "\<not> pg_has_financial P"
    and "bet_findById i db = Some r" and "ub_state u = Some st" and "st \<noteq> br_state r"
  shows "fst (bet_create P newId now inp db) = db \<and> (\<exists>row. snd (bet_create P newId now inp db) = Inr row) \<and>
    fst (bet_update P i u db) = db \<and> snd (bet_update P i u db) = Inr (Some (apply_update u r))"
proof -
  have "u \<noteq> no_update" using assms(5) by (auto simp: no_update_def)
  then show ?thesis
    using assms by (simp add: bet_create_def bet_update_def pg_commit_laws Let_def)
qed

definition demo_pg :: "bool \<Rightarrow> pg_env" where
  "demo_pg tables = \<lparr>pg_connect_error = None, pg_has_financial = tables, pg_has_outbox = tables,
     pg_commit = (\<lambda>failed before after. if failed then before else after)\<rparr>"

lemma demo_pg_laws: "pg_laws (demo_pg t)"
  by (simp add: pg_laws_def demo_pg_def)

definition demo_row :: "string \<Rightarrow> bet_state \<Rightarrow> int \<Rightarrow> bet_row" where
  "demo_row i st t = \<lparr>br_id = i, br_sessionId = None, br_roundId = Some ''r1'', br_dailyKey = ''d1'', br_stake = Fin 700,
     br_cashOutTarget = Fin 2, br_state = st, br_observed = None, br_confirmed = None, br_pnl = None,
     br_balanceBefore = None, br_balanceAfter = None, br_failureReason = None, br_createdAt = t\<rparr>"

theorem missing_tables_lose_every_write_witness:
  "let db = \<lparr>bd_rows = [demo_row ''b1'' BS_PENDING 0], bd_financial = [], bd_outbox = []\<rparr>
   in fst (bet_updateState (demo_pg False) ''b1'' BS_CONFIRMED None db) = db"
proof -
  let ?db = "\<lparr>bd_rows = [demo_row ''b1'' BS_PENDING 0], bd_financial = [], bd_outbox = []\<rparr>"
  have "fst (bet_update (demo_pg False) ''b1'' (no_update\<lparr>ub_state := Some BS_CONFIRMED\<rparr>) ?db) = ?db"
    using missing_tables_lose_every_write [OF demo_pg_laws, of False "''b1''" ?db "demo_row ''b1'' BS_PENDING 0"
        "no_update\<lparr>ub_state := Some BS_CONFIRMED\<rparr>" BS_CONFIRMED]
    by (simp add: demo_pg_def demo_row_def bet_findById_def)
  then show ?thesis by (simp add: bet_updateState_def no_update_def)
qed

text \<open>
  C23. One incident, one emergency stop: from a trigger of a stop that was not triggered until the reset by an
  operator, whatever is written in between and however often it is triggered again, the stop stays triggered with the
  reason and the result of that first trigger, and no later trigger cancels a bet (the table has what the
  first trigger left and what the rest of the program wrote). The reset arms it again and forgets the reason, and the next
  trigger halts the executors again.
\<close>

theorem emergency_stop_lasts_until_reset:
  assumes "\<not> isTriggered s" and "list_all no_reset ops"
  shows "let (s1, db1) = emergency_step (s, db) (EO_trigger P cfg q e others why);
      (s2, db2) = foldl emergency_step (s1, db1) ops;
      (s3, db3) = emergency_step (s2, db2) EO_reset;
      (s4, db4, res, halted) = emergency_trigger P' cfg' q' e' others' why' s3 db3
    in isTriggered s2 \<and> es_triggerReason s2 = Some why \<and> es_lastResult s2 = es_lastResult s1 \<and> db2 = writes ops db1 \<and>
       \<not> isTriggered s3 \<and> es_triggerReason s3 = None \<and> db3 = db2 \<and>
       isTriggered s4 \<and> es_triggerReason s4 = Some why' \<and> halted"
proof -
  obtain s1 db1 res1 where first: "emergency_trigger P cfg q e others why s db = (s1, db1, res1, True)"
    and s1: "isTriggered s1" "es_triggerReason s1 = Some why"
    by (rule trigger_unless_triggered [OF assms(1)])
  have s3: "\<not> isTriggered (emergency_reset s1)" "es_triggerReason (emergency_reset s1) = None"
    using s1(1) by (simp_all add: emergency_reset_def isTriggered_def)
  obtain s4 db4 res4 where "emergency_trigger P' cfg' q' e' others' why' (emergency_reset s1) (writes ops db1) =
      (s4, db4, res4, True)" "isTriggered s4" "es_triggerReason s4 = Some why'"
    by (rule trigger_unless_triggered [OF s3(1)])
  then show ?thesis using s1 s3 by (simp add: first stopped_run [OF s1(1) assms(2)])
qed

theorem emergency_stop_lasts_until_reset_witness:
  "let db = \<lparr>bd_rows = [demo_row ''b1'' BS_PENDING 0], bd_financial = [], bd_outbox = []\<rparr>;
      again = EO_trigger (demo_pg True) emergency_default True True id ''y'';
      (s1, db1) = emergency_step (emergency_new, db) (EO_trigger (demo_pg True) emergency_default True True id ''x'');
      (s2, db2) = foldl emergency_step (s1, db1) [EO_write (\<lambda>_. db), again];
      (s3, db3) = emergency_step (s2, db2) EO_reset;
      (s4, db4, res, halted) = emergency_trigger (demo_pg True) emergency_default True True id ''z'' s3 db3
    in isTriggered s2 \<and> es_triggerReason s2 = Some ''x'' \<and> es_lastResult s2 = es_lastResult s1 \<and>
       db2 = writes [EO_write (\<lambda>_. db), again] db1 \<and>
       \<not> isTriggered s3 \<and> es_triggerReason s3 = None \<and> db3 = db2 \<and>
       isTriggered s4 \<and> es_triggerReason s4 = Some ''z'' \<and> halted"
  unfolding Let_def
  by (rule emergency_stop_lasts_until_reset [unfolded Let_def]) (simp_all add: emergency_new_def isTriggered_def)

text \<open>
  The stop cancels on a stale reading: a bet that was PENDING when it was read is set to
  FAILED although it has been confirmed in the meantime.
\<close>

theorem emergency_stop_fails_confirmed_bet:
  "let db = \<lparr>bd_rows = [demo_row i BS_PENDING t], bd_financial = [], bd_outbox = []\<rparr>;
       confirm = (\<lambda>d. fst (bet_updateState (demo_pg True) i BS_CONFIRMED None d));
       (s2, db2, res, halted) = emergency_trigger (demo_pg True) emergency_default True emit_ok confirm why emergency_new db
   in map_option br_state (bet_findById i (confirm db)) = Some BS_CONFIRMED \<and>
      map_option br_state (bet_findById i db2) = Some BS_FAILED \<and> em_cancelledPendingBets res = 1"
  by (simp add: emergency_trigger_def emergency_new_def emergency_default_def cancelPendingBets_def
      bet_findByState_def demo_row_def demo_pg_def bet_updateState_def bet_update_def bet_findById_def
      apply_update_def no_update_def Let_def)

end
