(* ===== verification/Recovery.thy ===== *)
theory Recovery
  imports BetStore
begin

text \<open>
  \<open>UnknownStateRecovery\<close> and \<open>BalanceReconciliation\<close> of \<open>src/src/ledger\<close> and the \<open>RecoveryManager\<close> of
  \<open>src/src/core/recovery-manager.ts\<close>, which decides from both whether betting may resume. The bets are the
  table of \<open>BetStore\<close>; the history of rounds, the settlement evidence and the aggregates of the
  balance query are arguments, each with the error it may end in.
\<close>

section \<open>Settlement evidence\<close>

datatype evidence_status = ES_CASHED_OUT | ES_LOST | ES_FAILED

record settlement_evidence =
  se_status :: "evidence_status option"
  se_cashOutMultiplier :: "jsnum option"
  se_externalReference :: "string option"
  se_source :: string

fun state_of_evidence :: "evidence_status \<Rightarrow> bet_state" where
  "state_of_evidence ES_CASHED_OUT = BS_CASHED_OUT"
| "state_of_evidence ES_LOST = BS_LOST"
| "state_of_evidence ES_FAILED = BS_FAILED"

record recovery_result =
  rv_betId :: string
  rv_newState :: bet_state
  rv_resolved :: bool
  rv_pnl :: "jsnum option"
  rv_multiplier :: "jsnum option"

text \<open>
  \<open>rn_round\<close>: the look-up of a round throws (\<^const>\<open>Inl\<close>), finds none or finds one; \<open>rn_provider\<close> is
  \<^const>\<open>None\<close> when no evidence provider is configured.
\<close>

record recovery_env =
  rn_round :: "string \<Rightarrow> string + bool"
  rn_provider :: "(bet_row \<Rightarrow> string + settlement_evidence) option"
  rn_pg :: pg_env

definition unresolved :: "bet_row \<Rightarrow> recovery_result" where
  "unresolved b = \<lparr>rv_betId = br_id b, rv_newState = BS_UNKNOWN, rv_resolved = False, rv_pnl = None, rv_multiplier = None\<rparr>"

definition settlement_pnl :: "jsnum \<Rightarrow> evidence_status \<Rightarrow> jsnum option \<Rightarrow> jsnum" where
  "settlement_pnl stake st multiplier =
     (case (st, multiplier) of
        (ES_CASHED_OUT, Some m) \<Rightarrow> jdiv (js_round (jmul (jsub (jmul stake m) stake) (Fin 100))) (Fin 100)
      | (ES_LOST, _) \<Rightarrow> jneg stake
      | _ \<Rightarrow> Fin 0)"

definition settlement_reason :: "settlement_evidence \<Rightarrow> string" where
  "settlement_reason ev =
     ''Authoritative settlement: '' @ se_source ev @ ''; externalReference='' @ or_else (se_externalReference ev) ''none''"

definition evidence_update :: "jsnum \<Rightarrow> evidence_status \<Rightarrow> settlement_evidence \<Rightarrow> update_bet_input" where
  "evidence_update stake st ev =
     (let multiplier = (if st = ES_CASHED_OUT then se_cashOutMultiplier ev else None)
      in no_update\<lparr>ub_state := Some (state_of_evidence st), ub_confirmed := Some multiplier,
           ub_observed := Some multiplier, ub_pnl := Some (Some (settlement_pnl stake st multiplier)),
           ub_failureReason := Some (Some (settlement_reason ev))\<rparr>)"

definition recoverBet :: "recovery_env \<Rightarrow> bet_row \<Rightarrow> bet_db \<Rightarrow> bet_db \<times> recovery_result" where
  "recoverBet env bet db =
     (if \<not> truthy_str (br_roundId bet) then (db, unresolved bet)
      else case rn_round env (the (br_roundId bet)) of
        Inl err \<Rightarrow> (db, unresolved bet)
      | Inr False \<Rightarrow> (db, unresolved bet)
      | Inr True \<Rightarrow>
          (case rn_provider env of
             None \<Rightarrow> (db, unresolved bet)
           | Some provider \<Rightarrow>
               (case provider bet of
                  Inl err \<Rightarrow> (db, unresolved bet)
                | Inr ev \<Rightarrow>
                    (case se_status ev of
                       None \<Rightarrow> (db, unresolved bet)
                     | Some st \<Rightarrow>
                         (case bet_update (rn_pg env) (br_id bet) (evidence_update (br_stake bet) st ev) db of
                            (db1, Inl err) \<Rightarrow> (db1, unresolved bet)
                          | (db1, Inr _) \<Rightarrow>
                              (db1, \<lparr>rv_betId = br_id bet, rv_newState = state_of_evidence st, rv_resolved = True,
                                 rv_pnl = Option.bind (ub_pnl (evidence_update (br_stake bet) st ev)) id,
                                 rv_multiplier = Option.bind (ub_confirmed (evidence_update (br_stake bet) st ev)) id\<rparr>))))))"

section \<open>The sweep\<close>

record sweep_result =
  sw_totalUnknown :: nat
  sw_resolved :: nat
  sw_manualReviewRequired :: nat
  sw_stillUnknown :: nat
  sw_results :: "recovery_result list"

fun sweep_loop :: "recovery_env \<Rightarrow> bet_row list \<Rightarrow> bet_db \<Rightarrow> bet_db \<times> recovery_result list" where
  "sweep_loop env [] db = (db, [])"
| "sweep_loop env (b # bs) db =
     (let (db1, r) = recoverBet env b db; (db2, rs) = sweep_loop env bs db1 in (db2, r # rs))"

text \<open>
  \<open>busy\<close>: a sweep is under way (\<open>isReconciling\<close>); \<open>find_error\<close>: the query for the unknown bets throws;
  \<open>alert_error\<close>: the emission of the alert does. Either error ends the sweep with \<open>RECOVERY_SWEEP_FAILED\<close>.
\<close>

definition runRecoverySweep ::
  "recovery_env \<Rightarrow> nat \<Rightarrow> bool \<Rightarrow> string option \<Rightarrow> string option \<Rightarrow> bet_db \<Rightarrow> bet_db \<times> (string + sweep_result)" where
  "runRecoverySweep env maxBetsPerSweep busy find_error alert_error db =
     (if busy
      then (db, Inr \<lparr>sw_totalUnknown = 0, sw_resolved = 0, sw_manualReviewRequired = 0, sw_stillUnknown = 0, sw_results = []\<rparr>)
      else case find_error of
        Some err \<Rightarrow> (db, Inl err)
      | None \<Rightarrow>
          let bets = findUnknownBets maxBetsPerSweep db;
              (db1, results) = sweep_loop env bets db;
              resolved = length (filter rv_resolved results);
              manual = length results - resolved
          in (db1, if manual > 0 \<and> alert_error \<noteq> None then Inl (the alert_error)
                   else Inr \<lparr>sw_totalUnknown = length bets, sw_resolved = resolved,
                          sw_manualReviewRequired = manual, sw_stillUnknown = manual, sw_results = results\<rparr>))"

text \<open>\<open>manualResolve\<close>: the operator's word, for a bet that is UNKNOWN.\<close>

datatype manual_error = MANUAL_RESOLVE_NOT_FOUND | MANUAL_RESOLVE_INVALID_STATE bet_state | MANUAL_UPDATE string

definition manualResolve ::
  "pg_env \<Rightarrow> string \<Rightarrow> bet_state \<Rightarrow> jsnum \<Rightarrow> jsnum option \<Rightarrow> bet_db \<Rightarrow> bet_db \<times> (manual_error + recovery_result)" where
  "manualResolve P i newState pnl multiplier db =
     (case bet_findById i db of
        None \<Rightarrow> (db, Inl MANUAL_RESOLVE_NOT_FOUND)
      | Some bet \<Rightarrow>
          if br_state bet \<noteq> BS_UNKNOWN then (db, Inl (MANUAL_RESOLVE_INVALID_STATE (br_state bet)))
          else case bet_update P i (no_update\<lparr>ub_state := Some newState, ub_confirmed := Some multiplier,
                       ub_observed := Some multiplier, ub_pnl := Some (Some pnl)\<rparr>) db of
                 (db1, Inl err) \<Rightarrow> (db1, Inl (MANUAL_UPDATE err))
               | (db1, Inr _) \<Rightarrow> (db1, Inr \<lparr>rv_betId = i, rv_newState = newState, rv_resolved = True,
                                     rv_pnl = Some pnl, rv_multiplier = multiplier\<rparr>))"

section \<open>Balance reconciliation\<close>

record balance_config =
  bk_tolerance :: jsnum
  bk_emitAlerts :: bool
  bk_haltOnMismatch :: bool

definition balance_default :: balance_config where
  "balance_default = \<lparr>bk_tolerance = lit (1/100), bk_emitAlerts = True, bk_haltOnMismatch = True\<rparr>"

record balance_result =
  bz_reconciled :: bool
  bz_expectedBalance :: jsnum
  bz_actualBalance :: jsnum
  bz_difference :: jsnum
  bz_withinTolerance :: bool
  bz_unresolvedBets :: nat
  bz_alertSent :: bool

record balance_recon =
  bl_lastResult :: "balance_result option"
  bl_consecutiveMismatches :: nat

text \<open>
  The answers of the database and the tracker: the row of the aggregate query (baseline and sum) or its error, the
  tracked balance, whether counting the unknown bets throws, whether the alert can be emitted.
\<close>

record balance_env =
  be_aggregate :: "string + jsnum option \<times> jsnum"
  be_tracked :: "jsnum option"
  be_count_fails :: bool
  be_emit_error :: "string option"

definition computeExpectedBalance :: "balance_env \<Rightarrow> string + jsnum" where
  "computeExpectedBalance env =
     (case be_aggregate env of
        Inl err \<Rightarrow> Inl err
      | Inr (baseline, totalPnl) \<Rightarrow>
          (case baseline of
             Some b \<Rightarrow> if is_fin b then Inr (jdiv (js_round (jmul (jadd b totalPnl) (Fin 100))) (Fin 100))
                       else Inr (or_else (be_tracked env) (Fin 0))
           | None \<Rightarrow> Inr (or_else (be_tracked env) (Fin 0))))"

text \<open>An error of the count reads as no unresolved bet.\<close>

definition countUnresolvedBets :: "balance_env \<Rightarrow> bet_db \<Rightarrow> nat" where
  "countUnresolvedBets env db = (if be_count_fails env then 0 else countByState BS_UNKNOWN db)"

definition shouldHalt :: "balance_recon \<Rightarrow> bool" where
  "shouldHalt r \<longleftrightarrow> bl_consecutiveMismatches r \<ge> 3"

definition br_reconcile ::
  "balance_config \<Rightarrow> balance_env \<Rightarrow> jsnum option \<Rightarrow> bet_db \<Rightarrow> balance_recon \<Rightarrow> balance_recon \<times> (string + balance_result)" where
  "br_reconcile cfg env actualBalance db r =
     (case computeExpectedBalance env of
        Inl err \<Rightarrow> (r, Inl err)
      | Inr expected \<Rightarrow>
          (case (case actualBalance of Some a \<Rightarrow> Some a | None \<Rightarrow> be_tracked env) of
             None \<Rightarrow>
               let res = \<lparr>bz_reconciled = False, bz_expectedBalance = expected, bz_actualBalance = NaN,
                     bz_difference = NaN, bz_withinTolerance = False,
                     bz_unresolvedBets = countUnresolvedBets env db, bz_alertSent = False\<rparr>
               in (r\<lparr>bl_lastResult := Some res\<rparr>, Inr res)
           | Some actual \<Rightarrow>
               let difference = jdiv (js_round (jmul (jsub actual expected) (Fin 100))) (Fin 100);
                   matches = jle (jabs difference) (bk_tolerance cfg);
                   unresolvedBets = countUnresolvedBets env db;
                   res = \<lparr>bz_reconciled = (matches \<and> unresolvedBets = 0), bz_expectedBalance = expected,
                     bz_actualBalance = actual, bz_difference = difference, bz_withinTolerance = matches,
                     bz_unresolvedBets = unresolvedBets, bz_alertSent = (\<not> matches \<and> bk_emitAlerts cfg)\<rparr>;
                   r1 = r\<lparr>bl_consecutiveMismatches := (if matches then 0 else bl_consecutiveMismatches r + 1)\<rparr>
               in if \<not> matches \<and> be_emit_error env \<noteq> None \<and>
                     (bk_emitAlerts cfg \<or> bk_haltOnMismatch cfg \<and> shouldHalt r1)
                  then (r1, Inl (the (be_emit_error env)))
                  else (r1\<lparr>bl_lastResult := Some res\<rparr>, Inr res)))"

definition hasMismatch :: "balance_recon \<Rightarrow> bool" where
  "hasMismatch r \<longleftrightarrow> (case bl_lastResult r of None \<Rightarrow> False | Some res \<Rightarrow> \<not> bz_withinTolerance res)"


section \<open>The recovery manager\<close>

datatype recovery_phase = RP_idle | RP_checking | RP_reconciling_bets | RP_reconciling_balance | RP_resuming | RP_failed

record recovery_config =
  rk_haltDuringRecovery :: bool
  rk_requireZeroUnknownBeforeResume :: bool
  rk_requireBalanceReconciliationBeforeResume :: bool

definition recovery_default :: recovery_config where
  "recovery_default = \<lparr>rk_haltDuringRecovery = True, rk_requireZeroUnknownBeforeResume = True,
     rk_requireBalanceReconciliationBeforeResume = True\<rparr>"

record recovery_outcome =
  ro_phase :: recovery_phase
  ro_betRecovery :: "sweep_result option"
  ro_balance :: "balance_result option"
  ro_canResume :: bool
  ro_errors :: "string list"

record recovery_manager =
  rm_phase :: recovery_phase
  rm_lastResult :: "recovery_outcome option"
  rm_halted :: bool

definition recovery_new :: recovery_manager where
  "recovery_new = \<lparr>rm_phase = RP_idle, rm_lastResult = None, rm_halted = False\<rparr>"

definition rm_isHalted :: "recovery_manager \<Rightarrow> bool" where
  "rm_isHalted m \<longleftrightarrow> rm_halted m \<or> rm_phase m \<noteq> RP_idle"

definition evaluateResumption ::
  "recovery_config \<Rightarrow> sweep_result option \<Rightarrow> balance_result option \<Rightarrow> string list \<Rightarrow> bool" where
  "evaluateResumption cfg betRecovery balance errors =
     (if errors \<noteq> [] then False
      else if rk_requireZeroUnknownBeforeResume cfg \<and>
              (case betRecovery of Some s \<Rightarrow> sw_stillUnknown s | None \<Rightarrow> 0) > 0 then False
      else if rk_requireBalanceReconciliationBeforeResume cfg \<and>
              (case balance of Some b \<Rightarrow> \<not> bz_reconciled b | None \<Rightarrow> False) then False
      else True)"

text \<open>
  The outcomes of the calls of one recovery: the first count, the two queries of the sweep, and the emissions of
  \<open>SystemPaused\<close> and \<open>SystemResumed\<close>.
\<close>

record manager_env =
  mg_recovery :: recovery_env
  mg_maxBets :: nat
  mg_busy :: bool
  mg_count_error :: "string option"
  mg_find_error :: "string option"
  mg_alert_error :: "string option"
  mg_pause_error :: "string option"
  mg_resume_error :: "string option"
  mg_balance_config :: balance_config
  mg_balance :: balance_env

definition crashed_recovery :: "string \<Rightarrow> recovery_manager \<Rightarrow> recovery_manager \<times> recovery_outcome" where
  "crashed_recovery err m =
     (let res = \<lparr>ro_phase = RP_failed, ro_betRecovery = None, ro_balance = None, ro_canResume = False, ro_errors = [err]\<rparr>
      in (m\<lparr>rm_phase := RP_failed, rm_halted := True, rm_lastResult := Some res\<rparr>, res))"

definition runRecovery ::
  "recovery_config \<Rightarrow> manager_env \<Rightarrow> bet_db \<Rightarrow> balance_recon \<Rightarrow> recovery_manager \<Rightarrow>
     bet_db \<times> balance_recon \<times> recovery_manager \<times> recovery_outcome" where
  "runRecovery cfg env db bal m =
     (case mg_count_error env of
        Some err \<Rightarrow> (db, bal, crashed_recovery err m)
      | None \<Rightarrow>
          let unknownCount = countByState BS_UNKNOWN db;
              halt = (unknownCount > 0 \<and> rk_haltDuringRecovery cfg)
          in if halt \<and> mg_pause_error env \<noteq> None
             then (db, bal, crashed_recovery (the (mg_pause_error env)) m)
             else
               let (db1, sweep) =
                     (if unknownCount > 0
                      then map_prod id Some (runRecoverySweep (mg_recovery env) (mg_maxBets env) (mg_busy env)
                             (mg_find_error env) (mg_alert_error env) db)
                      else (db, None));
                   betRecovery = (case sweep of Some (Inr s) \<Rightarrow> Some s | _ \<Rightarrow> None);
                   errors1 = (case sweep of Some (Inl err) \<Rightarrow> [''Bet recovery failed: '' @ err] | _ \<Rightarrow> []);
                   (bal1, recon) = br_reconcile (mg_balance_config env) (mg_balance env) None db1 bal;
                   balance = (case recon of Inr b \<Rightarrow> Some b | Inl _ \<Rightarrow> None);
                   errors = errors1 @ (case recon of Inl err \<Rightarrow> [''Balance reconciliation failed: '' @ err] | Inr _ \<Rightarrow> []);
                   canResume = evaluateResumption cfg betRecovery balance errors
               in if canResume \<and> mg_resume_error env \<noteq> None
                  then (db1, bal1, crashed_recovery (the (mg_resume_error env)) m)
                  else let res = \<lparr>ro_phase = (if canResume then RP_idle else RP_failed), ro_betRecovery = betRecovery,
                             ro_balance = balance, ro_canResume = canResume, ro_errors = errors\<rparr>
                       in (db1, bal1, m\<lparr>rm_halted := \<not> canResume, rm_lastResult := Some res, rm_phase := ro_phase res\<rparr>, res))"

datatype force_resume_error = FE_missing | FE_unknown_bets nat | FE_count string

definition forceResume ::
  "string option \<Rightarrow> string \<Rightarrow> string option \<Rightarrow> bet_db \<Rightarrow> recovery_manager \<Rightarrow> recovery_manager \<times> force_resume_error option" where
  "forceResume count_error operatorId why db m =
     (if operatorId = '''' \<or> (\<not> truthy_str why \<or> js_blank (the why)) then (m, Some FE_missing)
      else case count_error of
        Some err \<Rightarrow> (m, Some (FE_count err))
      | None \<Rightarrow>
          if countByState BS_UNKNOWN db > 0 then (m, Some (FE_unknown_bets (countByState BS_UNKNOWN db)))
          else (m\<lparr>rm_halted := False, rm_phase := RP_idle\<rparr>, None))"

section \<open>What a sweep does\<close>

text \<open>The provider's verdict on a bet, if the program gets to ask for it and gets one.\<close>

definition verdict :: "recovery_env \<Rightarrow> bet_row \<Rightarrow> evidence_status option" where
  "verdict env b =
     (case rn_provider env of
        Some provider \<Rightarrow>
          (case provider b of
             Inr ev \<Rightarrow> if truthy_str (br_roundId b) \<and> rn_round env (the (br_roundId b)) = Inr True then se_status ev else None
           | Inl _ \<Rightarrow> None)
      | None \<Rightarrow> None)"

lemma recoverBet_silent: "verdict env b = None \<Longrightarrow> recoverBet env b db = (db, unresolved b)"
  by (auto simp: verdict_def recoverBet_def split: option.splits sum.splits bool.splits)

lemma recoverBet_decided:
  assumes "verdict env b = Some st"
  obtains ev where "recoverBet env b db =
      (case bet_update (rn_pg env) (br_id b) (evidence_update (br_stake b) st ev) db of
         (db1, Inl err) \<Rightarrow> (db1, unresolved b)
       | (db1, Inr _) \<Rightarrow> (db1, \<lparr>rv_betId = br_id b, rv_newState = state_of_evidence st, rv_resolved = True,
           rv_pnl = Option.bind (ub_pnl (evidence_update (br_stake b) st ev)) id,
           rv_multiplier = Option.bind (ub_confirmed (evidence_update (br_stake b) st ev)) id\<rparr>))"
  using assms by (auto simp: verdict_def recoverBet_def split: option.splits sum.splits if_splits)

lemma recoverBet_result: "rv_resolved (snd (recoverBet env b db)) \<Longrightarrow> verdict env b \<noteq> None"
  by (rule ccontr) (simp add: recoverBet_silent unresolved_def)

lemma recoverBet_other:
  assumes "pg_laws (rn_pg env)" "j \<noteq> br_id b"
  shows "bet_findById j (fst (recoverBet env b db)) = bet_findById j db"
proof (cases "verdict env b")
  case None
  then show ?thesis by (simp add: recoverBet_silent)
next
  case (Some st)
  then obtain ev where "recoverBet env b db =
      (case bet_update (rn_pg env) (br_id b) (evidence_update (br_stake b) st ev) db of
         (db1, Inl err) \<Rightarrow> (db1, unresolved b)
       | (db1, Inr _) \<Rightarrow> (db1, \<lparr>rv_betId = br_id b, rv_newState = state_of_evidence st, rv_resolved = True,
           rv_pnl = Option.bind (ub_pnl (evidence_update (br_stake b) st ev)) id,
           rv_multiplier = Option.bind (ub_confirmed (evidence_update (br_stake b) st ev)) id\<rparr>))"
    by (rule recoverBet_decided)
  then show ?thesis
    using findById_other [OF assms, of "evidence_update (br_stake b) st ev" db]
    by (auto split: prod.split sum.split)
qed

text \<open>A row after the recovery of its own bet: as it was, or settled as the verdict says.\<close>

lemma recoverBet_own:
  assumes "pg_laws (rn_pg env)"
  shows "bet_findById (br_id b) (fst (recoverBet env b db)) = bet_findById (br_id b) db \<or>
    (\<exists>st r r'. verdict env b = Some st \<and> bet_findById (br_id b) db = Some r \<and>
       bet_findById (br_id b) (fst (recoverBet env b db)) = Some r' \<and> br_state r' = state_of_evidence st)"
proof (cases "verdict env b")
  case None
  then show ?thesis by (simp add: recoverBet_silent)
next
  case (Some st)
  then obtain ev where eq: "recoverBet env b db =
      (case bet_update (rn_pg env) (br_id b) (evidence_update (br_stake b) st ev) db of
         (db1, Inl err) \<Rightarrow> (db1, unresolved b)
       | (db1, Inr _) \<Rightarrow> (db1, \<lparr>rv_betId = br_id b, rv_newState = state_of_evidence st, rv_resolved = True,
           rv_pnl = Option.bind (ub_pnl (evidence_update (br_stake b) st ev)) id,
           rv_multiplier = Option.bind (ub_confirmed (evidence_update (br_stake b) st ev)) id\<rparr>))"
    by (rule recoverBet_decided)
  let ?u = "evidence_update (br_stake b) st ev"
  have fst: "fst (recoverBet env b db) = fst (bet_update (rn_pg env) (br_id b) ?u db)"
    unfolding eq by (auto split: prod.split sum.split)
  have st: "br_state (apply_update ?u r) = state_of_evidence st" for r
    by (simp add: apply_update_def evidence_update_def Let_def)
  have find: "List.find (\<lambda>r. br_id r = i) (update_first (\<lambda>r. br_id r = i) (apply_update u) rs) =
      map_option (apply_update u) (List.find (\<lambda>r. br_id r = i) rs)" for u i rs
    by (induction rs) auto
  have "bet_findById (br_id b) (fst (bet_update (rn_pg env) (br_id b) ?u db)) = bet_findById (br_id b) db \<or>
      bet_findById (br_id b) (fst (bet_update (rn_pg env) (br_id b) ?u db)) =
        map_option (apply_update ?u) (bet_findById (br_id b) db)"
    by (auto simp: bet_update_def pg_commit_laws [OF assms] Let_def bet_findById_def find split: option.split)
  then show ?thesis unfolding fst using Some st by (cases "bet_findById (br_id b) db") auto
qed

lemma sweep_step:
  "fst (sweep_loop env (b # bs) db) = fst (sweep_loop env bs (fst (recoverBet env b db)))"
  "snd (sweep_loop env (b # bs) db) = snd (recoverBet env b db) # snd (sweep_loop env bs (fst (recoverBet env b db)))"
  by (simp_all add: Let_def split: prod.split)

declare sweep_loop.simps(2) [simp del] sweep_step [simp]

lemma sweep_length: "length (snd (sweep_loop env bs db)) = length bs"
  by (induction bs arbitrary: db) auto

lemma sweep_other:
  assumes "pg_laws (rn_pg env)" "j \<notin> br_id ` set bs"
  shows "bet_findById j (fst (sweep_loop env bs db)) = bet_findById j db"
  using assms(2)
proof (induction bs arbitrary: db)
  case Nil
  then show ?case by simp
next
  case (Cons b bs)
  then show ?case
    using recoverBet_other [OF assms(1), of j b db] Cons.IH [of "fst (recoverBet env b db)"] by auto
qed

lemma sweep_row:
  assumes "pg_laws (rn_pg env)" "distinct (map br_id bs)"
  shows "bet_findById j (fst (sweep_loop env bs db)) = bet_findById j db \<or>
    (\<exists>b \<in> set bs. \<exists>st r'. br_id b = j \<and> verdict env b = Some st \<and>
       bet_findById j (fst (sweep_loop env bs db)) = Some r' \<and> br_state r' = state_of_evidence st)"
  using assms(2)
proof (induction bs arbitrary: db)
  case Nil
  then show ?case by simp
next
  case (Cons b bs)
  define db1 where "db1 = fst (recoverBet env b db)"
  have step: "fst (sweep_loop env (b # bs) db) = fst (sweep_loop env bs db1)"
    by (simp add: db1_def)
  show ?case
  proof (cases "j = br_id b")
    case True
    then have "bet_findById j (fst (sweep_loop env bs db1)) = bet_findById j db1"
      using Cons.prems by (intro sweep_other [OF assms(1)]) auto
    then show ?thesis
      unfolding step using recoverBet_own [OF assms(1), of b db] True by (auto simp: db1_def)
  next
    case False
    then have "bet_findById j db1 = bet_findById j db"
      unfolding db1_def by (rule recoverBet_other [OF assms(1)])
    then show ?thesis unfolding step using Cons.IH [of db1] Cons.prems by auto
  qed
qed

section \<open>Properties\<close>


definition demo_recovery :: "(bet_row \<Rightarrow> string + settlement_evidence) option \<Rightarrow> recovery_env" where
  "demo_recovery provider = \<lparr>rn_round = (\<lambda>_. Inr True), rn_provider = provider, rn_pg = demo_pg True\<rparr>"


text \<open>
  C22. Recovery resumes betting only on solid ground: under the default configuration, and when the query that
  counts the unresolved bets after the sweep does not throw, a recovery that may resume ended without an error, the balance
  matches within the tolerance and no bet of the table is UNKNOWN; otherwise the manager stays halted.
\<close>

theorem resume_needs_resolved_bets:
  assumes "\<not> be_count_fails (mg_balance env)"
  shows "let (db', bal', m', res) = runRecovery recovery_default env db bal m
   in (if ro_canResume res
       then ro_errors res = [] \<and> \<not> rm_isHalted m' \<and>
         (case ro_balance res of Some b \<Rightarrow> bz_reconciled b \<and> bz_withinTolerance b | None \<Rightarrow> False) \<and>
         countByState BS_UNKNOWN db' = 0
       else rm_isHalted m')"
proof -
  have recon: "bz_withinTolerance b \<and> (be_count_fails e \<or> countByState BS_UNKNOWN d = 0)"
    if "snd (br_reconcile c e a d r) = Inr b" "bz_reconciled b" for c e a d r b
    using that
    by (auto simp: br_reconcile_def countUnresolvedBets_def Let_def split: sum.splits option.splits if_splits)
  show ?thesis
  proof (cases "mg_count_error env")
    case (Some err)
    then show ?thesis by (simp add: runRecovery_def crashed_recovery_def rm_isHalted_def Let_def)
  next
    case None
    define halt where "halt \<longleftrightarrow> countByState BS_UNKNOWN db > 0 \<and> mg_pause_error env \<noteq> None"
    show ?thesis
    proof (cases halt)
      case True
      then show ?thesis
        using None by (simp add: halt_def runRecovery_def recovery_default_def crashed_recovery_def rm_isHalted_def Let_def)
    next
      case False
      obtain db1 sweep where sw: "(if countByState BS_UNKNOWN db > 0
          then map_prod id Some (runRecoverySweep (mg_recovery env) (mg_maxBets env) (mg_busy env)
                 (mg_find_error env) (mg_alert_error env) db)
          else (db, None)) = (db1, sweep)" by fastforce
      obtain bal1 rec where rc: "br_reconcile (mg_balance_config env) (mg_balance env) None db1 bal = (bal1, rec)"
        by fastforce
      have "rec = Inr b \<Longrightarrow> bz_reconciled b \<Longrightarrow>
          bz_withinTolerance b \<and> countByState BS_UNKNOWN db1 = 0" for b
        using recon [of "mg_balance_config env" "mg_balance env" None db1 bal b] rc assms by simp
      then show ?thesis
        using None False
        by (auto simp: runRecovery_def sw rc halt_def recovery_default_def evaluateResumption_def
            crashed_recovery_def rm_isHalted_def Let_def split: option.splits sum.splits if_splits)
    qed
  qed
qed

lemmas recovery_run_defs = runRecovery_def runRecoverySweep_def sweep_loop.simps(2) findUnknownBets_def
  bet_findByState_def countByState_def demo_row_def demo_recovery_def demo_pg_def recoverBet_def truthy_str_def bet_update_def
  bet_findById_def apply_update_def evidence_update_def no_update_def recovery_default_def evaluateResumption_def
  br_reconcile_def computeExpectedBalance_def countUnresolvedBets_def balance_default_def Let_def

lemma zero_within_tolerance: "jle (jabs (jdiv (rnd (rat_of_int \<lfloor>1 / 2 :: rat\<rfloor>)) (Fin 100))) (lit (1 / 100))"
proof -
  have "\<lfloor>1 / 2 :: rat\<rfloor> = 0" by (simp add: floor_eq_iff)
  then show ?thesis by (simp add: lit_1_100 jle_def)
qed

definition demo_manager :: "bool \<Rightarrow> manager_env" where
  "demo_manager count_fails = \<lparr>mg_recovery = demo_recovery (Some (\<lambda>_. Inr \<lparr>se_status = Some ES_LOST,
       se_cashOutMultiplier = None, se_externalReference = None, se_source = ''api''\<rparr>)),
     mg_maxBets = 1, mg_busy = False, mg_count_error = None, mg_find_error = None, mg_alert_error = None,
     mg_pause_error = None, mg_resume_error = None, mg_balance_config = balance_default,
     mg_balance = \<lparr>be_aggregate = Inr (None, Fin 0), be_tracked = Some (Fin 0), be_count_fails = count_fails,
       be_emit_error = None\<rparr>\<rparr>"

theorem resume_needs_resolved_bets_witness:
  "let db = \<lparr>bd_rows = [demo_row ''b1'' BS_UNKNOWN 0], bd_financial = [], bd_outbox = []\<rparr>;
       (db', bal', m', res) = runRecovery recovery_default (demo_manager False) db
         \<lparr>bl_lastResult = None, bl_consecutiveMismatches = 0\<rparr> recovery_new
   in ro_canResume res \<and> countByState BS_UNKNOWN db' = 0"
proof -
  let ?db = "\<lparr>bd_rows = [demo_row ''b1'' BS_UNKNOWN 0], bd_financial = [], bd_outbox = []\<rparr>"
  let ?bal = "\<lparr>bl_lastResult = None, bl_consecutiveMismatches = 0\<rparr>"
  have "ro_canResume (snd (snd (snd (runRecovery recovery_default (demo_manager False) ?db ?bal recovery_new))))"
    by (simp add: demo_manager_def recovery_run_defs zero_within_tolerance)
  then show ?thesis
    using resume_needs_resolved_bets [of "demo_manager False" ?db ?bal recovery_new]
    by (simp add: demo_manager_def Let_def split: prod.splits)
qed

text \<open>
  With a count that throws the manager resumes on unknown bets: the error is read as no unresolved bet, and the bets the
  limit of the sweep left out are in no report.
\<close>

lemma failed_count_resumes:
  "let db = \<lparr>bd_rows = [demo_row ''b1'' BS_UNKNOWN 0, demo_row ''b2'' BS_UNKNOWN 1], bd_financial = [], bd_outbox = []\<rparr>;
       (db', bal', m', res) = runRecovery recovery_default (demo_manager True) db bal m
   in ro_canResume res \<and> countByState BS_UNKNOWN db' = 1"
  by (simp add: demo_manager_def recovery_run_defs zero_within_tolerance)

text \<open>
  An operator cannot force a resumption while a bet is UNKNOWN, and must give a name and a reason.
\<close>

lemma force_resume_needs_no_unknown:
  "snd (forceResume ce who why db m) = None \<Longrightarrow>
     countByState BS_UNKNOWN db = 0 \<and> who \<noteq> '''' \<and> truthy_str why \<and> \<not> rm_isHalted (fst (forceResume ce who why db m))"
  by (auto simp: forceResume_def rm_isHalted_def split: if_splits option.splits)

text \<open>A sweep accounts for each bet it looked at, and looks at no more than its limit.\<close>

lemma sweep_counts:
  assumes "runRecoverySweep env n False None alert_error db = (db', Inr s)"
  shows "sw_totalUnknown s = min n (countByState BS_UNKNOWN db) \<and> length (sw_results s) = sw_totalUnknown s \<and>
    sw_resolved s + sw_stillUnknown s = sw_totalUnknown s \<and> sw_stillUnknown s = sw_manualReviewRequired s"
proof -
  have le: "length (filter rv_resolved rs) \<le> length rs" for rs by simp
  show ?thesis
    using assms sweep_length [of env "findUnknownBets n db" db] le [of "snd (sweep_loop env (findUnknownBets n db) db)"]
    by (auto simp: runRecoverySweep_def Let_def findUnknownBets_def length_findByState split: prod.splits if_splits)
qed

text \<open>
  The limit of a sweep hides bets: with more unknown bets than it looks at, none of them is still unknown by its
  report, and a recovery that does not also require the balance resumes with unknown bets in the table.
\<close>

lemma sweep_limit_hides_unknown_bets:
  "let db = \<lparr>bd_rows = [demo_row ''b1'' BS_UNKNOWN 0, demo_row ''b2'' BS_UNKNOWN 1], bd_financial = [], bd_outbox = []\<rparr>;
       lost = (\<lambda>_. Inr \<lparr>se_status = Some ES_LOST, se_cashOutMultiplier = None, se_externalReference = None, se_source = ''api''\<rparr>);
       env = \<lparr>mg_recovery = demo_recovery (Some lost), mg_maxBets = 1, mg_busy = False, mg_count_error = None,
         mg_find_error = None, mg_alert_error = None, mg_pause_error = None, mg_resume_error = None,
         mg_balance_config = balance_default, mg_balance = balance\<rparr>;
       (db', bal', m', res) = runRecovery (recovery_default\<lparr>rk_requireBalanceReconciliationBeforeResume := False\<rparr>)
         env db bal m
   in countByState BS_UNKNOWN db' = 1 \<and> (ro_errors res = [] \<longrightarrow> ro_canResume res)"
  by (simp add: runRecovery_def runRecoverySweep_def sweep_loop.simps(2) findUnknownBets_def bet_findByState_def countByState_def
      demo_row_def demo_recovery_def demo_pg_def recoverBet_def truthy_str_def bet_update_def bet_findById_def
      apply_update_def evidence_update_def no_update_def recovery_default_def evaluateResumption_def Let_def
      split: prod.split sum.split)

text \<open>A cash-out that the provider confirms without a multiplier is booked with a profit of zero.\<close>

lemma confirmed_cashout_without_multiplier:
  "settlement_pnl stake ES_CASHED_OUT None = Fin 0"
  by (simp add: settlement_pnl_def)

end
