(* ===== verification/Calibration.thy ===== *)
theory Calibration
  imports JsNumber
begin

text \<open>
  \<open>IsotonicCalibrator\<close> of \<open>src/src/prediction/calibration/isotonic-calibrator.ts\<close>: the pool-adjacent-violators
  algorithm, whose index moves back after every merge, and the look-up of a score in its blocks.
\<close>

section \<open>An order on numbers\<close>

text \<open>
  The comparator \<open>a.p - b.p\<close> orders the finite scores as the rationals are ordered; the other numbers are put around
  them, so that the library's stable sort applies.
\<close>

instantiation jsnum :: linorder
begin

fun less_eq_jsnum :: "jsnum \<Rightarrow> jsnum \<Rightarrow> bool" where
  "less_eq_jsnum NInf _ = True"
| "less_eq_jsnum (Fin a) (Fin b) = (a \<le> b)"
| "less_eq_jsnum (Fin a) PInf = True"
| "less_eq_jsnum (Fin a) NaN = True"
| "less_eq_jsnum PInf PInf = True"
| "less_eq_jsnum PInf NaN = True"
| "less_eq_jsnum NaN NaN = True"
| "less_eq_jsnum _ _ = False"

definition less_jsnum :: "jsnum \<Rightarrow> jsnum \<Rightarrow> bool" where
  "less_jsnum a b \<longleftrightarrow> a \<le> b \<and> \<not> b \<le> a"

instance
proof
  fix a b c :: jsnum
  show "a < b \<longleftrightarrow> a \<le> b \<and> \<not> b \<le> a" by (rule less_jsnum_def)
  show "a \<le> a" by (cases a) auto
  show "a \<le> b \<Longrightarrow> b \<le> c \<Longrightarrow> a \<le> c" by (cases a; cases b; cases c) auto
  show "a \<le> b \<Longrightarrow> b \<le> a \<Longrightarrow> a = b" by (cases a; cases b) auto
  show "a \<le> b \<or> b \<le> a" by (cases a; cases b) auto
qed

end

section \<open>Pooling\<close>

record block =
  bl_weight :: nat
  bl_sumY :: nat
  bl_minX :: jsnum
  bl_maxX :: jsnum

definition block_mean :: "block \<Rightarrow> jsnum" where
  "block_mean b = jdiv (jsint (int (bl_sumY b))) (jsint (int (bl_weight b)))"

definition violates :: "block \<Rightarrow> block \<Rightarrow> bool" where
  "violates b c \<longleftrightarrow> jlt (jadd (block_mean c) (lit (1 / 10 ^ 12))) (block_mean b)"

definition merge :: "block \<Rightarrow> block \<Rightarrow> block" where
  "merge b c = \<lparr>bl_weight = bl_weight b + bl_weight c, bl_sumY = bl_sumY b + bl_sumY c,
     bl_minX = bl_minX b, bl_maxX = bl_maxX c\<rparr>"

text \<open>\<open>blocks[i] = merged; blocks.splice(i + 1, 1)\<close>.\<close>

definition merge_at :: "nat \<Rightarrow> block list \<Rightarrow> block list" where
  "merge_at i bs = take i bs @ merge (bs ! i) (bs ! (i + 1)) # drop (i + 2) bs"

lemma length_merge_at: "i + 1 < length bs \<Longrightarrow> length (merge_at i bs) = length bs - 1"
  by (auto simp: merge_at_def min_def)

text \<open>
  The \<open>while\<close> loop. It ends: a merge shortens the list by one and moves back by at most one, and the other branch
  moves forward.
\<close>

function pav_loop :: "nat \<Rightarrow> block list \<Rightarrow> block list" where
  "pav_loop i bs =
     (if i + 1 < length bs
      then if violates (bs ! i) (bs ! (i + 1))
           then pav_loop (if i > 0 then i - 1 else i) (merge_at i bs)
           else pav_loop (i + 1) bs
      else bs)"
  by pat_completeness auto
termination
  by (relation "measure (\<lambda>(i, bs). 2 * length bs - i)") (auto simp: length_merge_at)

declare pav_loop.simps [simp del]

record sample =
  sa_p :: jsnum
  sa_y :: bool

record calibrator =
  ca_blocks :: "block list"
  ca_fitted :: bool
  ca_sampleCount :: nat

definition calibrator_new :: calibrator where
  "calibrator_new = \<lparr>ca_blocks = [], ca_fitted = False, ca_sampleCount = 0\<rparr>"

definition sample_block :: "sample \<Rightarrow> block" where
  "sample_block s = \<lparr>bl_weight = 1, bl_sumY = (if sa_y s then 1 else 0), bl_minX = sa_p s, bl_maxX = sa_p s\<rparr>"

definition fit :: "sample list \<Rightarrow> calibrator \<Rightarrow> calibrator" where
  "fit pairs c =
     (if length pairs < 30 then c\<lparr>ca_fitted := False, ca_blocks := []\<rparr>
      else let blocks = pav_loop 0 (map sample_block (sort_key sa_p pairs))
           in \<lparr>ca_blocks = blocks, ca_fitted = (blocks \<noteq> []), ca_sampleCount = length pairs\<rparr>)"

definition clamp_probability :: "jsnum \<Rightarrow> jsnum" where
  "clamp_probability x = jmin (lit (99/100)) (jmax (lit (1/100)) x)"

definition calibrate :: "calibrator \<Rightarrow> jsnum \<Rightarrow> jsnum" where
  "calibrate c p =
     (if \<not> ca_fitted c \<or> ca_blocks c = [] then p
      else case List.find (\<lambda>b. jle (bl_minX b) p \<and> jle p (bl_maxX b)) (ca_blocks c) of
             Some b \<Rightarrow> clamp_probability (block_mean b)
           | None \<Rightarrow>
               if jlt p (bl_minX (hd (ca_blocks c))) then clamp_probability (block_mean (hd (ca_blocks c)))
               else clamp_probability (block_mean (last (ca_blocks c))))"

section \<open>What the loop keeps\<close>

definition total_weight :: "block list \<Rightarrow> nat" where
  "total_weight bs = sum_list (map bl_weight bs)"

definition total_sum :: "block list \<Rightarrow> nat" where
  "total_sum bs = sum_list (map bl_sumY bs)"

lemma merge_at_split:
  assumes "i + 1 < length bs"
  obtains us b c vs where "bs = us @ b # c # vs" "length us = i" "merge_at i bs = us @ merge b c # vs"
proof -
  have "bs = take i bs @ bs ! i # bs ! (i + 1) # drop (i + 2) bs"
    using assms by (simp add: Cons_nth_drop_Suc)
  then show ?thesis
    using assms that [of "take i bs" "bs ! i" "bs ! (i + 1)" "drop (i + 2) bs"] by (simp add: merge_at_def)
qed

lemma pav_totals: "total_weight (pav_loop i bs) = total_weight bs \<and> total_sum (pav_loop i bs) = total_sum bs"
proof (induction i bs rule: pav_loop.induct)
  case (1 i bs)
  show ?case
  proof (cases "i + 1 < length bs \<and> violates (bs ! i) (bs ! (i + 1))")
    case True
    then obtain us b c vs where "bs = us @ b # c # vs" "merge_at i bs = us @ merge b c # vs"
      using merge_at_split by metis
    then have "total_weight (merge_at i bs) = total_weight bs" "total_sum (merge_at i bs) = total_sum bs"
      by (simp_all add: total_weight_def total_sum_def merge_def)
    then show ?thesis using True 1 by (subst (1 2) pav_loop.simps) auto
  next
    case False
    then show ?thesis using 1 by (subst (1 2) pav_loop.simps) auto
  qed
qed

text \<open>No neighbours before the index violate the order; at the end none do.\<close>

definition pooled_below :: "nat \<Rightarrow> block list \<Rightarrow> bool" where
  "pooled_below i bs \<longleftrightarrow> (\<forall>j. j < i \<and> j + 1 < length bs \<longrightarrow> \<not> violates (bs ! j) (bs ! (j + 1)))"

lemma pooled_below_merge:
  assumes "pooled_below i bs" "i + 1 < length bs"
  shows "pooled_below (i - 1) (merge_at i bs)"
  unfolding pooled_below_def
proof (intro allI impI)
  fix j
  assume j: "j < i - 1 \<and> j + 1 < length (merge_at i bs)"
  have same: "merge_at i bs ! k = bs ! k" if "k < i" for k
    using that assms(2) by (simp add: merge_at_def nth_append)
  have "j < i \<and> j + 1 < length bs" using j assms(2) by auto
  then have "\<not> violates (bs ! j) (bs ! (j + 1))"
    using assms(1) unfolding pooled_below_def by blast
  then show "\<not> violates (merge_at i bs ! j) (merge_at i bs ! (j + 1))"
    using same [of j] same [of "j + 1"] j by (metis Suc_eq_plus1 less_diff_conv Suc_lessD)
qed

lemma pav_pooled: "pooled_below i bs \<Longrightarrow> pooled_below (length (pav_loop i bs)) (pav_loop i bs)"
proof (induction i bs rule: pav_loop.induct)
  case (1 i bs)
  show ?case
  proof (cases "i + 1 < length bs")
    case False
    then show ?thesis
      using "1.prems" by (subst (1 2) pav_loop.simps) (auto simp: pooled_below_def)
  next
    case True
    show ?thesis
    proof (cases "violates (bs ! i) (bs ! (i + 1))")
      case v: True
      have "pooled_below (if i > 0 then i - 1 else i) (merge_at i bs)"
        using pooled_below_merge [OF "1.prems" True] by (cases i) auto
      then show ?thesis using 1 True v by (subst (1 2) pav_loop.simps) simp
    next
      case v: False
      have "pooled_below (i + 1) bs"
        using "1.prems" v by (auto simp: pooled_below_def less_Suc_eq)
      then show ?thesis using 1 True v by (subst (1 2) pav_loop.simps) simp
    qed
  qed
qed

text \<open>Every block counts at least one sample and at most as many hits as samples.\<close>

definition sound_block :: "block \<Rightarrow> bool" where
  "sound_block b \<longleftrightarrow> 0 < bl_weight b \<and> bl_sumY b \<le> bl_weight b"

lemma merge_at_sound:
  assumes "i + 1 < length bs" "list_all sound_block bs"
  shows "list_all sound_block (merge_at i bs)"
proof -
  obtain us b c vs where "bs = us @ b # c # vs" "merge_at i bs = us @ merge b c # vs"
    using merge_at_split [OF assms(1)] by metis
  then show ?thesis using assms(2) by (auto simp: sound_block_def merge_def)
qed

lemma pav_sound: "list_all sound_block bs \<Longrightarrow> list_all sound_block (pav_loop i bs)"
proof (induction i bs rule: pav_loop.induct)
  case (1 i bs)
  then show ?case
    using merge_at_sound [of i bs] by (subst pav_loop.simps) simp
qed

lemma weight_le_total: "b \<in> set bs \<Longrightarrow> bl_weight b \<le> total_weight bs"
  by (auto simp: total_weight_def intro: member_le_sum_list)

lemma block_mean_number:
  assumes "sound_block b" "bl_weight b \<le> 2 ^ 53"
  shows "block_mean b \<noteq> NaN"
proof -
  have "bl_sumY b \<le> 2 ^ 53" using assms by (simp add: sound_block_def)
  then have "rnd (of_int (int (bl_sumY b))) = Fin (of_int (int (bl_sumY b)))"
    "rnd (of_int (int (bl_weight b))) = Fin (of_int (int (bl_weight b)))"
    using assms(2) by (intro rnd_of_int; simp)+
  then show ?thesis
    using assms(1) by (simp add: block_mean_def jsint_def sound_block_def)
qed

lemma clamp_bounds:
  assumes "x \<noteq> NaN"
  shows "jle (lit (1/100)) (clamp_probability x) \<and> jle (clamp_probability x) (lit (99/100))"
proof -
  have "jle (lit (1/100)) (lit (99/100))" by (simp add: lit_def rnd_mono)
  then show ?thesis
    using assms unfolding clamp_probability_def jmin_def jmax_def lit_def
    by (cases x; cases "rnd (1/100)"; cases "rnd (99/100)") (auto simp: jle_def)
qed

lemma sample_totals:
  "total_weight (map sample_block ps) = length ps"
  "total_sum (map sample_block ps) = length (filter sa_y ps)"
  by (induction ps) (auto simp: total_weight_def total_sum_def sample_block_def)

lemma fit_totals:
  assumes "30 \<le> length pairs"
  shows "total_weight (ca_blocks (fit pairs c)) = length pairs"
    and "total_sum (ca_blocks (fit pairs c)) = length (filter sa_y pairs)"
  using assms pav_totals by (simp_all add: fit_def Let_def sample_totals filter_sort)

lemma fit_fitted: "30 \<le> length pairs \<Longrightarrow> ca_fitted (fit pairs c)"
  using fit_totals(1) [of pairs c] by (auto simp: fit_def Let_def total_weight_def)

section \<open>Properties\<close>

text \<open>
  The fit terminates with pooled blocks: the loop, which moves back after each merge, always ends; no
  block of the result has a mean above that of its successor by more than the tolerance of \<open>1e-12\<close>, and the
  blocks account for every sample and every hit.
\<close>

theorem fit_pools_all_samples:
  assumes "30 \<le> length pairs"
  shows "let bs = ca_blocks (fit pairs c)
    in pooled_below (length bs) bs \<and> total_weight bs = length pairs \<and>
       total_sum bs = length (filter sa_y pairs)"
proof -
  have "pooled_below 0 bs" for bs by (simp add: pooled_below_def)
  then show ?thesis
    using assms fit_totals pav_pooled [of 0 "map sample_block (sort_key sa_p pairs)"]
    by (simp add: fit_def Let_def)
qed

definition demo_samples :: "sample list" where
  "demo_samples = replicate 15 \<lparr>sa_p = Fin (1/4), sa_y = False\<rparr> @ replicate 15 \<lparr>sa_p = Fin (3/4), sa_y = True\<rparr>"

theorem fit_pools_all_samples_witness:
  "let bs = ca_blocks (fit demo_samples calibrator_new) in total_weight bs = 30 \<and> total_sum bs = 15"
  using fit_pools_all_samples [of demo_samples calibrator_new] by (simp add: demo_samples_def Let_def)

text \<open>
  A calibrated probability of a fitted calibrator lies between the doubles 0.01 and 0.99, for every
  score.
\<close>

theorem calibrated_probability_bounds:
  assumes "ca_fitted (fit pairs c)" "length pairs \<le> 2 ^ 53"
  shows "jle (lit (1/100)) (calibrate (fit pairs c) p) \<and> jle (calibrate (fit pairs c) p) (lit (99/100))"
proof -
  define bs where "bs = pav_loop 0 (map sample_block (sort_key sa_p pairs))"
  have f: "ca_blocks (fit pairs c) = bs" "bs \<noteq> []"
    using assms(1) by (auto simp: fit_def Let_def bs_def split: if_splits)
  have "list_all sound_block (map sample_block ps)" for ps
    by (induction ps) (auto simp: sound_block_def sample_block_def)
  then have sound: "list_all sound_block bs" unfolding bs_def by (rule pav_sound)
  have "total_weight bs = length pairs" using pav_totals by (simp add: bs_def sample_totals)
  then have num: "block_mean b \<noteq> NaN" if "b \<in> set bs" for b
    using that sound assms(2) weight_le_total [OF that] by (intro block_mean_number) (auto simp: list_all_iff)
  show ?thesis
  proof (cases "List.find (\<lambda>b. jle (bl_minX b) p \<and> jle p (bl_maxX b)) bs")
    case None
    then show ?thesis using f assms(1) clamp_bounds num by (simp add: calibrate_def)
  next
    case (Some b)
    then have "b \<in> set bs" by (auto simp: find_Some_iff)
    then show ?thesis using f assms(1) Some clamp_bounds num by (simp add: calibrate_def)
  qed
qed

theorem calibrated_probability_bounds_witness:
  "jle (lit (1/100)) (calibrate (fit demo_samples calibrator_new) (Fin (1/2))) \<and>
   jle (calibrate (fit demo_samples calibrator_new) (Fin (1/2))) (lit (99/100))"
  by (rule calibrated_probability_bounds) (auto intro!: fit_fitted simp: demo_samples_def)

text \<open>
  A score that falls between two blocks gets the value of the highest block: only the scores below the first
  block are told apart. The map of the scores is therefore not monotone.
\<close>

lemma gap_score_gets_top_value:
  assumes "ca_fitted c" "ca_blocks c = b # bs @ [d]"
    and "list_all (\<lambda>e. \<not> (jle (bl_minX e) p \<and> jle p (bl_maxX e))) (ca_blocks c)" "jle (bl_minX b) p"
  shows "calibrate c p = clamp_probability (block_mean d)"
proof -
  have "List.find (\<lambda>e. jle (bl_minX e) p \<and> jle p (bl_maxX e)) (ca_blocks c) = None"
    using assms(3) by (auto simp: find_None_iff list_all_iff)
  then show ?thesis
    using assms jlt_not_jle by (auto simp: calibrate_def)
qed

end
