(* ===== verification/LiveDivergence.thy ===== *)
theory LiveDivergence
  imports JsNumber
begin

text \<open>
  \<open>LiveDivergenceMonitor\<close> of \<open>src/src/prediction/validation/live-divergence-monitor.ts\<close>: a rolling window of
  predictions and outcomes, the level it is given, and the manual recovery. The texts of the reasons, which are
  only shown, are left out. A level is the number the source uses.
\<close>

section \<open>State and values\<close>

record divergence_actions =
  da_disableDynamicThresholds :: bool
  da_disableMultiTargetSwitch :: bool
  da_disableKelly :: bool
  da_lockConservativeBaseline :: bool
  da_fullSheathHaltEntries :: bool

definition level_actions :: "nat \<Rightarrow> divergence_actions" where
  "level_actions l = \<lparr>da_disableDynamicThresholds = (1 \<le> l), da_disableMultiTargetSwitch = (2 \<le> l),
     da_disableKelly = (3 \<le> l), da_lockConservativeBaseline = (4 \<le> l), da_fullSheathHaltEntries = (5 \<le> l)\<rparr>"

record divergence_snapshot =
  dv_level :: nat
  dv_actions :: divergence_actions
  dv_windowSize :: nat
  dv_predictedMean :: jsnum
  dv_realizedRate :: jsnum
  dv_brier :: jsnum
  dv_eceProxy :: jsnum
  dv_manualRecoveryRequired :: bool

record window_point =
  wp_predicted :: jsnum
  wp_actual :: bool

record divergence_monitor =
  dm_window :: "window_point list"
  dm_maxWindow :: nat
  dm_level :: nat
  dm_manualRecoveryRequired :: bool
  dm_graceRemaining :: int

definition dm_new :: "nat \<Rightarrow> divergence_monitor" where
  "dm_new n = \<lparr>dm_window = [], dm_maxWindow = n, dm_level = 0, dm_manualRecoveryRequired = False,
     dm_graceRemaining = 0\<rparr>"

record divergence_metrics =
  dx_predictedMean :: jsnum
  dx_realizedRate :: jsnum
  dx_brier :: jsnum
  dx_ece :: jsnum

definition dm_snapshot :: "divergence_monitor \<Rightarrow> nat \<Rightarrow> divergence_metrics option \<Rightarrow> divergence_snapshot" where
  "dm_snapshot m l x = \<lparr>dv_level = l, dv_actions = level_actions l, dv_windowSize = length (dm_window m),
     dv_predictedMean = (case x of Some y \<Rightarrow> dx_predictedMean y | None \<Rightarrow> Fin 0),
     dv_realizedRate = (case x of Some y \<Rightarrow> dx_realizedRate y | None \<Rightarrow> Fin 0),
     dv_brier = (case x of Some y \<Rightarrow> dx_brier y | None \<Rightarrow> Fin 0),
     dv_eceProxy = (case x of Some y \<Rightarrow> dx_ece y | None \<Rightarrow> Fin 0),
     dv_manualRecoveryRequired = dm_manualRecoveryRequired m\<rparr>"

section \<open>The metrics\<close>

text \<open>
  The ten bins of the calibration error: count, sum of predictions, count of hits. The index of a bin is
  \<open>Math.min(9, Math.floor(predicted * 10))\<close>; it is no index when the prediction is not a number, and the
  access to the bin then raises a \<open>TypeError\<close>. The square is one rounded multiplication.
\<close>

type_synonym bin = "nat \<times> jsnum \<times> nat"

fun bin_index :: "jsnum \<Rightarrow> nat option" where
  "bin_index p = (case jmul p (Fin 10) of
     Fin q \<Rightarrow> if \<lfloor>q\<rfloor> < 0 then None else Some (min 9 (nat \<lfloor>q\<rfloor>))
   | PInf \<Rightarrow> Some 9 | _ \<Rightarrow> None)"

definition bit01 :: "bool \<Rightarrow> jsnum" where
  "bit01 b = (if b then Fin 1 else Fin 0)"

record divergence_sums =
  dw_sumP :: jsnum
  dw_sumA :: nat
  dw_brier :: jsnum
  dw_bins :: "bin list"

definition add_to_bin :: "window_point \<Rightarrow> bin \<Rightarrow> bin" where
  "add_to_bin w b = (case b of (c, sp, sa) \<Rightarrow>
     (c + 1, jadd sp (wp_predicted w), if wp_actual w then sa + 1 else sa))"

definition add_point :: "divergence_sums option \<Rightarrow> window_point \<Rightarrow> divergence_sums option" where
  "add_point acc w =
     (case acc of None \<Rightarrow> None
      | Some s \<Rightarrow> (case bin_index (wp_predicted w) of
            None \<Rightarrow> None
          | Some i \<Rightarrow>
              let d = jsub (wp_predicted w) (bit01 (wp_actual w))
              in Some \<lparr>dw_sumP = jadd (dw_sumP s) (wp_predicted w),
                       dw_sumA = (if wp_actual w then dw_sumA s + 1 else dw_sumA s),
                       dw_brier = jadd (dw_brier s) (jmul d d),
                       dw_bins = (dw_bins s)[i := add_to_bin w (dw_bins s ! i)]\<rparr>))"

definition no_sums :: divergence_sums where
  "no_sums = \<lparr>dw_sumP = Fin 0, dw_sumA = 0, dw_brier = Fin 0, dw_bins = replicate 10 (0, Fin 0, 0)\<rparr>"

definition bin_error :: "nat \<Rightarrow> jsnum \<Rightarrow> bin \<Rightarrow> jsnum" where
  "bin_error n ece b = (case b of (c, sp, sa) \<Rightarrow>
     if c = 0 then ece
     else jadd ece (jmul (jdiv (jsint (int c)) (jsint (int n)))
            (jabs (jsub (jdiv sp (jsint (int c))) (jdiv (jsint (int sa)) (jsint (int c)))))))"

definition divergence_metrics_of :: "window_point list \<Rightarrow> divergence_metrics option" where
  "divergence_metrics_of ws =
     map_option (\<lambda>s. let n = length ws in
        \<lparr>dx_predictedMean = jdiv (dw_sumP s) (jsint (int n)),
         dx_realizedRate = jdiv (jsint (int (dw_sumA s))) (jsint (int n)),
         dx_brier = jdiv (dw_brier s) (jsint (int n)),
         dx_ece = foldl (bin_error n) (Fin 0) (dw_bins s)\<rparr>)
       (foldl add_point (Some no_sums) ws)"

section \<open>The level\<close>

definition above :: "jsnum \<Rightarrow> rat \<Rightarrow> bool" where
  "above x t \<longleftrightarrow> jlt (lit t) x"

definition level_of_metrics :: "divergence_metrics \<Rightarrow> nat" where
  "level_of_metrics x =
     (let gap = jsub (dx_predictedMean x) (dx_realizedRate x); ece = dx_ece x; brier = dx_brier x
      in if above ece (12/100) \<or> above gap (12/100) \<or> above brier (35/100) then 5
         else if above ece (10/100) \<or> above gap (10/100) \<or> above brier (30/100) then 4
         else if above ece (8/100) \<or> above gap (8/100) then 3
         else if above ece (6/100) \<or> above gap (6/100) then 2
         else if above ece (5/100) \<or> above gap (5/100) then 1
         else 0)"

text \<open>A result is a snapshot or, on the left, the exception.\<close>

definition dm_evaluate :: "divergence_monitor \<Rightarrow> divergence_monitor \<times> (string + divergence_snapshot)" where
  "dm_evaluate m =
     (if length (dm_window m) < 50 then (m, Inr (dm_snapshot m 0 None))
      else case divergence_metrics_of (dm_window m) of
        None \<Rightarrow> (m, Inl ''TypeError'')
      | Some x \<Rightarrow>
          let new = (if \<not> dm_manualRecoveryRequired m \<and> dm_graceRemaining m \<le> 0 then level_of_metrics x
                     else dm_level m);
              m' = (if dm_level m < new
                    then m\<lparr>dm_level := new,
                           dm_manualRecoveryRequired := (dm_manualRecoveryRequired m \<or> 3 \<le> new)\<rparr>
                    else if new < dm_level m \<and> \<not> dm_manualRecoveryRequired m then m\<lparr>dm_level := new\<rparr>
                    else m)
          in (m', Inr (dm_snapshot m' (dm_level m') (Some x))))"

definition push_window :: "nat \<Rightarrow> 'a list \<Rightarrow> 'a \<Rightarrow> 'a list" where
  "push_window n ws w = (let ws' = ws @ [w] in if n < length ws' then tl ws' else ws')"

definition dm_observe ::
  "divergence_monitor \<Rightarrow> jsnum \<Rightarrow> bool \<Rightarrow> divergence_monitor \<times> (string + divergence_snapshot)" where
  "dm_observe m predicted actual =
     dm_evaluate (m\<lparr>
       dm_window := push_window (dm_maxWindow m) (dm_window m)
         \<lparr>wp_predicted = jmin (lit (99/100)) (jmax (lit (1/100)) predicted), wp_actual = actual\<rparr>,
       dm_graceRemaining := (if 0 < dm_graceRemaining m then dm_graceRemaining m - 1 else dm_graceRemaining m)\<rparr>)"

definition dm_manualRecover :: "divergence_monitor \<Rightarrow> bool \<Rightarrow> divergence_monitor \<times> (string + divergence_snapshot)" where
  "dm_manualRecover m confirm =
     (if \<not> confirm then (m, Inl ''manualRecover requires explicit confirm=true'')
      else let m' = m\<lparr>dm_manualRecoveryRequired := False, dm_level := 0,
                      dm_graceRemaining := int (min (dm_maxWindow m) 100)\<rparr>
           in (m', Inr (dm_snapshot m' 0 None)))"

definition dm_getLevel :: "divergence_monitor \<Rightarrow> nat" where
  "dm_getLevel m = dm_level m"

definition dm_getActions :: "divergence_monitor \<Rightarrow> divergence_actions" where
  "dm_getActions m = level_actions (dm_level m)"

section \<open>What the operations keep\<close>

datatype dm_event = Observed jsnum bool | Evaluated | Recover bool

fun dm_step :: "divergence_monitor \<Rightarrow> dm_event \<Rightarrow> divergence_monitor" where
  "dm_step m (Observed p a) = fst (dm_observe m p a)"
| "dm_step m Evaluated = fst (dm_evaluate m)"
| "dm_step m (Recover c) = fst (dm_manualRecover m c)"

lemma level_of_metrics_le: "level_of_metrics x \<le> 5"
  by (simp add: level_of_metrics_def Let_def)

lemma dm_evaluate_frame:
  "dm_window (fst (dm_evaluate m)) = dm_window m" "dm_maxWindow (fst (dm_evaluate m)) = dm_maxWindow m"
  "dm_graceRemaining (fst (dm_evaluate m)) = dm_graceRemaining m"
  by (auto simp: dm_evaluate_def Let_def split: option.splits)

text \<open>
  The level is at most 5, a level of 3 and more is exactly one that needs the manual recovery, the window holds
  at most its size, and the grace period is at most 100 observations.
\<close>

definition dm_inv :: "nat \<Rightarrow> divergence_monitor \<Rightarrow> bool" where
  "dm_inv n m \<longleftrightarrow> dm_level m \<le> 5 \<and> (dm_manualRecoveryRequired m \<longleftrightarrow> 3 \<le> dm_level m) \<and>
     dm_maxWindow m = n \<and> length (dm_window m) \<le> n \<and> 0 \<le> dm_graceRemaining m \<and> dm_graceRemaining m \<le> 100"

lemma dm_evaluate_inv: "dm_inv n m \<Longrightarrow> dm_inv n (fst (dm_evaluate m))"
  using level_of_metrics_le
  by (auto simp: dm_evaluate_def dm_inv_def Let_def split: option.splits)

lemma length_push_window: "length ws \<le> n \<Longrightarrow> length (push_window n ws w) \<le> n"
  by (auto simp: push_window_def Let_def)

lemma dm_observe_inv: "dm_inv n m \<Longrightarrow> dm_inv n (fst (dm_observe m p a))"
  unfolding dm_observe_def by (rule dm_evaluate_inv) (auto simp: dm_inv_def length_push_window)

interpretation dm: started dm_step "dm_inv n" "dm_new n" for n
proof
  fix m e
  assume "dm_inv n m"
  then show "dm_inv n (dm_step m e)"
    by (cases e) (simp_all add: dm_observe_inv dm_evaluate_inv, simp add: dm_manualRecover_def dm_inv_def Let_def)
qed (simp add: dm_inv_def dm_new_def)

text \<open>While a manual recovery is required, only a confirmed one changes the level.\<close>

fun not_recovered :: "dm_event \<Rightarrow> bool" where
  "not_recovered (Recover c) = (\<not> c)"
| "not_recovered _ = True"

definition dm_frozen :: "nat \<Rightarrow> divergence_monitor \<Rightarrow> bool" where
  "dm_frozen l m \<longleftrightarrow> dm_manualRecoveryRequired m \<and> dm_level m = l"

lemma dm_evaluate_frozen: "dm_frozen l m \<Longrightarrow> dm_frozen l (fst (dm_evaluate m))"
  by (auto simp: dm_evaluate_def dm_frozen_def Let_def split: option.splits)

interpretation frozen: persists dm_step not_recovered "dm_frozen l" for l
proof
  fix m e
  assume *: "dm_frozen l m" "not_recovered e"
  then show "dm_frozen l (dm_step m e)"
    by (cases e) (auto simp: dm_observe_def dm_manualRecover_def intro!: dm_evaluate_frozen, simp_all add: dm_frozen_def)
qed

text \<open>The window of the observations.\<close>

definition clamped_point :: "jsnum \<times> bool \<Rightarrow> window_point" where
  "clamped_point pa = \<lparr>wp_predicted = jmin (lit (99/100)) (jmax (lit (1/100)) (fst pa)), wp_actual = snd pa\<rparr>"

fun observed_points :: "dm_event list \<Rightarrow> window_point list" where
  "observed_points [] = []"
| "observed_points (Observed p a # es) = clamped_point (p, a) # observed_points es"
| "observed_points (_ # es) = observed_points es"

lemma push_window_last: "push_window n (drop (length xs - n) xs) x = drop (length (xs @ [x]) - n) (xs @ [x])"
proof (cases "n \<le> length xs")
  case True
  then have "drop (length (xs @ [x]) - n) (xs @ [x]) = tl (drop (length xs - n) (xs @ [x]))"
    by (simp add: Suc_diff_le drop_Suc tl_drop del: drop_append)
  moreover have "drop (length xs - n) (xs @ [x]) = drop (length xs - n) xs @ [x]" by simp
  ultimately show ?thesis using True by (simp add: push_window_def)
qed (simp add: push_window_def)

lemma dm_window_run:
  "dm_window m = drop (length xs - dm_maxWindow m) xs \<Longrightarrow>
     dm_window (foldl dm_step m es) = drop (length (xs @ observed_points es) - dm_maxWindow m) (xs @ observed_points es)"
proof (induction es arbitrary: m xs)
  case (Cons e es)
  show ?case
  proof (cases e)
    case (Observed p a)
    have "dm_window (dm_step m e) = drop (length (xs @ [clamped_point (p, a)]) - dm_maxWindow m) (xs @ [clamped_point (p, a)])"
      "dm_maxWindow (dm_step m e) = dm_maxWindow m"
      using push_window_last [of "dm_maxWindow m" xs] Cons.prems
      by (simp_all add: Observed dm_observe_def dm_evaluate_frame clamped_point_def)
    from Cons.IH [of "dm_step m e" "xs @ [clamped_point (p, a)]"] this show ?thesis by (simp add: Observed)
  next
    case Evaluated
    then show ?thesis using Cons.IH [of "dm_step m e" xs] Cons.prems by (simp add: dm_evaluate_frame)
  next
    case (Recover c)
    then show ?thesis
      using Cons.IH [of "dm_step m e" xs] Cons.prems by (simp add: dm_manualRecover_def Let_def)
  qed
qed simp

section \<open>Properties\<close>

text \<open>
  The monitor judges the last observations: after every sequence of observations, evaluations and
  recoveries its window holds exactly the last \<open>maxWindow\<close> observed points, in order, each prediction
  clamped to the doubles 0.01 and 0.99.
\<close>

theorem divergence_window_is_last_observations:
  "dm_window (foldl dm_step (dm_new n) es) =
     drop (length (observed_points es) - n) (observed_points es)"
  using dm_window_run [of "dm_new n" "[]" es] by (simp add: dm_new_def)

text \<open>
  A level of 3 or more is frozen: whatever is observed and evaluated afterwards, better or worse, the level
  and the actions it commands stay the same until a confirmed manual recovery. So no improvement lifts the
  restrictions, and a level of 3 or 4 never rises to the 5 that halts the entries.
\<close>

theorem high_divergence_level_is_frozen:
  assumes "3 \<le> dm_getLevel (foldl dm_step (dm_new n) es)" "list_all not_recovered fs"
  shows "dm_getLevel (foldl dm_step (dm_new n) (es @ fs)) = dm_getLevel (foldl dm_step (dm_new n) es) \<and>
    dm_getActions (foldl dm_step (dm_new n) (es @ fs)) = dm_getActions (foldl dm_step (dm_new n) es)"
proof -
  define m where "m = foldl dm_step (dm_new n) es"
  have "dm_inv n m" unfolding m_def by (rule dm.reachable_inv)
  then have "dm_frozen (dm_level m) m"
    using assms(1) by (simp add: dm_inv_def dm_frozen_def dm_getLevel_def m_def)
  from frozen.run_quiet [OF this assms(2)] show ?thesis
    by (simp add: dm_frozen_def dm_getLevel_def dm_getActions_def m_def)
qed

text \<open>Fifty predictions of one half that all fail.\<close>

lemma lit_99_100: "lit (99/100) = Fin (8917127262193582 / 9007199254740992)"
  using rnd_eqI [of "-1" "99/100" 8917127262193582] by (simp add: lit_def power_int_def power_one_over)

lemma lit_12_100: "lit (3/25) = Fin (8646911284551352 / 72057594037927936)"
  using rnd_eqI [of "-4" "3/25" 8646911284551352] by (simp add: lit_def power_int_def power_one_over)

definition half_missed :: window_point where
  "half_missed = \<lparr>wp_predicted = Fin (1/2), wp_actual = False\<rparr>"

lemma half_missed_point: "clamped_point (Fin (1/2), False) = half_missed"
  by (simp add: clamped_point_def half_missed_def lit_99_100 lit_1_100)

lemma rnd_half: "int k \<le> 2 ^ 53 \<Longrightarrow> rnd (of_nat k / 2) = Fin (of_nat k / 2)"
  using rnd_dyadic [of "int k" "-1"] by (simp add: power_int_def)

lemma half_missed_sums:
  "int k \<le> 2 ^ 52 \<Longrightarrow>
   \<exists>s. foldl add_point (Some no_sums) (replicate k half_missed) = Some s \<and> dw_sumP s = Fin (of_nat k / 2) \<and> dw_sumA s = 0"
proof (induction k)
  case (Suc k)
  then obtain s where s: "foldl add_point (Some no_sums) (replicate k half_missed) = Some s"
    "dw_sumP s = Fin (of_nat k / 2)" "dw_sumA s = 0" by auto
  have "rnd (of_nat k / 2 + 1 / 2) = Fin (of_nat (Suc k) / 2)"
    using rnd_half [of "Suc k"] Suc.prems by (simp add: add_divide_distrib add.commute)
  then have "jadd (dw_sumP s) (Fin (1/2)) = Fin (of_nat (Suc k) / 2)" using s by simp
  moreover have "replicate (Suc k) half_missed = replicate k half_missed @ [half_missed]"
    by (simp add: replicate_append_same)
  moreover have "\<exists>t. add_point (Some s) half_missed = Some t \<and> dw_sumP t = jadd (dw_sumP s) (Fin (1/2)) \<and> dw_sumA t = dw_sumA s"
    by (simp add: add_point_def half_missed_def Let_def)
  ultimately show ?case using s by auto
qed (simp add: no_sums_def)

definition half_missed_events :: "nat \<Rightarrow> dm_event list" where
  "half_missed_events k = replicate k (Observed (Fin (1/2)) False)"

lemma half_missed_observe:
  "dm_observe m (Fin (1/2)) False = dm_evaluate (m\<lparr>
       dm_window := push_window (dm_maxWindow m) (dm_window m) half_missed,
       dm_graceRemaining := (if 0 < dm_graceRemaining m then dm_graceRemaining m - 1 else dm_graceRemaining m)\<rparr>)"
  using half_missed_point by (simp add: dm_observe_def clamped_point_def)

lemma half_missed_short:
  "k < 50 \<Longrightarrow> foldl dm_step (dm_new 2000) (half_missed_events k) = (dm_new 2000)\<lparr>dm_window := replicate k half_missed\<rparr>"
proof (induction k)
  case (Suc k)
  have "half_missed_events (Suc k) = half_missed_events k @ [Observed (Fin (1/2)) False]"
    by (simp add: half_missed_events_def replicate_append_same)
  then show ?case
    using Suc by (simp add: half_missed_observe push_window_def dm_evaluate_def dm_new_def replicate_append_same)
qed (simp add: half_missed_events_def dm_new_def)

lemma half_missed_outcome:
  "\<exists>m s. dm_observe (foldl dm_step (dm_new 2000) (half_missed_events 49)) (Fin (1/2)) False = (m, Inr s) \<and>
     dm_level m = 5 \<and> dv_level s = 5"
proof -
  have w: "push_window 2000 (replicate 49 half_missed) half_missed = replicate 50 half_missed"
    using replicate_append_same [of 49 half_missed] by (simp add: push_window_def flip: replicate_Suc)
  obtain s where "foldl add_point (Some no_sums) (replicate 50 half_missed) = Some s" "dw_sumP s = Fin 25" "dw_sumA s = 0"
    using half_missed_sums [of 50] by auto
  moreover have "rnd (1/2) = Fin (1/2)" using rnd_half [of 1] by simp
  ultimately obtain x where x: "divergence_metrics_of (replicate 50 half_missed) = Some x"
    "dx_predictedMean x = Fin (1/2)" "dx_realizedRate x = Fin 0"
    by (simp add: divergence_metrics_of_def Let_def jsint_def)
  have "level_of_metrics x = 5"
    using x \<open>rnd (1/2) = Fin (1/2)\<close> by (simp add: level_of_metrics_def Let_def above_def lit_12_100)
  then show ?thesis
    using x half_missed_short [of 49]
    by (simp add: half_missed_observe) (simp add: dm_new_def w dm_evaluate_def Let_def dm_snapshot_def)
qed

lemma half_missed_level: "dm_getLevel (foldl dm_step (dm_new 2000) (half_missed_events 50)) = 5"
proof -
  have "half_missed_events 50 = half_missed_events 49 @ [Observed (Fin (1/2)) False]"
    using replicate_append_same [of 49 "Observed (Fin (1/2)) False"] by (simp add: half_missed_events_def flip: replicate_Suc)
  then show ?thesis using half_missed_outcome by (auto simp: dm_getLevel_def)
qed

theorem high_divergence_level_is_frozen_witness:
  "dm_getLevel (foldl dm_step (dm_new 2000) (half_missed_events 50 @ [Observed (Fin (1/2)) True, Evaluated])) = 5"
  using high_divergence_level_is_frozen [of 2000 "half_missed_events 50" "[Observed (Fin (1/2)) True, Evaluated]"]
  by (simp add: half_missed_level)

text \<open>
  A prediction that is not a number stays in the window: from fifty points on, every observation and every
  evaluation raises an exception until it has left the window, and no level is computed.
\<close>

lemma metrics_none: "foldl add_point None ws = None"
  by (induction ws) (auto simp: add_point_def)

lemma not_a_number_raises:
  assumes "50 \<le> length (dm_window m)" "w \<in> set (dm_window m)" "wp_predicted w = NaN"
  shows "dm_evaluate m = (m, Inl ''TypeError'')"
proof -
  have "foldl add_point a ws = None" if "w \<in> set ws" for a ws
    using that assms(3)
    by (induction ws arbitrary: a) (auto simp: add_point_def metrics_none split: option.splits)
  then show ?thesis using assms by (simp add: dm_evaluate_def divergence_metrics_of_def)
qed

end
