(* ===== verification/ModelLifecycle.thy ===== *)
theory ModelLifecycle
  imports "HOL-Library.AList" LiveDivergence
begin

text \<open>
  \<open>ModelLifecycleManager\<close> of \<open>src/src/prediction/lifecycle/model-lifecycle.ts\<close> and \<open>ProductionController\<close> of
  \<open>src/src/prediction/lifecycle/production-controller.ts\<close>: the stages of a model, promotion and rollback, the canary,
  and what an observed divergence does to it. The table of models is an association list in the order of insertion,
  as a JavaScript \<open>Map\<close> iterates; a record is mutated in the table. \<open>promotedAt\<close> is left out; errors are on the left.
\<close>

section \<open>Models\<close>

datatype model_stage = MS_DEVELOPMENT | MS_BACKTEST | MS_VALIDATION | MS_SHADOW | MS_CANARY | MS_PRODUCTION | MS_DEPRECATION

fun stage_index :: "model_stage \<Rightarrow> nat" where
  "stage_index MS_DEVELOPMENT = 0" | "stage_index MS_BACKTEST = 1" | "stage_index MS_VALIDATION = 2"
| "stage_index MS_SHADOW = 3" | "stage_index MS_CANARY = 4" | "stage_index MS_PRODUCTION = 5"
| "stage_index MS_DEPRECATION = 6"

record model_metrics =
  mm_brier :: "jsnum option"
  mm_logLoss :: "jsnum option"
  mm_ece :: "jsnum option"
  mm_oosSkill :: "jsnum option"

record model_record =
  mr_modelName :: string
  mr_modelVersion :: string
  mr_stage :: model_stage
  mr_trafficShare :: jsnum
  mr_metrics :: model_metrics
  mr_notes :: "string option"

record lifecycle =
  lc_models :: "(string \<times> model_record) list"
  lc_productionName :: "string option"

definition lc_new :: lifecycle where
  "lc_new = \<lparr>lc_models = [], lc_productionName = None\<rparr>"

definition model_key :: "string \<Rightarrow> string \<Rightarrow> string" where
  "model_key name version = name @ ''@'' @ version"

text \<open>
  The table holds a copy of the record; the share of 1 is written to the caller's record, which is the second
  component.
\<close>

definition lc_register :: "lifecycle \<Rightarrow> model_record \<Rightarrow> lifecycle \<times> model_record" where
  "lc_register lc r =
     (let key = model_key (mr_modelName r) (mr_modelVersion r);
          lc1 = lc\<lparr>lc_models := AList.update key r (lc_models lc)\<rparr>
      in if mr_stage r = MS_PRODUCTION
         then (lc1\<lparr>lc_productionName := Some key\<rparr>, r\<lparr>mr_trafficShare := Fin 1\<rparr>)
         else (lc1, r))"

definition lc_get :: "lifecycle \<Rightarrow> string \<Rightarrow> string \<Rightarrow> model_record option" where
  "lc_get lc name version = map_of (lc_models lc) (model_key name version)"

definition lc_list :: "lifecycle \<Rightarrow> model_record list" where
  "lc_list lc = map snd (lc_models lc)"

definition both :: "(jsnum \<Rightarrow> jsnum \<Rightarrow> bool) \<Rightarrow> jsnum option \<Rightarrow> jsnum option \<Rightarrow> bool" where
  "both p c b = (case (c, b) of (Some x, Some y) \<Rightarrow> p x y | _ \<Rightarrow> False)"

definition checkPromotionGates :: "model_record \<Rightarrow> model_record \<Rightarrow> bool \<times> string list" where
  "checkPromotionGates candidate baseline =
     (let c = mr_metrics candidate; b = mr_metrics baseline;
          reasons =
            (if mm_oosSkill c = None \<or> both jle (mm_oosSkill c) (mm_oosSkill b)
             then [''oos-skill not better than baseline''] else []) @
            (if both (\<lambda>x y. jlt (jadd y (lit (1/100))) x) (mm_ece c) (mm_ece b)
             then [''calibration ECE worse than baseline''] else []) @
            (if both (\<lambda>x y. jlt y x) (mm_brier c) (mm_brier b) then [''Brier not improved''] else []) @
            (if both (\<lambda>x y. jlt y x) (mm_logLoss c) (mm_logLoss b) then [''log-loss not improved''] else [])
      in (reasons = [], reasons))"

definition deprecated :: "model_record \<Rightarrow> model_record" where
  "deprecated r = r\<lparr>mr_stage := MS_DEPRECATION, mr_trafficShare := Fin 0\<rparr>"

definition lc_modify :: "string \<Rightarrow> (model_record \<Rightarrow> model_record) \<Rightarrow> lifecycle \<Rightarrow> lifecycle" where
  "lc_modify key f lc =
     (case map_of (lc_models lc) key of
        None \<Rightarrow> lc
      | Some r \<Rightarrow> lc\<lparr>lc_models := AList.update key (f r) (lc_models lc)\<rparr>)"

definition stage_share :: "model_stage \<Rightarrow> model_record \<Rightarrow> model_record" where
  "stage_share next r = r\<lparr>mr_stage := next,
     mr_trafficShare := (if next = MS_CANARY then lit (5/100) else if next = MS_PRODUCTION then Fin 1
        else if next = MS_SHADOW then Fin 0 else mr_trafficShare r)\<rparr>"

definition promote :: "lifecycle \<Rightarrow> string \<Rightarrow> string \<Rightarrow> model_stage \<Rightarrow> lifecycle \<times> (string + model_record)" where
  "promote lc name version next =
     (let key = model_key name version
      in case map_of (lc_models lc) key of
           None \<Rightarrow> (lc, Inl (''Unknown model '' @ key))
         | Some r \<Rightarrow>
             if stage_index next < stage_index (mr_stage r) \<and> next \<noteq> MS_DEPRECATION
             then (lc, Inl ''Cannot move'')
             else
               let lc1 = lc_modify key (stage_share next) lc;
                   lc2 = (if next = MS_PRODUCTION
                          then (case lc_productionName lc of
                                  Some p \<Rightarrow> if p \<noteq> '''' \<and> p \<noteq> key then lc_modify p deprecated lc1 else lc1
                                | None \<Rightarrow> lc1)\<lparr>lc_productionName := Some key\<rparr>
                          else lc1)
               in (lc2, Inr (stage_share next r)))"

definition setCanaryShare :: "lifecycle \<Rightarrow> string \<Rightarrow> string \<Rightarrow> jsnum \<Rightarrow> lifecycle \<times> (string + unit)" where
  "setCanaryShare lc name version share =
     (case lc_get lc name version of
        None \<Rightarrow> (lc, Inl ''Canary share only for CANARY stage models'')
      | Some r \<Rightarrow>
          if mr_stage r \<noteq> MS_CANARY then (lc, Inl ''Canary share only for CANARY stage models'')
          else (lc_modify (model_key name version)
                  (\<lambda>r. r\<lparr>mr_trafficShare := jmax (lit (5/100)) (jmin (Fin (1/2)) share)\<rparr>) lc, Inr ()))"

definition routeCanary :: "lifecycle \<Rightarrow> string \<Rightarrow> string \<Rightarrow> jsnum \<Rightarrow> bool" where
  "routeCanary lc name version rand =
     (case lc_get lc name version of
        None \<Rightarrow> False
      | Some r \<Rightarrow> if mr_stage r = MS_PRODUCTION then True
                  else if mr_stage r = MS_CANARY then jlt rand (mr_trafficShare r)
                  else False)"

definition is_live_stage :: "model_stage \<Rightarrow> bool" where
  "is_live_stage s \<longleftrightarrow> s = MS_PRODUCTION \<or> s = MS_CANARY"

definition retire :: "model_record \<Rightarrow> model_record" where
  "retire r = (if is_live_stage (mr_stage r) then deprecated r else r)"

definition rolled_back :: "model_record \<Rightarrow> model_record" where
  "rolled_back r = r\<lparr>mr_stage := MS_PRODUCTION, mr_trafficShare := Fin 1,
     mr_notes := Some ((case mr_notes r of Some n \<Rightarrow> n | None \<Rightarrow> '''') @ '' | rollback'')\<rparr>"

definition rollbackTo :: "lifecycle \<Rightarrow> string \<Rightarrow> string \<Rightarrow> lifecycle \<times> (string + model_record)" where
  "rollbackTo lc name version =
     (let key = model_key name version
      in case map_of (lc_models lc) key of
           None \<Rightarrow> (lc, Inl (''Unknown model '' @ key))
         | Some r \<Rightarrow>
             let lc1 = lc\<lparr>lc_models := map (\<lambda>(k, m). (k, retire m)) (lc_models lc)\<rparr>;
                 lc2 = (lc_modify key rolled_back lc1)\<lparr>lc_productionName := Some key\<rparr>
             in (lc2, Inr (rolled_back (retire r))))"

section \<open>The rollout controller\<close>

record production_status =
  ps_activeModel :: "model_record option"
  ps_canaryModel :: "model_record option"
  ps_rolloutShare :: jsnum
  ps_divergence :: divergence_snapshot
  ps_entriesAllowed :: bool
  ps_kellyAllowed :: bool
  ps_multiTargetAllowed :: bool
  ps_dynamicThresholdsAllowed :: bool

definition stage_model :: "lifecycle \<Rightarrow> model_stage \<Rightarrow> model_record option" where
  "stage_model lc s = List.find (\<lambda>r. mr_stage r = s) (lc_list lc)"

text \<open>The controller's own share is never assigned after its initial 1.\<close>

definition prod_status ::
  "lifecycle \<Rightarrow> divergence_monitor \<Rightarrow> divergence_monitor \<times> (string + production_status)" where
  "prod_status lc dm =
     (case dm_evaluate dm of
        (dm', Inl e) \<Rightarrow> (dm', Inl e)
      | (dm', Inr d) \<Rightarrow>
          let canary = stage_model lc MS_CANARY; a = dv_actions d
          in (dm', Inr \<lparr>ps_activeModel = stage_model lc MS_PRODUCTION, ps_canaryModel = canary,
               ps_rolloutShare = (case canary of Some c \<Rightarrow> mr_trafficShare c | None \<Rightarrow> Fin 1),
               ps_divergence = d,
               ps_entriesAllowed = (\<not> da_fullSheathHaltEntries a),
               ps_kellyAllowed = (\<not> da_disableKelly a),
               ps_multiTargetAllowed = (\<not> da_disableMultiTargetSwitch a),
               ps_dynamicThresholdsAllowed = (\<not> da_disableDynamicThresholds a)\<rparr>))"

definition advanceCanary :: "lifecycle \<Rightarrow> string \<Rightarrow> string \<Rightarrow> lifecycle \<times> (string + model_record)" where
  "advanceCanary lc name version =
     (case lc_get lc name version of
        None \<Rightarrow> (lc, Inl ''model not found'')
      | Some r \<Rightarrow>
          if mr_stage r = MS_SHADOW then promote lc name version MS_CANARY
          else if mr_stage r = MS_CANARY
          then let share = mr_trafficShare r
               in if \<not> jlt share (lit (1/10)) \<and> \<not> jlt share (lit (3/10))
                  then promote lc name version MS_PRODUCTION
                  else (case setCanaryShare lc name version (if jlt share (lit (1/10)) then Fin (1/4) else Fin (1/2)) of
                          (lc', Inl e) \<Rightarrow> (lc', Inl e)
                        | (lc', Inr _) \<Rightarrow> (lc', Inr (the (lc_get lc' name version))))
          else (lc, Inl ''Cannot advance''))"

definition shouldUseCandidate ::
  "lifecycle \<Rightarrow> divergence_monitor \<Rightarrow> string \<Rightarrow> string \<Rightarrow> jsnum \<Rightarrow> divergence_monitor \<times> (string + bool)" where
  "shouldUseCandidate lc dm name version rand =
     (case prod_status lc dm of
        (dm', Inl e) \<Rightarrow> (dm', Inl e)
      | (dm', Inr st) \<Rightarrow> (dm', Inr (ps_entriesAllowed st \<and> routeCanary lc name version rand)))"

definition observeOutcome ::
  "lifecycle \<Rightarrow> divergence_monitor \<Rightarrow> jsnum \<Rightarrow> bool \<Rightarrow> (lifecycle \<times> divergence_monitor) \<times> (string + divergence_snapshot)" where
  "observeOutcome lc dm predicted actual =
     (case dm_observe dm predicted actual of
        (dm', Inl e) \<Rightarrow> ((lc, dm'), Inl e)
      | (dm', Inr snap) \<Rightarrow>
          let lc' = (if 3 \<le> dv_level snap
                     then (case stage_model lc MS_CANARY of
                             Some c \<Rightarrow> fst (rollbackTo lc (mr_modelName c) (mr_modelVersion c))
                           | None \<Rightarrow> lc)
                     else lc)
          in ((lc', dm'), Inr snap))"

section \<open>What the operations keep\<close>

text \<open>
  Every record stands under its own key, keys are unique, and only the model the manager remembers as the
  production model is in \<open>PRODUCTION\<close>.
\<close>

definition keyed :: "string \<times> model_record \<Rightarrow> bool" where
  "keyed e \<longleftrightarrow> fst e = model_key (mr_modelName (snd e)) (mr_modelVersion (snd e))"

definition table_ok :: "(string \<times> model_record) list \<Rightarrow> bool" where
  "table_ok ms \<longleftrightarrow> distinct (map fst ms) \<and> list_all keyed ms"

definition crowned :: "string option \<Rightarrow> (string \<times> model_record) list \<Rightarrow> bool" where
  "crowned p ms \<longleftrightarrow> list_all (\<lambda>e. mr_stage (snd e) = MS_PRODUCTION \<longrightarrow> p = Some (fst e)) ms"

definition lc_inv :: "lifecycle \<Rightarrow> bool" where
  "lc_inv lc \<longleftrightarrow> table_ok (lc_models lc) \<and> crowned (lc_productionName lc) (lc_models lc)"

lemma in_update:
  "e \<in> set (AList.update k v al) \<Longrightarrow> distinct (map fst al) \<Longrightarrow> e = (k, v) \<or> e \<in> set al \<and> fst e \<noteq> k"
  by (induction al) (auto split: if_splits simp: image_iff)

lemma table_ok_update:
  assumes "table_ok ms" "keyed (k, v)"
  shows "table_ok (AList.update k v ms)"
  using assms in_update [of _ k v ms] by (fastforce simp: table_ok_def list_all_iff distinct_update)

lemma crowned_update:
  assumes "table_ok ms" "crowned p ms" "mr_stage v = MS_PRODUCTION \<longrightarrow> p = Some k"
  shows "crowned p (AList.update k v ms)"
  using assms in_update [of _ k v ms] by (fastforce simp: table_ok_def crowned_def list_all_iff)

definition same_name :: "(model_record \<Rightarrow> model_record) \<Rightarrow> bool" where
  "same_name f \<longleftrightarrow> (\<forall>r. mr_modelName (f r) = mr_modelName r \<and> mr_modelVersion (f r) = mr_modelVersion r)"

lemma same_name_ops [simp]:
  "same_name deprecated" "same_name (stage_share s)" "same_name rolled_back" "same_name retire"
  "same_name (\<lambda>r. r\<lparr>mr_trafficShare := x\<rparr>)"
  by (auto simp: same_name_def deprecated_def stage_share_def rolled_back_def retire_def)

lemma lc_modify_name [simp]: "lc_productionName (lc_modify key f lc) = lc_productionName lc"
  by (simp add: lc_modify_def split: option.split)

lemma lc_modify_table:
  assumes "table_ok (lc_models lc)" "same_name f"
  shows "table_ok (lc_models (lc_modify key f lc))"
proof (cases "map_of (lc_models lc) key")
  case (Some r)
  then have "keyed (key, f r)"
    using assms map_of_SomeD [OF Some] by (auto simp: table_ok_def list_all_iff keyed_def same_name_def)
  then show ?thesis using Some assms by (simp add: lc_modify_def table_ok_update)
qed (use assms in \<open>simp add: lc_modify_def\<close>)

lemma lc_modify_crowned:
  assumes "table_ok (lc_models lc)" "crowned p (lc_models lc)"
    and "\<And>r. mr_stage (f r) = MS_PRODUCTION \<Longrightarrow> mr_stage r = MS_PRODUCTION \<or> p = Some key"
  shows "crowned p (lc_models (lc_modify key f lc))"
proof (cases "map_of (lc_models lc) key")
  case (Some r)
  then have "mr_stage (f r) = MS_PRODUCTION \<longrightarrow> p = Some key"
    using assms(2) assms(3) [of r] map_of_SomeD [OF Some] by (auto simp: crowned_def list_all_iff)
  then show ?thesis using Some assms by (simp add: lc_modify_def crowned_update)
qed (use assms in \<open>simp add: lc_modify_def\<close>)

text \<open>
  A crown passes from the remembered model \<open>p\<close> to \<open>key\<close>: once \<open>p\<close> has been deprecated, or there is none,
  every production model is \<open>key\<close>.
\<close>

lemma crown_passes:
  assumes "table_ok (lc_models lc)" "\<forall>e \<in> set (lc_models lc). mr_stage (snd e) = MS_PRODUCTION \<longrightarrow> fst e = p \<or> fst e = key"
  shows "crowned (Some key) (lc_models (lc_modify p deprecated lc))"
proof (cases "map_of (lc_models lc) p")
  case None
  then have "p \<notin> fst ` set (lc_models lc)" by (simp add: map_of_eq_None_iff)
  then show ?thesis using None assms(2) by (fastforce simp: lc_modify_def crowned_def list_all_iff)
next
  case (Some r)
  show ?thesis
    unfolding crowned_def list_all_iff
  proof (intro ballI impI)
    fix e
    assume "e \<in> set (lc_models (lc_modify p deprecated lc))" and s: "mr_stage (snd e) = MS_PRODUCTION"
    then have "e = (p, deprecated r) \<or> e \<in> set (lc_models lc) \<and> fst e \<noteq> p"
      using Some in_update [of e p "deprecated r" "lc_models lc"] assms(1) by (simp add: lc_modify_def table_ok_def)
    then show "Some key = Some (fst e)" using assms(2) s by (auto simp: deprecated_def)
  qed
qed

lemma lc_modify_productions:
  assumes "lc_inv lc"
  shows "\<forall>e \<in> set (lc_models (lc_modify key f lc)). mr_stage (snd e) = MS_PRODUCTION \<longrightarrow>
    lc_productionName lc = Some (fst e) \<or> fst e = key"
proof (cases "map_of (lc_models lc) key")
  case (Some r)
  then show ?thesis
    using in_update [of _ key "f r" "lc_models lc"] assms
    by (fastforce simp: lc_modify_def lc_inv_def table_ok_def crowned_def list_all_iff)
qed (use assms in \<open>auto simp: lc_inv_def lc_modify_def crowned_def list_all_iff\<close>)

lemma promote_inv: "lc_inv lc \<Longrightarrow> lc_inv (fst (promote lc name version next))"
proof -
  assume inv: "lc_inv lc"
  define key where "key = model_key name version"
  define lc1 where "lc1 = lc_modify key (stage_share next) lc"
  have t: "table_ok (lc_models lc)" and c: "crowned (lc_productionName lc) (lc_models lc)"
    using inv by (auto simp: lc_inv_def)
  have t1: "table_ok (lc_models lc1)" unfolding lc1_def using t by (rule lc_modify_table) simp
  show ?thesis
  proof (cases "next = MS_PRODUCTION")
    case False
    then have "crowned (lc_productionName lc) (lc_models lc1)"
      unfolding lc1_def using t c by (intro lc_modify_crowned) (auto simp: stage_share_def)
    then have "lc_inv lc1" using t1 by (simp add: lc_inv_def lc1_def)
    then show ?thesis
      using inv False by (auto simp: promote_def Let_def lc1_def key_def split: option.splits)
  next
    case True
    have only: "\<forall>e \<in> set (lc_models lc1). mr_stage (snd e) = MS_PRODUCTION \<longrightarrow> lc_productionName lc = Some (fst e) \<or> fst e = key"
      using lc_modify_productions [OF inv] by (simp add: lc1_def)
    define lc2 where "lc2 = (case lc_productionName lc of
        Some p \<Rightarrow> if p \<noteq> '''' \<and> p \<noteq> key then lc_modify p deprecated lc1 else lc1 | None \<Rightarrow> lc1)"
    have "crowned (Some key) (lc_models lc2)"
    proof (cases "lc_productionName lc")
      case None
      then show ?thesis using only by (auto simp: lc2_def crowned_def list_all_iff)
    next
      case (Some p)
      show ?thesis
      proof (cases "p \<noteq> '''' \<and> p \<noteq> key")
        case True
        then show ?thesis using Some only crown_passes [OF t1, of p key] by (simp add: lc2_def) blast
      next
        case False
        have "fst e \<noteq> ''''" if "e \<in> set (lc_models lc1)" for e
          using that t1 by (simp add: table_ok_def list_all_iff keyed_def model_key_def)
        then have "fst e = key" if "e \<in> set (lc_models lc1)" "mr_stage (snd e) = MS_PRODUCTION" for e
          using that only False Some by (metis option.inject)
        then show ?thesis using Some False by (auto simp: lc2_def crowned_def list_all_iff)
      qed
    qed
    moreover have "table_ok (lc_models lc2)"
      using t1 by (auto simp: lc2_def intro: lc_modify_table split: option.splits)
    ultimately have "lc_inv (lc2\<lparr>lc_productionName := Some key\<rparr>)" by (simp add: lc_inv_def)
    then show ?thesis
      using inv True by (auto simp: promote_def Let_def lc1_def lc2_def key_def split: option.splits)
  qed
qed

lemma setCanaryShare_inv: "lc_inv lc \<Longrightarrow> lc_inv (fst (setCanaryShare lc name version share))"
  by (auto simp: setCanaryShare_def lc_inv_def split: option.splits
      intro!: lc_modify_table lc_modify_crowned)

lemma retire_not_production: "mr_stage (retire r) \<noteq> MS_PRODUCTION"
  by (simp add: retire_def deprecated_def is_live_stage_def)

lemma rollbackTo_inv: "lc_inv lc \<Longrightarrow> lc_inv (fst (rollbackTo lc name version))"
proof -
  assume inv: "lc_inv lc"
  define lc1 where "lc1 = lc\<lparr>lc_models := map (\<lambda>(k, m). (k, retire m)) (lc_models lc)\<rparr>"
  have "same_name retire" by simp
  then have t: "table_ok (lc_models lc1)"
    using inv by (auto simp: lc1_def lc_inv_def table_ok_def list_all_iff keyed_def same_name_def comp_def case_prod_beta)
  have "crowned (Some (model_key name version)) (lc_models lc1)"
    by (auto simp: lc1_def crowned_def list_all_iff retire_not_production)
  then show ?thesis
    using inv t lc_modify_table [OF t, of rolled_back] lc_modify_crowned [OF t, of _ rolled_back]
    by (auto simp: rollbackTo_def Let_def lc_inv_def simp flip: lc1_def split: option.splits)
qed

lemma advanceCanary_inv: "lc_inv lc \<Longrightarrow> lc_inv (fst (advanceCanary lc name version))"
  by (auto simp: advanceCanary_def Let_def promote_inv split: option.splits sum.splits prod.splits)
    (metis fst_conv setCanaryShare_inv)+

lemma observeOutcome_inv: "lc_inv lc \<Longrightarrow> lc_inv (fst (fst (observeOutcome lc dm p a)))"
  by (auto simp: observeOutcome_def Let_def rollbackTo_inv split: option.splits sum.splits prod.splits)

lemma lc_register_inv: "lc_inv lc \<Longrightarrow> mr_stage r \<noteq> MS_PRODUCTION \<Longrightarrow> lc_inv (fst (lc_register lc r))"
  by (auto simp: lc_register_def Let_def lc_inv_def keyed_def intro!: table_ok_update crowned_update)


section \<open>Properties\<close>

datatype lc_event = Register model_record | Promote string string model_stage | Set_share string string jsnum
  | Roll_back string string | Advance string string | Outcome jsnum bool

fun lc_step :: "lifecycle \<times> divergence_monitor \<Rightarrow> lc_event \<Rightarrow> lifecycle \<times> divergence_monitor" where
  "lc_step (lc, dm) (Register r) = (fst (lc_register lc r), dm)"
| "lc_step (lc, dm) (Promote n v s) = (fst (promote lc n v s), dm)"
| "lc_step (lc, dm) (Set_share n v x) = (fst (setCanaryShare lc n v x), dm)"
| "lc_step (lc, dm) (Roll_back n v) = (fst (rollbackTo lc n v), dm)"
| "lc_step (lc, dm) (Advance n v) = (fst (advanceCanary lc n v), dm)"
| "lc_step (lc, dm) (Outcome p a) = fst (observeOutcome lc dm p a)"

fun no_production_registered :: "lc_event \<Rightarrow> bool" where
  "no_production_registered (Register r) = (mr_stage r \<noteq> MS_PRODUCTION)"
| "no_production_registered _ = True"

interpretation rollout: persists lc_step no_production_registered "\<lambda>s. lc_inv (fst s)"
proof
  fix s :: "lifecycle \<times> divergence_monitor" and e
  assume "lc_inv (fst s)" "no_production_registered e"
  then show "lc_inv (fst (lc_step s e))"
    by (cases s; cases e)
      (simp_all add: lc_register_inv promote_inv setCanaryShare_inv rollbackTo_inv advanceCanary_inv observeOutcome_inv)
qed

lemma first_registration_inv: "lc_inv (fst (lc_register lc_new r))"
  by (simp add: lc_register_def lc_new_def lc_inv_def table_ok_def crowned_def keyed_def Let_def)

lemma one_crown: "table_ok ms \<Longrightarrow> crowned p ms \<Longrightarrow> length (filter (\<lambda>r. mr_stage r = MS_PRODUCTION) (map snd ms)) \<le> 1"
proof (induction ms)
  case (Cons e ms)
  show ?case
  proof (cases "mr_stage (snd e) = MS_PRODUCTION")
    case True
    then have "mr_stage (snd d) \<noteq> MS_PRODUCTION" if "d \<in> set ms" for d
      using that Cons.prems by (auto simp: table_ok_def crowned_def list_all_iff)
    then show ?thesis by (simp add: filter_empty_conv)
  next
    case False
    then show ?thesis using Cons by (simp add: table_ok_def crowned_def)
  qed
qed simp

text \<open>
  At most one model is in production: after a first registration, no sequence of registrations of other
  stages, promotions, share changes, rollbacks, canary advances and observed outcomes leaves two models in
  \<open>PRODUCTION\<close>.
\<close>

theorem at_most_one_production_model:
  assumes "list_all no_production_registered es"
  shows "length (filter (\<lambda>r. mr_stage r = MS_PRODUCTION)
    (lc_list (fst (foldl lc_step (fst (lc_register lc_new r), dm) es)))) \<le> 1"
proof -
  have "lc_inv (fst (foldl lc_step (fst (lc_register lc_new r), dm) es))"
    using assms by (intro rollout.run_quiet) (simp_all add: first_registration_inv)
  then show ?thesis unfolding lc_list_def lc_inv_def using one_crown by blast
qed

definition demo_model :: "string \<Rightarrow> model_stage \<Rightarrow> model_record" where
  "demo_model name s = \<lparr>mr_modelName = name, mr_modelVersion = ''v1'', mr_stage = s, mr_trafficShare = Fin 1,
     mr_metrics = \<lparr>mm_brier = None, mm_logLoss = None, mm_ece = None, mm_oosSkill = None\<rparr>, mr_notes = None\<rparr>"

theorem at_most_one_production_model_witness:
  "length (filter (\<lambda>r. mr_stage r = MS_PRODUCTION)
    (lc_list (fst (foldl lc_step (fst (lc_register lc_new (demo_model ''old'' MS_PRODUCTION)), dm_new 2000)
       [Register (demo_model ''new'' MS_CANARY), Promote ''new'' ''v1'' MS_PRODUCTION])))) \<le> 1"
  by (rule at_most_one_production_model) (simp add: demo_model_def)

text \<open>Registering a second production model leaves both in production.\<close>

lemma second_registration_keeps_both:
  "length (filter (\<lambda>r. mr_stage r = MS_PRODUCTION) (lc_list (fst (lc_register
      (fst (lc_register lc_new (demo_model ''old'' MS_PRODUCTION))) (demo_model ''new'' MS_PRODUCTION))))) = 2"
  by (simp add: lc_register_def lc_new_def lc_list_def demo_model_def model_key_def Let_def)

text \<open>No gate is consulted on the way to production.\<close>

lemma promotion_needs_no_gate:
  assumes "lc_get lc name version = Some r" "mr_stage r \<noteq> MS_DEPRECATION"
  shows "\<exists>lc'. promote lc name version MS_PRODUCTION = (lc', Inr (stage_share MS_PRODUCTION r))"
  using assms by (cases "mr_stage r") (auto simp: promote_def lc_get_def Let_def)

lemma update_map:
  "distinct (map fst al) \<Longrightarrow> map_of al k = Some r \<Longrightarrow>
     AList.update k v al = map (\<lambda>(j, x). (j, if j = k then v else x)) al"
proof (induction al)
  case (Cons e al)
  have "map (\<lambda>(j, x). (j, if j = fst e then v else x)) al = al" if "fst e \<notin> fst ` set al"
    using that by (induction al) auto
  then show ?case using Cons by (cases e) auto
qed simp

lemma map_of_map_keyed: "map_of (map (\<lambda>(k, m). (k, f k m)) al) k = map_option (f k) (map_of al k)"
  by (induction al) auto

lemma rollbackTo_models:
  assumes "table_ok (lc_models lc)" "map_of (lc_models lc) (model_key name version) = Some r"
  shows "lc_models (fst (rollbackTo lc name version)) =
      map (\<lambda>(k, m). (k, if k = model_key name version then rolled_back (retire r) else retire m)) (lc_models lc)"
    and "lc_productionName (fst (rollbackTo lc name version)) = Some (model_key name version)"
proof -
  define ms where "ms = map (\<lambda>(k, m). (k, retire m)) (lc_models lc)"
  have m: "map_of ms (model_key name version) = Some (retire r)"
    using assms(2) by (simp add: ms_def map_of_map)
  have "distinct (map fst ms)"
    using assms(1) by (simp add: ms_def table_ok_def comp_def case_prod_beta)
  then show "lc_models (fst (rollbackTo lc name version)) =
      map (\<lambda>(k, m). (k, if k = model_key name version then rolled_back (retire r) else retire m)) (lc_models lc)"
    using assms(2) m update_map [of ms, OF _ m]
    by (simp add: rollbackTo_def Let_def lc_modify_def flip: ms_def) (simp add: ms_def case_prod_beta)
  show "lc_productionName (fst (rollbackTo lc name version)) = Some (model_key name version)"
    using assms(2) by (simp add: rollbackTo_def Let_def)
qed

text \<open>
  The automatic rollback promotes the canary: when an observed outcome raises the divergence to level 3 or
  more while a canary is running, the rollback is called with the canary itself, which becomes the production
  model and receives every decision, and the model that was in production is deprecated with share 0.
\<close>

theorem high_divergence_promotes_canary:
  assumes "lc_inv lc" "stage_model lc MS_CANARY = Some c"
    and "observeOutcome lc dm p a = ((lc', dm'), Inr snap)" "3 \<le> dv_level snap"
  shows "lc_productionName lc' = Some (model_key (mr_modelName c) (mr_modelVersion c)) \<and>
    (\<forall>rand. routeCanary lc' (mr_modelName c) (mr_modelVersion c) rand) \<and>
    (\<forall>(k, r) \<in> set (lc_models lc). mr_stage r = MS_PRODUCTION \<longrightarrow> map_of (lc_models lc') k = Some (deprecated r))"
proof -
  define key where "key = model_key (mr_modelName c) (mr_modelVersion c)"
  have t: "table_ok (lc_models lc)" using assms(1) by (simp add: lc_inv_def)
  have "c \<in> set (lc_list lc)" and stage: "mr_stage c = MS_CANARY"
    using assms(2) by (auto simp: stage_model_def find_Some_iff)
  then have inc: "(key, c) \<in> set (lc_models lc)"
    using t by (auto simp: lc_list_def table_ok_def list_all_iff keyed_def key_def)
  then have c: "map_of (lc_models lc) key = Some c"
    using t by (simp add: table_ok_def)
  have lc': "lc' = fst (rollbackTo lc (mr_modelName c) (mr_modelVersion c))"
    using assms(2-4) by (auto simp: observeOutcome_def Let_def split: prod.splits sum.splits)
  note models = rollbackTo_models [OF t, of "mr_modelName c" "mr_modelVersion c", folded key_def, OF c, folded lc']
  have look: "map_of (lc_models lc') k = map_option (\<lambda>m. if k = key then rolled_back (retire c) else retire m) (map_of (lc_models lc) k)" for k
    unfolding models using map_of_map_keyed [of "\<lambda>k m. if k = key then rolled_back (retire c) else retire m"] by simp
  have "routeCanary lc' (mr_modelName c) (mr_modelVersion c) rand" for rand
    using look [of key] c by (simp add: routeCanary_def lc_get_def rolled_back_def flip: key_def)
  moreover have "map_of (lc_models lc') k = Some (deprecated r)"
    if "(k, r) \<in> set (lc_models lc)" "mr_stage r = MS_PRODUCTION" for k r
  proof -
    have kr: "map_of (lc_models lc) k = Some r" using that(1) t by (simp add: table_ok_def)
    then have "k \<noteq> key" using c that(2) stage by auto
    then show ?thesis using look [of k] kr that(2) by (simp add: retire_def is_live_stage_def)
  qed
  ultimately show ?thesis using models by (auto simp: key_def)
qed


definition demo_lifecycle :: lifecycle where
  "demo_lifecycle = fst (lc_register (fst (lc_register lc_new (demo_model ''old'' MS_PRODUCTION))) (demo_model ''new'' MS_CANARY))"

theorem high_divergence_promotes_canary_witness:
  "\<exists>lc' dm' snap.
     observeOutcome demo_lifecycle (foldl dm_step (dm_new 2000) (half_missed_events 49)) (Fin (1/2)) False = ((lc', dm'), Inr snap) \<and>
     lc_productionName lc' = Some ''new@v1'' \<and> routeCanary lc' ''new'' ''v1'' (Fin 1) \<and>
     map_of (lc_models lc') ''old@v1'' = Some (deprecated (demo_model ''old'' MS_PRODUCTION))"
proof -
  have inv: "lc_inv demo_lifecycle"
    unfolding demo_lifecycle_def by (rule lc_register_inv [OF first_registration_inv]) (simp add: demo_model_def)
  have models: "lc_models demo_lifecycle = [(''old@v1'', demo_model ''old'' MS_PRODUCTION), (''new@v1'', demo_model ''new'' MS_CANARY)]"
    by (simp add: demo_lifecycle_def lc_register_def lc_new_def demo_model_def model_key_def Let_def)
  then have canary: "stage_model demo_lifecycle MS_CANARY = Some (demo_model ''new'' MS_CANARY)"
    by (simp add: stage_model_def lc_list_def demo_model_def)
  obtain lc' dm' snap where o: "observeOutcome demo_lifecycle (foldl dm_step (dm_new 2000) (half_missed_events 49)) (Fin (1/2)) False
      = ((lc', dm'), Inr snap)" and l: "dv_level snap = 5"
    using half_missed_outcome by (auto simp: observeOutcome_def Let_def)
  then show ?thesis
    using high_divergence_promotes_canary [OF inv canary o] models
    by (auto simp: demo_model_def model_key_def)
qed

end
