(* ===== verification/GameObservation.thy ===== *)
theory GameObservation
  imports RiskEngine
begin

text \<open>
  The observation of the game: \<open>GameAdapter\<close> of \<open>src/src/game/adapter.ts\<close>, which turns the snapshots of the page
  and of its web sockets into events, and \<open>RoundObserver\<close> of \<open>src/src/game/observer.ts\<close>, which follows the rounds.
  What is read from the page is an argument. A snapshot has the fields of its declared type; a time stamp that a
  frame does not carry is \<open>None\<close>. The callbacks the observer delivers are its output.
\<close>

section \<open>Snapshots and events\<close>

record source_snapshot =
  ss_source :: string
  ss_roundId :: "string option"
  ss_multiplier :: "jsnum option"
  ss_phase :: "round_phase option"
  ss_crashPoint :: "jsnum option"
  ss_timestamp :: "string option"
  ss_latencyMs :: int

datatype game_event_type = GE_round_started | GE_multiplier_tick | GE_round_crashed | GE_round_ended
  | GE_game_state_change | GE_balance_update | GE_error

record game_event =
  ge_type :: game_event_type
  ge_roundId :: "string option"
  ge_multiplier :: "jsnum option"
  ge_crashPoint :: "jsnum option"
  ge_phase :: "round_phase option"
  ge_source :: string
  ge_confidence :: observation_confidence
  ge_timestamp :: "string option"
  ge_latencyMs :: int

text \<open>The value of \<open>x || y\<close> for a number and a text that may be null: 0, \<open>NaN\<close> and the empty text count as absent.\<close>

definition num_or :: "jsnum option \<Rightarrow> jsnum option \<Rightarrow> jsnum option" where
  "num_or x y = (case x of None \<Rightarrow> y | Some n \<Rightarrow> if n = Fin 0 \<or> n = NaN then y else x)"

definition text_or :: "string option \<Rightarrow> string option \<Rightarrow> string option" where
  "text_or x y = (case x of None \<Rightarrow> y | Some s \<Rightarrow> if s = '''' then y else x)"

text \<open>The value of \<open>x ?? y\<close>.\<close>

definition num_coalesce :: "jsnum option \<Rightarrow> jsnum option \<Rightarrow> jsnum option" where
  "num_coalesce x y = (case x of None \<Rightarrow> y | Some _ \<Rightarrow> x)"

section \<open>The adapter\<close>

text \<open>\<open>currentState\<close> with the source as the text it is given, and the counters of the adapter.\<close>

record game_adapter =
  ga_started :: bool
  ga_roundId :: "string option"
  ga_phase :: round_phase
  ga_multiplier :: "jsnum option"
  ga_startedAt :: "string option"
  ga_crashedAt :: "string option"
  ga_crashPoint :: "jsnum option"
  ga_lastTickAt :: "string option"
  ga_source :: string
  ga_confidence :: observation_confidence
  ga_domMissStreak :: nat
  ga_tickCount :: nat
  ga_errorCount :: nat
  ga_consecutiveErrors :: nat
  ga_lastEventAt :: "string option"
  ga_latencyHistory :: "int list"

definition ga_new :: game_adapter where
  "ga_new = \<lparr>ga_started = False, ga_roundId = None, ga_phase = Ph_idle, ga_multiplier = None, ga_startedAt = None,
     ga_crashedAt = None, ga_crashPoint = None, ga_lastTickAt = None, ga_source = ''unknown'',
     ga_confidence = Conf_low, ga_domMissStreak = 0, ga_tickCount = 0, ga_errorCount = 0,
     ga_consecutiveErrors = 0, ga_lastEventAt = None, ga_latencyHistory = []\<rparr>"

definition mapPhase :: "string \<Rightarrow> round_phase" where
  "mapPhase s = (let p = toLowerCase s
     in if p = ''idle'' then Ph_idle
        else if p = ''starting'' then Ph_starting
        else if p \<in> {''run'', ''running'', ''active''} then Ph_running
        else if p \<in> {''crash'', ''crashed'', ''end'', ''ended''} then Ph_crashed
        else Ph_unknown)"

definition adapter_event ::
  "game_event_type \<Rightarrow> game_adapter \<Rightarrow> jsnum option \<Rightarrow> jsnum option \<Rightarrow> round_phase \<Rightarrow> observation_confidence \<Rightarrow>
   source_snapshot \<Rightarrow> game_event" where
  "adapter_event t g mult crash ph conf s = \<lparr>ge_type = t, ge_roundId = ga_roundId g, ge_multiplier = mult,
     ge_crashPoint = crash, ge_phase = Some ph, ge_source = ss_source s, ge_confidence = conf,
     ge_timestamp = ss_timestamp s, ge_latencyMs = ss_latencyMs s\<rparr>"

text \<open>\<open>emitGameEvent\<close> notes the time of the event; the listeners get it from the list of events.\<close>

definition emitted :: "game_event \<Rightarrow> game_adapter \<Rightarrow> game_adapter" where
  "emitted e g = g\<lparr>ga_lastEventAt := ge_timestamp e\<rparr>"

text \<open>
  \<open>processStateChange\<close> awaits each of its emissions and the question for the crash point, and other snapshots
  may be processed meanwhile: it runs in turns. What a call that waits keeps: its \<open>prevState\<close>, its snapshot, its two flags, the
  place where it goes on, and the copy of the state that the assignment of the crash has spread before it waits for
  the crash point. \<open>psc_poll\<close>: the poll of the page called it, which handles a rejection.
\<close>

datatype change_stage = At_tick | At_crash | At_read | At_phase

record change_call =
  psc_prev :: game_adapter
  psc_snapshot :: source_snapshot
  psc_changed :: bool
  psc_emitted :: bool
  psc_stage :: change_stage
  psc_copy :: game_adapter
  psc_poll :: bool

type_synonym change_turn = "game_adapter \<times> change_call option \<times> game_event list"

text \<open>The last part. \<open>snapshot.phase\<close> is null or a phase; a null phase passes none of the tests.\<close>

definition phase_turn :: "change_call \<Rightarrow> game_adapter \<Rightarrow> change_turn" where
  "phase_turn t g =
     (let prev = psc_prev t; s = psc_snapshot t; changed = psc_changed t;
          waits = (ga_phase prev = Ph_crashed \<and> (ss_phase s = Some Ph_idle \<or> ss_phase s = Some Ph_starting));
          g1 = (if waits then g\<lparr>ga_phase := the (ss_phase s), ga_multiplier := None, ga_source := ss_source s,
                                ga_confidence := Conf_medium\<rparr> else g);
          g2 = (if \<not> changed \<and> \<not> waits \<and> ss_phase s \<noteq> None \<and> ss_phase s \<noteq> Some (ga_phase prev)
                then g1\<lparr>ga_phase := the (ss_phase s), ga_source := ss_source s\<rparr> else g1);
          g3 = g2\<lparr>ga_consecutiveErrors := 0\<rparr>
      in if (changed \<or> waits) \<and> \<not> psc_emitted t
         then let e = adapter_event GE_game_state_change g3 (ga_multiplier g3) (ga_crashPoint g3) (ga_phase g3)
                        (ga_confidence g3) s
              in (emitted e g3, None, [e])
         else (g3, None, []))"

text \<open>The assignment of a crash: it starts from the copy \<open>c\<close>; \<open>read\<close> is what the page answered.\<close>

definition crash_update :: "game_adapter \<Rightarrow> jsnum option \<Rightarrow> change_call \<Rightarrow> game_adapter \<Rightarrow> change_turn" where
  "crash_update c read t g =
     (let prev = psc_prev t; s = psc_snapshot t;
          cp = num_coalesce (num_coalesce (ss_crashPoint s) read) (ga_multiplier prev);
          conf = (if num_or (ss_crashPoint s) None \<noteq> None then Conf_high else Conf_medium);
          g' = g\<lparr>ga_roundId := ga_roundId c, ga_startedAt := ga_startedAt c, ga_phase := Ph_crashed,
                 ga_crashedAt := ss_timestamp s, ga_crashPoint := cp,
                 ga_multiplier := num_or (ss_crashPoint s) (ga_multiplier prev),
                 ga_lastTickAt := ss_timestamp s, ga_source := ss_source s, ga_confidence := conf\<rparr>;
          e = adapter_event GE_round_crashed g' cp cp Ph_crashed conf s
      in (emitted e g', Some (t\<lparr>psc_changed := True, psc_emitted := True, psc_stage := At_phase\<rparr>), [e]))"

definition crash_turn :: "change_call \<Rightarrow> game_adapter \<Rightarrow> change_turn" where
  "crash_turn t g =
     (if ga_phase (psc_prev t) \<in> {Ph_running, Ph_starting} \<and> ss_phase (psc_snapshot t) = Some Ph_crashed
      then (if ss_crashPoint (psc_snapshot t) = None
            then (g, Some (t\<lparr>psc_stage := At_read, psc_copy := g\<rparr>), [])
            else crash_update g None t g)
      else phase_turn t g)"

definition multiplier_changed :: "jsnum option \<Rightarrow> jsnum \<Rightarrow> bool" where
  "multiplier_changed current m =
     (case current of None \<Rightarrow> True | Some c \<Rightarrow> jlt (lit (1/1000)) (jabs (jsub c m)))"

definition tick_turn :: "change_call \<Rightarrow> game_adapter \<Rightarrow> change_turn" where
  "tick_turn t g =
     (let s = psc_snapshot t
      in case (ss_phase s, ss_multiplier s) of
           (Some Ph_running, Some m) \<Rightarrow>
             if \<not> multiplier_changed (ga_multiplier g) m then crash_turn t g
             else let g' = g\<lparr>ga_multiplier := Some m, ga_lastTickAt := ss_timestamp s, ga_source := ss_source s,
                             ga_confidence := Conf_high, ga_tickCount := ga_tickCount g + 1\<rparr>;
                      e = adapter_event GE_multiplier_tick g' (Some m) None Ph_running Conf_high s
                  in if psc_emitted t then crash_turn t g'
                     else (emitted e g', Some (t\<lparr>psc_emitted := True, psc_stage := At_crash\<rparr>), [e])
         | _ \<Rightarrow> crash_turn t g)"

definition starts_round :: "game_adapter \<Rightarrow> source_snapshot \<Rightarrow> bool" where
  "starts_round prev s \<longleftrightarrow> ga_phase prev \<in> {Ph_idle, Ph_starting, Ph_crashed} \<and> ss_phase s = Some Ph_running \<and>
     text_or (ss_roundId s) None \<noteq> None"

text \<open>The first turn of a call, and the turns after it; \<open>answer\<close> is what the page says to \<open>extractExplicitCrashPoint\<close>.\<close>

definition processStateChange :: "bool \<Rightarrow> source_snapshot \<Rightarrow> game_adapter \<Rightarrow> change_turn" where
  "processStateChange poll s g =
     (let t = \<lparr>psc_prev = g, psc_snapshot = s, psc_changed = False, psc_emitted = False, psc_stage = At_tick, psc_copy = g,
              psc_poll = poll\<rparr>
      in if starts_round g s
         then let mult = num_or (ss_multiplier s) (Some (Fin 1));
                  g' = g\<lparr>ga_roundId := ss_roundId s, ga_phase := Ph_running, ga_multiplier := mult,
                         ga_startedAt := ss_timestamp s, ga_crashedAt := None, ga_crashPoint := None,
                         ga_lastTickAt := ss_timestamp s, ga_source := ss_source s, ga_confidence := Conf_high,
                         ga_tickCount := 0\<rparr>;
                  e = adapter_event GE_round_started g' mult None Ph_running Conf_high s
              in (emitted e g', Some (t\<lparr>psc_changed := True, psc_emitted := True\<rparr>), [e])
         else tick_turn t g)"

definition handleError :: "game_adapter \<Rightarrow> game_adapter" where
  "handleError g = g\<lparr>ga_errorCount := ga_errorCount g + 1, ga_consecutiveErrors := ga_consecutiveErrors g + 1\<rparr>"

definition continueStateChange :: "string + jsnum option \<Rightarrow> change_call \<Rightarrow> game_adapter \<Rightarrow> change_turn" where
  "continueStateChange answer t g =
     (case psc_stage t of
        At_tick \<Rightarrow> tick_turn t g
      | At_crash \<Rightarrow> crash_turn t g
      | At_phase \<Rightarrow> phase_turn t g
      | At_read \<Rightarrow> (case answer of
            Inl _ \<Rightarrow> (if psc_poll t then handleError g else g, None, [])
          | Inr read \<Rightarrow> crash_update (psc_copy t) read t g))"

definition recordLatency :: "int \<Rightarrow> game_adapter \<Rightarrow> game_adapter" where
  "recordLatency ms g =
     (let h = ga_latencyHistory g @ [ms] in g\<lparr>ga_latencyHistory := (if length h > 100 then tl h else h)\<rparr>)"

text \<open>What the page answers to a poll: the phase the selectors match, and the numbers read from the texts.\<close>

record page_reading =
  pr_phase :: string
  pr_multiplier :: "jsnum option"
  pr_roundId :: "string option"
  pr_crashPoint :: "jsnum option"
  pr_gameLoaded :: bool
  pr_timestamp :: string

text \<open>One tick of the polling interval: \<open>pollDomState\<close> with its error handler. \<open>Inl\<close> is a failing evaluation.\<close>

definition dom_snapshot :: "page_reading \<Rightarrow> int \<Rightarrow> source_snapshot" where
  "dom_snapshot r ms = \<lparr>ss_source = ''dom'', ss_roundId = pr_roundId r, ss_multiplier = pr_multiplier r,
     ss_phase = Some (mapPhase (pr_phase r)), ss_crashPoint = pr_crashPoint r,
     ss_timestamp = Some (pr_timestamp r), ss_latencyMs = ms\<rparr>"

definition pollDomState :: "string + page_reading \<Rightarrow> int \<Rightarrow> game_adapter \<Rightarrow> change_turn" where
  "pollDomState reading ms g =
     (if \<not> ga_started g then (g, None, [])
      else case reading of
        Inl _ \<Rightarrow> (handleError g, None, [])
      | Inr r \<Rightarrow>
          let g1 = recordLatency ms g
          in if \<not> pr_gameLoaded r then (g1, None, []) else processStateChange True (dom_snapshot r ms) g1)"

text \<open>A frame of a web socket: any JSON object, with \<open>source\<close> set to \<open>ws\<close>. A rejection is not handled.\<close>

definition ws_frame :: "source_snapshot \<Rightarrow> game_adapter \<Rightarrow> change_turn" where
  "ws_frame s g = processStateChange False (s\<lparr>ss_source := ''ws''\<rparr>) g"

definition adapter_start :: "game_adapter \<Rightarrow> game_adapter" where
  "adapter_start g = g\<lparr>ga_started := True\<rparr>"

definition adapter_stop :: "game_adapter \<Rightarrow> game_adapter" where
  "adapter_stop g = g\<lparr>ga_started := False\<rparr>"

definition noteDomMiss :: "bool \<Rightarrow> game_adapter \<Rightarrow> game_adapter" where
  "noteDomMiss missed g = g\<lparr>ga_domMissStreak := (if missed then ga_domMissStreak g + 1 else 0)\<rparr>"

definition getDomHealth :: "game_adapter \<Rightarrow> nat \<times> bool" where
  "getDomHealth g = (ga_domMissStreak g, ga_domMissStreak g < 10)"

text \<open>\<open>getHealth\<close>: the average of the whole-number latencies is compared and rounded as a double.\<close>

definition latency_avg :: "game_adapter \<Rightarrow> jsnum" where
  "latency_avg g = (if ga_latencyHistory g = [] then Fin 0
     else jdiv (jsint (sum_list (ga_latencyHistory g))) (jsint (int (length (ga_latencyHistory g)))))"

definition adapter_healthy :: "game_adapter \<Rightarrow> bool" where
  "adapter_healthy g \<longleftrightarrow> ga_started g \<and> ga_consecutiveErrors g < 5 \<and> jlt (latency_avg g) (Fin 1000)"


section \<open>The observer\<close>

record tick =
  tk_multiplier :: jsnum
  tk_timestamp :: "string option"
  tk_latencyMs :: int

record round_observer =
  ob_minConfidence :: "observation_confidence option"
  ob_staleThresholdMs :: "int option"
  ob_started :: bool
  ob_state :: round_state
  ob_tickHistory :: "tick list"
  ob_roundCount :: nat
  ob_lastStateChangeAt :: int
  ob_lastEventTimestamp :: "int option"

text \<open>The calls of the three kinds of listeners.\<close>

datatype callback = CB_state round_state | CB_round_start string | CB_round_complete string jsnum

definition ob_new :: "observation_confidence option \<Rightarrow> int option \<Rightarrow> int \<Rightarrow> round_observer" where
  "ob_new conf stale now = \<lparr>ob_minConfidence = conf, ob_staleThresholdMs = stale, ob_started = False,
     ob_state = \<lparr>rs_roundId = None, rs_phase = Ph_idle, rs_currentMultiplier = Some (Fin 1), rs_startedAt = None,
        rs_crashedAt = None, rs_crashPoint = None, rs_lastTickAt = None, rs_source = Src_unknown, rs_confidence = Conf_low\<rparr>,
     ob_tickHistory = [], ob_roundCount = 0, ob_lastStateChangeAt = now, ob_lastEventTimestamp = None\<rparr>"

definition ob_start :: "round_observer \<Rightarrow> round_observer" where
  "ob_start b = b\<lparr>ob_started := True\<rparr>"

definition ob_stop :: "round_observer \<Rightarrow> round_observer" where
  "ob_stop b = b\<lparr>ob_started := False\<rparr>"

definition asSource :: "string \<Rightarrow> observation_source" where
  "asSource s = (if s = ''websocket'' then Src_websocket else if s = ''dom'' then Src_dom
     else if s = ''api'' then Src_api else Src_unknown)"

fun source_confidence :: "observation_source \<Rightarrow> observation_confidence" where
  "source_confidence Src_websocket = Conf_high"
| "source_confidence Src_api = Conf_medium"
| "source_confidence Src_dom = Conf_medium"
| "source_confidence Src_unknown = Conf_low"

definition ob_calculateConfidence :: "game_event \<Rightarrow> observation_confidence" where
  "ob_calculateConfidence e = source_confidence (asSource (ge_source e))"

text \<open>\<open>parse\<close> is \<open>Date.parse\<close>; it answers \<open>None\<close> for \<open>NaN\<close>.\<close>

definition ob_updateState :: "(string \<Rightarrow> int option) \<Rightarrow> int \<Rightarrow> round_state \<Rightarrow> round_observer \<Rightarrow> round_observer \<times> callback list" where
  "ob_updateState parse now st b =
     (b\<lparr>ob_state := st, ob_lastStateChangeAt := now,
        ob_lastEventTimestamp :=
          (case text_or (rs_lastTickAt st) None of
             None \<Rightarrow> ob_lastEventTimestamp b
           | Some s \<Rightarrow> (case parse s of None \<Rightarrow> ob_lastEventTimestamp b | Some t \<Rightarrow> Some t))\<rparr>,
      [CB_state st])"

definition handleRoundStarted ::
  "(string \<Rightarrow> int option) \<Rightarrow> int \<Rightarrow> game_event \<Rightarrow> round_observer \<Rightarrow> round_observer \<times> callback list" where
  "handleRoundStarted parse now e b =
     (let b1 = b\<lparr>ob_tickHistory := [], ob_roundCount := ob_roundCount b + 1\<rparr>;
          st = \<lparr>rs_roundId = ge_roundId e, rs_phase = Ph_running, rs_currentMultiplier = Some (Fin 1),
                rs_startedAt = ge_timestamp e, rs_crashedAt = None, rs_crashPoint = None,
                rs_lastTickAt = ge_timestamp e, rs_source = asSource (ge_source e),
                rs_confidence = ob_calculateConfidence e\<rparr>
      in case ob_updateState parse now st b1 of
           (b2, cs) \<Rightarrow> (b2, cs @ [CB_round_start (case ge_roundId e of Some r \<Rightarrow> r | None \<Rightarrow> '''')]))"

definition other_round :: "game_event \<Rightarrow> round_observer \<Rightarrow> bool" where
  "other_round e b \<longleftrightarrow> text_or (ge_roundId e) None \<noteq> None \<and> text_or (rs_roundId (ob_state b)) None \<noteq> None \<and>
     ge_roundId e \<noteq> rs_roundId (ob_state b)"

definition handleMultiplierTick ::
  "(string \<Rightarrow> int option) \<Rightarrow> int \<Rightarrow> game_event \<Rightarrow> round_observer \<Rightarrow> round_observer \<times> callback list" where
  "handleMultiplierTick parse now e b =
     (if rs_phase (ob_state b) \<noteq> Ph_running then (b, [])
      else if other_round e b then (b, [])
      else
        let b1 = b\<lparr>ob_tickHistory := ob_tickHistory b @
                     [\<lparr>tk_multiplier = the (num_or (ge_multiplier e) (Some (Fin 1))), tk_timestamp = ge_timestamp e,
                       tk_latencyMs = ge_latencyMs e\<rparr>]\<rparr>;
            st = (ob_state b)\<lparr>rs_currentMultiplier := num_or (ge_multiplier e) (rs_currentMultiplier (ob_state b)),
                   rs_lastTickAt := ge_timestamp e, rs_source := asSource (ge_source e),
                   rs_confidence := ob_calculateConfidence e\<rparr>
        in ob_updateState parse now st b1)"

text \<open>The round of the callback is read after the state has been replaced, which keeps its identifier.\<close>

definition handleRoundCrashed ::
  "(string \<Rightarrow> int option) \<Rightarrow> int \<Rightarrow> game_event \<Rightarrow> round_observer \<Rightarrow> round_observer \<times> callback list" where
  "handleRoundCrashed parse now e b =
     (if rs_phase (ob_state b) = Ph_crashed then (b, [])
      else
        let cp = the (num_or (ge_crashPoint e) (num_or (rs_currentMultiplier (ob_state b)) (Some (Fin 1))));
            st = (ob_state b)\<lparr>rs_phase := Ph_crashed, rs_crashPoint := Some cp, rs_currentMultiplier := Some cp,
                   rs_lastTickAt := ge_timestamp e, rs_crashedAt := ge_timestamp e,
                   rs_source := asSource (ge_source e), rs_confidence := ob_calculateConfidence e\<rparr>;
            rid = the (text_or (ge_roundId e) (text_or (rs_roundId (ob_state b)) (Some ''unknown'')))
        in case ob_updateState parse now st b of (b1, cs) \<Rightarrow> (b1, cs @ [CB_round_complete rid cp]))"

definition handleGameEvent ::
  "(string \<Rightarrow> int option) \<Rightarrow> int \<Rightarrow> game_event \<Rightarrow> round_observer \<Rightarrow> round_observer \<times> callback list" where
  "handleGameEvent parse now e b =
     (case ge_type e of
        GE_round_started \<Rightarrow> handleRoundStarted parse now e b
      | GE_multiplier_tick \<Rightarrow> handleMultiplierTick parse now e b
      | GE_round_crashed \<Rightarrow> handleRoundCrashed parse now e b
      | GE_round_ended \<Rightarrow> handleRoundCrashed parse now e b
      | _ \<Rightarrow> (b, []))"

definition getLastEventAgeMs :: "int \<Rightarrow> round_observer \<Rightarrow> int" where
  "getLastEventAgeMs now b = (case ob_lastEventTimestamp b of None \<Rightarrow> 0 | Some t \<Rightarrow> now - t)"

definition ob_isStale :: "int \<Rightarrow> round_observer \<Rightarrow> bool" where
  "ob_isStale now b \<longleftrightarrow> rs_phase (ob_state b) = Ph_running \<and>
     (case ob_staleThresholdMs b of Some t \<Rightarrow> t | None \<Rightarrow> 2000) < getLastEventAgeMs now b"

definition ob_getConfidence :: "int \<Rightarrow> round_observer \<Rightarrow> observation_confidence" where
  "ob_getConfidence now b = (if ob_isStale now b then Conf_low else source_confidence (rs_source (ob_state b)))"

definition isValidForObservation :: "int \<Rightarrow> round_observer \<Rightarrow> bool" where
  "isValidForObservation now b \<longleftrightarrow>
     (let m = (case ob_minConfidence b of Some c \<Rightarrow> c | None \<Rightarrow> Conf_medium)
      in ob_started b \<and> rs_phase (ob_state b) = Ph_running \<and>
         \<not> (m = Conf_high \<and> ob_getConfidence now b \<noteq> Conf_high) \<and>
         \<not> (m = Conf_medium \<and> ob_getConfidence now b = Conf_low) \<and> \<not> ob_isStale now b)"

section \<open>The adapter feeding the observer\<close>

text \<open>
  An input is what a poll of the page read, a frame of a socket, or the next turn of a call of \<open>processStateChange\<close> that
  waits, with the answer of the page if it waits for one; they come in any order. The observer gets the events while it is
  started. Its handler is called at the emission and has no pause.
\<close>

datatype game_input = Poll "string + page_reading" int | Frame source_snapshot | Goes_on nat "string + jsnum option"

definition waiting :: "change_call option \<Rightarrow> change_call list" where
  "waiting t = (case t of None \<Rightarrow> [] | Some c \<Rightarrow> [c])"

fun adapter_input :: "game_input \<Rightarrow> game_adapter \<times> change_call list \<Rightarrow>
    (game_adapter \<times> change_call list) \<times> game_event list" where
  "adapter_input (Poll r ms) (g, calls) = (case pollDomState r ms g of (g', t, es) \<Rightarrow> ((g', calls @ waiting t), es))"
| "adapter_input (Frame s) (g, calls) = (case ws_frame s g of (g', t, es) \<Rightarrow> ((g', calls @ waiting t), es))"
| "adapter_input (Goes_on i answer) (g, calls) =
     (if i < length calls
      then case continueStateChange answer (calls ! i) g of
             (g', t, es) \<Rightarrow> ((g', take i calls @ waiting t @ drop (Suc i) calls), es)
      else ((g, calls), []))"

fun observe_events ::
  "(string \<Rightarrow> int option) \<Rightarrow> int \<Rightarrow> game_event list \<Rightarrow> round_observer \<Rightarrow> round_observer \<times> callback list" where
  "observe_events parse now [] b = (b, [])"
| "observe_events parse now (e # es) b =
     (case (if ob_started b then handleGameEvent parse now e b else (b, [])) of
        (b1, cs) \<Rightarrow> (case observe_events parse now es b1 of (b2, ds) \<Rightarrow> (b2, cs @ ds)))"

type_synonym game_system = "(game_adapter \<times> change_call list) \<times> round_observer"

definition game_step ::
  "(string \<Rightarrow> int option) \<Rightarrow> game_system \<Rightarrow> int \<times> game_input \<Rightarrow> game_system \<times> callback list" where
  "game_step parse go ti =
     (case adapter_input (snd ti) (fst go) of
        (g, es) \<Rightarrow> (case observe_events parse (fst ti) es (snd go) of (b, cs) \<Rightarrow> ((g, b), cs)))"

fun game_run ::
  "(string \<Rightarrow> int option) \<Rightarrow> game_system \<Rightarrow> (int \<times> game_input) list \<Rightarrow> game_system \<times> callback list" where
  "game_run parse go [] = (go, [])"
| "game_run parse go (t # ts) =
     (case game_step parse go t of (go1, cs) \<Rightarrow> (case game_run parse go1 ts of (go2, ds) \<Rightarrow> (go2, cs @ ds)))"

section \<open>One event at most per input\<close>

lemma text_or_Some: "text_or x y = Some s \<longleftrightarrow> (x = Some s \<and> s \<noteq> '''') \<or> ((x = None \<or> x = Some '''') \<and> y = Some s)"
  by (auto simp: text_or_def split: option.splits)

text \<open>
  The adapter's round changes only with a \<open>round-started\<close> event, whose identifier it becomes and which is not
  empty; every event carries it; and an input yields one event at most.
\<close>

definition events_match :: "game_adapter \<Rightarrow> game_adapter \<Rightarrow> game_event list \<Rightarrow> bool" where
  "events_match g g' es \<longleftrightarrow>
     (case es of
        [] \<Rightarrow> ga_roundId g' = ga_roundId g
      | [e] \<Rightarrow> ge_roundId e = ga_roundId g' \<and> ge_type e \<noteq> GE_round_ended \<and>
          (if ge_type e = GE_round_started then text_or (ge_roundId e) None \<noteq> None
           else ga_roundId g' = ga_roundId g)
      | _ \<Rightarrow> False)"

lemma counters_keep_round [simp]:
  "ga_roundId (recordLatency ms g) = ga_roundId g" "ga_roundId (handleError g) = ga_roundId g"
  by (simp_all add: recordLatency_def handleError_def Let_def)

text \<open>
  What a turn leaves: its events match the change of the round, and they and the call that goes on have the source
  of its snapshot.
\<close>

definition turn_ok :: "source_snapshot \<Rightarrow> game_adapter \<Rightarrow> change_turn \<Rightarrow> bool" where
  "turn_ok s g r = (case r of (g', t, es) \<Rightarrow> events_match g g' es \<and> list_all (\<lambda>e. ge_source e = ss_source s) es \<and>
     list_all (\<lambda>c. psc_snapshot c = s) (waiting t))"

lemma phase_turn_ok: "turn_ok (psc_snapshot t) g (phase_turn t g)"
  by (auto simp: phase_turn_def turn_ok_def events_match_def emitted_def adapter_event_def waiting_def Let_def)

lemma crash_update_ok:
  "ga_roundId c = ga_roundId g \<Longrightarrow> turn_ok (psc_snapshot t) g (crash_update c read t g)"
  by (auto simp: crash_update_def turn_ok_def events_match_def emitted_def adapter_event_def waiting_def Let_def)

lemma crash_turn_ok: "turn_ok (psc_snapshot t) g (crash_turn t g)"
  using phase_turn_ok [of t g] crash_update_ok [of g g t None]
  by (auto simp: crash_turn_def) (auto simp: turn_ok_def events_match_def waiting_def)

lemma turn_ok_round: "turn_ok s g' r \<Longrightarrow> ga_roundId g' = ga_roundId g \<Longrightarrow> turn_ok s g r"
proof -
  assume r: "turn_ok s g' r" and "ga_roundId g' = ga_roundId g"
  then have "events_match g' h es = events_match g h es" for h es by (simp only: events_match_def)
  with r show ?thesis by (simp add: turn_ok_def split: prod.splits)
qed

lemma tick_turn_ok: "turn_ok (psc_snapshot t) g (tick_turn t g)"
proof (cases "\<exists>m. ss_phase (psc_snapshot t) = Some Ph_running \<and> ss_multiplier (psc_snapshot t) = Some m \<and>
    multiplier_changed (ga_multiplier g) m")
  case True
  then obtain m where m: "ss_phase (psc_snapshot t) = Some Ph_running" "ss_multiplier (psc_snapshot t) = Some m"
    "multiplier_changed (ga_multiplier g) m" by auto
  define g' where "g' = g\<lparr>ga_multiplier := Some m, ga_lastTickAt := ss_timestamp (psc_snapshot t),
    ga_source := ss_source (psc_snapshot t), ga_confidence := Conf_high, ga_tickCount := ga_tickCount g + 1\<rparr>"
  have "turn_ok (psc_snapshot t) g (crash_turn t g')"
    by (rule turn_ok_round [OF crash_turn_ok]) (simp add: g'_def)
  then show ?thesis
    using m by (auto simp: tick_turn_def Let_def simp flip: g'_def)
      (auto simp: turn_ok_def events_match_def emitted_def adapter_event_def waiting_def g'_def)
next
  case False
  then have "tick_turn t g = crash_turn t g"
    by (auto simp: tick_turn_def Let_def split: option.split round_phase.split)
  then show ?thesis by (simp add: crash_turn_ok)
qed

lemma processStateChange_ok: "turn_ok s g (processStateChange poll s g)"
proof (cases "starts_round g s")
  case True
  then show ?thesis
    by (auto simp: processStateChange_def starts_round_def turn_ok_def events_match_def emitted_def adapter_event_def
        waiting_def Let_def)
next
  case False
  then show ?thesis
    using tick_turn_ok [of "\<lparr>psc_prev = g, psc_snapshot = s, psc_changed = False, psc_emitted = False,
        psc_stage = At_tick, psc_copy = g, psc_poll = poll\<rparr>" g]
    by (simp add: processStateChange_def Let_def)
qed

text \<open>An answer of the page that comes in the round in which it was asked for.\<close>

definition same_round :: "game_adapter \<Rightarrow> change_call \<Rightarrow> bool" where
  "same_round g t \<longleftrightarrow> (psc_stage t = At_read \<longrightarrow> ga_roundId (psc_copy t) = ga_roundId g)"

lemma continueStateChange_ok: "same_round g t \<Longrightarrow> turn_ok (psc_snapshot t) g (continueStateChange answer t g)"
  using crash_update_ok [of "psc_copy t" g t]
  by (auto simp: continueStateChange_def same_round_def tick_turn_ok crash_turn_ok phase_turn_ok
      split: change_stage.split sum.split)
    (auto simp: turn_ok_def events_match_def waiting_def)

text \<open>The source of a turn, whatever round it is about.\<close>

lemma continueStateChange_source:
  assumes "continueStateChange answer t g = (g', u, es)"
  shows "list_all (\<lambda>e. ge_source e = ss_source (psc_snapshot t)) es \<and> list_all (\<lambda>c. psc_snapshot c = psc_snapshot t) (waiting u)"
proof (cases "psc_stage t = At_read")
  case True
  then show ?thesis
    using assms by (auto simp: continueStateChange_def crash_update_def emitted_def adapter_event_def waiting_def Let_def
        split: sum.splits)
next
  case False
  then have "same_round g t" by (simp add: same_round_def)
  from continueStateChange_ok [OF this, of answer] assms show ?thesis by (simp add: turn_ok_def)
qed

definition known_sources :: "change_call list \<Rightarrow> bool" where
  "known_sources calls \<longleftrightarrow> list_all (\<lambda>c. ss_source (psc_snapshot c) \<in> {''dom'', ''ws''}) calls"

fun answered_in_round :: "game_input \<Rightarrow> game_adapter \<times> change_call list \<Rightarrow> bool" where
  "answered_in_round (Goes_on i answer) (g, calls) = (if i < length calls then same_round g (calls ! i) else True)"
| "answered_in_round _ _ = True"

lemma start_input:
  assumes "adapter_input i (g, calls) = ((g', calls'), es)" and "\<nexists>k x. i = Goes_on k x"
  shows "events_match g g' es \<and> list_all (\<lambda>e. ge_source e \<in> {''dom'', ''ws''}) es \<and>
    (\<exists>u. calls' = calls @ waiting u \<and> known_sources (waiting u))"
proof -
  have begun: "events_match g g' fs \<and> list_all (\<lambda>e. ge_source e \<in> {''dom'', ''ws''}) fs \<and> known_sources (waiting u)"
    if "processStateChange poll s h = (g', u, fs)" "ga_roundId h = ga_roundId g" "ss_source s \<in> {''dom'', ''ws''}" for poll s h u fs
    using turn_ok_round [OF processStateChange_ok [of s h poll], of g] that
    by (auto simp: turn_ok_def known_sources_def list_all_iff)
  show ?thesis
  proof (cases i)
    case (Poll r ms)
    have idle: "waiting None = []" "known_sources (waiting None)" by (simp_all add: waiting_def known_sources_def)
    show ?thesis
    proof (cases "\<exists>y. r = Inr y \<and> ga_started g \<and> pr_gameLoaded y")
      case False
      then show ?thesis
        using assms(1) by (auto simp: Poll pollDomState_def Let_def events_match_def
            split: sum.splits if_splits intro!: exI [where x = "None :: change_call option"] idle)
    next
      case True
      then obtain y where y: "r = Inr y" "ga_started g" "pr_gameLoaded y" by auto
      obtain g2 u fs where p: "processStateChange True (dom_snapshot y ms) (recordLatency ms g) = (g2, u, fs)"
        by (cases "processStateChange True (dom_snapshot y ms) (recordLatency ms g)")
      then have "g2 = g'" "calls' = calls @ waiting u" "es = fs"
        using assms(1) y by (simp_all add: Poll pollDomState_def)
      then show ?thesis using begun [of True "dom_snapshot y ms" "recordLatency ms g" u fs] p
        by (auto simp: dom_snapshot_def)
    qed
  next
    case (Frame s)
    obtain g2 u fs where p: "processStateChange False (s\<lparr>ss_source := ''ws''\<rparr>) g = (g2, u, fs)"
      by (cases "processStateChange False (s\<lparr>ss_source := ''ws''\<rparr>) g")
    then have "g2 = g'" "calls' = calls @ waiting u" "es = fs"
      using assms(1) by (simp_all add: Frame ws_frame_def)
    then show ?thesis using begun [of False "s\<lparr>ss_source := ''ws''\<rparr>" g u fs] p by auto
  qed (use assms(2) in auto)
qed

lemma adapter_input_sources:
  assumes "adapter_input i (g, calls) = ((g', calls'), es)" and "known_sources calls"
  shows "list_all (\<lambda>e. ge_source e \<in> {''dom'', ''ws''}) es \<and> known_sources calls'"
proof (cases "\<exists>k x. i = Goes_on k x")
  case True
  then obtain k x where i: "i = Goes_on k x" by auto
  obtain h u fs where c: "continueStateChange x (calls ! k) g = (h, u, fs)" by (cases "continueStateChange x (calls ! k) g")
  have "ss_source (psc_snapshot (calls ! k)) \<in> {''dom'', ''ws''}" if "k < length calls"
    using assms(2) that by (simp add: known_sources_def list_all_length)
  then have "list_all (\<lambda>e. ge_source e \<in> {''dom'', ''ws''}) fs \<and> known_sources (waiting u)" if "k < length calls"
    using continueStateChange_source [OF c] that by (auto simp: known_sources_def list_all_iff)
  moreover have "known_sources (take k calls)" "known_sources (drop (Suc k) calls)"
    using assms(2) by (auto simp: known_sources_def list_all_iff dest: in_set_takeD in_set_dropD)
  ultimately show ?thesis
    using assms by (auto simp: i c known_sources_def split: if_splits)
next
  case False
  with start_input [OF assms(1)] assms(2) show ?thesis by (auto simp: known_sources_def)
qed

lemma adapter_input_events:
  assumes "adapter_input i (g, calls) = ((g', calls'), es)" and "answered_in_round i (g, calls)"
  shows "events_match g g' es"
proof (cases "\<exists>k x. i = Goes_on k x")
  case True
  then obtain k x where i: "i = Goes_on k x" by auto
  obtain h u fs where c: "continueStateChange x (calls ! k) g = (h, u, fs)" by (cases "continueStateChange x (calls ! k) g")
  show ?thesis
    using assms continueStateChange_ok [of g "calls ! k" x] c
    by (auto simp: i turn_ok_def events_match_def split: if_splits)
next
  case False
  with start_input [OF assms(1)] show ?thesis by auto
qed

section \<open>The observer follows the adapter\<close>

definition follows :: "game_adapter \<Rightarrow> round_observer \<Rightarrow> bool" where
  "follows g b \<longleftrightarrow> ob_started b \<and> rs_roundId (ob_state b) = ga_roundId g \<and> ga_roundId g \<noteq> Some '''' \<and>
     (ga_roundId g = None \<longrightarrow> rs_phase (ob_state b) \<noteq> Ph_running)"

text \<open>
  The order of the callbacks: the round that is reported complete is the one last reported started, or
  \<open>unknown\<close> before the first, and it is open.
\<close>

fun callback_step :: "(string option \<times> bool) option \<Rightarrow> callback \<Rightarrow> (string option \<times> bool) option" where
  "callback_step None _ = None"
| "callback_step (Some s) (CB_state _) = Some s"
| "callback_step (Some _) (CB_round_start r) = Some (Some r, True)"
| "callback_step (Some (cur, opened)) (CB_round_complete r _) =
     (if opened \<and> r = (case cur of Some c \<Rightarrow> c | None \<Rightarrow> ''unknown'') then Some (cur, False) else None)"

definition alternating :: "callback list \<Rightarrow> bool" where
  "alternating cs \<longleftrightarrow> foldl callback_step (Some (None, True)) cs \<noteq> None"

definition round_view :: "round_observer \<Rightarrow> (string option \<times> bool) option" where
  "round_view b = Some (rs_roundId (ob_state b), rs_phase (ob_state b) \<noteq> Ph_crashed)"

lemma handle_follows:
  assumes "follows g b" "events_match g g' [e]" "handleGameEvent parse now e b = (b', cs)"
  shows "follows g' b' \<and> foldl callback_step (round_view b) cs = round_view b'"
  using assms
  by (cases "ge_type e")
    (auto simp: follows_def events_match_def handleGameEvent_def handleRoundStarted_def handleMultiplierTick_def
      handleRoundCrashed_def ob_updateState_def round_view_def Let_def text_or_def other_round_def
      split: option.splits if_splits)

lemma step_follows:
  assumes "follows (fst (fst go)) (snd go)" "game_step parse go t = (go', cs)" "answered_in_round (snd t) (fst go)"
  shows "follows (fst (fst go')) (snd go') \<and> foldl callback_step (round_view (snd go)) cs = round_view (snd go')"
proof -
  obtain g calls b where go: "go = ((g, calls), b)" by (metis prod.collapse)
  obtain g' calls' es where a: "adapter_input (snd t) (g, calls) = ((g', calls'), es)" by (metis prod.collapse)
  have m: "events_match g g' es" using adapter_input_events [OF a] assms(3) by (simp add: go)
  have st: "ob_started b" using assms(1) by (simp add: follows_def go)
  consider (quiet) "es = []" | (one) e where "es = [e]"
    using m by (auto simp: events_match_def split: list.splits)
  then show ?thesis
  proof cases
    case quiet
    then show ?thesis
      using assms m by (auto simp: game_step_def go a events_match_def follows_def)
  next
    case one
    obtain b' ds where h: "handleGameEvent parse (fst t) e b = (b', ds)"
      by (cases "handleGameEvent parse (fst t) e b")
    have "go' = ((g', calls'), b')" "cs = ds"
      using assms(2) st h by (auto simp: game_step_def go a one)
    then show ?thesis
      using handle_follows [OF _ _ h] assms(1) m by (simp add: go one)
  qed
qed

text \<open>A run in which each answer of the page comes in the round in which it was asked for.\<close>

fun answers_in_round :: "(string \<Rightarrow> int option) \<Rightarrow> game_system \<Rightarrow> (int \<times> game_input) list \<Rightarrow> bool" where
  "answers_in_round parse go [] = True"
| "answers_in_round parse go (t # ts) =
     (answered_in_round (snd t) (fst go) \<and> answers_in_round parse (fst (game_step parse go t)) ts)"

lemma run_follows:
  "follows (fst (fst go)) (snd go) \<Longrightarrow> answers_in_round parse go ts \<Longrightarrow> game_run parse go ts = (go', cs) \<Longrightarrow>
     follows (fst (fst go')) (snd go') \<and> foldl callback_step (round_view (snd go)) cs = round_view (snd go')"
proof (induction ts arbitrary: go cs)
  case (Cons t ts)
  obtain go1 ds es where "game_step parse go t = (go1, ds)" "game_run parse go1 ts = (go', es)" "cs = ds @ es"
    using Cons.prems(3) by (auto split: prod.splits)
  then show ?case using Cons.IH [of go1 es] step_follows [OF Cons.prems(1), of parse t go1 ds] Cons.prems(2) by simp
qed simp

section \<open>No high confidence\<close>

definition not_high :: "round_observer \<Rightarrow> bool" where
  "not_high b \<longleftrightarrow> rs_confidence (ob_state b) \<noteq> Conf_high \<and> rs_source (ob_state b) \<noteq> Src_websocket"

lemma handle_not_high:
  assumes "not_high b" "ge_source e \<in> {''dom'', ''ws''}"
  shows "not_high (fst (handleGameEvent parse now e b))"
  using assms
  by (cases "ge_type e")
    (auto simp: not_high_def handleGameEvent_def handleRoundStarted_def handleMultiplierTick_def handleRoundCrashed_def
      ob_updateState_def ob_calculateConfidence_def asSource_def Let_def)

lemma observe_not_high:
  "not_high b \<Longrightarrow> list_all (\<lambda>e. ge_source e \<in> {''dom'', ''ws''}) es \<Longrightarrow> not_high (fst (observe_events parse now es b))"
proof (induction es arbitrary: b)
  case (Cons e es)
  define h where "h = (if ob_started b then handleGameEvent parse now e b else (b, []))"
  have "not_high (fst h)" using Cons.prems handle_not_high by (simp add: h_def)
  then show ?case
    using Cons by (simp add: case_prod_beta flip: h_def)
qed simp

lemma run_not_high:
  "not_high (snd go) \<Longrightarrow> known_sources (snd (fst go)) \<Longrightarrow> not_high (snd (fst (game_run parse go ts)))"
proof (induction ts arbitrary: go)
  case (Cons t ts)
  obtain g calls b where go: "go = ((g, calls), b)" by (metis prod.collapse)
  obtain g' calls' es where a: "adapter_input (snd t) (g, calls) = ((g', calls'), es)" by (metis prod.collapse)
  have known: "list_all (\<lambda>e. ge_source e \<in> {''dom'', ''ws''}) es" "known_sources calls'"
    using adapter_input_sources [OF a] Cons.prems(2) by (simp_all add: go)
  then have "not_high (snd (fst (game_step parse go t))) \<and> known_sources (snd (fst (fst (game_step parse go t))))"
    using observe_not_high [of b es parse "fst t"] Cons.prems(1) by (simp add: game_step_def go a case_prod_beta)
  then show ?case using Cons.IH by (simp add: case_prod_beta)
qed simp


lemma approval_needs_high:
  assumes "ri_roundState inp = Some r" "isApproved now b inp"
  shows "rs_confidence r = Conf_high"
proof -
  have "evaluateAllConditions now inp K_observationConfidenceHigh"
    using assms(2) isApproved_iff by blast
  then show ?thesis using assms(1) by (simp add: evaluateAllConditions_def Let_def)
qed

section \<open>Properties\<close>

text \<open>The observer and the adapter as the supervisor builds them.\<close>

definition fresh_game :: "observation_confidence option \<Rightarrow> int option \<Rightarrow> int \<Rightarrow> game_system" where
  "fresh_game conf stale now = ((adapter_start ga_new, []), ob_start (ob_new conf stale now))"

text \<open>
  C30. Rounds are reported in order: whatever the page and the sockets answer, and however the turns of the calls that
  process them interleave, a round is reported complete at most once after a start was reported, under the identifier of
  that start, and only a crash seen before the first start is reported as the round \<open>unknown\<close>; provided that when
  the page was asked for a crash point its answer comes before the next round starts.
\<close>

theorem rounds_reported_in_order:
  assumes "answers_in_round parse (fresh_game conf stale now) ts"
  shows "alternating (snd (game_run parse (fresh_game conf stale now) ts))"
proof -
  obtain go cs where r: "game_run parse (fresh_game conf stale now) ts = (go, cs)"
    by (cases "game_run parse (fresh_game conf stale now) ts")
  have "follows (fst (fst (fresh_game conf stale now))) (snd (fresh_game conf stale now))"
    by (simp add: fresh_game_def follows_def ob_start_def ob_new_def adapter_start_def ga_new_def)
  from run_follows [OF this assms r] have "foldl callback_step (round_view (snd (fresh_game conf stale now))) cs = round_view (snd go)"
    by simp
  then have "foldl callback_step (Some (None, True)) cs \<noteq> None"
    by (simp add: fresh_game_def round_view_def ob_start_def ob_new_def)
  then show ?thesis by (simp add: r alternating_def)
qed

definition demo_frame :: "string \<Rightarrow> round_phase \<Rightarrow> jsnum option \<Rightarrow> source_snapshot" where
  "demo_frame rid ph cp = \<lparr>ss_source = ''ws'', ss_roundId = Some rid, ss_multiplier = None, ss_phase = Some ph,
     ss_crashPoint = cp, ss_timestamp = Some ''t'', ss_latencyMs = 0\<rparr>"

text \<open>
  A round starts, the page shows its crash without a crash point, and while the page is asked for it a frame reports the
  crash point; then the next round starts, before or after the page answers.
\<close>

definition crash_race :: "bool \<Rightarrow> (int \<times> game_input) list" where
  "crash_race late =
     [(0, Frame (demo_frame ''r1'' Ph_running None)), (1, Goes_on 0 (Inr None)),
      (2, Frame (demo_frame ''r1'' Ph_crashed None)), (3, Frame (demo_frame ''r1'' Ph_crashed (Some (Fin 2)))),
      (4, Goes_on 1 (Inr None))] @
     (let start = [(5, Frame (demo_frame ''r2'' Ph_running None))]; answer = [(6, Goes_on 0 (Inr (Some (Fin 2))))]
      in if late then start @ answer else answer @ start)"

lemmas game_run_defs = game_step_def ws_frame_def processStateChange_def starts_round_def tick_turn_def crash_turn_def
  crash_update_def phase_turn_def continueStateChange_def waiting_def emitted_def adapter_event_def handleGameEvent_def
  handleRoundStarted_def handleRoundCrashed_def handleMultiplierTick_def ob_updateState_def text_or_def num_or_def
  num_coalesce_def other_round_def fresh_game_def adapter_start_def ga_new_def ob_start_def ob_new_def demo_frame_def
  crash_race_def Let_def

theorem rounds_reported_in_order_witness:
  "alternating (snd (game_run (\<lambda>_. None) (fresh_game None None 0) (crash_race False)))"
  by (rule rounds_reported_in_order) (simp add: same_round_def game_run_defs)

text \<open>
  An answer that comes after the next round has started reports the old round complete a second time, while the
  new one is running.
\<close>

lemma late_answer_completes_twice:
  "filter (\<lambda>c. case c of CB_state _ \<Rightarrow> False | _ \<Rightarrow> True)
       (snd (game_run (\<lambda>_. None) (fresh_game None None 0) (crash_race True))) =
     [CB_round_start ''r1'', CB_round_complete ''r1'' (Fin 2), CB_round_start ''r2'', CB_round_complete ''r1'' (Fin 2)]"
  by (simp add: game_run_defs)



definition demo_reading :: "string \<Rightarrow> jsnum option \<Rightarrow> page_reading" where
  "demo_reading phase mult = \<lparr>pr_phase = phase, pr_multiplier = mult, pr_roundId = Some ''r100'', pr_crashPoint = None,
     pr_gameLoaded = True, pr_timestamp = ''t''\<rparr>"

lemma demo_reading_simps [simp]:
  "pr_phase (demo_reading p m) = p" "pr_gameLoaded (demo_reading p m)"
  by (simp_all add: demo_reading_def)

definition demo_observed :: game_system where
  "demo_observed = fst (game_run (\<lambda>_. None) (fresh_game (Some Conf_high) None 0)
     [(0, Poll (Inr (demo_reading ''running'' (Some (Fin 1)))) 5)])"


text \<open>
  An unreadable poll hides a crash: when a poll in a running round finds no known phase, as while the page
  is redrawn, and the next one finds the round crashed, neither yields an event; the observer goes on with the
  crashed round as running.
\<close>

lemma unknown_phase_hides_crash:
  assumes "ga_phase g = Ph_running" "ga_started g"
    and "mapPhase (pr_phase r1) = Ph_unknown" "pr_gameLoaded r1"
    and "mapPhase (pr_phase r2) = Ph_crashed" "pr_gameLoaded r2"
  shows "let (g1, c1, es1) = pollDomState (Inr r1) ms1 g; (g2, c2, es2) = pollDomState (Inr r2) ms2 g1
    in c1 = None \<and> es1 = [] \<and> c2 = None \<and> es2 = [] \<and> ga_phase g2 = Ph_crashed \<and> ga_roundId g2 = ga_roundId g"
  using assms
  by (simp add: pollDomState_def dom_snapshot_def recordLatency_def processStateChange_def starts_round_def
      tick_turn_def crash_turn_def phase_turn_def Let_def)

text \<open>
  A round whose start is seen while the adapter still thinks another one is running is taken for that other one:
  its ticks are reported under the old identifier and no start is.
\<close>

lemma running_round_keeps_identifier:
  assumes "processStateChange poll s g = (g', t, es)" "ga_phase g = Ph_running" "ss_phase s = Some Ph_running"
  shows "ga_roundId g' = ga_roundId g \<and> list_all (\<lambda>e. ge_type e = GE_multiplier_tick \<and> ge_roundId e = ga_roundId g) es"
  using assms
  by (auto simp: processStateChange_def starts_round_def tick_turn_def crash_turn_def phase_turn_def
      emitted_def adapter_event_def Let_def split: option.splits if_splits)

end
