(* ===== verification/Supervisor.thy ===== *)
theory Supervisor
  imports BetExecution
begin

text \<open>
  \<open>SessionSupervisor\<close> of \<open>src/src/core/session-supervisor.ts\<close>: the phases of browser, log-in and observation. The
  browser, its page and the log-in pipeline are arguments, answered once for each call of an operation; each
  operation returns the phases it announces, in order. A failing call carries the message of its error.
\<close>

section \<open>State\<close>

datatype supervisor_phase = SP_idle | SP_initializing | SP_launching_browser | SP_restoring_session | SP_authenticating
  | SP_auth_required | SP_browser_failed | SP_region_blocked | SP_navigating | SP_loading_game | SP_observing | SP_paused
  | SP_recovering | SP_error | SP_stopped | SP_preflight_failed

datatype login_status = LS_NOT_TESTED | LS_TESTING | LS_AUTHENTICATED | LS_AUTH_FAILED | LS_REGION_BLOCKED

record login_report =
  lr_status :: login_status
  lr_classification :: string
  lr_regionBlocked :: bool

text \<open>
  \<open>SupervisorState\<close> and the private references, of which only the presence is kept; \<open>sv_attached\<close> is the presence
  of the two subscriptions that forward rounds to the event bus, \<open>sv_phases\<close> what the phase emitter has emitted.
\<close>

record supervisor =
  sv_phase :: supervisor_phase
  sv_sessionId :: "string option"
  sv_browserLaunched :: bool
  sv_authenticated :: bool
  sv_gameLoaded :: bool
  sv_observing :: bool
  sv_errorCount :: nat
  sv_consecutiveErrors :: nat
  sv_lastError :: "string option"
  sv_startedAt :: "string option"
  sv_loginStatus :: login_status
  sv_lastLoginReport :: "login_report option"
  sv_browserManager :: bool
  sv_browserSession :: bool
  sv_healthMonitor :: bool
  sv_gameAdapter :: bool
  sv_roundObserver :: bool
  sv_attached :: bool
  sv_phases :: "supervisor_phase list"

definition sv_new :: "string option \<Rightarrow> supervisor" where
  "sv_new sid = \<lparr>sv_phase = SP_idle, sv_sessionId = sid, sv_browserLaunched = False, sv_authenticated = False,
     sv_gameLoaded = False, sv_observing = False, sv_errorCount = 0, sv_consecutiveErrors = 0, sv_lastError = None,
     sv_startedAt = None, sv_loginStatus = LS_NOT_TESTED, sv_lastLoginReport = None, sv_browserManager = False,
     sv_browserSession = False, sv_healthMonitor = False, sv_gameAdapter = False, sv_roundObserver = False,
     sv_attached = False, sv_phases = []\<rparr>"

text \<open>What the outside answers during one operation.\<close>

record supervisor_env =
  se_mode :: "string option"
  se_now :: string
  se_sessionId :: "string option"
  se_newSessionId :: string
  se_preflight_ok :: bool
  se_launch :: "string + unit"
  se_context :: bool
  se_page :: bool
  se_restore :: "string + bool"
  se_check :: "string + bool \<times> bool"
  se_navigate :: "string + bool"
  se_adapter_start :: "string + unit"
  se_pipeline :: "string + login_report"

definition setPhase :: "supervisor_phase \<Rightarrow> supervisor \<Rightarrow> supervisor" where
  "setPhase p s = s\<lparr>sv_phase := p, sv_phases := sv_phases s @ [p]\<rparr>"

text \<open>A step that may raise: the state it leaves and the message. \<open>then_do\<close> is sequencing of awaited calls.\<close>

type_synonym 'a raising = "supervisor \<Rightarrow> supervisor \<times> (string + 'a)"

definition then_do :: "unit raising \<Rightarrow> 'a raising \<Rightarrow> 'a raising" where
  "then_do f g s = (case f s of (s1, Inl e) \<Rightarrow> (s1, Inl e) | (s1, Inr _) \<Rightarrow> g s1)"

definition pure_step :: "(supervisor \<Rightarrow> supervisor) \<Rightarrow> unit raising" where
  "pure_step f s = (f s, Inr ())"

section \<open>The private steps\<close>

definition has_page :: "supervisor_env \<Rightarrow> supervisor \<Rightarrow> bool" where
  "has_page v s \<longleftrightarrow> sv_browserManager s \<and> se_page v"

definition initializeProfile :: "supervisor_env \<Rightarrow> supervisor \<Rightarrow> supervisor" where
  "initializeProfile v s = s\<lparr>sv_browserSession := True,
     sv_sessionId := (if sv_sessionId s = None \<or> sv_sessionId s = Some ''''
        then Some (case se_sessionId v of Some i \<Rightarrow> i | None \<Rightarrow> se_newSessionId v) else sv_sessionId s)\<rparr>"

definition launchBrowser :: "supervisor_env \<Rightarrow> unit raising" where
  "launchBrowser v s =
     (let s1 = (setPhase SP_launching_browser s)\<lparr>sv_browserManager := True\<rparr>
      in case se_launch v of
           Inl e \<Rightarrow> (s1, Inl e)
         | Inr _ \<Rightarrow> (s1\<lparr>sv_browserLaunched := True\<rparr>, Inr ()))"

definition restoreSessionState :: "supervisor_env \<Rightarrow> unit raising" where
  "restoreSessionState v s =
     (let s1 = setPhase SP_restoring_session s
      in if sv_browserManager s1 \<and> se_context v \<and> sv_browserSession s1
         then (case se_restore v of Inl e \<Rightarrow> (s1, Inl e) | Inr _ \<Rightarrow> (s1, Inr ()))
         else (s1, Inr ()))"

definition refreshAuthStatusFromPage :: "supervisor_env \<Rightarrow> supervisor \<Rightarrow> supervisor" where
  "refreshAuthStatusFromPage v s =
     (if \<not> has_page v s \<or> \<not> sv_browserSession s then s
      else case se_check v of
        Inl _ \<Rightarrow> s
      | Inr (regionBlocked, authenticated) \<Rightarrow>
          if regionBlocked
          then setPhase SP_region_blocked (s\<lparr>sv_authenticated := False, sv_loginStatus := LS_REGION_BLOCKED\<rparr>)
          else if authenticated then s\<lparr>sv_authenticated := True, sv_loginStatus := LS_AUTHENTICATED\<rparr>
          else s)"

definition navigateToGame :: "supervisor_env \<Rightarrow> unit raising" where
  "navigateToGame v s =
     (let s1 = setPhase SP_navigating s
      in if \<not> sv_browserManager s1 then (s1, Inl ''Browser not launched'')
         else (case se_navigate v of
             Inl e \<Rightarrow> (s1, Inl e)
           | Inr _ \<Rightarrow> (setPhase SP_loading_game (s1\<lparr>sv_gameLoaded := True\<rparr>), Inr ())))"

definition detachObserverListeners :: "supervisor \<Rightarrow> supervisor" where
  "detachObserverListeners s = s\<lparr>sv_attached := False\<rparr>"

definition initializeObservation :: "supervisor_env \<Rightarrow> unit raising" where
  "initializeObservation v s =
     (if \<not> has_page v s then (s, Inl ''No page for observation'')
      else
        let s1 = (detachObserverListeners s)\<lparr>sv_gameAdapter := True, sv_roundObserver := True\<rparr>
        in case se_adapter_start v of
             Inl e \<Rightarrow> (s1, Inl e)
           | Inr _ \<Rightarrow> (s1\<lparr>sv_attached := True, sv_observing := True\<rparr>, Inr ()))"

definition stopHealthMonitoring :: "supervisor \<Rightarrow> supervisor" where
  "stopHealthMonitoring s = s\<lparr>sv_healthMonitor := False\<rparr>"

definition startHealthMonitoring :: "supervisor \<Rightarrow> supervisor" where
  "startHealthMonitoring s = (stopHealthMonitoring s)\<lparr>sv_healthMonitor := True\<rparr>"

section \<open>The operations\<close>

definition begin_observing :: "supervisor_env \<Rightarrow> unit raising" where
  "begin_observing v = then_do (navigateToGame v) (then_do (initializeObservation v)
     (pure_step (\<lambda>s. (setPhase SP_observing (startHealthMonitoring s))\<lparr>sv_observing := True\<rparr>)))"

definition sup_mode :: "supervisor_env \<Rightarrow> string" where
  "sup_mode v = toLowerCase (case se_mode v of Some m \<Rightarrow> m | None \<Rightarrow> ''dry-run'')"

definition auth_optional :: "supervisor_env \<Rightarrow> bool" where
  "auth_optional v \<longleftrightarrow> sup_mode v = ''dry-run'' \<or> sup_mode v = ''observe-only''"

definition start_body :: "supervisor_env \<Rightarrow> unit raising" where
  "start_body v = then_do (pure_step (initializeProfile v)) (then_do (launchBrowser v) (then_do (restoreSessionState v)
     (then_do (pure_step (refreshAuthStatusFromPage v))
       (\<lambda>s. if auth_optional v \<or> sv_authenticated s then begin_observing v s
            else ((setPhase SP_auth_required s)\<lparr>sv_loginStatus := LS_AUTH_FAILED\<rparr>, Inr ())))))"

definition browser_message :: "string \<Rightarrow> bool" where
  "browser_message m \<longleftrightarrow> contains_ci ''browser'' m \<or> contains_ci ''chromium'' m \<or> contains_ci ''playwright'' m"

definition sup_start :: "supervisor_env \<Rightarrow> unit raising" where
  "sup_start v s =
     (if sv_phase s \<noteq> SP_idle \<and> sv_phase s \<noteq> SP_stopped then (s, Inr ())
      else case start_body v ((setPhase SP_initializing s)\<lparr>sv_startedAt := Some (se_now v)\<rparr>) of
        (s1, Inr _) \<Rightarrow> (s1, Inr ())
      | (s1, Inl e) \<Rightarrow>
          (setPhase (if browser_message e then SP_browser_failed else SP_error)
             (s1\<lparr>sv_lastError := Some e, sv_errorCount := sv_errorCount s1 + 1,
                 sv_consecutiveErrors := sv_consecutiveErrors s1 + 1\<rparr>), Inl e))"

definition sup_stop :: "supervisor \<Rightarrow> supervisor" where
  "sup_stop s =
     (detachObserverListeners (stopHealthMonitoring ((setPhase SP_stopped s)\<lparr>sv_observing := False\<rparr>)))
       \<lparr>sv_roundObserver := False, sv_gameAdapter := False, sv_browserManager := False, sv_browserLaunched := False\<rparr>"

definition sup_pause :: "supervisor \<Rightarrow> supervisor" where
  "sup_pause s = detachObserverListeners ((setPhase SP_paused s)\<lparr>sv_observing := False\<rparr>)"

definition sup_resume :: "supervisor_env \<Rightarrow> unit raising" where
  "sup_resume v s =
     (if sv_phase s \<noteq> SP_paused then (s, Inr ())
      else then_do (initializeObservation v) (pure_step (\<lambda>s. (setPhase SP_observing s)\<lparr>sv_observing := True\<rparr>)) s)"

datatype login_outcome = LO_preflight_failed | LO_browser_failed | LO_region_blocked | LO_not_authenticated string
  | LO_ok bool bool | LO_error string

text \<open>
  \<open>loginWithCredentials\<close> inside its \<open>try\<close>, from the log-in report on, and the whole. The password is passed only to
  the pipeline.
\<close>

definition after_report :: "supervisor_env \<Rightarrow> bool \<Rightarrow> login_report \<Rightarrow> supervisor \<Rightarrow> supervisor \<times> login_outcome" where
  "after_report v wasObserving r s0 =
     (let s = s0\<lparr>sv_lastLoginReport := Some r, sv_loginStatus := lr_status r\<rparr>
      in if lr_regionBlocked r \<or> lr_status r = LS_REGION_BLOCKED
         then (setPhase SP_region_blocked (s\<lparr>sv_authenticated := False\<rparr>), LO_region_blocked)
         else if lr_status r \<noteq> LS_AUTHENTICATED
         then (let s1 = s\<lparr>sv_authenticated := False\<rparr>
               in (if \<not> (sup_mode v = ''dry-run'' \<and> wasObserving) then setPhase SP_auth_required s1 else s1,
                   LO_not_authenticated (lr_classification r)))
         else
           let s1 = s\<lparr>sv_authenticated := True, sv_loginStatus := LS_AUTHENTICATED, sv_consecutiveErrors := 0\<rparr>;
               s2 = (if \<not> sv_observing s1
                     then (case begin_observing v s1 of
                             (t, Inl e) \<Rightarrow> t\<lparr>sv_lastError := Some e\<rparr> | (t, Inr _) \<Rightarrow> t)
                     else fst (navigateToGame v s1))
           in (s2, LO_ok (sv_gameLoaded s2) (sv_observing s2)))"

definition login_failed :: "string \<Rightarrow> supervisor \<Rightarrow> supervisor \<times> login_outcome" where
  "login_failed e s =
     (s\<lparr>sv_loginStatus := LS_AUTH_FAILED, sv_lastError := Some e, sv_errorCount := sv_errorCount s + 1,
        sv_consecutiveErrors := sv_consecutiveErrors s + 1\<rparr>, LO_error e)"

definition loginWithCredentials :: "supervisor_env \<Rightarrow> supervisor \<Rightarrow> supervisor \<times> login_outcome" where
  "loginWithCredentials v s =
     (let s0 = s\<lparr>sv_loginStatus := LS_TESTING\<rparr>
      in if \<not> sv_browserLaunched s0 \<and> \<not> se_preflight_ok v
         then ((setPhase SP_preflight_failed s0)\<lparr>sv_loginStatus := LS_AUTH_FAILED\<rparr>, LO_preflight_failed)
         else
           (case (if \<not> sv_browserManager s0 \<or> \<not> sv_browserLaunched s0
                  then then_do (pure_step (initializeProfile v)) (then_do (launchBrowser v) (restoreSessionState v)) s0
                  else (s0, Inr ())) of
              (s1, Inl e) \<Rightarrow> login_failed e s1
            | (s1, Inr _) \<Rightarrow>
                if \<not> has_page v s1
                then (setPhase SP_browser_failed (s1\<lparr>sv_loginStatus := LS_AUTH_FAILED\<rparr>), LO_browser_failed)
                else (case se_pipeline v of
                    Inl e \<Rightarrow> login_failed e (setPhase SP_authenticating s1)
                  | Inr r \<Rightarrow> after_report v (sv_observing s) r (setPhase SP_authenticating s1))))"

definition isObserving :: "supervisor \<Rightarrow> bool" where
  "isObserving s \<longleftrightarrow> sv_observing s \<and> sv_phase s = SP_observing"

definition isAuthenticated :: "supervisor \<Rightarrow> bool" where
  "isAuthenticated s = sv_authenticated s"


section \<open>What the operations keep\<close>

lemma setPhase_simps [simp]:
  "sv_phase (setPhase p s) = p" "sv_observing (setPhase p s) = sv_observing s" "sv_attached (setPhase p s) = sv_attached s"
  "sv_authenticated (setPhase p s) = sv_authenticated s" "sv_browserManager (setPhase p s) = sv_browserManager s"
  "sv_gameAdapter (setPhase p s) = sv_gameAdapter s" "sv_roundObserver (setPhase p s) = sv_roundObserver s"
  "sv_browserSession (setPhase p s) = sv_browserSession s" "sv_browserLaunched (setPhase p s) = sv_browserLaunched s"
  "sv_gameLoaded (setPhase p s) = sv_gameLoaded s"
  by (simp_all add: setPhase_def)

definition quiet_phase :: "supervisor_phase \<Rightarrow> bool" where
  "quiet_phase p \<longleftrightarrow> p = SP_idle \<or> p = SP_stopped \<or> p = SP_paused"

text \<open>The rounds are forwarded exactly while \<open>observing\<close> is set, which it is in the phase \<open>observing\<close> and in no quiet phase.\<close>

definition sv_inv :: "supervisor \<Rightarrow> bool" where
  "sv_inv s \<longleftrightarrow> (sv_attached s \<longleftrightarrow> sv_observing s) \<and> (sv_observing s \<longrightarrow> sv_gameAdapter s \<and> sv_roundObserver s) \<and>
     (quiet_phase (sv_phase s) \<longrightarrow> \<not> sv_observing s) \<and> (sv_phase s = SP_observing \<longrightarrow> sv_observing s)"

text \<open>The observation is on, or off.\<close>

definition obs_on :: "supervisor \<Rightarrow> bool" where
  "obs_on s \<longleftrightarrow> sv_attached s \<and> sv_observing s \<and> sv_gameAdapter s \<and> sv_roundObserver s"

definition obs_off :: "supervisor \<Rightarrow> bool" where
  "obs_off s \<longleftrightarrow> \<not> sv_attached s \<and> \<not> sv_observing s"

lemma sv_inv_iff:
  "sv_inv s \<longleftrightarrow> (obs_on s \<and> \<not> quiet_phase (sv_phase s)) \<or> (obs_off s \<and> sv_phase s \<noteq> SP_observing)"
  by (auto simp: sv_inv_def obs_on_def obs_off_def quiet_phase_def)

text \<open>The states of an operation under way: the observation is on or off, and no phase is shown that says otherwise.\<close>

definition busy :: "supervisor \<Rightarrow> bool" where
  "busy s \<longleftrightarrow> (obs_on s \<or> obs_off s) \<and> \<not> quiet_phase (sv_phase s) \<and> sv_phase s \<noteq> SP_observing"

lemma busy_inv: "busy s \<Longrightarrow> sv_inv s"
  by (auto simp: busy_def sv_inv_iff)

lemmas obs_defs = busy_def obs_on_def obs_off_def quiet_phase_def

lemma then_do_keeps:
  assumes "P s" "\<And>t. P t \<Longrightarrow> P (fst (f t))" "\<And>t. P t \<Longrightarrow> Q (fst (g t))" "\<And>t. P t \<Longrightarrow> Q t"
  shows "Q (fst (then_do f g s))"
  using assms(2) [OF assms(1)] assms(3,4)
  by (auto simp: then_do_def split: prod.splits sum.splits)

lemma launch_busy: "obs_on s \<or> obs_off s \<Longrightarrow> busy (fst (launchBrowser v s))"
  by (auto simp: launchBrowser_def Let_def obs_defs split: sum.splits)

lemma restore_busy: "obs_on s \<or> obs_off s \<Longrightarrow> busy (fst (restoreSessionState v s))"
  by (auto simp: restoreSessionState_def Let_def obs_defs split: sum.splits)

lemma navigate_busy: "obs_on s \<or> obs_off s \<Longrightarrow> busy (fst (navigateToGame v s))"
  by (auto simp: navigateToGame_def Let_def obs_defs split: sum.splits)

lemma refresh_off: "obs_off s \<Longrightarrow> busy s \<Longrightarrow> obs_off (refreshAuthStatusFromPage v s) \<and> busy (refreshAuthStatusFromPage v s)"
  by (auto simp: refreshAuthStatusFromPage_def obs_defs split: sum.splits)

lemma off_steps:
  "obs_off s \<Longrightarrow> obs_off (fst (launchBrowser v s))" "obs_off s \<Longrightarrow> obs_off (fst (restoreSessionState v s))"
  "obs_off s \<Longrightarrow> obs_off (fst (navigateToGame v s))" "obs_off s \<Longrightarrow> obs_off (initializeProfile v s)"
  by (auto simp: launchBrowser_def restoreSessionState_def navigateToGame_def initializeProfile_def Let_def obs_off_def
      split: sum.splits)

lemma begin_observing_inv:
  assumes "obs_off s"
  shows "sv_inv (fst (begin_observing v s))"
    and "snd (begin_observing v s) = Inr () \<Longrightarrow> isObserving (fst (begin_observing v s)) \<and>
      isAuthenticated (fst (begin_observing v s)) = isAuthenticated s"
  using assms
  by (auto simp: begin_observing_def then_do_def navigateToGame_def initializeObservation_def pure_step_def
      startHealthMonitoring_def stopHealthMonitoring_def detachObserverListeners_def sv_inv_iff Let_def obs_defs
      isObserving_def isAuthenticated_def split: sum.splits if_splits)

lemma start_body_inv:
  assumes "obs_off s" "busy s"
  shows "sv_inv (fst (start_body v s))"
proof -
  define I where "I t \<longleftrightarrow> obs_off t \<and> busy t" for t
  have I0: "I s" using assms by (simp add: I_def)
  have profile: "I t \<Longrightarrow> I (fst (pure_step (initializeProfile v) t))" for t
    by (auto simp: I_def pure_step_def initializeProfile_def obs_defs)
  have launch: "I t \<Longrightarrow> I (fst (launchBrowser v t))" and restore: "I t \<Longrightarrow> I (fst (restoreSessionState v t))"
    and refresh: "I t \<Longrightarrow> I (fst (pure_step (refreshAuthStatusFromPage v) t))" for t
    using launch_busy restore_busy refresh_off off_steps by (auto simp: I_def pure_step_def)
  have final: "I t \<Longrightarrow> sv_inv (fst (if auth_optional v \<or> sv_authenticated t then begin_observing v t
       else ((setPhase SP_auth_required t)\<lparr>sv_loginStatus := LS_AUTH_FAILED\<rparr>, Inr ())))" for t
    using begin_observing_inv(1) by (auto simp: I_def sv_inv_iff obs_defs)
  have inv: "I t \<Longrightarrow> sv_inv t" for t by (simp add: I_def busy_inv)
  show ?thesis
    unfolding start_body_def
    by (rule then_do_keeps [OF I0 profile], assumption)
      (erule then_do_keeps, erule launch, erule then_do_keeps, erule restore, erule then_do_keeps, erule refresh,
        erule final, (erule inv)+)
qed


lemma sup_start_inv:
  assumes "sv_inv s"
  shows "sv_inv (fst (sup_start v s))"
proof (cases "sv_phase s \<noteq> SP_idle \<and> sv_phase s \<noteq> SP_stopped")
  case True
  then show ?thesis using assms by (simp add: sup_start_def)
next
  case False
  define s0 where "s0 = (setPhase SP_initializing s)\<lparr>sv_startedAt := Some (se_now v)\<rparr>"
  have "obs_off s0" "busy s0"
    using assms False by (auto simp: s0_def sv_inv_iff obs_defs)
  then have "sv_inv (fst (start_body v s0))" by (rule start_body_inv)
  then show ?thesis
    using False by (auto simp: sup_start_def sv_inv_iff obs_defs simp flip: s0_def split: prod.splits sum.splits)
qed

lemma sup_stop_inv: "sv_inv (sup_stop s)"
  by (simp add: sup_stop_def sv_inv_def detachObserverListeners_def stopHealthMonitoring_def)

lemma sup_pause_inv: "sv_inv s \<Longrightarrow> sv_inv (sup_pause s)"
  by (simp add: sup_pause_def sv_inv_def detachObserverListeners_def)

lemma sup_resume_inv: "sv_inv s \<Longrightarrow> sv_inv (fst (sup_resume v s))"
  by (auto simp: sup_resume_def then_do_def pure_step_def initializeObservation_def detachObserverListeners_def
      sv_inv_def quiet_phase_def Let_def split: sum.splits if_splits)

lemma after_report_inv:
  assumes "busy s"
  shows "sv_inv (fst (after_report v w r s))"
proof (cases "lr_regionBlocked r \<or> lr_status r = LS_REGION_BLOCKED \<or> lr_status r \<noteq> LS_AUTHENTICATED")
  case True
  then show ?thesis using assms by (auto simp: after_report_def Let_def sv_inv_iff obs_defs)
next
  case False
  define t where "t = s\<lparr>sv_lastLoginReport := Some r, sv_authenticated := True, sv_loginStatus := LS_AUTHENTICATED, sv_consecutiveErrors := 0\<rparr>"
  have eq: "s\<lparr>sv_lastLoginReport := Some r, sv_loginStatus := lr_status r, sv_authenticated := True, sv_loginStatus := LS_AUTHENTICATED,
      sv_consecutiveErrors := 0\<rparr> = t"
    by (simp add: t_def)
  have f: "fst (after_report v w r s) =
      (if \<not> sv_observing t then (case begin_observing v t of (t, Inl e) \<Rightarrow> t\<lparr>sv_lastError := Some e\<rparr> | (t, Inr _) \<Rightarrow> t)
       else fst (navigateToGame v t))"
    using False by (simp add: after_report_def Let_def t_def)
  have keep: "sv_inv u \<Longrightarrow> sv_inv (u\<lparr>sv_lastError := x\<rparr>)" for u x
    by (simp add: sv_inv_def)
  show ?thesis
  proof (cases "sv_observing t")
    case True
    then show ?thesis
      using assms busy_inv [OF navigate_busy, of t v] by (auto simp: f t_def obs_defs)
  next
    case False
    then have "obs_off t" using assms by (auto simp: t_def obs_defs)
    then show ?thesis
      using False begin_observing_inv(1) [of t v] keep by (auto simp: f split: prod.splits sum.splits)
  qed
qed

lemma login_inv:
  assumes "sv_inv s"
  shows "sv_inv (fst (loginWithCredentials v s))"
proof -
  define s0 where "s0 = s\<lparr>sv_loginStatus := LS_TESTING\<rparr>"
  have on_off: "obs_on s0 \<or> obs_off s0" and inv0: "sv_inv s0"
    using assms by (auto simp: s0_def sv_inv_iff obs_defs)
  define p where "p = (if \<not> sv_browserManager s0 \<or> \<not> sv_browserLaunched s0
      then then_do (pure_step (initializeProfile v)) (then_do (launchBrowser v) (restoreSessionState v)) s0 else (s0, Inr ()))"
  have "sv_inv (fst p) \<and> (obs_on (fst p) \<or> obs_off (fst p))"
  proof (cases "\<not> sv_browserManager s0 \<or> \<not> sv_browserLaunched s0")
    case True
    define u where "u = initializeProfile v s0"
    have u: "obs_on u \<or> obs_off u" using on_off by (auto simp: u_def initializeProfile_def obs_defs)
    have "busy (fst (then_do (launchBrowser v) (restoreSessionState v) u))"
      using launch_busy [OF u, of v] restore_busy [of "fst (launchBrowser v u)" v]
      by (auto simp: then_do_def busy_def split: prod.splits sum.splits)
    moreover have "p = then_do (launchBrowser v) (restoreSessionState v) u"
      using True by (simp add: p_def u_def then_do_def pure_step_def)
    ultimately show ?thesis using busy_inv by (auto simp: busy_def)
  qed (use on_off inv0 in \<open>simp add: p_def\<close>)
  then have p1: "sv_inv (fst p)" "obs_on (fst p) \<or> obs_off (fst p)" by auto
  have auth: "busy (setPhase SP_authenticating (fst p))" using p1(2) by (auto simp: obs_defs)
  have failed: "sv_inv u \<Longrightarrow> sv_inv (fst (login_failed e u))" for e u
    by (simp add: login_failed_def sv_inv_def)
  have preflight: "sv_inv ((setPhase SP_preflight_failed s0)\<lparr>sv_loginStatus := LS_AUTH_FAILED\<rparr>)"
    and no_page: "sv_inv (setPhase SP_browser_failed ((fst p)\<lparr>sv_loginStatus := LS_AUTH_FAILED\<rparr>))"
    using on_off p1(2) by (auto simp: sv_inv_iff obs_defs)
  obtain s1 r where p: "p = (s1, r)" by (cases p)
  have "loginWithCredentials v s =
     (if \<not> sv_browserLaunched s0 \<and> \<not> se_preflight_ok v
      then ((setPhase SP_preflight_failed s0)\<lparr>sv_loginStatus := LS_AUTH_FAILED\<rparr>, LO_preflight_failed)
      else case r of
          Inl e \<Rightarrow> login_failed e s1
        | Inr _ \<Rightarrow>
            if \<not> has_page v s1
            then (setPhase SP_browser_failed (s1\<lparr>sv_loginStatus := LS_AUTH_FAILED\<rparr>), LO_browser_failed)
            else (case se_pipeline v of
                Inl e \<Rightarrow> login_failed e (setPhase SP_authenticating s1)
              | Inr r \<Rightarrow> after_report v (sv_observing s) r (setPhase SP_authenticating s1)))"
    unfolding loginWithCredentials_def Let_def s0_def [symmetric] p_def [symmetric] p by (simp split: sum.split)
  then show ?thesis
    using preflight no_page failed [OF p1(1)] failed [OF busy_inv [OF auth]] after_report_inv [OF auth]
    by (simp add: p split: sum.split)
qed

section \<open>Properties\<close>

datatype supervisor_event = Sup_start supervisor_env | Sup_stop | Sup_pause | Sup_resume supervisor_env | Sup_login supervisor_env

fun sup_step :: "supervisor \<Rightarrow> supervisor_event \<Rightarrow> supervisor" where
  "sup_step s (Sup_start v) = fst (sup_start v s)"
| "sup_step s Sup_stop = sup_stop s"
| "sup_step s Sup_pause = sup_pause s"
| "sup_step s (Sup_resume v) = fst (sup_resume v s)"
| "sup_step s (Sup_login v) = fst (loginWithCredentials v s)"

interpretation sup: started sup_step sv_inv "sv_new sid" for sid
proof
  fix s e
  assume "sv_inv s"
  then show "sv_inv (sup_step s e)"
    by (cases e) (simp_all add: sup_start_inv sup_stop_inv sup_pause_inv sup_resume_inv login_inv)
qed (simp add: sv_inv_def sv_new_def)



text \<open>A browser that works, with a log-in that succeeds.\<close>

definition good_env :: "string \<Rightarrow> supervisor_env" where
  "good_env mode = \<lparr>se_mode = Some mode, se_now = ''t'', se_sessionId = None, se_newSessionId = ''sess'', se_preflight_ok = True,
     se_launch = Inr (), se_context = True, se_page = True, se_restore = Inr True, se_check = Inr (False, True),
     se_navigate = Inr True, se_adapter_start = Inr (),
     se_pipeline = Inr \<lparr>lr_status = LS_AUTHENTICATED, lr_classification = '''', lr_regionBlocked = False\<rparr>\<rparr>"

lemma good_env_login:
  "se_page (good_env m)" "se_pipeline (good_env m) = Inr \<lparr>lr_status = LS_AUTHENTICATED, lr_classification = [], lr_regionBlocked = False\<rparr>"
  by (simp_all add: good_env_def)

lemmas supervisor_run = sup_start_def start_body_def then_do_def pure_step_def initializeProfile_def launchBrowser_def
  restoreSessionState_def refreshAuthStatusFromPage_def begin_observing_def navigateToGame_def initializeObservation_def
  has_page_def detachObserverListeners_def startHealthMonitoring_def stopHealthMonitoring_def setPhase_def sv_new_def
  auth_optional_def sup_mode_def toLowerCase_def lower_char_def Let_def


text \<open>
  A log-in while observing hides the observation: when the supervisor observes and the log-in succeeds, it
  navigates once more and stays in the phase of loading the game. The rounds are still forwarded, but
  \<open>isObserving\<close>, which the live bridge asks, says no, and neither a start nor a resumption nor a further
  successful log-in changes that.
\<close>

theorem login_while_observing_hides_it:
  assumes "sv_observing s" "sv_attached s" "sv_browserManager s" "sv_browserLaunched s"
    and "list_all (\<lambda>v. se_page v \<and> (\<exists>r. se_pipeline v = Inr r \<and> lr_status r = LS_AUTHENTICATED \<and> \<not> lr_regionBlocked r)) (v # vs)"
  shows "let s' = foldl (\<lambda>s v. fst (loginWithCredentials v s)) s (v # vs)
    in sv_observing s' \<and> sv_attached s' \<and> \<not> isObserving s' \<and>
       sup_start w s' = (s', Inr ()) \<and> sup_resume w s' = (s', Inr ())"
proof -
  define shown where "shown t \<longleftrightarrow> sv_observing t \<and> sv_attached t \<and> sv_browserManager t \<and> sv_browserLaunched t" for t :: supervisor
  define stuck where "stuck t \<longleftrightarrow> shown t \<and> sv_phase t \<in> {SP_navigating, SP_loading_game}" for t :: supervisor
  have one: "stuck (fst (loginWithCredentials u t))"
    if "shown t" "se_page u" "se_pipeline u = Inr r" "lr_status r = LS_AUTHENTICATED" "\<not> lr_regionBlocked r" for t u r
    using that
    by (simp add: shown_def stuck_def loginWithCredentials_def has_page_def after_report_def navigateToGame_def setPhase_def Let_def
        split: sum.split)
  have "stuck (foldl (\<lambda>s v. fst (loginWithCredentials v s)) t us)"
    if "stuck t" "list_all (\<lambda>v. se_page v \<and> (\<exists>r. se_pipeline v = Inr r \<and> lr_status r = LS_AUTHENTICATED \<and> \<not> lr_regionBlocked r)) us" for t us
    using that
  proof (induction us arbitrary: t)
    case (Cons u us)
    then obtain r where "se_page u" "se_pipeline u = Inr r" "lr_status r = LS_AUTHENTICATED" "\<not> lr_regionBlocked r"
      by auto
    then have "stuck (fst (loginWithCredentials u t))" using Cons.prems(1) one by (simp add: stuck_def)
    then show ?case using Cons by simp
  qed simp
  moreover have "stuck (fst (loginWithCredentials v s))"
    using assms one [of s v] by (auto simp: shown_def)
  ultimately have "stuck (foldl (\<lambda>s v. fst (loginWithCredentials v s)) s (v # vs))"
    using assms(5) by simp
  then show ?thesis
    unfolding Let_def by (auto simp: stuck_def shown_def isObserving_def sup_start_def sup_resume_def)
qed

theorem login_while_observing_hides_it_witness:
  "\<not> isObserving (foldl sup_step (sv_new None) [Sup_start (good_env ''live''), Sup_login (good_env ''live'')])"
proof -
  define s where "s = fst (sup_start (good_env ''live'') (sv_new None))"
  have "sv_observing s \<and> sv_attached s \<and> sv_browserManager s \<and> sv_browserLaunched s"
    by (simp add: s_def supervisor_run good_env_def)
  then show ?thesis
    using login_while_observing_hides_it [of s "good_env ''live''" "[]"] good_env_login by (simp add: s_def Let_def)
qed

text \<open>
  An authentication outlives its browser: a supervisor that was authenticated, is stopped and started again
  in live mode observes and counts as authenticated although the new page shows nobody logged in, or could not be
  asked.
\<close>

theorem stopped_authentication_survives:
  assumes "isAuthenticated s" "\<not> auth_optional v" "sup_start v (sup_stop s) = (s', Inr ())"
    and "se_check v = Inr (False, False) \<or> (\<exists>e. se_check v = Inl e)"
  shows "isAuthenticated s' \<and> isObserving s'"
  using assms
  by (auto simp: sup_start_def sup_stop_def start_body_def then_do_def pure_step_def initializeProfile_def launchBrowser_def
      restoreSessionState_def refreshAuthStatusFromPage_def begin_observing_def navigateToGame_def
      initializeObservation_def has_page_def startHealthMonitoring_def stopHealthMonitoring_def
      detachObserverListeners_def isObserving_def isAuthenticated_def Let_def
      split: sum.splits prod.splits if_splits)

theorem stopped_authentication_survives_witness:
  "isAuthenticated (foldl sup_step (sv_new None)
     [Sup_start (good_env ''live''), Sup_stop, Sup_start ((good_env ''live'')\<lparr>se_check := Inr (False, False)\<rparr>)])"
proof -
  define s where "s = fst (sup_start (good_env ''live'') (sv_new None))"
  define v where "v = (good_env ''live'')\<lparr>se_check := Inr (False, False)\<rparr>"
  have "isAuthenticated s" by (simp add: s_def supervisor_run good_env_def isAuthenticated_def)
  moreover have "\<not> auth_optional v" by (simp add: v_def good_env_def auth_optional_def sup_mode_def toLowerCase_def lower_char_def)
  moreover have "sup_start v (sup_stop s) = (fst (sup_start v (sup_stop s)), Inr ())"
    by (simp add: s_def v_def sup_stop_def supervisor_run good_env_def)
  ultimately show ?thesis
    using stopped_authentication_survives [of s v] by (simp add: s_def v_def)
qed

text \<open>After a failed start every further start returns without doing anything, until the supervisor is stopped.\<close>

lemma failed_start_blocks_restart:
  assumes "sup_start v s = (s', Inl e)"
  shows "sup_start w s' = (s', Inr ())"
  using assms by (auto simp: sup_start_def split: prod.splits sum.splits if_splits)

end
