(* ===== verification/BootSettlement.thy ===== *)
theory BootSettlement
  imports Settlement
begin

text \<open>
  What feeds the settlement engine: the evidence of \<open>RestHistoryEvidenceProvider\<close>
  (\<open>src/src/settlement/evidence-provider.ts\<close>), the reconciliation of the open orders at boot
  (\<open>src/src/settlement/boot-reconcile.ts\<close>), and \<open>SettlementService\<close>
  (\<open>src/src/settlement/settlement-service.ts\<close>), which credits a win to a balance of its own tables.
\<close>

section \<open>Evidence\<close>

datatype history_verdict = EV_WIN | EV_LOSS | EV_VOID | EV_PENDING | EV_UNKNOWN

record history_evidence =
  ev_clientOrderId :: string
  ev_externalBetId :: "string option"
  ev_externalTxRef :: "string option"
  ev_status :: history_verdict
  ev_multiplier :: "jsnum option"
  ev_grossPayout :: "jsnum option"

text \<open>One item of the operator's history: the alternative fields, of which the first present one is taken.\<close>

record history_item =
  hi_status :: "string option"
  hi_result :: "string option"
  hi_betId :: "string option"
  hi_id :: "string option"
  hi_txId :: "string option"
  hi_transactionId :: "string option"
  hi_multiplier :: "jsnum option"
  hi_cashout :: "jsnum option"
  hi_exitMultiplier :: "jsnum option"
  hi_payout :: "jsnum option"
  hi_grossPayout :: "jsnum option"
  hi_profit :: "jsnum option"

fun first_of :: "'a option list \<Rightarrow> 'a option" where
  "first_of [] = None"
| "first_of (Some x # _) = Some x"
| "first_of (None # xs) = first_of xs"

definition verdict_of :: "string \<Rightarrow> history_verdict" where
  "verdict_of raw = (let s = map upper_char raw
     in if text_includes s ''WIN'' \<or> text_includes s ''CASH'' then EV_WIN
        else if text_includes s ''LOSS'' \<or> text_includes s ''CRASH'' \<or> text_includes s ''BUST'' then EV_LOSS
        else if text_includes s ''VOID'' \<or> text_includes s ''CANCEL'' then EV_VOID
        else if text_includes s ''PEND'' \<or> text_includes s ''ACTIVE'' then EV_PENDING
        else EV_UNKNOWN)"

text \<open>
  \<open>getEvidence\<close> from the item on; the schema refuses a negative payout. \<open>None\<close> is the exception of the schema.
\<close>

definition evidence_of :: "string \<Rightarrow> string option \<Rightarrow> history_item \<Rightarrow> history_evidence option" where
  "evidence_of coid betId it =
     (let gross = first_of [hi_payout it, hi_grossPayout it, hi_profit it];
          num_ok = (\<lambda>x. case x of Some NaN \<Rightarrow> False | _ \<Rightarrow> True)
      in if num_ok gross \<and> num_ok (first_of [hi_multiplier it, hi_cashout it, hi_exitMultiplier it]) \<and>
            (case gross of Some g \<Rightarrow> jle (Fin 0) g | None \<Rightarrow> True)
         then Some \<lparr>ev_clientOrderId = coid, ev_externalBetId = first_of [hi_betId it, hi_id it, betId],
                ev_externalTxRef = first_of [hi_txId it, hi_transactionId it],
                ev_status = verdict_of (case first_of [hi_status it, hi_result it] of Some s \<Rightarrow> s | None \<Rightarrow> ''''),
                ev_multiplier = first_of [hi_multiplier it, hi_cashout it, hi_exitMultiplier it],
                ev_grossPayout = gross\<rparr>
         else None)"

section \<open>Boot reconciliation\<close>

record boot_result =
  bo_open :: nat
  bo_settled :: nat
  bo_voided :: nat
  bo_stillOpen :: nat
  bo_errors :: nat

definition open_order :: "settlement_order \<Rightarrow> bool" where
  "open_order q \<longleftrightarrow> so_status q \<notin> {SETTLED_WIN, SETTLED_LOSS, OS_VOID, OS_FAILED}"

text \<open>A provider answers for an order: an exception, no evidence, or evidence.\<close>

type_synonym provider = "string \<Rightarrow> string + history_evidence option"

fun settle_verdict :: "history_verdict \<Rightarrow> settle_status option" where
  "settle_verdict EV_WIN = Some S_WIN"
| "settle_verdict EV_LOSS = Some S_LOSS"
| "settle_verdict EV_VOID = Some S_VOID"
| "settle_verdict _ = None"

definition boot_payload :: "jsnum \<Rightarrow> settlement_order \<Rightarrow> history_evidence \<Rightarrow> settle_status \<Rightarrow> settlement_payload" where
  "boot_payload now q e st =
     \<lparr>sp_clientOrderId = so_clientOrderId q, sp_status = st,
      sp_grossPayout = (case ev_grossPayout e of Some g \<Rightarrow> g
         | None \<Rightarrow> if st = S_WIN \<or> st = S_VOID then rnd (so_wager q) else Fin 0),
      sp_multiplier = jmax (Fin 1) (case ev_multiplier e of Some m \<Rightarrow> m | None \<Rightarrow> Fin 1),
      sp_settledAt = now,
      sp_externalReference = first_of [ev_externalTxRef e, ev_externalBetId e]\<rparr>"

definition boot_mark :: "schema \<Rightarrow> string \<Rightarrow> settlement_db \<times> boot_result \<Rightarrow> settlement_db \<times> boot_result" where
  "boot_mark sc coid s =
     (case markReconciling sc coid (fst s) of
        Inl _ \<Rightarrow> (fst s, (snd s)\<lparr>bo_errors := bo_errors (snd s) + 1\<rparr>)
      | Inr db \<Rightarrow> (db, (snd s)\<lparr>bo_stillOpen := bo_stillOpen (snd s) + 1\<rparr>))"

definition boot_item ::
  "schema \<Rightarrow> provider option \<Rightarrow> jsnum \<Rightarrow> settlement_db \<times> boot_result \<Rightarrow> settlement_order \<Rightarrow> settlement_db \<times> boot_result" where
  "boot_item sc prov now s q =
     (case prov of
        None \<Rightarrow> boot_mark sc (so_clientOrderId q) s
      | Some ask \<Rightarrow>
          (case ask (so_clientOrderId q) of
             Inl _ \<Rightarrow> (fst s, (snd s)\<lparr>bo_errors := bo_errors (snd s) + 1\<rparr>)
           | Inr None \<Rightarrow> boot_mark sc (so_clientOrderId q) s
           | Inr (Some e) \<Rightarrow>
               (case settle_verdict (ev_status e) of
                  None \<Rightarrow> boot_mark sc (so_clientOrderId q) s
                | Some st \<Rightarrow>
                    (case settleOrderOnce sc (boot_payload now q e st) (fst s) of
                       Inl _ \<Rightarrow> (fst s, (snd s)\<lparr>bo_errors := bo_errors (snd s) + 1\<rparr>)
                     | Inr (_, db) \<Rightarrow> (db, (snd s)\<lparr>bo_settled := bo_settled (snd s) + 1\<rparr>)))))"

text \<open>The rows are read once, oldest first; orders are kept in the order of their creation.\<close>

definition boot_rows :: "nat option \<Rightarrow> settlement_db \<Rightarrow> settlement_order list" where
  "boot_rows mx db = take (case mx of Some n \<Rightarrow> n | None \<Rightarrow> 200) (filter open_order (sd_orders db))"

definition bootReconcileOpenOrders ::
  "schema \<Rightarrow> provider option \<Rightarrow> nat option \<Rightarrow> jsnum \<Rightarrow> settlement_db \<Rightarrow> settlement_db \<times> boot_result" where
  "bootReconcileOpenOrders sc prov mx now db =
     (let rows = boot_rows mx db
      in foldl (boot_item sc prov now)
           (db, \<lparr>bo_open = length rows, bo_settled = 0, bo_voided = 0, bo_stillOpen = 0, bo_errors = 0\<rparr>) rows)"

section \<open>The settlement service\<close>

datatype mini_state = MB_placed | MB_active | MB_cashed_out | MB_other

record mini_bet =
  mb_id :: string
  mb_userId :: string
  mb_state :: mini_state
  mb_cashoutMultiplier :: "rat option"
  mb_pnl :: "rat option"

record mini_db =
  md_bets :: "mini_bet list"
  md_balances :: "string \<rightharpoonup> rat"

record win_input =
  wi_betId :: string
  wi_userId :: string
  wi_multiplier :: jsnum
  wi_amount :: jsnum

definition win_selects :: "win_input \<Rightarrow> mini_bet \<Rightarrow> bool" where
  "win_selects w b \<longleftrightarrow> mb_id b = wi_betId w \<and> mb_userId b = wi_userId w \<and> (mb_state b = MB_placed \<or> mb_state b = MB_active)"

text \<open>
  One transaction: \<open>num\<close> converts a number to the column's \<open>NUMERIC\<close>, \<open>None\<close> when the database refuses it and
  the transaction is rolled back. The result is \<open>ok\<close> and the profit, or the exception.
\<close>

definition settleWin ::
  "(jsnum \<Rightarrow> rat option) \<Rightarrow> win_input \<Rightarrow> mini_db \<Rightarrow> mini_db \<times> (string + bool \<times> jsnum)" where
  "settleWin num w db =
     (let pnl = jmul (wi_amount w) (jsub (wi_multiplier w) (Fin 1));
          payout = jadd (wi_amount w) pnl
      in case (num (wi_multiplier w), num pnl) of
           (Some m, Some p) \<Rightarrow>
             if \<not> list_ex (win_selects w) (md_bets db) then (db, Inr (False, Fin 0))
             else (case num payout of
                 None \<Rightarrow> (db, Inl ''numeric'')
               | Some y \<Rightarrow>
                   (\<lparr>md_bets = map (\<lambda>b. if win_selects w b
                        then b\<lparr>mb_state := MB_cashed_out, mb_cashoutMultiplier := Some m, mb_pnl := Some p\<rparr> else b) (md_bets db),
                     md_balances = (md_balances db)(wi_userId w \<mapsto>
                        (case md_balances db (wi_userId w) of Some x \<Rightarrow> x | None \<Rightarrow> 0) + y)\<rparr>, Inr (True, pnl)))
         | _ \<Rightarrow> (db, Inl ''numeric''))"

section \<open>The boot as a run of the engine\<close>

definition boot_op :: "provider option \<Rightarrow> jsnum \<Rightarrow> settlement_order \<Rightarrow> settlement_op list" where
  "boot_op prov now q =
     (case prov of
        None \<Rightarrow> [SO_reconciling (so_clientOrderId q)]
      | Some ask \<Rightarrow>
          (case ask (so_clientOrderId q) of
             Inl _ \<Rightarrow> []
           | Inr None \<Rightarrow> [SO_reconciling (so_clientOrderId q)]
           | Inr (Some e) \<Rightarrow>
               (case settle_verdict (ev_status e) of
                  None \<Rightarrow> [SO_reconciling (so_clientOrderId q)]
                | Some st \<Rightarrow> [SO_settle (boot_payload now q e st)])))"

lemma boot_mark_step: "fst (boot_mark sc coid s) = so_step sc (fst s) (SO_reconciling coid)"
  by (auto simp: boot_mark_def split: sum.split)

lemma boot_item_run: "fst (boot_item sc prov now s q) = foldl (so_step sc) (fst s) (boot_op prov now q)"
  by (auto simp: boot_item_def boot_op_def boot_mark_step split: option.split sum.split prod.split)

lemma boot_run:
  "fst (foldl (boot_item sc prov now) s rows) = foldl (so_step sc) (fst s) (concat (map (boot_op prov now) rows))"
  by (induction rows arbitrary: s) (simp_all add: boot_item_run)

text \<open>Each order is counted once: settled, still open or an error; nothing is ever counted as voided.\<close>

definition counted :: "boot_result \<Rightarrow> nat" where
  "counted r = bo_settled r + bo_stillOpen r + bo_errors r"

lemma boot_item_counts:
  "counted (snd (boot_item sc prov now s q)) = counted (snd s) + 1"
  "bo_voided (snd (boot_item sc prov now s q)) = bo_voided (snd s)"
  "bo_open (snd (boot_item sc prov now s q)) = bo_open (snd s)"
  by (auto simp: boot_item_def boot_mark_def counted_def split: option.split sum.split prod.split)

lemma boot_counts:
  "counted (snd (foldl (boot_item sc prov now) s rows)) = counted (snd s) + length rows \<and>
   bo_voided (snd (foldl (boot_item sc prov now) s rows)) = bo_voided (snd s) \<and>
   bo_open (snd (foldl (boot_item sc prov now) s rows)) = bo_open (snd s)"
  by (induction rows arbitrary: s) (simp_all add: boot_item_counts)

text \<open>An operation that settles only what the provider gave a verdict on.\<close>

definition provider_verdict :: "provider option \<Rightarrow> string \<Rightarrow> order_status \<Rightarrow> bool" where
  "provider_verdict prov coid st \<longleftrightarrow>
     (case prov of None \<Rightarrow> False
      | Some ask \<Rightarrow> (case ask coid of Inr (Some e) \<Rightarrow> map_option final_of (settle_verdict (ev_status e)) = Some st | _ \<Rightarrow> False))"

fun backed :: "provider option \<Rightarrow> settlement_op \<Rightarrow> bool" where
  "backed prov (SO_settle p) = provider_verdict prov (sp_clientOrderId p) (final_of (sp_status p))"
| "backed prov (SO_reconciling _) = True"
| "backed prov _ = False"

lemma boot_op_backed: "list_all (backed prov) (boot_op prov now q)"
  by (auto simp: boot_op_def boot_payload_def provider_verdict_def split: option.split sum.split)

definition only_backed :: "settlement_db \<Rightarrow> provider option \<Rightarrow> settlement_db \<Rightarrow> bool" where
  "only_backed db0 prov db \<longleftrightarrow> sd_ok db \<and>
     (\<forall>q \<in> set (sd_orders db). final_status (so_status q) \<longrightarrow>
        q \<in> set (sd_orders db0) \<or> provider_verdict prov (so_clientOrderId q) (so_status q))"

lemma settle_rows:
  assumes "settleOrderOnce sc p db = Inr (a, db')"
  shows "db' = db \<or> (\<exists>q g x. q \<in> set (sd_orders db) \<and> so_clientOrderId q = sp_clientOrderId p \<and>
    sd_orders db' = map (\<lambda>r. if so_id r = so_id q then settled_order p g x r else r) (sd_orders db))"
proof -
  from assms obtain q where q: "find_order (sp_clientOrderId p) db = Some q"
    by (auto simp: settleOrderOnce_def split: if_splits option.splits)
  show ?thesis
  proof (cases "final_status (so_status q)")
    case True
    with assms q show ?thesis by (auto simp: settleOrderOnce_def split: if_splits)
  next
    case False
    from False assms q obtain db1 g x where
      1: "settle_lines sc (so_id q) (sp_status p) (rnd (so_wager q)) (sp_grossPayout p) db = Inr db1" and
      3: "update_order sc (\<lambda>r. so_id r = so_id q) (settled_order p g x) db1 = Inr db'"
      by (cases "sc_numeric sc (sp_grossPayout p)"; cases "sc_numeric sc (sp_multiplier p)")
        (auto simp: settleOrderOnce_def bind_err_Inr assertBalanced_Inr split: if_splits)
    have "sd_orders db1 = sd_orders db" using settle_lines_grows [OF 1] by (simp add: grows_def)
    then show ?thesis using update_order_Inr [OF 3] find_order_Some [OF q] by auto
  qed
qed

lemma settle_backed:
  assumes "only_backed db0 prov db" "backed prov (SO_settle p)" "settleOrderOnce sc p db = Inr (a, db')"
  shows "only_backed db0 prov db'"
proof -
  have ok: "sd_ok db'"
    using so_effect_ok [OF settle_effect [OF assms(3)]] assms(1) by (simp add: only_backed_def)
  from settle_rows [OF assms(3)] show ?thesis
  proof (elim disjE exE conjE)
    fix q g x
    assume q: "q \<in> set (sd_orders db)" "so_clientOrderId q = sp_clientOrderId p"
      and rows: "sd_orders db' = map (\<lambda>r. if so_id r = so_id q then settled_order p g x r else r) (sd_orders db)"
    have same: "r = q" if "r \<in> set (sd_orders db)" "so_id r = so_id q" for r
      using that q(1) assms(1) by (auto simp: only_backed_def sd_ok_def distinct_map inj_on_def)
    have "r \<in> set (sd_orders db0) \<or> provider_verdict prov (so_clientOrderId r) (so_status r)"
      if "r \<in> set (sd_orders db')" "final_status (so_status r)" for r
    proof -
      obtain r0 where r0: "r0 \<in> set (sd_orders db)" "r = (if so_id r0 = so_id q then settled_order p g x r0 else r0)"
        using \<open>r \<in> set (sd_orders db')\<close> rows by auto
      show ?thesis
      proof (cases "so_id r0 = so_id q")
        case True
        then have "r = settled_order p g x q" using r0 same [OF r0(1) True] by simp
        then show ?thesis using assms(2) q(2) by (simp add: settled_order_def)
      next
        case False
        then show ?thesis using assms(1) r0 that(2) by (simp add: only_backed_def)
      qed
    qed
    then show ?thesis using ok by (simp add: only_backed_def)
  qed (use assms(1) in simp)
qed

interpretation boot: persists "so_step sc" "backed prov" "only_backed db0 prov" for sc prov db0
proof
  fix db op
  assume b: "only_backed db0 prov db" "backed prov op"
  show "only_backed db0 prov (so_step sc db op)"
  proof (cases op)
    case (SO_settle p)
    then show ?thesis using b settle_backed by (auto split: sum.split)
  next
    case (SO_reconciling coid)
    have ok: "sd_ok (so_step sc db op)"
      using so_effect_ok [OF so_step_effect] b(1) by (simp add: only_backed_def)
    show ?thesis
    proof (cases "markReconciling sc coid db")
      case (Inr db')
      then have "sd_orders db' = map (\<lambda>q. if so_clientOrderId q = coid \<and> so_status q \<in> {DISPATCHED, PENDING_SETTLEMENT, ORDER_INTENT}
          then q\<lparr>so_status := OS_RECONCILING\<rparr> else q) (sd_orders db)"
        unfolding markReconciling_def using update_order_Inr by fastforce
      then show ?thesis
        using b(1) ok Inr SO_reconciling by (auto simp: only_backed_def final_status_def)
    qed (use b(1) SO_reconciling in simp)
  qed (use b(2) in auto)
qed

section \<open>Properties\<close>

text \<open>
  C19. The boot settles only on evidence: an order that is final after the reconciliation at boot was
  final before, in the same row, or the provider gave for it the verdict it was settled with; without a provider
  no order becomes final. The journal stays balanced, and every scanned order is counted exactly once.
\<close>

theorem boot_settles_only_on_evidence:
  assumes "db = foldl (so_step sc) empty_db ops"
  shows "let (db', r) = bootReconcileOpenOrders sc prov mx now db
    in list_all (\<lambda>q. \<not> final_status (so_status q) \<or> q \<in> set (sd_orders db) \<or>
          provider_verdict prov (so_clientOrderId q) (so_status q)) (sd_orders db') \<and>
       list_all (\<lambda>q. balanced_lines (order_lines (so_id q) db')) (sd_orders db') \<and>
       bo_open r = bo_settled r + bo_stillOpen r + bo_errors r"
proof -
  define rows where "rows = boot_rows mx db"
  define s0 where "s0 = (db, \<lparr>bo_open = length rows, bo_settled = 0, bo_voided = 0, bo_stillOpen = 0, bo_errors = 0\<rparr>)"
  define s where "s = foldl (boot_item sc prov now) s0 rows"
  have s: "bootReconcileOpenOrders sc prov mx now db = s"
    by (simp add: bootReconcileOpenOrders_def Let_def s_def s0_def rows_def)
  have "sd_ok db" unfolding assms by (rule so.reachable_inv)
  then have start: "only_backed db prov db" by (simp add: only_backed_def)
  have "list_all (backed prov) (concat (map (boot_op prov now) rows))"
    using boot_op_backed by (fastforce simp: list_all_iff)
  from boot.run_quiet [OF start this, of sc] have "only_backed db prov (fst s)"
    by (simp add: s_def boot_run s0_def)
  moreover have "bo_open (snd s) = bo_settled (snd s) + bo_stillOpen (snd s) + bo_errors (snd s)"
    using boot_counts [of sc prov now s0 rows] by (simp add: s_def s0_def counted_def)
  ultimately show ?thesis
    unfolding s by (cases s) (simp add: only_backed_def sd_ok_def list_all_iff)
qed


definition boot_db :: settlement_db where
  "boot_db = foldl (so_step ex_schema) empty_db [SO_intent ex_intent]"

theorem boot_settles_only_on_evidence_witness:
  "let (db', r) = bootReconcileOpenOrders ex_schema None None (Fin 9) boot_db
   in list_all (\<lambda>q. \<not> final_status (so_status q) \<or> q \<in> set (sd_orders boot_db)) (sd_orders db') \<and>
      bo_open r = bo_settled r + bo_stillOpen r + bo_errors r"
  using boot_settles_only_on_evidence [OF boot_db_def, of None None "Fin 9"]
  by (simp add: provider_verdict_def case_prod_beta)

text \<open>An order the provider calls void is counted as settled; the count of voided orders stays 0.\<close>

lemma boot_counts_no_void: "bo_voided (snd (bootReconcileOpenOrders sc prov mx now db)) = 0"
  by (simp add: bootReconcileOpenOrders_def Let_def boot_counts)

text \<open>A win without a payout is booked with the wager as its payout: it closes without a profit.\<close>

lemma boot_win_without_payout:
  "ev_grossPayout e = None \<Longrightarrow> sp_grossPayout (boot_payload now q e S_WIN) = rnd (so_wager q)"
  by (simp add: boot_payload_def)

text \<open>The past tenses of the operator's words are not recognised, and words that deny a success are.\<close>

lemma verdict_words:
  "verdict_of ''won'' = EV_UNKNOWN" "verdict_of ''lost'' = EV_UNKNOWN" "verdict_of ''cashout_failed'' = EV_WIN"
  "verdict_of ''inactive'' = EV_PENDING"
  by code_simp+

text \<open>A profit in place of a payout is taken for the gross payout.\<close>

lemma profit_taken_for_payout:
  assumes "hi_payout it = None" "hi_grossPayout it = None" "hi_profit it = Some g" "evidence_of coid b it = Some e"
  shows "ev_grossPayout e = Some g"
  using assms by (auto simp: evidence_of_def Let_def split: if_splits)

section \<open>Winning once\<close>

text \<open>What one bet brings its user: the sum of the credits of the calls that settled it.\<close>

lemma settleWin_refused: "\<not> list_ex (win_selects w) (md_bets db) \<Longrightarrow> md_balances (fst (settleWin num w db)) = md_balances db \<and>
    md_bets (fst (settleWin num w db)) = md_bets db"
  by (auto simp: settleWin_def Let_def split: option.split)

definition bet_closed :: "string \<Rightarrow> mini_db \<Rightarrow> bool" where
  "bet_closed i db \<longleftrightarrow> list_all (\<lambda>b. mb_id b = i \<longrightarrow> mb_state b \<notin> {MB_placed, MB_active}) (md_bets db)"

lemma settleWin_closes:
  assumes "settleWin num w db = (db', Inr (True, pnl))" "list_all (\<lambda>b. mb_id b = wi_betId w \<longrightarrow> mb_userId b = wi_userId w) (md_bets db)"
  shows "bet_closed (wi_betId w) db'"
  using assms
  by (auto simp: settleWin_def Let_def bet_closed_def list_all_iff win_selects_def split: option.splits if_splits)

lemma settleWin_keeps_closed: "bet_closed i db \<Longrightarrow> bet_closed i (fst (settleWin num w db))"
  by (auto simp: settleWin_def Let_def bet_closed_def list_all_iff split: option.splits)

lemma closed_bet_no_credit:
  assumes "bet_closed (wi_betId w) db"
  shows "md_balances (fst (settleWin num w db)) = md_balances db"
proof -
  have "\<not> list_ex (win_selects w) (md_bets db)"
    using assms by (auto simp: bet_closed_def list_all_iff list_ex_iff win_selects_def)
  then show ?thesis using settleWin_refused by simp
qed

interpretation closed: stepwise "\<lambda>db w. fst (settleWin num w db)" "bet_closed i" for num i
  by unfold_locales (rule settleWin_keeps_closed)

text \<open>
  A win is credited once: after a call of the settlement service that settled a bet, no sequence of
  further calls for that bet, whatever amounts and multipliers they carry, changes any balance.
\<close>

theorem win_credited_once:
  assumes "settleWin num w db = (db1, Inr (True, pnl))"
    and "list_all (\<lambda>b. mb_id b = wi_betId w \<longrightarrow> mb_userId b = wi_userId w) (md_bets db)"
    and "list_all (\<lambda>v. wi_betId v = wi_betId w) ws"
  shows "md_balances (foldl (\<lambda>db w. fst (settleWin num w db)) db1 ws) = md_balances db1"
proof -
  have "bet_closed (wi_betId w) d \<Longrightarrow> md_balances (foldl (\<lambda>db w. fst (settleWin num w db)) d ws) = md_balances d" for d
    using assms(3)
  proof (induction ws arbitrary: d)
    case (Cons v vs)
    then have "md_balances (fst (settleWin num v d)) = md_balances d" by (intro closed_bet_no_credit) simp
    moreover have "bet_closed (wi_betId w) (fst (settleWin num v d))"
      using Cons.prems(1) by (rule settleWin_keeps_closed)
    ultimately show ?case using Cons by simp
  qed simp
  then show ?thesis using settleWin_closes [OF assms(1,2)] .
qed

definition demo_mini :: mini_db where
  "demo_mini = \<lparr>md_bets = [\<lparr>mb_id = ''b1'', mb_userId = ''u1'', mb_state = MB_active, mb_cashoutMultiplier = None, mb_pnl = None\<rparr>],
     md_balances = Map.empty\<rparr>"

definition demo_win :: "jsnum \<Rightarrow> win_input" where
  "demo_win a = \<lparr>wi_betId = ''b1'', wi_userId = ''u1'', wi_multiplier = Fin 2, wi_amount = a\<rparr>"

definition demo_num :: "jsnum \<Rightarrow> rat option" where
  "demo_num x = (case x of Fin q \<Rightarrow> Some q | _ \<Rightarrow> None)"

theorem win_credited_once_witness:
  "md_balances (foldl (\<lambda>db w. fst (settleWin demo_num w db)) demo_mini [demo_win (Fin 100), demo_win (Fin 500)]) ''u1'' = Some 200"
proof -
  have s: "settleWin demo_num (demo_win (Fin 100)) demo_mini = (fst (settleWin demo_num (demo_win (Fin 100)) demo_mini), Inr (True, Fin 100))"
    and b: "md_balances (fst (settleWin demo_num (demo_win (Fin 100)) demo_mini)) ''u1'' = Some 200"
    by (simp_all add: settleWin_def demo_win_def demo_mini_def demo_num_def win_selects_def Let_def)
  from win_credited_once [OF s, of "[demo_win (Fin 500)]"] b show ?thesis
    by (simp add: demo_win_def demo_mini_def)
qed

end
