(* ===== verification/CapitalLimits.thy ===== *)
theory CapitalLimits
  imports JsNumber
begin

text \<open>
  Two guards in front of an action: \<open>InMemoryCapitalGuard\<close> of \<open>src/src/capital/in-memory-limits.ts\<close>, which locks
  the capital after a loss, and \<open>VelocityController\<close> of \<open>src/src/risk/velocity-controller.ts\<close>, which limits the
  rate of actions. Neither is constructed by the composition of the program.
\<close>

section \<open>The capital guard\<close>

record capital_config =
  cc_maxDrawdownAbs :: jsnum
  cc_maxDrawdownPct :: jsnum
  cc_panicBalanceFloor :: jsnum
  cc_maxStake :: jsnum
  cc_startingBankroll :: jsnum

datatype lock_reason = LR_panic_floor | LR_drawdown_abs | LR_drawdown_pct

record capital_guard =
  cg_config :: capital_config
  cg_peak :: jsnum
  cg_current :: jsnum
  cg_locked :: bool
  cg_lockReason :: "lock_reason option"

definition cg_new :: "capital_config \<Rightarrow> capital_guard" where
  "cg_new c = \<lparr>cg_config = c, cg_peak = cc_startingBankroll c, cg_current = cc_startingBankroll c,
     cg_locked = False, cg_lockReason = None\<rparr>"

definition cg_lock :: "lock_reason \<Rightarrow> capital_guard \<Rightarrow> capital_guard" where
  "cg_lock r g = g\<lparr>cg_locked := True, cg_lockReason := Some r\<rparr>"

definition cg_evaluate :: "capital_guard \<Rightarrow> capital_guard" where
  "cg_evaluate g =
     (let c = cg_config g; drawdown = jsub (cg_peak g) (cg_current g)
      in if jle (cg_current g) (cc_panicBalanceFloor c) then cg_lock LR_panic_floor g
         else if jle (cc_maxDrawdownAbs c) drawdown then cg_lock LR_drawdown_abs g
         else
           let pct = (if jlt (Fin 0) (cg_peak g) then jdiv drawdown (cg_peak g) else Fin 0)
           in if jle (cc_maxDrawdownPct c) pct then cg_lock LR_drawdown_pct g else g)"

definition updateBalance :: "jsnum \<Rightarrow> capital_guard \<Rightarrow> capital_guard" where
  "updateBalance b g = cg_evaluate (g\<lparr>cg_current := b, cg_peak := (if jlt (cg_peak g) b then b else cg_peak g)\<rparr>)"

datatype stake_answer = Stake_allowed | Stake_locked "lock_reason option" | Stake_exceeds_max | Stake_insufficient
  | Stake_breaches_floor

definition canPlaceBet :: "jsnum \<Rightarrow> capital_guard \<Rightarrow> stake_answer" where
  "canPlaceBet stake g =
     (let c = cg_config g
      in if cg_locked g then Stake_locked (cg_lockReason g)
         else if jlt (cc_maxStake c) stake then Stake_exceeds_max
         else if jlt (cg_current g) stake then Stake_insufficient
         else if jlt (jsub (cg_current g) stake) (cc_panicBalanceFloor c) then Stake_breaches_floor
         else Stake_allowed)"

definition cg_unlock :: "capital_guard \<Rightarrow> capital_guard" where
  "cg_unlock g = g\<lparr>cg_locked := False, cg_lockReason := None\<rparr>"

datatype capital_event = Balance jsnum | Unlock

fun cg_step :: "capital_guard \<Rightarrow> capital_event \<Rightarrow> capital_guard" where
  "cg_step g (Balance b) = updateBalance b g"
| "cg_step g Unlock = cg_unlock g"

fun no_unlock :: "capital_event \<Rightarrow> bool" where
  "no_unlock (Balance _) = True"
| "no_unlock Unlock = False"

lemma cg_evaluate_simps [simp]:
  "cg_config (cg_evaluate g) = cg_config g" "cg_current (cg_evaluate g) = cg_current g" "cg_peak (cg_evaluate g) = cg_peak g"
  "cg_locked g \<Longrightarrow> cg_locked (cg_evaluate g)"
  by (simp_all add: cg_evaluate_def cg_lock_def Let_def)

interpretation capital: persists cg_step no_unlock cg_locked
proof
  fix g :: capital_guard and e
  assume "cg_locked g" "no_unlock e"
  then show "cg_locked (cg_step g e)" by (cases e) (simp_all add: updateBalance_def)
qed

interpretation capital_conf: stepwise cg_step "\<lambda>g. cg_config g = c" for c
proof
  fix g :: capital_guard and e
  assume "cg_config g = c"
  then show "cg_config (cg_step g e) = c" by (cases e) (simp_all add: updateBalance_def cg_unlock_def)
qed

text \<open>
  A breached limit stops the betting until an operator unlocks: after a balance at or below the panic
  floor, or one whose distance to the highest balance seen reaches the largest drawdown, no stake is allowed,
  whatever balances follow, until the guard is unlocked.
\<close>

theorem capital_lock_lasts_until_unlock:
  assumes "jle b (cc_panicBalanceFloor (cg_config g)) \<or>
      jle (cc_maxDrawdownAbs (cg_config g)) (jsub (if jlt (cg_peak g) b then b else cg_peak g) b)"
    and "list_all no_unlock es"
  shows "canPlaceBet stake (foldl cg_step (updateBalance b g) es) \<noteq> Stake_allowed"
proof -
  have "cg_locked (updateBalance b g)"
    using assms(1) by (auto simp: updateBalance_def cg_evaluate_def cg_lock_def Let_def)
  from capital.run_quiet [OF this assms(2)] show ?thesis by (simp add: canPlaceBet_def Let_def)
qed

definition demo_capital :: capital_config where
  "demo_capital = \<lparr>cc_maxDrawdownAbs = Fin 300, cc_maxDrawdownPct = Fin 1, cc_panicBalanceFloor = Fin 100,
     cc_maxStake = Fin 50, cc_startingBankroll = Fin 1000\<rparr>"

theorem capital_lock_lasts_until_unlock_witness:
  "canPlaceBet (Fin 10) (cg_new demo_capital) = Stake_allowed \<and>
   canPlaceBet (Fin 10) (foldl cg_step (updateBalance (Fin 700) (cg_new demo_capital)) [Balance (Fin 2000)]) \<noteq> Stake_allowed"
proof
  show "canPlaceBet (Fin 10) (cg_new demo_capital) = Stake_allowed"
    by (simp add: canPlaceBet_def cg_new_def demo_capital_def Let_def)
  show "canPlaceBet (Fin 10) (foldl cg_step (updateBalance (Fin 700) (cg_new demo_capital)) [Balance (Fin 2000)]) \<noteq> Stake_allowed"
    by (rule capital_lock_lasts_until_unlock) (simp_all add: cg_new_def demo_capital_def)
qed

text \<open>
  An allowed stake respects the limits: with numbers for balance, stake and limits, it is at most the
  largest stake and the balance, and the rounded rest is not below the panic floor.
\<close>

theorem allowed_stake_respects_limits:
  assumes "canPlaceBet (Fin stake) g = Stake_allowed" "cg_current g = Fin bal"
    and "cc_maxStake (cg_config g) = Fin mx" "cc_panicBalanceFloor (cg_config g) = Fin fl"
  shows "\<not> cg_locked g \<and> stake \<le> mx \<and> stake \<le> bal \<and> jle (Fin fl) (rnd (bal - stake))"
proof -
  have "jle a b" if "\<not> jlt b a" "a \<noteq> NaN" "b \<noteq> NaN" for a b
    using that by (cases a; cases b) (auto simp: jle_def)
  then show ?thesis
    using assms by (auto simp: canPlaceBet_def Let_def split: if_splits)
qed

theorem allowed_stake_respects_limits_witness: "jle (Fin 100) (rnd (1000 - 50))"
  using allowed_stake_respects_limits [of 50 "cg_new demo_capital" 1000 50 100]
  by (simp add: canPlaceBet_def cg_new_def demo_capital_def Let_def)

text \<open>The unlocking does not move the peak: the next report of the same balance locks again.\<close>

lemma unlock_is_undone:
  assumes "jlt b (cg_peak g)" "jle (cc_maxDrawdownAbs (cg_config g)) (jsub (cg_peak g) b)"
  shows "cg_locked (updateBalance b (cg_unlock (updateBalance b g)))"
proof -
  have "\<not> jlt (cg_peak g) b" using assms(1) by (cases "cg_peak g"; cases b) auto
  then show ?thesis
    using assms(2) by (simp add: updateBalance_def cg_unlock_def) (simp add: cg_evaluate_def cg_lock_def Let_def)
qed

text \<open>A balance that is not a number locks nothing and allows every stake up to the largest.\<close>

lemma unknown_balance_allows:
  assumes "\<not> cg_locked g" "\<not> jlt (cc_maxStake (cg_config g)) stake" "jlt (Fin 0) (cg_peak g)"
  shows "canPlaceBet stake (updateBalance NaN g) = Stake_allowed"
proof -
  have nan: "\<not> jlt NaN x" "\<not> jlt x NaN" "\<not> jle NaN x" "\<not> jle x NaN" "jsub x NaN = NaN" "jsub NaN x = NaN" for x
    by (cases x; auto simp: jle_def jsub_def)+
  have "jdiv NaN x = NaN" for x by simp
  then show ?thesis
    using assms by (simp add: updateBalance_def cg_evaluate_def canPlaceBet_def Let_def nan)
qed

section \<open>The velocity controller\<close>

record velocity_config =
  vc_enabled :: bool
  vc_maxActionsPerMinute :: nat
  vc_maxActionsPerHour :: nat
  vc_minActionIntervalMs :: int
  vc_maxActionIntervalMs :: int
  vc_idleProbability :: jsnum
  vc_minIdleMs :: int
  vc_maxIdleMs :: int
  vc_cashOutJitterMs :: int

text \<open>The history keeps the instants; the type of an action is only stored.\<close>

record velocity =
  ve_config :: velocity_config
  ve_history :: "int list"
  ve_lastActionAt :: int

definition ve_new :: "velocity_config \<Rightarrow> velocity" where
  "ve_new c = \<lparr>ve_config = c, ve_history = [], ve_lastActionAt = 0\<rparr>"

text \<open>\<open>r\<close> is a value of \<open>Math.random()\<close>.\<close>

definition js_floor :: "jsnum \<Rightarrow> int" where
  "js_floor x = (case x of Fin q \<Rightarrow> \<lfloor>q\<rfloor> | _ \<Rightarrow> 0)"

definition randomBetween :: "jsnum \<Rightarrow> int \<Rightarrow> int \<Rightarrow> int" where
  "randomBetween r mn mx = js_floor (jmul r (jsint (mx - mn + 1))) + mn"

definition ve_prune :: "int \<Rightarrow> velocity \<Rightarrow> velocity" where
  "ve_prune now v = v\<lparr>ve_history := filter (\<lambda>t. now - 3600000 \<le> t) (ve_history v)\<rparr>"

datatype velocity_reason = VR_per_minute | VR_per_hour | VR_min_interval | VR_human_idle

datatype velocity_decision = Go | Wait int velocity_reason

text \<open>\<open>r1\<close>, \<open>r2\<close> and \<open>r3\<close> are the three random values, for the interval, the idling and its length.\<close>

definition ve_acquire :: "int \<Rightarrow> jsnum \<Rightarrow> jsnum \<Rightarrow> jsnum \<Rightarrow> velocity \<Rightarrow> velocity \<times> velocity_decision" where
  "ve_acquire now r1 r2 r3 v0 =
     (let c = ve_config v0
      in if \<not> vc_enabled c then (v0, Go)
         else
           let v = ve_prune now v0;
               minute = filter (\<lambda>t. now - t < 60000) (ve_history v);
               hour = filter (\<lambda>t. now - t < 3600000) (ve_history v);
               elapsed = now - ve_lastActionAt v;
               minInterval = randomBetween r1 (vc_minActionIntervalMs c) (vc_maxActionIntervalMs c)
           in if vc_maxActionsPerMinute c \<le> length minute
              then (v, Wait (case sort minute of [] \<Rightarrow> 60000 | t # _ \<Rightarrow> max 1000 (60000 - (now - t))) VR_per_minute)
              else if vc_maxActionsPerHour c \<le> length hour then (v, Wait 30000 VR_per_hour)
              else if 0 < ve_lastActionAt v \<and> elapsed < minInterval then (v, Wait (minInterval - elapsed) VR_min_interval)
              else if jlt r2 (vc_idleProbability c)
              then (v, Wait (randomBetween r3 (vc_minIdleMs c) (vc_maxIdleMs c)) VR_human_idle)
              else (v, Go))"

definition ve_record :: "int \<Rightarrow> velocity \<Rightarrow> velocity" where
  "ve_record now v = v\<lparr>ve_history := ve_history v @ [now], ve_lastActionAt := now\<rparr>"

definition getCashOutJitter :: "jsnum \<Rightarrow> velocity \<Rightarrow> int" where
  "getCashOutJitter r v =
     (if \<not> vc_enabled (ve_config v) then 0
      else js_floor (jmul r (jsint (vc_cashOutJitterMs (ve_config v) + 1))))"

section \<open>The rate is bounded\<close>

text \<open>
  A caller that acts, and records the action, when it is allowed to: it asks at an instant with three random values.
  The log holds the instants of all actions, the latest one first.
\<close>

record ask =
  ask_at :: int
  ask_r1 :: jsnum
  ask_r2 :: jsnum
  ask_r3 :: jsnum

definition ve_act :: "velocity \<times> int list \<Rightarrow> ask \<Rightarrow> velocity \<times> int list" where
  "ve_act s a =
     (case ve_acquire (ask_at a) (ask_r1 a) (ask_r2 a) (ask_r3 a) (fst s) of
        (v, Go) \<Rightarrow> (ve_record (ask_at a) v, ask_at a # snd s)
      | (v, Wait _ _) \<Rightarrow> (v, snd s))"

text \<open>No action is one of more than \<open>n\<close> in the \<open>w\<close> milliseconds that end with it.\<close>

fun rate_ok :: "nat \<Rightarrow> int \<Rightarrow> int list \<Rightarrow> bool" where
  "rate_ok n w [] = True"
| "rate_ok n w (t # ts) = (length (filter (\<lambda>u. t - u < w) (t # ts)) \<le> n \<and> rate_ok n w ts)"

text \<open>The history holds what the log has of the last hour, at every instant from the previous one on.\<close>

definition ve_inv :: "velocity_config \<Rightarrow> int \<Rightarrow> velocity \<times> int list \<Rightarrow> bool" where
  "ve_inv c prev s \<longleftrightarrow> ve_config (fst s) = c \<and>
     (\<forall>now \<ge> prev. filter (\<lambda>u. now - u < 3600000) (ve_history (fst s)) = filter (\<lambda>u. now - u < 3600000) (rev (snd s))) \<and>
     rate_ok (vc_maxActionsPerMinute c) 60000 (snd s) \<and> rate_ok (vc_maxActionsPerHour c) 3600000 (snd s)"

lemma filter_narrow:
  assumes "filter p xs = filter p ys" "\<And>x. q x \<Longrightarrow> p x"
  shows "filter q xs = filter q ys"
proof -
  have "filter q zs = filter q (filter p zs)" for zs
    using assms(2) by (induction zs) auto
  then show ?thesis using assms(1) by metis
qed

lemma prune_history:
  fixes now prev n :: int
  assumes "prev \<le> now" "\<forall>n \<ge> prev. filter (\<lambda>u. n - u < 3600000) h = filter (\<lambda>u. n - u < 3600000) l" "now \<le> n"
  shows "filter (\<lambda>u. n - u < 3600000) (filter (\<lambda>t. now - 3600000 \<le> t) h) = filter (\<lambda>u. n - u < 3600000) l"
proof -
  have "filter (\<lambda>u. n - u < 3600000) (filter (\<lambda>t. now - 3600000 \<le> t) h) = filter (\<lambda>u. n - u < 3600000) h"
    using assms(3) by (induction h) auto
  then show ?thesis using assms by simp
qed

lemma ve_act_inv:
  assumes "ve_inv c prev s" "prev \<le> ask_at a" "vc_enabled c"
  shows "ve_inv c (ask_at a) (ve_act s a)"
proof -
  define now where "now = ask_at a"
  define v where "v = ve_prune now (fst s)"
  have c: "ve_config (fst s) = c" "ve_config v = c" using assms(1) by (simp_all add: ve_inv_def v_def ve_prune_def)
  have hist: "filter (\<lambda>u. n - u < 3600000) (ve_history v) = filter (\<lambda>u. n - u < 3600000) (rev (snd s))" if "now \<le> n" for n
    unfolding v_def ve_prune_def
    using prune_history [of prev now "ve_history (fst s)" "rev (snd s)" n] assms(1,2) that by (simp add: ve_inv_def now_def)
  obtain d where d: "ve_acquire now (ask_r1 a) (ask_r2 a) (ask_r3 a) (fst s) = (v, d)"
    using assms(3) c that [of "snd (ve_acquire now (ask_r1 a) (ask_r2 a) (ask_r3 a) (fst s))"]
    by (simp add: ve_acquire_def Let_def flip: v_def)
  show ?thesis
  proof (cases d)
    case (Wait w r)
    then show ?thesis
      using assms(1) d c hist by (simp add: ve_act_def ve_inv_def flip: now_def)
  next
    case Go
    have counts: "length (filter (\<lambda>t. now - t < 60000) (ve_history v)) < vc_maxActionsPerMinute c"
      "length (filter (\<lambda>t. now - t < 3600000) (ve_history v)) < vc_maxActionsPerHour c"
      using d Go assms(3) c unfolding ve_acquire_def v_def [symmetric] by (auto simp: Let_def split: if_splits)
    have "filter (\<lambda>t. now - t < 60000) (ve_history v) = filter (\<lambda>t. now - t < 60000) (rev (snd s))"
      by (rule filter_narrow [OF hist]) auto
    then have "length (filter (\<lambda>t. now - t < 60000) (snd s)) < vc_maxActionsPerMinute c"
      "length (filter (\<lambda>t. now - t < 3600000) (snd s)) < vc_maxActionsPerHour c"
      using counts hist [of now] by (simp_all add: rev_filter [symmetric])
    then show ?thesis
      using assms(1) d Go c hist by (simp add: ve_act_def ve_inv_def ve_record_def flip: now_def)
  qed
qed

fun increasing :: "int \<Rightarrow> int list \<Rightarrow> bool" where
  "increasing prev [] = True"
| "increasing prev (t # ts) = (prev \<le> t \<and> increasing t ts)"

lemma ve_run_inv:
  "ve_inv c prev s \<Longrightarrow> vc_enabled c \<Longrightarrow> increasing prev (map ask_at as) \<Longrightarrow> \<exists>m. ve_inv c m (foldl ve_act s as)"
proof (induction as arbitrary: s prev)
  case (Cons a as)
  then have "ve_inv c (ask_at a) (ve_act s a)" by (intro ve_act_inv) auto
  then show ?case using Cons by simp
qed auto

text \<open>
  The rate of actions is bounded: a caller that records every action it is allowed, at times that do not
  go back, never acts more often than the configured number within any 60 seconds, nor within any hour, although
  the controller forgets what is older than an hour.
\<close>

theorem action_rate_bounded:
  assumes "vc_enabled c" "increasing t0 (map ask_at as)"
  shows "rate_ok (vc_maxActionsPerMinute c) 60000 (snd (foldl ve_act (ve_new c, []) as)) \<and>
    rate_ok (vc_maxActionsPerHour c) 3600000 (snd (foldl ve_act (ve_new c, []) as))"
proof -
  have "ve_inv c t0 (ve_new c, [])" by (simp add: ve_inv_def ve_new_def)
  from ve_run_inv [OF this assms] show ?thesis by (auto simp: ve_inv_def)
qed

definition demo_velocity :: velocity_config where
  "demo_velocity = \<lparr>vc_enabled = True, vc_maxActionsPerMinute = 1, vc_maxActionsPerHour = 10, vc_minActionIntervalMs = 0,
     vc_maxActionIntervalMs = 0, vc_idleProbability = Fin 0, vc_minIdleMs = 0, vc_maxIdleMs = 0, vc_cashOutJitterMs = 0\<rparr>"

definition demo_ask :: "int \<Rightarrow> ask" where
  "demo_ask t = \<lparr>ask_at = t, ask_r1 = Fin 0, ask_r2 = Fin 0, ask_r3 = Fin 0\<rparr>"

theorem action_rate_bounded_witness:
  "rate_ok 1 60000 (snd (foldl ve_act (ve_new demo_velocity, []) [demo_ask 1, demo_ask 2, demo_ask 70000]))"
  using action_rate_bounded [of demo_velocity 0 "[demo_ask 1, demo_ask 2, demo_ask 70000]"]
  by (simp add: demo_velocity_def demo_ask_def)

end
