(* ===== verification/Ranking.thy ===== *)
theory Ranking
  imports Calibration SheathMode "HOL-Library.AList" "HOL-Library.Multiset"
begin

text \<open>
  The ranking of opportunities: the score and the window of the prediction layer (\<open>src/src/prediction/opportunity\<close>),
  the ranker and the bridge of \<open>src/src/opportunity\<close>, the decision engine of
  \<open>src/src/decision/decision-engine.ts\<close> and the caches it reads
  (\<open>src/src/observability/performance/hot-cache.ts\<close>). Instants are milliseconds, their texts are left out.
\<close>

section \<open>Sorting by a number, downwards\<close>

text \<open>
  \<open>sort((a, b) => b.q - a.q)\<close>: stable, the largest first. With a \<open>NaN\<close> among the keys the comparator is not an
  order and the result is the engine's choice; here such keys come last.
\<close>

definition sort_down :: "('a \<Rightarrow> jsnum) \<Rightarrow> 'a list \<Rightarrow> 'a list" where
  "sort_down f xs = sort_key (\<lambda>x. jneg (f x)) xs"

lemma set_sort_down [simp]: "set (sort_down f xs) = set xs"
  and length_sort_down [simp]: "length (sort_down f xs) = length xs"
  and distinct_map_sort_down [simp]: "distinct (map g (sort_down f xs)) = distinct (map g xs)"
  by (simp_all add: sort_down_def distinct_map)

lemma jneg_le_iff: "a \<noteq> NaN \<Longrightarrow> b \<noteq> NaN \<Longrightarrow> jneg a \<le> jneg b \<longleftrightarrow> jle b a"
  by (cases a; cases b) (auto simp: jle_def)

lemma sorted_sort_down: "sorted (map (\<lambda>x. jneg (f x)) (sort_down f xs))"
  by (simp add: sort_down_def)

lemma nth_sort_down_le:
  assumes "sorted (map (\<lambda>x. jneg (f x)) xs)" "i \<le> j" "j < length xs" "f (xs ! i) \<noteq> NaN" "f (xs ! j) \<noteq> NaN"
  shows "jle (f (xs ! j)) (f (xs ! i))"
  using sorted_nth_mono [OF assms(1), of i j] assms by (simp add: jneg_le_iff)

text \<open>In a list sorted downwards fewer elements are above the \<open>i\<close>-th than stand before it.\<close>

lemma better_before:
  assumes "sorted (map (\<lambda>x. jneg (f x)) xs)" "i < length xs" "f (xs ! i) \<noteq> NaN"
  shows "length (filter (\<lambda>x. jlt (f (xs ! i)) (f x)) xs) \<le> i"
proof -
  have "\<not> jlt (f (xs ! i)) (f x)" if "x \<in> set (drop i xs)" for x
  proof -
    from that obtain k where "k < length xs - i" "x = xs ! (i + k)"
      by (auto simp: in_set_conv_nth)
    then obtain j where j: "i \<le> j" "j < length xs" "x = xs ! j"
      by (intro that [of "i + k"]) auto
    show ?thesis
    proof (cases "f x = NaN")
      case False
      with nth_sort_down_le [OF assms(1) j(1,2)] assms(3) j(3) have "jle (f x) (f (xs ! i))" by simp
      then show ?thesis by (cases "f x"; cases "f (xs ! i)") (auto simp: jle_def)
    qed (cases "f (xs ! i)"; simp)
  qed
  then have "filter (\<lambda>x. jlt (f (xs ! i)) (f x)) (drop i xs) = []" by (auto simp: filter_empty_conv)
  then have "filter (\<lambda>x. jlt (f (xs ! i)) (f x)) xs = filter (\<lambda>x. jlt (f (xs ! i)) (f x)) (take i xs)"
    by (metis append_Nil2 append_take_drop_id filter_append)
  then show ?thesis
    by (metis assms(2) length_filter_le length_take less_imp_le_nat min.absorb2)
qed

section \<open>Scores and ranks of the prediction layer\<close>

record opportunity_inputs =
  oi_calibratedEdge :: jsnum
  oi_confidence :: jsnum
  oi_dataQuality :: jsnum
  oi_regimeStability :: jsnum
  oi_modelAgreement :: jsnum
  oi_executionQuality :: jsnum

definition clamp01 :: "jsnum \<Rightarrow> jsnum" where
  "clamp01 x = jmax (Fin 0) (jmin (Fin 1) x)"

definition computeOpportunityScore :: "opportunity_inputs \<Rightarrow> jsnum" where
  "computeOpportunityScore i =
     jmul (jmul (jmul (jmul (jmul (jmax (Fin 0) (oi_calibratedEdge i)) (clamp01 (oi_confidence i)))
       (clamp01 (oi_dataQuality i))) (clamp01 (oi_regimeStability i))) (clamp01 (oi_modelAgreement i)))
       (clamp01 (oi_executionQuality i))"

record opportunity_record =
  ow_opportunityId :: string
  ow_predictionId :: string
  ow_target :: jsnum
  ow_probability :: jsnum
  ow_calibratedProbability :: jsnum
  ow_expectedValue :: jsnum
  ow_confidence :: jsnum
  ow_score :: jsnum
  ow_rank :: nat
  ow_regime :: string
  ow_modelVersion :: string
  ow_featureVersion :: string
  ow_timestamp :: int
  ow_expiry :: int

record opportunity_params =
  on_predictionId :: string
  on_target :: jsnum
  on_probability :: jsnum
  on_calibratedProbability :: jsnum
  on_expectedValue :: jsnum
  on_confidence :: jsnum
  on_regime :: string
  on_modelVersion :: string
  on_featureVersion :: string
  on_inputs :: opportunity_inputs
  on_ttlMs :: "int option"

text \<open>The map of the ranks: of two positions with one identifier the later is kept.\<close>

definition rank_map :: "opportunity_record list \<Rightarrow> string \<Rightarrow> nat option" where
  "rank_map xs = map_of (rev (zip (map ow_opportunityId xs) [1..<length xs + 1]))"

definition rerank :: "opportunity_record list \<Rightarrow> opportunity_record list" where
  "rerank w = map (\<lambda>r. r\<lparr>ow_rank := (case rank_map (sort_down ow_score w) (ow_opportunityId r) of Some k \<Rightarrow> k | None \<Rightarrow> 0)\<rparr>) w"

text \<open>\<open>uuid\<close> is the identifier that \<open>randomUUID\<close> gives; the new record is the last of the window returned.\<close>

definition mk_record :: "int \<Rightarrow> string \<Rightarrow> opportunity_params \<Rightarrow> opportunity_record" where
  "mk_record now uuid p =
     \<lparr>ow_opportunityId = uuid, ow_predictionId = on_predictionId p, ow_target = on_target p,
      ow_probability = on_probability p, ow_calibratedProbability = on_calibratedProbability p,
      ow_expectedValue = on_expectedValue p, ow_confidence = on_confidence p,
      ow_score = computeOpportunityScore (on_inputs p), ow_rank = 0, ow_regime = on_regime p,
      ow_modelVersion = on_modelVersion p, ow_featureVersion = on_featureVersion p, ow_timestamp = now,
      ow_expiry = now + (case on_ttlMs p of Some t \<Rightarrow> t | None \<Rightarrow> 45000)\<rparr>"

definition scoreAndInsert ::
  "nat \<Rightarrow> int \<Rightarrow> string \<Rightarrow> opportunity_params \<Rightarrow> opportunity_record list \<Rightarrow> opportunity_record list" where
  "scoreAndInsert maxWindow now uuid p w =
     (let w1 = w @ [mk_record now uuid p];
          w2 = (if maxWindow < length w1 then drop (length w1 - maxWindow) w1 else w1)
      in rerank w2)"

definition top_records :: "nat \<Rightarrow> opportunity_record list \<Rightarrow> opportunity_record list" where
  "top_records n w = take n (sort_key ow_rank w)"

text \<open>\<open>OpportunityWindow\<close>, the window that forgets by number and reads only what has not expired.\<close>

definition ow_push :: "nat \<Rightarrow> opportunity_record \<Rightarrow> opportunity_record list \<Rightarrow> opportunity_record list" where
  "ow_push maxSize r xs = (let ys = xs @ [r] in if maxSize < length ys then tl ys else ys)"

definition ow_active :: "int \<Rightarrow> opportunity_record list \<Rightarrow> opportunity_record list" where
  "ow_active now xs = filter (\<lambda>r. now < ow_expiry r) xs"

definition ow_top :: "nat \<Rightarrow> int \<Rightarrow> opportunity_record list \<Rightarrow> opportunity_record list" where
  "ow_top n now xs = take n (sort_down ow_score (ow_active now xs))"

lemma clamp01_range: "x \<noteq> NaN \<Longrightarrow> \<exists>q. clamp01 x = Fin q \<and> 0 \<le> q \<and> q \<le> 1"
  by (cases x) (auto simp: clamp01_def jmax_def jmin_def)

lemma rank_map_nth:
  assumes "distinct (map ow_opportunityId xs)" "i < length xs"
  shows "rank_map xs (ow_opportunityId (xs ! i)) = Some (i + 1)"
proof -
  let ?z = "zip (map ow_opportunityId xs) [1..<length xs + 1]"
  have m: "map fst (rev ?z) = rev (map ow_opportunityId xs)"
    by (simp add: rev_map [symmetric] del: upt_Suc)
  have "?z ! i = (ow_opportunityId (xs ! i), i + 1)" "i < length ?z"
    using assms(2) by (simp_all del: upt_Suc)
  then have "(ow_opportunityId (xs ! i), i + 1) \<in> set (rev ?z)"
    by (metis nth_mem set_rev)
  then show ?thesis
    using assms(1) m by (simp add: rank_map_def del: upt_Suc)
qed


definition with_rank :: "opportunity_record list \<Rightarrow> opportunity_record \<Rightarrow> opportunity_record" where
  "with_rank w r = r\<lparr>ow_rank := (case rank_map (sort_down ow_score w) (ow_opportunityId r) of Some k \<Rightarrow> k | None \<Rightarrow> 0)\<rparr>"

lemma rerank_eq: "rerank w = map (with_rank w) w"
  by (simp add: rerank_def with_rank_def)

lemma ids_rerank [simp]: "map ow_opportunityId (rerank w) = map ow_opportunityId w"
  by (simp add: rerank_def)

lemma ranks_of_sorted:
  assumes "distinct (map ow_opportunityId w)"
  shows "map ow_rank (map (with_rank w) (sort_down ow_score w)) = [1..<length w + 1]"
proof (rule nth_equalityI)
  fix i assume "i < length (map ow_rank (map (with_rank w) (sort_down ow_score w)))"
  then have i: "i < length (sort_down ow_score w)" by simp
  have d: "distinct (map ow_opportunityId (sort_down ow_score w))" using assms by simp
  from rank_map_nth [OF d i] i
  show "map ow_rank (map (with_rank w) (sort_down ow_score w)) ! i = [1..<length w + 1] ! i"
    by (simp add: with_rank_def del: upt_Suc)
qed (simp del: upt_Suc)

lemma sort_by_rank:
  assumes "distinct (map ow_opportunityId w)"
  shows "sort_key ow_rank (rerank w) = map (with_rank w) (sort_down ow_score w)"
proof -
  let ?s = "map (with_rank w) (sort_down ow_score w)"
  have ranks: "map ow_rank ?s = [1..<length w + 1]" by (rule ranks_of_sorted [OF assms])
  have m: "mset ?s = mset (rerank w)"
    by (simp add: rerank_eq sort_down_def)
  have "inj_on ow_rank (set ?s)"
  proof -
    have "distinct (map ow_rank ?s)" by (simp add: ranks del: map_map upt_Suc)
    then show ?thesis by (simp only: distinct_map)
  qed
  moreover have "set ?s = set (rerank w)" using m by (rule mset_eq_setD)
  ultimately show ?thesis
    using m [symmetric] by (intro sort_key_inj_key_eq) (simp_all add: ranks del: map_map upt_Suc)
qed

lemma sort_key_map: "sort_key f (map g xs) = map g (sort_key (\<lambda>x. f (g x)) xs)"
proof -
  have "insort_key f (g x) (map g ys) = map g (insort_key (\<lambda>x. f (g x)) x ys)" for x ys
    by (induction ys) auto
  then show ?thesis by (induction xs) (simp_all add: sort_key_simps)
qed

lemma sort_down_rerank: "sort_down ow_score (rerank w) = map (with_rank w) (sort_down ow_score w)"
  by (simp add: rerank_eq sort_down_def sort_key_map) (simp add: with_rank_def)

text \<open>
  The window of the prediction layer: it never holds more than \<open>maxWindow\<close> records, the new one among them,
  and what \<open>top\<close> gives is the beginning of the window sorted by score, with the ranks 1, 2, 3 and so on.
\<close>

theorem top_is_sorted_by_score:
  fixes w :: "opportunity_record list"
  assumes "distinct (map ow_opportunityId w)" "uuid \<notin> ow_opportunityId ` set w" "0 < maxWindow"
    and "w' = scoreAndInsert maxWindow now uuid p w"
  shows "length w' \<le> maxWindow
    \<and> ow_opportunityId (last w') = uuid
    \<and> top_records n w' = take n (sort_down ow_score w')
    \<and> map ow_rank (top_records n w') = [1..<min n (length w') + 1]"
proof -
  obtain v where v: "w' = rerank v" "distinct (map ow_opportunityId v)" "length v \<le> maxWindow" "v \<noteq> []"
    "ow_opportunityId (last v) = uuid"
  proof
    let ?v = "let w1 = w @ [mk_record now uuid p] in if maxWindow < length w1 then drop (length w1 - maxWindow) w1 else w1"
    show "w' = rerank ?v" using assms(4) by (simp add: scoreAndInsert_def Let_def)
    show "distinct (map ow_opportunityId ?v)"
      using assms(1,2) by (auto simp: Let_def mk_record_def drop_map [symmetric] simp del: drop_append intro!: distinct_drop)
    show "length ?v \<le> maxWindow" using assms(3) by (auto simp: Let_def)
    show "?v \<noteq> []" using assms(3) by (auto simp: Let_def)
    show "ow_opportunityId (last ?v) = uuid"
      using assms(3) by (auto simp: Let_def mk_record_def last_drop simp del: drop_append)
  qed
  have top: "top_records n w' = take n (map (with_rank v) (sort_down ow_score v))" for n
    by (simp add: top_records_def v(1) sort_by_rank [OF v(2)])
  have "map ow_rank (top_records n w') = take n [1..<length v + 1]"
    by (simp only: top take_map [symmetric] ranks_of_sorted [OF v(2)])
  moreover have "length w' = length v" by (simp add: v(1) rerank_def)
  moreover have "ow_opportunityId (last w') = uuid"
    using v(4,5) by (simp add: v(1) rerank_def last_map)
  moreover have "take n [1..<length v + 1] = [1..<min n (length v) + 1]"
    by (cases "n \<le> length v") (simp_all add: take_upt min_def del: upt_Suc)
  ultimately show ?thesis
    using v(3) top by (simp add: v(1) sort_down_rerank del: upt_Suc)
qed

definition demo_params :: "jsnum \<Rightarrow> opportunity_params" where
  "demo_params e = \<lparr>on_predictionId = ''p'', on_target = Fin 2, on_probability = Fin (1/2),
     on_calibratedProbability = Fin (1/2), on_expectedValue = Fin 0, on_confidence = Fin (1/2), on_regime = ''r'',
     on_modelVersion = ''m'', on_featureVersion = ''f'',
     on_inputs = \<lparr>oi_calibratedEdge = e, oi_confidence = Fin 1, oi_dataQuality = Fin 1, oi_regimeStability = Fin 1,
       oi_modelAgreement = Fin 1, oi_executionQuality = Fin 1\<rparr>, on_ttlMs = None\<rparr>"

theorem top_is_sorted_by_score_witness:
  "map ow_rank (top_records 5 (scoreAndInsert 500 0 ''b'' (demo_params (Fin 2)) [mk_record 0 ''a'' (demo_params (Fin 1))]))
     = [1, 2]"
proof -
  let ?w = "scoreAndInsert 500 0 ''b'' (demo_params (Fin 2)) [mk_record 0 ''a'' (demo_params (Fin 1))]"
  have "length ?w = 2" by (simp add: scoreAndInsert_def Let_def rerank_def)
  moreover have "map ow_rank (top_records 5 ?w) = [1..<min 5 (length ?w) + 1]"
    by (rule top_is_sorted_by_score [THEN conjunct2, THEN conjunct2, THEN conjunct2, OF _ _ _ refl])
      (simp_all add: mk_record_def)
  ultimately show ?thesis by (simp add: upt_rec)
qed

section \<open>The ranker of the decisions\<close>

record opportunity_dims =
  od_edge :: jsnum
  od_confidence :: jsnum
  od_dataQuality :: jsnum
  od_regimeFit :: jsnum
  od_executionFeasibility :: jsnum
  od_temporalConsistency :: jsnum

record scored_opportunity =
  sq_id :: string
  sq_roundId :: string
  sq_tenantId :: "string option"
  sq_dimensions :: opportunity_dims
  sq_qualityScore :: jsnum
  sq_probability :: jsnum
  sq_confidence :: jsnum
  sq_regime :: "string option"
  sq_modelVersion :: "string option"
  sq_scoredAt :: int
  sq_expiresAt :: int
  sq_rank :: "nat option"

record ranker_options =
  ro_windowSize :: nat
  ro_ttlMs :: int
  ro_topFraction :: jsnum
  ro_minQualityScore :: jsnum

definition ranker_defaults :: ranker_options where
  "ranker_defaults = \<lparr>ro_windowSize = 50, ro_ttlMs = 60000, ro_topFraction = lit (7/10), ro_minQualityScore = lit (35/100)\<rparr>"

record decision_ranker =
  ra_window :: "scored_opportunity list"
  ra_opts :: ranker_options

definition evictExpired :: "int \<Rightarrow> decision_ranker \<Rightarrow> decision_ranker" where
  "evictExpired now r = r\<lparr>ra_window := filter (\<lambda>o'. \<not> sq_expiresAt o' < now) (ra_window r)\<rparr>"

definition with_id :: "string \<Rightarrow> scored_opportunity \<Rightarrow> bool" where
  "with_id i o' \<longleftrightarrow> sq_id o' = i"

definition assign_ranks :: "scored_opportunity list \<Rightarrow> scored_opportunity list" where
  "assign_ranks w = map (\<lambda>(o', i). o'\<lparr>sq_rank := Some (i + 1)\<rparr>) (zip w [0..<length w])"

definition place_in_window :: "nat \<Rightarrow> scored_opportunity \<Rightarrow> scored_opportunity list \<Rightarrow> scored_opportunity list" where
  "place_in_window n opp w =
     take n (sort_down sq_qualityScore
       (if list_ex (with_id (sq_id opp)) w then update_first (with_id (sq_id opp)) (\<lambda>_. opp) w else w @ [opp]))"

definition ranker_upsert ::
  "int \<Rightarrow> scored_opportunity \<Rightarrow> decision_ranker \<Rightarrow> scored_opportunity option \<times> decision_ranker" where
  "ranker_upsert now opp r =
     (let r1 = evictExpired now r
      in if jlt (sq_qualityScore opp) (ro_minQualityScore (ra_opts r)) then (None, r1)
         else
           let w = assign_ranks (place_in_window (ro_windowSize (ra_opts r)) opp (ra_window r1))
           in (find (with_id (sq_id opp)) w, r1\<lparr>ra_window := w\<rparr>))"

definition ranker_top :: "int \<Rightarrow> nat \<Rightarrow> decision_ranker \<Rightarrow> scored_opportunity list \<times> decision_ranker" where
  "ranker_top now n r = (let r1 = evictExpired now r in (take n (ra_window r1), r1))"

fun js_ceil :: "jsnum \<Rightarrow> jsnum" where
  "js_ceil (Fin q) = rnd (of_int \<lceil>q\<rceil>)"
| "js_ceil x = x"

definition rank_cutoff :: "nat \<Rightarrow> jsnum \<Rightarrow> jsnum" where
  "rank_cutoff n f = jmax (Fin 1) (js_ceil (jmul (jsint (int n)) f))"

definition ranker_isApproved :: "int \<Rightarrow> string \<Rightarrow> decision_ranker \<Rightarrow> bool \<times> decision_ranker" where
  "ranker_isApproved now i r =
     (let r1 = evictExpired now r
      in (case find (with_id i) (ra_window r1) of
            None \<Rightarrow> False
          | Some o' \<Rightarrow>
              (case sq_rank o' of
                 None \<Rightarrow> False
               | Some k \<Rightarrow> jle (jsint (int k)) (rank_cutoff (length (ra_window r1)) (ro_topFraction (ra_opts r)))), r1))"

definition ranker_size :: "int \<Rightarrow> decision_ranker \<Rightarrow> nat \<times> decision_ranker" where
  "ranker_size now r = (let r1 = evictExpired now r in (length (ra_window r1), r1))"

definition ranker_clear :: "decision_ranker \<Rightarrow> decision_ranker" where
  "ranker_clear r = r\<lparr>ra_window := []\<rparr>"

text \<open>The bridge from the records of the prediction layer; \<open>dims\<close> is never passed by its callers.\<close>

definition predictionRecordToScored :: "opportunity_record \<Rightarrow> scored_opportunity" where
  "predictionRecordToScored r =
     \<lparr>sq_id = ow_opportunityId r, sq_roundId = ow_predictionId r, sq_tenantId = None,
      sq_dimensions = \<lparr>od_edge = clamp01 (jadd (lit (1/2)) (ow_expectedValue r)), od_confidence = ow_confidence r,
        od_dataQuality = lit (9/10), od_regimeFit = lit (7/10), od_executionFeasibility = lit (9/10),
        od_temporalConsistency = lit (8/10)\<rparr>,
      sq_qualityScore = clamp01 (jadd (lit (1/2)) (jmul (ow_score r) (Fin 2))),
      sq_probability = ow_calibratedProbability r, sq_confidence = ow_confidence r, sq_regime = Some (ow_regime r),
      sq_modelVersion = Some (ow_modelVersion r), sq_scoredAt = ow_timestamp r, sq_expiresAt = ow_expiry r,
      sq_rank = Some (ow_rank r)\<rparr>"

definition bridgeOpportunityToDecisionRanker ::
  "int \<Rightarrow> opportunity_record \<Rightarrow> decision_ranker \<Rightarrow> scored_opportunity option \<times> decision_ranker" where
  "bridgeOpportunityToDecisionRanker now rec r = ranker_upsert now (predictionRecordToScored rec) r"


datatype ranker_event =
    Rank_upsert int scored_opportunity
  | Rank_top int nat
  | Rank_approved int string
  | Rank_size int
  | Rank_clear

fun ra_step :: "decision_ranker \<Rightarrow> ranker_event \<Rightarrow> decision_ranker" where
  "ra_step r (Rank_upsert now o') = snd (ranker_upsert now o' r)"
| "ra_step r (Rank_top now n) = snd (ranker_top now n r)"
| "ra_step r (Rank_approved now i) = snd (ranker_isApproved now i r)"
| "ra_step r (Rank_size now) = snd (ranker_size now r)"
| "ra_step r Rank_clear = ranker_clear r"

definition ra_new :: "ranker_options \<Rightarrow> decision_ranker" where
  "ra_new c = \<lparr>ra_window = [], ra_opts = c\<rparr>"

definition rank_no :: "scored_opportunity \<Rightarrow> nat" where
  "rank_no o' = (case sq_rank o' of Some k \<Rightarrow> k | None \<Rightarrow> 0)"

definition ranked_window :: "scored_opportunity list \<Rightarrow> bool" where
  "ranked_window w \<longleftrightarrow> sorted (map (\<lambda>o'. jneg (sq_qualityScore o')) w) \<and> distinct (map sq_id w)
     \<and> sorted_wrt (\<lambda>a b. rank_no a < rank_no b) w \<and> list_all (\<lambda>o'. 0 < rank_no o') w"

definition ranker_ok :: "ranker_options \<Rightarrow> decision_ranker \<Rightarrow> bool" where
  "ranker_ok c r \<longleftrightarrow> ranked_window (ra_window r) \<and> length (ra_window r) \<le> ro_windowSize c \<and> ra_opts r = c"

lemma ranked_window_filter: "ranked_window w \<Longrightarrow> ranked_window (filter p w)"
  by (auto simp: ranked_window_def sorted_wrt_filter distinct_map_filter sorted_filter list_all_iff)

lemma evict_ok: "ranker_ok c r \<Longrightarrow> ranker_ok c (evictExpired now r)"
  by (auto simp: ranker_ok_def evictExpired_def ranked_window_filter intro: le_trans [OF length_filter_le])

lemma assign_ranks_map:
  assumes "\<And>o' k. f (o'\<lparr>sq_rank := k\<rparr>) = f o'"
  shows "map f (assign_ranks w) = map f w"
  by (rule nth_equalityI) (auto simp: assign_ranks_def assms)

lemma rank_no_assign: "i < length w \<Longrightarrow> rank_no (assign_ranks w ! i) = Suc i"
  by (simp add: assign_ranks_def rank_no_def)

lemma length_assign_ranks [simp]: "length (assign_ranks w) = length w"
  by (simp add: assign_ranks_def)

lemma distinct_ids_place:
  assumes "distinct (map sq_id w)"
  shows "distinct (map sq_id (place_in_window n opp w))"
proof -
  let ?v = "if list_ex (with_id (sq_id opp)) w then update_first (with_id (sq_id opp)) (\<lambda>_. opp) w else w @ [opp]"
  have "map sq_id (update_first (with_id (sq_id opp)) (\<lambda>_. opp) w) = map sq_id w"
    by (induction w) (auto simp: with_id_def)
  with assms have "distinct (map sq_id ?v)"
    by (auto simp: list_ex_iff with_id_def image_iff)
  then show ?thesis
    by (simp add: place_in_window_def take_map [symmetric])
qed

lemma ranked_window_assign:
  assumes "distinct (map sq_id w)"
  shows "ranked_window (assign_ranks (place_in_window n opp w))"
proof -
  let ?p = "place_in_window n opp w"
  have "sorted (map (\<lambda>o'. jneg (sq_qualityScore o')) ?p)"
    unfolding place_in_window_def take_map [symmetric] by (intro sorted_wrt_take sorted_sort_down)
  then show ?thesis
    using distinct_ids_place [OF assms]
    by (simp add: ranked_window_def assign_ranks_map sorted_wrt_iff_nth_less rank_no_assign list_all_length)
qed

lemma upsert_ok:
  assumes "ranker_ok c r"
  shows "ranker_ok c (snd (ranker_upsert now opp r))"
proof -
  have ok: "ranker_ok c (evictExpired now r)" by (rule evict_ok [OF assms])
  then have "distinct (map sq_id (ra_window (evictExpired now r)))" by (simp add: ranker_ok_def ranked_window_def)
  from ranked_window_assign [OF this, of "ro_windowSize c" opp] ok show ?thesis
    using assms by (auto simp: ranker_upsert_def Let_def ranker_ok_def place_in_window_def)
qed

lemma ranker_clear_ok: "ranker_ok c r \<Longrightarrow> ranker_ok c (ranker_clear r)"
  by (simp add: ranker_ok_def ranker_clear_def ranked_window_def)

interpretation ranker: started ra_step "ranker_ok c" "ra_new c" for c
proof
  fix r e
  assume "ranker_ok c r"
  then show "ranker_ok c (ra_step r e)"
    by (cases e) (auto simp: upsert_ok evict_ok ranker_top_def ranker_isApproved_def ranker_size_def Let_def ranker_clear_ok)
qed (simp add: ranker_ok_def ra_new_def ranked_window_def)

text \<open>In a ranked window, a rank is above the position, and so above the number of better ones.\<close>

lemma better_below_rank:
  assumes "ranked_window w" "find (with_id i) w = Some x" "sq_qualityScore x \<noteq> NaN"
  shows "length (filter (\<lambda>y. jlt (sq_qualityScore x) (sq_qualityScore y)) w) < rank_no x"
proof -
  from assms(2) obtain j where j: "j < length w" "x = w ! j" by (auto simp: find_Some_iff)
  have "k < rank_no (w ! k)" if "k < length w" for k
    using that
  proof (induction k)
    case 0
    then show ?case using assms(1) by (cases w) (auto simp: ranked_window_def)
  next
    case (Suc k)
    moreover have "rank_no (w ! k) < rank_no (w ! Suc k)"
      using assms(1) Suc.prems by (simp add: ranked_window_def sorted_wrt_iff_nth_less)
    ultimately show ?case by simp
  qed
  with j(1) have "j < rank_no x" by (simp add: j(2))
  moreover have "length (filter (\<lambda>y. jlt (sq_qualityScore x) (sq_qualityScore y)) w) \<le> j"
    using better_before [of sq_qualityScore w j] assms(1,3) j by (simp add: ranked_window_def)
  ultimately show ?thesis by simp
qed


text \<open>An approval counts the opportunity with the better ones of the window it leaves.\<close>

lemma approval_counts:
  assumes "ranker_ok c r" "ranker_isApproved now i r = (True, r')"
    and "\<And>y. y \<in> set (ra_window r) \<Longrightarrow> sq_id y = i \<Longrightarrow> sq_qualityScore y = q" "q \<noteq> NaN"
  shows "jle (jsint (int (Suc (length (filter (\<lambda>y. jlt q (sq_qualityScore y)) (ra_window r'))))))
           (rank_cutoff (length (ra_window r')) (ro_topFraction c))"
proof -
  let ?r = "evictExpired now r"
  have ok: "ranker_ok c ?r" by (rule evict_ok [OF assms(1)])
  from assms(2) have r': "r' = ?r" by (simp add: ranker_isApproved_def Let_def)
  from assms(2) obtain x k where x: "find (with_id i) (ra_window ?r) = Some x" "sq_rank x = Some k"
    and le: "jle (jsint (int k)) (rank_cutoff (length (ra_window ?r)) (ro_topFraction (ra_opts ?r)))"
    by (auto simp: ranker_isApproved_def Let_def evictExpired_def split: option.splits)
  from x(1) have "x \<in> set (ra_window r)" "sq_id x = i"
    by (auto simp: find_Some_iff evictExpired_def with_id_def dest: nth_mem)
  with assms(3,4) have q: "sq_qualityScore x = q" "q \<noteq> NaN" by auto
  with better_below_rank [OF _ x(1)] ok x(2)
  have "Suc (length (filter (\<lambda>y. jlt q (sq_qualityScore y)) (ra_window ?r))) \<le> k"
    by (simp add: ranker_ok_def rank_no_def)
  then have "jle (jsint (int (Suc (length (filter (\<lambda>y. jlt q (sq_qualityScore y)) (ra_window ?r)))))) (jsint (int k))"
    by (intro jsint_mono) simp
  from jle_trans [OF this le] ok show ?thesis by (simp add: r' ranker_ok_def)
qed

text \<open>
  An approved opportunity is among the best of the window: after any operations, fewer than the cut-off
  many of the opportunities that have not expired have a higher quality (the cut-off counts them with it).
\<close>

theorem approved_is_among_best:
  assumes "r = foldl ra_step (ra_new c) es" "fst (ranker_isApproved now i r)"
    and "\<not> list_ex (\<lambda>y. sq_qualityScore y = NaN) (ra_window r)"
  shows "\<exists>x w. w = filter (\<lambda>y. now \<le> sq_expiresAt y) (ra_window r) \<and> find (with_id i) w = Some x
     \<and> length w \<le> ro_windowSize c
     \<and> jle (jsint (int (Suc (length (filter (\<lambda>y. jlt (sq_qualityScore x) (sq_qualityScore y)) w)))))
         (rank_cutoff (length w) (ro_topFraction c))"
proof -
  let ?r = "evictExpired now r"
  have ok: "ranker_ok c r" unfolding assms(1) by (rule ranker.reachable_inv)
  have w: "ra_window ?r = filter (\<lambda>y. now \<le> sq_expiresAt y) (ra_window r)"
    by (simp add: evictExpired_def not_less)
  from assms(2) have app: "ranker_isApproved now i r = (True, ?r)"
    by (simp add: ranker_isApproved_def Let_def)
  then obtain x where x: "find (with_id i) (ra_window ?r) = Some x"
    by (auto simp: ranker_isApproved_def Let_def split: option.splits)
  then have mem: "x \<in> set (ra_window r)" "sq_id x = i"
    by (auto simp: find_Some_iff evictExpired_def with_id_def dest: nth_mem)
  have "inj_on sq_id (set (ra_window r))" using ok by (simp add: ranker_ok_def ranked_window_def distinct_map)
  with mem have "sq_qualityScore y = sq_qualityScore x" if "y \<in> set (ra_window r)" "sq_id y = i" for y
    using that by (auto dest: inj_onD)
  moreover have "sq_qualityScore x \<noteq> NaN" using mem(1) assms(3) by (auto simp: list_ex_iff)
  ultimately have "jle (jsint (int (Suc (length (filter (\<lambda>y. jlt (sq_qualityScore x) (sq_qualityScore y)) (ra_window ?r))))))
      (rank_cutoff (length (ra_window ?r)) (ro_topFraction c))"
    by (rule approval_counts [OF ok app])
  then show ?thesis
    using x evict_ok [OF ok, of now] unfolding w [symmetric] by (auto simp: ranker_ok_def)
qed

definition demo_scored :: "string \<Rightarrow> jsnum \<Rightarrow> int \<Rightarrow> scored_opportunity" where
  "demo_scored i q e = \<lparr>sq_id = i, sq_roundId = i, sq_tenantId = None,
     sq_dimensions = \<lparr>od_edge = q, od_confidence = q, od_dataQuality = q, od_regimeFit = q, od_executionFeasibility = q,
       od_temporalConsistency = q\<rparr>, sq_qualityScore = q, sq_probability = q, sq_confidence = q, sq_regime = None,
     sq_modelVersion = None, sq_scoredAt = 0, sq_expiresAt = e, sq_rank = None\<rparr>"

definition demo_options :: ranker_options where
  "demo_options = \<lparr>ro_windowSize = 2, ro_ttlMs = 60000, ro_topFraction = Fin (1/2), ro_minQualityScore = Fin (1/4)\<rparr>"

lemmas ranker_eval = ranker_upsert_def evictExpired_def place_in_window_def assign_ranks_def with_id_def Let_def
  sort_down_def sort_key_simps ranker_isApproved_def rank_cutoff_def ra_new_def demo_options_def demo_scored_def

lemma rnd_1_2: "rnd (1 / 2) = Fin (1 / 2)"
  using rnd_dyadic [of 1 "-1"] by (simp add: power_int_minus inverse_eq_divide)

lemma ceiling_half [simp]: "\<lceil>1 / 2 :: rat\<rceil> = 1"
  by (rule ceiling_unique) simp_all

lemma demo_options_simps: "ro_windowSize demo_options = 2" "ro_topFraction demo_options = Fin (1/2)"
  by (simp_all add: demo_options_def)

theorem approved_is_among_best_witness:
  "fst (ranker_isApproved 0 ''b'' (foldl ra_step (ra_new demo_options)
       [Rank_upsert 0 (demo_scored ''a'' (Fin (1/2)) 100), Rank_upsert 0 (demo_scored ''b'' (Fin (3/4)) 100)])) \<and>
   (\<exists>x w. find (with_id ''b'') w = Some x \<and> length w \<le> 2 \<and>
     jle (jsint (int (Suc (length (filter (\<lambda>y. jlt (sq_qualityScore x) (sq_qualityScore y)) w)))))
         (rank_cutoff (length w) (Fin (1/2))))"
proof -
  let ?es = "[Rank_upsert 0 (demo_scored ''a'' (Fin (1/2)) 100), Rank_upsert 0 (demo_scored ''b'' (Fin (3/4)) 100)]"
  let ?r = "foldl ra_step (ra_new demo_options) ?es"
  have app: "fst (ranker_isApproved 0 ''b'' ?r)"
    by (simp add: ranker_eval jsint_def rnd_1_2)
  moreover have "\<not> list_ex (\<lambda>y. sq_qualityScore y = NaN) (ra_window ?r)"
    by (simp add: ranker_eval)
  ultimately show ?thesis
    using approved_is_among_best [OF refl, of 0 "''b''" demo_options ?es] unfolding demo_options_simps by blast
qed


text \<open>
  Two facts the comments of the code do not tell. Ranks are not assigned again when opportunities expire: the only one
  left in the window can be refused, although the cut-off is never below one. A quality that is not a
  number is below no threshold: such an opportunity enters the window.
\<close>

lemma survivor_refused:
  "\<not> fst (ranker_isApproved 50 ''a'' (foldl ra_step (ra_new demo_options)
       [Rank_upsert 0 (demo_scored ''a'' (Fin (1/2)) 100), Rank_upsert 0 (demo_scored ''b'' (Fin (3/4)) 20)]))
   \<and> fst (ranker_size 50 (foldl ra_step (ra_new demo_options)
       [Rank_upsert 0 (demo_scored ''a'' (Fin (1/2)) 100), Rank_upsert 0 (demo_scored ''b'' (Fin (3/4)) 20)])) = 1"
  by (simp add: ranker_eval ranker_size_def jsint_def rnd_1_2)

lemma nan_quality_enters_window:
  "sq_qualityScore opp = NaN \<Longrightarrow> ra_window r = [] \<Longrightarrow> 0 < ro_windowSize (ra_opts r) \<Longrightarrow>
     fst (ranker_upsert now opp r) = Some (opp\<lparr>sq_rank := Some 1\<rparr>)"
  by (simp add: ranker_eval)

text \<open>
  An opportunity good enough for the window can be refused by a window full of better ones: the answer is
  \<open>null\<close> as for one below the minimal quality, and the decision gives that as its reason.
\<close>

lemma full_window_gives_none:
  "fst (ranker_upsert 0 (demo_scored ''c'' (Fin (1/2)) 100) (foldl ra_step (ra_new demo_options)
       [Rank_upsert 0 (demo_scored ''a'' (Fin (3/4)) 100), Rank_upsert 0 (demo_scored ''b'' (Fin (3/4)) 100)])) = None"
  by (simp add: ranker_eval numeral_2_eq_2)

section \<open>Hot caches\<close>

text \<open>A \<open>Map\<close> is the list of its entries in order of insertion; a key set again keeps its place.\<close>

record 'v hot_entry =
  he_value :: 'v
  he_storedAt :: int
  he_expiresAt :: int
  he_hits :: nat

type_synonym 'v hot_store = "(string \<times> 'v hot_entry) list"

record 'v hot_cache =
  hc_store :: "'v hot_store"
  hc_defaultTtlMs :: int
  hc_maxEntries :: nat

definition hc_new :: "int \<Rightarrow> nat \<Rightarrow> 'v hot_cache" where
  "hc_new ttl n = \<lparr>hc_store = [], hc_defaultTtlMs = ttl, hc_maxEntries = n\<rparr>"

definition hc_get :: "int \<Rightarrow> string \<Rightarrow> 'v hot_cache \<Rightarrow> 'v option \<times> 'v hot_cache" where
  "hc_get now k c =
     (case map_of (hc_store c) k of
        None \<Rightarrow> (None, c)
      | Some e \<Rightarrow>
          if he_expiresAt e < now then (None, c\<lparr>hc_store := AList.delete k (hc_store c)\<rparr>)
          else (Some (he_value e), c\<lparr>hc_store := AList.update k (e\<lparr>he_hits := he_hits e + 1\<rparr>) (hc_store c)\<rparr>))"

text \<open>The first of the oldest entries.\<close>

fun oldest_entry :: "(string \<times> int) option \<Rightarrow> 'v hot_store \<Rightarrow> string option" where
  "oldest_entry best [] = map_option fst best"
| "oldest_entry best ((k, e) # xs) =
     (case best of
        None \<Rightarrow> oldest_entry (Some (k, he_storedAt e)) xs
      | Some (_, t) \<Rightarrow> oldest_entry (if he_storedAt e < t then Some (k, he_storedAt e) else best) xs)"

definition hc_evict :: "'v hot_cache \<Rightarrow> 'v hot_store" where
  "hc_evict c =
     (if hc_maxEntries c \<le> length (hc_store c) then
        (case oldest_entry None (hc_store c) of
           Some k \<Rightarrow> if k \<noteq> [] then AList.delete k (hc_store c) else hc_store c
         | None \<Rightarrow> hc_store c)
      else hc_store c)"

definition hc_set :: "int \<Rightarrow> string \<Rightarrow> 'v \<Rightarrow> int option \<Rightarrow> 'v hot_cache \<Rightarrow> 'v hot_cache" where
  "hc_set now k v ttl c = c\<lparr>hc_store := AList.update k
     \<lparr>he_value = v, he_storedAt = now, he_expiresAt = now + (case ttl of Some t \<Rightarrow> t | None \<Rightarrow> hc_defaultTtlMs c), he_hits = 0\<rparr>
     (hc_evict c)\<rparr>"

definition hc_invalidate :: "string \<Rightarrow> 'v hot_cache \<Rightarrow> 'v hot_cache" where
  "hc_invalidate k c = c\<lparr>hc_store := AList.delete k (hc_store c)\<rparr>"

definition hc_clear :: "'v hot_cache \<Rightarrow> 'v hot_cache" where
  "hc_clear c = c\<lparr>hc_store := []\<rparr>"


datatype 'v cache_event =
    Cache_get int string
  | Cache_set int string 'v "int option"
  | Cache_invalidate string
  | Cache_clear

fun hc_step :: "'v hot_cache \<Rightarrow> 'v cache_event \<Rightarrow> 'v hot_cache" where
  "hc_step c (Cache_get now k) = snd (hc_get now k c)"
| "hc_step c (Cache_set now k v ttl) = hc_set now k v ttl c"
| "hc_step c (Cache_invalidate k) = hc_invalidate k c"
| "hc_step c Cache_clear = hc_clear c"

text \<open>The specification: a map that forgets nothing, of the value last set and the end of its validity.\<close>

fun memo_step :: "int \<Rightarrow> (string \<Rightarrow> ('v \<times> int) option) \<Rightarrow> 'v cache_event \<Rightarrow> (string \<Rightarrow> ('v \<times> int) option)" where
  "memo_step d m (Cache_get _ _) = m"
| "memo_step d m (Cache_set now k v ttl) = m(k \<mapsto> (v, now + (case ttl of Some t \<Rightarrow> t | None \<Rightarrow> d)))"
| "memo_step d m (Cache_invalidate k) = m(k := None)"
| "memo_step d m Cache_clear = (\<lambda>_. None)"

definition cache_sound :: "(string \<Rightarrow> ('v \<times> int) option) \<Rightarrow> 'v hot_cache \<Rightarrow> bool" where
  "cache_sound m c \<longleftrightarrow> (\<forall>k e. map_of (hc_store c) k = Some e \<longrightarrow> m k = Some (he_value e, he_expiresAt e))"

lemma map_of_delete: "map_of (AList.delete k xs) = (map_of xs)(k := None)"
  by (simp add: AList.delete_conv')

lemma cache_soundD: "cache_sound m c \<Longrightarrow> map_of (hc_store c) k = Some e \<Longrightarrow> m k = Some (he_value e, he_expiresAt e)"
  by (simp add: cache_sound_def)

lemma map_of_evict: "map_of (hc_evict c) k = Some e \<Longrightarrow> map_of (hc_store c) k = Some e"
  by (auto simp: hc_evict_def map_of_delete split: if_splits option.splits)

lemma hc_step_conf [simp]: "hc_defaultTtlMs (hc_step c e) = hc_defaultTtlMs c" "hc_maxEntries (hc_step c e) = hc_maxEntries c"
  by (cases e; auto simp: hc_get_def hc_set_def hc_invalidate_def hc_clear_def split: option.splits)+

lemma cache_sound_step:
  assumes "cache_sound m c"
  shows "cache_sound (memo_step (hc_defaultTtlMs c) m e) (hc_step c e)"
proof (cases e)
  case (Cache_get now k)
  with assms show ?thesis
    by (auto simp: cache_sound_def hc_get_def map_of_delete AList.update_conv' split: option.splits if_splits)
next
  case (Cache_set now k v ttl)
  with assms show ?thesis
    by (auto simp: cache_sound_def hc_set_def AList.update_conv' dest: map_of_evict split: if_splits)
qed (use assms in \<open>auto simp: cache_sound_def hc_invalidate_def hc_clear_def map_of_delete split: if_splits\<close>)

lemma cache_sound_run:
  "cache_sound m c \<Longrightarrow> cache_sound (foldl (memo_step (hc_defaultTtlMs c)) m es) (foldl hc_step c es)"
proof (induction es arbitrary: m c)
  case (Cons e es)
  from Cons.IH [OF cache_sound_step [OF Cons.prems, of e]] show ?case by simp
qed simp

definition named_key :: "'v cache_event \<Rightarrow> bool" where
  "named_key e \<longleftrightarrow> (case e of Cache_set _ k _ _ \<Rightarrow> k \<noteq> [] | _ \<Rightarrow> True)"

definition cache_bounded :: "'v hot_cache \<Rightarrow> bool" where
  "cache_bounded c \<longleftrightarrow> distinct (map fst (hc_store c)) \<and> [] \<notin> fst ` set (hc_store c)
     \<and> length (hc_store c) \<le> max 1 (hc_maxEntries c)"

lemma oldest_entry_in:
  "oldest_entry best xs = Some k \<Longrightarrow> k \<in> fst ` set xs \<or> (\<exists>t. best = Some (k, t))"
proof (induction xs arbitrary: best)
  case (Cons x xs)
  obtain j e where x: "x = (j, e)" by (cases x)
  show ?case
  proof (cases best)
    case None
    with Cons.prems Cons.IH [of "Some (j, he_storedAt e)"] show ?thesis by (auto simp: x)
  next
    case (Some b)
    obtain a u where b: "b = (a, u)" by (cases b)
    show ?thesis
    proof (cases "he_storedAt e < u")
      case True
      with Cons.prems Some Cons.IH [of "Some (j, he_storedAt e)"] show ?thesis by (auto simp: x b)
    next
      case False
      with Cons.prems Some have "oldest_entry best xs = Some k" by (simp add: x b)
      from Cons.IH [OF this] show ?thesis by auto
    qed
  qed
qed auto

lemma oldest_entry_None: "oldest_entry best xs = None \<longleftrightarrow> best = None \<and> xs = []"
  by (induction best xs rule: oldest_entry.induct) (auto split: option.splits if_splits)

lemma length_delete_in:
  "distinct (map fst xs) \<Longrightarrow> k \<in> fst ` set xs \<Longrightarrow> Suc (length (AList.delete k xs)) = length xs"
proof (induction xs)
  case (Cons x xs)
  show ?case
  proof (cases "fst x = k")
    case True
    with Cons.prems(1) have "k \<notin> fst ` set xs" by auto
    then have "AList.delete k xs = xs" by (rule AList.delete_id)
    with True show ?thesis by (cases x) simp
  qed (use Cons in \<open>cases x; auto\<close>)
qed simp

lemma length_update: "length (AList.update k v xs) \<le> Suc (length xs)"
  by (induction xs) auto

lemma length_update_in: "k \<in> fst ` set xs \<Longrightarrow> length (AList.update k v xs) = length xs"
  by (induction xs) auto

lemma keys_update: "fst ` set (AList.update k v xs) = insert k (fst ` set xs)"
  by (induction xs) auto

lemma bounded_delete:
  assumes "distinct (map fst xs) \<and> [] \<notin> fst ` set xs \<and> length xs \<le> n"
  shows "distinct (map fst (AList.delete k xs)) \<and> [] \<notin> fst ` set (AList.delete k xs) \<and> length (AList.delete k xs) \<le> n"
  using assms AList.length_delete_le [of k xs] subsetD [OF AList.dom_delete_subset, of "[]" k xs]
  by (blast intro: AList.distinct_delete le_trans)

lemma evict_room:
  assumes "cache_bounded c"
  shows "distinct (map fst (hc_evict c)) \<and> [] \<notin> fst ` set (hc_evict c) \<and> Suc (length (hc_evict c)) \<le> max 1 (hc_maxEntries c)"
proof (cases "hc_maxEntries c \<le> length (hc_store c)")
  case True
  show ?thesis
  proof (cases "oldest_entry None (hc_store c)")
    case None
    with assms True show ?thesis by (simp add: hc_evict_def oldest_entry_None)
  next
    case (Some k)
    with oldest_entry_in have k: "k \<in> fst ` set (hc_store c)" by force
    with assms have "k \<noteq> []" unfolding cache_bounded_def by blast
    with True Some have "hc_evict c = AList.delete k (hc_store c)" by (simp add: hc_evict_def)
    moreover have "[] \<notin> fst ` set (AList.delete k (hc_store c))"
      using assms bounded_delete [of "hc_store c" _ k] unfolding cache_bounded_def by blast
    ultimately show ?thesis
      using assms length_delete_in [OF _ k] by (auto simp: cache_bounded_def AList.distinct_delete)
  qed
qed (use assms in \<open>auto simp: hc_evict_def cache_bounded_def\<close>)


lemma bounded_step:
  assumes "cache_bounded c" "named_key e"
  shows "cache_bounded (hc_step c e)"
proof (cases e)
  case (Cache_get now k)
  show ?thesis
  proof (cases "map_of (hc_store c) k")
    case (Some e')
    then have k: "k \<in> fst ` set (hc_store c)" by (auto dest!: map_of_SomeD intro: rev_image_eqI)
    show ?thesis
    proof (cases "he_expiresAt e' < now")
      case True
      with assms(1) Some bounded_delete show ?thesis by (simp add: Cache_get cache_bounded_def hc_get_def)
    next
      case False
      with assms(1) Some k show ?thesis
        by (simp add: Cache_get cache_bounded_def hc_get_def AList.distinct_update length_update_in keys_update insert_absorb)
    qed
  qed (use assms(1) in \<open>simp add: Cache_get hc_get_def\<close>)
next
  case (Cache_set now k v ttl)
  with assms(2) have "k \<noteq> []" by (simp add: named_key_def)
  with evict_room [OF assms(1)] length_update [of k _ "hc_evict c"] show ?thesis
    by (auto simp: Cache_set cache_bounded_def hc_set_def AList.distinct_update keys_update
        intro: le_trans [OF length_update])
next
  case (Cache_invalidate k)
  with assms(1) bounded_delete show ?thesis by (simp add: cache_bounded_def hc_invalidate_def)
qed (simp add: cache_bounded_def hc_clear_def)

interpretation cache: persists hc_step named_key cache_bounded
  by unfold_locales (rule bounded_step)

text \<open>
  A hot cache refines the map it stands for: whatever is set, invalidated, read and evicted, a value it
  gives is the one last set for the key, within its time to live; and as long as no key is the empty
  string it holds at most the configured number of entries.
\<close>

theorem cache_refines_memo:
  assumes "c = foldl hc_step (hc_new ttl n) es"
  shows "(\<forall>v. fst (hc_get now k c) = Some v \<longrightarrow>
        (\<exists>t. foldl (memo_step ttl) (\<lambda>_. None) es k = Some (v, t) \<and> now \<le> t))
    \<and> (list_all named_key es \<longrightarrow> length (hc_store c) \<le> max 1 n)"
proof -
  let ?m = "foldl (memo_step ttl) (\<lambda>_. None) es"
  have sound: "cache_sound ?m c"
    unfolding assms using cache_sound_run [of "\<lambda>_. None" "hc_new ttl n" es]
    by (simp add: hc_new_def cache_sound_def)
  have "\<exists>t. ?m k = Some (v, t) \<and> now \<le> t" if "fst (hc_get now k c) = Some v" for v
  proof -
    from that obtain e where e: "map_of (hc_store c) k = Some e" "v = he_value e" "now \<le> he_expiresAt e"
      by (auto simp: hc_get_def not_less split: option.splits if_splits)
    with cache_soundD [OF sound e(1)] show ?thesis by simp
  qed
  moreover have "hc_maxEntries c = n"
    unfolding assms by (induction es rule: rev_induct) (simp_all add: hc_new_def)
  moreover have "cache_bounded c" if "list_all named_key es"
    unfolding assms by (rule cache.run_quiet [OF _ that]) (simp add: cache_bounded_def hc_new_def)
  ultimately show ?thesis
    by (simp add: cache_bounded_def)
qed

theorem cache_refines_memo_witness:
  "\<exists>t. foldl (memo_step 10) (\<lambda>_. None) [Cache_set 0 ''k'' (7::nat) None] ''k'' = Some (7, t) \<and> 5 \<le> t"
proof -
  let ?c = "foldl hc_step (hc_new 10 1) [Cache_set 0 ''k'' (7::nat) None]"
  have "fst (hc_get 5 ''k'' ?c) = Some 7"
    by (simp add: hc_get_def hc_set_def hc_evict_def hc_new_def)
  with cache_refines_memo [of ?c 10 1 "[Cache_set 0 ''k'' (7::nat) None]" 5 "''k''"] show ?thesis by blast
qed

text \<open>
  An entry under the empty key is never evicted, as its name is falsy: once it is the oldest, the cache
  grows beyond its limit.
\<close>

lemma empty_key_disables_eviction:
  "length (hc_store (foldl hc_step (hc_new 10 1)
     [Cache_set 0 [] (1::nat) None, Cache_set 1 ''a'' 2 None, Cache_set 2 ''b'' 3 None])) = 3"
  by (simp add: hc_set_def hc_evict_def hc_new_def)

section \<open>The decision engine\<close>

datatype decision_type = D_enter | D_wait | D_reject | D_monitor | D_sheath

datatype decision_reason = DR_suspended sheath_state | DR_below_min jsnum | DR_below_threshold jsnum jsnum
  | DR_rank "nat option" | DR_confidence | DR_entered jsnum jsnum "nat option"

record cached_prediction =
  cp_probability :: jsnum
  cp_confidence :: jsnum
  cp_regimeId :: "string option"
  cp_modelVersion :: string

record decision_input =
  di_roundId :: string
  di_tenantId :: "string option"
  di_probability :: jsnum
  di_confidence :: jsnum
  di_dimensions :: opportunity_dims
  di_regime :: "string option"
  di_modelVersion :: "string option"
  di_predictionId :: "string option"
  di_dynamicThreshold :: "jsnum option"

record decision_record =
  dd_id :: string
  dd_opportunityId :: string
  dd_roundId :: string
  dd_decision :: decision_type
  dd_qualityScore :: jsnum
  dd_rank :: "nat option"
  dd_thresholdUsed :: jsnum
  dd_reason :: decision_reason

record decision_engine =
  en_ranker :: decision_ranker
  en_sheath :: "sheath option"
  en_threshold :: jsnum
  en_features :: "(string \<Rightarrow> jsnum option) hot_cache"
  en_predictions :: "cached_prediction hot_cache"


text \<open>
  \<open>Math.log\<close> and \<open>Math.exp\<close> are parameters, as their results are left to the engine. The instants are those of
  the reads of the clock in the order of the code, the identifiers those \<open>randomUUID\<close> gives.
\<close>

definition geometricMean :: "(jsnum \<Rightarrow> jsnum) \<Rightarrow> (jsnum \<Rightarrow> jsnum) \<Rightarrow> jsnum list \<Rightarrow> jsnum" where
  "geometricMean ln_fun exp_fun vs =
     (let clamped = map (\<lambda>v. jmax (lit (1 / 10 ^ 9)) (jmin (Fin 1) v)) vs;
          logSum = foldl (\<lambda>acc v. jadd acc (ln_fun v)) (Fin 0) clamped
      in exp_fun (jdiv logSum (jsint (int (length clamped)))))"

definition scoreOpportunity :: "(jsnum \<Rightarrow> jsnum) \<Rightarrow> (jsnum \<Rightarrow> jsnum) \<Rightarrow> opportunity_dims \<Rightarrow> jsnum" where
  "scoreOpportunity ln_fun exp_fun d = geometricMean ln_fun exp_fun
     [od_edge d, od_confidence d, od_dataQuality d, od_regimeFit d, od_executionFeasibility d, od_temporalConsistency d]"

record decision_times =
  dt_features :: int
  dt_prediction :: int
  dt_expiry :: int
  dt_upsert :: int
  dt_approve :: int

definition nullish :: "'a option \<Rightarrow> 'a option \<Rightarrow> 'a option" where
  "nullish a b = (case a of None \<Rightarrow> b | Some _ \<Rightarrow> a)"

definition decision_dims :: "(string \<Rightarrow> jsnum option) option \<Rightarrow> opportunity_dims \<Rightarrow> opportunity_dims" where
  "decision_dims cached d =
     (case cached of
        None \<Rightarrow> d
      | Some f \<Rightarrow> d\<lparr>od_dataQuality := (case f ''quality_score'' of Some q \<Rightarrow> q | None \<Rightarrow> od_dataQuality d),
          od_temporalConsistency := jmin (Fin 1) (jadd (lit (1/2))
            (jmul (case f ''hit_rate_13'' of Some h \<Rightarrow> h | None \<Rightarrow> lit (1/2)) (lit (1/2))))\<rparr>)"

definition mk_opportunity ::
  "(jsnum \<Rightarrow> jsnum) \<Rightarrow> (jsnum \<Rightarrow> jsnum) \<Rightarrow> decision_times \<Rightarrow> string \<Rightarrow> decision_input \<Rightarrow>
   (string \<Rightarrow> jsnum option) option \<Rightarrow> cached_prediction option \<Rightarrow> scored_opportunity" where
  "mk_opportunity ln_fun exp_fun t uuid i cf cp =
     \<lparr>sq_id = uuid, sq_roundId = di_roundId i, sq_tenantId = di_tenantId i,
      sq_dimensions = decision_dims cf (di_dimensions i),
      sq_qualityScore = scoreOpportunity ln_fun exp_fun (decision_dims cf (di_dimensions i)),
      sq_probability = (case cp of Some p \<Rightarrow> cp_probability p | None \<Rightarrow> di_probability i),
      sq_confidence = (case cp of Some p \<Rightarrow> cp_confidence p | None \<Rightarrow> di_confidence i),
      sq_regime = nullish (di_regime i) (Option.bind cp cp_regimeId),
      sq_modelVersion = nullish (di_modelVersion i) (map_option cp_modelVersion cp),
      sq_scoredAt = dt_features t, sq_expiresAt = dt_expiry t + 45000, sq_rank = None\<rparr>"

definition suspended_by :: "sheath option \<Rightarrow> sheath option" where
  "suspended_by sh = (case sh of Some s \<Rightarrow> if isBettingSuspended s then Some s else None | None \<Rightarrow> None)"

text \<open>The chain of tests; \<open>approved\<close> is asked only when the others pass.\<close>

definition decide_chain ::
  "int \<Rightarrow> sheath option \<Rightarrow> scored_opportunity \<Rightarrow> jsnum \<Rightarrow> scored_opportunity option \<Rightarrow> decision_ranker \<Rightarrow>
   (decision_type \<times> decision_reason) \<times> decision_ranker" where
  "decide_chain now sh opp thr ranked r =
     (case suspended_by sh of
        Some s \<Rightarrow> ((D_sheath, DR_suspended (sh_state s)), r)
      | None \<Rightarrow>
          (case ranked of
             None \<Rightarrow> ((D_reject, DR_below_min (sq_qualityScore opp)), r)
           | Some x \<Rightarrow>
               if jlt (sq_qualityScore opp) thr then ((D_reject, DR_below_threshold (sq_qualityScore opp) thr), r)
               else
                 let (ok, r1) = ranker_isApproved now (sq_id x) r
                 in if \<not> ok then ((D_wait, DR_rank (sq_rank x)), r1)
                    else if jlt (sq_confidence opp) (lit (1/4)) then ((D_monitor, DR_confidence), r1)
                    else ((D_enter, DR_entered (sq_qualityScore opp) thr (sq_rank x)), r1)))"

definition decide ::
  "(jsnum \<Rightarrow> jsnum) \<Rightarrow> (jsnum \<Rightarrow> jsnum) \<Rightarrow> decision_times \<Rightarrow> string \<Rightarrow> string \<Rightarrow> decision_input \<Rightarrow> decision_engine \<Rightarrow>
   decision_record \<times> decision_engine" where
  "decide ln_fun exp_fun t uuid1 uuid2 i e =
     (let (cf, fs) = hc_get (dt_features t) ''latest'' (en_features e);
          (cp, ps) = hc_get (dt_prediction t) (di_roundId i) (en_predictions e);
          opp = mk_opportunity ln_fun exp_fun t uuid1 i cf cp;
          (ranked, r1) = ranker_upsert (dt_upsert t) opp (en_ranker e);
          thr = (case di_dynamicThreshold i of Some x \<Rightarrow> x | None \<Rightarrow> en_threshold e);
          ((d, why), r2) = decide_chain (dt_approve t) (en_sheath e) opp thr ranked r1
      in (\<lparr>dd_id = uuid2, dd_opportunityId = uuid1, dd_roundId = di_roundId i, dd_decision = d,
           dd_qualityScore = sq_qualityScore opp, dd_rank = Option.bind ranked sq_rank, dd_thresholdUsed = thr,
           dd_reason = why\<rparr>,
          e\<lparr>en_ranker := r2, en_features := fs, en_predictions := ps\<rparr>))"

definition de_new :: "ranker_options \<Rightarrow> sheath option \<Rightarrow> jsnum \<Rightarrow> decision_engine" where
  "de_new c sh thr = \<lparr>en_ranker = ra_new c, en_sheath = sh, en_threshold = thr,
     en_features = hc_new 10000 512, en_predictions = hc_new 3000 64\<rparr>"

lemma placed_with_id:
  assumes "distinct (map sq_id w)" "y \<in> set (place_in_window n opp w)" "sq_id y = sq_id opp"
  shows "y = opp"
proof -
  let ?p = "with_id (sq_id opp)"
  have upd: "z = opp" if "distinct (map sq_id v)" "list_ex ?p v" "z \<in> set (update_first ?p (\<lambda>_. opp) v)" "sq_id z = sq_id opp"
    for z v
    using that by (induction v) (auto simp: with_id_def image_iff split: if_splits)
  from assms(2) have "y \<in> set (if list_ex ?p w then update_first ?p (\<lambda>_. opp) w else w @ [opp])"
    by (auto simp: place_in_window_def dest: in_set_takeD)
  then show ?thesis
    using assms(1,3) upd [of w y] by (auto simp: list_ex_iff with_id_def split: if_splits)
qed

lemma upserted_with_id:
  assumes "ranker_ok c r" "ranker_upsert now opp r = (Some x, r')" "y \<in> set (ra_window r')" "sq_id y = sq_id opp"
  shows "sq_qualityScore y = sq_qualityScore opp"
proof -
  let ?w = "ra_window (evictExpired now r)"
  let ?p = "place_in_window (ro_windowSize (ra_opts r)) opp ?w"
  from assms(2,3) have "y \<in> set (assign_ranks ?p)"
    by (auto simp: ranker_upsert_def Let_def split: if_splits)
  then obtain z k where z: "z \<in> set ?p" "y = z\<lparr>sq_rank := k\<rparr>"
    by (auto simp: assign_ranks_def dest: set_zip_leftD)
  have "distinct (map sq_id ?w)"
    using evict_ok [OF assms(1)] by (simp add: ranker_ok_def ranked_window_def)
  from placed_with_id [OF this z(1)] z(2) assms(4) show ?thesis by simp
qed

lemma not_jlt_jle: "\<not> jlt a b \<Longrightarrow> a \<noteq> NaN \<Longrightarrow> b \<noteq> NaN \<Longrightarrow> jle b a"
  by (cases a; cases b) (auto simp: jle_def)

text \<open>
  A decision to enter: betting is not suspended, and with numbers for the quality and the thresholds, the
  opportunity reaches both thresholds and the confidence, which is that of the cached prediction
  of the round when there is one, is not below a quarter; and it is in the window with fewer
  better ones than the cut-off of the options.
\<close>

theorem enter_requires_quality:
  assumes "ranker_ok c (en_ranker e)"
    and "decide ln_fun exp_fun t uuid1 uuid2 i e = (d, e')" "dd_decision d = D_enter"
    and "dd_qualityScore d \<noteq> NaN" "dd_thresholdUsed d \<noteq> NaN" "ro_minQualityScore c \<noteq> NaN"
    and "\<not> list_ex (\<lambda>y. sq_qualityScore y = NaN) (ra_window (en_ranker e))"
  shows "suspended_by (en_sheath e) = None
    \<and> jle (dd_thresholdUsed d) (dd_qualityScore d) \<and> jle (ro_minQualityScore c) (dd_qualityScore d)
    \<and> \<not> jlt (case fst (hc_get (dt_prediction t) (di_roundId i) (en_predictions e)) of
                Some p \<Rightarrow> cp_confidence p | None \<Rightarrow> di_confidence i) (lit (1/4))
    \<and> (let w = ra_window (en_ranker e')
        in jle (jsint (int (Suc (length (filter (\<lambda>y. jlt (dd_qualityScore d) (sq_qualityScore y)) w)))))
             (rank_cutoff (length w) (ro_topFraction c)))"
proof -
  obtain cf fs where cf: "hc_get (dt_features t) ''latest'' (en_features e) = (cf, fs)" by (cases "hc_get (dt_features t) ''latest'' (en_features e)")
  obtain cp ps where cp: "hc_get (dt_prediction t) (di_roundId i) (en_predictions e) = (cp, ps)"
    by (cases "hc_get (dt_prediction t) (di_roundId i) (en_predictions e)")
  define opp where "opp = mk_opportunity ln_fun exp_fun t uuid1 i cf cp"
  obtain ranked r1 where up: "ranker_upsert (dt_upsert t) opp (en_ranker e) = (ranked, r1)"
    by (cases "ranker_upsert (dt_upsert t) opp (en_ranker e)")
  obtain why r2 where ch: "decide_chain (dt_approve t) (en_sheath e) opp (dd_thresholdUsed d) ranked r1 = ((D_enter, why), r2)"
    and d: "dd_qualityScore d = sq_qualityScore opp" "e' = e\<lparr>en_ranker := r2, en_features := fs, en_predictions := ps\<rparr>"
    using assms(2,3) by (auto simp: decide_def cf cp up opp_def [symmetric] Let_def split: prod.splits)
  from ch obtain x where x: "ranked = Some x" "suspended_by (en_sheath e) = None" "\<not> jlt (sq_qualityScore opp) (dd_thresholdUsed d)"
    "ranker_isApproved (dt_approve t) (sq_id x) r1 = (True, r2)" "\<not> jlt (sq_confidence opp) (lit (1/4))"
    by (auto simp: decide_chain_def Let_def split: option.splits if_splits prod.splits)
  have r1: "ranker_ok c r1" using upsert_ok [OF assms(1)] up by (metis snd_conv)
  have "sq_id x = sq_id opp" and min: "\<not> jlt (sq_qualityScore opp) (ro_minQualityScore c)"
    using up x(1) assms(1)
    by (auto simp: ranker_upsert_def Let_def find_Some_iff with_id_def ranker_ok_def split: if_splits)
  with approval_counts [OF r1 x(4)] upserted_with_id [OF assms(1)] up x(1) assms(4)
  have "jle (jsint (int (Suc (length (filter (\<lambda>y. jlt (dd_qualityScore d) (sq_qualityScore y)) (ra_window r2))))))
      (rank_cutoff (length (ra_window r2)) (ro_topFraction c))"
    by (simp add: d(1))
  moreover have "sq_confidence opp = (case cp of Some p \<Rightarrow> cp_confidence p | None \<Rightarrow> di_confidence i)"
    by (simp add: opp_def mk_opportunity_def)
  ultimately show ?thesis
    using x(2,3,5) min assms(4-6) by (simp add: cp d not_jlt_jle Let_def)
qed


definition demo_input :: decision_input where
  "demo_input = \<lparr>di_roundId = ''r'', di_tenantId = None, di_probability = Fin (1/2), di_confidence = Fin (1/2),
     di_dimensions = \<lparr>od_edge = Fin 1, od_confidence = Fin 1, od_dataQuality = Fin 1, od_regimeFit = Fin 1,
       od_executionFeasibility = Fin 1, od_temporalConsistency = Fin 1\<rparr>, di_regime = None, di_modelVersion = None,
     di_predictionId = None, di_dynamicThreshold = Some (Fin (1/2))\<rparr>"

definition demo_times :: decision_times where
  "demo_times = \<lparr>dt_features = 0, dt_prediction = 0, dt_expiry = 0, dt_upsert = 0, dt_approve = 0\<rparr>"

text \<open>With all dimensions 1 the logarithms are 0 and the mean is 1.\<close>

lemma rnd_quarter: "rnd (1 / 4) = Fin (1 / 4)"
  using rnd_dyadic [of 1 "-2"] by (simp add: power_int_minus inverse_eq_divide)

lemma demo_decide:
  "decide (\<lambda>_. Fin 0) (\<lambda>_. Fin 1) demo_times ''u'' ''v'' demo_input (de_new demo_options None (Fin (1/2))) =
     (\<lparr>dd_id = ''v'', dd_opportunityId = ''u'', dd_roundId = ''r'', dd_decision = D_enter, dd_qualityScore = Fin 1,
       dd_rank = Some 1, dd_thresholdUsed = Fin (1/2), dd_reason = DR_entered (Fin 1) (Fin (1/2)) (Some 1)\<rparr>,
      snd (decide (\<lambda>_. Fin 0) (\<lambda>_. Fin 1) demo_times ''u'' ''v'' demo_input (de_new demo_options None (Fin (1/2)))))"
  by (simp add: decide_def de_new_def hc_get_def hc_new_def mk_opportunity_def scoreOpportunity_def geometricMean_def
      demo_input_def demo_times_def decide_chain_def suspended_by_def ranker_eval jsint_def rnd_1_2 rnd_quarter lit_def)

theorem enter_requires_quality_witness:
  "suspended_by None = None \<and> jle (Fin (1/2)) (Fin 1) \<and> \<not> jlt (Fin (1/2)) (lit (1/4))"
proof -
  let ?e = "de_new demo_options None (Fin (1/2))"
  have "ranker_ok demo_options (en_ranker ?e)"
    by (simp add: de_new_def ranker.inv_init)
  moreover have "\<not> list_ex (\<lambda>y. sq_qualityScore y = NaN) (ra_window (en_ranker ?e))"
    by (simp add: de_new_def ra_new_def)
  moreover have "ro_minQualityScore demo_options \<noteq> NaN" by (simp add: demo_options_def)
  moreover have "en_sheath ?e = None" "di_confidence demo_input = Fin (1/2)"
    "fst (hc_get (dt_prediction demo_times) (di_roundId demo_input) (en_predictions ?e)) = None"
    by (simp_all add: de_new_def demo_input_def hc_get_def hc_new_def)
  ultimately show ?thesis
    using enter_requires_quality [OF _ demo_decide] by (simp add: lit_def rnd_quarter)
qed

text \<open>
  An opportunity without a numeric quality passes both thresholds: on an empty window of an unsheathed
  engine it is entered.
\<close>

lemma nan_quality_is_entered:
  "dd_decision (fst (decide (\<lambda>_. NaN) (\<lambda>_. NaN) demo_times ''u'' ''v''
     (demo_input\<lparr>di_dimensions := (di_dimensions demo_input)\<lparr>od_edge := NaN\<rparr>\<rparr>) (de_new demo_options None (Fin (1/2))))) = D_enter"
  by (simp add: decide_def de_new_def hc_get_def hc_new_def mk_opportunity_def scoreOpportunity_def geometricMean_def
      demo_input_def demo_times_def decide_chain_def suspended_by_def ranker_eval jsint_def rnd_1_2 rnd_quarter lit_def)

end
