(* ===== verification/Confirmation.thy ===== *)
theory Confirmation
  imports JsNumber
begin

text \<open>
  \<open>ConfirmationObserver\<close> of \<open>src/src/betting/confirmation.ts\<close>: the polling that decides whether a bet was placed
  or a cash-out succeeded, the correlation of socket messages and the reading of multipliers from their text. What the
  readers, the page and the sockets answer in each turn of a loop, and the clock, are arguments.
\<close>

section \<open>Matching text\<close>

definition is_digit :: "char \<Rightarrow> bool" where
  "is_digit c \<longleftrightarrow> (let n = of_char c :: nat in 48 \<le> n \<and> n \<le> 57)"

definition digit_val :: "char \<Rightarrow> nat" where
  "digit_val c = of_char c - 48"

definition digits_val :: "string \<Rightarrow> nat" where
  "digits_val ds = foldl (\<lambda>n c. 10 * n + digit_val c) 0 ds"

text \<open>
  \<open>([0-9]+\.?[0-9]*)\<close> at the beginning of a text, and \<open>parseFloat\<close> of what it captures.
\<close>

definition match_number :: "string \<Rightarrow> jsnum option" where
  "match_number s =
     (let ip = takeWhile is_digit s; rest = dropWhile is_digit s
      in if ip = [] then None
         else
           let fp = (case rest of CHR ''.'' # r \<Rightarrow> takeWhile is_digit r | _ \<Rightarrow> [])
           in Some (rnd (of_nat (digits_val ip) + of_nat (digits_val fp) / 10 ^ length fp)))"

text \<open>The first position at which a pattern matches.\<close>

fun first_match :: "(string \<Rightarrow> 'a option) \<Rightarrow> string \<Rightarrow> 'a option" where
  "first_match f [] = f []"
| "first_match f (c # cs) = (case f (c # cs) of Some x \<Rightarrow> Some x | None \<Rightarrow> first_match f cs)"

text \<open>\<open>/"key"[:\s]+([0-9]+\.?[0-9]*)/i\<close>; \<open>key\<close> in lower case, with its quotation marks.\<close>

definition match_field :: "string \<Rightarrow> string \<Rightarrow> jsnum option" where
  "match_field key s =
     (if is_prefix key (toLowerCase s) then
        let rest = drop (length key) s;
            sep = (\<lambda>c. c = CHR '':'' \<or> js_space c)
        in if takeWhile sep rest = [] then None else match_number (dropWhile sep rest)
      else None)"

definition quoted :: "string \<Rightarrow> string" where
  "quoted s = CHR 0x22 # s @ [CHR 0x22]"

definition match_multiplier :: "string \<Rightarrow> jsnum option" where
  "match_multiplier s = first_match (match_field (quoted ''multiplier'')) s"

fun first_some :: "('a \<Rightarrow> 'b option) list \<Rightarrow> 'a \<Rightarrow> 'b option" where
  "first_some [] x = None"
| "first_some (f # fs) x = (case f x of Some y \<Rightarrow> Some y | None \<Rightarrow> first_some fs x)"

definition match_exit :: "string \<Rightarrow> jsnum option" where
  "match_exit s = first_match (first_some [match_field (quoted ''exitmultiplier''),
     match_field (quoted ''cashoutmultiplier''), match_field (quoted ''payoutmultiplier'')]) s"

section \<open>Configuration and answers\<close>

text \<open>A pattern of the configuration is a test of the message; the default ones search a list of fragments.\<close>

record confirm_config =
  cf_domPollIntervalMs :: int
  cf_betPlacedWsPattern :: "string \<Rightarrow> bool"
  cf_cashOutWsPattern :: "string \<Rightarrow> bool"
  cf_defaultTimeoutMs :: int
  cf_requireAuthoritative :: bool

definition any_fragment :: "string list \<Rightarrow> string \<Rightarrow> bool" where
  "any_fragment ps s = list_ex (text_includes (toLowerCase s)) ps"

definition confirm_defaults :: confirm_config where
  "confirm_defaults =
     \<lparr>cf_domPollIntervalMs = 100,
      cf_betPlacedWsPattern = any_fragment [quoted ''type'' @ '':'' @ quoted ''bet_placed'', quoted ''event'' @ '':'' @ quoted ''bet'',
        quoted ''betid''],
      cf_cashOutWsPattern = any_fragment [quoted ''type'' @ '':'' @ quoted ''cashout'', quoted ''event'' @ '':'' @ quoted ''cashout'',
        quoted ''cashout''],
      cf_defaultTimeoutMs = 5000, cf_requireAuthoritative = True\<rparr>"

text \<open>
  An answer of an authoritative reader; the reader can reject, answer \<open>null\<close>, not be set at all, or never settle.
\<close>

record confirmation =
  co_confirmed :: bool
  co_multiplier :: "jsnum option"

datatype reader_answer = Reader_missing | Reader_rejects | Reader_null | Reader_says confirmation | Reader_hangs

record ws_message =
  wm_timestamp :: int
  wm_data :: string

text \<open>
  The page in one turn: whether the indicator is visible and its text (\<open>None\<close> where Playwright throws), the messages kept
  by the socket hook (\<open>None\<close> where \<open>evaluate\<close> throws).
\<close>

record confirm_turn =
  ct_now :: int
  ct_reader :: reader_answer
  ct_visible :: "bool option"
  ct_text :: "string option"
  ct_messages :: "ws_message list option"
  ct_wsNow :: int

section \<open>The page and the sockets\<close>

definition checkDomForBetPlaced :: "confirm_turn \<Rightarrow> bool" where
  "checkDomForBetPlaced t = (ct_visible t = Some True)"

definition checkDomForCashOut :: "confirm_turn \<Rightarrow> bool \<times> jsnum option" where
  "checkDomForCashOut t =
     (if ct_visible t = Some True
      then (True, Option.bind (ct_text t) (first_match match_number))
      else (False, None))"

definition recent_messages :: "confirm_turn \<Rightarrow> ws_message list \<Rightarrow> ws_message list" where
  "recent_messages t ms = filter (\<lambda>m. ct_wsNow t - 30000 < wm_timestamp m) ms"

definition id_suffix :: "string \<Rightarrow> string" where
  "id_suffix i = (if 8 < length i then drop (length i - 8) i else i)"

definition correlates :: "string \<Rightarrow> string \<Rightarrow> bool" where
  "correlates i data \<longleftrightarrow> text_includes data i \<or> 6 \<le> length (id_suffix i) \<and> text_includes data (id_suffix i)"

definition checkWebSocketForBetPlaced :: "confirm_config \<Rightarrow> string \<Rightarrow> confirm_turn \<Rightarrow> bool" where
  "checkWebSocketForBetPlaced c roundId t =
     (case ct_messages t of
        None \<Rightarrow> False
      | Some ms \<Rightarrow> list_ex (\<lambda>m. cf_betPlacedWsPattern c (wm_data m) \<and> correlates roundId (wm_data m)) (recent_messages t ms))"

definition positive :: "jsnum option \<Rightarrow> jsnum option" where
  "positive x = (case x of Some m \<Rightarrow> if jlt (Fin 0) m then Some m else None | None \<Rightarrow> None)"

definition message_multiplier :: "string \<Rightarrow> jsnum option" where
  "message_multiplier s =
     (case positive (match_multiplier s) of Some m \<Rightarrow> Some m | None \<Rightarrow> positive (match_exit s))"

fun cashout_message :: "confirm_config \<Rightarrow> string \<Rightarrow> string \<Rightarrow> ws_message list \<Rightarrow> jsnum option" where
  "cashout_message c betId roundId [] = None"
| "cashout_message c betId roundId (m # ms) =
     (if cf_cashOutWsPattern c (wm_data m) \<and> (correlates betId (wm_data m) \<or> correlates roundId (wm_data m))
      then (case message_multiplier (wm_data m) of Some x \<Rightarrow> Some x | None \<Rightarrow> cashout_message c betId roundId ms)
      else cashout_message c betId roundId ms)"

definition checkWebSocketForCashOut :: "confirm_config \<Rightarrow> string \<Rightarrow> string \<Rightarrow> confirm_turn \<Rightarrow> jsnum option" where
  "checkWebSocketForCashOut c betId roundId t =
     Option.bind (ct_messages t) (\<lambda>ms. cashout_message c betId roundId (recent_messages t ms))"

section \<open>Waiting\<close>

text \<open>One turn of the loops; \<open>None\<close> polls again.\<close>

definition bet_turn :: "confirm_config \<Rightarrow> string \<Rightarrow> confirm_turn \<Rightarrow> bool" where
  "bet_turn c roundId t =
     (if cf_requireAuthoritative c then
        (case ct_reader t of Reader_says a \<Rightarrow> co_confirmed a | _ \<Rightarrow> False)
      else checkDomForBetPlaced t \<or> checkWebSocketForBetPlaced c roundId t)"

definition cashout_turn :: "confirm_config \<Rightarrow> string \<Rightarrow> string \<Rightarrow> confirm_turn \<Rightarrow> jsnum option" where
  "cashout_turn c betId roundId t =
     (if cf_requireAuthoritative c then
        (case ct_reader t of Reader_says a \<Rightarrow> if co_confirmed a then positive (co_multiplier a) else None | _ \<Rightarrow> None)
      else
        (case (let (confirmed, m) = checkDomForCashOut t in if confirmed then positive m else None) of
           Some m \<Rightarrow> Some m
         | None \<Rightarrow> positive (checkWebSocketForCashOut c betId roundId t)))"

text \<open>No timeout guards the call of the reader.\<close>

definition turn_hangs :: "confirm_config \<Rightarrow> confirm_turn \<Rightarrow> bool" where
  "turn_hangs c t \<longleftrightarrow> cf_requireAuthoritative c \<and> ct_reader t = Reader_hangs"

text \<open>
  A loop may not end if the clock stands still or a reader never settles, so it is a partial function; \<open>env i\<close> is what
  turn \<open>i\<close> finds. The result is that of the first turn that gives one, or \<open>None\<close> when a turn begins at the deadline.
\<close>

partial_function (option) poll ::
  "(confirm_turn \<Rightarrow> bool) \<Rightarrow> (confirm_turn \<Rightarrow> 'a option) \<Rightarrow> (nat \<Rightarrow> confirm_turn) \<Rightarrow> int \<Rightarrow> nat \<Rightarrow> 'a option option" where
  "poll hangs check env deadline i =
     (if ct_now (env i) < deadline then
        (if hangs (env i) then None
         else case check (env i) of Some x \<Rightarrow> Some (Some x) | None \<Rightarrow> poll hangs check env deadline (Suc i))
      else Some None)"

definition confirm_deadline :: "confirm_config \<Rightarrow> int \<Rightarrow> int option \<Rightarrow> int" where
  "confirm_deadline c now timeout = now + (case timeout of Some t \<Rightarrow> t | None \<Rightarrow> cf_defaultTimeoutMs c)"

definition waitForBetPlaced ::
  "confirm_config \<Rightarrow> string \<Rightarrow> int \<Rightarrow> int option \<Rightarrow> (nat \<Rightarrow> confirm_turn) \<Rightarrow> bool option" where
  "waitForBetPlaced c roundId now timeout env =
     map_option (\<lambda>r. r \<noteq> None)
       (poll (turn_hangs c) (\<lambda>t. if bet_turn c roundId t then Some () else None) env (confirm_deadline c now timeout) 0)"

definition waitForCashOut ::
  "confirm_config \<Rightarrow> string \<Rightarrow> string \<Rightarrow> int \<Rightarrow> int option \<Rightarrow> (nat \<Rightarrow> confirm_turn) \<Rightarrow> jsnum option option" where
  "waitForCashOut c betId roundId now timeout env =
     poll (turn_hangs c) (cashout_turn c betId roundId) env (confirm_deadline c now timeout) 0"

section \<open>Loops\<close>

text \<open>A turn after which the loop goes on.\<close>

definition goes_on :: "(confirm_turn \<Rightarrow> bool) \<Rightarrow> (confirm_turn \<Rightarrow> 'a option) \<Rightarrow> int \<Rightarrow> confirm_turn \<Rightarrow> bool" where
  "goes_on hangs check dl t \<longleftrightarrow> ct_now t < dl \<and> \<not> hangs t \<and> check t = None"

lemma poll_first:
  assumes "\<And>j. i \<le> j \<Longrightarrow> j < k \<Longrightarrow> goes_on hangs check dl (env j)" "i \<le> k"
  shows "poll hangs check env dl i = poll hangs check env dl k"
  using assms
proof (induction "k - i" arbitrary: i)
  case (Suc n)
  then have "i < k" by simp
  with Suc.prems(1) [of i] have "poll hangs check env dl i = poll hangs check env dl (Suc i)"
    by (subst poll.simps) (simp add: goes_on_def)
  also have "\<dots> = poll hangs check env dl k"
    using Suc \<open>i < k\<close> by (intro Suc.hyps(1)) auto
  finally show ?case .
qed simp

text \<open>A poll with turns that do not hang ends once a turn begins at the deadline.\<close>

lemma poll_ends:
  assumes "dl \<le> ct_now (env n)" "\<And>j. \<not> hangs (env j)"
  shows "\<exists>r. poll hangs check env dl 0 = Some r"
proof -
  let ?P = "\<lambda>k. \<not> goes_on hangs check dl (env k)"
  define k where "k = (LEAST k. ?P k)"
  have P: "?P k" unfolding k_def by (rule LeastI [of ?P n]) (use assms(1) in \<open>simp add: goes_on_def\<close>)
  have "goes_on hangs check dl (env j)" if "j < k" for j
    using not_less_Least [of j ?P] that unfolding k_def [symmetric] by simp
  then have "poll hangs check env dl 0 = poll hangs check env dl k" by (intro poll_first) auto
  also have "\<exists>r. \<dots> = Some r"
    using P assms(2) by (subst poll.simps) (auto simp: goes_on_def split: option.splits)
  finally show ?thesis .
qed

lemma poll_Some_Some:
  assumes "poll hangs check env dl i = Some (Some x)"
  shows "\<exists>k \<ge> i. (\<forall>j. i \<le> j \<and> j < k \<longrightarrow> goes_on hangs check dl (env j)) \<and>
    ct_now (env k) < dl \<and> \<not> hangs (env k) \<and> check (env k) = Some x"
proof -
  let ?P = "\<lambda>hangs check env dl i r. \<forall>x. r = Some x \<longrightarrow>
    (\<exists>k \<ge> i. (\<forall>j. i \<le> j \<and> j < k \<longrightarrow> goes_on hangs check dl (env j)) \<and>
      ct_now (env k) < dl \<and> \<not> hangs (env k) \<and> check (env k) = Some x)"
  have "?P hangs check env dl i (Some x)"
  proof (rule poll.raw_induct [where P = ?P, OF _ assms], goal_cases)
    case (1 self hangs check env dl i r)
    show ?case
    proof (cases "goes_on hangs check dl (env i)")
      case True
      with 1(2) have "self hangs check env dl (Suc i) = Some r" by (simp add: goes_on_def)
      from 1(1) [OF this] True show ?thesis by (metis Suc_leD Suc_leI le_neq_implies_less)
    next
      case False
      with 1(2) show ?thesis by (auto simp: goes_on_def intro!: exI [of _ i] split: if_splits option.splits)
    qed
  qed
  then show ?thesis by simp
qed

lemma poll_finds:
  assumes "\<And>j. j < k \<Longrightarrow> goes_on hangs check dl (env j)"
    and "ct_now (env k) < dl" "\<not> hangs (env k)" "check (env k) = Some x"
  shows "poll hangs check env dl 0 = Some (Some x)"
proof -
  have "poll hangs check env dl 0 = poll hangs check env dl k" using assms(1) by (intro poll_first) auto
  with assms(2-4) show ?thesis by (subst (asm) (2) poll.simps) simp
qed

section \<open>Properties\<close>

definition sleeping_clock :: "int \<Rightarrow> (nat \<Rightarrow> confirm_turn) \<Rightarrow> bool" where
  "sleeping_clock d env \<longleftrightarrow> 0 < d \<and> (\<forall>i. ct_now (env i) + d \<le> ct_now (env (Suc i)))"

lemma sleeping_clock_ge: "sleeping_clock d env \<Longrightarrow> ct_now (env 0) + int n * d \<le> ct_now (env n)"
proof (induction n)
  case (Suc n)
  then have "ct_now (env n) + d \<le> ct_now (env (Suc n))" by (simp add: sleeping_clock_def)
  with Suc show ?case by (simp add: algebra_simps)
qed simp

lemma sleeping_clock_reaches: "sleeping_clock d env \<Longrightarrow> \<exists>n. dl \<le> ct_now (env n)"
proof -
  assume s: "sleeping_clock d env"
  let ?n = "nat (dl - ct_now (env 0))"
  have "dl - ct_now (env 0) \<le> int ?n * d"
  proof -
    have "int ?n * 1 \<le> int ?n * d" using s by (intro mult_left_mono) (simp_all add: sleeping_clock_def)
    then show ?thesis by linarith
  qed
  with sleeping_clock_ge [OF s, of ?n] have "dl \<le> ct_now (env ?n)" by linarith
  then show ?thesis ..
qed

text \<open>
  C33. In the hardened mode only the authoritative reader confirms a placement: the wait answers yes exactly if
  there is a turn in which the reader confirmed the bet, that turn and all before it began before the deadline, and no
  call of the reader before it was left without an answer. No answer of the page or of a socket counts, and an
  error, a missing reader or a missing answer is no confirmation.
\<close>

theorem authority_decides_placement:
  assumes "cf_requireAuthoritative c"
  shows "waitForBetPlaced c roundId now timeout env = Some True \<longleftrightarrow>
    (\<exists>k a. ct_reader (env k) = Reader_says a \<and> co_confirmed a \<and>
       (\<forall>j \<le> k. ct_now (env j) < confirm_deadline c now timeout \<and> ct_reader (env j) \<noteq> Reader_hangs))"
    (is "?wait \<longleftrightarrow> (\<exists>k a. ?yes k a)")
proof
  let ?dl = "confirm_deadline c now timeout"
  let ?check = "\<lambda>t. if bet_turn c roundId t then Some () else None"
  have turn: "bet_turn c roundId t \<longleftrightarrow> (\<exists>a. ct_reader t = Reader_says a \<and> co_confirmed a)" for t
    using assms by (simp add: bet_turn_def split: reader_answer.splits)
  have hangs: "turn_hangs c t \<longleftrightarrow> ct_reader t = Reader_hangs" for t
    using assms by (simp add: turn_hangs_def)
  {
    assume ?wait
    then have "poll (turn_hangs c) ?check env ?dl 0 = Some (Some ())"
      by (auto simp: waitForBetPlaced_def)
    from poll_Some_Some [OF this] obtain k where k: "\<And>j. j < k \<Longrightarrow> goes_on (turn_hangs c) ?check ?dl (env j)"
      "ct_now (env k) < ?dl" "\<not> turn_hangs c (env k)" "?check (env k) = Some ()" by auto
    then obtain a where "ct_reader (env k) = Reader_says a" "co_confirmed a" by (auto simp: turn split: if_splits)
    with k(1,2) have "?yes k a" by (auto simp: goes_on_def hangs le_less)
    then show "\<exists>k a. ?yes k a" by blast
  next
    assume "\<exists>k a. ?yes k a"
    then have ex: "\<exists>k. \<exists>a. ?yes k a" .
    define k where "k = (LEAST k. \<exists>a. ?yes k a)"
    obtain a where a: "?yes k a" using LeastI_ex [OF ex] unfolding k_def by blast
    have "\<not> bet_turn c roundId (env j)" if "j < k" for j
    proof
      assume "bet_turn c roundId (env j)"
      then obtain b where b: "ct_reader (env j) = Reader_says b" "co_confirmed b" by (auto simp: turn)
      have "i \<le> k" if "i \<le> j" for i using that \<open>j < k\<close> by simp
      with a b have "?yes j b" by blast
      with not_less_Least [of j "\<lambda>k. \<exists>a. ?yes k a"] that show False unfolding k_def by blast
    qed
    then have "goes_on (turn_hangs c) ?check ?dl (env j)" if "j < k" for j
      using a that by (auto simp: goes_on_def hangs)
    from poll_finds [OF this, of k] a show ?wait
      by (auto simp: waitForBetPlaced_def hangs turn)
  }
qed

text \<open>
  With a clock that advances and a reader that always settles the wait ends; without a confirmation it answers no,
  it does not throw. A reader that never settles keeps it waiting beyond any deadline.
\<close>

lemma placement_wait_ends:
  assumes "sleeping_clock d env" "\<And>j. ct_reader (env j) \<noteq> Reader_hangs"
  shows "\<exists>r. waitForBetPlaced c roundId now timeout env = Some r"
proof -
  obtain n where "confirm_deadline c now timeout \<le> ct_now (env n)" using sleeping_clock_reaches [OF assms(1)] by blast
  from poll_ends [where hangs = "turn_hangs c" and env = env, OF this] assms(2) show ?thesis
    by (auto simp: waitForBetPlaced_def turn_hangs_def)
qed

lemma unconfirmed_wait_answers_no:
  "confirm_deadline c now timeout \<le> ct_now (env 0) \<Longrightarrow> waitForBetPlaced c roundId now timeout env = Some False"
  by (simp add: waitForBetPlaced_def poll.simps)

lemma hanging_reader_hangs_the_wait:
  "cf_requireAuthoritative c \<Longrightarrow> ct_reader (env 0) = Reader_hangs \<Longrightarrow> ct_now (env 0) < confirm_deadline c now timeout \<Longrightarrow>
     waitForBetPlaced c roundId now timeout env = None"
  by (simp add: waitForBetPlaced_def poll.simps turn_hangs_def)

text \<open>
  Where a multiplier may come from in a turn: in the hardened mode an authoritative confirmation with that multiplier;
  else the text of the visible indicator, or a message of the last 30 seconds that matches the pattern,
  names the bet or the round, and carries the multiplier.
\<close>

definition cashout_source :: "confirm_config \<Rightarrow> string \<Rightarrow> string \<Rightarrow> confirm_turn \<Rightarrow> jsnum \<Rightarrow> bool" where
  "cashout_source c betId roundId t m \<longleftrightarrow>
     (if cf_requireAuthoritative c then ct_reader t = Reader_says \<lparr>co_confirmed = True, co_multiplier = Some m\<rparr>
      else checkDomForCashOut t = (True, Some m) \<or>
        (\<exists>ms w. ct_messages t = Some ms \<and> w \<in> set (recent_messages t ms) \<and>
           cf_cashOutWsPattern c (wm_data w) \<and> (correlates betId (wm_data w) \<or> correlates roundId (wm_data w)) \<and>
           message_multiplier (wm_data w) = Some m))"

lemma positive_Some: "positive x = Some m \<longleftrightarrow> x = Some m \<and> jlt (Fin 0) m"
  by (auto simp: positive_def split: option.splits if_splits)

lemma cashout_message_Some:
  "cashout_message c betId roundId ms = Some m \<Longrightarrow>
     \<exists>w \<in> set ms. cf_cashOutWsPattern c (wm_data w) \<and> (correlates betId (wm_data w) \<or> correlates roundId (wm_data w)) \<and>
       message_multiplier (wm_data w) = Some m"
  by (induction ms) (auto split: if_splits option.splits)

lemma cashout_turn_Some:
  assumes "cashout_turn c betId roundId t = Some m"
  shows "jlt (Fin 0) m \<and> cashout_source c betId roundId t m"
proof (cases "cf_requireAuthoritative c")
  case True
  with assms obtain a where a: "ct_reader t = Reader_says a" "co_confirmed a" "co_multiplier a = Some m" "jlt (Fin 0) m"
    by (auto simp: cashout_turn_def positive_Some split: reader_answer.splits if_splits)
  then have "a = \<lparr>co_confirmed = True, co_multiplier = Some m\<rparr>" by (cases a) simp
  with a True show ?thesis by (simp add: cashout_source_def)
next
  case False
  obtain b x where dom: "checkDomForCashOut t = (b, x)" by (cases "checkDomForCashOut t")
  consider "b" "positive x = Some m" | "positive (checkWebSocketForCashOut c betId roundId t) = Some m"
    using assms False by (auto simp: cashout_turn_def dom split: option.splits if_splits)
  then show ?thesis
  proof cases
    case 1
    with False show ?thesis by (simp add: cashout_source_def dom positive_Some)
  next
    case 2
    then obtain ms where ms: "ct_messages t = Some ms" "cashout_message c betId roundId (recent_messages t ms) = Some m"
      by (auto simp: positive_Some checkWebSocketForCashOut_def bind_eq_Some_conv)
    with cashout_message_Some [OF ms(2)] 2 False show ?thesis
      by (auto simp: cashout_source_def positive_Some)
  qed
qed

text \<open>
  A wait for a cash-out ends when the reader always settles, and a multiplier it gives is positive and comes from a
  source of the mode, in a turn that began before the deadline.
\<close>

theorem cashout_confirmation_has_source:
  assumes "sleeping_clock d env" and "\<And>j. ct_reader (env j) \<noteq> Reader_hangs"
  shows "\<exists>r. waitForCashOut c betId roundId now timeout env = Some r \<and>
    (case r of None \<Rightarrow> True
     | Some m \<Rightarrow> jlt (Fin 0) m \<and>
         (\<exists>k. ct_now (env k) < confirm_deadline c now timeout \<and> cashout_source c betId roundId (env k) m))"
proof -
  let ?dl = "confirm_deadline c now timeout"
  obtain n where "?dl \<le> ct_now (env n)" using sleeping_clock_reaches [OF assms(1)] by blast
  from poll_ends [where hangs = "turn_hangs c" and env = env, OF this] assms(2)
  obtain r where r: "waitForCashOut c betId roundId now timeout env = Some r"
    unfolding waitForCashOut_def turn_hangs_def by blast
  have "jlt (Fin 0) m \<and> (\<exists>k. ct_now (env k) < ?dl \<and> cashout_source c betId roundId (env k) m)" if "r = Some m" for m
  proof -
    from r that have "poll (turn_hangs c) (cashout_turn c betId roundId) env ?dl 0 = Some (Some m)"
      by (simp add: waitForCashOut_def)
    from poll_Some_Some [OF this] show ?thesis by (auto dest: cashout_turn_Some)
  qed
  with r show ?thesis by (auto split: option.splits)
qed

definition demo_turn :: "int \<Rightarrow> reader_answer \<Rightarrow> confirm_turn" where
  "demo_turn now a = \<lparr>ct_now = now, ct_reader = a, ct_visible = Some True, ct_text = None, ct_messages = None, ct_wsNow = now\<rparr>"

definition demo_turns :: "nat \<Rightarrow> confirm_turn" where
  "demo_turns i = demo_turn (100 * int i) (if i = 3 then Reader_says \<lparr>co_confirmed = True, co_multiplier = Some (Fin 2)\<rparr> else Reader_null)"

lemma demo_clock: "sleeping_clock 100 demo_turns"
  by (simp add: sleeping_clock_def demo_turns_def demo_turn_def)

theorem authority_decides_placement_witness:
  "waitForBetPlaced confirm_defaults ''r'' 0 None demo_turns = Some True
   \<and> waitForBetPlaced confirm_defaults ''r'' 0 (Some 200) demo_turns \<noteq> Some True"
proof
  have auth: "cf_requireAuthoritative confirm_defaults" by (simp add: confirm_defaults_def)
  have dl: "confirm_deadline confirm_defaults 0 None = 5000" "confirm_deadline confirm_defaults 0 (Some 200) = 200"
    by (simp_all add: confirm_deadline_def confirm_defaults_def)
  show "waitForBetPlaced confirm_defaults ''r'' 0 None demo_turns = Some True"
    unfolding authority_decides_placement [OF auth] dl
    by (auto simp: demo_turns_def demo_turn_def intro!: exI [of _ 3])
  show "waitForBetPlaced confirm_defaults ''r'' 0 (Some 200) demo_turns \<noteq> Some True"
    unfolding authority_decides_placement [OF auth] dl
    by (auto simp: demo_turns_def demo_turn_def split: if_splits)
qed

theorem cashout_confirmation_has_source_witness:
  "\<exists>r. waitForCashOut confirm_defaults ''b'' ''r'' 0 None demo_turns = Some r"
proof -
  have "ct_reader (demo_turns j) \<noteq> Reader_hangs" for j by (simp add: demo_turns_def demo_turn_def)
  from cashout_confirmation_has_source [OF demo_clock this, of confirm_defaults "''b''" "''r''" 0 None]
  show ?thesis by blast
qed

text \<open>
  Outside the hardened mode: the first number of the indicator is taken for the multiplier, an amount won as well;
  a short identifier is found in almost any message, an empty one in all.
\<close>

lemma amount_taken_for_multiplier:
  "checkDomForCashOut ((demo_turn 0 Reader_null)\<lparr>ct_text := Some ''Won 350 at 2.5x''\<rparr>) = (True, Some (Fin 350))"
  by (simp add: checkDomForCashOut_def demo_turn_def match_number_def is_digit_def digits_val_def digit_val_def Let_def
      rnd_numeral)

lemma short_identifier_correlates: "correlates ''7'' ''other round 1207'' \<and> correlates [] data"
  by (cases data) (simp_all add: correlates_def)

end
