(* ===== verification/Safeguards.thy ===== *)
theory Safeguards
  imports BalanceTracker DailyEntries RiskEngine Mutex "HOL-Library.AList"
begin

text \<open>
  Guards around live operation: \<open>ExecutionSafeguards\<close> of \<open>src/src/betting/execution-safeguards.ts\<close>, the registry of
  order identifiers and the reconciliation after a reconnect (\<open>src/src/core/reconciliation-service.ts\<close>), and the lock
  of the active instance (\<open>src/src/core/instance-lock.ts\<close>), whose Redis commands are parameters.
\<close>

section \<open>Safeguards of the execution\<close>

record latency_snapshot =
  la_operation :: string
  la_latencyMs :: jsnum
  la_timestamp :: int
  la_thresholdMs :: jsnum
  la_exceeded :: bool

record safeguards_config =
  sg_minBalanceForEntry :: jsnum
  sg_balanceBuffer :: jsnum
  sg_maxPlacementLatencyMs :: jsnum
  sg_maxCashOutLatencyMs :: jsnum

definition safeguards_defaults :: safeguards_config where
  "safeguards_defaults = \<lparr>sg_minBalanceForEntry = Fin 700, sg_balanceBuffer = Fin 700,
     sg_maxPlacementLatencyMs = Fin 5000, sg_maxCashOutLatencyMs = Fin 3000\<rparr>"

datatype health_status = Health_healthy | Health_degraded | Health_critical

datatype preflight_reason = PF_mode risk_mode | PF_unparseable | PF_balance_unknown | PF_insufficient jsnum jsnum
  | PF_daily_limit int int | PF_critical

record preflight_result =
  pf_approved :: bool
  pf_reason :: "preflight_reason option"
  pf_currentBalance :: "jsnum option"
  pf_dailyEntriesRemaining :: "int option"
  pf_healthStatus :: "health_status option"

text \<open>The tracker and the counter are shared with the rest of the program; they are arguments of the check.\<close>

record safeguards =
  sg_config :: safeguards_config
  sg_mode :: risk_mode
  sg_maxDailyEntries :: int
  sg_history :: "latency_snapshot list"

definition sg_recordLatency :: "latency_snapshot \<Rightarrow> safeguards \<Rightarrow> safeguards" where
  "sg_recordLatency s g =
     (let h = sg_history g @ [s] in g\<lparr>sg_history := (if 100 < length h then tl h else h)\<rparr>)"

definition samples_of :: "string \<Rightarrow> safeguards \<Rightarrow> latency_snapshot list" where
  "samples_of op g = filter (\<lambda>s. la_operation s = op) (sg_history g)"

definition getAverageLatency :: "string \<Rightarrow> safeguards \<Rightarrow> jsnum" where
  "getAverageLatency op g =
     (let ss = samples_of op g
      in if ss = [] then Fin 0 else jdiv (foldl (\<lambda>sum s. jadd sum (la_latencyMs s)) (Fin 0) ss) (jsint (int (length ss))))"

definition getLatencyViolationRate :: "string \<Rightarrow> safeguards \<Rightarrow> jsnum" where
  "getLatencyViolationRate op g =
     (let ss = samples_of op g
      in if ss = [] then Fin 0 else jdiv (jsint (int (length (filter la_exceeded ss)))) (jsint (int (length ss))))"

definition getHealthStatus :: "safeguards \<Rightarrow> health_status" where
  "getHealthStatus g =
     (let p = getLatencyViolationRate ''PLACED'' g; c = getLatencyViolationRate ''CASHED_OUT'' g
      in if jlt (lit (1/2)) p \<or> jlt (lit (1/2)) c then Health_critical
         else if jlt (lit (2/10)) p \<or> jlt (lit (2/10)) c then Health_degraded
         else Health_healthy)"

definition rejected :: "preflight_reason \<Rightarrow> preflight_result" where
  "rejected why = \<lparr>pf_approved = False, pf_reason = Some why, pf_currentBalance = None,
     pf_dailyEntriesRemaining = None, pf_healthStatus = None\<rparr>"

definition current_balance :: "balance_tracker \<Rightarrow> jsnum option" where
  "current_balance t =
     (case getConservativeBalance (Fin 0) t of Some b \<Rightarrow> Some b | None \<Rightarrow> bt_lastKnownBalance t)"

definition required_balance :: "safeguards_config \<Rightarrow> jsnum \<Rightarrow> jsnum" where
  "required_balance c stake = jadd (jadd (sg_minBalanceForEntry c) (sg_balanceBuffer c)) stake"

definition checkPreFlight ::
  "string \<Rightarrow> jsnum \<Rightarrow> balance_tracker \<Rightarrow> daily_counter \<Rightarrow> safeguards \<Rightarrow> preflight_result \<times> daily_counter" where
  "checkPreFlight today stake t dc g =
     (if sg_mode g \<noteq> Mode_live then (rejected (PF_mode (sg_mode g)), dc)
      else if bt_unparseable t then (rejected PF_unparseable, dc)
      else
        (case current_balance t of
           None \<Rightarrow> (rejected PF_balance_unknown, dc)
         | Some b \<Rightarrow>
             let required = required_balance (sg_config g) stake
             in if jlt b required then ((rejected (PF_insufficient b required))\<lparr>pf_currentBalance := Some b\<rparr>, dc)
                else
                  let (n, dc1) = dc_getCount today dc; mx = sg_maxDailyEntries g; health = getHealthStatus g
                  in if mx \<le> n then
                       ((rejected (PF_daily_limit n mx))\<lparr>pf_currentBalance := Some b, pf_dailyEntriesRemaining := Some 0\<rparr>, dc1)
                     else if health = Health_critical then
                       ((rejected PF_critical)\<lparr>pf_currentBalance := Some b, pf_dailyEntriesRemaining := Some (mx - n),
                          pf_healthStatus := Some health\<rparr>, dc1)
                     else
                       (\<lparr>pf_approved = True, pf_reason = None, pf_currentBalance = Some b,
                          pf_dailyEntriesRemaining = Some (mx - n), pf_healthStatus = Some health\<rparr>, dc1)))"

text \<open>The result of a post-flight check is always valid; the flag tells whether it carries a warning.\<close>

definition checkPostFlight :: "int \<Rightarrow> string \<Rightarrow> jsnum option \<Rightarrow> safeguards \<Rightarrow> bool \<times> safeguards" where
  "checkPostFlight now finalState latency g =
     (case latency of
        None \<Rightarrow> (False, g)
      | Some l \<Rightarrow>
          let threshold = (if finalState = ''CASHED_OUT'' \<or> finalState = ''CASH_OUT_REQUESTED''
                           then sg_maxCashOutLatencyMs (sg_config g) else sg_maxPlacementLatencyMs (sg_config g));
              exceeded = jlt threshold l
          in (exceeded, sg_recordLatency \<lparr>la_operation = finalState, la_latencyMs = l, la_timestamp = now,
                la_thresholdMs = threshold, la_exceeded = exceeded\<rparr> g))"

definition clearLatencyHistory :: "safeguards \<Rightarrow> safeguards" where
  "clearLatencyHistory g = g\<lparr>sg_history := []\<rparr>"

text \<open>
  An approval says that every check passed, with numbers for balance and limits: the mode is live, the balance was
  read and reaches the stake with both reserves, the day has entries left and the health is not critical.
\<close>

theorem preflight_approval_sound:
  assumes "checkPreFlight today (Fin stake) t dc g = (r, dc')" "pf_approved r"
    and "bt_lastKnownBalance t = Some (Fin b)" "rnd b = Fin b" "required_balance (sg_config g) (Fin stake) = Fin req"
  shows "sg_mode g = Mode_live \<and> \<not> bt_unparseable t \<and> req \<le> max 0 b
    \<and> fst (dc_getCount today dc) < sg_maxDailyEntries g \<and> getHealthStatus g \<noteq> Health_critical"
  using assms by (auto simp: checkPreFlight_def rejected_def current_balance_def getConservativeBalance_def Let_def
      not_less not_le split: if_splits prod.splits)

definition demo_safeguards :: safeguards where
  "demo_safeguards = \<lparr>sg_config = safeguards_defaults, sg_mode = Mode_live, sg_maxDailyEntries = 10, sg_history = []\<rparr>"

definition demo_balance :: "rat \<Rightarrow> balance_tracker" where
  "demo_balance b = (bt_new None None)\<lparr>bt_lastKnownBalance := Some (Fin b)\<rparr>"

lemma demo_required: "required_balance safeguards_defaults (Fin 100) = Fin 1500"
  by (simp add: required_balance_def safeguards_defaults_def)

lemma no_samples_healthy: "sg_history g = [] \<Longrightarrow> getHealthStatus g = Health_healthy"
proof -
  assume "sg_history g = []"
  moreover have "\<not> jlt (lit q) (Fin 0)" if "0 \<le> q" for q
    using rnd_nonneg [OF that] jlt_not_jle [of "rnd q" "Fin 0"] by (auto simp: lit_def)
  ultimately show ?thesis by (simp add: getHealthStatus_def getLatencyViolationRate_def samples_of_def)
qed

lemma demo_healthy: "getHealthStatus demo_safeguards = Health_healthy"
  by (rule no_samples_healthy) (simp add: demo_safeguards_def)

theorem preflight_approval_sound_witness: "(1500::rat) \<le> max 0 2000"
proof -
  have "pf_approved (fst (checkPreFlight ''d'' (Fin 100) (demo_balance 2000) (dc_new ''d'') demo_safeguards))"
    using demo_healthy demo_required
    by (simp add: checkPreFlight_def demo_balance_def demo_safeguards_def current_balance_def getConservativeBalance_def
        bt_new_def dc_new_def dc_getCount_def Let_def)
  from preflight_approval_sound [OF prod.collapse [symmetric] this] show ?thesis
    by (simp add: demo_balance_def demo_safeguards_def demo_required)
qed

text \<open>The history of latencies never exceeds its bound.\<close>

fun sg_step :: "safeguards \<Rightarrow> int \<times> string \<times> jsnum option \<Rightarrow> safeguards" where
  "sg_step g (now, op, l) = snd (checkPostFlight now op l g)"

interpretation safe: stepwise sg_step "\<lambda>g. length (sg_history g) \<le> 100"
  by unfold_locales (auto simp: checkPostFlight_def sg_recordLatency_def Let_def split: option.splits)

text \<open>
  One slow placement at the beginning is a rate of violations of one: the health is critical and every
  pre-flight check is refused, so no further placement can bring the rate down.
\<close>

lemma slow_first_placement_blocks:
  assumes "sg_history g = []" "jlt (sg_maxPlacementLatencyMs (sg_config g)) l"
  shows "\<not> pf_approved (fst (checkPreFlight today stake t dc (snd (checkPostFlight now ''PLACED'' (Some l) g))))"
proof -
  have "getLatencyViolationRate ''PLACED'' (snd (checkPostFlight now ''PLACED'' (Some l) g)) = Fin 1"
    using assms by (simp add: checkPostFlight_def sg_recordLatency_def getLatencyViolationRate_def samples_of_def Let_def jsint_def)
  moreover have "jlt (lit (1/2)) (Fin 1)"
    using rnd_dyadic [of 1 "-1"] by (simp add: lit_def power_int_minus inverse_eq_divide)
  ultimately have "getHealthStatus (snd (checkPostFlight now ''PLACED'' (Some l) g)) = Health_critical"
    by (simp add: getHealthStatus_def Let_def)
  then show ?thesis
    by (auto simp: checkPreFlight_def rejected_def Let_def split: option.splits prod.splits)
qed

text \<open>A balance that is not a number is below nothing and passes the check of the balance.\<close>

lemma nan_balance_approved:
  assumes "sg_mode g = Mode_live" "\<not> bt_unparseable t" "bt_lastKnownBalance t = Some NaN"
    and "fst (dc_getCount today dc) < sg_maxDailyEntries g" "getHealthStatus g \<noteq> Health_critical"
  shows "pf_approved (fst (checkPreFlight today stake t dc g))"
proof -
  have "current_balance t = Some NaN"
    using assms(2,3) by (simp add: current_balance_def getConservativeBalance_def jmax_def jsub_def)
  moreover have "\<not> jlt NaN x" for x by (cases x) simp_all
  ultimately show ?thesis using assms by (cases "dc_getCount today dc") (simp add: checkPreFlight_def Let_def)
qed

text \<open>An operation reported under another name, such as a requested cash-out, does not count for the health.\<close>

lemma only_two_operations_count:
  assumes "op \<noteq> ''PLACED''" "op \<noteq> ''CASHED_OUT''" "length (sg_history g) < 100"
  shows "getHealthStatus (snd (checkPostFlight now op l g)) = getHealthStatus g"
  using assms by (cases l) (simp_all add: checkPostFlight_def sg_recordLatency_def getHealthStatus_def getLatencyViolationRate_def
      samples_of_def Let_def)


section \<open>The registry of order identifiers\<close>

record pending_order =
  po_createdAt :: int
  po_stake :: jsnum
  po_target :: jsnum

text \<open>The map in its order of insertion.\<close>

type_synonym order_registry = "(string \<times> pending_order) list"

definition reg_gc :: "int \<Rightarrow> int \<Rightarrow> order_registry \<Rightarrow> order_registry" where
  "reg_gc ttl now m = filter (\<lambda>(_, v). \<not> ttl < now - po_createdAt v) m"

text \<open>\<open>coid\<close> is the identifier made of the time and the random digits.\<close>

definition reg_generate :: "int \<Rightarrow> int \<Rightarrow> string \<Rightarrow> jsnum \<Rightarrow> jsnum \<Rightarrow> order_registry \<Rightarrow> order_registry" where
  "reg_generate ttl now coid stake target m =
     reg_gc ttl now (AList.update coid \<lparr>po_createdAt = now, po_stake = stake, po_target = target\<rparr> m)"

definition reg_has :: "string \<Rightarrow> order_registry \<Rightarrow> bool" where
  "reg_has coid m \<longleftrightarrow> map_of m coid \<noteq> None"

definition reg_release :: "string \<Rightarrow> order_registry \<Rightarrow> order_registry" where
  "reg_release coid m = AList.delete coid m"

definition listPending :: "order_registry \<Rightarrow> string list" where
  "listPending m = map fst m"

section \<open>Reconciliation after a reconnect\<close>

datatype order_state = OS_accepted | OS_running | OS_cashed_out | OS_lost | OS_cancelled | OS_not_found | OS_other

record rest_status =
  ot_clientOrderId :: string
  ot_status :: order_state
  ot_multiplier :: "jsnum option"
  ot_pnl :: "jsnum option"

datatype reconnect_resolution = Res_CASHED_OUT | Res_LOST | Res_UNKNOWN | Res_STILL_ACTIVE | Res_NOT_FOUND

record reconnect_result =
  rr_resolution :: reconnect_resolution
  rr_orderStatus :: "rest_status option"
  rr_localPnLUpdated :: bool
  rr_balanceSynced :: bool

definition mk_resolution :: "reconnect_resolution \<Rightarrow> rest_status option \<Rightarrow> bool \<Rightarrow> reconnect_result" where
  "mk_resolution r o' b = \<lparr>rr_resolution = r, rr_orderStatus = o', rr_localPnLUpdated = b, rr_balanceSynced = b\<rparr>"

text \<open>
  \<open>reader\<close> is the status query; \<open>None\<close> is its failure. The loop goes on only for a status the switch does not name.
\<close>

fun reconcile_ids ::
  "(string \<Rightarrow> rest_status option) \<Rightarrow> string list \<Rightarrow> order_registry \<Rightarrow> reconnect_result \<times> order_registry" where
  "reconcile_ids reader [] m = (mk_resolution Res_UNKNOWN None False, m)"
| "reconcile_ids reader (i # is) m =
     (case reader i of
        None \<Rightarrow> (mk_resolution Res_UNKNOWN None False, m)
      | Some s \<Rightarrow>
          (case ot_status s of
             OS_cashed_out \<Rightarrow> (mk_resolution Res_CASHED_OUT (Some s) True, reg_release i m)
           | OS_lost \<Rightarrow> (mk_resolution Res_LOST (Some s) True, reg_release i m)
           | OS_cancelled \<Rightarrow> (mk_resolution Res_LOST (Some s) True, reg_release i m)
           | OS_running \<Rightarrow> (mk_resolution Res_STILL_ACTIVE (Some s) False, m)
           | OS_accepted \<Rightarrow> (mk_resolution Res_STILL_ACTIVE (Some s) False, m)
           | OS_not_found \<Rightarrow> (mk_resolution Res_NOT_FOUND (Some s) False, reg_release i m)
           | OS_other \<Rightarrow> reconcile_ids reader is m))"

text \<open>An active identifier that is absent or empty is falsy.\<close>

definition reconcile_ids_of :: "string option \<Rightarrow> order_registry \<Rightarrow> string list" where
  "reconcile_ids_of active m = (if truthy_str active then [the active] else listPending m)"

definition reg_reconcile ::
  "(string \<Rightarrow> rest_status option) \<Rightarrow> string option \<Rightarrow> order_registry \<Rightarrow> reconnect_result \<times> order_registry" where
  "reg_reconcile reader active m =
     (let ids = reconcile_ids_of active m
      in if ids = [] then (mk_resolution Res_NOT_FOUND None False, m) else reconcile_ids reader ids m)"

lemma reconcile_ids_released:
  assumes "reconcile_ids reader ids m = (r, m')"
  shows "m' = m \<or> (\<exists>i s. i \<in> set ids \<and> m' = reg_release i m \<and> reader i = Some s
     \<and> ot_status s \<in> {OS_cashed_out, OS_lost, OS_cancelled, OS_not_found} \<and> rr_orderStatus r = Some s)"
  using assms
proof (induction ids)
  case (Cons i ids)
  show ?case
  proof (cases "\<exists>s. reader i = Some s \<and> ot_status s = OS_other")
    case True
    then have "reconcile_ids reader (i # ids) m = reconcile_ids reader ids m" by auto
    with Cons show ?thesis by (metis list.set_intros(2))
  next
    case False
    then show ?thesis
      using Cons.prems
      by (auto simp: mk_resolution_def split: option.splits order_state.splits)
  qed
qed simp

text \<open>
  A reconciliation releases at most one order, one that was pending or named, and only on an answer of the operator
  that it is final or unknown there; when the query fails, or the order still runs, everything stays locked.
\<close>

theorem reconciliation_releases_on_answer:
  assumes "reg_reconcile reader active m = (r, m')"
  shows "m' = m \<or> (\<exists>i s. i \<in> set (reconcile_ids_of active m) \<and> m' = reg_release i m \<and> reader i = Some s
     \<and> ot_status s \<in> {OS_cashed_out, OS_lost, OS_cancelled, OS_not_found} \<and> rr_orderStatus r = Some s)"
  using assms reconcile_ids_released unfolding reg_reconcile_def Let_def by (metis fst_conv snd_conv)

text \<open>
  Only the first pending order is looked at, when its status is one the type names: an order behind one that
  still runs, or whose query fails, is never reconciled.
\<close>

lemma only_first_pending_reconciled:
  assumes "\<not> truthy_str active" "m = (i, v) # rest" "\<And>s. reader i = Some s \<Longrightarrow> ot_status s \<noteq> OS_other"
  shows "reg_reconcile reader active m = reconcile_ids reader [i] m"
  using assms by (auto simp: reg_reconcile_def reconcile_ids_of_def listPending_def Let_def split: option.splits order_state.splits)

text \<open>A cancelled order is reported lost, with the local result and the balance marked as updated.\<close>

lemma cancelled_reported_lost:
  "reader i = Some s \<Longrightarrow> ot_status s = OS_cancelled \<Longrightarrow>
     fst (reconcile_ids reader [i] m) = mk_resolution Res_LOST (Some s) True"
  by simp

text \<open>Identifiers expire only when another one is generated; until then they are found however old they are.\<close>

lemma generated_is_fresh:
  assumes "0 \<le> ttl"
  shows "reg_has coid (reg_generate ttl now coid stake target m)
    \<and> list_all (\<lambda>(_, v). now - po_createdAt v \<le> ttl) (reg_generate ttl now coid stake target m)"
proof
  have "(coid, \<lparr>po_createdAt = now, po_stake = stake, po_target = target\<rparr>)
      \<in> set (reg_generate ttl now coid stake target m)"
    using assms by (induction m) (auto simp: reg_generate_def reg_gc_def)
  then show "reg_has coid (reg_generate ttl now coid stake target m)"
    by (auto simp: reg_has_def map_of_eq_None_iff intro: rev_image_eqI)
qed (auto simp: reg_generate_def reg_gc_def list_all_iff)


section \<open>The lock of the active instance\<close>

text \<open>
  The stored value is the JSON text that carries the token; the two scripts look for the token in it. The commands of
  Redis are parameters with the state of the server as a type variable: \<open>SET key value PX ttl NX\<close>, and the two
  scripts, whose answer is 1 or 0; each can fail.
\<close>

record 'r instance_redis =
  nr_setnx :: "int \<Rightarrow> string \<Rightarrow> string \<Rightarrow> int \<Rightarrow> 'r \<Rightarrow> 'r \<times> set_reply"
  nr_refresh :: "int \<Rightarrow> string \<Rightarrow> string \<Rightarrow> int \<Rightarrow> 'r \<Rightarrow> 'r \<times> bool option"
  nr_release :: "int \<Rightarrow> string \<Rightarrow> string \<Rightarrow> 'r \<Rightarrow> 'r \<times> bool option"

record instance_lock =
  nl_key :: string
  nl_ttlMs :: int
  nl_token :: string
  nl_timer :: bool
  nl_held :: bool

definition nl_tryAcquire :: "'r instance_redis \<Rightarrow> int \<Rightarrow> string \<Rightarrow> instance_lock \<Rightarrow> 'r \<Rightarrow> (instance_lock \<times> 'r) \<times> bool option" where
  "nl_tryAcquire R now value l st =
     (case nr_setnx R now (nl_key l) value (nl_ttlMs l) st of
        (st', Set_OK) \<Rightarrow> ((l\<lparr>nl_held := True, nl_timer := True\<rparr>, st'), Some True)
      | (st', Set_nil) \<Rightarrow> ((l, st'), Some False)
      | (st', Set_throws) \<Rightarrow> ((l, st'), None))"

definition nl_refresh :: "'r instance_redis \<Rightarrow> int \<Rightarrow> instance_lock \<Rightarrow> 'r \<Rightarrow> instance_lock \<times> 'r" where
  "nl_refresh R now l st =
     (if \<not> nl_held l then (l, st)
      else
        (case nr_refresh R now (nl_key l) (nl_token l) (nl_ttlMs l) st of
           (st', Some True) \<Rightarrow> (l, st')
         | (st', Some False) \<Rightarrow> (l\<lparr>nl_held := False\<rparr>, st')
         | (st', None) \<Rightarrow> (l, st')))"

definition nl_release :: "'r instance_redis \<Rightarrow> int \<Rightarrow> instance_lock \<Rightarrow> 'r \<Rightarrow> instance_lock \<times> 'r" where
  "nl_release R now l st =
     (let l1 = l\<lparr>nl_timer := False\<rparr>
      in if \<not> nl_held l1 then (l1, st)
         else (l1\<lparr>nl_held := False\<rparr>, fst (nr_release R now (nl_key l1) (nl_token l1) st)))"

text \<open>
  What Redis documents of the three: a key is set only if it is free or expired, and then for the time to live; a script
  changes the key only if its value contains the token, the refreshing one by a new time to live.
\<close>

definition instance_redis_laws :: "'r instance_redis \<Rightarrow> (string \<Rightarrow> 'r \<Rightarrow> (string \<times> int) option) \<Rightarrow> bool" where
  "instance_redis_laws R entry \<longleftrightarrow>
     (\<forall>now k v ttl st st' a. nr_setnx R now k v ttl st = (st', a) \<longrightarrow>
        (a = Set_OK \<longrightarrow> entry k st' = Some (v, now + ttl)) \<and>
        (\<forall>w e. entry k st = Some (w, e) \<and> now < e \<longrightarrow> a \<noteq> Set_OK \<and> entry k st' = Some (w, e))) \<and>
     (\<forall>now k tok ttl st st' a w e. nr_refresh R now k tok ttl st = (st', a) \<and> entry k st = Some (w, e) \<and> now < e \<longrightarrow>
        (if text_includes w tok
         then a \<noteq> Some False \<and> (entry k st' = Some (w, now + ttl) \<or> a = None \<and> entry k st' = Some (w, e))
         else entry k st' = Some (w, e))) \<and>
     (\<forall>now k tok st w e. entry k st = Some (w, e) \<and> now < e \<and> \<not> text_includes w tok \<longrightarrow>
        entry k (fst (nr_release R now k tok st)) = Some (w, e))"

text \<open>
  What the processes do to the one key. The holder refreshes; the others try, refresh and release with their own tokens.
\<close>

datatype instance_op = Other_try int string | Other_refresh int string | Other_release int string | Own_refresh int

fun op_time :: "instance_op \<Rightarrow> int" where
  "op_time (Other_try t _) = t"
| "op_time (Other_refresh t _) = t"
| "op_time (Other_release t _) = t"
| "op_time (Own_refresh t) = t"

fun foreign :: "string \<Rightarrow> instance_op \<Rightarrow> bool" where
  "foreign v (Other_refresh _ tok) = (\<not> text_includes v tok)"
| "foreign v (Other_release _ tok) = (\<not> text_includes v tok)"
| "foreign v _ = True"

definition other_lock :: "instance_lock \<Rightarrow> string \<Rightarrow> instance_lock" where
  "other_lock l tok = l\<lparr>nl_token := tok, nl_held := True\<rparr>"

fun inst_step :: "'r instance_redis \<Rightarrow> instance_lock \<times> 'r \<Rightarrow> instance_op \<Rightarrow> instance_lock \<times> 'r" where
  "inst_step R (l, st) (Other_try t v) = (l, snd (fst (nl_tryAcquire R t v (other_lock l []) st)))"
| "inst_step R (l, st) (Other_refresh t tok) = (l, snd (nl_refresh R t (other_lock l tok) st))"
| "inst_step R (l, st) (Other_release t tok) = (l, snd (nl_release R t (other_lock l tok) st))"
| "inst_step R (l, st) (Own_refresh t) = nl_refresh R t l st"


text \<open>
  The lease as the holder can know it: it ends a time to live after the acquisition or the last heartbeat that
  was acknowledged. A schedule is on time if every operation, by clocks that do not run backwards, falls within it.
\<close>

definition acknowledged :: "'r instance_redis \<Rightarrow> instance_lock \<times> 'r \<Rightarrow> int \<Rightarrow> bool" where
  "acknowledged R s t \<longleftrightarrow> nl_held (fst s) \<and>
     snd (nr_refresh R t (nl_key (fst s)) (nl_token (fst s)) (nl_ttlMs (fst s)) (snd s)) = Some True"

fun lease_step :: "'r instance_redis \<Rightarrow> int \<times> instance_lock \<times> 'r \<Rightarrow> instance_op \<Rightarrow> int \<times> instance_lock \<times> 'r" where
  "lease_step R (e, s) (Own_refresh t) = (if acknowledged R s t then t + nl_ttlMs (fst s) else e, inst_step R s (Own_refresh t))"
| "lease_step R (e, s) p = (e, inst_step R s p)"

fun on_time :: "'r instance_redis \<Rightarrow> string \<Rightarrow> int \<times> instance_lock \<times> 'r \<Rightarrow> instance_op list \<Rightarrow> bool" where
  "on_time R v x [] = True"
| "on_time R v x (p # ps) =
     (op_time p < fst x \<and> fst x \<le> op_time p + nl_ttlMs (fst (snd x)) \<and> foreign v p \<and> on_time R v (lease_step R x p) ps)"

definition lease_held :: "(string \<Rightarrow> 'r \<Rightarrow> (string \<times> int) option) \<Rightarrow> instance_lock \<Rightarrow> string \<Rightarrow> int \<times> instance_lock \<times> 'r \<Rightarrow> bool" where
  "lease_held entry l v x \<longleftrightarrow>
     (case x of (e, m, st) \<Rightarrow> nl_held m \<and> nl_key m = nl_key l \<and> nl_token m = nl_token l \<and> nl_ttlMs m = nl_ttlMs l \<and>
        (\<exists>e'. e \<le> e' \<and> entry (nl_key l) st = Some (v, e')))"

lemma law_setnx_ok:
  "instance_redis_laws R entry \<Longrightarrow> nr_setnx R now k v ttl st = (st', Set_OK) \<Longrightarrow> entry k st' = Some (v, now + ttl)"
  unfolding instance_redis_laws_def by (drule conjunct1) metis

lemma law_setnx_live:
  "instance_redis_laws R entry \<Longrightarrow> nr_setnx R now k v ttl st = (st', a) \<Longrightarrow> entry k st = Some (w, e) \<Longrightarrow> now < e \<Longrightarrow>
     a \<noteq> Set_OK \<and> entry k st' = Some (w, e)"
  unfolding instance_redis_laws_def by (drule conjunct1) metis

lemma law_refresh:
  assumes "instance_redis_laws R entry" "nr_refresh R now k tok ttl st = (st', a)" "entry k st = Some (w, e)" "now < e"
  shows "if text_includes w tok
    then a \<noteq> Some False \<and> (entry k st' = Some (w, now + ttl) \<or> a = None \<and> entry k st' = Some (w, e))
    else entry k st' = Some (w, e)"
  using assms(1) [unfolded instance_redis_laws_def, THEN conjunct2, THEN conjunct1, rule_format, OF conjI, OF assms(2) conjI,
      OF assms(3,4)] .

lemma law_release:
  "instance_redis_laws R entry \<Longrightarrow> entry k st = Some (w, e) \<Longrightarrow> now < e \<Longrightarrow> \<not> text_includes w tok \<Longrightarrow>
     entry k (fst (nr_release R now k tok st)) = Some (w, e)"
  unfolding instance_redis_laws_def by blast

lemma lease_held_step:
  assumes laws: "instance_redis_laws R entry" and tok: "text_includes v (nl_token l)"
    and x: "lease_held entry l v x" and p: "op_time p < fst x" "fst x \<le> op_time p + nl_ttlMs (fst (snd x))" "foreign v p"
  shows "lease_held entry l v (lease_step R x p)"
proof -
  obtain e m st where xs: "x = (e, m, st)" by (cases x)
  with x obtain e' where m: "nl_held m" "nl_key m = nl_key l" "nl_token m = nl_token l" "nl_ttlMs m = nl_ttlMs l"
    and e': "e \<le> e'" "entry (nl_key l) st = Some (v, e')"
    by (auto simp: lease_held_def)
  have live: "op_time p < e'" using p(1) e'(1) by (simp add: xs)
  show ?thesis
  proof (cases p)
    case (Other_try t w)
    obtain st' a where s: "nr_setnx R t (nl_key l) w (nl_ttlMs l) st = (st', a)"
      by (cases "nr_setnx R t (nl_key l) w (nl_ttlMs l) st")
    then have "entry (nl_key l) st' = Some (v, e')"
      using law_setnx_live [OF laws s e'(2)] live by (simp add: Other_try)
    with s m e' show ?thesis
      by (auto simp: xs Other_try lease_held_def nl_tryAcquire_def other_lock_def split: set_reply.splits)
  next
    case (Other_refresh t tok')
    obtain st' a where s: "nr_refresh R t (nl_key l) tok' (nl_ttlMs l) st = (st', a)"
      by (cases "nr_refresh R t (nl_key l) tok' (nl_ttlMs l) st")
    then have "entry (nl_key l) st' = Some (v, e')"
      using law_refresh [OF laws s e'(2)] live p(3) by (simp add: Other_refresh)
    with s m e' show ?thesis
      by (auto simp: xs Other_refresh lease_held_def nl_refresh_def other_lock_def split: option.splits bool.splits)
  next
    case (Other_release t tok')
    then have "entry (nl_key l) (fst (nr_release R t (nl_key l) tok' st)) = Some (v, e')"
      using law_release [OF laws e'(2)] live p(3) by simp
    with m e' show ?thesis
      by (auto simp: xs Other_release lease_held_def nl_release_def other_lock_def Let_def)
  next
    case (Own_refresh t)
    obtain st' a where s: "nr_refresh R t (nl_key l) (nl_token l) (nl_ttlMs l) st = (st', a)"
      by (cases "nr_refresh R t (nl_key l) (nl_token l) (nl_ttlMs l) st")
    then have a: "a \<noteq> Some False"
      "entry (nl_key l) st' = Some (v, t + nl_ttlMs l) \<or> a = None \<and> entry (nl_key l) st' = Some (v, e')"
      using law_refresh [OF laws s e'(2)] live tok by (simp_all add: Own_refresh)
    have "e \<le> t + nl_ttlMs l" using p(2) m(4) by (simp add: xs Own_refresh)
    with s a m e' show ?thesis
      by (auto simp: xs Own_refresh lease_held_def nl_refresh_def acknowledged_def split: option.splits bool.splits)
  qed
qed

text \<open>
  One active instance: after an instance acquired the lock with a value that carries its token, and as long as every
  operation falls within the lease that the last acknowledged heartbeat gives it, no other instance acquires
  it before that lease ends, and the holder still counts itself as active. Redis is assumed to do what
  it documents; heartbeats may fail.
\<close>

theorem active_instance_excludes:
  assumes "instance_redis_laws R entry" "text_includes v (nl_token l)"
    and "nl_tryAcquire R t0 v l st = ((l', st'), Some True)"
    and "on_time R v (t0 + nl_ttlMs l, l', st') ps"
    and "foldl (lease_step R) (t0 + nl_ttlMs l, l', st') ps = (e, m, st'')" "t < e" "nl_key other = nl_key l"
  shows "snd (nl_tryAcquire R t w other st'') \<noteq> Some True \<and> nl_held m"
proof -
  have run: "lease_held entry l v (foldl (lease_step R) x ps)" if "lease_held entry l v x" "on_time R v x ps" for x
    using that
  proof (induction ps arbitrary: x)
    case (Cons p ps)
    then show ?case using lease_held_step [OF assms(1,2) Cons.prems(1)] by simp
  qed simp
  obtain a where s: "nr_setnx R t0 (nl_key l) v (nl_ttlMs l) st = (st', a)" "a = Set_OK" "l' = l\<lparr>nl_held := True, nl_timer := True\<rparr>"
    using assms(3) by (auto simp: nl_tryAcquire_def split: prod.splits set_reply.splits)
  then have "lease_held entry l v (t0 + nl_ttlMs l, l', st')"
    using law_setnx_ok [OF assms(1)] by (auto simp: lease_held_def)
  from run [OF this assms(4)] obtain e' where held: "nl_held m" "e \<le> e'" "entry (nl_key l) st'' = Some (v, e')"
    by (auto simp: assms(5) lease_held_def)
  obtain st3 b where reply: "nr_setnx R t (nl_key l) w (nl_ttlMs other) st'' = (st3, b)"
    by (cases "nr_setnx R t (nl_key l) w (nl_ttlMs other) st''")
  from law_setnx_live [OF assms(1) reply held(3)] have "b \<noteq> Set_OK" using assms(6) held(2) by simp
  with reply held(1) show ?thesis
    by (simp add: nl_tryAcquire_def assms(7) split: set_reply.splits)
qed


text \<open>A server that keeps its word; \<open>up\<close> says whether it answers the scripts.\<close>

definition live_entry :: "int \<Rightarrow> string \<Rightarrow> (string \<rightharpoonup> string \<times> int) \<Rightarrow> string option" where
  "live_entry now k st = (case st k of Some (w, e) \<Rightarrow> if now < e then Some w else None | None \<Rightarrow> None)"

definition demo_server :: "bool \<Rightarrow> (string \<rightharpoonup> string \<times> int) instance_redis" where
  "demo_server up =
     \<lparr>nr_setnx = (\<lambda>now k v ttl st. if live_entry now k st = None then (st(k \<mapsto> (v, now + ttl)), Set_OK) else (st, Set_nil)),
      nr_refresh = (\<lambda>now k tok ttl st. if \<not> up then (st, None)
         else (case live_entry now k st of
                 Some w \<Rightarrow> if text_includes w tok then (st(k \<mapsto> (w, now + ttl)), Some True) else (st, Some False)
               | None \<Rightarrow> (st, Some False))),
      nr_release = (\<lambda>now k tok st. if \<not> up then (st, None)
         else (case live_entry now k st of
                 Some w \<Rightarrow> if text_includes w tok then (st(k := None), Some True) else (st, Some False)
               | None \<Rightarrow> (st, Some False)))\<rparr>"

lemma demo_server_laws: "instance_redis_laws (demo_server up) (\<lambda>k st. st k)"
  unfolding instance_redis_laws_def demo_server_def
  by (intro conjI allI impI; auto simp: live_entry_def split: option.splits if_splits)

definition demo_instance :: "string \<Rightarrow> instance_lock" where
  "demo_instance tok = \<lparr>nl_key = ''active'', nl_ttlMs = 30000, nl_token = tok, nl_timer = False, nl_held = False\<rparr>"

lemmas instance_eval = nl_tryAcquire_def nl_refresh_def demo_server_def demo_instance_def live_entry_def other_lock_def
  acknowledged_def

theorem active_instance_excludes_witness:
  "snd (nl_tryAcquire (demo_server True) 35000 ''other b'' (demo_instance ''b'')
     (snd (snd (foldl (lease_step (demo_server True))
       (30000, (demo_instance ''a'')\<lparr>nl_held := True, nl_timer := True\<rparr>, [''active'' \<mapsto> (''value a'', 30000)])
       [Other_try 5000 ''other b'', Own_refresh 10000])))) \<noteq> Some True"
proof -
  let ?R = "demo_server True"
  let ?x = "(30000, (demo_instance ''a'')\<lparr>nl_held := True, nl_timer := True\<rparr>, [''active'' \<mapsto> (''value a'', 30000)])"
  let ?ps = "[Other_try 5000 ''other b'', Own_refresh 10000]"
  have inc: "text_includes ''value a'' (nl_token (demo_instance ''a''))" by (simp add: demo_instance_def)
  have acq: "nl_tryAcquire ?R 0 ''value a'' (demo_instance ''a'') Map.empty =
      (((demo_instance ''a'')\<lparr>nl_held := True, nl_timer := True\<rparr>, [''active'' \<mapsto> (''value a'', 30000)]), Some True)"
    by (simp add: instance_eval)
  obtain e m st where fin: "foldl (lease_step ?R) ?x ?ps = (e, m, st)" by (cases "foldl (lease_step ?R) ?x ?ps")
  then have "e = 40000" by (simp add: instance_eval)
  moreover have "on_time ?R ''value a'' ?x ?ps" by (simp add: instance_eval)
  moreover have "0 + nl_ttlMs (demo_instance ''a'') = 30000" "nl_key (demo_instance ''b'') = nl_key (demo_instance ''a'')"
    by (simp_all add: demo_instance_def)
  ultimately show ?thesis
    using active_instance_excludes [OF demo_server_laws inc acq, of ?ps e m st 35000 "demo_instance ''b''" "''other b''"] fin
    by simp
qed

text \<open>
  A heartbeat that fails changes nothing: when the server answers no more scripts the lease runs out, another instance
  acquires, and the first still counts itself as active. And the holder that tries again is told no.
\<close>

lemma failing_heartbeat_two_active:
  "nl_held (fst (foldl (inst_step (demo_server False))
       ((demo_instance ''a'')\<lparr>nl_held := True\<rparr>, [''active'' \<mapsto> (''value a'', 30000)]) [Own_refresh 10000, Own_refresh 20000, Own_refresh 30000]))
   \<and> snd (nl_tryAcquire (demo_server False) 30001 ''other b'' (demo_instance ''b'')
       (snd (foldl (inst_step (demo_server False))
         ((demo_instance ''a'')\<lparr>nl_held := True\<rparr>, [''active'' \<mapsto> (''value a'', 30000)])
         [Own_refresh 10000, Own_refresh 20000, Own_refresh 30000]))) = Some True"
  by (simp add: instance_eval)

lemma holder_cannot_reacquire:
  "instance_redis_laws R entry \<Longrightarrow> entry (nl_key l) st = Some (v, e) \<Longrightarrow> now < e \<Longrightarrow>
     snd (nl_tryAcquire R now w l st) \<noteq> Some True"
  by (cases "nr_setnx R now (nl_key l) w (nl_ttlMs l) st")
    (auto simp: nl_tryAcquire_def split: set_reply.splits dest: law_setnx_live)

end
