(* ===== verification/ConfigTree.thy ===== *)
theory ConfigTree
  imports JsNumber "HOL-Library.AList" "HOL-Library.Sublist"
begin

text \<open>
  The configuration as the operator's commands see it: a tree of values, read and written along a dotted
  path by \<open>getConfigValue\<close> and \<open>setConfigValue\<close> of \<open>src/src/app/composition.ts\<close>, and the coercion \<open>Number\<close> of
  a text. An object is the association list of its own properties in the order they were added; an array is
  the object of its indices. Paths through what every object inherits (\<open>__proto__\<close>, \<open>constructor\<close>) and the
  \<open>length\<close> of texts and arrays are outside the model.
\<close>

section \<open>\<open>Number\<close> of a text\<close>

definition js_trim :: "string \<Rightarrow> string" where
  "js_trim s = rev (dropWhile js_space (rev (dropWhile js_space s)))"

definition digit_of :: "char \<Rightarrow> nat option" where
  "digit_of c =
     (let n = of_char c :: nat
      in if 48 \<le> n \<and> n \<le> 57 then Some (n - 48)
         else if 97 \<le> n \<and> n \<le> 122 then Some (n - 87)
         else if 65 \<le> n \<and> n \<le> 90 then Some (n - 55) else None)"

fun digits :: "nat \<Rightarrow> nat \<Rightarrow> string \<Rightarrow> nat option" where
  "digits base acc [] = Some acc"
| "digits base acc (c # cs) =
     (case digit_of c of
        Some d \<Rightarrow> if d < base then digits base (acc * base + d) cs else None
      | None \<Rightarrow> None)"

definition int_literal :: "nat \<Rightarrow> string \<Rightarrow> nat option" where
  "int_literal base s = (if s = '''' then None else digits base 0 s)"

text \<open>\<open>StrUnsignedDecimalLiteral\<close>: digits with at most one point, and an optional exponent.\<close>

definition unsigned_decimal :: "string \<Rightarrow> rat option" where
  "unsigned_decimal s =
     (let plain = (\<lambda>c. c \<noteq> CHR ''e'' \<and> c \<noteq> CHR ''E'');
          m = takeWhile plain s; e = dropWhile plain s;
          whole = takeWhile (\<lambda>c. c \<noteq> CHR ''.'') m; frac = drop (length whole + 1) m;
          power = (case e of
              [] \<Rightarrow> Some 0
            | _ # ds \<Rightarrow>
                if take 1 ds = ''-'' then map_option (\<lambda>n. - int n) (int_literal 10 (drop 1 ds))
                else map_option int (int_literal 10 (if take 1 ds = ''+'' then drop 1 ds else ds)))
      in if whole = '''' \<and> frac = '''' then None
         else case (digits 10 0 (whole @ frac), power) of
             (Some n, Some p) \<Rightarrow> Some (of_nat n * 10 powi (p - int (length frac)))
           | _ \<Rightarrow> None)"

definition unsigned_number :: "string \<Rightarrow> jsnum" where
  "unsigned_number s =
     (if s = ''Infinity'' then PInf
      else case unsigned_decimal s of Some q \<Rightarrow> rnd q | None \<Rightarrow> NaN)"

definition radix_prefix :: "string \<Rightarrow> nat option" where
  "radix_prefix s =
     (if take 2 s = ''0x'' \<or> take 2 s = ''0X'' then Some 16
      else if take 2 s = ''0o'' \<or> take 2 s = ''0O'' then Some 8
      else if take 2 s = ''0b'' \<or> take 2 s = ''0B'' then Some 2 else None)"

definition Number_str :: "string \<Rightarrow> jsnum" where
  "Number_str text =
     (let s = js_trim text
      in if s = '''' then Fin 0
         else case radix_prefix s of
             Some base \<Rightarrow> (case int_literal base (drop 2 s) of Some n \<Rightarrow> jsint (int n) | None \<Rightarrow> NaN)
           | None \<Rightarrow>
               if take 1 s = ''-'' then jneg (unsigned_number (drop 1 s))
               else unsigned_number (if take 1 s = ''+'' then drop 1 s else s))"

section \<open>The tree\<close>

datatype json = J_null | J_bool bool | J_num jsnum | J_str string | J_obj "(string \<times> json) list"

text \<open>\<open>Number(v)\<close>, for a value that may be \<open>undefined\<close>.\<close>

fun to_number :: "json option \<Rightarrow> jsnum" where
  "to_number None = NaN"
| "to_number (Some J_null) = Fin 0"
| "to_number (Some (J_bool b)) = (if b then Fin 1 else Fin 0)"
| "to_number (Some (J_num x)) = x"
| "to_number (Some (J_str s)) = Number_str s"
| "to_number (Some (J_obj _)) = NaN"

text \<open>\<open>v?.[k]\<close>: no value for a missing property, or of a value that is no object.\<close>

fun property :: "json option \<Rightarrow> string \<Rightarrow> json option" where
  "property (Some (J_obj kvs)) k = map_of kvs k"
| "property _ _ = None"

fun split_dot :: "string \<Rightarrow> string list" where
  "split_dot [] = [[]]"
| "split_dot (c # cs) =
     (if c = CHR ''.'' then [] # split_dot cs
      else case split_dot cs of [] \<Rightarrow> [[c]] | p # ps \<Rightarrow> (c # p) # ps)"

fun get_path :: "json option \<Rightarrow> string list \<Rightarrow> json option" where
  "get_path v [] = v"
| "get_path v (p # ps) = (case v of Some (J_obj kvs) \<Rightarrow> get_path (map_of kvs p) ps | _ \<Rightarrow> None)"

definition getConfigValue :: "string \<Rightarrow> json \<Rightarrow> json option" where
  "getConfigValue key config = get_path (Some config) (split_dot key)"

text \<open>The walk to the parent, which must exist, and the assignment there; \<^const>\<open>None\<close>: refused.\<close>

fun put_path :: "string list \<Rightarrow> json \<Rightarrow> json \<Rightarrow> json option" where
  "put_path [k] v (J_obj kvs) = Some (J_obj (AList.update k v kvs))"
| "put_path (p # q # ps) v (J_obj kvs) =
     (case map_of kvs p of
        Some sub \<Rightarrow> map_option (\<lambda>t. J_obj (AList.update p t kvs)) (put_path (q # ps) v sub)
      | None \<Rightarrow> None)"
| "put_path _ _ _ = None"

definition system_modes :: "string list" where
  "system_modes = [''observe-only'', ''dry-run'', ''live'', ''maintenance'']"

definition positive_keys :: "string list" where
  "positive_keys = [''stakePerEntry'', ''cashOutTarget'', ''maxDailyEntries'']"

text \<open>What is stored for the text of a \<open>/config set\<close>, by the last part of the path.\<close>

definition config_value :: "string \<Rightarrow> string \<Rightarrow> json option" where
  "config_value final text =
     (let num = Number_str text
      in if final \<in> set positive_keys
         then (if \<not> is_fin num \<or> jle num (Fin 0) then None else Some (J_num num))
         else if final = ''mode'' then (if text \<in> set system_modes then Some (J_str text) else None)
         else Some (J_str text))"

definition setConfigValue :: "string \<Rightarrow> string \<Rightarrow> json \<Rightarrow> bool \<times> json" where
  "setConfigValue key text config =
     (case config_value (last (split_dot key)) text of
        None \<Rightarrow> (False, config)
      | Some v \<Rightarrow>
          (case put_path (split_dot key) v config of
             None \<Rightarrow> (False, config)
           | Some config' \<Rightarrow> (True, config')))"

section \<open>Reading back\<close>

lemma get_path_put_same: "put_path ps v t = Some t' \<Longrightarrow> get_path (Some t') ps = Some v"
  by (induction ps v t arbitrary: t' rule: put_path.induct) (auto simp: update_conv' split: option.splits)

lemma get_path_put_other:
  "put_path ps v t = Some t' \<Longrightarrow> \<not> prefix ps qs \<Longrightarrow> \<not> prefix qs ps \<Longrightarrow>
     get_path (Some t') qs = get_path (Some t) qs"
proof (induction ps v t arbitrary: t' qs rule: put_path.induct)
  case (1 k v kvs)
  then show ?case by (cases qs) (auto simp: update_conv')
next
  case (2 p q ps v kvs)
  then show ?case by (cases qs) (auto simp: update_conv' split: option.splits)
qed auto

lemma get_path_put_above:
  "put_path (xs @ y # ys) v t = Some t' \<Longrightarrow> \<exists>kvs. get_path (Some t') xs = Some (J_obj kvs)"
proof (induction xs arbitrary: t t')
  case Nil
  then show ?case by (cases ys; cases t) (auto split: option.splits)
next
  case (Cons x xs)
  obtain z zs where tail: "xs @ y # ys = z # zs" by (cases xs) auto
  with Cons.prems obtain kvs sub t1 where "t = J_obj kvs" "map_of kvs x = Some sub"
    "put_path (z # zs) v sub = Some t1" "t' = J_obj (AList.update x t1 kvs)"
    by (cases t) (auto split: option.splits)
  with Cons.IH [of sub t1] tail show ?case by (auto simp: update_conv')
qed

lemma split_dot_nonempty [simp]: "split_dot s \<noteq> []"
  by (cases s) (auto split: list.split)

lemma get_path_into_object:
  "get_path (Some t) ps = Some (J_obj kvs) \<Longrightarrow> \<exists>kvs. t = J_obj kvs"
  by (cases ps) (auto split: json.splits)

lemma put_path_exists_iff:
  "ps \<noteq> [] \<Longrightarrow> (\<exists>t'. put_path ps v t = Some t') \<longleftrightarrow> (\<exists>kvs. get_path (Some t) (butlast ps) = Some (J_obj kvs))"
proof (induction ps v t rule: put_path.induct)
  case (2 p q ps v kvs)
  then show ?case by (auto split: option.split)
qed (auto dest: get_path_into_object)

section \<open>Decimal texts\<close>

lemma digit_of_digit_char: "d < 10 \<Longrightarrow> digit_of (digit_char d) = Some d"
  by (simp add: digit_of_def digit_char_def Let_def)

lemma digits_append: "digits b a (xs @ ys) = (case digits b a xs of Some n \<Rightarrow> digits b n ys | None \<Rightarrow> None)"
  by (induction xs arbitrary: a) (auto split: option.split)

lemma digits_nat_str: "digits 10 0 (nat_str n) = Some n"
proof (induction n rule: nat_str.induct)
  case (1 n)
  then show ?case by (subst nat_str.simps) (simp add: digits_append digit_of_digit_char)
qed

lemma nat_str_chars: "c \<in> set (nat_str n) \<Longrightarrow> \<exists>d < 10. c = digit_char d"
proof (induction n rule: nat_str.induct)
  case (1 n)
  have "\<exists>d < 10. digit_char (n mod 10) = digit_char d" by (rule exI [of _ "n mod 10"]) simp
  with 1 show ?case by (subst (asm) nat_str.simps) (auto split: if_splits)
qed

lemma nat_str_nonempty [simp]: "nat_str n \<noteq> []"
  by (subst nat_str.simps) simp


lemma digit_char_code: "d < 10 \<Longrightarrow> of_char (digit_char d) = 48 + d"
  by (simp add: digit_char_def)

lemma nat_str_code: "c \<in> set (nat_str n) \<Longrightarrow> 48 \<le> (of_char c :: nat) \<and> (of_char c :: nat) < 58"
  using nat_str_chars [of c n] digit_char_code by fastforce

lemma nat_str_no: "\<not> (48 \<le> (of_char c :: nat) \<and> (of_char c :: nat) < 58) \<Longrightarrow> c \<notin> set (nat_str n)"
  using nat_str_code by blast

lemma js_trim_id: "\<forall>c \<in> set s. \<not> js_space c \<Longrightarrow> js_trim s = s"
proof -
  have drop: "\<forall>c \<in> set xs. \<not> js_space c \<Longrightarrow> dropWhile js_space xs = xs" for xs
    by (cases xs) auto
  assume "\<forall>c \<in> set s. \<not> js_space c"
  then show ?thesis by (simp add: js_trim_def drop)
qed

lemma radix_prefix_digits:
  assumes "\<forall>c \<in> set s. 48 \<le> (of_char c :: nat) \<and> (of_char c :: nat) < 58"
  shows "radix_prefix s = None"
proof -
  have "take 2 s \<noteq> [c, d]" if "58 \<le> (of_char d :: nat)" for c d
  proof
    assume "take 2 s = [c, d]"
    then have "d \<in> set s" using in_set_takeD [of d 2 s] by simp
    with assms that show False by auto
  qed
  then show ?thesis by (simp add: radix_prefix_def)
qed

text \<open>\<open>Number\<close> reads back what printing a natural number wrote.\<close>

lemma unsigned_decimal_nat_str: "unsigned_decimal (nat_str n) = Some (of_nat n)"
proof -
  have "CHR ''.'' \<notin> set (nat_str n)" "CHR ''e'' \<notin> set (nat_str n)" "CHR ''E'' \<notin> set (nat_str n)"
    by (rule nat_str_no; simp)+
  then have "takeWhile (\<lambda>c. c \<noteq> CHR ''e'' \<and> c \<noteq> CHR ''E'') (nat_str n) = nat_str n"
    "dropWhile (\<lambda>c. c \<noteq> CHR ''e'' \<and> c \<noteq> CHR ''E'') (nat_str n) = []"
    "takeWhile (\<lambda>c. c \<noteq> CHR ''.'') (nat_str n) = nat_str n"
    by (auto simp: takeWhile_eq_all_conv dropWhile_eq_Nil_conv simp del: takeWhile_eq_all_conv [symmetric])
  then show ?thesis by (simp only: unsigned_decimal_def Let_def) (simp add: digits_nat_str)
qed

lemma Number_nat_str: "Number_str (nat_str n) = jsint (int n)"
proof -
  have codes: "\<forall>c \<in> set (nat_str n). 48 \<le> (of_char c :: nat) \<and> (of_char c :: nat) < 58"
    using nat_str_code by blast
  then have trim: "js_trim (nat_str n) = nat_str n"
    by (intro js_trim_id) (auto simp: js_space_def Let_def)
  obtain c cs where s: "nat_str n = c # cs" by (cases "nat_str n") auto
  with codes have "c \<noteq> CHR ''-''" "c \<noteq> CHR ''+''" "c \<noteq> CHR ''I''" by auto
  then show ?thesis
    using trim radix_prefix_digits [OF codes] unsigned_decimal_nat_str [of n]
    by (simp add: Number_str_def unsigned_number_def jsint_def s Let_def)
qed

section \<open>Properties\<close>

text \<open>
  C35. A change of the configuration that is accepted is read back under its key as exactly the value that was
  stored, and every key that is neither above nor below it on the path keeps its value; a change that is refused
  changes nothing.
\<close>

theorem config_change_reads_back:
  assumes "\<not> prefix (split_dot key) (split_dot other)" and "\<not> prefix (split_dot other) (split_dot key)"
  shows "case setConfigValue key text config of
      (True, config') \<Rightarrow>
        getConfigValue key config' = config_value (last (split_dot key)) text \<and>
        getConfigValue other config' = getConfigValue other config
    | (False, config') \<Rightarrow> config' = config"
  using get_path_put_other [OF _ assms]
  by (auto simp: setConfigValue_def getConfigValue_def get_path_put_same split: option.split)

definition demo_config :: json where
  "demo_config = J_obj [(''system'', J_obj [(''mode'', J_str ''dry-run'')]),
     (''betting'', J_obj [(''stakePerEntry'', J_num (Fin 700)), (''cashOutTarget'', J_num (lit (13/10)))])]"

theorem config_change_reads_back_witness:
  "case setConfigValue ''betting.stakePerEntry'' ''250'' demo_config of
      (True, config') \<Rightarrow>
        getConfigValue ''betting.stakePerEntry'' config' = config_value (last (split_dot ''betting.stakePerEntry'')) ''250'' \<and>
        getConfigValue ''system.mode'' config' = getConfigValue ''system.mode'' demo_config
    | (False, config') \<Rightarrow> config' = demo_config"
  by (rule config_change_reads_back) simp_all

text \<open>The key in the property is really accepted, and a number is stored.\<close>

lemma stake_change_accepted:
  "0 < n \<Longrightarrow> n < 2 ^ 53 \<Longrightarrow>
     getConfigValue ''betting.stakePerEntry'' (snd (setConfigValue ''betting.stakePerEntry'' (nat_str n) demo_config)) =
       Some (J_num (Fin (of_nat n)))"
  using rnd_of_int [of "int n"]
  by (simp add: setConfigValue_def getConfigValue_def config_value_def Number_nat_str positive_keys_def demo_config_def
      jsint_def jle_def Let_def)

text \<open>
  The keys \<open>/config show\<close> asks for are no paths of the configuration, and a whole section can be replaced by a text.
\<close>

lemma config_show_knows_no_value:
  "map (\<lambda>k. getConfigValue k demo_config) [''mode'', ''stakePerEntry'', ''cashOutTarget'', ''maxDailyEntries''] =
     [None, None, None, None]"
  by (simp add: getConfigValue_def demo_config_def)

lemma section_replaced_by_text:
  "setConfigValue ''betting'' ''700'' demo_config =
     (True, J_obj [(''system'', J_obj [(''mode'', J_str ''dry-run'')]), (''betting'', J_str ''700'')])"
  by (simp add: setConfigValue_def config_value_def positive_keys_def demo_config_def)

end
