(* ===== verification/System.thy ===== *)
theory System
  imports ConfigTree DryRun LiveExecution Supervisor
begin

text \<open>
  The composition root \<open>src/src/app/composition.ts\<close> with the dry-run bridge
  \<open>src/src/core/dry-run/dry-run-bridge.ts\<close>: how the configuration, the dry-run controller, the live bridge, the
  session supervisor and the commands of the operator are put together. The state holds the modelled components; an
  event is a call into the composition, with what the outside answers during it.

  The evaluation of a round for the dry run takes three turns of the event loop: the start of the round, the end of
  the evaluation, the booking of its signal. The turns of several rounds and every other event interleave; each
  other handler is one step.
\<close>

section \<open>Reading the configuration\<close>

text \<open>\<open>config.section?.key ?? default\<close>, as a number.\<close>

definition config_entry :: "json \<Rightarrow> string \<Rightarrow> string \<Rightarrow> json option" where
  "config_entry config sec k =
     (case property (property (Some config) sec) k of Some J_null \<Rightarrow> None | v \<Rightarrow> v)"

definition config_number :: "json \<Rightarrow> string \<Rightarrow> string \<Rightarrow> jsnum option" where
  "config_number config sec k = map_option (\<lambda>v. to_number (Some v)) (config_entry config sec k)"

text \<open>\<open>config.system?.mode\<close>: by the schema and by \<open>setConfigValue\<close> it is a text when it is there.\<close>

definition config_mode :: "json \<Rightarrow> string option" where
  "config_mode config = (case config_entry config ''system'' ''mode'' of Some (J_str s) \<Rightarrow> Some s | _ \<Rightarrow> None)"

text \<open>A limit that the risk engine compares with an integer count; \<open>0\<close> for one nothing is below.\<close>

fun count_limit :: "jsnum \<Rightarrow> int" where
  "count_limit (Fin q) = \<lceil>q\<rceil>"
| "count_limit PInf = 9007199254740992"
| "count_limit _ = 0"

definition bridge_config_of :: "json \<Rightarrow> bridge_config" where
  "bridge_config_of config =
     \<lparr>bc_mode = config_mode config,
      bc_stakePerEntry = config_number config ''betting'' ''stakePerEntry'',
      bc_cashOutTarget = config_number config ''betting'' ''cashOutTarget'',
      bc_maxDailyEntries = map_option count_limit (config_number config ''betting'' ''maxDailyEntries''),
      bc_balanceBuffer = config_number config ''risk'' ''balanceBuffer'',
      bc_maxConsecutiveErrors = map_option count_limit (config_number config ''risk'' ''maxConsecutiveErrorsBeforeStop''),
      bc_maxCashOutFailures = map_option count_limit (config_number config ''risk'' ''maxCashOutFailuresBeforeStop''),
      bc_minPredictionProbability = config_number config ''risk'' ''minPredictionProbability'',
      bc_minPredictionConfidence = config_number config ''risk'' ''minPredictionConfidence''\<rparr>"

section \<open>State\<close>

text \<open>A row of \<open>runtime.recentTrades\<close>.\<close>

record mirror_row =
  mr_id :: string
  mr_signalId :: "string option"
  mr_predictionId :: "string option"
  mr_roundId :: string
  mr_stake :: jsnum
  mr_target :: jsnum
  mr_status :: trade_status
  mr_openedAt :: string
  mr_crashPoint :: "jsnum option"
  mr_pnl :: "jsnum option"
  mr_resolvedAt :: "string option"

text \<open>An evaluation that is under way: before its result, or with a signal that is not booked yet.\<close>

datatype in_flight = Evaluating string jsnum | Signalled string entry_signal

text \<open>
  \<open>ap_ledger\<close> is the ledger the composition makes, \<open>ap_dryRun\<close> has its own; \<open>ap_wired\<close>: the subscriptions to the
  event bus exist; \<open>ap_resuming\<close> counts the calls of \<open>resumeSystem\<close> that wait for the supervisor. Ghost fields: the calls of \<open>observeCrash\<close>, and the clicks on the buttons that place a bet or
  cash one out.
\<close>

record 's app =
  ap_config :: json
  ap_sessionId :: string
  ap_recentTrades :: "mirror_row list"
  ap_halted :: bool
  ap_haltReason :: "string option"
  ap_currentMode :: string
  ap_dryRun :: dry_run_controller
  ap_ledger :: virtual_ledger
  ap_supervisor :: supervisor
  ap_liveExecutor :: live_executor
  ap_bridge :: "'s bridge_state"
  ap_inFlight :: "in_flight list"
  ap_started :: bool
  ap_wired :: bool
  ap_resuming :: nat
  ap_learned :: "(string \<times> jsnum) list"
  ap_placeClicks :: nat
  ap_cashOutClicks :: nat

definition or_number :: "jsnum option \<Rightarrow> jsnum \<Rightarrow> jsnum" where
  "or_number v d = (case v of Some x \<Rightarrow> x | None \<Rightarrow> d)"

definition dry_run_config_of :: "json \<Rightarrow> dry_run_config" where
  "dry_run_config_of config = DEFAULT_CFG
     \<lparr>dr_stake := or_number (config_number config ''dryRun'' ''stake'') NaN,
      dr_target := or_number (config_number config ''dryRun'' ''target'') NaN,
      dr_minProbability := or_number (config_number config ''dryRun'' ''minProbability'') NaN,
      dr_minConfidence := or_number (config_number config ''dryRun'' ''minConfidence'') NaN\<rparr>"

definition composeApplication :: "json \<Rightarrow> string \<Rightarrow> virtual_ledger option \<Rightarrow> string \<Rightarrow> 's \<Rightarrow> 's app" where
  "composeApplication config sessionId shared today store =
     \<lparr>ap_config = config, ap_sessionId = sessionId, ap_recentTrades = [], ap_halted = False,
      ap_haltReason = None, ap_currentMode = or_else (config_mode config) '''',
      ap_dryRun = ct_new (dry_run_config_of config) shared today,
      ap_ledger = vl_new (or_number (config_number config ''dryRun'' ''initialVirtualBalance'') NaN),
      ap_supervisor = sv_new (Some sessionId),
      ap_liveExecutor = \<lparr>le_stopped = False, le_config = live_default\<lparr>lc_systemMode := config_mode config\<rparr>\<rparr>,
      ap_bridge = \<lparr>bs_openLiveBets = [], bs_cashOut = Some \<lparr>lo_stopped = False, lo_targetMultiplier = lit (13/10),
        lo_systemMode = config_mode config\<rparr>, bs_store = store\<rparr>,
      ap_inFlight = [], ap_started = False, ap_wired = False, ap_resuming = 0, ap_learned = [], ap_placeClicks = 0,
      ap_cashOutClicks = 0\<rparr>"

section \<open>The mirrored trades\<close>

text \<open>\<open>unshift\<close>, and the truncation to 50 rows.\<close>

definition mirror_open :: "mirror_row \<Rightarrow> 's app \<Rightarrow> 's app" where
  "mirror_open t a = a\<lparr>ap_recentTrades := take 50 (t # ap_recentTrades a)\<rparr>"

text \<open>\<open>sig.stake\<close> is absent only for other callers; the target of the row is the signal's own.\<close>

definition wrapped_evaluate ::
  "int \<Rightarrow> string \<Rightarrow> string \<Rightarrow> string \<Rightarrow> string \<Rightarrow> dry_run_signal \<Rightarrow> 's app \<Rightarrow> dry_run_reason option \<times> 's app" where
  "wrapped_evaluate now today stamp uuid vtid sig a =
     (let (reason, c') = evaluateAndSimulate now today uuid sig (ap_dryRun a);
          a1 = a\<lparr>ap_dryRun := c'\<rparr>
      in (reason,
          if reason = None
          then mirror_open \<lparr>mr_id = vtid, mr_signalId = Some (dsg_signalId sig),
              mr_predictionId = dsg_predictionId sig, mr_roundId = dsg_roundId sig,
              mr_stake = or_else (dsg_stake sig) (or_number (config_number (ap_config a1) ''dryRun'' ''stake'') NaN),
              mr_target = dsg_target sig, mr_status = V_OPEN, mr_openedAt = stamp, mr_crashPoint = None,
              mr_pnl = None, mr_resolvedAt = None\<rparr> a1
          else a1))"

definition resolve_row :: "string \<Rightarrow> string \<Rightarrow> jsnum \<Rightarrow> mirror_row \<Rightarrow> mirror_row" where
  "resolve_row stamp rid crash t =
     (if mr_roundId t = rid \<and> mr_status t = V_OPEN
      then let win = jle (mr_target t) crash
           in t\<lparr>mr_status := (if win then V_WIN else V_LOSS), mr_crashPoint := Some crash,
                mr_pnl := Some (if win then jmul (mr_stake t) (jsub (mr_target t) (Fin 1)) else jneg (mr_stake t)),
                mr_resolvedAt := Some stamp\<rparr>
      else t)"

definition wrapped_roundCompleted :: "int \<Rightarrow> string \<Rightarrow> string \<Rightarrow> jsnum \<Rightarrow> 's app \<Rightarrow> 's app" where
  "wrapped_roundCompleted now stamp rid crash a =
     a\<lparr>ap_dryRun := ct_onRoundCompleted now rid crash (ap_dryRun a),
       ap_recentTrades := map (resolve_row stamp rid crash) (ap_recentTrades a)\<rparr>"

section \<open>The dry-run bridge\<close>

text \<open>
  The start of a round up to the first turn. The risk input is built there: its balance is that of the
  composition's ledger.
\<close>

definition onRoundStartedForDryRun :: "string \<Rightarrow> 's app \<Rightarrow> 's app" where
  "onRoundStartedForDryRun rid a =
     (let mode = toLowerCase (or_else (config_mode (ap_config a)) ''dry-run'')
      in if mode \<noteq> ''dry-run'' \<and> mode \<noteq> ''observe-only'' then a
         else if \<not> ct_running (ap_dryRun a) then a
         else a\<lparr>ap_dryRun := recordPrediction (ap_dryRun a),
                ap_inFlight := ap_inFlight a @ [Evaluating rid (vl_balance (ap_ledger a))]\<rparr>)"

text \<open>
  The risk input has four fields only. An absent field reads as \<open>undefined\<close>: no mode of the system, false,
  no number, nothing.
\<close>

definition dry_run_risk_input :: "jsnum \<Rightarrow> risk_input" where
  "dry_run_risk_input balance =
     \<lparr>ri_mode = Mode_observe_only, ri_operatorAuthorized = False, ri_sessionAuthenticated = True,
      ri_gameLoaded = False, ri_roundState = None, ri_currentBalance = Some balance,
      ri_dailyEntriesConfirmed = 0, ri_paused = False, ri_killSwitch = False, ri_browserHealthy = False,
      ri_gameAdapterHealthy = False, ri_openBetExists = False, ri_cooldownElapsed = False,
      ri_requiredStake = NaN, ri_balanceBuffer = NaN, ri_maxDailyEntries = 0,
      ri_minConfidenceForEntry = Conf_low, ri_consecutiveErrors = 0, ri_maxConsecutiveErrors = 0,
      ri_cashOutFailures = 0, ri_maxCashOutFailures = 0, ri_predictionSignal = None,
      ri_minPredictionProbability = None, ri_minPredictionConfidence = None\<rparr>"

definition drop_nth :: "nat \<Rightarrow> 'a list \<Rightarrow> 'a list" where
  "drop_nth i xs = take i xs @ drop (Suc i) xs"

text \<open>The end of the \<open>i\<close>-th evaluation; the service is \<^const>\<open>None\<close> when it throws.\<close>

definition dry_run_evaluated :: "nat \<Rightarrow> int \<Rightarrow> (decision_service \<times> decision_env) option \<Rightarrow> 's app \<Rightarrow> 's app" where
  "dry_run_evaluated i now service a =
     (if i < length (ap_inFlight a)
      then case ap_inFlight a ! i of
          Signalled _ _ \<Rightarrow> a
        | Evaluating rid balance \<Rightarrow>
            (case service of
               None \<Rightarrow> a\<lparr>ap_inFlight := drop_nth i (ap_inFlight a)\<rparr>
             | Some (svc, denv) \<Rightarrow>
                 let target = or_number (config_number (ap_config a) ''betting'' ''cashOutTarget'') (lit (13/10));
                     decided = fst (evaluateEntry svc denv
                       \<lparr>dc_roundId = rid, dc_decisionTime = now, dc_riskInput = dry_run_risk_input balance,
                        dc_target = Some target, dc_minHistory = None\<rparr>)
                 in (case er_signal decided of
                       None \<Rightarrow> a\<lparr>ap_inFlight := drop_nth i (ap_inFlight a)\<rparr>
                     | Some sig \<Rightarrow> a\<lparr>ap_inFlight := (ap_inFlight a)[i := Signalled rid sig]\<rparr>))
      else a)"

definition bridge_signal :: "json \<Rightarrow> string \<Rightarrow> entry_signal \<Rightarrow> dry_run_signal" where
  "bridge_signal config rid sig =
     \<lparr>dsg_signalId = es_predictionId sig, dsg_predictionId = Some (es_predictionId sig), dsg_roundId = rid,
      dsg_probability = es_probability sig, dsg_confidence = es_confidence sig, dsg_target = es_target sig,
      dsg_stake = Some (or_number (config_number config ''betting'' ''stakePerEntry'') (Fin 700))\<rparr>"

definition dry_run_booked :: "nat \<Rightarrow> int \<Rightarrow> string \<Rightarrow> string \<Rightarrow> string \<Rightarrow> string \<Rightarrow> 's app \<Rightarrow> 's app" where
  "dry_run_booked i now today stamp uuid vtid a =
     (if i < length (ap_inFlight a)
      then case ap_inFlight a ! i of
          Evaluating _ _ \<Rightarrow> a
        | Signalled rid sig \<Rightarrow>
            snd (wrapped_evaluate now today stamp uuid vtid (bridge_signal (ap_config a) rid sig)
              (a\<lparr>ap_inFlight := drop_nth i (ap_inFlight a)\<rparr>))
      else a)"

text \<open>\<open>learns\<close>: whether \<open>observeCrash\<close> returns; otherwise the trade is not resolved.\<close>

definition onRoundCrashedForDryRun :: "int \<Rightarrow> string \<Rightarrow> bool \<Rightarrow> string \<Rightarrow> jsnum option \<Rightarrow> 's app \<Rightarrow> 's app" where
  "onRoundCrashedForDryRun now stamp learns rid crashPoint a =
     (let cp = or_else crashPoint (Fin 0)
      in if rid = '''' \<or> \<not> is_fin cp \<or> jle cp (Fin 0) then a
         else let a1 = a\<lparr>ap_learned := ap_learned a @ [(rid, cp)]\<rparr>
              in if learns then wrapped_roundCompleted now stamp rid cp a1 else a1)"


section \<open>The live bridge in the composition\<close>

definition live_deps :: "bool \<Rightarrow> 's app \<Rightarrow> bridge_deps" where
  "live_deps locked a =
     \<lparr>bd_config = bridge_config_of (ap_config a), bd_executor = Some (ap_liveExecutor a), bd_executorBusy = locked,
      bd_cashOut = bs_cashOut (ap_bridge a), bd_sessionId = ap_sessionId a,
      bd_isAuthenticated = isAuthenticated (ap_supervisor a), bd_isGameLoaded = sv_gameLoaded (ap_supervisor a),
      bd_isObserving = isObserving (ap_supervisor a), bd_getBalance = vl_balance (ap_ledger a)\<rparr>"

text \<open>What the outside answers while the live bridge handles the start of a round.\<close>

record live_answers =
  la_env :: process_env
  la_service :: "(decision_service \<times> decision_env) option"
  la_page :: live_page
  la_uuid :: string
  la_now :: int
  la_stamp :: string
  la_busy :: bool

definition live_round_started :: "'s idem_ops \<Rightarrow> live_answers \<Rightarrow> string \<Rightarrow> 's app \<Rightarrow> 's app" where
  "live_round_started ops w rid a =
     (let (st, result, clicks) = onRoundStartedForLive ops (la_env w) (la_service w) (la_page w) (la_uuid w)
            (la_stamp w) (la_now w) (live_deps (la_busy w) a) rid (ap_bridge a);
          a1 = a\<lparr>ap_bridge := st, ap_placeClicks := ap_placeClicks a + clicks\<rparr>
      in case result of
           None \<Rightarrow> a1
         | Some r \<Rightarrow>
             if lr_placed r
             then mirror_open \<lparr>mr_id = lr_betId r, mr_signalId = None, mr_predictionId = None,
                 mr_roundId = rid, mr_stake = lr_stake r, mr_target = lr_target r, mr_status = V_OPEN,
                 mr_openedAt = la_stamp w, mr_crashPoint = None, mr_pnl = None, mr_resolvedAt = None\<rparr> a1
             else a1)"

definition live_round_crashed ::
  "process_env \<Rightarrow> bool \<Rightarrow> string option \<Rightarrow> string \<Rightarrow> jsnum option \<Rightarrow> 's app \<Rightarrow> 's app" where
  "live_round_crashed env available click rid crashPoint a =
     (let cp = or_else crashPoint (Fin 0);
          learns = (toLowerCase (or_else (config_mode (ap_config a)) '''') = ''live'' \<and>
            rid \<noteq> '''' \<and> is_fin cp \<and> \<not> jle cp (Fin 0));
          (st, result) = onRoundCrashedForLive env available click (live_deps False a) rid cp (ap_bridge a)
      in a\<lparr>ap_bridge := st,
           ap_learned := (if learns then ap_learned a @ [(rid, cp)] else ap_learned a),
           ap_cashOutClicks := ap_cashOutClicks a + (case result of Some (_, True) \<Rightarrow> 1 | _ \<Rightarrow> 0)\<rparr>)"

section \<open>What the interface of the operator may call\<close>

text \<open>
  \<open>setSystemMode\<close>: \<open>None\<close> when it throws, which it does where \<open>config.system\<close> is no object any more; the mode
  of the runtime is changed by then.
\<close>

definition setSystemMode :: "string \<Rightarrow> 's app \<Rightarrow> bool option \<times> 's app" where
  "setSystemMode mode a =
     (if mode \<notin> set system_modes then (Some False, a)
      else let a1 = a\<lparr>ap_currentMode := mode\<rparr>
           in case put_path [''system'', ''mode''] (J_str mode) (ap_config a1) of
                None \<Rightarrow> (None, a1)
              | Some config' \<Rightarrow>
                  (Some True, if mode = ''live''
                     then a1\<lparr>ap_config := config', ap_halted := False, ap_haltReason := None\<rparr>
                     else a1\<lparr>ap_config := config'\<rparr>))"

definition supervisor_start :: "supervisor_env \<Rightarrow> 's app \<Rightarrow> 's app" where
  "supervisor_start v a =
     a\<lparr>ap_supervisor := fst (sup_start (v\<lparr>se_mode := config_mode (ap_config a)\<rparr>) (ap_supervisor a))\<rparr>"

definition pauseSystem :: "string \<Rightarrow> 's app \<Rightarrow> bool \<times> 's app" where
  "pauseSystem reason a =
     (True, a\<lparr>ap_halted := True, ap_haltReason := Some reason, ap_dryRun := ct_stop (ap_dryRun a),
              ap_supervisor := sup_stop (ap_supervisor a)\<rparr>)"

text \<open>
  \<open>resumeSystem\<close> awaits the start of the supervisor, and other events may come in between, before it starts the
  dry-run controller again: two turns. Its answer \<open>true\<close> comes with the second.
\<close>

definition resumeSystem :: "supervisor_env \<Rightarrow> 's app \<Rightarrow> 's app" where
  "resumeSystem v a =
     (let a1 = supervisor_start v (a\<lparr>ap_halted := False, ap_haltReason := None\<rparr>)
      in a1\<lparr>ap_resuming := ap_resuming a1 + 1\<rparr>)"

definition resume_completed :: "'s app \<Rightarrow> 's app" where
  "resume_completed a =
     (if ap_resuming a = 0 then a
      else a\<lparr>ap_resuming := ap_resuming a - 1, ap_dryRun := ct_start (ap_sessionId a) None (ap_dryRun a)\<rparr>)"

definition stopSystem :: "'s app \<Rightarrow> bool \<times> 's app" where
  "stopSystem a =
     (True, a\<lparr>ap_halted := True, ap_haltReason := Some ''stopped'', ap_dryRun := ct_stop (ap_dryRun a),
              ap_supervisor := sup_stop (ap_supervisor a)\<rparr>)"

definition app_setConfigValue :: "string \<Rightarrow> string \<Rightarrow> 's app \<Rightarrow> bool \<times> 's app" where
  "app_setConfigValue key text a =
     (let (ok, config') = setConfigValue key text (ap_config a) in (ok, a\<lparr>ap_config := config'\<rparr>))"

definition app_login :: "supervisor_env \<Rightarrow> 's app \<Rightarrow> login_outcome \<times> 's app" where
  "app_login v a =
     (let (sup, outcome) = loginWithCredentials (v\<lparr>se_mode := config_mode (ap_config a)\<rparr>) (ap_supervisor a)
      in (outcome, a\<lparr>ap_supervisor := sup\<rparr>))"

definition sheathSystem :: "'s app \<Rightarrow> bool \<times> 's app" where
  "sheathSystem a = (True, a)"

definition unsheathSystem :: "'s app \<Rightarrow> bool \<times> 's app" where
  "unsheathSystem a = (True, a)"

text \<open>\<open>getSheathState\<close>: the state and whether betting is suspended, fixed.\<close>

definition getSheathState :: "string \<times> bool" where
  "getSheathState = (''armed'', False)"

definition getLedgerSummary :: "'s app \<Rightarrow> ledger_snapshot" where
  "getLedgerSummary a = vl_snapshot (ap_ledger a)"

definition health_degraded :: "'s app \<Rightarrow> bool" where
  "health_degraded a \<longleftrightarrow> sv_phase (ap_supervisor a) \<in> {SP_error, SP_browser_failed, SP_region_blocked}"

record windowed_analytics =
  wa_signals :: nat
  wa_signalsAccepted :: nat
  wa_signalsRejected :: nat
  wa_avgProbability :: jsnum
  wa_avgConfidence :: jsnum
  wa_expectedValue :: jsnum

text \<open>The rows have neither a probability nor a confidence, which are summed as zeros. The window is ignored.\<close>

definition sum_by :: "(mirror_row \<Rightarrow> jsnum) \<Rightarrow> mirror_row list \<Rightarrow> jsnum" where
  "sum_by f ts = foldl (\<lambda>s t. jadd s (f t)) (Fin 0) ts"

definition getWindowedAnalytics :: "int \<Rightarrow> string \<Rightarrow> 's app \<Rightarrow> windowed_analytics" where
  "getWindowedAnalytics quantity unit_name a =
     (let trades = ap_recentTrades a;
          resolved = filter (\<lambda>t. mr_status t \<noteq> V_OPEN) trades;
          n = jsint (int (length resolved));
          avg = (\<lambda>f. if length resolved > 0 then jdiv (sum_by f resolved) n else Fin 0);
          totalStake = sum_by mr_stake resolved;
          totalPnl = sum_by (\<lambda>t. or_number (mr_pnl t) (Fin 0)) resolved
      in \<lparr>wa_signals = length trades, wa_signalsAccepted = length resolved, wa_signalsRejected = 0,
          wa_avgProbability = avg (\<lambda>_. Fin 0), wa_avgConfidence = avg (\<lambda>_. Fin 0),
          wa_expectedValue = (if jlt (Fin 0) totalStake then jdiv totalPnl totalStake else Fin 0)\<rparr>)"

section \<open>The risk worker\<close>

definition risk_mode_of :: "string option \<Rightarrow> risk_mode" where
  "risk_mode_of m =
     (if m = Some ''live'' then Mode_live else if m = Some ''dry-run'' then Mode_dry_run
      else if m = Some ''maintenance'' then Mode_maintenance else Mode_observe_only)"

text \<open>For a configuration that has its numbers as numbers; \<open>today\<close> are the ten characters of the date.\<close>

definition worker_risk_input :: "bool \<Rightarrow> string \<Rightarrow> string \<Rightarrow> string option \<Rightarrow> 's app \<Rightarrow> risk_input" where
  "worker_risk_input locked today stamp rid a =
     (let cfg = ap_config a; sup = ap_supervisor a;
          number = (\<lambda>sec k. or_number (config_number cfg sec k) NaN)
      in \<lparr>ri_mode = risk_mode_of (config_mode cfg), ri_operatorAuthorized = True,
          ri_sessionAuthenticated = sv_authenticated sup, ri_gameLoaded = sv_gameLoaded sup,
          ri_roundState = (if truthy_str rid
            then Some \<lparr>rs_roundId = rid, rs_phase = Ph_starting, rs_currentMultiplier = Some (Fin 1),
              rs_startedAt = Some stamp, rs_crashedAt = None, rs_crashPoint = None, rs_lastTickAt = None,
              rs_source = Src_dom, rs_confidence = Conf_medium\<rparr>
            else None),
          ri_currentBalance = Some (vl_balance (ap_ledger a)),
          ri_dailyEntriesConfirmed = int (length (filter (\<lambda>t. is_prefix today (mr_openedAt t)) (ap_recentTrades a))),
          ri_paused = ap_halted a, ri_killSwitch = False,
          ri_browserHealthy = (sv_phase sup \<noteq> SP_browser_failed \<and> sv_phase sup \<noteq> SP_error),
          ri_gameAdapterHealthy = sv_gameLoaded sup, ri_openBetExists = locked, ri_cooldownElapsed = True,
          ri_requiredStake = number ''betting'' ''stakePerEntry'', ri_balanceBuffer = number ''risk'' ''balanceBuffer'',
          ri_maxDailyEntries = count_limit (number ''betting'' ''maxDailyEntries''),
          ri_minConfidenceForEntry = Conf_medium, ri_consecutiveErrors = int (sv_consecutiveErrors sup),
          ri_maxConsecutiveErrors = count_limit (number ''risk'' ''maxConsecutiveErrorsBeforeStop''),
          ri_cashOutFailures = 0,
          ri_maxCashOutFailures = count_limit (number ''risk'' ''maxCashOutFailuresBeforeStop''),
          ri_predictionSignal = None,
          ri_minPredictionProbability = config_number cfg ''risk'' ''minPredictionProbability'',
          ri_minPredictionConfidence = config_number cfg ''risk'' ''minPredictionConfidence''\<rparr>)"

section \<open>Start, stop and the events\<close>

text \<open>The result of the recovery is only logged; an error of the supervisor is caught.\<close>

definition app_start :: "supervisor_env \<Rightarrow> 's app \<Rightarrow> 's app" where
  "app_start v a =
     (if ap_started a then a
      else supervisor_start v
        (a\<lparr>ap_started := True, ap_dryRun := ct_start (ap_sessionId a) None (ap_dryRun a), ap_wired := True\<rparr>))"

definition app_stop :: "'s app \<Rightarrow> 's app" where
  "app_stop a =
     (if \<not> ap_started a then a
      else a\<lparr>ap_started := False, ap_wired := False, ap_dryRun := ct_stop (ap_dryRun a),
             ap_supervisor := sup_stop (ap_supervisor a)\<rparr>)"

datatype app_event =
    AE_start supervisor_env
  | AE_stop
  | AE_roundStarted string live_answers
  | AE_evaluated nat int "(decision_service \<times> decision_env) option"
  | AE_booked nat int string string string string
  | AE_roundCrashed int string bool process_env bool "string option" string "jsnum option"
  | AE_setMode string
  | AE_pause string
  | AE_resume supervisor_env
  | AE_resumed
  | AE_stopSystem
  | AE_setConfig string string
  | AE_login supervisor_env
  | AE_sheath
  | AE_unsheath

fun app_step :: "'s idem_ops \<Rightarrow> 's app \<Rightarrow> app_event \<Rightarrow> 's app" where
  "app_step ops a (AE_start v) = app_start v a"
| "app_step ops a AE_stop = app_stop a"
| "app_step ops a (AE_roundStarted rid w) =
     (if \<not> ap_wired a \<or> rid = '''' then a
      else live_round_started ops w rid (onRoundStartedForDryRun rid a))"
| "app_step ops a (AE_evaluated i now service) = dry_run_evaluated i now service a"
| "app_step ops a (AE_booked i now today stamp uuid vtid) = dry_run_booked i now today stamp uuid vtid a"
| "app_step ops a (AE_roundCrashed now stamp learns env available click rid cp) =
     (if \<not> ap_wired a \<or> rid = '''' then a
      else live_round_crashed env available click rid cp (onRoundCrashedForDryRun now stamp learns rid cp a))"
| "app_step ops a (AE_setMode mode) = snd (setSystemMode mode a)"
| "app_step ops a (AE_pause reason) = snd (pauseSystem reason a)"
| "app_step ops a (AE_resume v) = resumeSystem v a"
| "app_step ops a AE_resumed = resume_completed a"
| "app_step ops a AE_stopSystem = snd (stopSystem a)"
| "app_step ops a (AE_setConfig key text) = snd (app_setConfigValue key text a)"
| "app_step ops a (AE_login v) = snd (app_login v a)"
| "app_step ops a AE_sheath = snd (sheathSystem a)"
| "app_step ops a AE_unsheath = snd (unsheathSystem a)"


section \<open>Steps of the parts\<close>

lemma mirror_open_simps [simp]:
  "ap_resuming (mirror_open t a) = ap_resuming a"
  "ap_config (mirror_open t a) = ap_config a" "ap_dryRun (mirror_open t a) = ap_dryRun a"
  "ap_ledger (mirror_open t a) = ap_ledger a" "ap_bridge (mirror_open t a) = ap_bridge a"
  "ap_currentMode (mirror_open t a) = ap_currentMode a"
  "ap_placeClicks (mirror_open t a) = ap_placeClicks a" "ap_cashOutClicks (mirror_open t a) = ap_cashOutClicks a"
  "ap_recentTrades (mirror_open t a) = take 50 (t # ap_recentTrades a)"
  by (simp_all add: mirror_open_def)

lemma live_round_started_id: "live_round_started ops w rid a = a"
  by (simp add: live_round_started_def live_bridge_never_bets)

lemma wrapped_roundCompleted_simps [simp]:
  "ap_config (wrapped_roundCompleted now s rid c a) = ap_config a"
  "ap_ledger (wrapped_roundCompleted now s rid c a) = ap_ledger a"
  "ap_bridge (wrapped_roundCompleted now s rid c a) = ap_bridge a"
  "ap_currentMode (wrapped_roundCompleted now s rid c a) = ap_currentMode a"
  "ap_learned (wrapped_roundCompleted now s rid c a) = ap_learned a"
  "ap_placeClicks (wrapped_roundCompleted now s rid c a) = ap_placeClicks a"
  "ap_cashOutClicks (wrapped_roundCompleted now s rid c a) = ap_cashOutClicks a"
  by (simp_all add: wrapped_roundCompleted_def)

lemma no_live_bet_no_cashout:
  "bs_openLiveBets st = [] \<Longrightarrow> onRoundCrashedForLive env available click deps rid cp st = (st, None)"
  by (auto simp: onRoundCrashedForLive_def split: option.split)

text \<open>Everything a step leaves alone, for the steps that are not commands of the operator.\<close>

lemmas step_defs = onRoundStartedForDryRun_def dry_run_evaluated_def dry_run_booked_def
  onRoundCrashedForDryRun_def live_round_crashed_def wrapped_evaluate_def Let_def

section \<open>Nothing is ever bet\<close>

definition no_bet :: "'s \<Rightarrow> 's app \<Rightarrow> bool" where
  "no_bet store a \<longleftrightarrow> ap_placeClicks a = 0 \<and> ap_cashOutClicks a = 0 \<and>
     bs_openLiveBets (ap_bridge a) = [] \<and> bs_store (ap_bridge a) = store"

lemmas command_defs = setSystemMode_def pauseSystem_def resumeSystem_def resume_completed_def stopSystem_def app_setConfigValue_def
  app_login_def sheathSystem_def unsheathSystem_def app_start_def app_stop_def supervisor_start_def

lemma no_bet_step: "no_bet store a \<Longrightarrow> no_bet store (app_step ops a e)"
  by (cases e)
    (auto simp: no_bet_def step_defs command_defs live_round_started_id no_live_bet_no_cashout
      split: in_flight.split option.split prod.split if_splits)

section \<open>The mirrored rows\<close>

definition row_ok :: "mirror_row \<Rightarrow> bool" where
  "row_ok t = (case (mr_status t, mr_crashPoint t, mr_pnl t) of
      (V_OPEN, None, None) \<Rightarrow> mr_resolvedAt t = None
    | (V_WIN, Some c, Some p) \<Rightarrow> jle (mr_target t) c \<and> p = jmul (mr_stake t) (jsub (mr_target t) (Fin 1))
    | (V_LOSS, Some c, Some p) \<Rightarrow> \<not> jle (mr_target t) c \<and> p = jneg (mr_stake t)
    | _ \<Rightarrow> False)"

definition rows_ok :: "'s app \<Rightarrow> bool" where
  "rows_ok a \<longleftrightarrow> length (ap_recentTrades a) \<le> 50 \<and> list_all row_ok (ap_recentTrades a)"

lemma resolve_row_ok: "row_ok t \<Longrightarrow> row_ok (resolve_row s rid c t)"
  by (auto simp: row_ok_def resolve_row_def Let_def)

lemma mirror_open_ok: "rows_ok a \<Longrightarrow> row_ok t \<Longrightarrow> rows_ok (mirror_open t a)"
  by (auto simp: rows_ok_def list_all_iff dest: in_set_takeD)

lemma rows_ok_update:
  "ap_recentTrades b = ap_recentTrades a \<Longrightarrow> rows_ok b = rows_ok a"
  by (simp add: rows_ok_def)

lemma wrapped_evaluate_ok:
  "rows_ok a \<Longrightarrow> rows_ok (snd (wrapped_evaluate now today s uuid vtid sig a))"
  by (auto simp: wrapped_evaluate_def Let_def row_ok_def split: prod.split intro!: mirror_open_ok)
    (simp_all add: rows_ok_def)

lemma wrapped_roundCompleted_ok: "rows_ok a \<Longrightarrow> rows_ok (wrapped_roundCompleted now s rid c a)"
  by (auto simp: rows_ok_def wrapped_roundCompleted_def list_all_iff intro: resolve_row_ok)

lemma crash_rows: "rows_ok a \<Longrightarrow> rows_ok (onRoundCrashedForDryRun now s learns rid cp a)"
  by (simp add: onRoundCrashedForDryRun_def Let_def rows_ok_update [of "a\<lparr>ap_learned := _\<rparr>" a] wrapped_roundCompleted_ok)

lemma rows_ok_step: "rows_ok a \<Longrightarrow> rows_ok (app_step ops a e)"
proof (cases e)
  case (AE_roundCrashed now s learns env available click rid cp)
  then show "rows_ok a \<Longrightarrow> ?thesis"
    using crash_rows [of a now s learns rid cp]
    by (auto simp: live_round_crashed_def Let_def rows_ok_def split: prod.split)
next
  case (AE_booked i now today s uuid vtid)
  have "rows_ok a \<Longrightarrow> rows_ok (a\<lparr>ap_inFlight := drop_nth i (ap_inFlight a)\<rparr>)" by (simp add: rows_ok_def)
  with AE_booked show "rows_ok a \<Longrightarrow> ?thesis"
    by (auto simp: dry_run_booked_def wrapped_evaluate_ok split: in_flight.split)
qed (auto simp: rows_ok_def step_defs command_defs live_round_started_id split: in_flight.split option.split prod.split)

section \<open>The composition as a system\<close>

definition app_inv :: "'s \<Rightarrow> 's app \<Rightarrow> bool" where
  "app_inv store a \<longleftrightarrow> no_bet store a \<and> rows_ok a"

interpretation app: started "app_step ops" "app_inv store" "composeApplication config sid shared today store"
  for ops :: "'s idem_ops" and store config sid shared today
proof
  show "app_inv store (app_step ops a e)" if "app_inv store a" for a :: "'s app" and e
    using that by (simp add: app_inv_def no_bet_step rows_ok_step)
  show "app_inv store (composeApplication config sid shared today store)"
    by (simp add: app_inv_def no_bet_def rows_ok_def composeApplication_def)
qed

text \<open>
  The composed program never places a bet and never asks for a cash-out: whatever happens to it,
  commands of the operator, log-ins, rounds, evaluations and changes of the configuration in any order, no button
  is clicked, no live bet is open and the store of the reservations is the one it started with.
\<close>

lemma app_never_bets:
  "let a = foldl (app_step ops) (composeApplication config sid shared today store) es
   in ap_placeClicks a = 0 \<and> ap_cashOutClicks a = 0 \<and> bs_openLiveBets (ap_bridge a) = [] \<and>
      bs_store (ap_bridge a) = store"
  using app.reachable_inv [of store ops config sid shared today es] by (simp add: app_inv_def no_bet_def Let_def)

text \<open>
  The list of recent trades is bounded and consistent in every reachable state: at most 50 rows; an open row has
  no result; a closed row has the crash point that decided it and the profit that belongs to it.
\<close>

theorem recent_trades_consistent:
  "rows_ok (foldl (app_step ops) (composeApplication config sid shared today store) es)"
  using app.reachable_inv [of store ops config sid shared today es] by (simp add: app_inv_def)


section \<open>Halting\<close>

text \<open>What books nothing while the controller is stopped: every event but a start and a resume.\<close>

fun stays_halted :: "app_event \<Rightarrow> bool" where
  "stays_halted (AE_start _) = False"
| "stays_halted (AE_resume _) = False"
| "stays_halted _ = True"

definition books_frozen :: "virtual_ledger \<Rightarrow> nat \<Rightarrow> 's app \<Rightarrow> bool" where
  "books_frozen l n a \<longleftrightarrow> \<not> ct_running (ap_dryRun a) \<and> ap_resuming a = 0 \<and> ct_ledger (ap_dryRun a) = l \<and> length (ap_recentTrades a) = n"

lemma books_frozen_step: "books_frozen l n a \<Longrightarrow> stays_halted e \<Longrightarrow> books_frozen l n (app_step ops a e)"
  by (cases e)
    (auto simp: books_frozen_def step_defs command_defs live_round_started_id wrapped_roundCompleted_def
        ct_onRoundCompleted_def evaluateAndSimulate_def ct_stop_def
      split: in_flight.split option.split prod.split if_splits)

interpretation halted: persists "app_step ops" stays_halted "books_frozen l n" for ops :: "'s idem_ops" and l n
  by unfold_locales (rule books_frozen_step)

text \<open>
  After a pause the virtual ledger keeps its state, open trades included, until a resume or a start: also the trades
  of the round that is under way stay open.
\<close>

lemma pause_freezes_the_books:
  assumes "list_all stays_halted es" and "ap_resuming a = 0"
  shows "let b = foldl (app_step ops) (snd (pauseSystem reason a)) es
    in ct_ledger (ap_dryRun b) = ct_ledger (ap_dryRun a) \<and> length (ap_recentTrades b) = length (ap_recentTrades a)"
proof -
  have "books_frozen (ct_ledger (ap_dryRun a)) (length (ap_recentTrades a)) (snd (pauseSystem reason a))"
    using assms(2) by (simp add: books_frozen_def pauseSystem_def ct_stop_def)
  from halted.run_quiet [OF this assms(1)] show ?thesis by (simp add: books_frozen_def Let_def)
qed

text \<open>
  C7. A paused program opens no trade: when the operator pauses it and no resume is under way, then whatever comes
  before the next resume or start (rounds, evaluations that were under way at the pause and end after it, changes of
  the mode and of the configuration, log-ins), the dry-run controller stays stopped, the virtual ledger has the trades
  it had and the list of recent trades gets no row.
\<close>

theorem paused_opens_no_trade:
  assumes "list_all stays_halted es" and "ap_resuming a = 0"
  shows "let b = foldl (app_step ops) (snd (pauseSystem reason a)) es
    in \<not> ct_running (ap_dryRun b) \<and> map fst (vl_trades (ct_ledger (ap_dryRun b))) = map fst (vl_trades (ct_ledger (ap_dryRun a))) \<and>
       length (ap_recentTrades b) = length (ap_recentTrades a)"
proof -
  have "books_frozen (ct_ledger (ap_dryRun a)) (length (ap_recentTrades a)) (snd (pauseSystem reason a))"
    using assms(2) by (simp add: books_frozen_def pauseSystem_def ct_stop_def)
  from halted.run_quiet [OF this assms(1)] show ?thesis by (simp add: books_frozen_def Let_def)
qed

text \<open>A resume that waits for the supervisor when the pause comes undoes it: the controller runs again.\<close>

lemma resume_under_way_undoes_pause:
  "let b = foldl (app_step ops) a [AE_resume v, AE_pause reason, AE_resumed]
   in ap_halted b \<and> ct_running (ap_dryRun b)"
  by (simp add: resumeSystem_def pauseSystem_def resume_completed_def supervisor_start_def ct_start_def Let_def)

text \<open>The state of the witnesses: a program that was composed, with one trade open in both books.\<close>

definition demo_app :: "nat app" where
  "demo_app =
     (let sig = \<lparr>dsg_signalId = ''s'', dsg_predictionId = None, dsg_roundId = ''r'', dsg_probability = Fin 1,
            dsg_confidence = Fin 1, dsg_target = Fin 2, dsg_stake = Some (Fin 700)\<rparr>;
          a = composeApplication demo_config ''sess'' None ''d'' 0
      in snd (wrapped_evaluate 0 ''d'' ''t'' ''u'' ''v'' sig
           (a\<lparr>ap_wired := True, ap_dryRun := ct_start ''sess'' None (ct_new DEFAULT_CFG None ''d'')\<rparr>)))"

lemma wrapped_evaluate_config [simp]:
  "ap_config (snd (wrapped_evaluate now today s uuid vtid sig a)) = ap_config a"
  "ap_currentMode (snd (wrapped_evaluate now today s uuid vtid sig a)) = ap_currentMode a"
  by (simp_all add: wrapped_evaluate_def Let_def split: prod.split)

lemma demo_app_config: "ap_config demo_app = demo_config" "ap_currentMode demo_app = ''dry-run''"
  by (simp_all add: demo_app_def Let_def composeApplication_def config_mode_def config_entry_def demo_config_def)

theorem paused_opens_no_trade_witness:
  "let b = foldl (app_step undefined) (snd (pauseSystem ''why'' demo_app))
         [AE_booked 0 1 ''d'' ''t'' ''u'' ''v'', AE_setMode ''observe-only'', AE_sheath, AE_resumed]
   in \<not> ct_running (ap_dryRun b) \<and>
      map fst (vl_trades (ct_ledger (ap_dryRun b))) = map fst (vl_trades (ct_ledger (ap_dryRun demo_app))) \<and>
      length (ap_recentTrades b) = length (ap_recentTrades demo_app)"
  by (rule paused_opens_no_trade)
    (simp_all add: demo_app_def wrapped_evaluate_def composeApplication_def Let_def split: prod.split)

text \<open>
  The other side of the pause: a round that ends during it closes its row, and its trade in the ledger stays open.
\<close>

lemma resolve_row_closes: "mr_roundId (resolve_row s rid c t) = rid \<Longrightarrow> mr_status (resolve_row s rid c t) \<noteq> V_OPEN"
  by (auto simp: resolve_row_def Let_def)

lemma paused_crash_splits_books:
  assumes "books_frozen l n a" and "rid \<noteq> ''''" and "is_fin cp" and "\<not> jle cp (Fin 0)"
  shows "let b = onRoundCrashedForDryRun now s True rid (Some cp) a
    in ct_ledger (ap_dryRun b) = l \<and>
       list_all (\<lambda>t. mr_roundId t = rid \<longrightarrow> mr_status t \<noteq> V_OPEN) (ap_recentTrades b)"
proof -
  have "onRoundCrashedForDryRun now s True rid (Some cp) a =
      wrapped_roundCompleted now s rid cp (a\<lparr>ap_learned := ap_learned a @ [(rid, cp)]\<rparr>)"
    using assms by (simp add: onRoundCrashedForDryRun_def)
  moreover have "ct_onRoundCompleted now rid cp (ap_dryRun a) = ap_dryRun a"
    using assms by (simp add: books_frozen_def ct_onRoundCompleted_def)
  moreover have "ct_ledger (ap_dryRun a) = l" using assms by (simp add: books_frozen_def)
  ultimately show ?thesis
    by (simp add: wrapped_roundCompleted_def list_all_iff resolve_row_closes Let_def)
qed

section \<open>The two modes\<close>

text \<open>The mode of the runtime, which is shown, and the mode of the configuration, which decides.\<close>

definition modes_agree :: "'s app \<Rightarrow> bool" where
  "modes_agree a \<longleftrightarrow> getConfigValue ''system.mode'' (ap_config a) = Some (J_str (ap_currentMode a))"

fun no_config_change :: "app_event \<Rightarrow> bool" where
  "no_config_change (AE_setConfig _ _) = False"
| "no_config_change _ = True"

lemma system_mode_path: "split_dot ''system.mode'' = [''system'', ''mode'']"
  by simp

lemma modes_agree_config: "modes_agree a \<Longrightarrow> config_mode (ap_config a) = Some (ap_currentMode a)"
  by (cases "ap_config a")
    (auto simp: modes_agree_def getConfigValue_def config_mode_def config_entry_def split: option.splits json.splits)

lemma setSystemMode_agrees:
  assumes "modes_agree a" shows "modes_agree (snd (setSystemMode mode a))"
proof (cases "mode \<in> set system_modes")
  case True
  obtain kvs where "get_path (Some (ap_config a)) [''system''] = Some (J_obj kvs)"
    using assms by (cases "ap_config a") (auto simp: modes_agree_def getConfigValue_def split: option.splits json.splits)
  then obtain config' where put: "put_path [''system'', ''mode''] (J_str mode) (ap_config a) = Some config'"
    using put_path_exists_iff [of "[''system'', ''mode'']" "J_str mode" "ap_config a"] by auto
  with get_path_put_same [OF put] True show ?thesis
    by (simp add: setSystemMode_def modes_agree_def getConfigValue_def Let_def del: put_path.simps get_path.simps)
qed (use assms in \<open>simp add: setSystemMode_def\<close>)

fun sets_a_mode :: "app_event \<Rightarrow> bool" where
  "sets_a_mode (AE_setMode _) = True"
| "sets_a_mode _ = False"

lemma config_kept:
  "no_config_change e \<Longrightarrow> \<not> sets_a_mode e \<Longrightarrow>
     ap_config (app_step ops a e) = ap_config a \<and> ap_currentMode (app_step ops a e) = ap_currentMode a"
  by (cases e)
    (auto simp: step_defs pauseSystem_def resumeSystem_def resume_completed_def stopSystem_def app_login_def sheathSystem_def
      unsheathSystem_def app_start_def app_stop_def supervisor_start_def live_round_started_id
      split: in_flight.split option.split prod.split)

lemma modes_agree_step: "modes_agree a \<Longrightarrow> no_config_change e \<Longrightarrow> modes_agree (app_step ops a e)"
proof (cases "sets_a_mode e")
  case True
  then show "modes_agree a \<Longrightarrow> ?thesis" by (cases e) (simp_all add: setSystemMode_agrees)
next
  case False
  then show "modes_agree a \<Longrightarrow> no_config_change e \<Longrightarrow> ?thesis"
    using config_kept [of e ops a] by (simp add: modes_agree_def)
qed

interpretation modes: persists "app_step ops" no_config_change modes_agree for ops :: "'s idem_ops"
  by unfold_locales (rule modes_agree_step)

text \<open>
  The mode that is shown is the mode that decides, as long as the configuration is not edited by key: after any
  events but \<open>/config set\<close>, what \<open>/status\<close> and \<open>/health\<close> report as the mode is the value both bridges and the
  supervisor read.
\<close>

theorem shown_mode_is_configured_mode:
  assumes "modes_agree a" and "list_all no_config_change es"
  shows "let b = foldl (app_step ops) a es in config_mode (ap_config b) = Some (ap_currentMode b)"
  using modes.run_quiet [OF assms] by (simp add: modes_agree_config Let_def)

theorem shown_mode_is_configured_mode_witness:
  "let b = foldl (app_step undefined) demo_app [AE_setMode ''live'', AE_sheath, AE_setMode ''bad'']
   in config_mode (ap_config b) = Some (ap_currentMode b)"
  by (rule shown_mode_is_configured_mode)
    (simp_all add: modes_agree_def demo_app_config getConfigValue_def demo_config_def)

text \<open>An edit by key separates them: the bridges are live, the status shows the old mode, and no token was asked for.\<close>

lemma mode_by_config_key:
  "let b = app_step ops demo_app (AE_setConfig ''system.mode'' ''live'')
   in config_mode (ap_config b) = Some ''live'' \<and> ap_currentMode b = ''dry-run''"
  by (simp add: app_setConfigValue_def setConfigValue_def config_value_def positive_keys_def system_modes_def
      demo_app_config demo_config_def config_mode_def config_entry_def Let_def)


section \<open>What the composition shows and learns\<close>

lemma ledger_kept: "ap_ledger (app_step ops a e) = ap_ledger a"
  by (cases e)
    (auto simp: step_defs command_defs live_round_started_id split: in_flight.split option.split prod.split)

text \<open>
  The ledger summary never moves: \<open>/balance\<close> and the balance that both bridges give the risk engine come from a
  ledger the composition makes for itself, while the dry-run controller books on the shared one; after any events they
  show the initial balance and no trade.
\<close>

theorem shown_ledger_never_moves:
  "getLedgerSummary (foldl (app_step ops) (composeApplication config sid shared today store) es) =
     vl_snapshot (vl_new (or_number (config_number config ''dryRun'' ''initialVirtualBalance'') NaN))"
proof -
  have "ap_ledger (foldl (app_step ops) a es) = ap_ledger a" for a
    by (induction es arbitrary: a) (simp_all add: ledger_kept)
  then show ?thesis by (simp add: getLedgerSummary_def composeApplication_def)
qed



lemma jadd_zero_zero: "jadd (Fin 0) (Fin 0) = Fin 0"
  by (simp add: rnd_def)

text \<open>The averages of \<open>/analytics\<close> are zero whatever was predicted.\<close>

lemma windowed_averages_zero:
  "wa_avgProbability (getWindowedAnalytics n w a) = Fin 0 \<and> wa_avgConfidence (getWindowedAnalytics n w a) = Fin 0"
proof -
  have sum: "sum_by (\<lambda>_. Fin 0) ts = Fin 0" for ts
    by (induction ts) (simp_all add: sum_by_def jadd_zero_zero)
  have "jdiv (Fin 0) (jsint (int k)) = Fin 0" if "k > 0" for k
  proof -
    have "jle (Fin 1) (jsint (int k))" using jsint_mono [of 1 "int k"] that by (simp add: jsint_def)
    then show ?thesis by (cases "jsint (int k)") (auto simp: jle_def)
  qed
  then show ?thesis by (simp add: getWindowedAnalytics_def sum Let_def)
qed

text \<open>The risk worker never authorizes an execution: its round state has medium confidence.\<close>

lemma risk_worker_always_rejects:
  "\<not> rr_approved (evaluate now b ((worker_risk_input l today s rid a)\<lparr>ri_predictionSignal := sig\<rparr>))"
proof -
  have "\<not> evaluateAllConditions now (worker_risk_input l today s rid a) K_observationConfidenceHigh"
    by (simp add: evaluateAllConditions_def worker_risk_input_def Let_def)
  then show ?thesis by (auto simp: approved_iff)
qed

text \<open>Every trade of the dry run is booked against the decision of the risk engine, which rejects its input.\<close>

lemma dry_run_risk_rejects:
  "dc_riskInput ctx = dry_run_risk_input balance \<Longrightarrow> \<not> rr_approved (er_risk (fst (evaluateEntry svc env ctx)))"
proof -
  have "\<not> rr_approved (evaluate now b ((dry_run_risk_input balance)\<lparr>ri_predictionSignal := sig\<rparr>))" for now b sig
  proof -
    have "\<not> evaluateAllConditions now (dry_run_risk_input balance) K_modeIsLive"
      by (simp add: evaluateAllConditions_def dry_run_risk_input_def Let_def)
    then show ?thesis by (auto simp: approved_iff)
  qed
  then show "dc_riskInput ctx = dry_run_risk_input balance \<Longrightarrow> ?thesis"
    by (auto simp: evaluateEntry_def Let_def dry_run_risk_input_def)
qed

text \<open>The profit of a row is rounded otherwise than the profit the ledger books.\<close>

lemma mirrored_profit_differs:
  "jsub (jmul (Fin 700) (lit (13/10))) (Fin 700) \<noteq> jmul (Fin 700) (jsub (lit (13/10)) (Fin 1))"
proof -
  have "jmul (Fin 700) (lit (13/10)) = Fin 910"
    using rnd_eqI [of 9 "700 * (5854679515581645 / 4503599627370496)" 8004444650209280] by (simp add: lit_1_3 power_int_def power_one_over)
  moreover have "jsub (lit (13/10)) (Fin 1) = Fin (1351079888211149 / 4503599627370496)"
    using rnd_eqI [of "-2" "1351079888211149 / 4503599627370496" 5404319552844596] by (simp add: lit_1_3 power_int_def power_one_over)
  moreover have "jmul (Fin 700) (Fin (1351079888211149 / 4503599627370496)) = Fin (7388718138654721 / 35184372088832)"
    using rnd_eqI [of 7 "700 * (1351079888211149 / 4503599627370496)" 7388718138654721] by (simp add: power_int_def power_one_over)
  ultimately show ?thesis by simp
qed


section \<open>The mode stays a mode\<close>

lemma config_mode_path:
  "config_mode config = (case get_path (Some config) [''system'', ''mode''] of Some (J_str s) \<Rightarrow> Some s | _ \<Rightarrow> None)"
  by (cases config) (auto simp: config_mode_def config_entry_def split: option.splits json.splits)

text \<open>The section \<open>system\<close> holds one of the four modes, or something that is no section took its place.\<close>

definition valid_mode :: "json \<Rightarrow> bool" where
  "valid_mode config = (case getConfigValue ''system'' config of
      Some (J_obj kvs) \<Rightarrow> \<exists>m \<in> set system_modes. config_mode config = Some m
    | Some _ \<Rightarrow> True
    | None \<Rightarrow> False)"

lemma valid_mode_iff:
  "valid_mode (J_obj kvs) = (case map_of kvs ''system'' of
      Some (J_obj sec) \<Rightarrow> \<exists>m \<in> set system_modes. map_of sec ''mode'' = Some (J_str m)
    | Some _ \<Rightarrow> True
    | None \<Rightarrow> False)"
  by (auto simp: valid_mode_def getConfigValue_def config_mode_path split: option.splits json.splits)

lemma put_path_modes:
  assumes put: "put_path ps v config = Some config'" and valid: "valid_mode config"
    and v: "last ps = ''mode'' \<Longrightarrow> \<exists>s. v = J_str s \<and> s \<in> set system_modes" and flat: "\<And>kvs. v \<noteq> J_obj kvs"
  shows "valid_mode config'"
proof -
  obtain kvs where config: "config = J_obj kvs" using put by (cases config; cases ps rule: remdups_adj.cases) auto
  consider (top) k where "ps = [k]" | (sec) p q rest where "ps = p # q # rest"
    using put by (cases ps rule: remdups_adj.cases) auto
  then show ?thesis
  proof cases
    case top
    with put have "config' = J_obj (AList.update k v kvs)" by (simp add: config)
    with valid flat show ?thesis by (cases v) (auto simp: config valid_mode_iff update_conv')
  next
    case sec
    then obtain sub t where sub: "map_of kvs p = Some sub" "put_path (q # rest) v sub = Some t"
      and config': "config' = J_obj (AList.update p t kvs)"
      using put by (auto simp: config split: option.splits)
    show ?thesis
    proof (cases "p = ''system''")
      case False
      with valid show ?thesis by (simp add: config config' valid_mode_iff update_conv')
    next
      case True
      obtain kvs2 where obj: "sub = J_obj kvs2" using sub(2) by (cases sub; cases rest) auto
      then obtain m where m: "m \<in> set system_modes" "map_of kvs2 ''mode'' = Some (J_str m)"
        using valid sub(1) True by (auto simp: config valid_mode_iff)
      have "\<exists>kvs3 m'. t = J_obj kvs3 \<and> m' \<in> set system_modes \<and> map_of kvs3 ''mode'' = Some (J_str m')"
        using sub(2) v m sec by (cases rest) (auto simp: obj update_conv' split: option.splits if_splits)
      with True show ?thesis by (auto simp: config' valid_mode_iff update_conv')
    qed
  qed
qed

lemma config_value_flat: "config_value final text = Some v \<Longrightarrow> v \<noteq> J_obj kvs"
  by (auto simp: config_value_def Let_def split: if_splits)

lemma config_value_mode: "config_value ''mode'' text = Some v \<Longrightarrow> \<exists>s. v = J_str s \<and> s \<in> set system_modes"
  by (auto simp: config_value_def positive_keys_def Let_def split: if_splits)

lemma setConfigValue_valid_mode: "valid_mode config \<Longrightarrow> valid_mode (snd (setConfigValue key text config))"
proof (cases "config_value (last (split_dot key)) text")
  case (Some v)
  assume valid: "valid_mode config"
  show ?thesis
  proof (cases "put_path (split_dot key) v config")
    case (Some config')
    have "last (split_dot key) = ''mode'' \<Longrightarrow> \<exists>s. v = J_str s \<and> s \<in> set system_modes"
      using \<open>config_value _ text = Some v\<close> config_value_mode by simp
    from put_path_modes [OF Some valid this config_value_flat] \<open>config_value _ text = Some v\<close> Some
    show ?thesis by (simp add: setConfigValue_def)
  qed (use valid \<open>config_value _ text = Some v\<close> in \<open>simp add: setConfigValue_def\<close>)
qed (simp add: setConfigValue_def)

lemma setSystemMode_valid:
  "valid_mode (ap_config a) \<Longrightarrow> ap_currentMode a \<in> set system_modes \<Longrightarrow>
     valid_mode (ap_config (snd (setSystemMode mode a))) \<and> ap_currentMode (snd (setSystemMode mode a)) \<in> set system_modes"
  using put_path_modes [of "[''system'', ''mode'']" "J_str mode" "ap_config a"]
  by (auto simp: setSystemMode_def Let_def simp del: put_path.simps split: option.split)

definition modes_valid :: "'s app \<Rightarrow> bool" where
  "modes_valid a \<longleftrightarrow> valid_mode (ap_config a) \<and> ap_currentMode a \<in> set system_modes"

interpretation valid_modes: stepwise "app_step ops" modes_valid for ops :: "'s idem_ops"
proof
  show "modes_valid (app_step ops a e)" if "modes_valid a" for a :: "'s app" and e
  proof (cases "no_config_change e \<and> \<not> sets_a_mode e")
    case True
    with config_kept [of e ops a] that show ?thesis by (simp add: modes_valid_def)
  next
    case False
    have "valid_mode c" if "setConfigValue key t (ap_config a) = (ok, c)" for key t ok c
      using setConfigValue_valid_mode [of "ap_config a" key t] that \<open>modes_valid a\<close> by (simp add: modes_valid_def)
    with False that setSystemMode_valid [of a] show ?thesis
      by (cases e) (auto simp: modes_valid_def app_setConfigValue_def Let_def split: prod.splits)
  qed
qed

text \<open>
  C34. Modes stay modes: from a start with a mode of the schema, after any events, edits of the configuration by any key
  to any text included, the mode of the runtime is one of the four, and the section \<open>system\<close> of the configuration
  still exists and its mode is one of the four; the only exception is that the whole section was replaced by a
  value that is no object.
\<close>

theorem modes_stay_typed:
  assumes "config_mode config = Some mode" and "mode \<in> set system_modes"
  shows "let a = foldl (app_step ops) (composeApplication config sid shared today store) es
    in ap_currentMode a \<in> set system_modes \<and>
       (case getConfigValue ''system'' (ap_config a) of
          Some (J_obj kvs) \<Rightarrow> \<exists>m \<in> set system_modes. config_mode (ap_config a) = Some m
        | Some _ \<Rightarrow> True
        | None \<Rightarrow> False)"
proof -
  have "modes_valid (composeApplication config sid shared today store)"
    using assms
    by (auto simp: modes_valid_def valid_mode_def composeApplication_def config_mode_path getConfigValue_def
        split: option.splits json.splits)
  from valid_modes.run_inv [OF this] show ?thesis by (simp only: modes_valid_def valid_mode_def Let_def)
qed

theorem modes_stay_typed_witness:
  "let a = foldl (app_step undefined) (composeApplication demo_config ''sess'' None ''d'' (0 :: nat))
         [AE_setConfig ''system.mode'' ''LIVE'', AE_setConfig ''system'' ''x'', AE_setMode ''live'']
   in ap_currentMode a \<in> set system_modes \<and>
      (case getConfigValue ''system'' (ap_config a) of
         Some (J_obj kvs) \<Rightarrow> \<exists>m \<in> set system_modes. config_mode (ap_config a) = Some m
       | Some _ \<Rightarrow> True
       | None \<Rightarrow> False)"
  by (rule modes_stay_typed [where mode = "''dry-run''"])
    (simp_all add: demo_config_def config_mode_def config_entry_def system_modes_def)

end
