(* ===== verification/Operator.thy ===== *)
theory Operator
  imports System
begin

text \<open>
  The operator's interface of \<open>src/src/telegram\<close> on top of the composition: the identity middleware (\<open>auth.ts\<close>), the
  two rate limits (\<open>gateway.ts\<close>, \<open>router.ts\<close>), the parsing and dispatch of commands, the control, configuration and
  log-in commands with their pending confirmations. A message comes with what the outside provides while it is handled:
  the clock, the random token, the answers of the browser. A reply is a constructor in place of its text.
\<close>

section \<open>Escaping\<close>

definition replace_char :: "char \<Rightarrow> string \<Rightarrow> string" where
  "replace_char c s = concat (map (\<lambda>x. if x = c then [char_of (92::nat), x] else [x]) s)"

definition escapeMarkdown :: "string \<Rightarrow> string" where
  "escapeMarkdown text =
     replace_char (CHR ''_'') (replace_char (CHR ''*'') (replace_char (CHR 0x60) (replace_char (char_of (92::nat)) text)))"

fun unescapeMarkdown :: "string \<Rightarrow> string" where
  "unescapeMarkdown (b # c # s) = (if b = char_of (92::nat) then c # unescapeMarkdown s else b # unescapeMarkdown (c # s))"
| "unescapeMarkdown s = s"

section \<open>Parsing\<close>

definition word_char :: "char \<Rightarrow> bool" where
  "word_char c \<longleftrightarrow>
     (let n = of_char c :: nat in 97 \<le> n \<and> n \<le> 122 \<or> 65 \<le> n \<and> n \<le> 90 \<or> 48 \<le> n \<and> n \<le> 57 \<or> n = 95)"

definition line_end :: "char \<Rightarrow> bool" where
  "line_end c \<longleftrightarrow> (let n = of_char c :: nat in n = 10 \<or> n = 13)"

text \<open>\<open>split(/\s+/)\<close> of a trimmed text that is not empty.\<close>

fun split_words :: "string \<Rightarrow> string \<Rightarrow> string list" where
  "split_words w [] = [rev w]"
| "split_words w (c # cs) =
     (if js_space c then (if w = '''' then split_words w cs else rev w # split_words '''' cs)
      else split_words (c # w) cs)"

definition known_commands :: "string list" where
  "known_commands = [''/status'', ''/balance'', ''/daily'', ''/session'', ''/pnl'', ''/entries'', ''/health'',
     ''/lastround'', ''/pause'', ''/resume'', ''/stop'', ''/emergencystop'', ''/mode'', ''/sheath'', ''/unsheath'',
     ''/config'', ''/analytics'', ''/login'', ''/login_cancel'', ''/start'', ''/menu'', ''/help'']"

text \<open>
  The pattern: a slash, a name, perhaps the name of the bot, blanks, and the rest of one line. The greedy match is the
  only one that can succeed.
\<close>

definition parseCommand :: "string \<Rightarrow> (string \<times> string list) option" where
  "parseCommand text =
     (let after = drop 1 text; name = takeWhile word_char after; rest = dropWhile word_char after;
          bot = takeWhile word_char (drop 1 rest);
          rest1 = (if take 1 rest = ''@'' \<and> bot \<noteq> '''' then drop (1 + length bot) rest else rest);
          line = dropWhile js_space rest1; argsText = js_trim line; command = CHR ''/'' # toLowerCase name
      in if take 1 text \<noteq> ''/'' \<or> name = '''' \<or> list_ex line_end line then None
         else if command \<notin> set known_commands then None
         else Some (command, if argsText = '''' then [] else split_words '''' argsText))"

section \<open>State\<close>

record pending_live =
  pl_token :: string
  pl_expiresAt :: int
  pl_requestedBy :: int

record pending_config =
  pg_key :: string
  pg_value :: string
  pg_operatorId :: string
  pg_expiresAt :: int

datatype login_step = Email_step | Password_step string

text \<open>
  \<open>op_login\<close> is keyed by the chat. \<open>op_running\<close>: the bot receives messages. \<open>op_commandCounts\<close> are the counters of the
  router with the start of their window, \<open>op_messageCounts\<close> those of the gateway with the end of theirs.
\<close>

record 's operator =
  op_app :: "'s app"
  op_admins :: "int list"
  op_maxPerMinute :: nat
  op_running :: bool
  op_live :: "string \<rightharpoonup> pending_live"
  op_config :: "(string \<times> pending_config) list"
  op_login :: "int \<rightharpoonup> login_step"
  op_commandCounts :: "int \<rightharpoonup> nat \<times> int"
  op_messageCounts :: "int \<rightharpoonup> nat \<times> int"
  op_lastPing :: "int option"

definition op_new :: "'s app \<Rightarrow> int list \<Rightarrow> nat \<Rightarrow> 's operator" where
  "op_new a admins rate = \<lparr>op_app = a, op_admins = admins, op_maxPerMinute = rate, op_running = True,
     op_live = (\<lambda>_. None), op_config = [], op_login = (\<lambda>_. None), op_commandCounts = (\<lambda>_. None),
     op_messageCounts = (\<lambda>_. None), op_lastPing = None\<rparr>"

record tg_message =
  tm_chatType :: "string option"
  tm_chatId :: "int option"
  tm_from :: "jsnum option"
  tm_text :: "string option"

record tg_env =
  te_now :: int
  te_token :: string
  te_supervisor :: supervisor_env

datatype tg_reply =
    R_not_private | R_no_sender | R_bad_identifier | R_gateway_limit | R_router_limit | R_unknown_command | R_error
  | R_report string
  | R_paused string | R_resumed | R_stopped string | R_sheathed | R_unsheathed | R_emergency string
  | R_current_mode string | R_invalid_mode string | R_live_token string | R_mode_changed string | R_mode_failed
  | R_token_missing | R_no_pending_live | R_token_expired | R_token_wrong | R_live_activated | R_live_failed
  | R_config_values "json option list" | R_config_usage | R_config_unknown_key string
  | R_config_token string | R_config_invalid_token | R_config_expired | R_config_other_operator
  | R_config_updated string string | R_config_failed
  | R_ask_email | R_ask_password | R_login_cancelled | R_no_chat | R_logging_in | R_login_result login_outcome

section \<open>Identity and rates\<close>

definition js_integer :: "jsnum \<Rightarrow> int option" where
  "js_integer x = (case x of Fin q \<Rightarrow> if of_int \<lfloor>q\<rfloor> = q then Some \<lfloor>q\<rfloor> else None | _ \<Rightarrow> None)"

text \<open>\<open>createAuthMiddleware\<close> with private chats enforced: the user it lets through, and whether it is an administrator.\<close>

definition authenticate :: "int list \<Rightarrow> tg_message \<Rightarrow> tg_reply + int \<times> bool" where
  "authenticate admins m =
     (if tm_chatType m \<noteq> Some ''private'' then Inl R_not_private
      else case tm_from m of
          None \<Rightarrow> Inl R_no_sender
        | Some x \<Rightarrow>
            (case js_integer x of
               Some uid \<Rightarrow> if 0 < uid then Inr (uid, uid \<in> set admins) else Inl R_bad_identifier
             | None \<Rightarrow> Inl R_bad_identifier))"

text \<open>The limit of the gateway, for every message.\<close>

definition gateway_limit :: "int \<Rightarrow> int \<Rightarrow> 's operator \<Rightarrow> bool \<times> 's operator" where
  "gateway_limit now uid st =
     (let (n, reset) = (case op_messageCounts st uid of
            Some (n, reset) \<Rightarrow> if now > reset then (0, now + 60000) else (n, reset)
          | None \<Rightarrow> (0, now + 60000))
      in (n + 1 \<le> op_maxPerMinute st, st\<lparr>op_messageCounts := (op_messageCounts st)(uid \<mapsto> (n + 1, reset))\<rparr>))"

text \<open>The limit of the router, for commands.\<close>

definition checkRateLimit :: "int \<Rightarrow> int \<Rightarrow> 's operator \<Rightarrow> bool \<times> 's operator" where
  "checkRateLimit now uid st =
     (case op_commandCounts st uid of
        None \<Rightarrow> (True, st\<lparr>op_commandCounts := (op_commandCounts st)(uid \<mapsto> (1, now))\<rparr>)
      | Some (count, windowStart) \<Rightarrow>
          if now - windowStart > 60000
          then (True, st\<lparr>op_commandCounts := (op_commandCounts st)(uid \<mapsto> (1, now))\<rparr>)
          else if count \<ge> 30 then (False, st)
          else (True, st\<lparr>op_commandCounts := (op_commandCounts st)(uid \<mapsto> (count + 1, windowStart))\<rparr>))"

section \<open>Control commands\<close>

definition on_app :: "('s app \<Rightarrow> 's app) \<Rightarrow> 's operator \<Rightarrow> 's operator" where
  "on_app f st = st\<lparr>op_app := f (op_app st)\<rparr>"

fun join_spaces :: "string list \<Rightarrow> string" where
  "join_spaces [] = ''''"
| "join_spaces [w] = w"
| "join_spaces (w # ws) = w @ CHR '' '' # join_spaces ws"

definition reason_of :: "string list \<Rightarrow> string \<Rightarrow> string" where
  "reason_of args otherwise = (let r = js_trim (join_spaces args) in if r = '''' then otherwise else r)"

definition pause_command :: "string list \<Rightarrow> 's operator \<Rightarrow> 's operator \<times> tg_reply list" where
  "pause_command args st =
     (let reason = reason_of args ''Operator requested pause''
      in (on_app (\<lambda>a. snd (pauseSystem reason a)) st, [R_paused (escapeMarkdown reason)]))"

definition resume_command :: "supervisor_env \<Rightarrow> 's operator \<Rightarrow> 's operator \<times> tg_reply list" where
  "resume_command v st = (on_app (resumeSystem v) st, [R_resumed])"

text \<open>\<open>stopSystem\<close> stops the bot as well.\<close>

definition stop_all :: "'s operator \<Rightarrow> 's operator" where
  "stop_all st = (on_app (\<lambda>a. snd (stopSystem a)) st)\<lparr>op_running := False\<rparr>"

definition stop_command :: "string list \<Rightarrow> 's operator \<Rightarrow> 's operator \<times> tg_reply list" where
  "stop_command args st =
     (let reason = reason_of args ''Operator requested stop'' in (stop_all st, [R_stopped (escapeMarkdown reason)]))"

definition sheath_command :: "'s operator \<Rightarrow> 's operator \<times> tg_reply list" where
  "sheath_command st = (on_app (\<lambda>a. snd (sheathSystem a)) st, [R_sheathed])"

definition unsheath_command :: "'s operator \<Rightarrow> 's operator \<times> tg_reply list" where
  "unsheath_command st = (on_app (\<lambda>a. snd (unsheathSystem a)) st, [R_unsheathed])"

definition emergency_command :: "string list \<Rightarrow> 's operator \<Rightarrow> 's operator \<times> tg_reply list" where
  "emergency_command args st =
     (let reason = reason_of args ''EMERGENCY STOP triggered by operator'';
          st1 = on_app (\<lambda>a. snd (pauseSystem reason a)) (st\<lparr>op_live := (\<lambda>_. None)\<rparr>)
      in (stop_all st1, [R_emergency (escapeMarkdown reason)]))"

text \<open>The alias table, then the modes themselves.\<close>

definition mode_of_alias :: "string \<Rightarrow> string option" where
  "mode_of_alias sub =
     (if sub = ''observe'' then Some ''observe-only''
      else if sub = ''dryrun'' \<or> sub = ''dry'' then Some ''dry-run''
      else if sub = ''maint'' then Some ''maintenance''
      else if sub \<in> set system_modes then Some sub else None)"

definition handleLiveConfirm :: "int \<Rightarrow> string \<Rightarrow> string list \<Rightarrow> 's operator \<Rightarrow> 's operator \<times> tg_reply list" where
  "handleLiveConfirm now operatorId args st =
     (let provided = toUpperCase (js_trim (if args = [] then '''' else hd args))
      in if provided = '''' then (st, [R_token_missing])
         else case op_live st operatorId of
             None \<Rightarrow> (st, [R_no_pending_live])
           | Some p \<Rightarrow>
               if now > pl_expiresAt p
               then (st\<lparr>op_live := (op_live st)(operatorId := None)\<rparr>, [R_token_expired])
               else if provided \<noteq> pl_token p then (st, [R_token_wrong])
               else let st1 = st\<lparr>op_live := (op_live st)(operatorId := None)\<rparr>;
                        (ok, a) = setSystemMode ''live'' (op_app st1)
                    in (st1\<lparr>op_app := a\<rparr>,
                        [case ok of None \<Rightarrow> R_error | Some True \<Rightarrow> R_live_activated | Some False \<Rightarrow> R_live_failed]))"

definition mode_command :: "int \<Rightarrow> string \<Rightarrow> int \<Rightarrow> string list \<Rightarrow> 's operator \<Rightarrow> 's operator \<times> tg_reply list" where
  "mode_command now token uid args st =
     (if args = [] then (st, [R_current_mode (ap_currentMode (op_app st))])
      else let sub = toLowerCase (hd args)
           in if sub = ''confirm'' then handleLiveConfirm now (int_str uid) (tl args) st
              else case mode_of_alias sub of
                  None \<Rightarrow> (st, [R_invalid_mode (escapeMarkdown sub)])
                | Some mode \<Rightarrow>
                    if mode = ''live''
                    then (st\<lparr>op_live := (op_live st)(int_str uid \<mapsto>
                            \<lparr>pl_token = token, pl_expiresAt = now + 60000, pl_requestedBy = uid\<rparr>)\<rparr>,
                          [R_live_token token])
                    else let (ok, a) = setSystemMode mode (op_app st)
                         in (st\<lparr>op_app := a\<rparr>,
                             [case ok of None \<Rightarrow> R_error | Some True \<Rightarrow> R_mode_changed mode | Some False \<Rightarrow> R_mode_failed]))"


section \<open>Configuration commands\<close>

definition secret_names :: "string list" where
  "secret_names = [''password'', ''secret'', ''token'', ''api_key'', ''apikey'', ''private_key'', ''bcgame_password'',
     ''bcgame_2fa_secret'', ''tenant_master_key'', ''paystack_secret'', ''stripe_secret'', ''encryption_key'']"

definition isSecretKey :: "string \<Rightarrow> bool" where
  "isSecretKey key \<longleftrightarrow>
     (let k = toLowerCase key
      in k \<in> set secret_names \<or> text_includes k ''password'' \<or> text_includes k ''secret'' \<or>
         text_includes k ''token'' \<or> text_includes k ''key'')"

text \<open>What a log line shows of a value.\<close>

definition redactValue :: "string \<Rightarrow> string \<Rightarrow> string" where
  "redactValue key v = (if isSecretKey key then ''[REDACTED]'' else v)"

definition handleConfigShow :: "'s operator \<Rightarrow> tg_reply list" where
  "handleConfigShow st =
     [R_config_values (map (\<lambda>k. getConfigValue k (ap_config (op_app st)))
        [''mode'', ''stakePerEntry'', ''cashOutTarget'', ''maxDailyEntries''])]"

definition cleanupExpiredTokens :: "int \<Rightarrow> (string \<times> pending_config) list \<Rightarrow> (string \<times> pending_config) list" where
  "cleanupExpiredTokens now ps = filter (\<lambda>(_, p). \<not> now > pg_expiresAt p) ps"

definition handleConfigSet ::
  "int \<Rightarrow> string \<Rightarrow> string \<Rightarrow> string list \<Rightarrow> 's operator \<Rightarrow> 's operator \<times> tg_reply list" where
  "handleConfigSet now token operatorId args st =
     (if length args < 2 then (st, [R_config_usage])
      else let key = hd args; v = join_spaces (tl args)
           in if getConfigValue key (ap_config (op_app st)) = None
              then (st, [R_config_unknown_key (escapeMarkdown key)])
              else (st\<lparr>op_config := cleanupExpiredTokens now (AList.update token
                       \<lparr>pg_key = key, pg_value = v, pg_operatorId = operatorId, pg_expiresAt = now + 300000\<rparr>
                       (op_config st))\<rparr>, [R_config_token token]))"

definition handleConfigConfirm :: "int \<Rightarrow> string \<Rightarrow> string list \<Rightarrow> 's operator \<Rightarrow> 's operator \<times> tg_reply list" where
  "handleConfigConfirm now operatorId args st =
     (if args = [] then (st, [R_config_usage])
      else let token = toUpperCase (hd args)
           in case map_of (op_config st) token of
                None \<Rightarrow> (st, [R_config_invalid_token])
              | Some p \<Rightarrow>
                  if now > pg_expiresAt p
                  then (st\<lparr>op_config := AList.delete token (op_config st)\<rparr>, [R_config_expired])
                  else if pg_operatorId p \<noteq> operatorId then (st, [R_config_other_operator])
                  else let (ok, a) = app_setConfigValue (pg_key p) (pg_value p) (op_app st)
                       in (st\<lparr>op_app := a, op_config := AList.delete token (op_config st)\<rparr>,
                           [if ok then R_config_updated (escapeMarkdown (pg_key p)) (escapeMarkdown (pg_value p))
                            else R_config_failed]))"

definition config_command ::
  "int \<Rightarrow> string \<Rightarrow> int \<Rightarrow> string list \<Rightarrow> 's operator \<Rightarrow> 's operator \<times> tg_reply list" where
  "config_command now token uid args st =
     (let sub = (if args = [] then '''' else toLowerCase (hd args))
      in if sub = '''' \<or> sub = ''show'' then (st, handleConfigShow st)
         else if sub = ''set'' then handleConfigSet now token (int_str uid) (tl args) st
         else if sub = ''confirm'' then handleConfigConfirm now (int_str uid) (tl args) st
         else (st, [R_config_usage]))"

section \<open>Logging in\<close>

definition login_command :: "int option \<Rightarrow> 's operator \<Rightarrow> 's operator \<times> tg_reply list" where
  "login_command chat st =
     (case chat of
        Some c \<Rightarrow> if c = 0 then (st, [R_no_chat])
                  else (st\<lparr>op_login := (op_login st)(c \<mapsto> Email_step)\<rparr>, [R_ask_email])
      | None \<Rightarrow> (st, [R_no_chat]))"

definition login_cancel_command :: "int option \<Rightarrow> 's operator \<Rightarrow> 's operator \<times> tg_reply list" where
  "login_cancel_command chat st =
     (case chat of
        Some c \<Rightarrow> (if c = 0 then st else st\<lparr>op_login := (op_login st)(c := None)\<rparr>, [R_login_cancelled])
      | None \<Rightarrow> (st, [R_login_cancelled]))"

text \<open>A text that is no command; the first component: it was consumed.\<close>

definition handleLoginConversationText ::
  "supervisor_env \<Rightarrow> int option \<Rightarrow> string \<Rightarrow> 's operator \<Rightarrow> bool \<times> 's operator \<times> tg_reply list" where
  "handleLoginConversationText v chat text st =
     (case chat of
        None \<Rightarrow> (False, st, [])
      | Some c \<Rightarrow>
          if c = 0 then (False, st, [])
          else (case op_login st c of
              None \<Rightarrow> (False, st, [])
            | Some Email_step \<Rightarrow>
                (True, st\<lparr>op_login := (op_login st)(c \<mapsto> Password_step (js_trim text))\<rparr>, [R_ask_password])
            | Some (Password_step email) \<Rightarrow>
                let st1 = st\<lparr>op_login := (op_login st)(c := None)\<rparr>
                in if email = '''' then (True, st1, [R_error])
                   else let (outcome, a) = app_login v (op_app st1)
                        in (True, st1\<lparr>op_app := a\<rparr>, [R_logging_in, R_login_result outcome])))"

section \<open>Dispatch\<close>

definition run_command ::
  "tg_env \<Rightarrow> int \<Rightarrow> int option \<Rightarrow> string \<Rightarrow> string list \<Rightarrow> 's operator \<Rightarrow> 's operator \<times> tg_reply list" where
  "run_command e uid chat command args st =
     (if command = ''/pause'' then pause_command args st
      else if command = ''/resume'' then resume_command (te_supervisor e) st
      else if command = ''/stop'' then stop_command args st
      else if command = ''/sheath'' then sheath_command st
      else if command = ''/unsheath'' then unsheath_command st
      else if command = ''/emergencystop'' then emergency_command args st
      else if command = ''/mode'' then mode_command (te_now e) (te_token e) uid args st
      else if command = ''/config'' then config_command (te_now e) (te_token e) uid args st
      else if command = ''/login'' then login_command chat st
      else if command = ''/login_cancel'' then login_cancel_command chat st
      else (st, [R_report command]))"

definition router_middleware :: "tg_env \<Rightarrow> int \<Rightarrow> tg_message \<Rightarrow> 's operator \<Rightarrow> 's operator \<times> tg_reply list" where
  "router_middleware e uid m st =
     (let ping = st\<lparr>op_lastPing := Some (te_now e)\<rparr>
      in case tm_text m of
           None \<Rightarrow> (ping, [])
         | Some text \<Rightarrow>
             if text = '''' then (ping, [])
             else if take 1 text \<noteq> ''/''
             then (let (handled, st1, replies) = handleLoginConversationText (te_supervisor e) (tm_chatId m) text st
                   in if handled then (st1, replies) else (ping, []))
             else (let (allowed, st1) = checkRateLimit (te_now e) uid st
                   in if \<not> allowed then (st1, [R_router_limit])
                      else (case parseCommand text of
                          None \<Rightarrow> (st1, [R_unknown_command])
                        | Some (command, args) \<Rightarrow> run_command e uid (tm_chatId m) command args st1)))"

definition handle_message :: "tg_message \<Rightarrow> tg_env \<Rightarrow> 's operator \<Rightarrow> 's operator \<times> tg_reply list" where
  "handle_message m e st =
     (if \<not> op_running st then (st, [])
      else case authenticate (op_admins st) m of
          Inl reply \<Rightarrow> (st, [reply])
        | Inr (uid, admin) \<Rightarrow>
            (let (allowed, st1) = gateway_limit (te_now e) uid st
             in if \<not> allowed then (st1, [R_gateway_limit]) else router_middleware e uid m st1))"

datatype op_event = OE_message tg_message tg_env | OE_app app_event

fun op_step :: "'s idem_ops \<Rightarrow> 's operator \<Rightarrow> op_event \<Rightarrow> 's operator" where
  "op_step ops st (OE_message m e) = fst (handle_message m e st)"
| "op_step ops st (OE_app e) = on_app (\<lambda>a. app_step ops a e) st"

section \<open>Texts survive escaping\<close>

lemma escape_char_by_char:
  "escapeMarkdown s = concat (map (\<lambda>x. if x \<in> {char_of (92::nat), CHR 0x60, CHR ''*'', CHR ''_''}
     then [char_of (92::nat), x] else [x]) s)"
  by (induction s) (auto simp: escapeMarkdown_def replace_char_def char_of_def)

lemma unescape_step:
  "c \<noteq> char_of (92::nat) \<Longrightarrow> unescapeMarkdown (c # s) = c # unescapeMarkdown s"
  by (cases s) auto

text \<open>
  Escaping loses nothing: from the escaped form of any text, removing one backslash before each escaped character
  gives the text back.
\<close>

theorem escape_round_trip: "unescapeMarkdown (escapeMarkdown s) = s"
  unfolding escape_char_by_char
  by (induction s) (auto simp: unescape_step)


section \<open>Who asks and who confirms\<close>

definition sender :: "tg_message \<Rightarrow> int option" where
  "sender m = (case authenticate [] m of Inr (uid, _) \<Rightarrow> Some uid | Inl _ \<Rightarrow> None)"

definition command_in :: "tg_message \<Rightarrow> (string \<times> string list) option" where
  "command_in m = (case tm_text m of
      Some text \<Rightarrow> if take 1 text = ''/'' then parseCommand text else None
    | None \<Rightarrow> None)"

text \<open>A message of an operator that asks for live mode at a time, with the token it is answered; and a confirmation.\<close>

fun requests_live :: "string \<Rightarrow> string \<Rightarrow> int \<Rightarrow> op_event \<Rightarrow> bool" where
  "requests_live operator token t (OE_message m e) \<longleftrightarrow>
     map_option int_str (sender m) = Some operator \<and> te_token e = token \<and> te_now e = t \<and>
     (case command_in m of
        Some (command, a # _) \<Rightarrow> command = ''/mode'' \<and> toLowerCase a = ''live''
      | _ \<Rightarrow> False)"
| "requests_live _ _ _ (OE_app _) = False"

fun confirms_live :: "string \<Rightarrow> string \<Rightarrow> int \<Rightarrow> op_event \<Rightarrow> bool" where
  "confirms_live operator token t (OE_message m e) \<longleftrightarrow>
     map_option int_str (sender m) = Some operator \<and> te_now e = t \<and>
     (case command_in m of
        Some (command, a # b # _) \<Rightarrow>
          command = ''/mode'' \<and> toLowerCase a = ''confirm'' \<and> toUpperCase (js_trim b) = token
      | _ \<Rightarrow> False)"
| "confirms_live _ _ _ (OE_app _) = False"

text \<open>Events that leave the configuration to the control commands.\<close>

fun no_config_command :: "op_event \<Rightarrow> bool" where
  "no_config_command (OE_message m _) = (case command_in m of Some (command, _) \<Rightarrow> command \<noteq> ''/config'' | None \<Rightarrow> True)"
| "no_config_command (OE_app e) = (no_config_change e \<and> \<not> sets_a_mode e)"

lemma commands_keep_config [simp]:
  "ap_config (snd (pauseSystem r a)) = ap_config a" "ap_config (resumeSystem v a) = ap_config a"
  "ap_config (snd (stopSystem a)) = ap_config a" "ap_config (snd (sheathSystem a)) = ap_config a"
  "ap_config (snd (unsheathSystem a)) = ap_config a" "ap_config (snd (app_login v a)) = ap_config a"
  by (simp_all add: pauseSystem_def resumeSystem_def stopSystem_def sheathSystem_def unsheathSystem_def app_login_def
      supervisor_start_def Let_def split: prod.split)

lemma on_app_simps [simp]:
  "op_app (on_app f st) = f (op_app st)" "op_live (on_app f st) = op_live st" "op_admins (on_app f st) = op_admins st"
  "op_running (on_app f st) = op_running st" "op_config (on_app f st) = op_config st"
  by (simp_all add: on_app_def)

lemma stop_all_simps [simp]:
  "op_app (stop_all st) = snd (stopSystem (op_app st))" "op_live (stop_all st) = op_live st"
  "op_admins (stop_all st) = op_admins st" "\<not> op_running (stop_all st)" "op_config (stop_all st) = op_config st"
  by (simp_all add: stop_all_def)

lemma setSystemMode_config:
  "config_mode (ap_config (snd (setSystemMode mode a))) \<in> {Some mode, config_mode (ap_config a)}"
proof (cases "put_path [''system'', ''mode''] (J_str mode) (ap_config a)")
  case (Some config')
  have "get_path (Some config') [''system'', ''mode''] = Some (J_str mode)" by (rule get_path_put_same [OF Some])
  then have "config_mode config' = Some mode"
    by (cases config') (auto simp: config_mode_def config_entry_def split: option.splits json.splits)
  with Some show ?thesis by (simp add: setSystemMode_def Let_def del: put_path.simps)
qed (simp add: setSystemMode_def Let_def del: put_path.simps)

text \<open>What the two limits leave alone.\<close>

lemma gateway_limit_keeps:
  "gateway_limit now uid st = (ok, st1) \<Longrightarrow>
     op_app st1 = op_app st \<and> op_live st1 = op_live st \<and> op_config st1 = op_config st \<and> op_running st1 = op_running st"
  by (auto simp: gateway_limit_def Let_def split: prod.splits)

lemma checkRateLimit_keeps:
  "checkRateLimit now uid st = (ok, st1) \<Longrightarrow>
     op_app st1 = op_app st \<and> op_live st1 = op_live st \<and> op_config st1 = op_config st \<and> op_running st1 = op_running st"
  by (auto simp: checkRateLimit_def Let_def split: prod.splits option.splits if_splits)

lemma app_login_keeps_config: "app_login v a = (outcome, b) \<Longrightarrow> ap_config b = ap_config a"
  by (metis commands_keep_config(6) snd_conv)

lemma login_text_keeps:
  "handleLoginConversationText v chat text st = (ok, st1, rs) \<Longrightarrow>
     op_live st1 = op_live st \<and> op_config st1 = op_config st \<and> ap_config (op_app st1) = ap_config (op_app st)"
  by (auto simp: handleLoginConversationText_def Let_def dest: app_login_keeps_config
      split: prod.splits option.splits login_step.splits if_splits)

lemma authenticate_sender: "authenticate admins m = Inr (uid, b) \<Longrightarrow> sender m = Some uid"
  by (auto simp: authenticate_def sender_def split: if_splits option.splits)

text \<open>
  The way of a message: either the configuration and the confirmations stay as they are, or it is a command of its
  sender.
\<close>

lemma message_cases:
  obtains (idle) "op_live (fst (handle_message m e st)) = op_live st"
      "op_config (fst (handle_message m e st)) = op_config st"
      "ap_config (op_app (fst (handle_message m e st))) = ap_config (op_app st)"
  | (command) uid command args st1 where "sender m = Some uid" "command_in m = Some (command, args)"
      "op_app st1 = op_app st" "op_live st1 = op_live st" "op_config st1 = op_config st"
      "handle_message m e st = run_command e uid (tm_chatId m) command args st1"
proof -
  let ?idle = "op_live (fst (handle_message m e st)) = op_live st \<and>
      op_config (fst (handle_message m e st)) = op_config st \<and>
      ap_config (op_app (fst (handle_message m e st))) = ap_config (op_app st)"
  let ?command = "\<exists>uid command args st1. sender m = Some uid \<and> command_in m = Some (command, args) \<and>
      op_app st1 = op_app st \<and> op_live st1 = op_live st \<and> op_config st1 = op_config st \<and>
      handle_message m e st = run_command e uid (tm_chatId m) command args st1"
  have "?idle \<or> ?command"
  proof (cases "op_running st")
    case False
    then show ?thesis by (simp add: handle_message_def)
  next
    case running: True
    show ?thesis
    proof (cases "authenticate (op_admins st) m")
      case (Inl r)
      with running show ?thesis by (simp add: handle_message_def)
    next
      case (Inr who)
      obtain uid b where who: "who = (uid, b)" by (cases who)
      obtain ok st1 where g: "gateway_limit (te_now e) uid st = (ok, st1)" by (cases "gateway_limit (te_now e) uid st")
      note keep1 = gateway_limit_keeps [OF g]
      have hm: "handle_message m e st = (if \<not> ok then (st1, [R_gateway_limit]) else router_middleware e uid m st1)"
        using running Inr by (simp add: handle_message_def who g)
      obtain ok2 st2 where c: "checkRateLimit (te_now e) uid st1 = (ok2, st2)" by (cases "checkRateLimit (te_now e) uid st1")
      note keep2 = checkRateLimit_keeps [OF c]
      show ?thesis
      proof (cases "ok \<and> ok2 \<and> command_in m \<noteq> None")
        case True
        then obtain command args where cmd: "command_in m = Some (command, args)" by auto
        then have "handle_message m e st = run_command e uid (tm_chatId m) command args st2"
          using True by (auto simp: hm router_middleware_def command_in_def c Let_def split: option.splits if_splits)
        moreover have "sender m = Some uid" using authenticate_sender Inr who by blast
        ultimately show ?thesis using cmd keep1 keep2 by metis
      next
        case False
        then have ?idle
          using keep1 keep2 login_text_keeps [of "te_supervisor e" "tm_chatId m" _ st1]
          by (auto simp: hm router_middleware_def command_in_def c Let_def split: option.splits if_splits prod.splits)
        then show ?thesis ..
      qed
    qed
  qed
  then show thesis using idle command by blast
qed


lemma run_command_live:
  assumes "op_live (fst (run_command e uid chat command args st)) operator = Some p"
  shows "op_live st operator = Some p \<or>
    operator = int_str uid \<and> command = ''/mode'' \<and> args \<noteq> [] \<and> toLowerCase (hd args) = ''live'' \<and>
    pl_token p = te_token e \<and> pl_expiresAt p = te_now e + 60000"
proof (cases "command = ''/mode''")
  case True
  then show ?thesis
    using assms
    by (auto simp: run_command_def mode_command_def handleLiveConfirm_def mode_of_alias_def Let_def
      split: if_splits option.splits prod.splits)
next
  case False
  then show ?thesis
    using assms
    by (auto simp: run_command_def pause_command_def resume_command_def stop_command_def sheath_command_def
      unsheath_command_def emergency_command_def config_command_def handleConfigSet_def handleConfigConfirm_def
      login_command_def login_cancel_command_def Let_def split: if_splits option.splits prod.splits)
qed

lemma run_command_mode:
  assumes "command \<noteq> ''/config''"
    and "config_mode (ap_config (op_app (fst (run_command e uid chat command args st)))) = Some ''live''"
  shows "config_mode (ap_config (op_app st)) = Some ''live'' \<or>
    (\<exists>p. op_live st (int_str uid) = Some p \<and> te_now e \<le> pl_expiresAt p \<and> command = ''/mode'' \<and> args \<noteq> [] \<and>
       toLowerCase (hd args) = ''confirm'' \<and> tl args \<noteq> [] \<and> toUpperCase (js_trim (hd (tl args))) = pl_token p)"
proof (cases "command = ''/mode''")
  case mode: True
  have nonempty: "toUpperCase (js_trim []) = []" by (simp add: toUpperCase_def js_trim_def)
  consider (none) "args = []" | (confirm) "args \<noteq> []" "toLowerCase (hd args) = ''confirm''"
    | (other) "args \<noteq> []" "toLowerCase (hd args) \<noteq> ''confirm''" by blast
  then show ?thesis
  proof cases
    case confirm
    then show ?thesis
      using assms(2) mode nonempty
      by (auto simp: run_command_def mode_command_def handleLiveConfirm_def Let_def
        split: if_splits option.splits prod.splits)
  next
    case other
    have keep: "config_mode (ap_config b) \<noteq> Some ''live''"
      if "setSystemMode mode (op_app st) = (ok, b)" "mode \<noteq> ''live''" "config_mode (ap_config (op_app st)) \<noteq> Some ''live''"
      for mode ok b
      using setSystemMode_config [of mode "op_app st"] that by auto
    show ?thesis
      using assms(2) mode other keep
      by (auto simp: run_command_def mode_command_def Let_def split: if_splits option.splits prod.splits)
  qed (use assms mode in \<open>simp add: run_command_def mode_command_def\<close>)
next
  case False
  with assms show ?thesis
    by (auto simp: run_command_def pause_command_def resume_command_def stop_command_def sheath_command_def
      unsheath_command_def emergency_command_def login_command_def login_cancel_command_def Let_def
      split: if_splits option.splits prod.splits)
qed

text \<open>The two invariants of a run: where a pending confirmation comes from, and where live mode comes from.\<close>

definition live_origin :: "op_event list \<Rightarrow> string \<Rightarrow> string \<Rightarrow> int \<Rightarrow> bool" where
  "live_origin es operator token expires \<longleftrightarrow>
     (\<exists>pre e post. es = pre @ e # post \<and> requests_live operator token (expires - 60000) e)"

definition live_agreed :: "op_event list \<Rightarrow> bool" where
  "live_agreed es \<longleftrightarrow> (\<exists>pre e mid c post operator token t1 t2.
     es = pre @ e # mid @ c # post \<and> requests_live operator token t1 e \<and> confirms_live operator token t2 c \<and>
     t2 \<le> t1 + 60000)"

lemma live_origin_snoc: "live_origin es operator token t \<Longrightarrow> live_origin (es @ [e]) operator token t"
  unfolding live_origin_def by (metis append_Cons append_assoc)

lemma live_agreed_snoc: "live_agreed es \<Longrightarrow> live_agreed (es @ [e])"
  unfolding live_agreed_def by (metis append_Cons append_assoc)

lemma pending_has_origin:
  "op_live (foldl (op_step ops) (op_new a admins rate) es) operator = Some p \<Longrightarrow>
     live_origin es operator (pl_token p) (pl_expiresAt p)"
proof (induction es arbitrary: operator p rule: rev_induct)
  case Nil
  then show ?case by (simp add: op_new_def)
next
  case (snoc ev es)
  let ?st = "foldl (op_step ops) (op_new a admins rate) es"
  show ?case
  proof (cases ev)
    case (OE_app x)
    with snoc show ?thesis by (auto intro: live_origin_snoc)
  next
    case (OE_message m e)
    show ?thesis
    proof (cases rule: message_cases [of m e ?st])
      case idle
      with snoc OE_message show ?thesis by (auto intro: live_origin_snoc)
    next
      case (command uid cmd args st1)
      have "op_live (fst (run_command e uid (tm_chatId m) cmd args st1)) operator = Some p"
        using snoc.prems OE_message command by simp
      from run_command_live [OF this] show ?thesis
      proof
        assume "op_live st1 operator = Some p"
        with snoc.IH command show ?thesis by (auto intro: live_origin_snoc)
      next
        assume asked: "operator = int_str uid \<and> cmd = ''/mode'' \<and> args \<noteq> [] \<and> toLowerCase (hd args) = ''live'' \<and>
          pl_token p = te_token e \<and> pl_expiresAt p = te_now e + 60000"
        then have "requests_live operator (pl_token p) (pl_expiresAt p - 60000) ev"
          using command OE_message by (cases args) auto
        then show ?thesis unfolding live_origin_def by blast
      qed
    qed
  qed
qed

text \<open>
  C5. Real betting is switched on only by agreement: if the configured mode is live at the end of a run that did not
  start in it, with nobody editing the configuration by key, then some operator asked for live mode with \<open>/mode live\<close> and
  the same operator confirmed it with the token of that request, at most 60 seconds later.
\<close>

theorem live_mode_needs_agreement:
  assumes "config_mode (ap_config a) \<noteq> Some ''live''" and "list_all no_config_command es"
    and "config_mode (ap_config (op_app (foldl (op_step ops) (op_new a admins rate) es))) = Some ''live''"
  shows "live_agreed es"
  using assms(2,3)
proof (induction es rule: rev_induct)
  case Nil
  with assms(1) show ?case by (simp add: op_new_def)
next
  case (snoc ev es)
  let ?st = "foldl (op_step ops) (op_new a admins rate) es"
  show ?case
  proof (cases "config_mode (ap_config (op_app ?st)) = Some ''live''")
    case True
    with snoc show ?thesis by (auto intro: live_agreed_snoc)
  next
    case False
    then obtain m e where ev: "ev = OE_message m e"
      using snoc.prems config_kept [of _ ops "op_app ?st"] by (cases ev) auto
    show ?thesis
    proof (cases rule: message_cases [of m e ?st])
      case idle
      with snoc.prems False ev show ?thesis by auto
    next
      case (command uid cmd args st1)
      have "cmd \<noteq> ''/config''" using snoc.prems command ev by auto
      moreover have "config_mode (ap_config (op_app (fst (run_command e uid (tm_chatId m) cmd args st1)))) = Some ''live''"
        using snoc.prems command ev by simp
      ultimately obtain p where p: "op_live st1 (int_str uid) = Some p" "te_now e \<le> pl_expiresAt p" "cmd = ''/mode''"
        "args \<noteq> []" "toLowerCase (hd args) = ''confirm''" "tl args \<noteq> []" "toUpperCase (js_trim (hd (tl args))) = pl_token p"
        using run_command_mode [of cmd e uid "tm_chatId m" args st1] False command by metis
      then obtain x y zs where args: "args = x # y # zs" by (cases args; cases "tl args") auto
      have confirm: "confirms_live (int_str uid) (pl_token p) (te_now e) ev" using p command ev args by simp
      obtain pre r post where "es = pre @ r # post" "requests_live (int_str uid) (pl_token p) (pl_expiresAt p - 60000) r"
        using pending_has_origin [of ops a admins rate es "int_str uid" p] p(1) command unfolding live_origin_def by auto
      then have "es @ [ev] = pre @ r # post @ ev # []" by simp
      with \<open>requests_live _ _ _ r\<close> confirm p(2) show ?thesis
        unfolding live_agreed_def by (metis add.commute diff_add_cancel)
    qed
  qed
qed


definition demo_message :: "string \<Rightarrow> tg_message" where
  "demo_message text = \<lparr>tm_chatType = Some ''private'', tm_chatId = Some 7, tm_from = Some (Fin 7), tm_text = Some text\<rparr>"

definition demo_answers :: "int \<Rightarrow> string \<Rightarrow> tg_env" where
  "demo_answers now token = \<lparr>te_now = now, te_token = token,
     te_supervisor = \<lparr>se_mode = None, se_now = '''', se_sessionId = None, se_newSessionId = '''', se_preflight_ok = False,
       se_launch = Inl '''', se_context = False, se_page = False, se_restore = Inl '''', se_check = Inl '''',
       se_navigate = Inl '''', se_adapter_start = Inl '''', se_pipeline = Inl ''''\<rparr>\<rparr>"

lemma demo_parses:
  "parseCommand ''/mode live'' = Some (''/mode'', [''live''])"
  "parseCommand ''/mode confirm ab12cd34'' = Some (''/mode'', [''confirm'', ''ab12cd34''])"
  "parseCommand ''/pause'' = Some (''/pause'', [])"
  "parseCommand ''/stop'' = Some (''/stop'', [])"
  by code_simp+

lemma demo_texts:
  "toLowerCase ''live'' = ''live''" "toLowerCase ''confirm'' = ''confirm''"
  "toUpperCase (js_trim ''ab12cd34'') = ''AB12CD34''" "mode_of_alias ''live'' = Some ''live''"
  by code_simp+

lemma demo_fields:
  "tm_text (demo_message text) = Some text" "tm_chatId (demo_message text) = Some 7"
  "te_now (demo_answers now token) = now" "te_token (demo_answers now token) = token"
  by (simp_all add: demo_message_def demo_answers_def)

lemma demo_sender: "authenticate admins (demo_message text) = Inr (7, 7 \<in> set admins)"
  by (simp add: authenticate_def demo_message_def js_integer_def)

theorem live_mode_needs_agreement_witness:
  "live_agreed [OE_message (demo_message ''/mode live'') (demo_answers 1000 ''AB12CD34''),
     OE_message (demo_message ''/mode confirm ab12cd34'') (demo_answers 50000 '''')]"
proof (rule live_mode_needs_agreement [where a = demo_app and ops = undefined and admins = "[]" and rate = 30])
  show "config_mode (ap_config demo_app) \<noteq> Some ''live''"
    by (simp add: demo_app_config demo_config_def config_mode_def config_entry_def)
  show "list_all no_config_command [OE_message (demo_message ''/mode live'') (demo_answers 1000 ''AB12CD34''),
     OE_message (demo_message ''/mode confirm ab12cd34'') (demo_answers 50000 '''')]"
    by (simp add: command_in_def demo_fields demo_parses)
  show "config_mode (ap_config (op_app (foldl (op_step undefined) (op_new demo_app [] 30)
      [OE_message (demo_message ''/mode live'') (demo_answers 1000 ''AB12CD34''),
       OE_message (demo_message ''/mode confirm ab12cd34'') (demo_answers 50000 '''')]))) = Some ''live''"
    by (simp add: handle_message_def demo_sender router_middleware_def demo_fields demo_parses
        gateway_limit_def checkRateLimit_def run_command_def mode_command_def handleLiveConfirm_def demo_texts op_new_def
        setSystemMode_def system_modes_def demo_app_config demo_config_def config_mode_def config_entry_def Let_def)
qed

section \<open>The allowlist\<close>

text \<open>Whether the sender is on the list of administrators is computed and never looked at.\<close>

lemma authenticate_admins:
  "(case authenticate xs m of Inl r \<Rightarrow> authenticate ys m = Inl r | Inr (u, b) \<Rightarrow> authenticate ys m = Inr (u, u \<in> set ys))"
  by (auto simp: authenticate_def split: option.split)

lemma gateway_limit_admins:
  "gateway_limit now uid (st\<lparr>op_admins := xs\<rparr>) = map_prod id (\<lambda>s. s\<lparr>op_admins := xs\<rparr>) (gateway_limit now uid st)"
  by (simp add: gateway_limit_def Let_def split: prod.split option.split)

lemma checkRateLimit_admins:
  "checkRateLimit now uid (st\<lparr>op_admins := xs\<rparr>) = map_prod id (\<lambda>s. s\<lparr>op_admins := xs\<rparr>) (checkRateLimit now uid st)"
  by (simp add: checkRateLimit_def Let_def split: prod.split option.split)

lemma login_text_admins:
  "handleLoginConversationText v chat text (st\<lparr>op_admins := xs\<rparr>) =
     map_prod id (map_prod (\<lambda>s. s\<lparr>op_admins := xs\<rparr>) id) (handleLoginConversationText v chat text st)"
  by (simp add: handleLoginConversationText_def Let_def split: prod.split option.split login_step.split)

lemma control_admins:
  "pause_command args (st\<lparr>op_admins := xs\<rparr>) = map_prod (\<lambda>s. s\<lparr>op_admins := xs\<rparr>) id (pause_command args st)"
  "resume_command v (st\<lparr>op_admins := xs\<rparr>) = map_prod (\<lambda>s. s\<lparr>op_admins := xs\<rparr>) id (resume_command v st)"
  "stop_command args (st\<lparr>op_admins := xs\<rparr>) = map_prod (\<lambda>s. s\<lparr>op_admins := xs\<rparr>) id (stop_command args st)"
  "sheath_command (st\<lparr>op_admins := xs\<rparr>) = map_prod (\<lambda>s. s\<lparr>op_admins := xs\<rparr>) id (sheath_command st)"
  "unsheath_command (st\<lparr>op_admins := xs\<rparr>) = map_prod (\<lambda>s. s\<lparr>op_admins := xs\<rparr>) id (unsheath_command st)"
  "emergency_command args (st\<lparr>op_admins := xs\<rparr>) = map_prod (\<lambda>s. s\<lparr>op_admins := xs\<rparr>) id (emergency_command args st)"
  by (simp_all add: pause_command_def resume_command_def stop_command_def sheath_command_def
      unsheath_command_def emergency_command_def on_app_def stop_all_def Let_def)

lemma mode_admins:
  "mode_command now token uid args (st\<lparr>op_admins := xs\<rparr>) =
     map_prod (\<lambda>s. s\<lparr>op_admins := xs\<rparr>) id (mode_command now token uid args st)"
  by (auto simp: mode_command_def handleLiveConfirm_def Let_def split: prod.split option.split)

lemma config_admins:
  "config_command now token uid args (st\<lparr>op_admins := xs\<rparr>) =
     map_prod (\<lambda>s. s\<lparr>op_admins := xs\<rparr>) id (config_command now token uid args st)"
  by (auto simp: config_command_def handleConfigShow_def handleConfigSet_def handleConfigConfirm_def Let_def
      split: prod.split option.split)

lemma login_admins:
  "login_command chat (st\<lparr>op_admins := xs\<rparr>) = map_prod (\<lambda>s. s\<lparr>op_admins := xs\<rparr>) id (login_command chat st)"
  "login_cancel_command chat (st\<lparr>op_admins := xs\<rparr>) = map_prod (\<lambda>s. s\<lparr>op_admins := xs\<rparr>) id (login_cancel_command chat st)"
  by (auto simp: login_command_def login_cancel_command_def split: option.split)

lemma run_command_admins:
  "run_command e uid chat cmd args (st\<lparr>op_admins := xs\<rparr>) =
     map_prod (\<lambda>s. s\<lparr>op_admins := xs\<rparr>) id (run_command e uid chat cmd args st)"
  by (simp add: run_command_def control_admins mode_admins config_admins login_admins)

lemma router_admins:
  "router_middleware e uid m (st\<lparr>op_admins := xs\<rparr>) =
     map_prod (\<lambda>s. s\<lparr>op_admins := xs\<rparr>) id (router_middleware e uid m st)"
  by (simp add: router_middleware_def Let_def login_text_admins checkRateLimit_admins run_command_admins
      split: prod.split option.split)

text \<open>
  The allowlist decides nothing: whatever list of user identifiers the bot is configured with, a message has the
  same effect on the program and the same replies. Every Telegram user with a private chat commands it.
\<close>

lemma allowlist_decides_nothing:
  "handle_message m e (st\<lparr>op_admins := xs\<rparr>) = map_prod (\<lambda>s. s\<lparr>op_admins := xs\<rparr>) id (handle_message m e st)"
proof (cases "authenticate (op_admins st) m")
  case (Inl r)
  with authenticate_admins [where xs = "op_admins st" and m = m and ys = xs] show ?thesis by (simp add: handle_message_def)
next
  case (Inr who)
  obtain uid b where who: "who = (uid, b)" by (cases who)
  obtain ok st1 where g: "gateway_limit (te_now e) uid st = (ok, st1)" by (cases "gateway_limit (te_now e) uid st")
  from Inr who authenticate_admins [where xs = "op_admins st" and m = m and ys = xs]
  have "authenticate xs m = Inr (uid, uid \<in> set xs)" by simp
  with Inr who g show ?thesis
    by (simp add: handle_message_def gateway_limit_admins router_admins)
qed

text \<open>A stranger pauses the program.\<close>

lemma stranger_pauses:
  "ap_halted (op_app (op_step ops (op_new a [1, 2, 3] 30) (OE_message (demo_message ''/pause'') (demo_answers 0 ''''))))"
  by (simp add: handle_message_def demo_sender router_middleware_def demo_fields demo_parses
      gateway_limit_def checkRateLimit_def run_command_def pause_command_def op_new_def pauseSystem_def on_app_def Let_def)

section \<open>Stopping\<close>

text \<open>
  The stop commands switch the bot off as well: after a \<open>/stop\<close> or \<open>/emergencystop\<close> that is carried out, no message is
  heard any more; no command changes the program or is answered, whoever sends it and however often.
\<close>

theorem stop_deafens_the_bot:
  assumes "command \<in> {''/stop'', ''/emergencystop''}"
  shows "let st' = fst (run_command e uid chat command args st)
    in foldl (op_step ops) st' (map (\<lambda>(m, e). OE_message m e) ms) = st' \<and>
       map (\<lambda>(m, e). snd (handle_message m e st')) ms = map (\<lambda>_. []) ms"
proof -
  let ?st = "fst (run_command e uid chat command args st)"
  have off: "\<not> op_running ?st"
    using assms by (auto simp: run_command_def stop_command_def emergency_command_def Let_def)
  then have quiet: "handle_message m e' ?st = (?st, [])" for m e' by (simp add: handle_message_def)
  have "foldl (op_step ops) ?st (map (\<lambda>(m, e). OE_message m e) ms) = ?st"
    by (induction ms) (simp_all add: quiet case_prod_beta)
  then show ?thesis by (simp add: quiet Let_def case_prod_beta)
qed

theorem stop_deafens_the_bot_witness:
  "let st' = fst (run_command (demo_answers 0 '''') 7 None ''/stop'' [] (op_new demo_app [7] 30))
   in foldl (op_step undefined) st'
        (map (\<lambda>(m, e). OE_message m e) [(demo_message ''/mode live'', demo_answers 1 '''')]) = st' \<and>
      map (\<lambda>(m, e). snd (handle_message m e st')) [(demo_message ''/mode live'', demo_answers 1 '''')] =
        map (\<lambda>_. []) [(demo_message ''/mode live'', demo_answers 1 '''')]"
  by (rule stop_deafens_the_bot) simp

section \<open>Changes of the configuration\<close>

lemma other_commands_keep_config:
  "cmd \<noteq> ''/mode'' \<Longrightarrow> cmd \<noteq> ''/config'' \<Longrightarrow>
     ap_config (op_app (fst (run_command e uid chat cmd args st))) = ap_config (op_app st)"
  by (simp add: run_command_def pause_command_def resume_command_def stop_command_def sheath_command_def
      unsheath_command_def emergency_command_def login_command_def login_cancel_command_def Let_def
      split: option.split)

lemma config_command_changes:
  assumes "ap_config (op_app (fst (config_command now token uid args st))) \<noteq> ap_config (op_app st)"
  shows "\<exists>a b rest. args = a # b # rest \<and> toLowerCase a = ''confirm'' \<and>
    config_command now token uid args st = handleConfigConfirm now (int_str uid) (b # rest) st"
proof -
  have set: "ap_config (op_app (fst (handleConfigSet now token o' ws st))) = ap_config (op_app st)" for o' ws
    by (simp add: handleConfigSet_def Let_def)
  have none: "ap_config (op_app (fst (handleConfigConfirm now o' [] st))) = ap_config (op_app st)" for o'
    by (simp add: handleConfigConfirm_def)
  obtain a ws where args: "args = a # ws"
    using assms by (cases args) (auto simp: config_command_def)
  with assms set have "toLowerCase a = ''confirm''" "ws \<noteq> []"
    using none by (auto simp: config_command_def Let_def split: if_splits)
  with args show ?thesis by (cases ws) (auto simp: config_command_def Let_def)
qed

lemma handleConfigConfirm_changes:
  assumes "ap_config (op_app (fst (handleConfigConfirm now operator (b # rest) st))) \<noteq> ap_config (op_app st)"
  shows "\<exists>p. map_of (op_config st) (toUpperCase b) = Some p \<and> pg_operatorId p = operator \<and> now \<le> pg_expiresAt p \<and>
    ap_config (op_app (fst (handleConfigConfirm now operator (b # rest) st))) =
      snd (setConfigValue (pg_key p) (pg_value p) (ap_config (op_app st))) \<and>
    map_of (op_config (fst (handleConfigConfirm now operator (b # rest) st))) (toUpperCase b) = None"
  using assms
  by (auto simp: handleConfigConfirm_def app_setConfigValue_def delete_conv' Let_def
      split: if_splits option.splits prod.splits)



definition demo_pending :: "nat operator" where
  "demo_pending = (op_new demo_app [] 30)\<lparr>op_config := [(''AB'', \<lparr>pg_key = ''betting.x'', pg_value = ''y'',
     pg_operatorId = ''7'', pg_expiresAt = 300000\<rparr>)]\<rparr>"

lemma demo_confirm_parses: "parseCommand ''/config confirm ab'' = Some (''/config'', [''confirm'', ''ab''])"
  by code_simp

lemma demo_confirm_changes:
  "ap_config (op_app (fst (handle_message (demo_message ''/config confirm ab'') (demo_answers 5 '''') demo_pending))) \<noteq>
     ap_config (op_app demo_pending)"
proof -
  have texts: "toUpperCase ''ab'' = ''AB''" "toLowerCase ''confirm'' = ''confirm''" "int_str 7 = ''7''"
    by (code_simp, code_simp, code_simp)
  show ?thesis
    by (simp add: demo_pending_def op_new_def handle_message_def demo_sender router_middleware_def demo_fields
        demo_confirm_parses gateway_limit_def checkRateLimit_def run_command_def config_command_def handleConfigConfirm_def
        texts app_setConfigValue_def setConfigValue_def config_value_def positive_keys_def demo_app_config demo_config_def
        Let_def)
qed


end
