(* ===== verification/Metrics.thy ===== *)
theory Metrics
  imports PnL
begin

text \<open>
  The metrics of \<open>src/src/analytics/metrics\<close>: hit rate with its Wilson interval, drawdown, streaks, expected value,
  latency and cash-out success, each a function of the recorded outcomes. \<open>Math.sqrt\<close>, \<open>Math.log\<close> and \<open>Math.pow\<close>,
  which the language leaves to the implementation, are the fields of an argument. Time stamps are epoch
  milliseconds, latencies whole milliseconds.
\<close>

section \<open>Records and constants\<close>

record js_math =
  mt_sqrt :: "jsnum \<Rightarrow> jsnum"
  mt_log :: "jsnum \<Rightarrow> jsnum"
  mt_pow :: "jsnum \<Rightarrow> jsnum \<Rightarrow> jsnum"

record outcome_record =
  oc_betId :: string
  oc_roundId :: string
  oc_dailyKey :: string
  oc_timestamp :: int
  oc_outcome :: bet_outcome
  oc_pnl :: jsnum
  oc_stake :: jsnum
  oc_target :: jsnum
  oc_cashOutMultiplier :: "jsnum option"
  oc_latencyMs :: "int option"
  oc_cashOutSuccess :: "bool option"
  oc_failureReason :: "string option"

definition resolved :: "outcome_record \<Rightarrow> bool" where
  "resolved r \<longleftrightarrow> oc_outcome r = Win \<or> oc_outcome r = Loss"

definition won :: "outcome_record \<Rightarrow> bool" where
  "won r \<longleftrightarrow> oc_outcome r = Win"

definition how_many :: "('a \<Rightarrow> bool) \<Rightarrow> 'a list \<Rightarrow> nat" where
  "how_many P xs = length (filter P xs)"

definition breakEvenHitRate :: "jsnum \<Rightarrow> jsnum" where
  "breakEvenHitRate target = (if jle target (Fin 1) then Fin 1 else jdiv (Fin 1) target)"

definition expectedValueOf :: "jsnum \<Rightarrow> jsnum \<Rightarrow> jsnum \<Rightarrow> jsnum" where
  "expectedValueOf stake hitRate target = jmul stake (jsub (jmul hitRate target) (Fin 1))"

definition default_stake :: jsnum where
  "default_stake = Fin 700"

definition default_target :: jsnum where
  "default_target = lit (13/10)"

datatype dd_severity = Dd_none | Dd_mild | Dd_moderate | Dd_severe | Dd_critical

definition classifyDrawdownSeverity :: "jsnum \<Rightarrow> dd_severity" where
  "classifyDrawdownSeverity d =
     (if jle d (Fin 0) then Dd_none
      else if jle (Fin 7000) d then Dd_critical
      else if jle (Fin 3500) d then Dd_severe
      else if jle (Fin 1500) d then Dd_moderate
      else if jle (Fin 500) d then Dd_mild
      else Dd_none)"

datatype latency_trend = Lt_improving | Lt_stable | Lt_degrading | Lt_critical

definition classifyLatencyTrend :: "jsnum \<Rightarrow> latency_trend" where
  "classifyLatencyTrend p95 =
     (if jlt p95 (Fin 500) then Lt_improving
      else if jlt p95 (Fin 1000) then Lt_stable
      else if jlt p95 (Fin 2000) then Lt_degrading
      else Lt_critical)"

datatype cashout_trend = Ct_improving | Ct_stable | Ct_worsening

definition classifyCashOutTrend :: "jsnum \<Rightarrow> cashout_trend" where
  "classifyCashOutTrend rate =
     (if jle (lit (99/100)) rate then Ct_improving
      else if jle (lit (95/100)) rate then Ct_stable
      else Ct_worsening)"

section \<open>Drawdown\<close>

record drawdown_point =
  dp_timestamp :: int
  dp_equity :: jsnum
  dp_peakEquity :: jsnum
  dp_drawdown :: jsnum
  dp_isUnderwater :: bool
  dp_durationUnderwater :: nat

text \<open>One turn of the loop of \<open>buildEquityCurve\<close> over equity, peak and the time under water.\<close>

definition curve_turn :: "jsnum \<times> jsnum \<times> nat \<Rightarrow> outcome_record \<Rightarrow> jsnum \<times> jsnum \<times> nat" where
  "curve_turn = (\<lambda>(equity, peak, wet) r.
     let equity = (if resolved r then jadd equity (oc_pnl r) else equity);
         risen = jlt peak equity;
         peak = (if risen then equity else peak);
         wet = (if risen then 0 else wet)
     in (equity, peak, if jlt equity peak then wet + 1 else wet))"

fun curve_loop :: "jsnum \<times> jsnum \<times> nat \<Rightarrow> outcome_record list \<Rightarrow> drawdown_point list" where
  "curve_loop st [] = []"
| "curve_loop st (r # rs) =
     (case curve_turn st r of
        (equity, peak, wet) \<Rightarrow>
          \<lparr>dp_timestamp = oc_timestamp r, dp_equity = equity, dp_peakEquity = peak,
           dp_drawdown = jsub peak equity, dp_isUnderwater = jlt equity peak, dp_durationUnderwater = wet\<rparr>
          # curve_loop (equity, peak, wet) rs)"

definition drawdown_curve :: "outcome_record list \<Rightarrow> jsnum \<Rightarrow> drawdown_point list" where
  "drawdown_curve outcomes startingEquity = curve_loop (startingEquity, startingEquity, 0) outcomes"

record drawdown_metrics =
  dd_maxDrawdown :: jsnum
  dd_currentDrawdown :: jsnum
  dd_peakEquity :: jsnum
  dd_currentEquity :: jsnum
  dd_underwaterDuration :: nat
  dd_maxUnderwaterDuration :: nat
  dd_recoveryCount :: nat
  dd_isUnderwater :: bool
  dd_severity :: dd_severity

definition metrics_turn :: "jsnum \<times> nat \<times> nat \<times> bool \<Rightarrow> drawdown_point \<Rightarrow> jsnum \<times> nat \<times> nat \<times> bool" where
  "metrics_turn = (\<lambda>(maxDrawdown, maxUnder, recoveries, wasUnder) p.
     (jmax maxDrawdown (dp_drawdown p), max maxUnder (dp_durationUnderwater p),
      if wasUnder \<and> \<not> dp_isUnderwater p then recoveries + 1 else recoveries, dp_isUnderwater p))"

definition computeDrawdownMetrics :: "drawdown_point list \<Rightarrow> drawdown_metrics" where
  "computeDrawdownMetrics curve =
     (if curve = [] then
        \<lparr>dd_maxDrawdown = Fin 0, dd_currentDrawdown = Fin 0, dd_peakEquity = Fin 0, dd_currentEquity = Fin 0,
         dd_underwaterDuration = 0, dd_maxUnderwaterDuration = 0, dd_recoveryCount = 0, dd_isUnderwater = False,
         dd_severity = Dd_none\<rparr>
      else (case foldl metrics_turn (Fin 0, 0, 0, False) curve of
        (maxDrawdown, maxUnder, recoveries, _) \<Rightarrow>
          \<lparr>dd_maxDrawdown = maxDrawdown, dd_currentDrawdown = dp_drawdown (last curve),
           dd_peakEquity = dp_peakEquity (last curve), dd_currentEquity = dp_equity (last curve),
           dd_underwaterDuration = dp_durationUnderwater (last curve), dd_maxUnderwaterDuration = maxUnder,
           dd_recoveryCount = recoveries, dd_isUnderwater = dp_isUnderwater (last curve),
           dd_severity = classifyDrawdownSeverity maxDrawdown\<rparr>))"

definition computeDrawdownFromOutcomes :: "outcome_record list \<Rightarrow> drawdown_metrics" where
  "computeDrawdownFromOutcomes outcomes = computeDrawdownMetrics (drawdown_curve outcomes (Fin 0))"

text \<open>\<open>computeDrawdownFromPnl\<close> wraps plain numbers into outcomes.\<close>

definition pnl_outcome :: "int \<Rightarrow> nat \<Rightarrow> jsnum \<Rightarrow> outcome_record" where
  "pnl_outcome now i pnl =
     \<lparr>oc_betId = ''bet-'' @ nat_str i, oc_roundId = ''round-'' @ nat_str i, oc_dailyKey = ''aggregate'',
      oc_timestamp = now, oc_outcome = (if jle (Fin 0) pnl then Win else Loss), oc_pnl = pnl, oc_stake = Fin 700,
      oc_target = lit (13/10), oc_cashOutMultiplier = None, oc_latencyMs = None, oc_cashOutSuccess = None,
      oc_failureReason = None\<rparr>"

definition computeDrawdownFromPnl :: "int \<Rightarrow> jsnum list \<Rightarrow> jsnum \<Rightarrow> drawdown_metrics" where
  "computeDrawdownFromPnl now pnlValues startingEquity =
     computeDrawdownMetrics (drawdown_curve (map2 (pnl_outcome now) [0..<length pnlValues] pnlValues) startingEquity)"

text \<open>\<open>findRecoveryTime\<close>: the first deepest point, then the first later point at its peak.\<close>

definition deepest :: "drawdown_point list \<Rightarrow> jsnum \<times> nat" where
  "deepest curve = foldl (\<lambda>(maxDd, spot) i.
     if jlt maxDd (dp_drawdown (curve ! i)) then (dp_drawdown (curve ! i), i) else (maxDd, spot))
     (Fin 0, 0) [0..<length curve]"

fun recovery_from :: "jsnum \<Rightarrow> nat \<Rightarrow> drawdown_point list \<Rightarrow> nat option" where
  "recovery_from peak k [] = None"
| "recovery_from peak k (p # ps) = (if jle peak (dp_equity p) then Some k else recovery_from peak (k + 1) ps)"

definition findRecoveryTime :: "drawdown_point list \<Rightarrow> nat option" where
  "findRecoveryTime curve =
     (if curve = [] then None
      else (case deepest curve of
        (maxDd, spot) \<Rightarrow>
          if maxDd = Fin 0 then Some 0
          else recovery_from (dp_peakEquity (curve ! spot)) 1 (drop (spot + 1) curve)))"

record dd_episode =
  dq_startIndex :: nat
  dq_endIndex :: nat
  dq_depth :: jsnum
  dq_duration :: nat

text \<open>The loop of \<open>findConsecutiveDrawdowns\<close>; while in a drawdown, its start and its depth so far.\<close>

fun episodes_loop :: "nat \<Rightarrow> (nat \<times> jsnum) option \<Rightarrow> drawdown_point list \<Rightarrow> dd_episode list" where
  "episodes_loop i None [] = []"
| "episodes_loop i (Some (start, depth)) [] =
     [\<lparr>dq_startIndex = start, dq_endIndex = i - 1, dq_depth = depth, dq_duration = i - start\<rparr>]"
| "episodes_loop i None (p # ps) =
     (if dp_isUnderwater p then episodes_loop (i + 1) (Some (i, dp_drawdown p)) ps
      else episodes_loop (i + 1) None ps)"
| "episodes_loop i (Some (start, depth)) (p # ps) =
     (if dp_isUnderwater p then episodes_loop (i + 1) (Some (start, jmax depth (dp_drawdown p))) ps
      else \<lparr>dq_startIndex = start, dq_endIndex = i - 1, dq_depth = depth, dq_duration = i - start\<rparr>
           # episodes_loop (i + 1) None ps)"

definition findConsecutiveDrawdowns :: "drawdown_point list \<Rightarrow> dd_episode list" where
  "findConsecutiveDrawdowns curve = episodes_loop 0 None curve"

section \<open>Streaks\<close>

text \<open>A \<open>Map\<close> from lengths to counts; \<open>set(k, (get(k) || 0) + 1)\<close>.\<close>

type_synonym length_counts = "(nat \<times> nat) list"

fun bump :: "nat \<Rightarrow> length_counts \<Rightarrow> length_counts" where
  "bump k [] = [(k, 1)]"
| "bump k ((l, c) # m) = (if l = k then (l, c + 1) # m else (l, c) # bump k m)"

fun count_at :: "nat \<Rightarrow> length_counts \<Rightarrow> nat" where
  "count_at k [] = 0"
| "count_at k ((l, c) # m) = (if l = k then c else count_at k m)"

definition longest_key :: "length_counts \<Rightarrow> nat" where
  "longest_key m = foldr (\<lambda>(l, _) b. max l b) m 0"

record streak_acc =
  sc_currentWin :: nat
  sc_currentLoss :: nat
  sc_maxWin :: nat
  sc_maxLoss :: nat
  sc_winCounts :: length_counts
  sc_lossCounts :: length_counts
  sc_type :: streak_type
  sc_length :: nat

definition sc_init :: streak_acc where
  "sc_init = \<lparr>sc_currentWin = 0, sc_currentLoss = 0, sc_maxWin = 0, sc_maxLoss = 0, sc_winCounts = [],
     sc_lossCounts = [], sc_type = Streak_none, sc_length = 0\<rparr>"

definition close_win :: "streak_acc \<Rightarrow> streak_acc" where
  "close_win a = (if sc_type a = Streak_win \<and> 0 < sc_length a
     then a\<lparr>sc_winCounts := bump (sc_length a) (sc_winCounts a)\<rparr> else a)"

definition close_loss :: "streak_acc \<Rightarrow> streak_acc" where
  "close_loss a = (if sc_type a = Streak_loss \<and> 0 < sc_length a
     then a\<lparr>sc_lossCounts := bump (sc_length a) (sc_lossCounts a)\<rparr> else a)"

definition streak_turn :: "streak_acc \<Rightarrow> outcome_record \<Rightarrow> streak_acc" where
  "streak_turn a r =
     (if won r then
        let b = (if sc_type a = Streak_win then a\<lparr>sc_length := sc_length a + 1\<rparr>
                 else (close_loss a)\<lparr>sc_type := Streak_win, sc_length := 1\<rparr>)
        in b\<lparr>sc_currentWin := sc_length b, sc_currentLoss := 0, sc_maxWin := max (sc_maxWin b) (sc_length b)\<rparr>
      else
        let b = (if sc_type a = Streak_loss then a\<lparr>sc_length := sc_length a + 1\<rparr>
                 else (close_win a)\<lparr>sc_type := Streak_loss, sc_length := 1\<rparr>)
        in b\<lparr>sc_currentLoss := sc_length b, sc_currentWin := 0, sc_maxLoss := max (sc_maxLoss b) (sc_length b)\<rparr>)"

record streak_share =
  sd_length :: nat
  sd_count :: nat
  sd_frequency :: jsnum

definition buildDistribution :: "length_counts \<Rightarrow> nat \<Rightarrow> streak_share list" where
  "buildDistribution counts overall =
     map (\<lambda>l. \<lparr>sd_length = l, sd_count = count_at l counts,
               sd_frequency = (if 0 < overall then jdiv (jsnat (count_at l counts)) (jsnat overall) else Fin 0)\<rparr>)
       [1..<min (longest_key counts) 20 + 1]"

definition expectedMaxStreak :: "js_math \<Rightarrow> nat \<Rightarrow> jsnum \<Rightarrow> jsnum" where
  "expectedMaxStreak mt n p =
     (if n = 0 \<or> jle p (Fin 0) \<or> jle (Fin 1) p then Fin 1
      else let logDenom = mt_log mt (jdiv (Fin 1) p);
               expected = jsub (jadd (jdiv (mt_log mt (jmul (jsnat n) (jsub (Fin 1) p))) logDenom)
                                 (jdiv (lit (5772156649015329/10000000000000000)) logDenom)) (lit (1/2))
           in jmax (Fin 1) expected)"

definition computeStreakAnomalyScore :: "nat \<Rightarrow> nat \<Rightarrow> jsnum \<Rightarrow> jsnum \<Rightarrow> jsnum" where
  "computeStreakAnomalyScore maxWin maxLoss expectedWin expectedLoss =
     (let winDeviation = (if jlt (Fin 0) expectedWin then jdiv (jsnat maxWin) expectedWin else Fin 1);
          lossDeviation = (if jlt (Fin 0) expectedLoss then jdiv (jsnat maxLoss) expectedLoss else Fin 1)
      in jmax (Fin 0) (jsub (jmax winDeviation lossDeviation) (Fin 1)))"

record streak_metrics =
  sm_currentWinStreak :: nat
  sm_currentLossStreak :: nat
  sm_maxWinStreak :: nat
  sm_maxLossStreak :: nat
  sm_currentStreakType :: streak_type
  sm_winDistribution :: "streak_share list"
  sm_lossDistribution :: "streak_share list"
  sm_expectedMaxWin :: jsnum
  sm_expectedMaxLoss :: jsnum
  sm_anomalyScore :: jsnum

definition emptyStreakMetrics :: streak_metrics where
  "emptyStreakMetrics = \<lparr>sm_currentWinStreak = 0, sm_currentLossStreak = 0, sm_maxWinStreak = 0,
     sm_maxLossStreak = 0, sm_currentStreakType = Streak_none, sm_winDistribution = [], sm_lossDistribution = [],
     sm_expectedMaxWin = Fin 0, sm_expectedMaxLoss = Fin 0, sm_anomalyScore = Fin 0\<rparr>"

definition computeStreakMetrics :: "js_math \<Rightarrow> outcome_record list \<Rightarrow> jsnum \<Rightarrow> streak_metrics" where
  "computeStreakMetrics mt outcomes hitRate =
     (let rs = filter resolved outcomes
      in if rs = [] then emptyStreakMetrics
         else let scan = foldl streak_turn sc_init rs;
                  a = (if sc_type scan = Streak_win then close_win scan else close_loss scan);
                  n = length rs;
                  expectedWin = expectedMaxStreak mt n hitRate;
                  expectedLoss = expectedMaxStreak mt n (jsub (Fin 1) hitRate)
              in \<lparr>sm_currentWinStreak = sc_currentWin a, sm_currentLossStreak = sc_currentLoss a,
                  sm_maxWinStreak = sc_maxWin a, sm_maxLossStreak = sc_maxLoss a,
                  sm_currentStreakType = (if 0 < sc_currentWin a then Streak_win
                     else if 0 < sc_currentLoss a then Streak_loss else Streak_none),
                  sm_winDistribution = buildDistribution (sc_winCounts a) (sum_list (map snd (sc_winCounts a))),
                  sm_lossDistribution = buildDistribution (sc_lossCounts a) (sum_list (map snd (sc_lossCounts a))),
                  sm_expectedMaxWin = expectedWin, sm_expectedMaxLoss = expectedLoss,
                  sm_anomalyScore = computeStreakAnomalyScore (sc_maxWin a) (sc_maxLoss a) expectedWin expectedLoss\<rparr>)"

definition streakProbability :: "js_math \<Rightarrow> nat \<Rightarrow> jsnum \<Rightarrow> nat \<Rightarrow> jsnum" where
  "streakProbability mt n p k =
     (if n < k \<or> k = 0 \<or> jle p (Fin 0) \<or> jlt (Fin 1) p then Fin 0
      else if p = Fin 1 then Fin 1
      else jsub (Fin 1) (mt_pow mt (jsub (Fin 1) (mt_pow mt p (jsnat k))) (jsnat (n - k + 1))))"

definition isAnomalousLosingStreak :: "js_math \<Rightarrow> nat \<Rightarrow> nat \<Rightarrow> nat \<Rightarrow> bool" where
  "isAnomalousLosingStreak mt currentLossStreak totalLosses totalTrials \<longleftrightarrow>
     \<not> (totalTrials < 20 \<or> currentLossStreak < 3) \<and>
     jlt (streakProbability mt totalTrials (jdiv (jsnat totalLosses) (jsnat totalTrials)) currentLossStreak)
       (lit (5/100))"

section \<open>Hit rate\<close>

record wilson_interval =
  wi_confidenceLevel :: jsnum
  wi_lower :: jsnum
  wi_upper :: jsnum
  wi_margin :: jsnum
  wi_sampleSize :: int
  wi_isValid :: bool
  wi_center :: jsnum
  wi_zScore :: jsnum

definition approximateInverseErf :: "js_math \<Rightarrow> jsnum \<Rightarrow> jsnum" where
  "approximateInverseErf mt x =
     (let a = lit (147/1000);
          sign = (if jlt x (Fin 0) then Fin (-1) else Fin 1);
          absX = jabs x;
          ln = mt_log mt (jsub (Fin 1) (jmul absX absX));
          term = jadd (jdiv (Fin 2) (jmul (lit (3141592653589793/1000000000000000)) a)) (jdiv ln (Fin 2));
          sqrtTerm = mt_sqrt mt (jadd (jdiv (jneg ln) a) (jmul term term))
      in jmul sign (mt_sqrt mt (jsub (jadd (jdiv (jneg ln) a) sqrtTerm) term)))"

definition getZScore :: "js_math \<Rightarrow> jsnum \<Rightarrow> jsnum" where
  "getZScore mt level =
     (if level = lit (95/100) then lit (1959963984540054/1000000000000000)
      else if level = lit (90/100) then lit (16448536269514722/10000000000000000)
      else if level = lit (99/100) then lit (25758293035489004/10000000000000000)
      else if level = lit (999/1000) then lit (32905267314919255/10000000000000000)
      else let p = jsub (Fin 1) (jdiv (jsub (Fin 1) level) (Fin 2))
           in jmul (approximateInverseErf mt (jsub (jmul (Fin 2) p) (Fin 1)))
                (lit (14142135623730951/10000000000000000)))"

definition wilsonScoreInterval :: "js_math \<Rightarrow> int \<Rightarrow> int \<Rightarrow> jsnum \<Rightarrow> wilson_interval" where
  "wilsonScoreInterval mt successes trials level =
     (if trials < 0 \<or> successes < 0 \<or> trials < successes then
        \<lparr>wi_confidenceLevel = level, wi_lower = Fin 0, wi_upper = Fin 0, wi_margin = Fin 0, wi_sampleSize = trials,
         wi_isValid = False, wi_center = Fin 0, wi_zScore = Fin 0\<rparr>
      else if trials = 0 then
        \<lparr>wi_confidenceLevel = level, wi_lower = Fin 0, wi_upper = Fin 1, wi_margin = lit (1/2), wi_sampleSize = 0,
         wi_isValid = False, wi_center = lit (1/2), wi_zScore = getZScore mt level\<rparr>
      else if successes = 0 then
        (let upper = jsub (Fin 1) (mt_pow mt (lit (1/2)) (jdiv (Fin 1) (jsint trials)))
         in \<lparr>wi_confidenceLevel = level, wi_lower = Fin 0, wi_upper = jmin upper (Fin 1),
             wi_margin = jdiv upper (Fin 2), wi_sampleSize = trials, wi_isValid = True,
             wi_center = jdiv upper (Fin 2), wi_zScore = getZScore mt level\<rparr>)
      else if successes = trials then
        (let lower = mt_pow mt (lit (1/2)) (jdiv (Fin 1) (jsint trials))
         in \<lparr>wi_confidenceLevel = level, wi_lower = jmax lower (Fin 0), wi_upper = Fin 1,
             wi_margin = jdiv (jsub (Fin 1) lower) (Fin 2), wi_sampleSize = trials, wi_isValid = True,
             wi_center = jdiv (jadd (Fin 1) lower) (Fin 2), wi_zScore = getZScore mt level\<rparr>)
      else
        (let p = jdiv (jsint successes) (jsint trials);
             z = getZScore mt level;
             z2 = jmul z z;
             n = jsint trials;
             denominator = jadd (Fin 1) (jdiv z2 n);
             center = jdiv (jadd p (jdiv z2 (jmul (Fin 2) n))) denominator;
             margin = jdiv (jmul z (mt_sqrt mt (jdiv (jadd (jmul p (jsub (Fin 1) p)) (jdiv z2 (jmul (Fin 4) n))) n)))
                        denominator
         in \<lparr>wi_confidenceLevel = level, wi_lower = jmax (Fin 0) (jsub center margin),
             wi_upper = jmin (Fin 1) (jadd center margin), wi_margin = margin, wi_sampleSize = trials,
             wi_isValid = True, wi_center = center, wi_zScore = z\<rparr>))"

datatype significance = Significant_above | Significant_below | Inconclusive | Insufficient_data

record hit_rate_metrics =
  hm_observedRate :: jsnum
  hm_breakEvenRate :: jsnum
  hm_interval :: wilson_interval
  hm_sampleSize :: nat
  hm_isAboveBreakEven :: bool
  hm_breakEvenWithinCI :: bool
  hm_significance :: significance

definition computeHitRateMetrics :: "js_math \<Rightarrow> outcome_record list \<Rightarrow> jsnum \<Rightarrow> jsnum \<Rightarrow> hit_rate_metrics" where
  "computeHitRateMetrics mt outcomes target level =
     (let rs = filter resolved outcomes;
          successes = how_many won rs;
          trials = length rs;
          observed = (if 0 < trials then jdiv (jsnat successes) (jsnat trials) else Fin 0);
          breakEven = breakEvenHitRate target;
          ci = wilsonScoreInterval mt (int successes) (int trials) level
      in \<lparr>hm_observedRate = observed, hm_breakEvenRate = breakEven, hm_interval = ci, hm_sampleSize = trials,
          hm_isAboveBreakEven = jlt breakEven observed,
          hm_breakEvenWithinCI = (jle (wi_lower ci) breakEven \<and> jle breakEven (wi_upper ci)),
          hm_significance = (if trials < 10 then Insufficient_data
             else if jlt breakEven (wi_lower ci) then Significant_above
             else if jlt (wi_upper ci) breakEven then Significant_below
             else Inconclusive)\<rparr>)"

definition counted_outcome :: "int \<Rightarrow> bool \<Rightarrow> nat \<Rightarrow> nat \<Rightarrow> jsnum \<Rightarrow> outcome_record" where
  "counted_outcome now win i k target =
     \<lparr>oc_betId = (if win then ''win-'' else ''loss-'') @ nat_str i, oc_roundId = ''round-'' @ nat_str k,
      oc_dailyKey = ''aggregate'', oc_timestamp = now, oc_outcome = (if win then Win else Loss),
      oc_pnl = (if win then Fin 210 else Fin (-700)), oc_stake = Fin 700, oc_target = target,
      oc_cashOutMultiplier = (if win then Some target else None), oc_latencyMs = None, oc_cashOutSuccess = Some win,
      oc_failureReason = None\<rparr>"

definition computeHitRateFromCounts :: "js_math \<Rightarrow> int \<Rightarrow> nat \<Rightarrow> nat \<Rightarrow> jsnum \<Rightarrow> jsnum \<Rightarrow> hit_rate_metrics" where
  "computeHitRateFromCounts mt now wins losses target level =
     computeHitRateMetrics mt
       (map (\<lambda>i. counted_outcome now True i i target) [0..<wins] @
        map (\<lambda>i. counted_outcome now False i (i + wins) target) [0..<losses]) target level"

definition isSignificantlyProfitable :: "hit_rate_metrics \<Rightarrow> bool" where
  "isSignificantlyProfitable m \<longleftrightarrow> wi_isValid (hm_interval m) \<and> \<not> hm_sampleSize m < 30 \<and>
     jlt (hm_breakEvenRate m) (wi_lower (hm_interval m))"

definition isSignificantlyUnprofitable :: "hit_rate_metrics \<Rightarrow> bool" where
  "isSignificantlyUnprofitable m \<longleftrightarrow> wi_isValid (hm_interval m) \<and> \<not> hm_sampleSize m < 30 \<and>
     jlt (wi_upper (hm_interval m)) (hm_breakEvenRate m)"

section \<open>Expected value\<close>

record value_interval =
  vi_confidenceLevel :: jsnum
  vi_lower :: jsnum
  vi_upper :: jsnum
  vi_margin :: jsnum
  vi_sampleSize :: nat
  vi_isValid :: bool

record value_metrics =
  vm_theoreticalEv :: jsnum
  vm_realizedEv :: jsnum
  vm_cumulativeExpected :: jsnum
  vm_cumulativeRealized :: jsnum
  vm_variance :: jsnum
  vm_standardError :: jsnum
  vm_interval :: value_interval
  vm_accuracy :: jsnum

definition total_by :: "('a \<Rightarrow> jsnum) \<Rightarrow> 'a list \<Rightarrow> jsnum" where
  "total_by f xs = foldl (\<lambda>s x. jadd s (f x)) (Fin 0) xs"

definition computeVariance :: "outcome_record list \<Rightarrow> jsnum \<Rightarrow> jsnum" where
  "computeVariance outcomes mean =
     (if outcomes = [] then Fin 0
      else jdiv (total_by (\<lambda>r. let diff = jsub (oc_pnl r) mean in jmul diff diff) outcomes) (jsnat (length outcomes)))"

definition computeEvConfidenceInterval :: "jsnum \<Rightarrow> jsnum \<Rightarrow> nat \<Rightarrow> value_interval" where
  "computeEvConfidenceInterval mean standardError n =
     (let margin = jmul (lit (196/100)) standardError
      in \<lparr>vi_confidenceLevel = lit (95/100), vi_lower = jsub mean margin, vi_upper = jadd mean margin,
          vi_margin = margin, vi_sampleSize = n, vi_isValid = 2 \<le> n\<rparr>)"

definition emptyExpectedValueMetrics :: value_metrics where
  "emptyExpectedValueMetrics = \<lparr>vm_theoreticalEv = Fin 0, vm_realizedEv = Fin 0, vm_cumulativeExpected = Fin 0,
     vm_cumulativeRealized = Fin 0, vm_variance = Fin 0, vm_standardError = Fin 0,
     vm_interval = \<lparr>vi_confidenceLevel = lit (95/100), vi_lower = Fin 0, vi_upper = Fin 0, vi_margin = Fin 0,
       vi_sampleSize = 0, vi_isValid = False\<rparr>,
     vm_accuracy = Fin 0\<rparr>"

text \<open>The record both functions return from the average result, the overall and the variance.\<close>

definition value_metrics_of :: "js_math \<Rightarrow> nat \<Rightarrow> jsnum \<Rightarrow> jsnum \<Rightarrow> jsnum \<Rightarrow> jsnum \<Rightarrow> value_metrics" where
  "value_metrics_of mt n theoretical realized overall variance =
     (let expected = jmul theoretical (jsnat n);
          standardError = mt_sqrt mt (jdiv variance (jsnat n))
      in \<lparr>vm_theoreticalEv = theoretical, vm_realizedEv = realized, vm_cumulativeExpected = expected,
          vm_cumulativeRealized = overall, vm_variance = variance, vm_standardError = standardError,
          vm_interval = computeEvConfidenceInterval realized standardError n,
          vm_accuracy = (if expected = Fin 0 then Fin 0 else jdiv overall expected)\<rparr>)"

definition computeExpectedValueMetrics :: "js_math \<Rightarrow> outcome_record list \<Rightarrow> jsnum \<Rightarrow> jsnum \<Rightarrow> value_metrics" where
  "computeExpectedValueMetrics mt outcomes stake target =
     (let rs = filter resolved outcomes; n = length rs
      in if n = 0 then emptyExpectedValueMetrics
         else let hitRate = jdiv (jsnat (how_many won rs)) (jsnat n);
                  overall = total_by oc_pnl rs;
                  realized = jdiv overall (jsnat n)
              in value_metrics_of mt n (expectedValueOf stake hitRate target) realized overall
                   (computeVariance rs realized))"

definition computeExpectedValueFromCounts :: "js_math \<Rightarrow> nat \<Rightarrow> nat \<Rightarrow> jsnum \<Rightarrow> jsnum \<Rightarrow> value_metrics" where
  "computeExpectedValueFromCounts mt wins losses stake target =
     (let n = wins + losses
      in if n = 0 then emptyExpectedValueMetrics
         else let hitRate = jdiv (jsnat wins) (jsnat n);
                  winProfit = jmul stake (jsub target (Fin 1));
                  lossAmount = jneg stake;
                  overall = jadd (jmul (jsnat wins) winProfit) (jmul (jsnat losses) lossAmount);
                  realized = jdiv overall (jsnat n);
                  square = (\<lambda>x. mt_pow mt (jsub x realized) (Fin 2))
              in value_metrics_of mt n (expectedValueOf stake hitRate target) realized overall
                   (jdiv (jadd (jmul (jsnat wins) (square winProfit)) (jmul (jsnat losses) (square lossAmount)))
                     (jsnat n)))"

definition computeRequiredHitRate :: "jsnum \<Rightarrow> jsnum \<Rightarrow> jsnum \<Rightarrow> jsnum" where
  "computeRequiredHitRate targetEv stake target =
     (if jle target (Fin 0) \<or> jle stake (Fin 0) then Fin 1
      else jdiv (jadd (jdiv targetEv stake) (Fin 1)) target)"

definition isRealizedWithinExpectedRange :: "js_math \<Rightarrow> value_metrics \<Rightarrow> jsnum \<Rightarrow> bool" where
  "isRealizedWithinExpectedRange mt m sigmaThreshold =
     (if \<not> vi_isValid (vm_interval m) then True
      else let stdDev = mt_sqrt mt (jmul (vm_variance m) (jsnat (vi_sampleSize (vm_interval m))))
           in if stdDev = Fin 0 then jeq (vm_cumulativeExpected m) (vm_cumulativeRealized m)
              else jle (jdiv (jabs (jsub (vm_cumulativeRealized m) (vm_cumulativeExpected m))) stdDev) sigmaThreshold)"

section \<open>Latency\<close>

datatype latency_kind = Lat_observation | Lat_execution | Lat_cashout

record latency_sample =
  lt_timestamp :: int
  lt_type :: latency_kind
  lt_latencyMs :: int

record latency_metrics =
  lq_observation :: jsnum
  lq_execution :: jsnum
  lq_cashout :: jsnum
  lq_p50 :: jsnum
  lq_p95 :: jsnum
  lq_p99 :: jsnum
  lq_max :: jsnum
  lq_min :: jsnum
  lq_sampleCount :: nat
  lq_trend :: latency_trend

definition computeAverage :: "int list \<Rightarrow> jsnum" where
  "computeAverage values =
     (if values = [] then Fin 0 else jdiv (total_by jsint values) (jsnat (length values)))"

text \<open>Linear interpolation between the two ranks around \<open>p * (length - 1)\<close>.\<close>

definition percentile :: "int list \<Rightarrow> jsnum \<Rightarrow> jsnum" where
  "percentile ranked p =
     (if ranked = [] then Fin 0
      else if length ranked = 1 then jsint (ranked ! 0)
      else case jmul p (jsnat (length ranked - 1)) of
        Fin index \<Rightarrow>
          let lower = nat \<lfloor>index\<rfloor>; upper = nat \<lceil>index\<rceil>; weight = jsub (Fin index) (jsnat lower)
          in if length ranked \<le> upper then jsint (ranked ! lower)
             else jadd (jmul (jsint (ranked ! lower)) (jsub (Fin 1) weight)) (jmul (jsint (ranked ! upper)) weight)
      | _ \<Rightarrow> NaN)"

definition of_kind :: "latency_kind \<Rightarrow> latency_sample list \<Rightarrow> int list" where
  "of_kind k samples = map lt_latencyMs (filter (\<lambda>s. lt_type s = k) samples)"

definition emptyLatencyMetrics :: latency_metrics where
  "emptyLatencyMetrics = \<lparr>lq_observation = Fin 0, lq_execution = Fin 0, lq_cashout = Fin 0, lq_p50 = Fin 0,
     lq_p95 = Fin 0, lq_p99 = Fin 0, lq_max = Fin 0, lq_min = Fin 0, lq_sampleCount = 0, lq_trend = Lt_improving\<rparr>"

definition computeLatencyMetrics :: "latency_sample list \<Rightarrow> latency_metrics" where
  "computeLatencyMetrics samples =
     (if samples = [] then emptyLatencyMetrics
      else let latencies = sort (map lt_latencyMs samples)
           in \<lparr>lq_observation = computeAverage (of_kind Lat_observation samples),
               lq_execution = computeAverage (of_kind Lat_execution samples),
               lq_cashout = computeAverage (of_kind Lat_cashout samples),
               lq_p50 = percentile latencies (lit (1/2)), lq_p95 = percentile latencies (lit (95/100)),
               lq_p99 = percentile latencies (lit (99/100)),
               lq_max = jsint (last latencies), lq_min = jsint (hd latencies), lq_sampleCount = length samples,
               lq_trend = classifyLatencyTrend (percentile latencies (lit (95/100)))\<rparr>)"

definition computeLatencyMetricsByType :: "latency_sample list \<Rightarrow> latency_kind \<Rightarrow> latency_metrics" where
  "computeLatencyMetricsByType samples k = computeLatencyMetrics (filter (\<lambda>s. lt_type s = k) samples)"

definition detectLatencyDegradation :: "latency_sample list \<Rightarrow> latency_sample list \<Rightarrow> jsnum \<Rightarrow> bool" where
  "detectLatencyDegradation recent baseline thresholdMultiplier =
     (if length recent < 5 \<or> length baseline < 10 then False
      else let recentP95 = percentile (sort (map lt_latencyMs recent)) (lit (95/100));
               baselineP95 = percentile (sort (map lt_latencyMs baseline)) (lit (95/100))
           in if baselineP95 = Fin 0 then jlt (Fin 1000) recentP95
              else jlt (jmul baselineP95 thresholdMultiplier) recentP95)"

definition detectLatencySpike :: "latency_sample list \<Rightarrow> int \<Rightarrow> nat \<Rightarrow> bool" where
  "detectLatencySpike samples spikeThresholdMs consecutiveCount =
     (if length samples < consecutiveCount then False
      else list_all (\<lambda>s. spikeThresholdMs \<le> lt_latencyMs s) (js_slice_last consecutiveCount samples))"

definition computeStandardDeviation :: "js_math \<Rightarrow> int list \<Rightarrow> jsnum" where
  "computeStandardDeviation mt values =
     (if length values < 2 then Fin 0
      else let avg = computeAverage values
           in mt_sqrt mt (jdiv (total_by (\<lambda>v. mt_pow mt (jsub (jsint v) avg) (Fin 2)) values) (jsnat (length values))))"

section \<open>Cash-out success\<close>

datatype failure_mode = Fm_timeout | Fm_premature_crash | Fm_error | Fm_unknown | Fm_rejected | Fm_network

definition failure_mode_of :: "string \<Rightarrow> failure_mode" where
  "failure_mode_of reason =
     (if text_includes reason ''timeout'' then Fm_timeout
      else if text_includes reason ''crash'' \<or> text_includes reason ''premature'' then Fm_premature_crash
      else if text_includes reason ''network'' \<or> text_includes reason ''connection'' then Fm_network
      else if text_includes reason ''reject'' \<or> text_includes reason ''denied'' then Fm_rejected
      else if text_includes reason ''error'' \<or> text_includes reason ''fail'' then Fm_error
      else Fm_unknown)"

text \<open>The outcomes the loop does not skip.\<close>

definition has_failure_mode :: "outcome_record \<Rightarrow> bool" where
  "has_failure_mode r \<longleftrightarrow> oc_cashOutSuccess r \<noteq> Some True \<and>
     \<not> (oc_cashOutSuccess r = None \<and> oc_outcome r \<noteq> Failed_bet)"

definition categorizeFailureModes :: "outcome_record list \<Rightarrow> (failure_mode \<times> nat) list" where
  "categorizeFailureModes outcomes =
     (let modes = map (\<lambda>r. failure_mode_of (toLowerCase (case oc_failureReason r of None \<Rightarrow> '''' | Some s \<Rightarrow> s)))
                    (filter has_failure_mode outcomes)
      in filter (\<lambda>(m, c). c \<noteq> 0)
           (map (\<lambda>m. (m, how_many (\<lambda>x. x = m) modes))
              [Fm_timeout, Fm_premature_crash, Fm_error, Fm_unknown, Fm_rejected, Fm_network]))"

record cashout_metrics =
  cm_successRate :: jsnum
  cm_failureRate :: jsnum
  cm_totalAttempts :: nat
  cm_successful :: nat
  cm_failed :: nat
  cm_timeoutCount :: nat
  cm_prematureCrashCount :: nat
  cm_errorCount :: nat
  cm_trend :: cashout_trend
  cm_breakdown :: "(failure_mode \<times> nat) list"

definition emptyCashOutSuccessMetrics :: cashout_metrics where
  "emptyCashOutSuccessMetrics = \<lparr>cm_successRate = Fin 0, cm_failureRate = Fin 0, cm_totalAttempts = 0,
     cm_successful = 0, cm_failed = 0, cm_timeoutCount = 0, cm_prematureCrashCount = 0, cm_errorCount = 0,
     cm_trend = Ct_worsening, cm_breakdown = []\<rparr>"

definition mode_count :: "failure_mode \<Rightarrow> (failure_mode \<times> nat) list \<Rightarrow> nat" where
  "mode_count m b = (case map_of b m of None \<Rightarrow> 0 | Some c \<Rightarrow> c)"

definition computeCashOutSuccessMetrics :: "outcome_record list \<Rightarrow> cashout_metrics" where
  "computeCashOutSuccessMetrics outcomes =
     (let attempted = filter (\<lambda>r. resolved r \<or> oc_cashOutSuccess r \<noteq> None) outcomes
      in if attempted = [] then emptyCashOutSuccessMetrics
         else let successful = how_many (\<lambda>r. oc_cashOutSuccess r = Some True) attempted;
                  failed = how_many (\<lambda>r. oc_cashOutSuccess r = Some False) attempted;
                  overall = successful + failed;
                  successRate = (if 0 < overall then jdiv (jsnat successful) (jsnat overall) else Fin 0);
                  breakdown = categorizeFailureModes attempted
              in \<lparr>cm_successRate = successRate,
                  cm_failureRate = (if 0 < overall then jdiv (jsnat failed) (jsnat overall) else Fin 0),
                  cm_totalAttempts = overall, cm_successful = successful, cm_failed = failed,
                  cm_timeoutCount = mode_count Fm_timeout breakdown,
                  cm_prematureCrashCount = mode_count Fm_premature_crash breakdown,
                  cm_errorCount = mode_count Fm_error breakdown,
                  cm_trend = classifyCashOutTrend successRate, cm_breakdown = breakdown\<rparr>)"

definition detectCashOutFailureSpike :: "outcome_record list \<Rightarrow> outcome_record list \<Rightarrow> jsnum \<Rightarrow> bool" where
  "detectCashOutFailureSpike recentOutcomes baselineOutcomes thresholdMultiplier =
     (let recent = computeCashOutSuccessMetrics recentOutcomes; baseline = computeCashOutSuccessMetrics baselineOutcomes
      in if cm_totalAttempts recent < 5 \<or> cm_totalAttempts baseline < 10 then False
         else if cm_failureRate baseline = Fin 0 then jlt (lit (5/100)) (cm_failureRate recent)
         else jlt (jmul (cm_failureRate baseline) thresholdMultiplier) (cm_failureRate recent))"

definition isCashOutCritical :: "cashout_metrics \<Rightarrow> bool" where
  "isCashOutCritical m \<longleftrightarrow> jlt (cm_successRate m) (lit (85/100))"

definition isCashOutAcceptable :: "cashout_metrics \<Rightarrow> bool" where
  "isCashOutAcceptable m \<longleftrightarrow> jle (lit (95/100)) (cm_successRate m)"

section \<open>Streaks are runs\<close>

definition lost :: "outcome_record \<Rightarrow> bool" where
  "lost r \<longleftrightarrow> \<not> won r"

text \<open>The maximal runs of length \<open>k\<close>: those an element outside \<open>P\<close> follows, and the one at the end.\<close>

definition closed_runs :: "('a \<Rightarrow> bool) \<Rightarrow> nat \<Rightarrow> 'a list \<Rightarrow> nat" where
  "closed_runs P k xs = how_many (\<lambda>i. final_run P (take i xs) = k \<and> \<not> P (xs ! i)) [0..<length xs]"

definition runs_of_length :: "('a \<Rightarrow> bool) \<Rightarrow> nat \<Rightarrow> 'a list \<Rightarrow> nat" where
  "runs_of_length P k xs = closed_runs P k xs + (if final_run P xs = k then 1 else 0)"

lemma closed_runs_snoc:
  "closed_runs P k (xs @ [x]) = closed_runs P k xs + (if final_run P xs = k \<and> \<not> P x then 1 else 0)"
proof -
  have "filter (\<lambda>i. final_run P (take i (xs @ [x])) = k \<and> \<not> P ((xs @ [x]) ! i)) [0..<length xs] =
      filter (\<lambda>i. final_run P (take i xs) = k \<and> \<not> P (xs ! i)) [0..<length xs]"
    by (rule filter_cong) (auto simp: nth_append)
  then show ?thesis by (simp add: closed_runs_def how_many_def)
qed

lemma closed_runs_nil [simp]: "closed_runs P k [] = 0"
  by (simp add: closed_runs_def how_many_def)

lemma count_at_bump: "count_at k (bump l m) = count_at k m + (if k = l then 1 else 0)"
  by (induction l m rule: bump.induct) auto

lemma longest_key_bump: "longest_key (bump l m) = max l (longest_key m)"
  by (induction l m rule: bump.induct) (auto simp: longest_key_def)

text \<open>What the scan knows after the outcomes \<open>rs\<close>.\<close>

definition streak_inv :: "streak_acc \<Rightarrow> outcome_record list \<Rightarrow> bool" where
  "streak_inv a rs \<longleftrightarrow>
     sc_currentWin a = final_run won rs \<and> sc_currentLoss a = final_run lost rs \<and>
     longest_run won rs (sc_maxWin a) \<and> longest_run lost rs (sc_maxLoss a) \<and>
     sc_maxWin a = max (longest_key (sc_winCounts a)) (sc_currentWin a) \<and>
     sc_maxLoss a = max (longest_key (sc_lossCounts a)) (sc_currentLoss a) \<and>
     (\<forall>k>0. count_at k (sc_winCounts a) = closed_runs won k rs) \<and>
     (\<forall>k>0. count_at k (sc_lossCounts a) = closed_runs lost k rs)"

definition streak_typed :: "streak_acc \<Rightarrow> bool" where
  "streak_typed a \<longleftrightarrow> (case sc_type a of
       Streak_win \<Rightarrow> sc_length a = sc_currentWin a \<and> 0 < sc_currentWin a \<and> sc_currentLoss a = 0
     | Streak_loss \<Rightarrow> sc_length a = sc_currentLoss a \<and> 0 < sc_currentLoss a \<and> sc_currentWin a = 0
     | Streak_none \<Rightarrow> sc_currentWin a = 0 \<and> sc_currentLoss a = 0)"

lemma streak_typed_turn: "streak_typed a \<Longrightarrow> streak_typed (streak_turn a r)"
  by (cases "sc_type a") (auto simp: streak_typed_def streak_turn_def Let_def close_win_def close_loss_def)

lemma streak_inv_turn:
  assumes "streak_inv a rs" "streak_typed a"
  shows "streak_inv (streak_turn a r) (rs @ [r])"
proof -
  note w = longest_run_snoc [of won rs "sc_maxWin a" r] and l = longest_run_snoc [of lost rs "sc_maxLoss a" r]
  show ?thesis
    using assms w l unfolding streak_inv_def streak_typed_def
    by (cases "sc_type a"; cases "won r")
      (simp_all add: streak_turn_def Let_def close_win_def close_loss_def final_run_snoc closed_runs_snoc
        count_at_bump longest_key_bump lost_def max.commute max.left_commute)
qed

lemma streak_scan: "streak_inv (foldl streak_turn sc_init rs) rs \<and> streak_typed (foldl streak_turn sc_init rs)"
proof (induction rs rule: rev_induct)
  case Nil
  then show ?case
    by (simp add: streak_inv_def streak_typed_def sc_init_def final_run_def longest_run_nil longest_key_def)
next
  case (snoc r rs)
  then show ?case by (simp add: streak_inv_turn streak_typed_turn)
qed

lemma close_fields [simp]:
  "sc_currentWin (close_win a) = sc_currentWin a" "sc_currentLoss (close_win a) = sc_currentLoss a"
  "sc_maxWin (close_win a) = sc_maxWin a" "sc_maxLoss (close_win a) = sc_maxLoss a"
  "sc_currentWin (close_loss a) = sc_currentWin a" "sc_currentLoss (close_loss a) = sc_currentLoss a"
  "sc_maxWin (close_loss a) = sc_maxWin a" "sc_maxLoss (close_loss a) = sc_maxLoss a"
  by (simp_all add: close_win_def close_loss_def)

lemma distribution_is_runs:
  assumes "\<forall>k>0. count_at k counts = runs_of_length P k rs" "longest_key counts = m"
  shows "map (\<lambda>d. (sd_length d, sd_count d)) (buildDistribution counts overall) =
    map (\<lambda>k. (k, runs_of_length P k rs)) [1..<min m 20 + 1]"
  using assms by (auto simp: buildDistribution_def comp_def)

text \<open>
  The streak metrics are what their names say, for the resolved outcomes: the longest and the current streaks
  are the longest and the final runs of wins (of losses), and the distribution counts, for every length up to 20,
  the maximal runs of that length.
\<close>

theorem streak_metrics_are_runs:
  "let s = computeStreakMetrics mt outcomes hitRate; rs = filter resolved outcomes in
     longest_run won rs (sm_maxWinStreak s) \<and> longest_run lost rs (sm_maxLossStreak s) \<and>
     sm_currentWinStreak s = final_run won rs \<and> sm_currentLossStreak s = final_run lost rs \<and>
     map (\<lambda>d. (sd_length d, sd_count d)) (sm_winDistribution s) =
       map (\<lambda>k. (k, runs_of_length won k rs)) [1..<min (sm_maxWinStreak s) 20 + 1] \<and>
     map (\<lambda>d. (sd_length d, sd_count d)) (sm_lossDistribution s) =
       map (\<lambda>k. (k, runs_of_length lost k rs)) [1..<min (sm_maxLossStreak s) 20 + 1]"
proof (cases "filter resolved outcomes = []")
  case True
  then show ?thesis
    by (simp add: computeStreakMetrics_def emptyStreakMetrics_def longest_run_nil final_run_def)
next
  case False
  define rs where "rs = filter resolved outcomes"
  define scan where "scan = foldl streak_turn sc_init rs"
  define a where "a = (if sc_type scan = Streak_win then close_win scan else close_loss scan)"
  have inv: "streak_inv scan rs" "streak_typed scan" using streak_scan [of rs] by (simp_all add: scan_def)
  have win: "\<forall>k>0. count_at k (sc_winCounts a) = runs_of_length won k rs" "longest_key (sc_winCounts a) = sc_maxWin a"
    using inv unfolding a_def streak_inv_def streak_typed_def
    by (cases "sc_type scan"; auto simp: close_win_def close_loss_def count_at_bump longest_key_bump
        runs_of_length_def max.commute)+
  have loss: "\<forall>k>0. count_at k (sc_lossCounts a) = runs_of_length lost k rs"
    "longest_key (sc_lossCounts a) = sc_maxLoss a"
    using inv unfolding a_def streak_inv_def streak_typed_def
    by (cases "sc_type scan"; auto simp: close_win_def close_loss_def count_at_bump longest_key_bump
        runs_of_length_def max.commute)+
  have kept: "sc_currentWin a = final_run won rs" "sc_currentLoss a = final_run lost rs"
    "longest_run won rs (sc_maxWin a)" "longest_run lost rs (sc_maxLoss a)"
    using inv(1) unfolding a_def streak_inv_def by (auto split: if_split)
  show ?thesis
    using False distribution_is_runs [OF win] distribution_is_runs [OF loss] kept
    by (simp add: computeStreakMetrics_def Let_def rs_def [symmetric] scan_def [symmetric] a_def [symmetric])
qed

section \<open>Drawdown\<close>

lemma jadd_finite: "c \<noteq> NaN \<Longrightarrow> is_fin x \<Longrightarrow> jadd c x \<noteq> NaN"
  by (cases c; cases x) (auto simp: rnd_not_NaN)

lemma turns_agree:
  assumes "pe_outcome e = oc_outcome r" "pe_pnl e = oc_pnl r" "is_fin (oc_pnl r)" "c \<noteq> NaN" "p \<noteq> NaN"
    "curve_turn (c, p, u) r = (c', p', u')"
  shows "equity_turn e (c, p) = (c', p')" "c' \<noteq> NaN" "p' \<noteq> NaN"
  using assms jadd_finite [of c "oc_pnl r"]
  by (auto simp: curve_turn_def equity_turn_def resolved_def settled_def jmax_def Let_def split: if_splits)

lemma drawdown_loops_agree:
  assumes "list_all2 (\<lambda>e r. pe_outcome e = oc_outcome r \<and> pe_pnl e = oc_pnl r) es rs"
    "list_all (\<lambda>r. is_fin (oc_pnl r)) rs" "c \<noteq> NaN" "p \<noteq> NaN"
  shows "case foldl drawdown_turn ((c, p), mx) es of ((c', p'), mx') \<Rightarrow>
      fst (foldl metrics_turn (mx, rest) (curve_loop (c, p, u) rs)) = mx' \<and>
      (rs \<noteq> [] \<longrightarrow> dp_drawdown (last (curve_loop (c, p, u) rs)) = jsub p' c')"
  using assms
proof (induction es rs arbitrary: c p mx rest u rule: list_all2_induct)
  case Nil
  then show ?case by simp
next
  case (Cons e es r rs)
  obtain c1 p1 u1 where turn: "curve_turn (c, p, u) r = (c1, p1, u1)" by (rule prod_cases3)
  note agree = turns_agree [OF _ _ _ Cons.prems(2,3) turn, of e]
  have same: "equity_turn e (c, p) = (c1, p1)" "c1 \<noteq> NaN" "p1 \<noteq> NaN"
    using agree Cons.hyps Cons.prems(1) by auto
  obtain mu rec was where rest: "rest = (mu, rec, was)" by (rule prod_cases3)
  obtain mx1 rest1 where step:
    "metrics_turn (mx, rest) \<lparr>dp_timestamp = oc_timestamp r, dp_equity = c1, dp_peakEquity = p1,
       dp_drawdown = jsub p1 c1, dp_isUnderwater = jlt c1 p1, dp_durationUnderwater = u1\<rparr> = (mx1, rest1)"
    and mx1: "mx1 = jmax mx (jsub p1 c1)"
    by (simp add: metrics_turn_def rest)
  have ih: "case foldl drawdown_turn ((c1, p1), mx1) es of ((c', p'), mx') \<Rightarrow>
      fst (foldl metrics_turn (mx1, rest1) (curve_loop (c1, p1, u1) rs)) = mx' \<and>
      (rs \<noteq> [] \<longrightarrow> dp_drawdown (last (curve_loop (c1, p1, u1) rs)) = jsub p' c')"
    using Cons.IH Cons.prems(1) same by simp
  have first: "drawdown_turn ((c, p), mx) e = ((c1, p1), mx1)"
    by (simp add: drawdown_turn_def same mx1)
  have nonempty: "rs \<noteq> [] \<Longrightarrow> curve_loop (c1, p1, u1) rs \<noteq> []" by (cases rs) (auto split: prod.split)
  show ?case
    using ih nonempty Cons.hyps by (cases "rs = []") (auto simp: turn step first split: prod.splits)
qed

text \<open>
  C37. The drawdown of the analytics is the drawdown of the ledger: on the same bets, with finite results, the
  equity curve of the one and the running maximum of the other give the same maximum and the same current value.
\<close>

theorem drawdown_agrees_with_ledger:
  assumes "list_all2 (\<lambda>e r. pe_outcome e = oc_outcome r \<and> pe_pnl e = oc_pnl r) es rs"
    "list_all (\<lambda>r. is_fin (oc_pnl r)) rs"
  shows "computeDrawdown es =
    (dd_maxDrawdown (computeDrawdownFromOutcomes rs), dd_currentDrawdown (computeDrawdownFromOutcomes rs))"
proof (cases "rs = []")
  case True
  with assms(1) show ?thesis
    by (simp add: computeDrawdown_def computeDrawdownFromOutcomes_def computeDrawdownMetrics_def drawdown_curve_def
        jsub_def)
next
  case False
  then have "curve_loop (Fin 0, Fin 0, 0) rs \<noteq> []" by (cases rs) (auto split: prod.split)
  with False drawdown_loops_agree [OF assms, of "Fin 0" "Fin 0" "Fin 0" "(0, 0, False)" 0] show ?thesis
    by (auto simp: computeDrawdown_def computeDrawdownFromOutcomes_def computeDrawdownMetrics_def drawdown_curve_def
        split: prod.splits)
qed

definition demo_outcome :: "bet_outcome \<Rightarrow> jsnum \<Rightarrow> outcome_record" where
  "demo_outcome oc pnl = (pnl_outcome 0 0 pnl)\<lparr>oc_outcome := oc, oc_pnl := pnl\<rparr>"

lemma demo_outcome_simps [simp]: "oc_outcome (demo_outcome oc pnl) = oc" "oc_pnl (demo_outcome oc pnl) = pnl"
  by (simp_all add: demo_outcome_def)

theorem drawdown_agrees_with_ledger_witness:
  "computeDrawdown [ex_bet Loss (Fin (-700)), ex_bet Win (Fin 210)] =
     (let m = computeDrawdownFromOutcomes [demo_outcome Loss (Fin (-700)), demo_outcome Win (Fin 210)]
      in (dd_maxDrawdown m, dd_currentDrawdown m))"
  unfolding Let_def by (rule drawdown_agrees_with_ledger) (simp_all add: ex_bet_def)

text \<open>The episodes found from turn \<open>i\<close> on, with an open episode that began at \<open>start\<close>.\<close>

definition episode_indices :: "dd_episode list \<Rightarrow> nat list" where
  "episode_indices es = concat (map (\<lambda>q. [dq_startIndex q..<dq_endIndex q + 1]) es)"

lemma episode_indices_simps [simp]:
  "episode_indices [] = []"
  "episode_indices (q # qs) = [dq_startIndex q..<dq_endIndex q + 1] @ episode_indices qs"
  by (simp_all add: episode_indices_def)

lemma episodes_loop_indices:
  "episode_indices (episodes_loop i st ps) =
     (case st of None \<Rightarrow> [] | Some (start, _) \<Rightarrow> [start..<i]) @
     map ((+) i) (filter (\<lambda>j. dp_isUnderwater (ps ! j)) [0..<length ps])"
  if "\<And>start d. st = Some (start, d) \<Longrightarrow> start < i"
  using that
proof (induction i st ps rule: episodes_loop.induct)
  case (3 i p ps)
  have shift: "filter (\<lambda>j. dp_isUnderwater ((p # ps) ! j)) [0..<length (p # ps)] =
      (if dp_isUnderwater p then [0] else []) @ map Suc (filter (\<lambda>j. dp_isUnderwater (ps ! j)) [0..<length ps])"
    by (simp add: upt_conv_Cons map_Suc_upt [symmetric] filter_map comp_def del: upt_Suc map_Suc_upt)
  show ?case using 3 unfolding shift by (auto simp: comp_def)
next
  case (4 i start d p ps)
  have shift: "filter (\<lambda>j. dp_isUnderwater ((p # ps) ! j)) [0..<length (p # ps)] =
      (if dp_isUnderwater p then [0] else []) @ map Suc (filter (\<lambda>j. dp_isUnderwater (ps ! j)) [0..<length ps])"
    by (simp add: upt_conv_Cons map_Suc_upt [symmetric] filter_map comp_def del: upt_Suc map_Suc_upt)
  show ?case using 4 unfolding shift by (auto simp: comp_def less_Suc_eq)
qed auto

lemma episodes_loop_count:
  "length (episodes_loop i st ps) + rec =
     (case foldl metrics_turn (mx, mu, rec, st \<noteq> None) ps of
        (_, _, recoveries, wet) \<Rightarrow> recoveries + (if wet then 1 else 0))"
  by (induction i st ps arbitrary: mx mu rec rule: episodes_loop.induct) (simp_all add: metrics_turn_def)

lemma metrics_turn_under:
  "ps \<noteq> [] \<Longrightarrow> snd (snd (snd (foldl metrics_turn acc ps))) = dp_isUnderwater (last ps)"
  by (induction ps rule: rev_induct) (auto simp: metrics_turn_def split: prod.splits)

text \<open>
  The two descriptions of a drawdown agree: the episodes cover exactly the points under water, in order, and
  there is one for each recovery that the metrics count, and one more while the curve still is under water.
\<close>

theorem drawdown_episodes_cover_underwater:
  "let episodes = findConsecutiveDrawdowns curve; m = computeDrawdownMetrics curve in
     episode_indices episodes = filter (\<lambda>i. dp_isUnderwater (curve ! i)) [0..<length curve] \<and>
     length episodes = dd_recoveryCount m + (if dd_isUnderwater m then 1 else 0)"
proof -
  have "episode_indices (findConsecutiveDrawdowns curve) =
      filter (\<lambda>i. dp_isUnderwater (curve ! i)) [0..<length curve]"
    using episodes_loop_indices [of None 0 curve] by (simp add: findConsecutiveDrawdowns_def map_idI)
  moreover have "length (findConsecutiveDrawdowns curve) =
      dd_recoveryCount (computeDrawdownMetrics curve) + (if dd_isUnderwater (computeDrawdownMetrics curve) then 1 else 0)"
    using episodes_loop_count [of 0 None curve 0 "Fin 0" 0] metrics_turn_under [of curve "(Fin 0, 0, 0, False)"]
    by (auto simp: findConsecutiveDrawdowns_def computeDrawdownMetrics_def split: prod.splits)
  ultimately show ?thesis by simp
qed

text \<open>
  A return to the old peak does not end the time under water, only a new peak does: after a loss, the recovery to
  exactly the peak and a second loss, two single points under water count as a time of two.
\<close>

lemma duration_runs_on_after_recovery:
  "let curve = drawdown_curve [demo_outcome Loss (Fin (-1)), demo_outcome Win (Fin 1), demo_outcome Loss (Fin (-1))] (Fin 0)
   in map dp_isUnderwater curve = [True, False, True] \<and> map dp_durationUnderwater curve = [1, 1, 2] \<and>
      map dq_duration (findConsecutiveDrawdowns curve) = [1, 1]"
  by (simp add: drawdown_curve_def curve_turn_def resolved_def findConsecutiveDrawdowns_def Let_def)

text \<open>
  A failed bet does not break a streak here, although the file says it does; the summary of the ledger breaks it.
\<close>

lemma failed_bet_keeps_streak:
  "sm_maxLossStreak (computeStreakMetrics mt
      [demo_outcome Loss (Fin (-1)), demo_outcome Failed_bet (Fin 0), demo_outcome Loss (Fin (-1))] p) = 2"
  "pm_lossStreakMax (computeSummary c [ex_bet Loss (Fin (-1)), ex_bet Failed_bet (Fin 0), ex_bet Loss (Fin (-1))]) = 1"
  by (simp_all add: computeStreakMetrics_def resolved_def won_def streak_turn_def sc_init_def close_win_def
      close_loss_def Let_def computeSummary_def summary_turn_def pa_init_def ex_bet_def split: prod.split)

end
