(* ===== verification/Advice.thy ===== *)
theory Advice
  imports Metrics RiskEngine "HOL-Library.Multiset"
begin

text \<open>
  What the analytics make of the metrics: the rules of \<open>src/src/analytics/learning/recommendations.ts\<close> and the
  detection of anomalies of \<open>src/src/analytics/learning/anomaly.ts\<close> with its cooldowns, a table of the module that
  outlives every call. The messages and rationales, and the random part of an identifier, are left out.
\<close>

section \<open>Recommendations\<close>

datatype window_type = W_last_10 | W_last_50 | W_last_100 | W_last_500 | W_session | W_day | W_week | W_month | W_all

datatype rec_type = R_continue | R_pause | R_dry_run | R_stop | R_review | R_reduce_exposure

record recommendation =
  rn_type :: rec_type
  rn_priority :: nat
  rn_triggeredBy :: "string list"
  rn_confidence :: jsnum
  rn_triggeredAt :: int
  rn_window :: window_type

record rec_config =
  rq_conservativeMode :: bool
  rq_minSamples :: nat
  rq_pauseDelta :: jsnum
  rq_stopDrawdown :: jsnum
  rq_dryRunLosses :: nat
  rq_maxPerWindow :: nat

definition DEFAULT_RECOMMENDATION_CONFIG :: rec_config where
  "DEFAULT_RECOMMENDATION_CONFIG = \<lparr>rq_conservativeMode = True, rq_minSamples = 30, rq_pauseDelta = lit (2/100),
     rq_stopDrawdown = lit (25/100), rq_dryRunLosses = 5, rq_maxPerWindow = 3\<rparr>"

record rec_input =
  gi_hitRate :: hit_rate_metrics
  gi_drawdown :: drawdown_metrics
  gi_streaks :: streak_metrics
  gi_cashOut :: cashout_metrics
  gi_expectedValue :: value_metrics
  gi_window :: window_type
  gi_currentBalance :: "jsnum option"
  gi_confidence :: "observation_confidence option"
  gi_consecutiveErrors :: "int option"

definition advise :: "int \<Rightarrow> rec_input \<Rightarrow> rec_type \<Rightarrow> nat \<Rightarrow> string list \<Rightarrow> rat \<Rightarrow> recommendation list" where
  "advise now inp t priority triggeredBy confidence =
     [\<lparr>rn_type = t, rn_priority = priority, rn_triggeredBy = triggeredBy, rn_confidence = lit confidence,
       rn_triggeredAt = now, rn_window = gi_window inp\<rparr>]"

definition cashout_rule :: "int \<Rightarrow> rec_input \<Rightarrow> recommendation list" where
  "cashout_rule now inp =
     (if 10 \<le> cm_totalAttempts (gi_cashOut inp) then
        if jlt (cm_successRate (gi_cashOut inp)) (lit (85/100))
        then advise now inp R_stop 1 [''cashout_success_rate_critical''] (95/100)
        else if jlt (cm_successRate (gi_cashOut inp)) (lit (90/100))
        then advise now inp R_pause 2 [''cashout_success_rate_poor''] (85/100)
        else []
      else [])"

definition hit_rate_rule :: "rec_config \<Rightarrow> int \<Rightarrow> rec_input \<Rightarrow> recommendation list" where
  "hit_rate_rule cfg now inp =
     (let h = gi_hitRate inp; losing = jlt (vm_cumulativeRealized (gi_expectedValue inp)) (Fin 0) in
      if rq_minSamples cfg \<le> hm_sampleSize h \<and> hm_significance h = Significant_below \<and> losing
      then advise now inp R_dry_run 3 [''hit_rate_below_break_even'', ''negative_pnl''] (9/10)
      else if rq_minSamples cfg \<le> hm_sampleSize h \<and>
        jlt (hm_observedRate h) (jsub (hm_breakEvenRate h) (rq_pauseDelta cfg)) \<and> losing
      then advise now inp R_pause 4 [''hit_rate_below_break_even'', ''negative_pnl''] (7/10)
      else [])"

definition drawdown_rule :: "rec_config \<Rightarrow> int \<Rightarrow> rec_input \<Rightarrow> recommendation list" where
  "drawdown_rule cfg now inp =
     (let d = gi_drawdown inp in
      if jlt (rq_stopDrawdown cfg) (jdiv (dd_maxDrawdown d) (jmul default_stake (Fin 10)))
      then advise now inp R_stop 2 [''max_drawdown_exceeded''] (85/100)
      else if dd_severity d = Dd_severe \<or> dd_severity d = Dd_critical
      then advise now inp R_pause 3 [''drawdown_severe''] (8/10)
      else [])"

definition streak_rule :: "rec_config \<Rightarrow> int \<Rightarrow> rec_input \<Rightarrow> recommendation list" where
  "streak_rule cfg now inp =
     (if rq_dryRunLosses cfg \<le> sm_currentLossStreak (gi_streaks inp) \<and>
         jlt (lit (15/10)) (sm_anomalyScore (gi_streaks inp))
      then advise now inp R_dry_run 4 [''anomalous_losing_streak''] (75/100) else [])"

definition balance_rule :: "int \<Rightarrow> rec_input \<Rightarrow> recommendation list" where
  "balance_rule now inp =
     (case gi_currentBalance inp of
        None \<Rightarrow> []
      | Some b \<Rightarrow> if jlt b (jmul default_stake (Fin 10))
                then advise now inp R_reduce_exposure 5 [''low_balance''] (8/10) else [])"

definition confidence_rule :: "int \<Rightarrow> rec_input \<Rightarrow> recommendation list" where
  "confidence_rule now inp =
     (if gi_confidence inp \<noteq> None \<and> gi_confidence inp \<noteq> Some Conf_high
      then advise now inp R_review 2 [''observation_confidence_low''] (9/10) else [])"

definition errors_rule :: "int \<Rightarrow> rec_input \<Rightarrow> recommendation list" where
  "errors_rule now inp =
     (case gi_consecutiveErrors inp of
        None \<Rightarrow> []
      | Some n \<Rightarrow> if n \<noteq> 0 \<and> 3 \<le> n then advise now inp R_pause 2 [''consecutive_errors''] (85/100) else [])"

definition accuracy_rule :: "int \<Rightarrow> rec_input \<Rightarrow> recommendation list" where
  "accuracy_rule now inp =
     (let a = vm_accuracy (gi_expectedValue inp) in
      if jlt (Fin 0) a \<and> jlt a (lit (1/2)) \<and> 50 \<le> hm_sampleSize (gi_hitRate inp)
      then advise now inp R_review 4 [''ev_accuracy_poor''] (75/100) else [])"

definition triggered_rules :: "rec_config \<Rightarrow> int \<Rightarrow> rec_input \<Rightarrow> recommendation list" where
  "triggered_rules cfg now inp =
     cashout_rule now inp @ hit_rate_rule cfg now inp @ drawdown_rule cfg now inp @ streak_rule cfg now inp @
     balance_rule now inp @ confidence_rule now inp @ errors_rule now inp @ accuracy_rule now inp"

definition generateRecommendations :: "rec_config \<Rightarrow> int \<Rightarrow> rec_input \<Rightarrow> recommendation list" where
  "generateRecommendations cfg now inp =
     (let found = triggered_rules cfg now inp;
          all = (if found = [] then advise now inp R_continue 10 [''all_metrics_normal''] (6/10) else found)
      in take (rq_maxPerWindow cfg) (sort_key rn_priority all))"

text \<open>The position in \<open>severityOrder\<close>.\<close>

fun severity_index :: "rec_type \<Rightarrow> nat" where
  "severity_index R_stop = 0"
| "severity_index R_dry_run = 1"
| "severity_index R_pause = 2"
| "severity_index R_reduce_exposure = 3"
| "severity_index R_review = 4"
| "severity_index R_continue = 5"

definition getMostSevereRecommendation :: "recommendation list \<Rightarrow> recommendation option" where
  "getMostSevereRecommendation rs =
     (case rs of [] \<Rightarrow> None
      | r # rest \<Rightarrow> Some (foldl (\<lambda>worst r. if severity_index (rn_type r) < severity_index (rn_type worst)
                                        then r else worst) r rest))"

definition hasRecommendationOfSeverityOrWorse :: "recommendation list \<Rightarrow> rec_type \<Rightarrow> bool" where
  "hasRecommendationOfSeverityOrWorse rs t \<longleftrightarrow> list_ex (\<lambda>r. severity_index (rn_type r) \<le> severity_index t) rs"

section \<open>Anomalies\<close>

datatype anomaly_category = A_hit_rate_drop | A_cashout_failure_spike | A_latency_spike | A_balance_mismatch
  | A_losing_streak | A_failed_entry_spike | A_observation_degradation | A_reconnect_loop
  | A_unknown_outcome_spike | A_drawdown_spike

datatype anomaly_severity = As_minor | As_moderate | As_critical

record anomaly_flag =
  fl_category :: anomaly_category
  fl_severity :: anomaly_severity
  fl_observed :: jsnum
  fl_expected :: jsnum
  fl_sigma :: jsnum
  fl_threshold :: jsnum
  fl_timestamp :: int
  fl_window :: window_type

record category_config =
  kc_enabled :: bool
  kc_thresholdSigma :: jsnum
  kc_minSamples :: nat
  kc_cooldownMs :: int

record anomaly_config =
  kg_enabled :: bool
  kg_categories :: "anomaly_category \<Rightarrow> category_config option"

definition enabled_category :: "jsnum \<Rightarrow> nat \<Rightarrow> int \<Rightarrow> category_config option" where
  "enabled_category sigma samples cooldown =
     Some \<lparr>kc_enabled = True, kc_thresholdSigma = sigma, kc_minSamples = samples, kc_cooldownMs = cooldown\<rparr>"

definition DEFAULT_ANOMALY_CONFIG :: anomaly_config where
  "DEFAULT_ANOMALY_CONFIG = \<lparr>kg_enabled = True, kg_categories = (\<lambda>c. case c of
       A_hit_rate_drop \<Rightarrow> enabled_category (lit (5/2)) 50 300000
     | A_cashout_failure_spike \<Rightarrow> enabled_category (Fin 2) 20 180000
     | A_latency_spike \<Rightarrow> enabled_category (Fin 3) 30 120000
     | A_balance_mismatch \<Rightarrow> enabled_category (Fin 2) 1 60000
     | A_losing_streak \<Rightarrow> enabled_category (lit (5/2)) 10 300000
     | A_failed_entry_spike \<Rightarrow> enabled_category (Fin 2) 10 180000
     | A_observation_degradation \<Rightarrow> enabled_category (Fin 2) 20 120000
     | A_reconnect_loop \<Rightarrow> enabled_category (Fin 2) 3 60000
     | A_unknown_outcome_spike \<Rightarrow> enabled_category (Fin 2) 10 180000
     | A_drawdown_spike \<Rightarrow> enabled_category (lit (5/2)) 20 300000)\<rparr>"

record anomaly_input =
  qi_outcomes :: "outcome_record list"
  qi_hitRate :: hit_rate_metrics
  qi_drawdown :: drawdown_metrics
  qi_streaks :: streak_metrics
  qi_latency :: latency_metrics
  qi_cashOut :: cashout_metrics
  qi_window :: window_type
  qi_balanceMismatch :: "(jsnum \<times> jsnum \<times> jsnum) option"
  qi_reconnectCount :: "int option"
  qi_confidence :: "observation_confidence option"

definition computeZScore :: "js_math \<Rightarrow> jsnum \<Rightarrow> jsnum \<Rightarrow> nat \<Rightarrow> jsnum" where
  "computeZScore mt observed expected sampleSize =
     (if sampleSize = 0 then Fin 0
      else let se = (if jlt (Fin 0) expected \<and> jle expected (Fin 1)
                     then mt_sqrt mt (jdiv (jmul expected (jsub (Fin 1) expected)) (jsnat sampleSize))
                     else jdiv (jmul expected (lit (20/100))) (mt_sqrt mt (jsnat sampleSize)))
           in if se = Fin 0 \<or> \<not> is_fin se then Fin 0 else jdiv (jsub observed expected) se)"

definition computeZScoreForProportion :: "js_math \<Rightarrow> jsnum \<Rightarrow> jsnum \<Rightarrow> nat \<Rightarrow> jsnum" where
  "computeZScoreForProportion mt observedRate expectedRate sampleSize =
     (if sampleSize = 0 then Fin 0
      else let se = mt_sqrt mt (jdiv (jmul expectedRate (jsub (Fin 1) expectedRate)) (jsnat sampleSize))
           in if se = Fin 0 then Fin 0 else jdiv (jsub observedRate expectedRate) se)"

definition expectedMaxStreakLength :: "js_math \<Rightarrow> nat \<Rightarrow> jsnum \<Rightarrow> jsnum" where
  "expectedMaxStreakLength mt n p =
     (if n = 0 \<or> jle p (Fin 0) \<or> jle (Fin 1) p then Fin 1
      else let logDenom = mt_log mt (jdiv (Fin 1) p)
           in jmax (Fin 1) (jsub (jadd (jdiv (mt_log mt (jmul (jsnat n) (jsub (Fin 1) p))) logDenom)
                (jdiv (lit (5772156649015329/10000000000000000)) logDenom)) (lit (1/2))))"

definition estimateExpectedMaxDrawdown :: "js_math \<Rightarrow> nat \<Rightarrow> jsnum \<Rightarrow> jsnum \<Rightarrow> jsnum \<Rightarrow> jsnum" where
  "estimateExpectedMaxDrawdown mt n winRate winAmount lossAmount =
     (if jle (Fin 1) winRate then Fin 0
      else let lossRate = jsub (Fin 1) winRate;
               expectedReturn = jsub (jmul winRate winAmount) (jmul lossRate lossAmount);
               variance = jadd (jmul winRate (mt_pow mt (jsub winAmount expectedReturn) (Fin 2)))
                            (jmul lossRate (mt_pow mt (jsub (jneg lossAmount) expectedReturn) (Fin 2)));
               stdDev = mt_sqrt mt variance;
               drift = (if jle (Fin 0) expectedReturn then Fin 1
                        else jadd (Fin 1) (jdiv (jabs expectedReturn) stdDev))
           in jmul (jmul stdDev (mt_sqrt mt (jmul (Fin 2) (mt_log mt (jsnat (max n 2)))))) drift)"

text \<open>The part the ten blocks of \<open>detectAnomalies\<close> share: an enabled category and the flag it makes.\<close>

definition for_category ::
  "anomaly_config \<Rightarrow> anomaly_category \<Rightarrow> (category_config \<Rightarrow> anomaly_flag option) \<Rightarrow> anomaly_flag option" where
  "for_category cfg c block =
     (case kg_categories cfg c of None \<Rightarrow> None | Some k \<Rightarrow> if kc_enabled k then block k else None)"

definition make_flag ::
  "int \<Rightarrow> anomaly_input \<Rightarrow> anomaly_category \<Rightarrow> category_config \<Rightarrow> bool \<Rightarrow> jsnum \<Rightarrow> jsnum \<Rightarrow> jsnum \<Rightarrow> anomaly_flag option" where
  "make_flag now inp c k critical observed expected sigma =
     Some \<lparr>fl_category = c, fl_severity = (if critical then As_critical else As_moderate), fl_observed = observed,
       fl_expected = expected, fl_sigma = sigma, fl_threshold = kc_thresholdSigma k, fl_timestamp = now,
       fl_window = qi_window inp\<rparr>"

definition hit_rate_block :: "js_math \<Rightarrow> anomaly_config \<Rightarrow> int \<Rightarrow> anomaly_input \<Rightarrow> anomaly_flag option" where
  "hit_rate_block mt cfg now inp = for_category cfg A_hit_rate_drop (\<lambda>k.
     if kc_minSamples k \<le> hm_sampleSize (qi_hitRate inp) then
       let expected = hm_breakEvenRate (qi_hitRate inp); observed = hm_observedRate (qi_hitRate inp);
           sigma = computeZScore mt observed expected (hm_sampleSize (qi_hitRate inp))
       in if jlt sigma (jneg (kc_thresholdSigma k))
          then make_flag now inp A_hit_rate_drop k (jlt sigma (lit (-35/10))) observed expected (jabs sigma)
          else None
     else None)"

definition cashout_block :: "js_math \<Rightarrow> anomaly_config \<Rightarrow> int \<Rightarrow> anomaly_input \<Rightarrow> anomaly_flag option" where
  "cashout_block mt cfg now inp = for_category cfg A_cashout_failure_spike (\<lambda>k.
     if kc_minSamples k \<le> cm_totalAttempts (qi_cashOut inp) then
       let failureRate = cm_failureRate (qi_cashOut inp); expected = lit (2/100);
           sigma = computeZScoreForProportion mt failureRate expected (cm_totalAttempts (qi_cashOut inp))
       in if jlt (kc_thresholdSigma k) sigma
          then make_flag now inp A_cashout_failure_spike k (jlt (lit (1/10)) failureRate) failureRate expected sigma
          else None
     else None)"

definition latency_block :: "js_math \<Rightarrow> anomaly_config \<Rightarrow> int \<Rightarrow> anomaly_input \<Rightarrow> anomaly_flag option" where
  "latency_block mt cfg now inp = for_category cfg A_latency_spike (\<lambda>k.
     if kc_minSamples k \<le> lq_sampleCount (qi_latency inp) then
       let p95 = lq_p95 (qi_latency inp); expected = Fin 500;
           sigma = computeZScore mt p95 expected (lq_sampleCount (qi_latency inp))
       in if jlt (kc_thresholdSigma k) sigma
          then make_flag now inp A_latency_spike k (jlt (Fin 2000) p95) p95 expected sigma
          else None
     else None)"

definition balance_block :: "anomaly_config \<Rightarrow> int \<Rightarrow> anomaly_input \<Rightarrow> anomaly_flag option" where
  "balance_block cfg now inp = for_category cfg A_balance_mismatch (\<lambda>k.
     case qi_balanceMismatch inp of
       None \<Rightarrow> None
     | Some (observed, expected, difference) \<Rightarrow>
         let diff = jabs difference; tolerance = jmul expected (lit (1/100))
         in if jlt tolerance diff
            then make_flag now inp A_balance_mismatch k (jlt (jmul tolerance (Fin 5)) diff) diff tolerance
                   (jdiv diff tolerance)
            else None)"

definition streak_block :: "js_math \<Rightarrow> anomaly_config \<Rightarrow> int \<Rightarrow> anomaly_input \<Rightarrow> anomaly_flag option" where
  "streak_block mt cfg now inp = for_category cfg A_losing_streak (\<lambda>k.
     let streak = sm_currentLossStreak (qi_streaks inp) in
     if 3 \<le> streak then
       let rs = filter resolved (qi_outcomes inp); n = length rs;
           lossRate = jdiv (jsnat (how_many (\<lambda>r. oc_outcome r = Loss) rs)) (jsnat n);
           expected = expectedMaxStreakLength mt n lossRate;
           deviation = jsub (jsnat streak) expected;
           sigma = (if jlt (Fin 0) deviation then deviation else Fin 0)
       in if jlt (kc_thresholdSigma k) sigma
          then make_flag now inp A_losing_streak k (8 < streak) (jsnat streak) expected sigma
          else None
     else None)"

text \<open>The two blocks over the share of outcomes of one kind.\<close>

definition share_block ::
  "js_math \<Rightarrow> anomaly_config \<Rightarrow> int \<Rightarrow> anomaly_input \<Rightarrow> anomaly_category \<Rightarrow> bet_outcome \<Rightarrow> rat \<Rightarrow> rat \<Rightarrow>
   anomaly_flag option" where
  "share_block mt cfg now inp c oc baseline criticalAbove = for_category cfg c (\<lambda>k.
     let hits = how_many (\<lambda>r. oc_outcome r = oc) (qi_outcomes inp); n = length (qi_outcomes inp) in
     if kc_minSamples k \<le> n then
       let rate = jdiv (jsnat hits) (jsnat n); sigma = computeZScoreForProportion mt rate (lit baseline) n
       in if jlt (kc_thresholdSigma k) sigma
          then make_flag now inp c k (jlt (lit criticalAbove) rate) rate (lit baseline) sigma
          else None
     else None)"

definition failed_block :: "js_math \<Rightarrow> anomaly_config \<Rightarrow> int \<Rightarrow> anomaly_input \<Rightarrow> anomaly_flag option" where
  "failed_block mt cfg now inp = share_block mt cfg now inp A_failed_entry_spike Failed_bet (1/100) (1/10)"

definition observation_block :: "anomaly_config \<Rightarrow> int \<Rightarrow> anomaly_input \<Rightarrow> anomaly_flag option" where
  "observation_block cfg now inp = for_category cfg A_observation_degradation (\<lambda>k.
     if qi_confidence inp \<noteq> None \<and> qi_confidence inp \<noteq> Some Conf_high then
       let low = qi_confidence inp = Some Conf_low
       in make_flag now inp A_observation_degradation k low (if low then Fin 0 else lit (1/2)) (Fin 1)
            (if low then Fin 3 else Fin 2)
     else None)"

definition reconnect_block :: "anomaly_config \<Rightarrow> int \<Rightarrow> anomaly_input \<Rightarrow> anomaly_flag option" where
  "reconnect_block cfg now inp = for_category cfg A_reconnect_loop (\<lambda>k.
     case qi_reconnectCount inp of
       None \<Rightarrow> None
     | Some n \<Rightarrow> if n \<noteq> 0 \<and> 3 \<le> n
               then make_flag now inp A_reconnect_loop k (5 < n) (jsint n) (Fin 0) (jsint n) else None)"

definition unknown_block :: "js_math \<Rightarrow> anomaly_config \<Rightarrow> int \<Rightarrow> anomaly_input \<Rightarrow> anomaly_flag option" where
  "unknown_block mt cfg now inp = share_block mt cfg now inp A_unknown_outcome_spike Unknown_bet (5/1000) (5/100)"

definition drawdown_block :: "js_math \<Rightarrow> anomaly_config \<Rightarrow> int \<Rightarrow> anomaly_input \<Rightarrow> anomaly_flag option" where
  "drawdown_block mt cfg now inp = for_category cfg A_drawdown_spike (\<lambda>k.
     let worst = dd_maxDrawdown (qi_drawdown inp); rs = filter resolved (qi_outcomes inp); n = length rs in
     if jlt (Fin 0) worst \<and> kc_minSamples k \<le> n then
       let expected = estimateExpectedMaxDrawdown mt n (jdiv (jsnat (how_many won rs)) (jsnat n)) (Fin 210) (Fin 700);
           sigma = jdiv worst (jmax expected (Fin 1))
       in if jlt (kc_thresholdSigma k) sigma
          then make_flag now inp A_drawdown_spike k (dd_severity (qi_drawdown inp) = Dd_critical) worst expected sigma
          else None
     else None)"

text \<open>\<open>lastAnomalyTimestamps\<close> and \<open>isInCooldown\<close>: a flag outside its cooldown starts the next one.\<close>

type_synonym cooldowns = "anomaly_category \<Rightarrow> int option"

definition cooldown_of :: "anomaly_config \<Rightarrow> anomaly_category \<Rightarrow> int" where
  "cooldown_of cfg c = (case kg_categories cfg c of None \<Rightarrow> 0 | Some k \<Rightarrow> kc_cooldownMs k)"

definition isInCooldown :: "anomaly_flag \<Rightarrow> int \<Rightarrow> cooldowns \<Rightarrow> bool \<times> cooldowns" where
  "isInCooldown f cooldownMs seen =
     (case seen (fl_category f) of
        Some t \<Rightarrow> if fl_timestamp f - t < cooldownMs then (True, seen)
                 else (False, seen(fl_category f \<mapsto> fl_timestamp f))
      | None \<Rightarrow> (False, seen(fl_category f \<mapsto> fl_timestamp f)))"

definition raised_flags :: "js_math \<Rightarrow> anomaly_config \<Rightarrow> int \<Rightarrow> anomaly_input \<Rightarrow> anomaly_flag list" where
  "raised_flags mt cfg now inp = List.map_filter id
     [hit_rate_block mt cfg now inp, cashout_block mt cfg now inp, latency_block mt cfg now inp,
      balance_block cfg now inp, streak_block mt cfg now inp, failed_block mt cfg now inp,
      observation_block cfg now inp, reconnect_block cfg now inp, unknown_block mt cfg now inp,
      drawdown_block mt cfg now inp]"

fun publish_flags :: "anomaly_config \<Rightarrow> anomaly_flag list \<Rightarrow> cooldowns \<Rightarrow> anomaly_flag list \<times> cooldowns" where
  "publish_flags cfg [] seen = ([], seen)"
| "publish_flags cfg (f # fs) seen =
     (case isInCooldown f (cooldown_of cfg (fl_category f)) seen of
        (True, seen) \<Rightarrow> publish_flags cfg fs seen
      | (False, seen) \<Rightarrow> (case publish_flags cfg fs seen of (shown, seen) \<Rightarrow> (f # shown, seen)))"

definition detectAnomalies ::
  "js_math \<Rightarrow> anomaly_config \<Rightarrow> int \<Rightarrow> anomaly_input \<Rightarrow> cooldowns \<Rightarrow> anomaly_flag list \<times> cooldowns" where
  "detectAnomalies mt cfg now inp seen =
     (if kg_enabled cfg then publish_flags cfg (raised_flags mt cfg now inp) seen else ([], seen))"

definition clearAnomalyCooldowns :: cooldowns where
  "clearAnomalyCooldowns = (\<lambda>_. None)"

text \<open>A sequence of calls, each with the time of the call.\<close>

fun detect_all ::
  "js_math \<Rightarrow> anomaly_config \<Rightarrow> (int \<times> anomaly_input) list \<Rightarrow> cooldowns \<Rightarrow> anomaly_flag list \<times> cooldowns" where
  "detect_all mt cfg [] seen = ([], seen)"
| "detect_all mt cfg ((now, inp) # calls) seen =
     (case detectAnomalies mt cfg now inp seen of
        (shown, seen) \<Rightarrow> (case detect_all mt cfg calls seen of (later, seen) \<Rightarrow> (shown @ later, seen)))"

section \<open>A stop is not cut off\<close>

lemma sort_key_same: "sort_key f (filter (\<lambda>y. Q y \<and> f x = f y) xs) = filter (\<lambda>y. Q y \<and> f x = f y) xs"
  by (rule sort_key_id_if_sorted, induction xs) auto

lemma sort_key_split:
  fixes f :: "'a \<Rightarrow> 'b :: linorder"
  shows "sort_key f xs = sort_key f (filter (\<lambda>x. f x < k) xs) @ filter (\<lambda>x. f x = k) xs @ sort_key f (filter (\<lambda>x. k < f x) xs)"
proof (rule properties_for_sort_key)
  have "mset (filter (\<lambda>x. f x < k) xs) + (mset (filter (\<lambda>x. f x = k) xs) + mset (filter (\<lambda>x. k < f x) xs)) = mset xs"
    by (induction xs) auto
  then show "mset (sort_key f (filter (\<lambda>x. f x < k) xs) @ filter (\<lambda>x. f x = k) xs @
      sort_key f (filter (\<lambda>x. k < f x) xs)) = mset xs" by simp
next
  fix x assume "x \<in> set (sort_key f (filter (\<lambda>x. f x < k) xs) @ filter (\<lambda>x. f x = k) xs @
      sort_key f (filter (\<lambda>x. k < f x) xs))"
  have "filter (\<lambda>y. f y < k \<and> f x = f y) xs = (if f x < k then filter (\<lambda>y. f x = f y) xs else [])"
    "filter (\<lambda>y. f y = k \<and> f x = f y) xs = (if f x = k then filter (\<lambda>y. f x = f y) xs else [])"
    "filter (\<lambda>y. k < f y \<and> f x = f y) xs = (if k < f x then filter (\<lambda>y. f x = f y) xs else [])"
    by (induction xs) auto
  then show "filter (\<lambda>y. f x = f y) (sort_key f (filter (\<lambda>x. f x < k) xs) @ filter (\<lambda>x. f x = k) xs @
      sort_key f (filter (\<lambda>x. k < f x) xs)) = filter (\<lambda>y. f x = f y) xs"
    using sort_key_same [of f "\<lambda>_. True" x xs]
    by (cases "f x" k rule: linorder_cases) (auto simp: filter_sort)
next
  have "sorted (map f (filter (\<lambda>x. f x = k) xs))" by (induction xs) auto
  then show "sorted (map f (sort_key f (filter (\<lambda>x. f x < k) xs) @ filter (\<lambda>x. f x = k) xs @
      sort_key f (filter (\<lambda>x. k < f x) xs)))"
    by (auto simp: sorted_append)
qed

text \<open>An element stays in a cut as long as few others come before it in the stable order.\<close>

lemma kept_in_cut:
  fixes f :: "'a \<Rightarrow> 'b :: linorder"
  assumes "length (filter (\<lambda>y. f y \<le> f x) ys) + length (filter (\<lambda>y. f y < f x) zs) < n"
  shows "x \<in> set (take n (sort_key f (ys @ x # zs)))"
proof -
  have "length (filter (\<lambda>y. f y \<le> f x) ys) = length (filter (\<lambda>y. f y < f x) ys) + length (filter (\<lambda>y. f y = f x) ys)"
    by (induction ys) (auto simp: le_less)
  then have "length (sort_key f (filter (\<lambda>y. f y < f x) (ys @ x # zs)) @ filter (\<lambda>y. f y = f x) ys) < n"
    using assms by simp
  moreover have "x \<in> set (take n (P @ x # S))" if "length P < n" for P S
    using that by (cases "n - length P") simp_all
  moreover have "sort_key f (ys @ x # zs) =
      (sort_key f (filter (\<lambda>y. f y < f x) (ys @ x # zs)) @ filter (\<lambda>y. f y = f x) ys) @
      x # (filter (\<lambda>y. f y = f x) zs @ sort_key f (filter (\<lambda>y. f x < f y) (ys @ x # zs)))"
    using sort_key_split [of f "ys @ x # zs" "f x"] by simp
  ultimately show ?thesis by presburger
qed

lemma rule_lengths:
  "length (cashout_rule now inp) \<le> 1" "filter (\<lambda>r. rn_priority r \<le> 2) (hit_rate_rule cfg now inp) = []"
  "\<forall>r\<in>set (cashout_rule now inp). rn_priority r = 1 \<longleftrightarrow> rn_type r = R_stop"
  by (simp_all add: cashout_rule_def hit_rate_rule_def advise_def Let_def)

lemma no_priority_one:
  "filter (\<lambda>r. rn_priority r < 2) (hit_rate_rule cfg now inp) = []"
  "filter (\<lambda>r. rn_priority r < 2) (drawdown_rule cfg now inp) = []"
  "filter (\<lambda>r. rn_priority r < 2) (streak_rule cfg now inp) = []"
  "filter (\<lambda>r. rn_priority r < 2) (balance_rule now inp) = []"
  "filter (\<lambda>r. rn_priority r < 2) (confidence_rule now inp) = []"
  "filter (\<lambda>r. rn_priority r < 2) (errors_rule now inp) = []"
  "filter (\<lambda>r. rn_priority r < 2) (accuracy_rule now inp) = []"
  by (auto simp: hit_rate_rule_def drawdown_rule_def streak_rule_def balance_rule_def confidence_rule_def
      errors_rule_def accuracy_rule_def advise_def Let_def split: option.split)

text \<open>The two conditions for a stop.\<close>

definition cashout_critical :: "rec_input \<Rightarrow> bool" where
  "cashout_critical inp \<longleftrightarrow> 10 \<le> cm_totalAttempts (gi_cashOut inp) \<and>
     jlt (cm_successRate (gi_cashOut inp)) (lit (85/100))"

definition drawdown_exceeded :: "rec_config \<Rightarrow> rec_input \<Rightarrow> bool" where
  "drawdown_exceeded cfg inp \<longleftrightarrow>
     jlt (rq_stopDrawdown cfg) (jdiv (dd_maxDrawdown (gi_drawdown inp)) (jmul default_stake (Fin 10)))"

lemma stops_triggered:
  "(\<exists>r\<in>set (triggered_rules cfg now inp). rn_type r = R_stop) \<longleftrightarrow> cashout_critical inp \<or> drawdown_exceeded cfg inp"
  by (auto simp: triggered_rules_def cashout_rule_def hit_rate_rule_def drawdown_rule_def streak_rule_def
      balance_rule_def confidence_rule_def errors_rule_def accuracy_rule_def advise_def Let_def
      cashout_critical_def drawdown_exceeded_def split: option.split)

lemma stop_kept:
  assumes "cashout_critical inp \<or> drawdown_exceeded cfg inp" "2 \<le> n"
  shows "\<exists>r\<in>set (take n (sort_key rn_priority (triggered_rules cfg now inp))). rn_type r = R_stop"
proof (cases "cashout_critical inp")
  case True
  obtain r where r: "cashout_rule now inp = [r]" "rn_type r = R_stop" "rn_priority r = 1"
    using True by (simp add: cashout_rule_def cashout_critical_def advise_def)
  define rest where "rest = hit_rate_rule cfg now inp @ drawdown_rule cfg now inp @ streak_rule cfg now inp @
    balance_rule now inp @ confidence_rule now inp @ errors_rule now inp @ accuracy_rule now inp"
  have "filter (\<lambda>y. rn_priority y < 2) rest = []" by (simp add: rest_def no_priority_one)
  then have "filter (\<lambda>y. rn_priority y < rn_priority r) rest = []" by (auto simp: filter_empty_conv r)
  then have "r \<in> set (take n (sort_key rn_priority ([] @ r # rest)))" using assms(2) by (intro kept_in_cut) simp
  moreover have "triggered_rules cfg now inp = [] @ r # rest" by (simp add: triggered_rules_def rest_def r)
  ultimately show ?thesis using r(2) by metis
next
  case False
  with assms(1) obtain r where r: "drawdown_rule cfg now inp = [r]" "rn_type r = R_stop" "rn_priority r = 2"
    by (simp add: drawdown_rule_def drawdown_exceeded_def advise_def Let_def)
  have "length (filter (\<lambda>y. rn_priority y \<le> 2) (cashout_rule now inp)) \<le> 1"
    using rule_lengths(1) [of now inp] length_filter_le [of _ "cashout_rule now inp"] le_trans by blast
  then have "r \<in> set (take n (sort_key rn_priority ((cashout_rule now inp @ hit_rate_rule cfg now inp) @ r #
      (streak_rule cfg now inp @ balance_rule now inp @ confidence_rule now inp @ errors_rule now inp @
       accuracy_rule now inp))))"
    using assms(2) by (intro kept_in_cut) (simp add: r rule_lengths no_priority_one)
  with r show ?thesis by (auto simp: triggered_rules_def)
qed

lemma most_severe_stop:
  "list_ex (\<lambda>r. rn_type r = R_stop) rs \<Longrightarrow> map_option rn_type (getMostSevereRecommendation rs) = Some R_stop"
proof (cases rs)
  case (Cons r rest)
  have index: "severity_index t = 0 \<longleftrightarrow> t = R_stop" for t by (cases t) auto
  have "rn_type (foldl (\<lambda>worst r. if severity_index (rn_type r) < severity_index (rn_type worst) then r else worst)
      w rest) = R_stop" if "rn_type w = R_stop \<or> list_ex (\<lambda>r. rn_type r = R_stop) rest" for w
    using that
  proof (induction rest arbitrary: w)
    case (Cons x xs)
    then show ?case using index [of "rn_type w"]
      by (cases "rn_type w = R_stop"; cases "rn_type x = R_stop") simp_all
  qed simp
  then show "list_ex (\<lambda>r. rn_type r = R_stop) rs \<Longrightarrow> map_option rn_type (getMostSevereRecommendation rs) = Some R_stop"
    by (simp add: Cons getMostSevereRecommendation_def)
qed simp

lemma most_severe_mem: "getMostSevereRecommendation rs = Some r \<Longrightarrow> r \<in> set rs"
proof (cases rs)
  case (Cons x rest)
  have "foldl (\<lambda>worst r. if severity_index (rn_type r) < severity_index (rn_type worst) then r else worst) w rest
      \<in> insert w (set rest)" for w
    by (induction rest arbitrary: w) (auto split: if_split)
  then show "getMostSevereRecommendation rs = Some r \<Longrightarrow> r \<in> set rs"
    by (auto simp: Cons getMostSevereRecommendation_def)
qed (simp add: getMostSevereRecommendation_def)

lemma severe_is_present:
  "map_option rn_type (getMostSevereRecommendation rs) = Some R_stop \<Longrightarrow> list_ex (\<lambda>r. rn_type r = R_stop) rs"
  using most_severe_mem [of rs] by (auto simp: list_ex_iff)

text \<open>The stop is in the advice exactly when the cash-outs fail critically or the drawdown exceeds its limit.\<close>

lemma stop_is_never_cut_off:
  "let rs = generateRecommendations DEFAULT_RECOMMENDATION_CONFIG now inp in
     list_ex (\<lambda>r. rn_type r = R_stop) rs =
       (cashout_critical inp \<or> drawdown_exceeded DEFAULT_RECOMMENDATION_CONFIG inp) \<and>
     (map_option rn_type (getMostSevereRecommendation rs) = Some R_stop) = list_ex (\<lambda>r. rn_type r = R_stop) rs \<and>
     rs \<noteq> [] \<and> length rs \<le> 3 \<and> sorted (map rn_priority rs)"
proof -
  define rs where "rs = generateRecommendations DEFAULT_RECOMMENDATION_CONFIG now inp"
  define found where "found = triggered_rules DEFAULT_RECOMMENDATION_CONFIG now inp"
  define all where "all = (if found = [] then advise now inp R_continue 10 [''all_metrics_normal''] (6/10) else found)"
  have rs: "rs = take 3 (sort_key rn_priority all)"
    by (simp add: rs_def all_def found_def generateRecommendations_def DEFAULT_RECOMMENDATION_CONFIG_def)
  have "set rs \<subseteq> set all" using set_take_subset [of 3 "sort_key rn_priority all"] by (simp add: rs)
  then have "list_ex (\<lambda>r. rn_type r = R_stop) rs \<Longrightarrow> \<exists>r\<in>set found. rn_type r = R_stop"
    by (auto simp: list_ex_iff all_def advise_def split: if_splits)
  moreover have "list_ex (\<lambda>r. rn_type r = R_stop) rs"
    if "cashout_critical inp \<or> drawdown_exceeded DEFAULT_RECOMMENDATION_CONFIG inp"
    using stop_kept [OF that, of 3 now] stops_triggered [of DEFAULT_RECOMMENDATION_CONFIG now inp] that
    by (auto simp: list_ex_iff rs all_def found_def)
  ultimately have iff: "list_ex (\<lambda>r. rn_type r = R_stop) rs =
      (cashout_critical inp \<or> drawdown_exceeded DEFAULT_RECOMMENDATION_CONFIG inp)"
    using stops_triggered [of DEFAULT_RECOMMENDATION_CONFIG now inp] by (auto simp: found_def)
  have "length rs = min 3 (length all)" by (simp add: rs)
  moreover have "all \<noteq> []" by (simp add: all_def advise_def)
  ultimately have "rs \<noteq> []" "length rs \<le> 3" by (auto simp: min_def split: if_splits)
  moreover have "sorted (map rn_priority rs)"
    unfolding rs take_map [symmetric] by (rule sorted_wrt_take) simp
  ultimately show ?thesis
    using iff most_severe_stop [of rs] severe_is_present [of rs] unfolding rs_def [symmetric] Let_def by blast
qed

text \<open>
  C38. A stop is never cut off: when a rule that fires advises to stop, the three recommendations shown have that
  stop and it is the most severe one, however many other rules fire; what is shown was advised by a rule, or is the
  one advice to go on. The list is never empty, never longer than three, and ordered by priority.
\<close>

theorem triggered_stop_is_shown:
  "let found = triggered_rules DEFAULT_RECOMMENDATION_CONFIG now inp;
       rs = generateRecommendations DEFAULT_RECOMMENDATION_CONFIG now inp
   in (if list_ex (\<lambda>r. rn_type r = R_stop) found
       then list_ex (\<lambda>r. rn_type r = R_stop) rs \<and> map_option rn_type (getMostSevereRecommendation rs) = Some R_stop
       else True) \<and>
      (if found = [] then map rn_type rs = [R_continue] else set rs \<subseteq> set found) \<and>
      rs \<noteq> [] \<and> length rs \<le> 3 \<and> sorted (map rn_priority rs)"
proof -
  define rs where "rs = generateRecommendations DEFAULT_RECOMMENDATION_CONFIG now inp"
  define found where "found = triggered_rules DEFAULT_RECOMMENDATION_CONFIG now inp"
  note all = stop_is_never_cut_off [where now = now and inp = inp, folded rs_def, unfolded Let_def]
  have "list_ex (\<lambda>r. rn_type r = R_stop) found \<Longrightarrow> list_ex (\<lambda>r. rn_type r = R_stop) rs"
    using all stops_triggered [of DEFAULT_RECOMMENDATION_CONFIG now inp] by (simp add: found_def list_ex_iff)
  moreover have "rs = take 3 (sort_key rn_priority
      (if found = [] then advise now inp R_continue 10 [''all_metrics_normal''] (6/10) else found))"
    by (simp add: rs_def generateRecommendations_def found_def Let_def) (simp add: DEFAULT_RECOMMENDATION_CONFIG_def)
  then have "if found = [] then map rn_type rs = [R_continue] else set rs \<subseteq> set found"
    using set_take_subset [of 3 "sort_key rn_priority found"] by (simp add: advise_def)
  ultimately show ?thesis
    using all most_severe_stop [of rs] unfolding found_def [symmetric] rs_def [symmetric] Let_def by simp
qed

text \<open>
  The pause for a severe drawdown is never advised: a drawdown of that severity is beyond the limit of the stop.
\<close>

lemma exact_halves: "rnd (1 / 2) = Fin (1 / 2)" "lit (1 / 4) = Fin (1 / 4)"
  using rnd_dyadic [of 1 "-1"] rnd_dyadic [of 1 "-2"] by (simp_all add: lit_def power_int_minus inverse_eq_divide)

lemma half_of_bankroll: "jle (Fin 3500) d \<Longrightarrow> jle (Fin (1/2)) (jdiv d (Fin 7000))"
proof (cases d)
  case (Fin q)
  assume "jle (Fin 3500) d"
  then have "(1/2 :: rat) \<le> q / 7000" using Fin by simp
  then show ?thesis using Fin rnd_mono [of "1/2" "q / 7000"] by (simp add: exact_halves(1))
qed (simp_all add: jle_def)

lemma severe_drawdown_never_pauses:
  assumes "dd_severity (gi_drawdown inp) = classifyDrawdownSeverity (dd_maxDrawdown (gi_drawdown inp))"
  shows "list_all (\<lambda>r. rn_type r = R_stop) (drawdown_rule DEFAULT_RECOMMENDATION_CONFIG now inp)"
proof (cases "dd_severity (gi_drawdown inp) \<in> {Dd_severe, Dd_critical}")
  case True
  then have "jle (Fin 3500) (dd_maxDrawdown (gi_drawdown inp))"
    using assms jle_trans [of "Fin 3500" "Fin 7000"] by (auto simp: classifyDrawdownSeverity_def split: if_splits)
  then have "jle (Fin (1/2)) (jdiv (dd_maxDrawdown (gi_drawdown inp)) (Fin 7000))" by (rule half_of_bankroll)
  then have "jlt (lit (25/100)) (jdiv (dd_maxDrawdown (gi_drawdown inp)) (jmul default_stake (Fin 10)))"
    by (cases "jdiv (dd_maxDrawdown (gi_drawdown inp)) (Fin 7000)")
      (auto simp: exact_halves(2) default_stake_def jle_def)
  then show ?thesis
    by (simp add: drawdown_rule_def Let_def advise_def DEFAULT_RECOMMENDATION_CONFIG_def)
next
  case False
  then show ?thesis by (simp add: drawdown_rule_def Let_def advise_def)
qed

section \<open>Cooldowns\<close>

text \<open>Flags of one category are at least its cooldown apart, in the order they are published.\<close>

definition spaced_out :: "anomaly_config \<Rightarrow> anomaly_flag list \<Rightarrow> bool" where
  "spaced_out cfg fs \<longleftrightarrow> sorted_wrt (\<lambda>f g. fl_category f = fl_category g \<longrightarrow>
     fl_timestamp f + cooldown_of cfg (fl_category f) \<le> fl_timestamp g) fs"

text \<open>The table holds the time of the last flag of each category, and the next one has to wait for it.\<close>

definition awaited :: "anomaly_config \<Rightarrow> cooldowns \<Rightarrow> anomaly_flag list \<Rightarrow> bool" where
  "awaited cfg seen fs \<longleftrightarrow> spaced_out cfg fs \<and>
     list_all (\<lambda>f. case seen (fl_category f) of None \<Rightarrow> True
       | Some t \<Rightarrow> t + cooldown_of cfg (fl_category f) \<le> fl_timestamp f) fs"

definition later_table :: "cooldowns \<Rightarrow> cooldowns \<Rightarrow> bool" where
  "later_table seen seen' \<longleftrightarrow> (\<forall>c t. seen c = Some t \<longrightarrow> (\<exists>t'\<ge>t. seen' c = Some t'))"

definition noted :: "anomaly_flag list \<Rightarrow> cooldowns \<Rightarrow> bool" where
  "noted fs seen \<longleftrightarrow> list_all (\<lambda>f. \<exists>t\<ge>fl_timestamp f. seen (fl_category f) = Some t) fs"

lemma later_table_trans: "later_table a b \<Longrightarrow> later_table b c \<Longrightarrow> later_table a c"
  unfolding later_table_def by (meson order_trans)

lemma noted_later: "noted fs a \<Longrightarrow> later_table a b \<Longrightarrow> noted fs b"
  unfolding noted_def later_table_def list_all_iff by (meson order_trans)

lemma awaited_earlier: "awaited cfg b fs \<Longrightarrow> later_table a b \<Longrightarrow> awaited cfg a fs"
  unfolding awaited_def later_table_def list_all_iff by (fastforce split: option.splits)

lemma awaited_append:
  assumes "awaited cfg a fs" "awaited cfg b gs" "noted fs b" "later_table a b"
  shows "awaited cfg a (fs @ gs)"
proof -
  have "awaited cfg a gs" using assms(2,4) by (rule awaited_earlier)
  moreover have "fl_timestamp f + cooldown_of cfg (fl_category f) \<le> fl_timestamp g"
    if "f \<in> set fs" "g \<in> set gs" "fl_category f = fl_category g" for f g
    using assms(2,3) that by (fastforce simp: awaited_def noted_def list_all_iff split: option.splits)
  ultimately show ?thesis using assms(1) by (auto simp: awaited_def spaced_out_def sorted_wrt_append)
qed

lemma isInCooldown_cases:
  assumes "isInCooldown f (cooldown_of cfg (fl_category f)) seen = (b, seen')" "0 \<le> cooldown_of cfg (fl_category f)"
  shows "later_table seen seen'" "\<not> b \<Longrightarrow> awaited cfg seen [f] \<and> noted [f] seen'"
  using assms
  by (auto simp: isInCooldown_def later_table_def awaited_def spaced_out_def noted_def split: option.splits if_splits)

definition cooldowns_nonneg :: "anomaly_config \<Rightarrow> bool" where
  "cooldowns_nonneg cfg \<longleftrightarrow> (\<forall>c. 0 \<le> cooldown_of cfg c)"

lemma publish_awaited:
  assumes "cooldowns_nonneg cfg" "publish_flags cfg fs seen = (shown, seen')"
  shows "awaited cfg seen shown \<and> noted shown seen' \<and> later_table seen seen'"
  using assms(2)
proof (induction fs arbitrary: seen shown)
  case Nil
  then show ?case by (simp add: awaited_def spaced_out_def noted_def later_table_def)
next
  case (Cons f fs)
  obtain b mid where first: "isInCooldown f (cooldown_of cfg (fl_category f)) seen = (b, mid)" by (rule prod.exhaust)
  obtain rest where tail: "publish_flags cfg fs mid = (rest, seen')"
    using Cons.prems by (auto simp: first split: bool.splits prod.splits)
  note ih = Cons.IH [OF tail] and head = isInCooldown_cases [OF first]
  have "shown = (if b then rest else [f] @ rest)" using Cons.prems by (auto simp: first tail split: bool.splits)
  with ih head assms(1) show ?case
    using awaited_append [of cfg seen "[f]" mid rest] later_table_trans [of seen mid seen']
      awaited_earlier [of cfg mid rest seen] noted_later [of "[f]" mid seen']
    by (auto simp: cooldowns_nonneg_def noted_def split: if_splits)
qed

lemma detect_awaited:
  assumes "cooldowns_nonneg cfg" "detect_all mt cfg calls seen = (shown, seen')"
  shows "awaited cfg seen shown \<and> noted shown seen' \<and> later_table seen seen'"
  using assms(2)
proof (induction calls arbitrary: seen shown)
  case Nil
  then show ?case by (simp add: awaited_def spaced_out_def noted_def later_table_def)
next
  case (Cons call calls)
  obtain now inp where call: "call = (now, inp)" by (rule prod.exhaust)
  obtain here mid where first: "detectAnomalies mt cfg now inp seen = (here, mid)" by (rule prod.exhaust)
  obtain rest where tail: "detect_all mt cfg calls mid = (rest, seen')"
    using Cons.prems by (auto simp: call first split: prod.splits)
  have here: "awaited cfg seen here \<and> noted here mid \<and> later_table seen mid"
    using first publish_awaited [OF assms(1), of "raised_flags mt cfg now inp" seen here mid]
    by (auto simp: detectAnomalies_def awaited_def spaced_out_def noted_def later_table_def split: if_splits)
  have "shown = here @ rest" using Cons.prems by (auto simp: call first tail)
  with Cons.IH [OF tail] here show ?case
    using awaited_append [of cfg seen here mid rest] later_table_trans [of seen mid seen']
      noted_later [of here mid seen']
    by (auto simp: noted_def)
qed

lemma default_cooldowns: "cooldowns_nonneg DEFAULT_ANOMALY_CONFIG"
  unfolding cooldowns_nonneg_def
proof
  fix c
  show "0 \<le> cooldown_of DEFAULT_ANOMALY_CONFIG c"
    by (cases c) (simp_all add: cooldown_of_def DEFAULT_ANOMALY_CONFIG_def enabled_category_def)
qed

text \<open>
  C39. Anomalies are not repeated: however often and for whatever windows the detection is called, and whatever the
  clock does, two published flags of one category are at least its cooldown apart.
\<close>

theorem anomalies_respect_cooldown:
  "spaced_out DEFAULT_ANOMALY_CONFIG (fst (detect_all mt DEFAULT_ANOMALY_CONFIG calls clearAnomalyCooldowns))"
proof -
  obtain shown seen where "detect_all mt DEFAULT_ANOMALY_CONFIG calls clearAnomalyCooldowns = (shown, seen)"
    by (rule prod.exhaust)
  with detect_awaited [OF default_cooldowns this] show ?thesis by (simp add: awaited_def)
qed

text \<open>
  The table is shared by all windows: what one query has published, a second query at the same time, for the same
  window or a larger one, does not report.
\<close>

definition cooling :: "anomaly_config \<Rightarrow> int \<Rightarrow> cooldowns \<Rightarrow> anomaly_category \<Rightarrow> bool" where
  "cooling cfg now seen c \<longleftrightarrow> (case seen c of None \<Rightarrow> False | Some t \<Rightarrow> now - t < cooldown_of cfg c)"

lemma isInCooldown_cooling:
  assumes "isInCooldown f (cooldown_of cfg (fl_category f)) seen = (b, seen')" "0 < cooldown_of cfg (fl_category f)"
  shows "cooling cfg (fl_timestamp f) seen' (fl_category f)"
    "cooling cfg (fl_timestamp f) seen c \<Longrightarrow> cooling cfg (fl_timestamp f) seen' c"
  using assms by (auto simp: isInCooldown_def cooling_def split: option.splits if_splits)

lemma publish_cooling:
  assumes "publish_flags cfg fs seen = (shown, seen')" "list_all (\<lambda>f. fl_timestamp f = now) fs"
    "\<And>c. 0 < cooldown_of cfg c"
  shows "(\<forall>c. cooling cfg now seen c \<longrightarrow> cooling cfg now seen' c) \<and>
    list_all (\<lambda>f. cooling cfg now seen' (fl_category f)) fs"
  using assms(1,2)
proof (induction fs arbitrary: seen shown)
  case (Cons f fs)
  obtain b mid where first: "isInCooldown f (cooldown_of cfg (fl_category f)) seen = (b, mid)" by (rule prod.exhaust)
  obtain rest where tail: "publish_flags cfg fs mid = (rest, seen')"
    using Cons.prems(1) by (auto simp: first split: bool.splits prod.splits)
  have "fl_timestamp f = now" "list_all (\<lambda>f. fl_timestamp f = now) fs" using Cons.prems(2) by simp_all
  then show ?case
    using Cons.IH [OF tail] isInCooldown_cooling [OF first assms(3)] by auto
qed simp

lemma for_category_Some: "for_category cfg c block = Some f \<Longrightarrow> \<exists>k. block k = Some f"
  by (auto simp: for_category_def split: option.splits if_splits)

lemma make_flag_Some: "make_flag now inp c k critical ob ex sg = Some f \<Longrightarrow> fl_timestamp f = now"
  by (auto simp: make_flag_def)

lemma block_times:
  "hit_rate_block mt cfg now inp = Some f \<Longrightarrow> fl_timestamp f = now"
  "cashout_block mt cfg now inp = Some f \<Longrightarrow> fl_timestamp f = now"
  "latency_block mt cfg now inp = Some f \<Longrightarrow> fl_timestamp f = now"
  "balance_block cfg now inp = Some f \<Longrightarrow> fl_timestamp f = now"
  "streak_block mt cfg now inp = Some f \<Longrightarrow> fl_timestamp f = now"
  "share_block mt cfg now inp c oc x y = Some f \<Longrightarrow> fl_timestamp f = now"
  "observation_block cfg now inp = Some f \<Longrightarrow> fl_timestamp f = now"
  "reconnect_block cfg now inp = Some f \<Longrightarrow> fl_timestamp f = now"
  "drawdown_block mt cfg now inp = Some f \<Longrightarrow> fl_timestamp f = now"
  unfolding hit_rate_block_def cashout_block_def latency_block_def balance_block_def streak_block_def share_block_def
    observation_block_def reconnect_block_def drawdown_block_def
  by (drule for_category_Some; auto simp: Let_def split: option.splits if_splits dest: make_flag_Some)+

lemma set_map_filter_id: "x \<in> set (List.map_filter id xs) \<longleftrightarrow> Some x \<in> set xs"
  by (induction xs) (auto simp: List.map_filter_def)

lemma raised_now: "list_all (\<lambda>f. fl_timestamp f = now) (raised_flags mt cfg now inp)"
  unfolding list_all_iff
proof
  fix f assume "f \<in> set (raised_flags mt cfg now inp)"
  then show "fl_timestamp f = now"
    unfolding raised_flags_def set_map_filter_id failed_block_def unknown_block_def
    by (auto dest: block_times block_times [OF sym])
qed

lemma publish_silent:
  "list_all (\<lambda>f. cooling cfg (fl_timestamp f) seen (fl_category f)) fs \<Longrightarrow> publish_flags cfg fs seen = ([], seen)"
  by (induction fs) (auto simp: isInCooldown_def cooling_def split: option.splits)

lemma default_cooldowns_pos: "0 < cooldown_of DEFAULT_ANOMALY_CONFIG c"
  by (cases c) (simp_all add: cooldown_of_def DEFAULT_ANOMALY_CONFIG_def enabled_category_def)

lemma repeated_query_is_silent:
  "fst (detectAnomalies mt DEFAULT_ANOMALY_CONFIG now inp
     (snd (detectAnomalies mt DEFAULT_ANOMALY_CONFIG now inp seen))) = []"
proof -
  define fs where "fs = raised_flags mt DEFAULT_ANOMALY_CONFIG now inp"
  obtain shown seen' where first: "publish_flags DEFAULT_ANOMALY_CONFIG fs seen = (shown, seen')" by (rule prod.exhaust)
  have now: "list_all (\<lambda>f. fl_timestamp f = now) fs" by (simp add: fs_def raised_now)
  have "publish_flags DEFAULT_ANOMALY_CONFIG fs seen' = ([], seen')"
    using publish_cooling [OF first now default_cooldowns_pos] now
    by (intro publish_silent) (auto simp: list_all_iff)
  moreover have "kg_enabled DEFAULT_ANOMALY_CONFIG" by (simp add: DEFAULT_ANOMALY_CONFIG_def)
  ultimately show ?thesis
    using first by (simp add: detectAnomalies_def fs_def)
qed

end
