(* ===== verification/Analytics.thy ===== *)
theory Analytics
  imports Advice
begin

text \<open>
  The analytics engine of \<open>src/src/analytics/engine.ts\<close> with the windows of \<open>windows.ts\<close>, the reports of
  \<open>reports\<close> and the descriptive tables of \<open>learning/descriptive.ts\<close>. The cooldowns of the anomalies are threaded
  through every query. The texts for the chat and the key of the current day, a formatted date, are arguments or
  left out.
\<close>

section \<open>Windows\<close>

record metric_snapshot =
  sn_timestamp :: int
  sn_window :: window_type
  sn_hitRate :: hit_rate_metrics
  sn_drawdown :: drawdown_metrics
  sn_streaks :: streak_metrics
  sn_expectedValue :: value_metrics
  sn_latency :: latency_metrics
  sn_cashOut :: cashout_metrics
  sn_recommendations :: "recommendation list"
  sn_anomalies :: "anomaly_flag list"

fun getMinSamplesForWindow :: "window_type \<Rightarrow> nat" where
  "getMinSamplesForWindow W_last_10 = 5"
| "getMinSamplesForWindow W_last_50 = 25"
| "getMinSamplesForWindow W_last_100 = 50"
| "getMinSamplesForWindow W_last_500 = 250"
| "getMinSamplesForWindow W_session = 10"
| "getMinSamplesForWindow W_day = 5"
| "getMinSamplesForWindow W_week = 50"
| "getMinSamplesForWindow W_month = 200"
| "getMinSamplesForWindow W_all = 100"

definition day_ms :: int where
  "day_ms = 86400000"

text \<open>Both filters by window, over the time stamp of an element.\<close>

fun filter_window :: "('a \<Rightarrow> int) \<Rightarrow> int \<Rightarrow> int option \<Rightarrow> window_type \<Rightarrow> 'a list \<Rightarrow> 'a list" where
  "filter_window time now session W_last_10 xs = js_slice_last 10 xs"
| "filter_window time now session W_last_50 xs = js_slice_last 50 xs"
| "filter_window time now session W_last_100 xs = js_slice_last 100 xs"
| "filter_window time now session W_last_500 xs = js_slice_last 500 xs"
| "filter_window time now session W_session xs =
     (case session of None \<Rightarrow> xs | Some start \<Rightarrow> filter (\<lambda>x. start \<le> time x) xs)"
| "filter_window time now session W_day xs = filter (\<lambda>x. now - now mod day_ms \<le> time x) xs"
| "filter_window time now session W_week xs = filter (\<lambda>x. now - 7 * day_ms \<le> time x) xs"
| "filter_window time now session W_month xs = filter (\<lambda>x. now - 30 * day_ms \<le> time x) xs"
| "filter_window time now session W_all xs = xs"

definition filterLatencyByWindow ::
  "int \<Rightarrow> int option \<Rightarrow> window_type \<Rightarrow> latency_sample list \<Rightarrow> latency_sample list" where
  "filterLatencyByWindow = filter_window lt_timestamp"

record window_input =
  wn_outcomes :: "outcome_record list"
  wn_latency :: "latency_sample list"
  wn_currentBalance :: "jsnum option"
  wn_confidence :: "observation_confidence option"
  wn_sessionStart :: "int option"

definition confidence_level :: jsnum where
  "confidence_level = lit (95/100)"

definition aggregateWindow ::
  "js_math \<Rightarrow> int \<Rightarrow> window_input \<Rightarrow> window_type \<Rightarrow> cooldowns \<Rightarrow> metric_snapshot option \<times> cooldowns" where
  "aggregateWindow mt now inp w seen =
     (let outcomes = filter_window oc_timestamp now (wn_sessionStart inp) w (wn_outcomes inp)
      in if length (filter resolved outcomes) < getMinSamplesForWindow w then (None, seen)
         else let hitRate = computeHitRateMetrics mt outcomes default_target confidence_level;
                  drawdown = computeDrawdownFromOutcomes outcomes;
                  streaks = computeStreakMetrics mt outcomes (hm_observedRate hitRate);
                  expectedValue = computeExpectedValueMetrics mt outcomes default_stake default_target;
                  latency = computeLatencyMetrics (filterLatencyByWindow now (wn_sessionStart inp) w (wn_latency inp));
                  cashOut = computeCashOutSuccessMetrics outcomes;
                  recommendations = generateRecommendations DEFAULT_RECOMMENDATION_CONFIG now
                    \<lparr>gi_hitRate = hitRate, gi_drawdown = drawdown, gi_streaks = streaks, gi_cashOut = cashOut,
                     gi_expectedValue = expectedValue, gi_window = w, gi_currentBalance = wn_currentBalance inp,
                     gi_confidence = wn_confidence inp, gi_consecutiveErrors = None\<rparr>
              in case detectAnomalies mt DEFAULT_ANOMALY_CONFIG now
                    \<lparr>qi_outcomes = outcomes, qi_hitRate = hitRate, qi_drawdown = drawdown, qi_streaks = streaks,
                     qi_latency = latency, qi_cashOut = cashOut, qi_window = w, qi_balanceMismatch = None,
                     qi_reconnectCount = None, qi_confidence = wn_confidence inp\<rparr> seen of
                   (anomalies, seen) \<Rightarrow>
                     (Some \<lparr>sn_timestamp = now, sn_window = w, sn_hitRate = hitRate, sn_drawdown = drawdown,
                        sn_streaks = streaks, sn_expectedValue = expectedValue, sn_latency = latency,
                        sn_cashOut = cashOut, sn_recommendations = recommendations, sn_anomalies = anomalies\<rparr>, seen))"

definition all_windows :: "window_type list" where
  "all_windows = [W_last_10, W_last_50, W_last_100, W_last_500, W_session, W_day, W_week, W_month, W_all]"

fun aggregate_windows ::
  "js_math \<Rightarrow> int \<Rightarrow> window_input \<Rightarrow> window_type list \<Rightarrow> cooldowns \<Rightarrow>
   (window_type \<times> metric_snapshot option) list \<times> cooldowns" where
  "aggregate_windows mt now inp [] seen = ([], seen)"
| "aggregate_windows mt now inp (w # ws) seen =
     (case aggregateWindow mt now inp w seen of
        (s, seen) \<Rightarrow> (case aggregate_windows mt now inp ws seen of (ss, seen) \<Rightarrow> ((w, s) # ss, seen)))"

definition aggregateAllWindows ::
  "js_math \<Rightarrow> int \<Rightarrow> window_input \<Rightarrow> cooldowns \<Rightarrow> (window_type \<times> metric_snapshot option) list \<times> cooldowns" where
  "aggregateAllWindows mt now inp seen = aggregate_windows mt now inp all_windows seen"

definition getWindowAvailability :: "int \<Rightarrow> outcome_record list \<Rightarrow> window_type \<Rightarrow> bool \<times> nat \<times> nat" where
  "getWindowAvailability now outcomes w =
     (let n = length (filter resolved (filter_window oc_timestamp now None w outcomes));
          required = getMinSamplesForWindow w
      in (required \<le> n, n, required))"

section \<open>Reports\<close>

text \<open>The metrics a report passes to the rules where it has not computed them.\<close>

definition no_cashouts :: cashout_metrics where
  "no_cashouts = emptyCashOutSuccessMetrics\<lparr>cm_successRate := Fin 1, cm_trend := Ct_stable\<rparr>"

record daily_report =
  da_dailyKey :: string
  da_entriesConfirmed :: nat
  da_entriesAttempted :: nat
  da_entriesFailed :: nat
  da_wins :: nat
  da_losses :: nat
  da_hitRate :: hit_rate_metrics
  da_netPnl :: jsnum
  da_expectedPnl :: jsnum
  da_maxDrawdown :: jsnum
  da_currentDrawdown :: jsnum
  da_cashOutSuccessRate :: jsnum
  da_averageLatencyMs :: jsnum
  da_recommendations :: "recommendation list"
  da_anomalies :: "anomaly_flag list"
  da_generatedAt :: int

definition generateDailyReport ::
  "js_math \<Rightarrow> int \<Rightarrow> string \<Rightarrow> outcome_record list \<Rightarrow> latency_sample list \<Rightarrow> jsnum option \<Rightarrow>
   observation_confidence option \<Rightarrow> cooldowns \<Rightarrow> daily_report \<times> cooldowns" where
  "generateDailyReport mt now dailyKey outcomes samples balance conf seen =
     (let rs = filter resolved outcomes;
          hitRate = computeHitRateMetrics mt outcomes default_target confidence_level;
          drawdown = computeDrawdownFromOutcomes outcomes;
          cashOut = computeCashOutSuccessMetrics outcomes;
          expectedValue = computeExpectedValueMetrics mt outcomes default_stake default_target;
          latency = computeLatencyMetrics samples
      in case detectAnomalies mt DEFAULT_ANOMALY_CONFIG now
            \<lparr>qi_outcomes = outcomes, qi_hitRate = hitRate, qi_drawdown = drawdown, qi_streaks = emptyStreakMetrics,
             qi_latency = latency, qi_cashOut = cashOut, qi_window = W_day, qi_balanceMismatch = None,
             qi_reconnectCount = None, qi_confidence = conf\<rparr> seen of
           (anomalies, seen) \<Rightarrow>
             (\<lparr>da_dailyKey = dailyKey, da_entriesConfirmed = length rs, da_entriesAttempted = length outcomes,
               da_entriesFailed = how_many (\<lambda>r. oc_outcome r = Failed_bet) outcomes,
               da_wins = how_many won rs, da_losses = how_many (\<lambda>r. oc_outcome r = Loss) rs,
               da_hitRate = hitRate, da_netPnl = total_by oc_pnl rs,
               da_expectedPnl = vm_cumulativeExpected expectedValue, da_maxDrawdown = dd_maxDrawdown drawdown,
               da_currentDrawdown = dd_currentDrawdown drawdown, da_cashOutSuccessRate = cm_successRate cashOut,
               da_averageLatencyMs = lq_p50 latency,
               da_recommendations = generateRecommendations DEFAULT_RECOMMENDATION_CONFIG now
                 \<lparr>gi_hitRate = hitRate, gi_drawdown = drawdown, gi_streaks = emptyStreakMetrics, gi_cashOut = cashOut,
                  gi_expectedValue = expectedValue, gi_window = W_day, gi_currentBalance = balance,
                  gi_confidence = conf, gi_consecutiveErrors = None\<rparr>,
               da_anomalies = anomalies, da_generatedAt = now\<rparr>, seen))"

definition computeHealthScore ::
  "hit_rate_metrics \<Rightarrow> drawdown_metrics \<Rightarrow> latency_metrics \<Rightarrow> cashout_metrics \<Rightarrow> int" where
  "computeHealthScore hitRate drawdown latency cashOut =
     (let score = 100
          - (if jlt (hm_observedRate hitRate) (hm_breakEvenRate hitRate) then 20 else 0)
          - (if hm_significance hitRate = Significant_below then 15 else 0)
          - (case dd_severity drawdown of Dd_moderate \<Rightarrow> 10 | Dd_severe \<Rightarrow> 20 | Dd_critical \<Rightarrow> 30 | _ \<Rightarrow> 0)
          - (case lq_trend latency of Lt_degrading \<Rightarrow> 10 | Lt_critical \<Rightarrow> 20 | _ \<Rightarrow> 0)
          - (if jlt (cm_successRate cashOut) (lit (95/100)) then 15 else 0)
          - (if jlt (cm_successRate cashOut) (lit (90/100)) then 20 else 0)
      in max 0 (min 100 score))"

definition computeEfficiencyScore :: "nat \<Rightarrow> jsnum \<Rightarrow> cashout_metrics \<Rightarrow> jsnum" where
  "computeEfficiencyScore entries durationMinutes cashOut =
     (if jle durationMinutes (Fin 0) then Fin 0
      else let perHour = jmul (jdiv (jsnat entries) durationMinutes) (Fin 60);
               score = jadd (jmin (Fin 50) (jmul perHour (Fin 2))) (jmul (cm_successRate cashOut) (Fin 50))
           in jmax (Fin 0) (jmin (Fin 100) score))"

record session_report =
  sr_sessionId :: string
  sr_startedAt :: int
  sr_endedAt :: "int option"
  sr_durationMinutes :: jsnum
  sr_entries :: nat
  sr_wins :: nat
  sr_losses :: nat
  sr_hitRate :: hit_rate_metrics
  sr_netPnl :: jsnum
  sr_maxDrawdown :: jsnum
  sr_currentDrawdown :: jsnum
  sr_streaks :: streak_metrics
  sr_latency :: latency_metrics
  sr_cashOut :: cashout_metrics
  sr_recommendations :: "recommendation list"
  sr_anomalies :: "anomaly_flag list"
  sr_healthScore :: int
  sr_efficiencyScore :: jsnum

definition generateSessionReport ::
  "js_math \<Rightarrow> int \<Rightarrow> string \<Rightarrow> int \<Rightarrow> int option \<Rightarrow> outcome_record list \<Rightarrow> latency_sample list \<Rightarrow> jsnum option \<Rightarrow>
   observation_confidence option \<Rightarrow> cooldowns \<Rightarrow> session_report \<times> cooldowns" where
  "generateSessionReport mt now sessionId startedAt endedAt outcomes samples balance conf seen =
     (let rs = filter resolved outcomes;
          hitRate = computeHitRateMetrics mt outcomes default_target confidence_level;
          drawdown = computeDrawdownFromOutcomes outcomes;
          streaks = computeStreakMetrics mt outcomes (hm_observedRate hitRate);
          cashOut = computeCashOutSuccessMetrics outcomes;
          latency = computeLatencyMetrics samples;
          expectedValue = computeExpectedValueMetrics mt outcomes default_stake default_target;
          until = (case endedAt of None \<Rightarrow> now | Some t \<Rightarrow> t);
          durationMinutes = jdiv (jsint (until - startedAt)) (Fin 60000)
      in case detectAnomalies mt DEFAULT_ANOMALY_CONFIG now
            \<lparr>qi_outcomes = outcomes, qi_hitRate = hitRate, qi_drawdown = drawdown, qi_streaks = streaks,
             qi_latency = latency, qi_cashOut = cashOut, qi_window = W_session, qi_balanceMismatch = None,
             qi_reconnectCount = None, qi_confidence = conf\<rparr> seen of
           (anomalies, seen) \<Rightarrow>
             (\<lparr>sr_sessionId = sessionId, sr_startedAt = startedAt, sr_endedAt = endedAt,
               sr_durationMinutes = durationMinutes, sr_entries = length rs, sr_wins = how_many won rs,
               sr_losses = how_many (\<lambda>r. oc_outcome r = Loss) rs, sr_hitRate = hitRate, sr_netPnl = total_by oc_pnl rs,
               sr_maxDrawdown = dd_maxDrawdown drawdown, sr_currentDrawdown = dd_currentDrawdown drawdown,
               sr_streaks = streaks, sr_latency = latency, sr_cashOut = cashOut,
               sr_recommendations = generateRecommendations DEFAULT_RECOMMENDATION_CONFIG now
                 \<lparr>gi_hitRate = hitRate, gi_drawdown = drawdown, gi_streaks = streaks, gi_cashOut = cashOut,
                  gi_expectedValue = expectedValue, gi_window = W_session, gi_currentBalance = balance,
                  gi_confidence = conf, gi_consecutiveErrors = None\<rparr>,
               sr_anomalies = anomalies,
               sr_healthScore = computeHealthScore hitRate drawdown latency cashOut,
               sr_efficiencyScore = computeEfficiencyScore (length rs) durationMinutes cashOut\<rparr>, seen))"

text \<open>The learning curve: a point for every tenth outcome and one for the rest.\<close>

record curve_point =
  cq_timestamp :: int
  cq_cumulativeEntries :: nat
  cq_hitRate :: jsnum
  cq_confidenceLower :: jsnum
  cq_confidenceUpper :: jsnum
  cq_netPnl :: jsnum
  cq_maxDrawdown :: jsnum
  cq_evPerEntry :: jsnum

definition point_at :: "js_math \<Rightarrow> outcome_record list \<Rightarrow> nat \<Rightarrow> curve_point" where
  "point_at mt outcomes n =
     (let window = take n outcomes;
          hitRate = computeHitRateMetrics mt window default_target confidence_level;
          drawdown = computeDrawdownFromOutcomes window;
          ev = computeExpectedValueMetrics mt window default_stake default_target
      in \<lparr>cq_timestamp = oc_timestamp (last window), cq_cumulativeEntries = n, cq_hitRate = hm_observedRate hitRate,
          cq_confidenceLower = wi_lower (hm_interval hitRate), cq_confidenceUpper = wi_upper (hm_interval hitRate),
          cq_netPnl = vm_cumulativeRealized ev, cq_maxDrawdown = dd_maxDrawdown drawdown,
          cq_evPerEntry = vm_realizedEv ev\<rparr>)"

definition curve_sizes :: "nat \<Rightarrow> nat \<Rightarrow> nat list" where
  "curve_sizes step n =
     (let sizes = map (\<lambda>k. step * (k + 1)) [0..<n div step];
          lastN = (if sizes = [] then 0 else last sizes)
      in if lastN < n then sizes @ [n] else sizes)"

datatype curve_trend = Cv_improving | Cv_stable | Cv_declining

definition analyzeTrend :: "curve_point list \<Rightarrow> curve_trend \<times> jsnum" where
  "analyzeTrend points =
     (if length points < 3 then (Cv_stable, Fin 0)
      else let n = int (length points);
               ix = [0..<length points];
               sumX = sum_list (map int ix);
               sumX2 = sum_list (map (\<lambda>i. int i * int i) ix);
               sumY = total_by (\<lambda>i. cq_hitRate (points ! i)) ix;
               sumXY = total_by (\<lambda>i. jmul (jsnat i) (cq_hitRate (points ! i))) ix;
               denominator = n * sumX2 - sumX * sumX
           in if denominator = 0 then (Cv_stable, Fin 0)
              else let slope = jdiv (jsub (jmul (jsint n) sumXY) (jmul (jsint sumX) sumY)) (jsint denominator);
                       strength = jmin (Fin 1) (jdiv (jabs slope) (lit (1/100)))
                   in (if jlt strength (lit (2/10)) then Cv_stable
                       else if jlt (Fin 0) slope then Cv_improving else Cv_declining, strength))"

text \<open>\<open>Math.ceil\<close>.\<close>

fun ceiling_num :: "jsnum \<Rightarrow> jsnum" where
  "ceiling_num (Fin q) = rnd (of_int \<lceil>q\<rceil>)"
| "ceiling_num x = x"

definition estimateConvergence :: "js_math \<Rightarrow> curve_point list \<Rightarrow> jsnum option" where
  "estimateConvergence mt points =
     (if length points < 3 then None
      else let latest = last points;
               width = jsub (cq_confidenceUpper latest) (cq_confidenceLower latest);
               currentN = jsnat (cq_cumulativeEntries latest)
           in if jle width (lit (5/100)) then Some (Fin 0)
              else Some (ceiling_num (jsub (jmul currentN (mt_pow mt (jdiv width (lit (5/100))) (Fin 2))) currentN)))"

record curve_report =
  cu_points :: "curve_point list"
  cu_trend :: curve_trend
  cu_strength :: jsnum
  cu_convergence :: "jsnum option"
  cu_recommendations :: "recommendation list"
  cu_generatedAt :: int

definition generateLearningCurveReport :: "js_math \<Rightarrow> int \<Rightarrow> nat \<Rightarrow> outcome_record list \<Rightarrow> curve_report" where
  "generateLearningCurveReport mt now step outcomes =
     (if length outcomes < 5 then
        \<lparr>cu_points = [], cu_trend = Cv_stable, cu_strength = Fin 0, cu_convergence = None, cu_recommendations = [],
         cu_generatedAt = now\<rparr>
      else let points = map (point_at mt outcomes) (curve_sizes step (length outcomes));
               hitRate = computeHitRateMetrics mt outcomes default_target confidence_level;
               drawdown = computeDrawdownFromOutcomes outcomes;
               ev = computeExpectedValueMetrics mt outcomes default_stake default_target
           in \<lparr>cu_points = points, cu_trend = fst (analyzeTrend points), cu_strength = snd (analyzeTrend points),
               cu_convergence = estimateConvergence mt points,
               cu_recommendations = generateRecommendations DEFAULT_RECOMMENDATION_CONFIG now
                 \<lparr>gi_hitRate = hitRate, gi_drawdown = drawdown, gi_streaks = emptyStreakMetrics,
                  gi_cashOut = no_cashouts, gi_expectedValue = ev, gi_window = W_all, gi_currentBalance = None,
                  gi_confidence = None, gi_consecutiveErrors = None\<rparr>,
               cu_generatedAt = now\<rparr>)"

section \<open>Descriptive tables\<close>

record round_observation =
  ru_roundId :: string
  ru_timestamp :: int
  ru_crashPoint :: "jsnum option"

record crash_bucket =
  ck_label :: string
  ck_min :: jsnum
  ck_max :: jsnum
  ck_count :: nat
  ck_frequency :: jsnum
  ck_cumulative :: jsnum

definition crash_buckets :: "(string \<times> jsnum \<times> jsnum option) list" where
  "crash_buckets = [(''< 1.00x'', Fin 0, Some (Fin 1)), (''1.00-1.29x'', Fin 1, Some (lit (13/10))),
     (''1.30-1.99x'', lit (13/10), Some (Fin 2)), (''2.00-4.99x'', Fin 2, Some (Fin 5)),
     (''5.00-9.99x'', Fin 5, Some (Fin 10)), (''>= 10.00x'', Fin 10, None)]"

definition in_bucket :: "jsnum \<Rightarrow> string \<times> jsnum \<times> jsnum option \<Rightarrow> bool" where
  "in_bucket cp = (\<lambda>(_, low, high). jle low cp \<and> (case high of None \<Rightarrow> True | Some h \<Rightarrow> jlt cp h))"

text \<open>The bucket the inner loop stops at.\<close>

definition bucket_of :: "jsnum \<Rightarrow> string option" where
  "bucket_of cp = map_option fst (List.find (in_bucket cp) crash_buckets)"

fun distribution_rows :: "jsnum \<Rightarrow> nat \<Rightarrow> string option list \<Rightarrow> (string \<times> jsnum \<times> jsnum option) list \<Rightarrow> crash_bucket list" where
  "distribution_rows cumulative overall hits [] = []"
| "distribution_rows cumulative overall hits ((label, low, high) # bs) =
     (let c = how_many (\<lambda>h. h = Some label) hits;
          frequency = (if 0 < overall then jdiv (jsnat c) (jsnat overall) else Fin 0);
          cumulative = jadd cumulative frequency
      in \<lparr>ck_label = label, ck_min = low, ck_max = (case high of None \<Rightarrow> PInf | Some h \<Rightarrow> h), ck_count = c,
          ck_frequency = frequency, ck_cumulative = cumulative\<rparr> # distribution_rows cumulative overall hits bs)"

definition crash_points :: "round_observation list \<Rightarrow> jsnum list" where
  "crash_points rounds = List.map_filter ru_crashPoint rounds"

definition computeCrashDistribution :: "round_observation list \<Rightarrow> crash_bucket list" where
  "computeCrashDistribution rounds =
     (let cps = crash_points rounds
      in distribution_rows (Fin 0) (length cps) (map bucket_of cps) crash_buckets)"

record group_stats =
  gs_entries :: nat
  gs_wins :: nat
  gs_pnl :: jsnum
  gs_latency :: jsnum
  gs_latencyCount :: nat

definition group_new :: group_stats where
  "group_new = \<lparr>gs_entries = 0, gs_wins = 0, gs_pnl = Fin 0, gs_latency = Fin 0, gs_latencyCount = 0\<rparr>"

definition group_add :: "outcome_record \<Rightarrow> group_stats \<Rightarrow> group_stats" where
  "group_add r g = g\<lparr>gs_entries := gs_entries g + 1, gs_pnl := jadd (gs_pnl g) (oc_pnl r),
     gs_wins := (if won r then gs_wins g + 1 else gs_wins g),
     gs_latency := (case oc_latencyMs r of None \<Rightarrow> gs_latency g | Some l \<Rightarrow> jadd (gs_latency g) (jsint l)),
     gs_latencyCount := (if oc_latencyMs r = None then gs_latencyCount g else gs_latencyCount g + 1)\<rparr>"

text \<open>A \<open>Map\<close> from keys to statistics, in the order of insertion.\<close>

fun group_into :: "int \<Rightarrow> outcome_record \<Rightarrow> (int \<times> group_stats) list \<Rightarrow> (int \<times> group_stats) list" where
  "group_into k r [] = [(k, group_add r group_new)]"
| "group_into k r ((l, g) # m) = (if l = k then (l, group_add r g) # m else (l, g) # group_into k r m)"

definition group_by :: "(outcome_record \<Rightarrow> int) \<Rightarrow> outcome_record list \<Rightarrow> (int \<times> group_stats) list" where
  "group_by key outcomes = foldl (\<lambda>m r. group_into (key r) r m) [] outcomes"

definition utc_hour :: "int \<Rightarrow> int" where
  "utc_hour t = t div 3600000 mod 24"

text \<open>The first of January 1970 was a Thursday, day 4.\<close>

definition utc_weekday :: "int \<Rightarrow> int" where
  "utc_weekday t = (t div day_ms + 4) mod 7"

definition win_share :: "group_stats \<Rightarrow> jsnum" where
  "win_share g = jdiv (jsnat (gs_wins g)) (jsnat (gs_entries g))"

text \<open>Hour, entries, hit rate, average profit.\<close>

definition computeTimeOfDayPatterns :: "outcome_record list \<Rightarrow> (int \<times> nat \<times> jsnum \<times> jsnum) list" where
  "computeTimeOfDayPatterns outcomes =
     (let m = group_by (\<lambda>r. utc_hour (oc_timestamp r)) outcomes
      in List.map_filter (\<lambda>h. map_option (\<lambda>g. (h, gs_entries g, win_share g, jdiv (gs_pnl g) (jsnat (gs_entries g))))
           (map_of m h)) (map int [0..<24]))"

text \<open>Day, counted from Sunday, entries, hit rate, profit.\<close>

definition computeDayOfWeekPatterns :: "outcome_record list \<Rightarrow> (int \<times> nat \<times> jsnum \<times> jsnum) list" where
  "computeDayOfWeekPatterns outcomes =
     (let m = group_by (\<lambda>r. utc_weekday (oc_timestamp r)) outcomes
      in List.map_filter (\<lambda>d. map_option (\<lambda>g. (d, gs_entries g, win_share g, gs_pnl g)) (map_of m d))
           (map int [0..<7]))"

fun floor_num :: "jsnum \<Rightarrow> int" where
  "floor_num (Fin q) = \<lfloor>q\<rfloor>"
| "floor_num _ = 0"

text \<open>End of the half hour, entries, hit rate, profit, average latency.\<close>

definition computeSessionEffects :: "outcome_record list \<Rightarrow> (int \<times> nat \<times> jsnum \<times> jsnum \<times> jsnum) list" where
  "computeSessionEffects outcomes =
     (if outcomes = [] then []
      else let ordered = sort_key oc_timestamp outcomes;
               start = oc_timestamp (hd ordered);
               m = group_by (\<lambda>r. floor_num (jdiv (jdiv (jsint (oc_timestamp r - start)) (Fin 60000)) (Fin 30))) ordered
           in sort_key fst (map (\<lambda>(b, g). ((b + 1) * 30, gs_entries g, win_share g, gs_pnl g,
                if 0 < gs_latencyCount g then jdiv (gs_latency g) (jsnat (gs_latencyCount g)) else Fin 0)) m))"

definition latency_buckets :: "(string \<times> int \<times> int option) list" where
  "latency_buckets = [(''< 200ms'', 0, Some 200), (''200-499ms'', 200, Some 500), (''500-999ms'', 500, Some 1000),
     (''1000-1999ms'', 1000, Some 2000), (''>= 2000ms'', 2000, None)]"

definition in_latency_bucket :: "int \<Rightarrow> string \<times> int \<times> int option \<Rightarrow> bool" where
  "in_latency_bucket l = (\<lambda>(_, low, high). low \<le> l \<and> (case high of None \<Rightarrow> True | Some h \<Rightarrow> l < h))"

definition latency_bucket_of :: "int \<Rightarrow> string" where
  "latency_bucket_of l =
     (case List.find (in_latency_bucket l) latency_buckets of None \<Rightarrow> ''unknown'' | Some (label, _) \<Rightarrow> label)"

definition computeLatencyCorrelation :: "outcome_record list \<Rightarrow> (string \<times> jsnum \<times> nat) list" where
  "computeLatencyCorrelation outcomes =
     List.map_filter (\<lambda>(label, _).
       let rs = filter (\<lambda>r. map_option latency_bucket_of (oc_latencyMs r) = Some label) outcomes
       in if rs = [] then None
          else Some (label, jdiv (jsnat (how_many won rs)) (jsnat (length rs)), length rs)) latency_buckets"

definition crash_share :: "(jsnum \<Rightarrow> bool) \<Rightarrow> round_observation list \<Rightarrow> jsnum" where
  "crash_share P rounds =
     (let cps = crash_points rounds
      in if cps = [] then Fin 0 else jdiv (jsnat (how_many P cps)) (jsnat (length cps)))"

definition computeCrashBelowTargetFrequency :: "round_observation list \<Rightarrow> jsnum \<Rightarrow> jsnum" where
  "computeCrashBelowTargetFrequency rounds target = crash_share (\<lambda>c. jlt c target) rounds"

definition computeInstantCrashFrequency :: "round_observation list \<Rightarrow> jsnum" where
  "computeInstantCrashFrequency rounds = crash_share (\<lambda>c. jlt c (Fin 1)) rounds"

section \<open>The engine\<close>

record analytics_engine =
  an_outcomes :: "outcome_record list"
  an_latency :: "latency_sample list"
  an_rounds :: "round_observation list"
  an_sessionId :: "string option"
  an_sessionStart :: "int option"
  an_balance :: "jsnum option"
  an_confidence :: observation_confidence
  an_lastReportKey :: "string option"
  an_lastReport :: "daily_report option"
  an_seen :: cooldowns

text \<open>A new engine finds the table of cooldowns as it is; \<open>clear\<close> does not touch it.\<close>

definition analytics_new :: "cooldowns \<Rightarrow> analytics_engine" where
  "analytics_new seen = \<lparr>an_outcomes = [], an_latency = [], an_rounds = [], an_sessionId = None,
     an_sessionStart = None, an_balance = None, an_confidence = Conf_high, an_lastReportKey = None,
     an_lastReport = None, an_seen = seen\<rparr>"

definition analytics_clear :: "analytics_engine \<Rightarrow> analytics_engine" where
  "analytics_clear e = analytics_new (an_seen e)"

definition recordOutcomes :: "outcome_record list \<Rightarrow> analytics_engine \<Rightarrow> analytics_engine" where
  "recordOutcomes rs e = e\<lparr>an_outcomes := an_outcomes e @ rs\<rparr>"

definition recordLatencies :: "latency_sample list \<Rightarrow> analytics_engine \<Rightarrow> analytics_engine" where
  "recordLatencies ls e = e\<lparr>an_latency := an_latency e @ ls\<rparr>"

definition recordRounds :: "round_observation list \<Rightarrow> analytics_engine \<Rightarrow> analytics_engine" where
  "recordRounds rs e = e\<lparr>an_rounds := an_rounds e @ rs\<rparr>"

definition analytics_setBalance :: "jsnum \<Rightarrow> analytics_engine \<Rightarrow> analytics_engine" where
  "analytics_setBalance b e = e\<lparr>an_balance := Some b\<rparr>"

definition setObservationConfidence :: "observation_confidence \<Rightarrow> analytics_engine \<Rightarrow> analytics_engine" where
  "setObservationConfidence c e = e\<lparr>an_confidence := c\<rparr>"

definition startSession :: "int \<Rightarrow> string \<Rightarrow> analytics_engine \<Rightarrow> analytics_engine" where
  "startSession now sid e = e\<lparr>an_sessionId := Some sid, an_sessionStart := Some now\<rparr>"

definition endSession :: "analytics_engine \<Rightarrow> analytics_engine" where
  "endSession e = e\<lparr>an_sessionId := None, an_sessionStart := None\<rparr>"

definition window_input_of :: "analytics_engine \<Rightarrow> window_input" where
  "window_input_of e = \<lparr>wn_outcomes = an_outcomes e, wn_latency = an_latency e, wn_currentBalance = an_balance e,
     wn_confidence = Some (an_confidence e), wn_sessionStart = an_sessionStart e\<rparr>"

definition getSnapshot :: "js_math \<Rightarrow> int \<Rightarrow> window_type \<Rightarrow> analytics_engine \<Rightarrow> metric_snapshot option \<times> analytics_engine" where
  "getSnapshot mt now w e =
     (case aggregateWindow mt now (window_input_of e) w (an_seen e) of (s, seen) \<Rightarrow> (s, e\<lparr>an_seen := seen\<rparr>))"

definition getAllSnapshots ::
  "js_math \<Rightarrow> int \<Rightarrow> analytics_engine \<Rightarrow> (window_type \<times> metric_snapshot option) list \<times> analytics_engine" where
  "getAllSnapshots mt now e =
     (case aggregateAllWindows mt now (window_input_of e) (an_seen e) of (ss, seen) \<Rightarrow> (ss, e\<lparr>an_seen := seen\<rparr>))"

record analytics_summary =
  su_window :: window_type
  su_entries :: nat
  su_wins :: jsnum
  su_losses :: jsnum
  su_hitRate :: jsnum
  su_breakEvenHitRate :: jsnum
  su_realizedPnl :: jsnum
  su_expectedPnl :: jsnum
  su_maxDrawdown :: jsnum
  su_currentDrawdown :: jsnum
  su_recommendation :: rec_type

definition summary_of :: "window_type \<Rightarrow> metric_snapshot \<Rightarrow> analytics_summary" where
  "summary_of w s =
     (let h = sn_hitRate s;
          wins = js_round (jmul (jsnat (hm_sampleSize h)) (hm_observedRate h))
      in \<lparr>su_window = w, su_entries = hm_sampleSize h, su_wins = wins,
          su_losses = jsub (jsnat (hm_sampleSize h)) wins, su_hitRate = hm_observedRate h,
          su_breakEvenHitRate = hm_breakEvenRate h, su_realizedPnl = vm_cumulativeRealized (sn_expectedValue s),
          su_expectedPnl = vm_cumulativeExpected (sn_expectedValue s), su_maxDrawdown = dd_maxDrawdown (sn_drawdown s),
          su_currentDrawdown = dd_currentDrawdown (sn_drawdown s),
          su_recommendation = (case sn_recommendations s of [] \<Rightarrow> R_continue | r # _ \<Rightarrow> rn_type r)\<rparr>)"

definition getSummary :: "js_math \<Rightarrow> int \<Rightarrow> window_type \<Rightarrow> analytics_engine \<Rightarrow> analytics_summary option \<times> analytics_engine" where
  "getSummary mt now w e = (case getSnapshot mt now w e of (s, e) \<Rightarrow> (map_option (summary_of w) s, e))"

text \<open>The day's report; the key of the day is formatted from the time.\<close>

definition engine_daily_report ::
  "js_math \<Rightarrow> (int \<Rightarrow> string) \<Rightarrow> int \<Rightarrow> analytics_engine \<Rightarrow> daily_report \<times> analytics_engine" where
  "engine_daily_report mt dailyKey now e =
     (case generateDailyReport mt now (dailyKey now) (filter (\<lambda>r. oc_dailyKey r = dailyKey now) (an_outcomes e))
            (filter (\<lambda>s. lt_timestamp s div day_ms = now div day_ms) (an_latency e)) (an_balance e)
            (Some (an_confidence e)) (an_seen e) of
        (r, seen) \<Rightarrow> (r, e\<lparr>an_lastReportKey := Some (dailyKey now), an_lastReport := Some r, an_seen := seen\<rparr>))"

definition engine_session_report :: "js_math \<Rightarrow> int \<Rightarrow> analytics_engine \<Rightarrow> session_report option \<times> analytics_engine" where
  "engine_session_report mt now e =
     (case an_sessionStart e of
        None \<Rightarrow> (None, e)
      | Some start \<Rightarrow>
          if \<not> truthy_str (an_sessionId e) then (None, e)
          else (case generateSessionReport mt now (the (an_sessionId e)) start (Some now) (an_outcomes e) (an_latency e)
                      (an_balance e) (Some (an_confidence e)) (an_seen e) of
                  (r, seen) \<Rightarrow> (Some r, e\<lparr>an_seen := seen\<rparr>)))"

definition engine_learning_curve :: "js_math \<Rightarrow> int \<Rightarrow> analytics_engine \<Rightarrow> curve_report" where
  "engine_learning_curve mt now e = generateLearningCurveReport mt now 10 (an_outcomes e)"

text \<open>\<open>a || b || c\<close> over the windows, for the snapshots and for the summaries.\<close>

fun first_snapshot ::
  "js_math \<Rightarrow> int \<Rightarrow> window_type list \<Rightarrow> analytics_engine \<Rightarrow> (window_type \<times> metric_snapshot) option \<times> analytics_engine" where
  "first_snapshot mt now [] e = (None, e)"
| "first_snapshot mt now (w # ws) e =
     (case getSnapshot mt now w e of (Some s, e) \<Rightarrow> (Some (w, s), e) | (None, e) \<Rightarrow> first_snapshot mt now ws e)"

fun first_summary ::
  "js_math \<Rightarrow> int \<Rightarrow> window_type list \<Rightarrow> analytics_engine \<Rightarrow> analytics_summary option \<times> analytics_engine" where
  "first_summary mt now [] e = (None, e)"
| "first_summary mt now (w # ws) e =
     (case getSummary mt now w e of (Some s, e) \<Rightarrow> (Some s, e) | (None, e) \<Rightarrow> first_summary mt now ws e)"

text \<open>What a command shows: the snapshot with its details, and the summary.\<close>

definition shown_windows ::
  "js_math \<Rightarrow> int \<Rightarrow> window_type list \<Rightarrow> analytics_engine \<Rightarrow> (metric_snapshot \<times> analytics_summary) option \<times> analytics_engine" where
  "shown_windows mt now ws e =
     (case first_snapshot mt now ws e of
        (s, e) \<Rightarrow> (case first_summary mt now ws e of
           (u, e) \<Rightarrow> (case (s, u) of (Some (_, s), Some u) \<Rightarrow> Some (s, u) | _ \<Rightarrow> None, e)))"

definition handleSummaryCommand ::
  "js_math \<Rightarrow> int \<Rightarrow> analytics_engine \<Rightarrow> (metric_snapshot \<times> analytics_summary) option \<times> analytics_engine" where
  "handleSummaryCommand mt now e = shown_windows mt now [W_last_100, W_last_50, W_last_10] e"

definition handleTodayCommand ::
  "js_math \<Rightarrow> int \<Rightarrow> analytics_engine \<Rightarrow> (metric_snapshot \<times> analytics_summary) option \<times> analytics_engine" where
  "handleTodayCommand mt now e = shown_windows mt now [W_day] e"

definition handleWindowCommand ::
  "js_math \<Rightarrow> int \<Rightarrow> window_type \<Rightarrow> analytics_engine \<Rightarrow>
   (metric_snapshot \<times> analytics_summary) option \<times> analytics_engine" where
  "handleWindowCommand mt now w e = shown_windows mt now [w] e"

definition emptySummary_all :: analytics_summary where
  "emptySummary_all = \<lparr>su_window = W_all, su_entries = 0, su_wins = Fin 0, su_losses = Fin 0, su_hitRate = Fin 0,
     su_breakEvenHitRate = jdiv (Fin 1) default_target, su_realizedPnl = Fin 0, su_expectedPnl = Fin 0,
     su_maxDrawdown = Fin 0, su_currentDrawdown = Fin 0, su_recommendation = R_continue\<rparr>"

definition handleDrawdownCommand ::
  "js_math \<Rightarrow> int \<Rightarrow> analytics_engine \<Rightarrow> metric_snapshot option \<times> analytics_summary \<times> analytics_engine" where
  "handleDrawdownCommand mt now e =
     (case first_snapshot mt now [W_all, W_last_500, W_last_100] e of
        (None, e) \<Rightarrow> (None, emptySummary_all, e)
      | (Some (_, s), e) \<Rightarrow>
          (case getSummary mt now W_all e of
             (Some u, e) \<Rightarrow> (Some s, u, e)
           | (None, e) \<Rightarrow> (Some s, emptySummary_all, e)))"

section \<open>Counts in a summary\<close>

lemma mag_error: "0 < x \<Longrightarrow> \<bar>mag x - x\<bar> \<le> 2 powi (ulp_exp x) / 2"
proof -
  assume "0 < x"
  let ?u = "2 powi (ulp_exp x) :: rat"
  have u: "0 < ?u" by simp
  have "\<bar>of_int (round_half_even (x / ?u)) - x / ?u\<bar> \<le> 1 / 2"
    using round_half_even_bounds [of "x / ?u"] unfolding abs_le_iff by linarith
  then have "\<bar>of_int (round_half_even (x / ?u)) - x / ?u\<bar> * ?u \<le> 1 / 2 * ?u" using u by (intro mult_right_mono) auto
  moreover have "\<bar>of_int (round_half_even (x / ?u)) - x / ?u\<bar> * ?u = \<bar>(of_int (round_half_even (x / ?u)) - x / ?u) * ?u\<bar>"
    using u by (simp add: abs_mult)
  moreover have "(of_int (round_half_even (x / ?u)) - x / ?u) * ?u = mag x - x"
    by (simp add: mag_def left_diff_distrib)
  ultimately show ?thesis by simp
qed

lemma rnd_between: "a \<le> x \<Longrightarrow> x \<le> b \<Longrightarrow> rnd a = Fin a \<Longrightarrow> rnd b = Fin b \<Longrightarrow> \<exists>z. rnd x = Fin z \<and> a \<le> z \<and> z \<le> b"
  using rnd_mono [of a x] rnd_mono [of x b] by (cases "rnd x") (auto simp: jle_def)

text \<open>A share of a count, rounded, still gives back the count.\<close>

lemma share_rounds_back:
  assumes "w \<le> n" "0 < n" "n \<le> 2 ^ 40"
  shows "js_round (jmul (jsnat n) (jdiv (jsnat w) (jsnat n))) = jsnat w"
proof -
  let ?x = "of_nat w / of_nat n :: rat"
  have nat40: "int n \<le> 2 ^ 40" "int w \<le> 2 ^ 40" using assms by simp_all
  have rat40: "(of_nat n :: rat) \<le> 2 ^ 40" using assms(3) by (metis of_nat_le_iff of_nat_numeral of_nat_power)
  have jn: "jsnat n = Fin (of_nat n)" "jsnat w = Fin (of_nat w)"
    using nat40 rnd_of_int [of "int n"] rnd_of_int [of "int w"] by (simp_all add: jsnat_def jsint_def)
  show ?thesis
  proof (cases "w = 0")
    case True
    moreover have "jsnat 0 = Fin 0" by (simp add: jsnat_def jsint_def)
  moreover have "\<lfloor>1 / 2 :: rat\<rfloor> = 0" by (rule floor_unique) simp_all
  ultimately show ?thesis using assms by (simp add: jn)
next
  case False
  have x: "0 < ?x" "?x \<le> 1" using False assms by (simp_all add: divide_le_eq)
  have "ilog2 ?x \<le> ilog2 1" using x by (rule ilog2_mono)
  moreover have "ilog2 1 = 0" by (rule ilog2_eqI) simp_all
  ultimately have "ulp_exp ?x \<le> -52" by (simp add: ulp_exp_def)
  then have "2 powi (ulp_exp ?x) \<le> (2 powi (-52) :: rat)" by (simp only: powi2_le_cancel)
  with mag_error [OF x(1)] have err: "\<bar>mag ?x - ?x\<bar> \<le> 2 powi (-52) / 2" by linarith
  have mag1: "mag ?x \<le> 1" using mag_mono [OF x] mag_exact [of 1 0] by simp
  then have y: "jdiv (jsnat w) (jsnat n) = Fin (mag ?x)" using False x assms(2) by (simp add: jn rnd_def Let_def)
  have "of_nat n * \<bar>mag ?x - ?x\<bar> \<le> 2 ^ 40 * (2 powi (-52) / 2)"
    using rat40 err by (rule mult_mono) simp_all
  then have "\<bar>of_nat n * mag ?x - of_nat w\<bar> \<le> 1 / 4"
    using assms(2) abs_mult [of "of_nat n" "mag ?x - ?x"] by (simp add: right_diff_distrib power_int_minus)
  then have near: "of_nat w - 1 / 4 \<le> of_nat n * mag ?x" "of_nat n * mag ?x \<le> of_nat w + 1 / 4"
    unfolding abs_le_iff by linarith+
  have exact: "rnd (of_nat w - 1 / 4) = Fin (of_nat w - 1 / 4)" "rnd (of_nat w + 1 / 4) = Fin (of_nat w + 1 / 4)"
    using nat40 False rnd_dyadic [of "4 * int w - 1" "-2"] rnd_dyadic [of "4 * int w + 1" "-2"]
    by (simp_all add: power_int_minus field_simps)
  obtain z where z: "rnd (of_nat n * mag ?x) = Fin z" "of_nat w - 1 / 4 \<le> z" "z \<le> of_nat w + 1 / 4"
    using rnd_between [OF near exact] by blast
  have "\<lfloor>z + 1 / 2\<rfloor> = int w" by (rule floor_unique) (use z in simp_all)
  then show ?thesis using nat40 rnd_of_int [of "int w"] unfolding y unfolding jn by (simp add: z(1))
  qed
qed

lemma length_filter_window: "length (filter_window time now session w xs) \<le> length xs"
  by (cases w) (auto simp: js_slice_last_def split: option.split intro: le_trans [OF length_filter_le])

lemma how_many_le: "how_many P xs \<le> length xs"
  by (simp add: how_many_def)

lemma how_many_lost: "how_many won rs + how_many lost rs = length rs"
  unfolding how_many_def lost_def by (rule sum_length_filter_compl)

lemma jsnat_diff:
  assumes "w \<le> n" "n \<le> 2 ^ 40"
  shows "jsub (jsnat n) (jsnat w) = jsnat (n - w)"
proof -
  have "int n \<le> 2 ^ 40" "int w \<le> 2 ^ 40" using assms by simp_all
  moreover have "rnd (of_nat n - of_nat w) = Fin (of_nat n - of_nat w)"
    using rnd_of_int [of "int n - int w"] calculation assms(1) by simp
  ultimately show ?thesis
    using rnd_of_int [of "int n"] rnd_of_int [of "int w"] rnd_of_int [of "int (n - w)"] assms(1)
    by (simp add: jsnat_def jsint_def of_nat_diff)
qed

lemma snapshot_hit_rate:
  assumes "aggregateWindow mt now inp w seen = (Some s, seen')"
  defines "outcomes \<equiv> filter_window oc_timestamp now (wn_sessionStart inp) w (wn_outcomes inp)"
  shows "sn_hitRate s = computeHitRateMetrics mt outcomes default_target confidence_level" "filter resolved outcomes \<noteq> []"
proof -
  have "0 < getMinSamplesForWindow w" by (cases w) simp_all
  with assms(1) show "sn_hitRate s = computeHitRateMetrics mt outcomes default_target confidence_level"
    "filter resolved outcomes \<noteq> []"
    unfolding aggregateWindow_def outcomes_def by (auto simp: Let_def split: if_splits prod.splits)
qed

text \<open>
  C40. The counts of a summary are exact: although the wins are recovered from the rounded hit rate, they and the
  losses are the numbers of winning and losing bets of the window, for up to a trillion recorded outcomes.
\<close>

theorem summary_counts_exact:
  assumes "fst (getSummary mt now w e) = Some u" "length (an_outcomes e) \<le> 2 ^ 40"
  shows "let rs = filter resolved (filter_window oc_timestamp now (an_sessionStart e) w (an_outcomes e)) in
    su_entries u = length rs \<and> su_wins u = jsnat (how_many won rs) \<and> su_losses u = jsnat (how_many lost rs)"
proof -
  define rs where "rs = filter resolved (filter_window oc_timestamp now (an_sessionStart e) w (an_outcomes e))"
  obtain s seen' where s: "aggregateWindow mt now (window_input_of e) w (an_seen e) = (Some s, seen')"
    and u: "u = summary_of w s"
    using assms(1) by (auto simp: getSummary_def getSnapshot_def split: prod.splits)
  have hit: "sn_hitRate s = computeHitRateMetrics mt
      (filter_window oc_timestamp now (an_sessionStart e) w (an_outcomes e)) default_target confidence_level"
    and some: "rs \<noteq> []"
    using snapshot_hit_rate [OF s] by (simp_all add: window_input_of_def rs_def)
  have "length rs \<le> length (an_outcomes e)"
    unfolding rs_def using length_filter_le length_filter_window le_trans by blast
  then have small: "length rs \<le> 2 ^ 40" using assms(2) by simp
  have "how_many lost rs = length rs - how_many won rs" using how_many_lost [of rs] by simp
  then show ?thesis
    using some small share_rounds_back [of "how_many won rs" "length rs"] jsnat_diff [of "how_many won rs" "length rs"]
      how_many_le [of won rs]
    unfolding rs_def [symmetric]
    by (simp add: u summary_of_def hit computeHitRateMetrics_def Let_def rs_def [symmetric])
qed

definition demo_math :: js_math where
  "demo_math = \<lparr>mt_sqrt = (\<lambda>x. x), mt_log = (\<lambda>x. x), mt_pow = (\<lambda>x y. x)\<rparr>"

definition demo_engine :: analytics_engine where
  "demo_engine = recordOutcomes [demo_outcome Win (Fin 210), demo_outcome Loss (Fin (-700)), demo_outcome Failed_bet (Fin 0),
     demo_outcome Win (Fin 210), demo_outcome Win (Fin 210), demo_outcome Loss (Fin (-700))] (analytics_new (\<lambda>_. None))"

theorem summary_counts_exact_witness:
  "map_option (\<lambda>u. (su_entries u, su_wins u, su_losses u)) (fst (getSummary demo_math 0 W_last_10 demo_engine)) =
     Some (5, jsnat 3, jsnat 2)"
proof -
  have window: "filter resolved (filter_window oc_timestamp 0 (an_sessionStart demo_engine) W_last_10 (an_outcomes demo_engine)) =
      [demo_outcome Win (Fin 210), demo_outcome Loss (Fin (-700)), demo_outcome Win (Fin 210),
       demo_outcome Win (Fin 210), demo_outcome Loss (Fin (-700))]"
    by (simp add: demo_engine_def recordOutcomes_def analytics_new_def js_slice_last_def resolved_def)
  then have "fst (getSummary demo_math 0 W_last_10 demo_engine) \<noteq> None"
    by (simp add: getSummary_def getSnapshot_def aggregateWindow_def window_input_of_def Let_def split: prod.splits)
  then obtain u where u: "fst (getSummary demo_math 0 W_last_10 demo_engine) = Some u" by auto
  have "length (an_outcomes demo_engine) \<le> 2 ^ 40" by (simp add: demo_engine_def recordOutcomes_def analytics_new_def)
  from summary_counts_exact [OF u this] show ?thesis
    unfolding window u by (simp add: how_many_def won_def lost_def numeral_eq_Suc)
qed

section \<open>What the queries show\<close>

text \<open>The flags of several windows are those of as many calls of the detection.\<close>

definition flags_shown :: "(window_type \<times> metric_snapshot option) list \<Rightarrow> anomaly_flag list" where
  "flags_shown ss = concat (map (\<lambda>(w, s). case s of None \<Rightarrow> [] | Some s \<Rightarrow> sn_anomalies s) ss)"

lemma window_is_call:
  "\<exists>calls. list_all (\<lambda>c. fst c = now) calls \<and>
     detect_all mt DEFAULT_ANOMALY_CONFIG calls seen =
       (flags_shown [(w, fst (aggregateWindow mt now inp w seen))], snd (aggregateWindow mt now inp w seen))"
proof (cases "aggregateWindow mt now inp w seen")
  case (Pair s seen')
  then show ?thesis
    unfolding aggregateWindow_def flags_shown_def Let_def
    by (auto intro: exI [of _ "[]"] exI [of _ "[(now, i)]" for i] split: if_splits prod.splits)
qed

lemma detect_all_append:
  "detect_all mt cfg (as @ bs) seen =
     (case detect_all mt cfg as seen of (x, mid) \<Rightarrow> case detect_all mt cfg bs mid of (y, seen') \<Rightarrow> (x @ y, seen'))"
  by (induction as arbitrary: seen) (auto split: prod.splits)

lemma windows_are_calls:
  "\<exists>calls. list_all (\<lambda>c. fst c = now) calls \<and>
     detect_all mt DEFAULT_ANOMALY_CONFIG calls seen =
       (flags_shown (fst (aggregate_windows mt now inp ws seen)), snd (aggregate_windows mt now inp ws seen))"
proof (induction ws arbitrary: seen)
  case Nil
  then show ?case by (intro exI [of _ "[]"]) (simp add: flags_shown_def)
next
  case (Cons w ws)
  obtain s mid where step: "aggregateWindow mt now inp w seen = (s, mid)" by (rule prod.exhaust)
  obtain as where as: "list_all (\<lambda>c. fst c = now) as"
    "detect_all mt DEFAULT_ANOMALY_CONFIG as seen = (flags_shown [(w, s)], mid)"
    using window_is_call [of now mt seen w inp] by (auto simp: step)
  obtain bs where bs: "list_all (\<lambda>c. fst c = now) bs"
    "detect_all mt DEFAULT_ANOMALY_CONFIG bs mid =
       (flags_shown (fst (aggregate_windows mt now inp ws mid)), snd (aggregate_windows mt now inp ws mid))"
    using Cons.IH by blast
  show ?case
    by (intro exI [of _ "as @ bs"]) (use as bs in \<open>simp add: detect_all_append step flags_shown_def split: prod.splits\<close>)
qed

lemma detected_now:
  "list_all (\<lambda>c. fst c = now) calls \<Longrightarrow>
     list_all (\<lambda>f. fl_timestamp f = now) (fst (detect_all mt cfg calls seen))"
proof (induction calls arbitrary: seen)
  case (Cons c calls)
  have publish: "set (fst (publish_flags cfg fs seen)) \<subseteq> set fs" for fs seen
  proof (induction fs arbitrary: seen)
    case (Cons f fs)
    obtain b mid where "isInCooldown f (cooldown_of cfg (fl_category f)) seen = (b, mid)" by (rule prod.exhaust)
    with Cons.IH [of mid] show ?case by (cases b) (auto split: prod.splits)
  qed simp
  have "set (fst (detectAnomalies mt cfg now i seen)) \<subseteq> set (raised_flags mt cfg now i)" for i
    using publish by (simp add: detectAnomalies_def)
  then have "list_all (\<lambda>f. fl_timestamp f = now) (fst (detectAnomalies mt cfg now i seen))" for i
    using raised_now [of now mt cfg i] unfolding list_all_iff by blast
  then have here: "list_all (\<lambda>f. fl_timestamp f = now) fs" if "detectAnomalies mt cfg now i seen = (fs, mid)" for i fs mid
    using that by (metis fst_conv)
  have later: "list_all (\<lambda>f. fl_timestamp f = now) fs" if "detect_all mt cfg calls mid = (fs, seen')" for mid fs seen'
    using Cons.IH [of mid] Cons.prems that by simp
  from Cons.prems here later show ?case by (cases c) (auto split: prod.splits)
qed simp

text \<open>
  All windows asked at one time: every kind of anomaly is reported by one window at most, the first that meets it
  in the order of the list. The larger windows show none although their own figures raise it.
\<close>

lemma all_windows_report_anomaly_once:
  "distinct (map fl_category (flags_shown (fst (aggregateAllWindows mt now inp seen))))"
proof -
  obtain calls where calls: "list_all (\<lambda>c. fst c = now) calls"
    "detect_all mt DEFAULT_ANOMALY_CONFIG calls seen = (flags_shown (fst (aggregateAllWindows mt now inp seen)),
       snd (aggregateAllWindows mt now inp seen))"
    using windows_are_calls [of now mt seen inp all_windows] by (auto simp: aggregateAllWindows_def)
  have "spaced_out DEFAULT_ANOMALY_CONFIG (flags_shown (fst (aggregateAllWindows mt now inp seen)))"
    using detect_awaited [OF default_cooldowns calls(2)] by (simp add: awaited_def)
  moreover have "list_all (\<lambda>f. fl_timestamp f = now) (flags_shown (fst (aggregateAllWindows mt now inp seen)))"
    using detected_now [OF calls(1), of mt DEFAULT_ANOMALY_CONFIG seen] by (simp add: calls(2))
  moreover have "distinct (map fl_category fs)"
    if "spaced_out DEFAULT_ANOMALY_CONFIG fs" "list_all (\<lambda>f. fl_timestamp f = now) fs" for fs
    using that
  proof (induction fs)
    case (Cons f fs)
    have "fl_category f \<noteq> fl_category g" if "g \<in> set fs" for g
      using Cons.prems that default_cooldowns_pos [of "fl_category f"] by (auto simp: spaced_out_def list_all_iff)
    with Cons show ?case by (auto simp: spaced_out_def)
  qed simp
  ultimately show ?thesis by blast
qed

text \<open>The report of a session counts every recorded bet, also those from before the session began.\<close>

lemma session_report_counts_everything:
  "fst (engine_session_report mt now e) = Some r \<Longrightarrow> sr_entries r = length (filter resolved (an_outcomes e))"
  by (auto simp: engine_session_report_def generateSessionReport_def Let_def split: option.splits if_splits prod.splits)

lemma getSnapshot_keeps: "getSnapshot mt now w e = (s, e') \<Longrightarrow> an_outcomes e' = an_outcomes e"
  by (auto simp: getSnapshot_def split: prod.splits)

lemma first_snapshot_keeps: "first_snapshot mt now ws e = (s, e') \<Longrightarrow> an_outcomes e' = an_outcomes e"
proof (induction ws arbitrary: e)
  case (Cons w ws)
  obtain r e1 where "getSnapshot mt now w e = (r, e1)" by (rule prod.exhaust)
  with Cons getSnapshot_keeps [OF this] show ?case by (auto split: option.splits)
qed simp

text \<open>
  Below a hundred resolved bets the drawdown command shows the drawdown of a smaller window beside a summary of
  zeros.
\<close>
lemma drawdown_summary_empty:
  assumes "length (filter resolved (an_outcomes e)) < 100"
  shows "fst (snd (handleDrawdownCommand mt now e)) = emptySummary_all"
proof (cases "first_snapshot mt now [W_all, W_last_500, W_last_100] e")
  case (Pair s e1)
  have none: "fst (getSummary mt now W_all e1) = None"
    using assms first_snapshot_keeps [OF Pair]
    by (simp add: getSummary_def getSnapshot_def aggregateWindow_def window_input_of_def split: prod.split)
  show ?thesis
  proof (cases s)
    case None
    then show ?thesis unfolding handleDrawdownCommand_def Pair by simp
  next
    case (Some ws)
    with none show ?thesis
      unfolding handleDrawdownCommand_def Pair by (cases ws; cases "getSummary mt now W_all e1") simp
  qed
qed

text \<open>Every crash point that is not negative falls into exactly one bucket.\<close>

lemma bucket_of_some: "bucket_of c \<noteq> None \<longleftrightarrow> jle (Fin 0) c"
  by (cases c) (auto simp: bucket_of_def crash_buckets_def in_bucket_def jle_def lit_1_3)

lemma distribution_rows_counts:
  "map ck_count (distribution_rows cumulative overall hits bs) = map (\<lambda>b. how_many (\<lambda>h. h = Some (fst b)) hits) bs"
  by (induction cumulative overall hits bs rule: distribution_rows.induct) (auto simp: Let_def)

lemma distribution_counts_all:
  "sum_list (map ck_count (computeCrashDistribution rounds)) = how_many (\<lambda>c. jle (Fin 0) c) (crash_points rounds)"
proof -
  have labels: "bucket_of c \<in> {None, Some ''< 1.00x'', Some ''1.00-1.29x'', Some ''1.30-1.99x'', Some ''2.00-4.99x'',
      Some ''5.00-9.99x'', Some ''>= 10.00x''}" for c
    by (auto simp: bucket_of_def crash_buckets_def)
  have "sum_list (map (\<lambda>b. how_many (\<lambda>h. h = Some (fst b)) (map bucket_of cps)) crash_buckets) =
      how_many (\<lambda>c. jle (Fin 0) c) cps" for cps
  proof (induction cps)
    case (Cons c cps)
    then show ?case
      using labels [of c] bucket_of_some [of c] by (auto simp: crash_buckets_def how_many_def)
  qed (simp add: crash_buckets_def how_many_def)
  then show ?thesis by (simp add: computeCrashDistribution_def Let_def distribution_rows_counts)
qed

text \<open>The learning curve grows to the whole list.\<close>

lemma curve_sizes_end: "0 < n \<Longrightarrow> last (curve_sizes step n) = n"
proof -
  assume "0 < n"
  moreover have "last (map (\<lambda>k. step * (k + 1)) [0..<n div step]) = step * (n div step)" if "0 < n div step"
    using that by (cases "n div step") (simp_all add: algebra_simps)
  moreover have "step * (n div step) \<le> n" by simp
  moreover have "step * (n div step) = n" if "\<not> step * (n div step) < n"
    using that times_div_less_eq_dividend [of step n] by simp
  ultimately show ?thesis by (cases "0 < n div step") (auto simp: curve_sizes_def Let_def)
qed

text \<open>A session without a bet has the health of a failing one.\<close>

lemma rnd_positive: "1 / 2 \<le> q \<Longrightarrow> jlt (Fin 0) (rnd q)" "1 / 2 \<le> q \<Longrightarrow> jlt (Fin 0) (lit q)"
  using rnd_mono [of "1 / 2" q] by (cases "rnd q"; simp add: exact_halves lit_def jle_def; linarith)+

lemma empty_session_unhealthy:
  "computeHealthScore (computeHitRateMetrics mt [] default_target confidence_level) (computeDrawdownFromOutcomes [])
     (computeLatencyMetrics []) (computeCashOutSuccessMetrics []) = 45"
  by (simp add: computeHealthScore_def computeHitRateMetrics_def computeDrawdownFromOutcomes_def drawdown_curve_def
      computeDrawdownMetrics_def computeLatencyMetrics_def emptyLatencyMetrics_def computeCashOutSuccessMetrics_def
      emptyCashOutSuccessMetrics_def Let_def breakEvenHitRate_def default_target_def lit_1_3 rnd_positive)

end
