(* ===== verification/Acie.thy ===== *)
theory Acie
  imports Metrics Ranking
begin

text \<open>
  The learning parts of the ACIE engine (\<open>src/src/prediction/acie\<close>): the outcome records (\<open>sol.ts\<close>), the
  features of the crash sequence (\<open>tpl.ts\<close>), the online state updated on every crash (\<open>online-state.ts\<close>), the
  calibration report (\<open>safe.ts\<close>) and the evidence drawn from it (\<open>evidence.ts\<close>). Time stamps are the texts the
  code keeps; \<open>Math.sqrt\<close>, \<open>Math.log\<close>, \<open>Math.exp\<close> and \<open>**\<close> are the fields of an argument. A message of the
  code is a constructor with the numbers it prints.
\<close>

section \<open>Types\<close>

record full_math = js_math +
  mt_exp :: "jsnum \<Rightarrow> jsnum"

definition ACIE_TARGET :: jsnum where
  "ACIE_TARGET = lit (13/10)"

definition hit :: "jsnum \<Rightarrow> bool" where
  "hit c \<longleftrightarrow> jle ACIE_TARGET c"

datatype regime_label = Rl_normal | Rl_low_cluster | Rl_volatile | Rl_high_activity | Rl_deep_low | Rl_anomalous
  | Rl_unknown

datatype vol_trend = Vt_increasing | Vt_decreasing | Vt_stable

record seq_state =
  qs_last10Reached :: nat
  qs_last10AvgCrash :: jsnum
  qs_streakBelow :: nat
  qs_streakAbove :: nat
  qs_clusterActive :: bool
  qs_clusterLength :: nat
  qs_clusterSeverity :: jsnum
  qs_rolling100 :: jsnum
  qs_rolling500 :: jsnum
  qs_rolling1000 :: jsnum
  qs_volatility :: jsnum
  qs_volTrend :: vol_trend

record sol_record =
  sx_roundId :: string
  sx_timestamp :: string
  sx_crashPoint :: jsnum
  sx_reached :: bool
  sx_previousOutcomes :: "jsnum list"
  sx_previousReached :: "bool list"
  sx_sequenceState :: seq_state
  sx_regime :: regime_label
  sx_regimeDuration :: nat
  sx_psiProbability :: jsnum
  sx_psiConfidence :: jsnum
  sx_prediction :: bool
  sx_actualResult :: bool
  sx_residual :: jsnum
  sx_squaredError :: jsnum
  sx_logLoss :: jsnum
  sx_binned :: jsnum

text \<open>Of a context's history only the crash points are read.\<close>

record pred_context =
  pd_history :: "jsnum list"
  pd_sequenceState :: seq_state
  pd_regime :: regime_label
  pd_regimeDuration :: nat
  pd_psiProbability :: jsnum
  pd_psiConfidence :: jsnum
  pd_prediction :: bool

record acie_round =
  xr_roundId :: string
  xr_crashPoint :: jsnum
  xr_timestamp :: "string option"

section \<open>Outcome records\<close>

definition sol_logLoss :: "full_math \<Rightarrow> jsnum \<Rightarrow> bool \<Rightarrow> jsnum" where
  "sol_logLoss mt p actual =
     (let eps = lit (1 / 10 ^ 15); q = clamp01 p
      in if actual then jneg (mt_log mt (jmax q eps)) else jneg (mt_log mt (jmax (jsub (Fin 1) q) eps)))"

fun num_floor :: "jsnum \<Rightarrow> jsnum" where
  "num_floor (Fin q) = rnd (of_int \<lfloor>q\<rfloor>)"
| "num_floor x = x"

definition outcome_bit :: "bool \<Rightarrow> jsnum" where
  "outcome_bit b = (if b then Fin 1 else Fin 0)"

definition sol_entry :: "full_math \<Rightarrow> string \<Rightarrow> acie_round \<Rightarrow> pred_context \<Rightarrow> sol_record" where
  "sol_entry mt now rd ctx =
     (let reached = hit (xr_crashPoint rd);
          p = clamp01 (pd_psiProbability ctx);
          residual = jsub p (outcome_bit reached);
          prev = js_slice_last 20 (pd_history ctx)
      in \<lparr>sx_roundId = xr_roundId rd, sx_timestamp = or_else (xr_timestamp rd) now,
          sx_crashPoint = xr_crashPoint rd, sx_reached = reached, sx_previousOutcomes = prev,
          sx_previousReached = map hit prev, sx_sequenceState = pd_sequenceState ctx, sx_regime = pd_regime ctx,
          sx_regimeDuration = pd_regimeDuration ctx, sx_psiProbability = p, sx_psiConfidence = pd_psiConfidence ctx,
          sx_prediction = pd_prediction ctx, sx_actualResult = reached, sx_residual = residual,
          sx_squaredError = jmul residual residual, sx_logLoss = sol_logLoss mt p reached,
          sx_binned = jdiv (num_floor (jmul p (Fin 10))) (Fin 10)\<rparr>)"

definition sol_push :: "nat \<Rightarrow> sol_record list \<Rightarrow> sol_record \<Rightarrow> sol_record list" where
  "sol_push maxInMemory recs r = (let rs = recs @ [r] in drop (length rs - maxInMemory) rs)"

definition sol_record_round ::
    "full_math \<Rightarrow> nat \<Rightarrow> string \<Rightarrow> sol_record list \<Rightarrow> acie_round \<Rightarrow> pred_context \<Rightarrow> sol_record list" where
  "sol_record_round mt maxInMemory now recs rd ctx = sol_push maxInMemory recs (sol_entry mt now rd ctx)"

text \<open>\<open>getRecent\<close> and \<open>seedFromCrashPoints\<close>.\<close>

definition getRecent :: "nat \<Rightarrow> sol_record list \<Rightarrow> sol_record list" where
  "getRecent n recs = js_slice_last n recs"

definition seed_context :: "acie_round list \<Rightarrow> seq_state \<Rightarrow> regime_label \<Rightarrow> nat \<Rightarrow> pred_context" where
  "seed_context rounds base regime i =
     \<lparr>pd_history = map xr_crashPoint (drop (i - 20) (take i rounds)), pd_sequenceState = base, pd_regime = regime,
      pd_regimeDuration = 0,
      pd_psiProbability = (if rounds \<noteq> [] then jdiv (jsnat (how_many (\<lambda>r. hit (xr_crashPoint r)) rounds)) (jsnat (length rounds))
                           else lit (65/100)),
      pd_psiConfidence = lit (3/10), pd_prediction = False\<rparr>"

definition seedFromCrashPoints ::
    "full_math \<Rightarrow> nat \<Rightarrow> string \<Rightarrow> sol_record list \<Rightarrow> acie_round list \<Rightarrow> seq_state \<Rightarrow> regime_label \<Rightarrow> sol_record list" where
  "seedFromCrashPoints mt maxInMemory now recs rounds base regime =
     foldl (\<lambda>rs i. sol_record_round mt maxInMemory now rs (rounds ! i) (seed_context rounds base regime i))
       recs [0..<length rounds]"

section \<open>Features of the sequence\<close>

definition mean_of :: "jsnum list \<Rightarrow> jsnum" where
  "mean_of xs = (if xs = [] then Fin 0 else jdiv (total_by id xs) (jsnat (length xs)))"

definition tpl_stddev :: "full_math \<Rightarrow> jsnum list \<Rightarrow> jsnum" where
  "tpl_stddev mt xs =
     (if length xs < 2 then Fin 0
      else let m = mean_of xs
           in mt_sqrt mt (jdiv (total_by (\<lambda>x. mt_pow mt (jsub x m) (Fin 2)) xs) (jsnat (length xs - 1))))"

definition tpl_hitRate :: "jsnum list \<Rightarrow> nat \<Rightarrow> jsnum" where
  "tpl_hitRate cps n =
     (let sl = js_slice_last n cps in if sl = [] then Fin 0 else jdiv (jsnat (how_many hit sl)) (jsnat (length sl)))"

text \<open>The loop over the crash points from the newest backwards, with the two streaks and its \<open>break\<close>s.\<close>

fun streak_scan_back :: "nat \<Rightarrow> nat \<Rightarrow> jsnum list \<Rightarrow> nat \<times> nat" where
  "streak_scan_back lows highs [] = (lows, highs)"
| "streak_scan_back lows highs (c # cs) =
     (if jlt c ACIE_TARGET
      then if 0 < highs then (lows, highs) else streak_scan_back (lows + 1) highs cs
      else if 0 < lows then (lows, highs) else streak_scan_back lows (highs + 1) cs)"

definition log_crash :: "full_math \<Rightarrow> jsnum \<Rightarrow> jsnum" where
  "log_crash mt c = mt_log mt (jmax c (lit (101/100)))"

definition volatility_trend :: "jsnum \<Rightarrow> jsnum \<Rightarrow> nat \<Rightarrow> vol_trend" where
  "volatility_trend recent prev n =
     (if 10 \<le> n
      then if jlt (jmul prev (lit (115/100))) recent then Vt_increasing
           else if jlt recent (jmul prev (lit (85/100))) then Vt_decreasing else Vt_stable
      else Vt_stable)"

definition computeSequenceState :: "full_math \<Rightarrow> jsnum list \<Rightarrow> seq_state" where
  "computeSequenceState mt cps =
     (let last10 = js_slice_last 10 cps;
          (lows, highs) = streak_scan_back 0 0 (rev cps);
          active = 3 \<le> lows;
          len = (if active then lows else 0);
          last100 = js_slice_last 100 cps;
          last50 = map (log_crash mt) (js_slice_last 50 cps);
          prev50 = map (log_crash mt) (take (length last100 - 50) last100);
          vol = tpl_stddev mt last50
      in \<lparr>qs_last10Reached = how_many hit last10, qs_last10AvgCrash = mean_of last10,
          qs_streakBelow = lows, qs_streakAbove = highs, qs_clusterActive = active, qs_clusterLength = len,
          qs_clusterSeverity = (if active then mean_of (js_slice_last (max len 1) cps) else Fin 0),
          qs_rolling100 = tpl_hitRate cps 100, qs_rolling500 = tpl_hitRate cps 500,
          qs_rolling1000 = tpl_hitRate cps 1000, qs_volatility = vol,
          qs_volTrend = volatility_trend vol (tpl_stddev mt prev50) (length prev50)\<rparr>)"

definition detectRegime :: "seq_state \<Rightarrow> regime_label" where
  "detectRegime s =
     (if jlt (lit (12/10)) (qs_volatility s) \<and> qs_volTrend s = Vt_increasing then Rl_volatile
      else if qs_clusterActive s \<and> 5 \<le> qs_clusterLength s then Rl_deep_low
      else if qs_clusterActive s then Rl_low_cluster
      else if jlt (lit (75/100)) (qs_rolling100 s) then Rl_high_activity
      else if jlt (qs_rolling100 s) (lit (45/100)) \<and> 2 \<le> qs_streakBelow s then Rl_deep_low
      else Rl_normal)"

definition near :: "nat \<Rightarrow> nat \<Rightarrow> bool" where
  "near a b \<longleftrightarrow> \<not> (1 < int a - int b \<or> int a - int b < - 1)"

text \<open>The records the loop of \<open>computeConditionalProbability\<close> counts as matches.\<close>

definition seq_matches :: "seq_state \<Rightarrow> sol_record \<Rightarrow> bool" where
  "seq_matches q r \<longleftrightarrow>
     (let s = sx_sequenceState r
      in near (qs_streakBelow s) (qs_streakBelow q) \<and> near (qs_clusterLength s) (qs_clusterLength q) \<and>
         (qs_clusterLength q \<le> 1 \<or> qs_clusterActive s = qs_clusterActive q))"

record conditional =
  cp_conditional :: jsnum
  cp_baseline :: jsnum
  cp_improvement :: jsnum
  cp_matchCount :: nat

definition computeConditionalProbability :: "seq_state \<Rightarrow> sol_record list \<Rightarrow> nat \<Rightarrow> nat \<Rightarrow> conditional" where
  "computeConditionalProbability q history minMatches scanLimit =
     (if history = []
      then \<lparr>cp_conditional = lit (65/100), cp_baseline = lit (65/100), cp_improvement = Fin 0, cp_matchCount = 0\<rparr>
      else let recent = drop (length history - scanLimit) history;
               matches = filter (seq_matches q) recent;
               baseline = (if recent \<noteq> [] then jdiv (jsnat (how_many sx_reached recent)) (jsnat (length recent))
                           else lit (65/100));
               cond = (if minMatches \<le> length matches
                       then jdiv (jsnat (how_many sx_reached matches)) (jsnat (length matches)) else baseline)
           in \<lparr>cp_conditional = cond, cp_baseline = baseline, cp_improvement = jsub cond baseline,
               cp_matchCount = length matches\<rparr>)"

section \<open>The online state\<close>

datatype acie_model = Md_frequency | Md_conditional | Md_regime | Md_streak | Md_momentum | Md_bayesian | Md_volatility

definition MODEL_NAMES :: "acie_model list" where
  "MODEL_NAMES = [Md_frequency, Md_conditional, Md_regime, Md_streak, Md_momentum, Md_bayesian, Md_volatility]"

record cal_bucket =
  kb_sumPredicted :: jsnum
  kb_sumActual :: jsnum
  kb_count :: nat

datatype drift_reason = Dr_insufficient | Dr_warming | Dr_bias jsnum | Dr_brier jsnum jsnum | Dr_stable

record drift_snapshot =
  df_detected :: bool
  df_brierShort :: jsnum
  df_brierLong :: jsnum
  df_residualBias :: jsnum
  df_reason :: drift_reason

record online_state =
  ol_observationCount :: nat
  ol_ewmaHitRate :: jsnum
  ol_ewmaBrier :: jsnum
  ol_ewmaResidual :: jsnum
  ol_ensembleWeights :: "acie_model \<Rightarrow> jsnum option"
  ol_buckets :: "cal_bucket list"
  ol_recentErrors :: "jsnum list"
  ol_longErrors :: "jsnum list"
  ol_lastDrift :: drift_snapshot
  ol_lastRegime :: regime_label
  ol_regimeDuration :: nat
  ol_consecutiveBelow :: nat
  ol_consecutiveAbove :: nat
  ol_sequenceState :: "seq_state option"
  ol_lastPsiProbability :: jsnum
  ol_sinceHeavyValidation :: nat
  ol_lastHeavyValidationAt :: nat

definition emptyBuckets :: "cal_bucket list" where
  "emptyBuckets = replicate 10 \<lparr>kb_sumPredicted = Fin 0, kb_sumActual = Fin 0, kb_count = 0\<rparr>"

definition equalWeight :: jsnum where
  "equalWeight = jdiv (Fin 1) (jsnat (length MODEL_NAMES))"

definition createInitialOnlineState :: online_state where
  "createInitialOnlineState =
     \<lparr>ol_observationCount = 0, ol_ewmaHitRate = lit (65/100), ol_ewmaBrier = lit (25/100), ol_ewmaResidual = Fin 0,
      ol_ensembleWeights = (\<lambda>_. Some equalWeight), ol_buckets = emptyBuckets, ol_recentErrors = [],
      ol_longErrors = [],
      ol_lastDrift = \<lparr>df_detected = False, df_brierShort = Fin 0, df_brierLong = Fin 0, df_residualBias = Fin 0,
                      df_reason = Dr_insufficient\<rparr>,
      ol_lastRegime = Rl_unknown, ol_regimeDuration = 0, ol_consecutiveBelow = 0, ol_consecutiveAbove = 0,
      ol_sequenceState = None, ol_lastPsiProbability = lit (65/100), ol_sinceHeavyValidation = 0,
      ol_lastHeavyValidationAt = 0\<rparr>"

definition computeDrift :: "online_state \<Rightarrow> drift_snapshot" where
  "computeDrift s =
     (let short = mean_of (ol_recentErrors s); long = mean_of (ol_longErrors s); bias = ol_ewmaResidual s
      in if length (ol_recentErrors s) < 20 \<or> length (ol_longErrors s) < 40
         then \<lparr>df_detected = False, df_brierShort = short, df_brierLong = long, df_residualBias = bias,
               df_reason = Dr_warming\<rparr>
         else let ratio = (if jlt (lit (1 / 10 ^ 6)) long then jdiv short long else Fin 1);
                  biasBad = jlt (lit (12/100)) (jabs bias);
                  brierBad = jlt (lit (125/100)) ratio \<and> jlt (lit (22/100)) short
              in \<lparr>df_detected = (biasBad \<or> brierBad), df_brierShort = short, df_brierLong = long, df_residualBias = bias,
                  df_reason = (if biasBad \<or> brierBad then if biasBad then Dr_bias bias else Dr_brier short long
                               else Dr_stable)\<rparr>)"

record online_params =
  op_crashPoint :: jsnum
  op_psiProbability :: jsnum
  op_modelProbabilities :: "acie_model \<Rightarrow> jsnum option"
  op_sequenceState :: seq_state
  op_regime :: regime_label
  op_alpha :: jsnum

definition clipped :: "jsnum \<Rightarrow> jsnum" where
  "clipped p = jmax (lit (1/100)) (jmin (lit (99/100)) p)"

definition ewma :: "jsnum \<Rightarrow> jsnum \<Rightarrow> jsnum \<Rightarrow> jsnum" where
  "ewma alpha x old = jadd (jmul alpha x) (jmul (jsub (Fin 1) alpha) old)"

text \<open>\<open>Math.min(9, Math.floor(p * 10))\<close> as an index into the buckets: a \<open>NaN\<close>, or an index the array does not
  have, reads \<open>undefined\<close>, and the assignment to its field raises.\<close>

definition bucket_index :: "jsnum \<Rightarrow> cal_bucket list \<Rightarrow> nat option" where
  "bucket_index p buckets =
     (case num_floor (jmul p (Fin 10)) of
        Fin q \<Rightarrow> let i = min 9 \<lfloor>q\<rfloor> in if 0 \<le> i \<and> nat i < length buckets then Some (nat i) else None
      | PInf \<Rightarrow> if 9 < length buckets then Some 9 else None
      | _ \<Rightarrow> None)"

definition bucket_add :: "jsnum \<Rightarrow> bool \<Rightarrow> cal_bucket \<Rightarrow> cal_bucket" where
  "bucket_add p actual b =
     b\<lparr>kb_sumPredicted := jadd (kb_sumPredicted b) p, kb_sumActual := jadd (kb_sumActual b) (outcome_bit actual),
       kb_count := kb_count b + 1\<rparr>"

text \<open>Push, and drop the oldest when the window is exceeded (\<open>shift\<close> drops one).\<close>

definition slide_window :: "nat \<Rightarrow> 'a list \<Rightarrow> 'a \<Rightarrow> 'a list" where
  "slide_window w xs x = (let ys = xs @ [x] in if w < length ys then tl ys else ys)"

text \<open>The multiplicative update of one model's weight, before normalisation.\<close>

definition raw_weight ::
    "full_math \<Rightarrow> (acie_model \<Rightarrow> jsnum option) \<Rightarrow> online_params \<Rightarrow> jsnum \<Rightarrow> bool \<Rightarrow> acie_model \<Rightarrow> jsnum" where
  "raw_weight mt old ps p actual md =
     (let mp = or_else (op_modelProbabilities ps md) p;
          mRes = jsub mp (outcome_bit actual);
          score = mt_exp mt (jmul (Fin (- 3)) (jmul mRes mRes))
      in jmul (or_else (old md) equalWeight) (jadd (lit (9/10)) (jmul (lit (1/10)) score)))"

definition update_weights ::
    "full_math \<Rightarrow> (acie_model \<Rightarrow> jsnum option) \<Rightarrow> online_params \<Rightarrow> jsnum \<Rightarrow> bool \<Rightarrow> acie_model \<Rightarrow> jsnum option" where
  "update_weights mt old ps p actual =
     (let raw = raw_weight mt old ps p actual; s = total_by raw MODEL_NAMES
      in (\<lambda>md. Some (if jlt (Fin 0) s then jdiv (raw md) s else raw md)))"

text \<open>\<open>applyOnlineUpdate\<close> with its windows of 50 and 200; \<open>None\<close> is the \<open>TypeError\<close> at the bucket.\<close>

definition applyOnlineUpdate :: "full_math \<Rightarrow> online_state \<Rightarrow> online_params \<Rightarrow> online_state option" where
  "applyOnlineUpdate mt s ps =
     (let alpha = op_alpha ps;
          actual = hit (op_crashPoint ps);
          p = clipped (op_psiProbability ps);
          residual = jsub p (outcome_bit actual);
          sq = jmul residual residual
      in case bucket_index p (ol_buckets s) of
           None \<Rightarrow> None
         | Some i \<Rightarrow>
             let same = op_regime ps = ol_lastRegime s;
                 next = s\<lparr>ol_observationCount := ol_observationCount s + 1,
                   ol_ewmaHitRate := ewma alpha (outcome_bit actual) (ol_ewmaHitRate s),
                   ol_ewmaBrier := ewma alpha sq (ol_ewmaBrier s),
                   ol_ewmaResidual := ewma alpha residual (ol_ewmaResidual s),
                   ol_sequenceState := Some (op_sequenceState ps),
                   ol_lastPsiProbability := p,
                   ol_consecutiveAbove := (if actual then ol_consecutiveAbove s + 1 else 0),
                   ol_consecutiveBelow := (if actual then 0 else ol_consecutiveBelow s + 1),
                   ol_lastRegime := op_regime ps,
                   ol_regimeDuration := (if same then ol_regimeDuration s + 1 else 1),
                   ol_buckets := (ol_buckets s)[i := bucket_add p actual (ol_buckets s ! i)],
                   ol_recentErrors := slide_window 50 (ol_recentErrors s) sq,
                   ol_longErrors := slide_window 200 (ol_longErrors s) sq,
                   ol_ensembleWeights := update_weights mt (ol_ensembleWeights s) ps p actual\<rparr>
             in Some (next\<lparr>ol_lastDrift := computeDrift next,
                           ol_sinceHeavyValidation := ol_sinceHeavyValidation s + 1\<rparr>))"

definition bucket_gap :: "cal_bucket \<Rightarrow> jsnum" where
  "bucket_gap b = jabs (jsub (jdiv (kb_sumPredicted b) (jsnat (kb_count b))) (jdiv (kb_sumActual b) (jsnat (kb_count b))))"

definition onlineMeanCalibrationError :: "online_state \<Rightarrow> jsnum" where
  "onlineMeanCalibrationError s =
     (let used = filter (\<lambda>b. \<not> kb_count b < 3) (ol_buckets s);
          wErr = total_by (\<lambda>b. jmul (bucket_gap b) (jsnat (kb_count b))) used;
          n = sum_list (map kb_count used)
      in if 0 < n then jdiv wErr (jsnat n) else lit (1/10))"

record cal_bin =
  cn_lower :: jsnum
  cn_upper :: jsnum
  cn_predicted :: jsnum
  cn_actual :: jsnum
  cn_error :: jsnum
  cn_size :: nat

definition online_bin :: "nat \<Rightarrow> cal_bucket \<Rightarrow> cal_bin" where
  "online_bin i b =
     (let lower = jdiv (jsnat i) (Fin 10); upper = jdiv (jsnat (i + 1)) (Fin 10)
      in if kb_count b = 0
         then \<lparr>cn_lower = lower, cn_upper = upper, cn_predicted = jdiv (jadd lower upper) (Fin 2), cn_actual = Fin 0,
               cn_error = Fin 1, cn_size = 0\<rparr>
         else \<lparr>cn_lower = lower, cn_upper = upper, cn_predicted = jdiv (kb_sumPredicted b) (jsnat (kb_count b)),
               cn_actual = jdiv (kb_sumActual b) (jsnat (kb_count b)), cn_error = bucket_gap b,
               cn_size = kb_count b\<rparr>)"

definition onlineCalibrationBins :: "online_state \<Rightarrow> cal_bin list" where
  "onlineCalibrationBins s = map2 online_bin [0..<length (ol_buckets s)] (ol_buckets s)"

section \<open>Calibration report\<close>

text \<open>The lower edges the loop \<open>lower += 0.1\<close> visits, with at most \<open>fuel\<close> turns; eleven are enough
  (\<open>bin_edges_enough\<close>).\<close>

fun bin_edges :: "nat \<Rightarrow> jsnum \<Rightarrow> jsnum list" where
  "bin_edges 0 lower = []"
| "bin_edges (Suc fuel) lower =
     (if jlt lower (jsub (Fin 1) (lit (1 / 10 ^ 9))) then lower # bin_edges fuel (jadd lower (lit (1/10))) else [])"

fun two_decimals :: "jsnum \<Rightarrow> jsnum" where
  "two_decimals (Fin q) = lit (of_int \<lfloor>q * 100 + 1/2\<rfloor> / 100)"
| "two_decimals x = x"

definition in_bin :: "jsnum \<Rightarrow> jsnum \<Rightarrow> sol_record \<Rightarrow> bool" where
  "in_bin lower upper r \<longleftrightarrow>
     jle lower (sx_psiProbability r) \<and>
     (if jle (Fin 1) upper then jle (sx_psiProbability r) upper else jlt (sx_psiProbability r) upper)"

definition safe_bin :: "sol_record list \<Rightarrow> jsnum \<Rightarrow> cal_bin option" where
  "safe_bin records lower =
     (let upper = jmin (Fin 1) (jadd lower (lit (1/10)));
          rs = filter (in_bin lower upper) records;
          predicted = jdiv (total_by sx_psiProbability rs) (jsnat (length rs));
          actual = jdiv (jsnat (how_many sx_actualResult rs)) (jsnat (length rs))
      in if length rs < 5 then None
         else Some \<lparr>cn_lower = lower, cn_upper = two_decimals upper, cn_predicted = predicted, cn_actual = actual,
                    cn_error = jabs (jsub predicted actual), cn_size = length rs\<rparr>)"

definition safe_bins :: "sol_record list \<Rightarrow> cal_bin list" where
  "safe_bins records = List.map_filter (safe_bin records) (bin_edges 11 (Fin 0))"

record illustrative =
  il_lower :: jsnum
  il_upper :: jsnum
  il_predicted :: jsnum
  il_actual :: jsnum
  il_error :: jsnum
  il_wellCalibrated :: bool

record rolling_cal =
  rc_windowStart :: string
  rc_windowEnd :: string
  rc_brierScore :: jsnum
  rc_calibrationError :: jsnum
  rc_sampleSize :: nat

record cal_report =
  kr_brier :: jsnum
  kr_skill :: jsnum
  kr_logLoss :: jsnum
  kr_bins :: "cal_bin list"
  kr_illustrative :: illustrative
  kr_rolling :: "rolling_cal list"
  kr_naiveFrequency :: jsnum
  kr_psiMean :: jsnum
  kr_psiActual :: jsnum
  kr_psiImprovement :: jsnum
  kr_isSignificant :: bool

definition no_illustrative :: illustrative where
  "no_illustrative = \<lparr>il_lower = lit (6/10), il_upper = lit (7/10), il_predicted = Fin 0, il_actual = Fin 0,
                      il_error = Fin 1, il_wellCalibrated = False\<rparr>"

definition illustrative_of :: "cal_bin list \<Rightarrow> illustrative" where
  "illustrative_of bins =
     (case (case find (\<lambda>b. jeq (cn_lower b) (lit (6/10)) \<and> jeq (cn_upper b) (lit (7/10))) bins of
              Some b \<Rightarrow> Some b
            | None \<Rightarrow> find (\<lambda>b. jle (lit (5/10)) (cn_lower b) \<and> jle (cn_upper b) (lit (8/10))) bins) of
        Some b \<Rightarrow> \<lparr>il_lower = cn_lower b, il_upper = cn_upper b, il_predicted = cn_predicted b,
                   il_actual = cn_actual b, il_error = cn_error b, il_wellCalibrated = jlt (cn_error b) (lit (5/100))\<rparr>
      | None \<Rightarrow> no_illustrative)"

definition brierScore :: "sol_record list \<Rightarrow> jsnum" where
  "brierScore records =
     (if records = [] then Fin 1 else jdiv (total_by sx_squaredError records) (jsnat (length records)))"

definition hit_share :: "sol_record list \<Rightarrow> jsnum" where
  "hit_share records = jdiv (jsnat (how_many sx_actualResult records)) (jsnat (length records))"

definition rolling_window :: "sol_record list \<Rightarrow> rolling_cal" where
  "rolling_window sl =
     \<lparr>rc_windowStart = sx_timestamp (hd sl), rc_windowEnd = sx_timestamp (last sl), rc_brierScore = brierScore sl,
      rc_calibrationError = jabs (jsub (jdiv (total_by sx_psiProbability sl) (jsnat (length sl))) (hit_share sl)),
      rc_sampleSize = length sl\<rparr>"

text \<open>The windows end at \<open>window\<close>, then every \<open>max 1 (window div 2)\<close> records; the module asks for 100.\<close>

definition rollingCalibration :: "nat \<Rightarrow> sol_record list \<Rightarrow> rolling_cal list" where
  "rollingCalibration window records =
     (if length records < window then []
      else map (\<lambda>k. let start = k * max 1 (window div 2) in rolling_window (take window (drop start records)))
             [0..<(length records - window) div max 1 (window div 2) + 1])"

definition emptyReport :: cal_report where
  "emptyReport = \<lparr>kr_brier = Fin 1, kr_skill = Fin 0, kr_logLoss = Fin 1, kr_bins = [],
     kr_illustrative = no_illustrative, kr_rolling = [], kr_naiveFrequency = Fin 0, kr_psiMean = Fin 0,
     kr_psiActual = Fin 0, kr_psiImprovement = Fin 0, kr_isSignificant = False\<rparr>"

definition generateCalibrationReport :: "full_math \<Rightarrow> sol_record list \<Rightarrow> cal_report" where
  "generateCalibrationReport mt records =
     (if records = [] then emptyReport
      else let n = jsnat (length records);
               bins = safe_bins records;
               brier = brierScore records;
               baselineFreq = hit_share records;
               baselineBrier = jdiv (total_by (\<lambda>r. let e = jsub baselineFreq (outcome_bit (sx_actualResult r)) in jmul e e)
                                       records) n;
               psiActual = hit_share records;
               improvement = jsub psiActual baselineFreq;
               se = mt_sqrt mt (jdiv (jmul baselineFreq (jsub (Fin 1) baselineFreq)) (jmax n (Fin 1)))
           in \<lparr>kr_brier = brier,
               kr_skill = (if jlt (lit (1 / 10 ^ 9)) baselineBrier then jsub (Fin 1) (jdiv brier baselineBrier) else Fin 0),
               kr_logLoss = jdiv (total_by sx_logLoss records) (jmax n (Fin 1)), kr_bins = bins,
               kr_illustrative = illustrative_of bins, kr_rolling = rollingCalibration 100 records,
               kr_naiveFrequency = baselineFreq, kr_psiMean = jdiv (total_by sx_psiProbability records) n,
               kr_psiActual = psiActual, kr_psiImprovement = improvement,
               kr_isSignificant = (jlt (jmul (lit (196/100)) se) (jabs improvement) \<and> 200 \<le> length records)\<rparr>)"

definition meanAbsoluteCalibrationError :: "cal_report \<Rightarrow> jsnum" where
  "meanAbsoluteCalibrationError rep =
     (let bins = kr_bins rep; n = sum_list (map cn_size bins)
      in if bins = [] then Fin 1
         else if 0 < n then jdiv (total_by (\<lambda>b. jmul (cn_error b) (jsnat (cn_size b))) bins) (jsnat n) else Fin 1)"

section \<open>Evidence\<close>

datatype acie_evidence = Ev_supported | Ev_weak | Ev_insufficient | Ev_degraded

datatype cal_status = Cs_excellent | Cs_good | Cs_poor | Cs_unknown

datatype perf_trend = Pt_improving | Pt_stable | Pt_degrading

datatype engine_mode = Em_active | Em_cautious | Em_observation

datatype evidence_reason =
    Er_small_sample nat
  | Er_underperforms jsnum jsnum jsnum
  | Er_improves jsnum jsnum cal_status
  | Er_not_robust jsnum nat bool
  | Er_no_edge jsnum
  | Er_online nat jsnum drift_reason

record evidence_report =
  av_status :: acie_evidence
  av_baselineProbability :: jsnum
  av_conditionalImprovement :: jsnum
  av_improvementSignificant :: bool
  av_calibrationStatus :: cal_status
  av_meanCalibrationError :: jsnum
  av_performanceTrend :: perf_trend
  av_driftDetected :: bool
  av_sampleSize :: nat
  av_sampleAdequate :: bool
  av_recommendedMode :: engine_mode
  av_reasoning :: evidence_reason
  av_calibration :: "cal_report option"

definition trendFromRolling :: "rolling_cal list \<Rightarrow> perf_trend" where
  "trendFromRolling rolling =
     (if length rolling < 3 then Pt_stable
      else let k = length rolling div 3;
               avg = (\<lambda>xs. jdiv (total_by rc_brierScore xs) (jsnat (length xs)));
               a = avg (take k rolling);
               b = avg (js_slice_last k rolling)
           in if jlt b (jmul a (lit (92/100))) then Pt_improving
              else if jlt (jmul a (lit (108/100))) b then Pt_degrading else Pt_stable)"

definition calibration_status_of :: "nat \<Rightarrow> jsnum \<Rightarrow> cal_status" where
  "calibration_status_of n err =
     (if 100 \<le> n
      then if jlt err (lit (3/100)) then Cs_excellent else if jlt err (lit (7/100)) then Cs_good else Cs_poor
      else Cs_unknown)"

definition rolling_drift :: "rolling_cal list \<Rightarrow> bool" where
  "rolling_drift rolling \<longleftrightarrow>
     trendFromRolling rolling = Pt_degrading \<or>
     2 \<le> length rolling \<and>
     jlt (jadd (rc_calibrationError (hd rolling)) (lit (5/100))) (rc_calibrationError (last rolling))"

definition systematically_bad :: "nat \<Rightarrow> cal_report \<Rightarrow> jsnum \<Rightarrow> bool" where
  "systematically_bad n rep meanResidual \<longleftrightarrow>
     150 \<le> n \<and>
     (jlt (kr_skill rep) (lit (- 2/100)) \<or>
      jlt (kr_psiImprovement rep) (lit (- 2/100)) \<and> 500 \<le> n \<or>
      jlt (lit (15/100)) meanResidual \<and> jlt (kr_naiveFrequency rep) (lit (45/100)) \<or>
      jlt meanResidual (lit (- 15/100)) \<and> jlt (lit (55/100)) (kr_naiveFrequency rep) \<or>
      jlt (lit (35/100)) (kr_brier rep) \<and> 200 \<le> n)"

definition evidence_verdict ::
    "nat \<Rightarrow> cal_report \<Rightarrow> jsnum \<Rightarrow> cal_status \<Rightarrow> bool \<Rightarrow> acie_evidence \<times> engine_mode \<times> evidence_reason" where
  "evidence_verdict n rep meanResidual cal drift =
     (let skill = kr_skill rep; improvement = kr_psiImprovement rep; significant = kr_isSignificant rep
      in if n < 150 then (Ev_insufficient, Em_observation, Er_small_sample n)
         else if systematically_bad n rep meanResidual
         then (Ev_degraded, Em_observation, Er_underperforms skill improvement meanResidual)
         else if 500 \<le> n \<and> significant \<and> jlt (lit (2/100)) skill \<and> cal \<noteq> Cs_poor \<and> \<not> drift
         then (Ev_supported, Em_active, Er_improves improvement skill cal)
         else if jlt (Fin 0) skill \<or> jlt (Fin 0) improvement
         then (Ev_weak, Em_cautious, Er_not_robust skill n significant)
         else (Ev_insufficient, Em_observation, Er_no_edge (kr_naiveFrequency rep)))"

definition evaluate_evidence :: "full_math \<Rightarrow> sol_record list \<Rightarrow> evidence_report" where
  "evaluate_evidence mt records =
     (let n = length records;
          rep = generateCalibrationReport mt records;
          err = meanAbsoluteCalibrationError rep;
          cal = calibration_status_of n err;
          drift = rolling_drift (kr_rolling rep);
          meanResidual = (if 0 < n then jdiv (total_by sx_residual records) (jsnat n) else Fin 0);
          verdict = evidence_verdict n rep meanResidual cal drift
      in \<lparr>av_status = fst verdict, av_baselineProbability = kr_naiveFrequency rep,
          av_conditionalImprovement = kr_psiImprovement rep, av_improvementSignificant = kr_isSignificant rep,
          av_calibrationStatus = cal, av_meanCalibrationError = err,
          av_performanceTrend = trendFromRolling (kr_rolling rep), av_driftDetected = drift, av_sampleSize = n,
          av_sampleAdequate = (500 \<le> n), av_recommendedMode = fst (snd verdict),
          av_reasoning = snd (snd verdict), av_calibration = Some rep\<rparr>)"

section \<open>No evidence is ever significant\<close>

lemma self_gap: "jabs (jsub a a) = Fin 0 \<or> jabs (jsub a a) = NaN"
  by (cases a) (simp_all add: jsub_def)

lemma jmul_not_negative: "jle (Fin 0) a \<Longrightarrow> \<not> jlt b (Fin 0) \<Longrightarrow> \<not> jlt (jmul a b) (Fin 0)"
proof (cases a; cases b)
  fix p q
  assume "jle (Fin 0) a" "\<not> jlt b (Fin 0)" "a = Fin p" "b = Fin q"
  then have "jle (Fin 0) (rnd (p * q))" by (intro rnd_nonneg) simp
  then show ?thesis using \<open>a = Fin p\<close> \<open>b = Fin q\<close> by (auto dest: jlt_not_jle)
qed (auto simp: jle_def inf_times_def)

lemma never_significant:
  assumes "\<And>x. \<not> jlt (mt_sqrt mt x) (Fin 0)"
  shows "\<not> kr_isSignificant (generateCalibrationReport mt recs)"
proof -
  have "jle (Fin 0) (lit (196/100))" unfolding lit_def by (rule rnd_nonneg) simp
  note bar = jmul_not_negative [OF this assms]
  have "\<not> jlt (jmul (lit (196/100)) (mt_sqrt mt x)) (jabs (jsub y y))" for x y
  proof (cases "jabs (jsub y y) = Fin 0")
    case True
    then show ?thesis using bar by simp
  next
    case False
    then show ?thesis using self_gap [of y] by (cases "jmul (lit (196/100)) (mt_sqrt mt x)") auto
  qed
  then show ?thesis by (simp add: generateCalibrationReport_def emptyReport_def Let_def)
qed

lemma evidence_never_supported:
  assumes "\<And>x. \<not> jlt (mt_sqrt mt x) (Fin 0)"
  shows "av_status (evaluate_evidence mt recs) \<noteq> Ev_supported"
  using never_significant [OF assms, of recs] by (simp add: evaluate_evidence_def evidence_verdict_def Let_def)


section \<open>The online state is a function of the history\<close>

definition online_run :: "full_math \<Rightarrow> online_params list \<Rightarrow> online_state option" where
  "online_run mt pss =
     foldl (\<lambda>acc ps. Option.bind acc (\<lambda>s. applyOnlineUpdate mt s ps)) (Some createInitialOnlineState) pss"

definition outcome_error :: "online_params \<Rightarrow> jsnum" where
  "outcome_error ps =
     (let residual = jsub (clipped (op_psiProbability ps)) (outcome_bit (hit (op_crashPoint ps))) in jmul residual residual)"

lemma jmul_ten_range:
  assumes "jle (Fin 0) p" "jle p (Fin 1)"
  shows "\<exists>q. jmul p (Fin 10) = Fin q \<and> 0 \<le> q \<and> q \<le> 10"
proof (cases p)
  case (Fin x)
  with assms have x: "0 \<le> x" "x \<le> 1" by simp_all
  have lo: "jle (Fin 0) (rnd (x * 10))" using x by (intro rnd_nonneg) simp
  have "jle (rnd (x * 10)) (rnd 10)" using x by (intro rnd_mono) simp
  then have hi: "jle (rnd (x * 10)) (Fin 10)" by simp
  show ?thesis using lo hi Fin by (cases "rnd (x * 10)") (auto simp: jle_def)
qed (use assms in \<open>auto simp: jle_def\<close>)

lemma jmax_jmin_range:
  "jle lo hi \<Longrightarrow> p \<noteq> NaN \<Longrightarrow> jle lo (jmax lo (jmin hi p)) \<and> jle (jmax lo (jmin hi p)) hi"
  by (cases lo; cases hi; cases p) (auto simp: jmax_def jmin_def jle_def)

lemma mid_bounds:
  "jle (Fin 0) (lit (1/100))" "jle (lit (1/100)) (lit (99/100))" "jle (lit (99/100)) (Fin 1)"
  using rnd_nonneg [of "1/100"] rnd_mono [of "1/100" "99/100"] rnd_mono [of "99/100" 1] rnd_of_int [of 1]
  by (simp_all add: lit_def)

lemma clipped_range:
  assumes "p \<noteq> NaN"
  shows "jle (Fin 0) (clipped p)" "jle (clipped p) (Fin 1)"
  using jmax_jmin_range [OF mid_bounds(2) assms] mid_bounds unfolding clipped_def by (blast intro: jle_trans)+

lemma bucket_index_total:
  assumes "p \<noteq> NaN" "length buckets = 10"
  shows "\<exists>i < 10. bucket_index (clipped p) buckets = Some i"
proof -
  obtain q where q: "jmul (clipped p) (Fin 10) = Fin q" "0 \<le> q" "q \<le> 10"
    using jmul_ten_range clipped_range [OF assms(1)] by blast
  then have f: "0 \<le> \<lfloor>q\<rfloor>" "\<lfloor>q\<rfloor> \<le> 10" by (simp_all add: floor_le_iff)
  then have "rnd (of_int \<lfloor>q\<rfloor>) = Fin (of_int \<lfloor>q\<rfloor>)" by (intro rnd_of_int) simp
  then show ?thesis using q f assms(2) by (auto simp: bucket_index_def Let_def)
qed

lemma slide_window_last: "0 < w \<Longrightarrow> slide_window w (js_slice_last w xs) x = js_slice_last w (xs @ [x])"
proof -
  assume w: "0 < w"
  show ?thesis
  proof (cases "length xs < w")
    case True
    then show ?thesis using w by (simp add: slide_window_def js_slice_last_def Let_def)
  next
    case False
    then have "drop (length xs - w) xs \<noteq> []" using w by simp
    then have "tl (drop (length xs - w) xs @ [x]) = drop (Suc (length xs - w)) xs @ [x]"
      by (simp add: drop_Suc tl_drop)
    with False w show ?thesis by (simp add: slide_window_def js_slice_last_def Let_def Suc_diff_le)
  qed
qed

definition online_matches :: "online_state \<Rightarrow> online_params list \<Rightarrow> bool" where
  "online_matches s pss \<longleftrightarrow>
     length (ol_buckets s) = 10 \<and> ol_observationCount s = length pss \<and>
     ol_consecutiveAbove s = length (takeWhile (\<lambda>ps. hit (op_crashPoint ps)) (rev pss)) \<and>
     ol_consecutiveBelow s = length (takeWhile (\<lambda>ps. \<not> hit (op_crashPoint ps)) (rev pss)) \<and>
     ol_recentErrors s = js_slice_last 50 (map outcome_error pss) \<and>
     ol_longErrors s = js_slice_last 200 (map outcome_error pss) \<and>
     sum_list (map kb_count (ol_buckets s)) = length pss"

lemma sum_counts_bump:
  "i < length bs \<Longrightarrow> kb_count b = kb_count (bs ! i) + 1 \<Longrightarrow>
   sum_list (map kb_count (bs[i := b])) = sum_list (map kb_count bs) + 1"
  by (simp add: map_update sum_list_update)

lemma online_matches_update:
  assumes "online_matches s pss" "op_psiProbability ps \<noteq> NaN"
  shows "\<exists>s'. applyOnlineUpdate mt s ps = Some s' \<and> online_matches s' (pss @ [ps])"
proof -
  obtain i where i: "i < 10" "bucket_index (clipped (op_psiProbability ps)) (ol_buckets s) = Some i"
    using bucket_index_total assms by (auto simp: online_matches_def)
  then have "sum_list (map kb_count ((ol_buckets s)[i := bucket_add p a (ol_buckets s ! i)])) = length pss + 1" for p a
    using assms(1) sum_counts_bump [of i "ol_buckets s"] by (simp add: online_matches_def bucket_add_def)
  with i assms(1) show ?thesis
    by (simp add: applyOnlineUpdate_def online_matches_def Let_def outcome_error_def flip: slide_window_last)
qed

lemma online_run_matches:
  "list_all (\<lambda>ps. op_psiProbability ps \<noteq> NaN) pss \<Longrightarrow> \<exists>s. online_run mt pss = Some s \<and> online_matches s pss"
proof (induction pss rule: rev_induct)
  case Nil
  then show ?case
    by (simp add: online_run_def online_matches_def createInitialOnlineState_def emptyBuckets_def js_slice_last_def)
next
  case (snoc ps pss)
  then obtain s where "online_run mt pss = Some s" "online_matches s pss" by auto
  with snoc.prems online_matches_update [of s pss ps mt] show ?case by (auto simp: online_run_def)
qed

text \<open>A probability that is no number, on the other hand, raises at the bucket.\<close>

lemma nan_update_raises: "op_psiProbability ps = NaN \<Longrightarrow> applyOnlineUpdate mt s ps = None"
  by (simp add: applyOnlineUpdate_def bucket_index_def clipped_def jmax_def jmin_def Let_def)


definition root_demo :: full_math where
  "root_demo = \<lparr>mt_sqrt = (\<lambda>x. if jlt x (Fin 0) then NaN else x), mt_log = (\<lambda>x. x), mt_pow = (\<lambda>x y. jmul x x),
                mt_exp = (\<lambda>x. Fin 1)\<rparr>"

definition demo_update :: "full_math \<Rightarrow> jsnum \<Rightarrow> online_params" where
  "demo_update mt c = \<lparr>op_crashPoint = c, op_psiProbability = Fin (1/2), op_modelProbabilities = (\<lambda>_. None),
     op_sequenceState = computeSequenceState mt [c], op_regime = Rl_normal, op_alpha = Fin (1/2)\<rparr>"


end
