(* ===== verification/AcieEngine.thy ===== *)
theory AcieEngine
  imports Acie
begin

text \<open>
  The deciding parts of the ACIE engine (\<open>src/src/prediction/acie\<close>): the ensemble of seven estimates (\<open>psi.ts\<close>),
  the strategy (\<open>strategy.ts\<close>), the entitlement gate (\<open>entitlement.ts\<close>) and the engine that drives them on every
  crash (\<open>engine.ts\<close>). The heavy validation runs off the tick (\<open>setImmediate\<close>): it is an event of its own. An
  operation that throws returns the error with the state it leaves behind.
\<close>

section \<open>The ensemble\<close>

definition clamp_mid :: "jsnum \<Rightarrow> jsnum" where
  "clamp_mid x = (if jlt x (lit (1/100)) then lit (1/100) else if jlt (lit (99/100)) x then lit (99/100) else x)"

definition varianceInPlace :: "jsnum list \<Rightarrow> jsnum" where
  "varianceInPlace xs =
     (if length xs < 2 then Fin 0
      else let m = jdiv (total_by id xs) (jsnat (length xs))
           in jdiv (total_by (\<lambda>x. let d = jsub x m in jmul d d) xs) (jsnat (length xs - 1)))"

record short_stats =
  sh_count :: nat
  sh_hits :: nat
  sh_variance :: jsnum

definition shortWindowStats :: "jsnum list \<Rightarrow> short_stats" where
  "shortWindowStats cps =
     (let recent = drop (length cps - 30) cps; n = length recent
      in if n = 0 then \<lparr>sh_count = 0, sh_hits = 0, sh_variance = Fin 0\<rparr>
         else \<lparr>sh_count = n, sh_hits = how_many hit recent, sh_variance = varianceInPlace recent\<rparr>)"

definition fastStreakAware :: "jsnum \<Rightarrow> seq_state \<Rightarrow> sol_record list \<Rightarrow> jsnum" where
  "fastStreakAware baseline q history =
     (if length history < 40 then baseline
      else let recent = drop (length history - 600) history;
               matches = filter (\<lambda>r. near (qs_streakBelow (sx_sequenceState r)) (qs_streakBelow q)) recent
           in if length matches < 20 then baseline
              else jdiv (jsnat (how_many sx_reached matches)) (jsnat (length matches)))"

definition psi_baseline :: "jsnum list \<Rightarrow> seq_state \<Rightarrow> jsnum option \<Rightarrow> jsnum" where
  "psi_baseline cps q ewmaRate =
     (case ewmaRate of
        Some e \<Rightarrow> if jlt (Fin 0) e then e
                  else if cps = [] then lit (65/100)
                  else if jlt (Fin 0) (qs_rolling100 q) then qs_rolling100 q else lit (65/100)
      | None \<Rightarrow> if cps = [] then lit (65/100)
                else if jlt (Fin 0) (qs_rolling100 q) then qs_rolling100 q else lit (65/100))"

definition regime_estimate :: "jsnum \<Rightarrow> conditional \<Rightarrow> regime_label \<Rightarrow> jsnum" where
  "regime_estimate baseline c regime =
     (if regime = Rl_low_cluster \<or> regime = Rl_deep_low
      then clamp_mid (jadd baseline (if jlt (lit (2/100)) (cp_improvement c) then jmul (cp_improvement c) (lit (55/100))
                                     else lit (2/100)))
      else if regime = Rl_volatile then clamp_mid (jmul baseline (lit (97/100)))
      else if regime = Rl_high_activity then clamp_mid (jadd baseline (lit (25/1000)))
      else baseline)"

definition momentum_estimate :: "jsnum \<Rightarrow> seq_state \<Rightarrow> jsnum" where
  "momentum_estimate baseline q =
     (if 1 \<le> qs_streakBelow q
      then let bump = jmul (jsnat (qs_streakBelow q)) (lit (15/1000))
           in clamp_mid (jadd baseline (if jlt (lit (12/100)) bump then lit (12/100) else bump))
      else if 4 \<le> qs_streakAbove q then clamp_mid (jsub baseline (lit (3/100)))
      else baseline)"

definition volatility_estimate :: "full_math \<Rightarrow> jsnum \<Rightarrow> short_stats \<Rightarrow> jsnum" where
  "volatility_estimate mt baseline short =
     (if 10 \<le> sh_count short
      then let vol = mt_sqrt mt (sh_variance short)
           in if jlt (Fin 8) vol then clamp_mid (jsub baseline (lit (4/100)))
              else if jlt vol (lit (25/10)) \<and> jle (lit (6/10)) baseline then clamp_mid (jadd baseline (lit (2/100)))
              else baseline
      else baseline)"

text \<open>\<open>runModelsInto\<close>: the seven estimates in the order of \<open>MODEL_NAMES\<close>.\<close>

definition runModels ::
    "full_math \<Rightarrow> jsnum list \<Rightarrow> seq_state \<Rightarrow> regime_label \<Rightarrow> sol_record list \<Rightarrow> jsnum option \<Rightarrow> jsnum list" where
  "runModels mt cps q regime history ewmaRate =
     (let baseline = psi_baseline cps q ewmaRate;
          c = computeConditionalProbability q history 40 600;
          short = shortWindowStats cps
      in [clamp_mid baseline, clamp_mid (cp_conditional c), clamp_mid (regime_estimate baseline c regime),
          clamp_mid (fastStreakAware baseline q history), clamp_mid (momentum_estimate baseline q),
          clamp_mid (jdiv (jadd (Fin 8) (jsnat (sh_hits short))) (jadd (Fin 12) (jsnat (sh_count short)))),
          clamp_mid (volatility_estimate mt baseline short)])"

definition static_weights :: "bool \<Rightarrow> jsnum list" where
  "static_weights mature =
     (if mature then [lit (12/100), lit (22/100), lit (14/100), lit (16/100), lit (14/100), lit (12/100), lit (1/10)]
      else [lit (28/100), lit (18/100), lit (12/100), lit (14/100), lit (12/100), lit (1/10), lit (6/100)])"

definition resolveWeights :: "nat \<Rightarrow> (acie_model \<Rightarrow> jsnum option) option \<Rightarrow> jsnum list" where
  "resolveWeights sampleSize online =
     (let ws = (case online of
                  Some w \<Rightarrow> if \<exists>md \<in> set MODEL_NAMES. w md \<noteq> None
                            then map (\<lambda>md. or_else (w md) (jdiv (Fin 1) (Fin 7))) MODEL_NAMES
                            else static_weights (200 \<le> sampleSize)
                | None \<Rightarrow> static_weights (200 \<le> sampleSize));
          s = total_by id ws;
          inv = (if jlt (Fin 0) s then jdiv (Fin 1) s else jdiv (Fin 1) (Fin 7))
      in map (\<lambda>w. jmul w inv) ws)"

text \<open>The index of the first greatest weight above \<open>-1\<close>, as the loop of \<open>estimate\<close> finds it.\<close>

fun primary_index :: "nat \<Rightarrow> jsnum \<Rightarrow> nat \<Rightarrow> jsnum list \<Rightarrow> nat" where
  "primary_index best maxW i [] = best"
| "primary_index best maxW i (w # ws) =
     (if jlt maxW w then primary_index i w (i + 1) ws else primary_index best maxW (i + 1) ws)"

definition parametricUncertaintyInterval :: "jsnum \<Rightarrow> jsnum \<Rightarrow> jsnum \<times> jsnum" where
  "parametricUncertaintyInterval mean modelUnc =
     (let spread = (if jlt (lit (3/100)) modelUnc then modelUnc else lit (3/100))
      in (clamp_mid (jsub mean (jmul (lit (164/100)) spread)), clamp_mid (jadd mean (jmul (lit (164/100)) spread))))"

record psi_output =
  px_probability :: jsnum
  px_interval :: "jsnum \<times> jsnum"
  px_sequenceState :: seq_state
  px_regime :: regime_label
  px_primaryModel :: acie_model
  px_ensembleWeight :: jsnum
  px_modelUncertainty :: jsnum
  px_dataUncertainty :: jsnum

definition psi_estimate ::
    "full_math \<Rightarrow> jsnum list \<Rightarrow> seq_state \<Rightarrow> regime_label \<Rightarrow> sol_record list \<Rightarrow> (acie_model \<Rightarrow> jsnum option) option \<Rightarrow>
     jsnum option \<Rightarrow> psi_output" where
  "psi_estimate mt cps q regime history weights ewmaRate =
     (let probs = runModels mt cps q regime history ewmaRate;
          ws = resolveWeights (length history) weights;
          pSum = total_by (\<lambda>(p, w). jmul p w) (zip probs ws);
          i = primary_index 0 (Fin (- 1)) 0 ws;
          p = clamp_mid pSum;
          modelUnc = mt_sqrt mt (varianceInPlace probs);
          dataN = (if length cps < length history then length history else length cps)
      in \<lparr>px_probability = p, px_interval = parametricUncertaintyInterval p modelUnc, px_sequenceState = q,
          px_regime = regime, px_primaryModel = MODEL_NAMES ! i, px_ensembleWeight = ws ! i,
          px_modelUncertainty = modelUnc,
          px_dataUncertainty = jdiv (Fin 1) (mt_sqrt mt (jsnat (if 0 < dataN then dataN else 1)))\<rparr>)"

text \<open>\<open>estimateWithModels\<close>: the output, and the estimates by model name.\<close>

definition estimateWithModels ::
    "full_math \<Rightarrow> jsnum list \<Rightarrow> seq_state \<Rightarrow> regime_label \<Rightarrow> sol_record list \<Rightarrow> (acie_model \<Rightarrow> jsnum option) option \<Rightarrow>
     jsnum option \<Rightarrow> psi_output \<times> (acie_model \<Rightarrow> jsnum option)" where
  "estimateWithModels mt cps q regime history weights ewmaRate =
     (psi_estimate mt cps q regime history weights ewmaRate,
      map_of (zip MODEL_NAMES (runModels mt cps q regime history ewmaRate)))"

section \<open>Strategy\<close>

datatype policy_mode = Pm_strict | Pm_adaptive | Pm_frequency_fallback

record strategy_policy =
  yp_mode :: policy_mode
  yp_supportedThreshold :: jsnum
  yp_weakThreshold :: jsnum
  yp_fallbackThreshold :: jsnum
  yp_maxCalibrationError :: jsnum
  yp_highUncertainty :: jsnum
  yp_consecutiveLossReduceAt :: nat
  yp_reducedStakeFactor :: jsnum
  yp_defaultStake :: jsnum

definition DEFAULT_STRATEGY_POLICY :: strategy_policy where
  "DEFAULT_STRATEGY_POLICY = \<lparr>yp_mode = Pm_adaptive, yp_supportedThreshold = lit (62/100),
     yp_weakThreshold = lit (66/100), yp_fallbackThreshold = lit (6/10), yp_maxCalibrationError = lit (14/100),
     yp_highUncertainty = lit (22/100), yp_consecutiveLossReduceAt = 4, yp_reducedStakeFactor = lit (5/10),
     yp_defaultStake = Fin 700\<rparr>"

definition HIGH_FREQUENCY_STRATEGY_POLICY :: strategy_policy where
  "HIGH_FREQUENCY_STRATEGY_POLICY = \<lparr>yp_mode = Pm_adaptive, yp_supportedThreshold = lit (58/100),
     yp_weakThreshold = lit (62/100), yp_fallbackThreshold = lit (57/100), yp_maxCalibrationError = lit (16/100),
     yp_highUncertainty = lit (25/100), yp_consecutiveLossReduceAt = 5, yp_reducedStakeFactor = lit (6/10),
     yp_defaultStake = Fin 700\<rparr>"

record strategy_risk =
  yr_currentExposure :: jsnum
  yr_consecutiveLosses :: nat
  yr_dailyEntriesUsed :: int
  yr_dailyEntriesLimit :: int
  yr_balance :: jsnum

record strategy_context =
  yc_probability :: jsnum
  yc_interval :: "jsnum \<times> jsnum"
  yc_calibrationError :: jsnum
  yc_evidence :: acie_evidence
  yc_regime :: regime_label
  yc_regimeStability :: nat
  yc_uncertainty :: jsnum
  yc_riskState :: strategy_risk
  yc_baselineProbability :: jsnum

datatype strategy_action = Act_entry | Act_skip | Act_reduced_entry

datatype strategy_reason =
    Sr_degraded jsnum
  | Sr_strict acie_evidence
  | Sr_unsupported acie_evidence
  | Sr_high_uncertainty jsnum
  | Sr_below jsnum jsnum bool
  | Sr_losses nat
  | Sr_policy_ok jsnum jsnum acie_evidence bool regime_label
  | Sr_warmup

record strategy_decision =
  yd_action :: strategy_action
  yd_stake :: jsnum
  yd_reason :: strategy_reason
  yd_confidence :: jsnum
  yd_isOpportunity :: bool

definition skip_entry :: "strategy_reason \<Rightarrow> strategy_decision" where
  "skip_entry reason = \<lparr>yd_action = Act_skip, yd_stake = Fin 0, yd_reason = reason, yd_confidence = Fin 0,
                        yd_isOpportunity = False\<rparr>"

definition reducedStake :: "strategy_policy \<Rightarrow> jsnum" where
  "reducedStake p = jmax (Fin 1) (js_round (jmul (yp_defaultStake p) (yp_reducedStakeFactor p)))"

definition regimeAdjustedThreshold :: "jsnum \<Rightarrow> regime_label \<Rightarrow> strategy_context \<Rightarrow> jsnum" where
  "regimeAdjustedThreshold base regime ctx =
     (let t = (if regime = Rl_deep_low \<or> regime = Rl_low_cluster then jsub base (lit (25/1000))
               else if regime = Rl_volatile then jadd base (lit (2/100))
               else if regime = Rl_high_activity then jsub base (lit (1/100)) else base);
          t = (if jle (lit (55/100)) (fst (yc_interval ctx)) then jsub t (lit (1/100)) else t)
      in jmax (lit (52/100)) (jmin (lit (75/100)) t))"

text \<open>The branch on the evidence: the probability judged, its bar and whether it is the fallback; \<open>None\<close> is the
  early return of the strict policy.\<close>

definition evidence_bar :: "strategy_policy \<Rightarrow> strategy_context \<Rightarrow> (jsnum \<times> jsnum \<times> bool) option" where
  "evidence_bar p ctx =
     (case yc_evidence ctx of
        Ev_supported \<Rightarrow> Some (yc_probability ctx, yp_supportedThreshold p, False)
      | Ev_weak \<Rightarrow> Some (yc_probability ctx, yp_weakThreshold p, False)
      | _ \<Rightarrow> (case yp_mode p of
               Pm_frequency_fallback \<Rightarrow> Some (yc_baselineProbability ctx, yp_fallbackThreshold p, True)
             | Pm_adaptive \<Rightarrow> Some (yc_probability ctx,
                                 jmax (jsub (yp_weakThreshold p) (lit (2/100))) (yp_fallbackThreshold p), False)
             | Pm_strict \<Rightarrow> None))"

definition paced_threshold :: "strategy_risk \<Rightarrow> jsnum \<Rightarrow> jsnum" where
  "paced_threshold risk t =
     (let used = jsint (yr_dailyEntriesUsed risk); limit = jsint (yr_dailyEntriesLimit risk);
          open_limit = 0 < yr_dailyEntriesLimit risk
      in if open_limit \<and> jlt (lit (85/100)) (jdiv used limit) then jadd t (lit (3/100))
         else if open_limit \<and> jlt (jdiv used limit) (lit (25/100)) \<and> jlt used (jmul limit (lit (25/100)))
         then jsub t (lit (15/1000))
         else t)"

definition strategy_evaluate :: "strategy_policy \<Rightarrow> strategy_context \<Rightarrow> strategy_decision" where
  "strategy_evaluate p ctx =
     (if jlt (yp_maxCalibrationError p) (yc_calibrationError ctx) \<and> yc_evidence ctx = Ev_degraded \<and> yp_mode p = Pm_strict
      then skip_entry (Sr_degraded (yc_calibrationError ctx))
      else if yp_mode p = Pm_strict \<and> (yc_evidence ctx = Ev_degraded \<or> yc_evidence ctx = Ev_insufficient)
      then skip_entry (Sr_strict (yc_evidence ctx))
      else case evidence_bar p ctx of
        None \<Rightarrow> skip_entry (Sr_unsupported (yc_evidence ctx))
      | Some (prob, base, fallback) \<Rightarrow>
          let threshold = paced_threshold (yc_riskState ctx) (regimeAdjustedThreshold base (yc_regime ctx) ctx)
          in if jlt (yp_highUncertainty p) (yc_uncertainty ctx) \<and> yc_evidence ctx \<noteq> Ev_supported \<and> jle threshold prob
             then \<lparr>yd_action = Act_reduced_entry, yd_stake = reducedStake p,
                   yd_reason = Sr_high_uncertainty (yc_uncertainty ctx),
                   yd_confidence = jmax (Fin 0) (jsub (Fin 1) (yc_uncertainty ctx)), yd_isOpportunity = True\<rparr>
             else if jlt prob threshold then skip_entry (Sr_below prob threshold fallback)
             else if yp_consecutiveLossReduceAt p \<le> yr_consecutiveLosses (yc_riskState ctx)
             then \<lparr>yd_action = Act_reduced_entry, yd_stake = reducedStake p,
                   yd_reason = Sr_losses (yr_consecutiveLosses (yc_riskState ctx)), yd_confidence = prob,
                   yd_isOpportunity = True\<rparr>
             else \<lparr>yd_action = Act_entry, yd_stake = yp_defaultStake p,
                   yd_reason = Sr_policy_ok prob threshold (yc_evidence ctx) fallback (yc_regime ctx),
                   yd_confidence = prob, yd_isOpportunity = True\<rparr>)"

section \<open>Entitlement\<close>

record entitlement_check =
  en_userId :: string
  en_planName :: string
  en_used :: int
  en_limit :: int

text \<open>\<open>None\<close>: allowed; otherwise the numbers and the plan the reason prints.\<close>

definition entitlement_refusal :: "entitlement_check \<Rightarrow> (int \<times> int \<times> string) option" where
  "entitlement_refusal c = (if en_limit c \<le> en_used c then Some (en_used c, en_limit c, en_planName c) else None)"

section \<open>The engine\<close>

record entry_signal_acie =
  gn_probability :: jsnum
  gn_interval :: "jsnum \<times> jsnum"
  gn_evidence :: acie_evidence
  gn_regime :: regime_label
  gn_action :: strategy_action
  gn_stake :: jsnum
  gn_reason :: strategy_reason
  gn_confidence :: jsnum
  gn_timestamp :: string
  gn_psi :: psi_output
  gn_evidenceReport :: evidence_report

record acie_evaluation =
  xe_psi :: psi_output
  xe_evidence :: evidence_report
  xe_strategy :: strategy_decision
  xe_signal :: "entry_signal_acie option"
  xe_sequenceState :: seq_state
  xe_regime :: regime_label

record partial_risk =
  yq_currentExposure :: "jsnum option"
  yq_consecutiveLosses :: "nat option"
  yq_dailyEntriesUsed :: "int option"
  yq_dailyEntriesLimit :: "int option"
  yq_balance :: "jsnum option"

definition no_risk :: partial_risk where
  "no_risk = \<lparr>yq_currentExposure = None, yq_consecutiveLosses = None, yq_dailyEntriesUsed = None,
              yq_dailyEntriesLimit = None, yq_balance = None\<rparr>"

text \<open>The options, with \<open>ACIE_EVIDENCE_MAX_N\<close> of the environment (\<open>None\<close>: not a number).\<close>

record acie_config =
  ac_policy :: strategy_policy
  ac_maxHistory :: nat
  ac_heavyEvery :: nat
  ac_evidenceMaxN :: "int option"
  ac_ewmaAlpha :: jsnum

definition default_config :: acie_config where
  "default_config = \<lparr>ac_policy = HIGH_FREQUENCY_STRATEGY_POLICY, ac_maxHistory = 5000, ac_heavyEvery = 50,
                     ac_evidenceMaxN = Some 1000, ac_ewmaAlpha = lit (5/100)\<rparr>"

record acie_engine =
  ax_sol :: "sol_record list"
  ax_crashPoints :: "jsnum list"
  ax_online :: online_state
  ax_consecutiveLosses :: nat
  ax_processed :: "string list"
  ax_pendingContext :: "pred_context option"
  ax_lastEvidence :: "evidence_report option"
  ax_lastModels :: "acie_model \<Rightarrow> jsnum option"
  ax_pendingHeavy :: bool
  ax_heavyScheduled :: bool
  ax_lastRisk :: partial_risk

definition acie_new :: acie_engine where
  "acie_new = \<lparr>ax_sol = [], ax_crashPoints = [], ax_online = createInitialOnlineState, ax_consecutiveLosses = 0,
               ax_processed = [], ax_pendingContext = None, ax_lastEvidence = None, ax_lastModels = (\<lambda>_. None),
               ax_pendingHeavy = False, ax_heavyScheduled = False, ax_lastRisk = no_risk\<rparr>"

definition lightweight_status :: "online_state \<Rightarrow> acie_evidence" where
  "lightweight_status ol =
     (let n = ol_observationCount ol; drifted = df_detected (ol_lastDrift ol)
      in if 500 \<le> n \<and> \<not> drifted \<and> jlt (ol_ewmaBrier ol) (lit (22/100)) then Ev_supported
         else if 150 \<le> n \<and> jlt (ol_ewmaBrier ol) (lit (28/100)) then Ev_weak
         else if 150 \<le> n \<and> (drifted \<or> jlt (lit (35/100)) (ol_ewmaBrier ol)) then Ev_degraded
         else Ev_insufficient)"

definition lightweightEvidence :: "acie_engine \<Rightarrow> evidence_report" where
  "lightweightEvidence s =
     (let ol = ax_online s;
          bins = filter (\<lambda>b. 0 < cn_size b) (onlineCalibrationBins ol);
          meanCal = (if bins \<noteq> [] then jdiv (total_by (\<lambda>b. jmul (cn_error b) (jsnat (cn_size b))) bins)
                                         (jsnat (sum_list (map cn_size bins)))
                     else lit (1/10));
          n = ol_observationCount ol;
          status = lightweight_status ol;
          drifted = df_detected (ol_lastDrift ol)
      in \<lparr>av_status = status, av_baselineProbability = ol_ewmaHitRate ol, av_conditionalImprovement = Fin 0,
          av_improvementSignificant = False,
          av_calibrationStatus = (if jlt meanCal (lit (5/100)) then Cs_good
                                  else if jlt meanCal (lit (1/10)) then Cs_good else Cs_poor),
          av_meanCalibrationError = meanCal,
          av_performanceTrend = (if drifted then Pt_degrading else Pt_stable), av_driftDetected = drifted,
          av_sampleSize = n, av_sampleAdequate = (500 \<le> n),
          av_recommendedMode = (if status = Ev_supported then Em_active
                                else if status = Ev_weak then Em_cautious else Em_observation),
          av_reasoning = Er_online n (ol_ewmaBrier ol) (df_reason (ol_lastDrift ol)), av_calibration = None\<rparr>)"

definition current_evidence :: "acie_engine \<Rightarrow> evidence_report" where
  "current_evidence s = (case ax_lastEvidence s of Some e \<Rightarrow> e | None \<Rightarrow> lightweightEvidence s)"

text \<open>Drift lowers the status the strategy sees.\<close>

definition effective_status :: "online_state \<Rightarrow> acie_evidence \<Rightarrow> acie_evidence" where
  "effective_status ol status =
     (if df_detected (ol_lastDrift ol) \<and> status = Ev_supported then Ev_weak
      else if df_detected (ol_lastDrift ol) \<and> 100 < ol_observationCount ol \<and> status = Ev_weak then Ev_degraded
      else status)"

definition full_risk :: "acie_engine \<Rightarrow> partial_risk \<Rightarrow> strategy_risk" where
  "full_risk s r =
     \<lparr>yr_currentExposure = or_else (yq_currentExposure r) (Fin 0),
      yr_consecutiveLosses = or_else (yq_consecutiveLosses r) (ax_consecutiveLosses s),
      yr_dailyEntriesUsed = or_else (yq_dailyEntriesUsed r) 0,
      yr_dailyEntriesLimit = or_else (yq_dailyEntriesLimit r) 500,
      yr_balance = or_else (yq_balance r) (Fin 0)\<rparr>"

definition total_uncertainty :: "full_math \<Rightarrow> psi_output \<Rightarrow> jsnum" where
  "total_uncertainty mt px =
     mt_sqrt mt (jadd (mt_pow mt (px_modelUncertainty px) (Fin 2)) (mt_pow mt (px_dataUncertainty px) (Fin 2)))"

definition strategy_input ::
    "full_math \<Rightarrow> acie_engine \<Rightarrow> partial_risk \<Rightarrow> psi_output \<Rightarrow> strategy_context" where
  "strategy_input mt s risk px =
     (let ol = ax_online s; evidence = current_evidence s
      in \<lparr>yc_probability = px_probability px, yc_interval = px_interval px,
          yc_calibrationError = jmax (av_meanCalibrationError evidence) (jmul (onlineMeanCalibrationError ol) (lit (5/10))),
          yc_evidence = effective_status ol (av_status evidence), yc_regime = px_regime px,
          yc_regimeStability = ol_regimeDuration ol, yc_uncertainty = total_uncertainty mt px,
          yc_riskState = full_risk s risk,
          yc_baselineProbability =
            (if jlt (Fin 0) (ol_ewmaHitRate ol) then ol_ewmaHitRate ol
             else if jlt (Fin 0) (av_baselineProbability evidence) then av_baselineProbability evidence
             else if jlt (Fin 0) (qs_rolling100 (px_sequenceState px)) then qs_rolling100 (px_sequenceState px)
             else lit (65/100))\<rparr>)"

definition signal_of ::
    "string \<Rightarrow> psi_output \<Rightarrow> evidence_report \<Rightarrow> strategy_decision \<Rightarrow> entry_signal_acie option" where
  "signal_of now px evidence d =
     (if yd_isOpportunity d \<and> (yd_action d = Act_entry \<or> yd_action d = Act_reduced_entry)
      then Some \<lparr>gn_probability = px_probability px, gn_interval = px_interval px, gn_evidence = av_status evidence,
                 gn_regime = px_regime px, gn_action = yd_action d, gn_stake = yd_stake d, gn_reason = yd_reason d,
                 gn_confidence = yd_confidence d, gn_timestamp = now, gn_psi = px, gn_evidenceReport = evidence\<rparr>
      else None)"

definition buildEvaluation ::
    "full_math \<Rightarrow> acie_config \<Rightarrow> string \<Rightarrow> partial_risk \<Rightarrow> acie_engine \<Rightarrow> acie_evaluation \<times> acie_engine" where
  "buildEvaluation mt cfg now risk s =
     (let q = computeSequenceState mt (ax_crashPoints s);
          regime = detectRegime q;
          (px, models) = estimateWithModels mt (ax_crashPoints s) q regime (ax_sol s)
                           (Some (ol_ensembleWeights (ax_online s))) (Some (ol_ewmaHitRate (ax_online s)));
          ctx = strategy_input mt s risk px;
          d = strategy_evaluate (ac_policy cfg) ctx;
          evidence = (current_evidence s)\<lparr>av_status := yc_evidence ctx\<rparr>;
          pending = \<lparr>pd_history = js_slice_last 20 (ax_crashPoints s), pd_sequenceState = q, pd_regime = regime,
                     pd_regimeDuration = ol_regimeDuration (ax_online s), pd_psiProbability = px_probability px,
                     pd_psiConfidence = jsub (Fin 1) (jmin (Fin 1) (jadd (px_modelUncertainty px) (px_dataUncertainty px))),
                     pd_prediction = yd_isOpportunity d\<rparr>
      in (\<lparr>xe_psi = px, xe_evidence = evidence, xe_strategy = d, xe_signal = signal_of now px evidence d,
           xe_sequenceState = q, xe_regime = regime\<rparr>,
          s\<lparr>ax_lastModels := models, ax_pendingContext := Some pending\<rparr>))"

definition emptyEvaluation :: "acie_engine \<Rightarrow> seq_state \<Rightarrow> regime_label \<Rightarrow> acie_evaluation" where
  "emptyEvaluation s q regime =
     \<lparr>xe_psi = \<lparr>px_probability = ol_ewmaHitRate (ax_online s), px_interval = (lit (5/10), lit (8/10)),
               px_sequenceState = q, px_regime = regime, px_primaryModel = Md_frequency, px_ensembleWeight = Fin 1,
               px_modelUncertainty = lit (1/10), px_dataUncertainty = lit (1/10)\<rparr>,
      xe_evidence = lightweightEvidence s, xe_strategy = skip_entry Sr_warmup, xe_signal = None,
      xe_sequenceState = q, xe_regime = regime\<rparr>"

record crash_learning =
  cl_roundId :: string
  cl_crashPoint :: jsnum
  cl_reached :: bool
  cl_online :: online_state
  cl_evaluation :: acie_evaluation
  cl_heavyValidationRan :: bool
  cl_evidence :: evidence_report

datatype acie_error = Invalid_crash_point jsnum | Bucket_type_error

text \<open>The decision for the next round, left out (\<open>skipDecision\<close>) while a history is replayed.\<close>

definition next_decision ::
    "full_math \<Rightarrow> acie_config \<Rightarrow> string \<Rightarrow> bool \<Rightarrow> acie_engine \<Rightarrow> acie_evaluation \<times> acie_engine" where
  "next_decision mt cfg now skipDecision s =
     (let q = computeSequenceState mt (ax_crashPoints s)
      in if skipDecision then (emptyEvaluation s q (detectRegime q), s)
         else buildEvaluation mt cfg now (ax_lastRisk s) s)"

definition learning_result :: "acie_round \<Rightarrow> acie_evaluation \<Rightarrow> bool \<Rightarrow> acie_engine \<Rightarrow> crash_learning" where
  "learning_result rd ev heavy s =
     \<lparr>cl_roundId = xr_roundId rd, cl_crashPoint = xr_crashPoint rd, cl_reached = hit (xr_crashPoint rd),
      cl_online = ax_online s, cl_evaluation = ev, cl_heavyValidationRan = heavy, cl_evidence = current_evidence s\<rparr>"

definition mark_processed :: "string \<Rightarrow> acie_engine \<Rightarrow> acie_engine" where
  "mark_processed i s =
     (if i = [] then s
      else let ids = ax_processed s @ [i] in s\<lparr>ax_processed := (if 5000 < length ids then tl ids else ids)\<rparr>)"

definition round_context :: "full_math \<Rightarrow> acie_engine \<Rightarrow> pred_context" where
  "round_context mt s =
     (case ax_pendingContext s of
        Some ctx \<Rightarrow> ctx
      | None \<Rightarrow>
          let q = computeSequenceState mt (ax_crashPoints s)
          in \<lparr>pd_history = js_slice_last 20 (ax_crashPoints s), pd_sequenceState = q, pd_regime = detectRegime q,
              pd_regimeDuration = ol_regimeDuration (ax_online s),
              pd_psiProbability = ol_lastPsiProbability (ax_online s), pd_psiConfidence = lit (3/10),
              pd_prediction = False\<rparr>)"

definition schedule_heavy :: "acie_config \<Rightarrow> acie_engine \<Rightarrow> bool \<times> acie_engine" where
  "schedule_heavy cfg s =
     (if ac_heavyEvery cfg \<le> ol_sinceHeavyValidation (ax_online s)
      then (True, s\<lparr>ax_pendingHeavy := True, ax_heavyScheduled := True\<rparr>)
      else (False, s))"

definition keep_evidence :: "acie_engine \<Rightarrow> acie_engine" where
  "keep_evidence s = (if ax_lastEvidence s = None then s\<lparr>ax_lastEvidence := Some (lightweightEvidence s)\<rparr> else s)"

text \<open>Steps 1 and 2 of \<open>ingestCrash\<close>, which run before anything can raise at the bucket.\<close>

definition record_crash ::
    "full_math \<Rightarrow> acie_config \<Rightarrow> string \<Rightarrow> acie_round \<Rightarrow> pred_context \<Rightarrow> acie_engine \<Rightarrow> acie_engine" where
  "record_crash mt cfg now rd ctx s =
     (let cps = ax_crashPoints s @ [xr_crashPoint rd]
      in s\<lparr>ax_sol := sol_record_round mt (ac_maxHistory cfg) now (ax_sol s) rd ctx,
           ax_crashPoints := (if 2000 < length cps then js_slice_last 2000 cps else cps),
           ax_consecutiveLosses := (if jlt (xr_crashPoint rd) ACIE_TARGET then ax_consecutiveLosses s + 1 else 0)\<rparr>)"

definition update_online ::
    "full_math \<Rightarrow> acie_config \<Rightarrow> acie_round \<Rightarrow> pred_context \<Rightarrow> acie_engine \<Rightarrow> online_state option" where
  "update_online mt cfg rd ctx s =
     (let q = computeSequenceState mt (ax_crashPoints s)
      in applyOnlineUpdate mt (ax_online s)
           \<lparr>op_crashPoint = xr_crashPoint rd, op_psiProbability = pd_psiProbability ctx,
            op_modelProbabilities = ax_lastModels s, op_sequenceState = q, op_regime = detectRegime q,
            op_alpha = ac_ewmaAlpha cfg\<rparr>)"

definition invalid_crash :: "jsnum \<Rightarrow> bool" where
  "invalid_crash c \<longleftrightarrow> \<not> is_fin c \<or> jle c (Fin 0)"

definition ingestCrash ::
    "full_math \<Rightarrow> acie_config \<Rightarrow> string \<Rightarrow> bool \<Rightarrow> acie_round \<Rightarrow> acie_engine \<Rightarrow>
     (acie_error + crash_learning) \<times> acie_engine" where
  "ingestCrash mt cfg now skipDecision rd s =
     (if xr_roundId rd \<noteq> [] \<and> xr_roundId rd \<in> set (ax_processed s)
      then case next_decision mt cfg now skipDecision s of
             (ev, s') \<Rightarrow> (Inr (learning_result rd ev False s'), s')
      else let s1 = mark_processed (xr_roundId rd) s
           in if invalid_crash (xr_crashPoint rd) then (Inl (Invalid_crash_point (xr_crashPoint rd)), s1)
              else let ctx = round_context mt s1; s2 = record_crash mt cfg now rd ctx s1
                   in case update_online mt cfg rd ctx s2 of
                        None \<Rightarrow> (Inl Bucket_type_error, s2)
                      | Some ol \<Rightarrow>
                          (case schedule_heavy cfg (s2\<lparr>ax_online := ol\<rparr>) of
                             (heavy, s3) \<Rightarrow>
                               (case next_decision mt cfg now skipDecision
                                       ((keep_evidence s3)\<lparr>ax_pendingContext := None\<rparr>) of
                                  (ev, s4) \<Rightarrow> (Inr (learning_result rd ev heavy s4), s4))))"

section \<open>The engine's interface\<close>

definition remember_risk :: "partial_risk option \<Rightarrow> acie_engine \<Rightarrow> acie_engine" where
  "remember_risk risk s = (case risk of Some r \<Rightarrow> s\<lparr>ax_lastRisk := r\<rparr> | None \<Rightarrow> s)"

definition onCrash ::
    "full_math \<Rightarrow> acie_config \<Rightarrow> string \<Rightarrow> acie_round \<Rightarrow> partial_risk option \<Rightarrow> acie_engine \<Rightarrow>
     (acie_error + crash_learning) \<times> acie_engine" where
  "onCrash mt cfg now rd risk s = ingestCrash mt cfg now False rd (remember_risk risk s)"

definition evaluateNext ::
    "full_math \<Rightarrow> acie_config \<Rightarrow> string \<Rightarrow> partial_risk option \<Rightarrow> acie_engine \<Rightarrow> acie_evaluation \<times> acie_engine" where
  "evaluateNext mt cfg now risk s =
     (let s' = remember_risk risk s in buildEvaluation mt cfg now (ax_lastRisk s') s')"

text \<open>The loop of \<open>seedHistory\<close>, which an invalid point ends with its error.\<close>

fun seed_loop ::
    "full_math \<Rightarrow> acie_config \<Rightarrow> string \<Rightarrow> acie_round list \<Rightarrow> acie_engine \<Rightarrow> acie_error option \<times> acie_engine" where
  "seed_loop mt cfg now [] s = (None, s)"
| "seed_loop mt cfg now (rd # rds) s =
     (case ingestCrash mt cfg now True rd s of
        (Inl e, s') \<Rightarrow> (Some e, s')
      | (Inr _, s') \<Rightarrow> seed_loop mt cfg now rds s')"

definition seedHistory ::
    "full_math \<Rightarrow> acie_config \<Rightarrow> string \<Rightarrow> acie_round list \<Rightarrow> acie_engine \<Rightarrow> acie_error option \<times> acie_engine" where
  "seedHistory mt cfg now rounds s =
     (case seed_loop mt cfg now (js_slice_last 2000 rounds) s of
        (Some e, s') \<Rightarrow> (Some e, s')
      | (None, s') \<Rightarrow> (None, snd (evaluateNext mt cfg now (Some (ax_lastRisk s')) s')))"

record acie_snapshot =
  sn_online :: "online_state option"
  sn_crashPoints :: "jsnum list"
  sn_consecutiveLosses :: "nat option"

definition exportSnapshot :: "acie_engine \<Rightarrow> acie_snapshot" where
  "exportSnapshot s = \<lparr>sn_online = Some (ax_online s), sn_crashPoints = js_slice_last 2000 (ax_crashPoints s),
                       sn_consecutiveLosses = Some (ax_consecutiveLosses s)\<rparr>"

definition restore_rounds :: "string \<Rightarrow> jsnum list \<Rightarrow> acie_round list" where
  "restore_rounds now cps =
     map2 (\<lambda>i cp. \<lparr>xr_roundId = ''restore-'' @ nat_str i, xr_crashPoint = cp, xr_timestamp = Some now\<rparr>)
       [0..<length cps] cps"

definition importSnapshot ::
    "full_math \<Rightarrow> acie_config \<Rightarrow> string \<Rightarrow> acie_snapshot \<Rightarrow> acie_engine \<Rightarrow> acie_error option \<times> acie_engine" where
  "importSnapshot mt cfg now snap s =
     (case (if sn_crashPoints snap = [] then (None, s)
            else seedHistory mt cfg now (restore_rounds now (sn_crashPoints snap)) s) of
        (Some e, s1) \<Rightarrow> (Some e, s1)
      | (None, s1) \<Rightarrow>
          let s2 = (case sn_online snap of Some ol \<Rightarrow> s1\<lparr>ax_online := ol\<rparr> | None \<Rightarrow> s1)
          in (None, case sn_consecutiveLosses snap of Some n \<Rightarrow> s2\<lparr>ax_consecutiveLosses := n\<rparr> | None \<Rightarrow> s2))"

text \<open>The records the evidence is drawn from: the last \<open>ACIE_EVIDENCE_MAX_N\<close> (\<open>slice(-n)\<close>).\<close>

definition capped :: "acie_config \<Rightarrow> sol_record list \<Rightarrow> sol_record list" where
  "capped cfg recs =
     (case ac_evidenceMaxN cfg of
        None \<Rightarrow> recs
      | Some k \<Rightarrow> if k < int (length recs) then if k \<le> 0 then drop (nat (- k)) recs else js_slice_last (nat k) recs
                  else recs)"

text \<open>The callback of \<open>setImmediate\<close>.\<close>

definition run_heavy :: "full_math \<Rightarrow> acie_config \<Rightarrow> acie_engine \<Rightarrow> acie_engine" where
  "run_heavy mt cfg s =
     (let s = s\<lparr>ax_heavyScheduled := False\<rparr>
      in if \<not> ax_pendingHeavy s then s
         else s\<lparr>ax_pendingHeavy := False, ax_lastEvidence := Some (evaluate_evidence mt (capped cfg (ax_sol s))),
                ax_online := (ax_online s)\<lparr>ol_sinceHeavyValidation := 0,
                                            ol_lastHeavyValidationAt := ol_observationCount (ax_online s)\<rparr>\<rparr>)"

definition getEvidenceSnapshot :: "full_math \<Rightarrow> acie_config \<Rightarrow> acie_engine \<Rightarrow> evidence_report" where
  "getEvidenceSnapshot mt cfg s =
     (case ax_lastEvidence s of Some e \<Rightarrow> e | None \<Rightarrow> evaluate_evidence mt (capped cfg (ax_sol s)))"

text \<open>The evaluation, the entitlement verdict if it was asked for, and the signal delivered.\<close>

definition produceSignal ::
    "full_math \<Rightarrow> acie_config \<Rightarrow> string \<Rightarrow> partial_risk \<Rightarrow> entitlement_check option \<Rightarrow> acie_engine \<Rightarrow>
     (acie_evaluation \<times> (int \<times> int \<times> string) option option \<times> entry_signal_acie option) \<times> acie_engine" where
  "produceSignal mt cfg now risk check s =
     (case evaluateNext mt cfg now (Some risk) s of
        (ev, s') \<Rightarrow>
          ((case xe_signal ev of
              None \<Rightarrow> (ev, None, None)
            | Some sg \<Rightarrow> (case check of
                None \<Rightarrow> (ev, None, Some sg)
              | Some c \<Rightarrow> (ev, Some (entitlement_refusal c),
                           if entitlement_refusal c = None then Some sg else None))), s'))"

datatype acie_event =
    Crash_seen acie_round "partial_risk option"
  | Ask_next "partial_risk option"
  | Replay "acie_round list"
  | Heavy_turn

definition acie_step :: "full_math \<Rightarrow> acie_config \<Rightarrow> string \<Rightarrow> acie_engine \<Rightarrow> acie_event \<Rightarrow> acie_engine" where
  "acie_step mt cfg now s e =
     (case e of
        Crash_seen rd risk \<Rightarrow> snd (onCrash mt cfg now rd risk s)
      | Ask_next risk \<Rightarrow> snd (evaluateNext mt cfg now risk s)
      | Replay rounds \<Rightarrow> snd (seedHistory mt cfg now rounds s)
      | Heavy_turn \<Rightarrow> if ax_heavyScheduled s then run_heavy mt cfg s else s)"

section \<open>The evidence is never supported\<close>

definition never_supported :: "acie_engine \<Rightarrow> bool" where
  "never_supported s \<longleftrightarrow>
     (case ax_lastEvidence s of
        None \<Rightarrow> ol_observationCount (ax_online s) = 0
      | Some e \<Rightarrow> av_status e \<noteq> Ev_supported)"

lemma never_supported_same:
  "ax_lastEvidence s' = ax_lastEvidence s \<Longrightarrow> ax_online s' = ax_online s \<Longrightarrow> never_supported s' = never_supported s"
  by (simp add: never_supported_def split: option.split)

lemma buildEvaluation_state:
  "ax_lastEvidence (snd (buildEvaluation mt cfg now risk s)) = ax_lastEvidence s"
  "ax_online (snd (buildEvaluation mt cfg now risk s)) = ax_online s"
  "ax_sol (snd (buildEvaluation mt cfg now risk s)) = ax_sol s"
  "ax_crashPoints (snd (buildEvaluation mt cfg now risk s)) = ax_crashPoints s"
  "ax_consecutiveLosses (snd (buildEvaluation mt cfg now risk s)) = ax_consecutiveLosses s"
  "ax_processed (snd (buildEvaluation mt cfg now risk s)) = ax_processed s"
  "ax_pendingHeavy (snd (buildEvaluation mt cfg now risk s)) = ax_pendingHeavy s"
  "ax_heavyScheduled (snd (buildEvaluation mt cfg now risk s)) = ax_heavyScheduled s"
  by (simp_all add: buildEvaluation_def estimateWithModels_def Let_def)

lemma next_decision_state:
  "ax_lastEvidence (snd (next_decision mt cfg now skip s)) = ax_lastEvidence s"
  "ax_online (snd (next_decision mt cfg now skip s)) = ax_online s"
  "ax_sol (snd (next_decision mt cfg now skip s)) = ax_sol s"
  "ax_crashPoints (snd (next_decision mt cfg now skip s)) = ax_crashPoints s"
  "ax_consecutiveLosses (snd (next_decision mt cfg now skip s)) = ax_consecutiveLosses s"
  "ax_processed (snd (next_decision mt cfg now skip s)) = ax_processed s"
  "ax_pendingHeavy (snd (next_decision mt cfg now skip s)) = ax_pendingHeavy s"
  "ax_heavyScheduled (snd (next_decision mt cfg now skip s)) = ax_heavyScheduled s"
  by (simp_all add: next_decision_def buildEvaluation_state Let_def)

lemma applyOnlineUpdate_count:
  "applyOnlineUpdate mt s ps = Some s' \<Longrightarrow> ol_observationCount s' = ol_observationCount s + 1"
  by (auto simp: applyOnlineUpdate_def Let_def split: option.splits)

lemma lightweight_supported_late: "lightweight_status ol = Ev_supported \<Longrightarrow> 500 \<le> ol_observationCount ol"
  by (simp add: lightweight_status_def Let_def split: if_splits)

text \<open>The state \<open>ingestCrash\<close> leaves, one case per way out.\<close>

definition after_update :: "acie_config \<Rightarrow> acie_engine \<Rightarrow> online_state \<Rightarrow> acie_engine" where
  "after_update cfg s ol = (keep_evidence (snd (schedule_heavy cfg (s\<lparr>ax_online := ol\<rparr>))))\<lparr>ax_pendingContext := None\<rparr>"

lemma ingest_state:
  "snd (ingestCrash mt cfg now skip rd s) =
     (if xr_roundId rd \<noteq> [] \<and> xr_roundId rd \<in> set (ax_processed s) then snd (next_decision mt cfg now skip s)
      else let s1 = mark_processed (xr_roundId rd) s
           in if invalid_crash (xr_crashPoint rd) then s1
              else let ctx = round_context mt s1; s2 = record_crash mt cfg now rd ctx s1
                   in case update_online mt cfg rd ctx s2 of
                        None \<Rightarrow> s2
                      | Some ol \<Rightarrow> snd (next_decision mt cfg now skip (after_update cfg s2 ol)))"
  by (simp add: ingestCrash_def after_update_def Let_def split: option.split prod.split)

lemma mark_processed_state [simp]:
  "ax_lastEvidence (mark_processed i s) = ax_lastEvidence s" "ax_online (mark_processed i s) = ax_online s"
  "ax_sol (mark_processed i s) = ax_sol s" "ax_crashPoints (mark_processed i s) = ax_crashPoints s"
  "ax_consecutiveLosses (mark_processed i s) = ax_consecutiveLosses s"
  by (simp_all add: mark_processed_def Let_def)

lemma record_crash_state [simp]:
  "ax_lastEvidence (record_crash mt cfg now rd ctx s) = ax_lastEvidence s"
  "ax_online (record_crash mt cfg now rd ctx s) = ax_online s"
  "ax_processed (record_crash mt cfg now rd ctx s) = ax_processed s"
  by (simp_all add: record_crash_def Let_def)

lemma after_update_state [simp]:
  "ax_online (after_update cfg s ol) = ol" "ax_processed (after_update cfg s ol) = ax_processed s"
  "ax_sol (after_update cfg s ol) = ax_sol s" "ax_crashPoints (after_update cfg s ol) = ax_crashPoints s"
  by (simp_all add: after_update_def keep_evidence_def schedule_heavy_def)

lemma never_supported_ingest:
  assumes "never_supported s"
  shows "never_supported (snd (ingestCrash mt cfg now skip rd s))"
proof -
  have decided: "never_supported (snd (next_decision mt cfg now skip s)) = never_supported s" for s
    by (rule never_supported_same) (simp_all add: next_decision_state)
  have updated: "never_supported (after_update cfg s2 ol)"
    if "update_online mt cfg rd ctx s2 = Some ol" "ax_lastEvidence s2 = ax_lastEvidence s" "ax_online s2 = ax_online s"
    for ctx s2 ol
  proof -
    have "ol_observationCount ol = ol_observationCount (ax_online s) + 1"
      using that applyOnlineUpdate_count by (auto simp: update_online_def Let_def)
    with assms that show ?thesis
      by (auto simp: never_supported_def after_update_def keep_evidence_def schedule_heavy_def lightweightEvidence_def Let_def
               dest!: lightweight_supported_late split: option.splits)
  qed
  have same: "never_supported s'" if "ax_lastEvidence s' = ax_lastEvidence s" "ax_online s' = ax_online s" for s'
    using assms never_supported_same [OF that] by simp
  define s1 where "s1 = mark_processed (xr_roundId rd) s"
  define s2 where "s2 = record_crash mt cfg now rd (round_context mt s1) s1"
  have kept: "ax_lastEvidence s1 = ax_lastEvidence s" "ax_online s1 = ax_online s"
    "ax_lastEvidence s2 = ax_lastEvidence s" "ax_online s2 = ax_online s"
    by (simp_all add: s1_def s2_def)
  show ?thesis
    using assms kept same updated [of "round_context mt s1" s2] decided
    by (cases "update_online mt cfg rd (round_context mt s1) s2")
       (simp_all add: ingest_state Let_def flip: s1_def s2_def)
qed

lemma never_supported_seed:
  "never_supported s \<Longrightarrow> never_supported (snd (seed_loop mt cfg now rds s))"
proof (induction rds arbitrary: s)
  case (Cons rd rds)
  then show ?case
    using never_supported_ingest [OF Cons.prems, of mt cfg now True rd]
    by (auto split: prod.split sum.split)
qed simp

lemma never_supported_risk [simp]: "never_supported (remember_risk r s) = never_supported s"
  by (rule never_supported_same) (simp_all add: remember_risk_def split: option.split)

lemma never_supported_ask: "never_supported s \<Longrightarrow> never_supported (snd (evaluateNext mt cfg now r s))"
  using never_supported_risk [of r s]
    never_supported_same [of "snd (evaluateNext mt cfg now r s)" "remember_risk r s"]
  by (simp add: evaluateNext_def Let_def buildEvaluation_state)

lemma never_supported_step:
  assumes "\<And>x. \<not> jlt (mt_sqrt mt x) (Fin 0)" and "never_supported s"
  shows "never_supported (acie_step mt cfg now s e)"
proof -
  have heavy: "never_supported (run_heavy mt cfg s)"
    using assms evidence_never_supported [OF assms(1)]
    by (auto simp: run_heavy_def never_supported_def Let_def split: option.splits)
  have seed: "never_supported (snd (seedHistory mt cfg now rounds s))" for rounds
    using never_supported_seed [OF assms(2), of mt cfg now "js_slice_last 2000 rounds"]
    by (auto simp: seedHistory_def never_supported_ask split: prod.split option.split)
  show ?thesis
    using assms(2)
    by (cases e) (simp_all add: acie_step_def onCrash_def heavy seed never_supported_ingest never_supported_ask)
qed

interpretation learning_run: stepwise "acie_step mt cfg now"
    "\<lambda>s. (\<forall>x. \<not> jlt (mt_sqrt mt x) (Fin 0)) \<longrightarrow> never_supported s" for mt cfg now
  by unfold_locales (simp add: never_supported_step)

lemma effective_status_supported: "effective_status ol st = Ev_supported \<Longrightarrow> st = Ev_supported"
  by (simp add: effective_status_def split: if_splits)

lemma current_evidence_weak: "never_supported s \<Longrightarrow> av_status (current_evidence s) \<noteq> Ev_supported"
  by (auto simp: never_supported_def current_evidence_def lightweightEvidence_def Let_def
           dest: lightweight_supported_late split: option.splits)

lemma supported_threshold_unused:
  "yc_evidence ctx \<noteq> Ev_supported \<Longrightarrow>
   strategy_evaluate (p\<lparr>yp_supportedThreshold := t\<rparr>) ctx = strategy_evaluate p ctx"
  by (cases "yc_evidence ctx"; cases "yp_mode p")
     (simp_all add: strategy_evaluate_def evidence_bar_def reducedStake_def Let_def)

text \<open>At every point of every run of the learning engine (crashes with and without risk state, replays of a
  history, questions for the next decision, heavy validations) the evidence it decides on is never
  \<open>SUPPORTED\<close>, so the \<open>supportedThreshold\<close> of the policy never matters: another value gives the same decision.
  The report of \<open>safe.ts\<close> takes the improvement over the baseline as the difference of one frequency with
  itself, and its test for significance is never met. \<open>Math.sqrt\<close> returns no negative number.\<close>

lemma acie_never_supported:
  assumes "\<And>x. \<not> jlt (mt_sqrt mt x) (Fin 0)"
  shows "let s = foldl (acie_step mt cfg now) acie_new es; ev = fst (evaluateNext mt cfg now risk s)
         in av_status (xe_evidence ev) \<noteq> Ev_supported \<and>
            xe_strategy (fst (evaluateNext mt (cfg\<lparr>ac_policy := (ac_policy cfg)\<lparr>yp_supportedThreshold := t\<rparr>\<rparr>) now risk s)) =
              xe_strategy ev"
proof -
  define s where "s = foldl (acie_step mt cfg now) acie_new es"
  have "never_supported acie_new" by (simp add: never_supported_def acie_new_def createInitialOnlineState_def)
  then have "never_supported s"
    unfolding s_def using assms learning_run.run_inv [of mt acie_new cfg now es] by simp
  then have "never_supported (remember_risk risk s)" by simp
  note weak = current_evidence_weak [OF this]
  have "yc_evidence (strategy_input mt (remember_risk risk s) r px) \<noteq> Ev_supported" for r px
    using weak by (auto simp: strategy_input_def Let_def dest: effective_status_supported)
  then show ?thesis
    by (simp add: evaluateNext_def buildEvaluation_def estimateWithModels_def supported_threshold_unused Let_def flip: s_def)
qed

definition demo_round :: "string \<Rightarrow> jsnum \<Rightarrow> acie_round" where
  "demo_round i c = \<lparr>xr_roundId = i, xr_crashPoint = c, xr_timestamp = None\<rparr>"

lemma acie_never_supported_example:
  "let s = foldl (acie_step root_demo default_config ''t'') acie_new
             [Crash_seen (demo_round ''r1'' (Fin 2)) None, Heavy_turn];
       ev = fst (evaluateNext root_demo default_config ''t'' None s)
   in av_status (xe_evidence ev) \<noteq> Ev_supported \<and>
      xe_strategy (fst (evaluateNext root_demo
        (default_config\<lparr>ac_policy := (ac_policy default_config)\<lparr>yp_supportedThreshold := Fin 0\<rparr>\<rparr>) ''t'' None s)) = xe_strategy ev"
  by (rule acie_never_supported) (simp add: root_demo_def)

lemma duplicate_ingest:
  assumes "xr_roundId rd \<noteq> []" "xr_roundId rd \<in> set (ax_processed s)"
  shows "\<exists>r. ingestCrash mt cfg now skip rd s = (Inr r, snd (next_decision mt cfg now skip s)) \<and>
             cl_crashPoint r = xr_crashPoint rd"
  using assms by (simp add: ingestCrash_def learning_result_def split: prod.split)

lemma remember_risk_state [simp]:
  "ax_processed (remember_risk r s) = ax_processed s" "ax_sol (remember_risk r s) = ax_sol s"
  "ax_crashPoints (remember_risk r s) = ax_crashPoints s" "ax_online (remember_risk r s) = ax_online s"
  "ax_consecutiveLosses (remember_risk r s) = ax_consecutiveLosses s"
  by (simp_all add: remember_risk_def split: option.split)

lemma marked_member: "i \<noteq> [] \<Longrightarrow> i \<in> set (ax_processed (mark_processed i s))"
  by (cases "ax_processed s") (auto simp: mark_processed_def Let_def)

text \<open>Whatever the engine has learned from the rounds it has seen.\<close>

definition learned :: "acie_engine \<Rightarrow> sol_record list \<times> jsnum list \<times> online_state \<times> nat" where
  "learned s = (ax_sol s, ax_crashPoints s, ax_online s, ax_consecutiveLosses s)"

text \<open>A round is learned from at most once, and an invalid report uses it up: when a crash report with a
  value that is not a positive finite number arrives for a round the engine has not seen, \<open>onCrash\<close> throws
  without learning anything; a later report of the same round with a correct value is then answered as a
  duplicate, with a decision and the reported crash point, and the engine does not learn from it either.
  The round is entered in the processed set before its value is checked.\<close>

lemma invalid_crash_blocks_round:
  assumes "i \<noteq> []" "i \<notin> set (ax_processed s)" "invalid_crash (xr_crashPoint bad)"
    and "xr_roundId bad = i" "xr_roundId good = i"
  shows "case onCrash mt cfg now bad r1 s of
           (res, s1) \<Rightarrow> res = Inl (Invalid_crash_point (xr_crashPoint bad)) \<and> learned s1 = learned s \<and>
             (case onCrash mt cfg now good r2 s1 of
                (res2, s2) \<Rightarrow> (\<exists>l. res2 = Inr l \<and> cl_crashPoint l = xr_crashPoint good) \<and> learned s2 = learned s)"
proof -
  define s1 where "s1 = mark_processed i (remember_risk r1 s)"
  have first: "onCrash mt cfg now bad r1 s = (Inl (Invalid_crash_point (xr_crashPoint bad)), s1)"
    using assms by (simp add: onCrash_def ingestCrash_def s1_def Let_def)
  have "xr_roundId good \<in> set (ax_processed (remember_risk r2 s1))"
    using assms marked_member by (simp add: s1_def)
  from duplicate_ingest [OF _ this, of mt cfg now False] assms
  obtain l where "onCrash mt cfg now good r2 s1 = (Inr l, snd (next_decision mt cfg now False (remember_risk r2 s1)))"
    "cl_crashPoint l = xr_crashPoint good" by (auto simp: onCrash_def)
  with first show ?thesis by (simp add: learned_def next_decision_state s1_def)
qed

lemma invalid_crash_blocks_round_example:
  "case onCrash root_demo default_config ''t'' (demo_round ''r1'' (Fin 0)) None acie_new of
     (res, s1) \<Rightarrow> res = Inl (Invalid_crash_point (Fin 0)) \<and> learned s1 = learned acie_new \<and>
       (case onCrash root_demo default_config ''t'' (demo_round ''r1'' (Fin 2)) None s1 of
          (res2, s2) \<Rightarrow> (\<exists>l. res2 = Inr l \<and> cl_crashPoint l = Fin 2) \<and> learned s2 = learned acie_new)"
  using invalid_crash_blocks_round [of "''r1''" acie_new "demo_round ''r1'' (Fin 0)" "demo_round ''r1'' (Fin 2)"]
  by (simp add: demo_round_def acie_new_def invalid_crash_def)

section \<open>Bounds\<close>

lemma clamp_mid_range: "p \<noteq> NaN \<Longrightarrow> jle (lit (1/100)) (clamp_mid p) \<and> jle (clamp_mid p) (lit (99/100))"
  using mid_bounds(2) by (cases p; cases "lit (1/100)"; cases "lit (99/100)") (auto simp: clamp_mid_def jle_def)

lemma clamp_mid_mono: "jle a b \<Longrightarrow> jle (clamp_mid a) (clamp_mid b)"
  using mid_bounds(2) by (cases a; cases b; cases "lit (1/100)"; cases "lit (99/100)") (auto simp: clamp_mid_def jle_def)

lemma clamp_mid_idem: "clamp_mid (clamp_mid a) = clamp_mid a"
  using mid_bounds(2) by (cases a; cases "lit (1/100)"; cases "lit (99/100)") (auto simp: clamp_mid_def jle_def)

lemma clamp_mid_NaN: "clamp_mid p = NaN \<longleftrightarrow> p = NaN"
  using mid_bounds by (cases p; cases "lit (1/100)"; cases "lit (99/100)") (auto simp: clamp_mid_def jle_def)

lemma dbl_total_by: "(\<And>x. dbl (f x)) \<Longrightarrow> dbl (total_by f xs)"
proof -
  assume d: "\<And>x. dbl (f x)"
  have "dbl a \<Longrightarrow> dbl (foldl (\<lambda>s x. jadd s (f x)) a xs)" for a
    by (induction xs arbitrary: a) (simp_all add: d)
  then show ?thesis by (simp add: total_by_def)
qed

lemma dbl_clamp_mid: "dbl p \<Longrightarrow> dbl (clamp_mid p)"
  by (simp add: clamp_mid_def lit_def)

lemma jadd_nonneg_ge: "dbl a \<Longrightarrow> is_fin a \<Longrightarrow> jle (Fin 0) d \<Longrightarrow> jle a (jadd a d)"
proof (cases a; cases d)
  fix x y
  assume "dbl a" "jle (Fin 0) d" "a = Fin x" "d = Fin y"
  moreover from this have "jle (rnd x) (rnd (x + y))" by (intro rnd_mono) simp
  ultimately show ?thesis by (simp add: dbl_Fin)
qed (auto simp: jle_def)

lemma jsub_nonneg_le: "dbl a \<Longrightarrow> is_fin a \<Longrightarrow> jle (Fin 0) d \<Longrightarrow> jle (jsub a d) a"
proof (cases a; cases d)
  fix x y
  assume "dbl a" "jle (Fin 0) d" "a = Fin x" "d = Fin y"
  moreover from this have "jle (rnd (x - y)) (rnd x)" by (intro rnd_mono) simp
  ultimately show ?thesis by (simp add: dbl_Fin)
qed (auto simp: jsub_def jle_def)

lemma jmul_positive: "0 < c \<Longrightarrow> jle (Fin 0) d \<Longrightarrow> jle (Fin 0) (jmul (Fin c) d)"
  by (cases d) (simp_all add: rnd_nonneg, simp_all add: jle_def inf_times_def)

lemma lit_164: "\<exists>c > 0. lit (164/100) = Fin c"
proof -
  have "jle (rnd 1) (lit (164/100))" "jle (lit (164/100)) (rnd 2)"
    unfolding lit_def by (rule rnd_mono, simp)+
  then have "jle (Fin 1) (lit (164/100))" "jle (lit (164/100)) (Fin 2)"
    using rnd_of_int [of 1] rnd_of_int [of 2] by simp_all
  then show ?thesis by (cases "lit (164/100)") (auto simp: jle_def)
qed

lemma interval_around:
  assumes "dbl p" "p \<noteq> NaN"
  shows "let iv = parametricUncertaintyInterval (clamp_mid p) u
         in jle (lit (1/100)) (fst iv) \<and> jle (fst iv) (clamp_mid p) \<and> jle (clamp_mid p) (snd iv) \<and>
            jle (snd iv) (lit (99/100))"
proof -
  define q where "q = clamp_mid p"
  define spread where "spread = (if jlt (lit (3/100)) u then u else lit (3/100))"
  define d where "d = jmul (lit (164/100)) spread"
  have "jle (Fin 0) (lit (3/100))" unfolding lit_def by (rule rnd_nonneg) simp
  then have "jle (Fin 0) spread"
    by (auto simp: spread_def intro: jle_trans simp: jle_def [of "lit (3/100)"])
  then have d: "jle (Fin 0) d" using lit_164 jmul_positive by (auto simp: d_def)
  have "jle (lit (1/100)) q" "jle q (lit (99/100))" using clamp_mid_range [OF assms(2)] by (simp_all add: q_def)
  moreover then have "jle (Fin 0) q" "jle q (Fin 1)" using mid_bounds by (blast intro: jle_trans)+
  ultimately have q: "is_fin q" "dbl q"
    using dbl_clamp_mid [OF assms(1)] by (cases q; auto simp: jle_def q_def)+
  have lo: "jle (jsub q d) q" and hi: "jle q (jadd q d)"
    using q d jsub_nonneg_le jadd_nonneg_ge by blast+
  have self: "clamp_mid q = q" by (simp add: q_def clamp_mid_idem)
  have "jle (clamp_mid (jsub q d)) q" "jle q (clamp_mid (jadd q d))"
    using clamp_mid_mono [OF lo] clamp_mid_mono [OF hi] by (simp_all add: self)
  moreover have "jsub q d \<noteq> NaN" "jadd q d \<noteq> NaN" using lo hi jle_not_NaN by blast+
  ultimately show ?thesis
    using clamp_mid_range [of "jsub q d"] clamp_mid_range [of "jadd q d"]
    unfolding parametricUncertaintyInterval_def Let_def q_def [symmetric] spread_def [symmetric] d_def [symmetric]
    by simp
qed

text \<open>C29. Whatever the sequence, the history and the weights, an ensemble probability that is a number lies inside
  its own confidence interval, and the interval inside 0.01 and 0.99: the rounding of the doubles included, and
  also where the spread of the models is no number or infinite.\<close>

theorem psi_estimate_within_interval:
  assumes "px_probability (psi_estimate mt cps q regime history weights ewmaRate) \<noteq> NaN"
  shows "let px = psi_estimate mt cps q regime history weights ewmaRate
         in jle (lit (1/100)) (fst (px_interval px)) \<and> jle (fst (px_interval px)) (px_probability px) \<and>
            jle (px_probability px) (snd (px_interval px)) \<and> jle (snd (px_interval px)) (lit (99/100))"
proof -
  have "dbl (total_by (\<lambda>(p, w). jmul p w) xs)" for xs by (rule dbl_total_by) (simp split: prod.split)
  then show ?thesis using assms interval_around by (simp add: psi_estimate_def Let_def clamp_mid_NaN)
qed

lemma clamp_mid_times_zero: "x \<noteq> NaN \<Longrightarrow> jmul (clamp_mid x) (Fin 0) = Fin 0"
  using clamp_mid_range [of x] mid_bounds by (cases "clamp_mid x") (auto simp: jle_def)

definition no_weights :: "acie_model \<Rightarrow> jsnum option" where
  "no_weights = (\<lambda>_. Some (Fin 0))"

lemma demo_weights: "resolveWeights n (Some no_weights) = [Fin 0, Fin 0, Fin 0, Fin 0, Fin 0, Fin 0, Fin 0]"
proof -
  have "jmul (Fin 0) (jdiv (Fin 1) (Fin 7)) = Fin 0"
    using rnd_mono [of 0 "1/7"] rnd_mono [of "1/7" 1] rnd_of_int [of 1] by (cases "rnd (1/7)") (auto simp: jle_def)
  moreover have "\<exists>md \<in> set MODEL_NAMES. no_weights md \<noteq> None"
    by (auto simp: no_weights_def MODEL_NAMES_def)
  moreover have "map (\<lambda>md. or_else (no_weights md) (jdiv (Fin 1) (Fin 7))) MODEL_NAMES
      = [Fin 0, Fin 0, Fin 0, Fin 0, Fin 0, Fin 0, Fin 0]"
    by (simp add: no_weights_def MODEL_NAMES_def)
  ultimately show ?thesis by (simp add: resolveWeights_def total_by_def Let_def)
qed

lemma demo_models:
  "\<exists>a b c d e f g. runModels root_demo [] (computeSequenceState root_demo []) Rl_normal [] (Some (Fin 1)) =
     map clamp_mid [a, b, c, d, e, f, g] \<and> NaN \<notin> set [a, b, c, d, e, f, g]"
proof -
  have base: "psi_baseline [] q (Some (Fin 1)) = Fin 1" for q by (simp add: psi_baseline_def)
  have streak: "qs_streakBelow (computeSequenceState root_demo []) = 0" "qs_streakAbove (computeSequenceState root_demo []) = 0"
    by (simp_all add: computeSequenceState_def Let_def)
  have bayes: "jdiv (jadd (Fin 8) (jsnat 0)) (jadd (Fin 12) (jsnat 0)) \<noteq> NaN"
    by (simp add: jsnat_def jsint_def)
  show ?thesis
    unfolding runModels_def base Let_def
    by (intro exI conjI, simp only: list.map, simp add: regime_estimate_def fastStreakAware_def momentum_estimate_def
        volatility_estimate_def shortWindowStats_def computeConditionalProbability_def streak bayes bayes [symmetric] rnd_not_NaN [symmetric] lit_def)
qed

lemma demo_probability:
  "px_probability (psi_estimate root_demo [] (computeSequenceState root_demo []) Rl_normal [] (Some no_weights) (Some (Fin 1))) \<noteq> NaN"
proof -
  obtain a b c d e f g where m: "runModels root_demo [] (computeSequenceState root_demo []) Rl_normal [] (Some (Fin 1)) =
     map clamp_mid [a, b, c, d, e, f, g]" "NaN \<notin> set [a, b, c, d, e, f, g]" using demo_models by blast
  then have "total_by (\<lambda>(p, w). jmul p w) (zip (map clamp_mid [a, b, c, d, e, f, g])
     [Fin 0, Fin 0, Fin 0, Fin 0, Fin 0, Fin 0, Fin 0]) = Fin 0"
    by (simp add: total_by_def clamp_mid_times_zero clamp_mid_times_zero [OF not_sym])
  then show ?thesis by (simp add: psi_estimate_def Let_def demo_weights m(1) clamp_mid_NaN del: list.map)
qed

theorem psi_estimate_within_interval_witness:
  "let px = psi_estimate root_demo [] (computeSequenceState root_demo []) Rl_normal [] (Some no_weights) (Some (Fin 1))
   in jle (lit (1/100)) (fst (px_interval px)) \<and> jle (fst (px_interval px)) (px_probability px) \<and>
      jle (px_probability px) (snd (px_interval px)) \<and> jle (snd (px_interval px)) (lit (99/100))"
  by (rule psi_estimate_within_interval) (rule demo_probability)

section \<open>The strategy's bar\<close>

lemma rnd_extremes: "jle NInf (rnd x)" "jle (rnd x) PInf"
  using rnd_not_NaN [of x] by (cases "rnd x"; simp add: jle_def)+

lemma jadd_left_mono: "jle a b \<Longrightarrow> is_fin c \<Longrightarrow> jle (jadd a c) (jadd b c)"
  by (cases a; cases b; cases c) (auto simp: rnd_mono rnd_extremes, auto simp: jle_def)

lemma jsub_left_mono: "jle a b \<Longrightarrow> is_fin c \<Longrightarrow> jle (jsub a c) (jsub b c)"
  unfolding jsub_def by (rule jadd_left_mono) (cases c; simp)+

lemma lit_finite: "0 \<le> q \<Longrightarrow> q \<le> 1 \<Longrightarrow> is_fin (lit q)"
  using rnd_nonneg [of q] rnd_mono [of q 1] rnd_of_int [of 1] by (cases "rnd q") (auto simp: lit_def jle_def)

lemma jmax_mono: "jle a b \<Longrightarrow> c \<noteq> NaN \<Longrightarrow> jle (jmax c a) (jmax c b)"
  by (cases a; cases b; cases c) (auto simp: jmax_def jle_def)

lemma jmin_mono: "jle a b \<Longrightarrow> c \<noteq> NaN \<Longrightarrow> jle (jmin c a) (jmin c b)"
  by (cases a; cases b; cases c) (auto simp: jmin_def jle_def)

lemma regime_threshold_mono:
  "jle a b \<Longrightarrow> jle (regimeAdjustedThreshold a regime ctx) (regimeAdjustedThreshold b regime ctx)"
  by (auto simp: regimeAdjustedThreshold_def Let_def lit_finite
           intro!: jmax_mono jmin_mono jsub_left_mono jadd_left_mono) (simp_all add: lit_def)

lemma paced_threshold_mono: "jle a b \<Longrightarrow> jle (paced_threshold r a) (paced_threshold r b)"
  by (auto simp: paced_threshold_def Let_def lit_finite intro!: jsub_left_mono jadd_left_mono)

lemma adaptive_bar_lower:
  assumes "jle (yp_fallbackThreshold p) (yp_weakThreshold p)" "dbl (yp_weakThreshold p)"
  shows "jle (jmax (jsub (yp_weakThreshold p) (lit (2/100))) (yp_fallbackThreshold p)) (yp_weakThreshold p)"
proof -
  obtain e where e: "lit (2/100) = Fin e" "0 \<le> e"
    using lit_finite [of "2/100"] rnd_nonneg [of "2/100"] by (cases "lit (2/100)") (auto simp: lit_def)
  have "jle (jsub (yp_weakThreshold p) (Fin e)) (yp_weakThreshold p)"
  proof (cases "yp_weakThreshold p")
    case (Fin x)
    with assms(2) rnd_mono [of "x - e" x] e show ?thesis by (simp add: dbl_Fin)
  qed (use assms(1) in \<open>auto simp: jsub_def jle_def\<close>)
  with assms(1) show ?thesis unfolding e(1)
    by (cases "jsub (yp_weakThreshold p) (Fin e)"; cases "yp_fallbackThreshold p"; cases "yp_weakThreshold p")
       (auto simp: jmax_def jle_def)
qed

lemma strategy_enters_iff:
  assumes "yp_mode p = Pm_adaptive"
  shows "yd_action (strategy_evaluate p ctx) \<noteq> Act_skip \<longleftrightarrow>
     \<not> jlt (yc_probability ctx)
        (paced_threshold (yc_riskState ctx) (regimeAdjustedThreshold
           (case yc_evidence ctx of Ev_supported \<Rightarrow> yp_supportedThreshold p | Ev_weak \<Rightarrow> yp_weakThreshold p
            | _ \<Rightarrow> jmax (jsub (yp_weakThreshold p) (lit (2/100))) (yp_fallbackThreshold p)) (yc_regime ctx) ctx))"
  using assms
  by (cases "yc_evidence ctx")
     (simp_all add: strategy_evaluate_def evidence_bar_def skip_entry_def Let_def jlt_not_jle)

lemma regime_threshold_evidence [simp]:
  "regimeAdjustedThreshold b r (ctx\<lparr>yc_evidence := e\<rparr>) = regimeAdjustedThreshold b r ctx"
  by (simp add: regimeAdjustedThreshold_def Let_def)

definition bar_context :: "jsnum \<Rightarrow> acie_evidence \<Rightarrow> strategy_context" where
  "bar_context prob ev = \<lparr>yc_probability = prob, yc_interval = (Fin 0, Fin 1), yc_calibrationError = Fin 0,
     yc_evidence = ev, yc_regime = Rl_normal, yc_regimeStability = 0, yc_uncertainty = Fin 0,
     yc_riskState = \<lparr>yr_currentExposure = Fin 0, yr_consecutiveLosses = 0, yr_dailyEntriesUsed = 0,
       yr_dailyEntriesLimit = 0, yr_balance = Fin 0\<rparr>, yc_baselineProbability = Fin 0\<rparr>"

lemma bar_context_threshold:
  "paced_threshold (yc_riskState (bar_context prob ev))
     (regimeAdjustedThreshold b (yc_regime (bar_context prob ev)) (bar_context prob ev)) =
   jmax (lit (52/100)) (jmin (lit (75/100)) b)"
proof -
  have "\<not> jle (lit (55/100)) (Fin 0)"
    using rnd_mono [of "1/2" "55/100"] rnd_dyadic [of 1 "-1"] by (cases "lit (55/100)") (auto simp: lit_def jle_def)
  then show ?thesis by (simp add: bar_context_def paced_threshold_def regimeAdjustedThreshold_def Let_def)
qed


lemma rnd_128: "rnd (of_int m / 128) = Fin (of_int m / 128)" if "\<bar>m\<bar> \<le> 128" for m
  using rnd_dyadic [of m "-7"] that by (simp add: power_int_def field_simps)

lemma literal_between:
  assumes "0 \<le> m" "m \<le> 128" "0 \<le> n" "n \<le> 128" "of_int m / 128 \<le> q" "q \<le> of_int n / 128"
  shows "\<exists>x. lit q = Fin x \<and> of_int m / 128 \<le> x \<and> x \<le> of_int n / 128"
proof -
  have "jle (Fin (of_int m / 128)) (lit q)" "jle (lit q) (Fin (of_int n / 128))"
    using rnd_mono [OF assms(5)] rnd_mono [OF assms(6)] assms(1-4) by (simp_all add: lit_def rnd_128)
  then show ?thesis by (cases "lit q") (auto simp: jle_def)
qed

lemma demo_bars:
  "jlt (Fin (78/128)) (jmax (lit (52/100)) (jmin (lit (75/100)) (lit (62/100))))"
  "\<not> jlt (Fin (78/128)) (jmax (lit (52/100)) (jmin (lit (75/100)) (jmax (jsub (lit (62/100)) (lit (2/100))) (lit (57/100)))))"
proof -
  obtain a b c d e where v: "lit (62/100) = Fin a" "79/128 \<le> a" "a \<le> 80/128"
      "lit (2/100) = Fin b" "2/128 \<le> b" "b \<le> 3/128" "lit (57/100) = Fin c" "c \<le> 73/128"
      "lit (52/100) = Fin d" "d \<le> 67/128" "lit (75/100) = Fin e" "96/128 \<le> e"
    using literal_between [of 79 80 "62/100"] literal_between [of 2 3 "2/100"] literal_between [of 72 73 "57/100"]
      literal_between [of 66 67 "52/100"] literal_between [of 96 96 "75/100"] by auto
  show "jlt (Fin (78/128)) (jmax (lit (52/100)) (jmin (lit (75/100)) (lit (62/100))))"
    using v by (auto simp: max_def min_def)
  have "jle (rnd (a - b)) (rnd (78/128))" using v by (intro rnd_mono) simp
  then have "jle (rnd (a - b)) (Fin (78/128))" using rnd_128 [of 78] by simp
  moreover have "jle (Fin 0) (rnd (a - b))" using v by (intro rnd_nonneg) simp
  ultimately obtain f where "rnd (a - b) = Fin f" "f \<le> 78/128" by (cases "rnd (a - b)") (auto simp: jle_def)
  then show "\<not> jlt (Fin (78/128)) (jmax (lit (52/100)) (jmin (lit (75/100)) (jmax (jsub (lit (62/100)) (lit (2/100))) (lit (57/100)))))"
    using v by (auto simp: max_def min_def)
qed

text \<open>Under the adaptive policy, which both shipped policies use, worse evidence is held to a lower bar: an
  entry made on weak evidence is made as well when the same situation has insufficient or degraded
  evidence, because that branch takes 0.02 off the threshold for weak evidence. The inclusion is strict:
  with the policy the engine uses, a situation skipped on weak evidence is entered on worse evidence.\<close>

lemma worse_evidence_lower_bar:
  assumes "p = HIGH_FREQUENCY_STRATEGY_POLICY \<or> p = DEFAULT_STRATEGY_POLICY" "ev = Ev_insufficient \<or> ev = Ev_degraded"
  shows "(yd_action (strategy_evaluate p (ctx\<lparr>yc_evidence := Ev_weak\<rparr>)) \<noteq> Act_skip \<longrightarrow>
            yd_action (strategy_evaluate p (ctx\<lparr>yc_evidence := ev\<rparr>)) \<noteq> Act_skip) \<and>
         yd_action (strategy_evaluate HIGH_FREQUENCY_STRATEGY_POLICY (bar_context (Fin (78/128)) Ev_weak)) = Act_skip \<and>
         yd_action (strategy_evaluate HIGH_FREQUENCY_STRATEGY_POLICY (bar_context (Fin (78/128)) ev)) \<noteq> Act_skip"
proof -
  have p: "yp_mode p = Pm_adaptive" "jle (yp_fallbackThreshold p) (yp_weakThreshold p)" "dbl (yp_weakThreshold p)"
    using assms(1) rnd_mono [of "57/100" "62/100"] rnd_mono [of "6/10" "66/100"]
    by (auto simp: HIGH_FREQUENCY_STRATEGY_POLICY_def DEFAULT_STRATEGY_POLICY_def lit_def)
  note bar = paced_threshold_mono [OF regime_threshold_mono [OF adaptive_bar_lower [OF p(2,3)]],
     of "yc_riskState ctx" "yc_regime ctx" ctx]
  have cut: "\<not> jlt x a" if "\<not> jlt x b" "jle a b" for x a b
    using that by (cases x; cases a; cases b) (auto simp: jle_def)
  have hf: "yp_mode HIGH_FREQUENCY_STRATEGY_POLICY = Pm_adaptive"
    "yp_weakThreshold HIGH_FREQUENCY_STRATEGY_POLICY = lit (62/100)"
    "yp_fallbackThreshold HIGH_FREQUENCY_STRATEGY_POLICY = lit (57/100)"
    by (simp_all add: HIGH_FREQUENCY_STRATEGY_POLICY_def)
  have fields: "yc_probability (bar_context x e) = x" "yc_evidence (bar_context x e) = e" for x e
    by (simp_all add: bar_context_def)
  have "yd_action (strategy_evaluate HIGH_FREQUENCY_STRATEGY_POLICY (bar_context (Fin (78/128)) Ev_weak)) = Act_skip"
    using demo_bars(1) strategy_enters_iff [OF hf(1), of "bar_context (Fin (78/128)) Ev_weak"]
    by (simp only: bar_context_threshold fields hf acie_evidence.case) blast
  moreover have "yd_action (strategy_evaluate HIGH_FREQUENCY_STRATEGY_POLICY (bar_context (Fin (78/128)) ev)) \<noteq> Act_skip"
    using demo_bars(2) strategy_enters_iff [OF hf(1), of "bar_context (Fin (78/128)) ev"] assms(2)
    by (elim disjE) (simp_all only: bar_context_threshold fields hf acie_evidence.case simp_thms)
  moreover have "yd_action (strategy_evaluate p (ctx\<lparr>yc_evidence := Ev_weak\<rparr>)) \<noteq> Act_skip \<longrightarrow>
      yd_action (strategy_evaluate p (ctx\<lparr>yc_evidence := ev\<rparr>)) \<noteq> Act_skip"
    using assms(2) cut [OF _ bar] by (auto simp: strategy_enters_iff [OF p(1)])
  ultimately show ?thesis by blast
qed

lemma worse_evidence_lower_bar_example:
  "(yd_action (strategy_evaluate HIGH_FREQUENCY_STRATEGY_POLICY ((bar_context (Fin (3/4)) Ev_weak)\<lparr>yc_evidence := Ev_weak\<rparr>)) \<noteq> Act_skip \<longrightarrow>
      yd_action (strategy_evaluate HIGH_FREQUENCY_STRATEGY_POLICY ((bar_context (Fin (3/4)) Ev_weak)\<lparr>yc_evidence := Ev_degraded\<rparr>)) \<noteq> Act_skip) \<and>
   yd_action (strategy_evaluate HIGH_FREQUENCY_STRATEGY_POLICY (bar_context (Fin (78/128)) Ev_weak)) = Act_skip \<and>
   yd_action (strategy_evaluate HIGH_FREQUENCY_STRATEGY_POLICY (bar_context (Fin (78/128)) Ev_degraded)) \<noteq> Act_skip"
  by (rule worse_evidence_lower_bar) simp_all

lemma nan_probability_enters:
  "yp_mode p = Pm_adaptive \<Longrightarrow> yc_probability ctx = NaN \<Longrightarrow> yd_action (strategy_evaluate p ctx) \<noteq> Act_skip"
  by (simp add: strategy_enters_iff)

end
