(* ===== verification/Spec2Isabelle.thy ===== *)
theory Spec2Isabelle
  imports SmSafety RiskEngine JobQueue Mutex DailyEntries Idempotency PnL BalanceTracker
    Reconciliation SheathMode Settlement DryRun CashOut LiveExecution Recovery Calibration
    ModelLifecycle GameObservation Supervisor BootSettlement CapitalLimits
    Ranking Confirmation Safeguards ConfigTree System Operator Analytics AcieEngine
begin

text \<open>
  A verification development for CrashWave (\<open>src/src\<close>), a TypeScript service that watches a crash
  game, decides when to place a bet, cashes it out and keeps the books. The model follows the
  parts that decide about money, what they observe and learn from, the commands of the operator and the
  composition of all this into one program; browser, network and storage drivers are left out.

  \<^bold>\<open>The program.\<close> The session supervisor (\<open>core/session-supervisor.ts\<close>) owns the browser; the game
  adapter and the round observer (\<open>game\<close>) turn the page and its sockets into rounds. A crashed round
  feeds the incremental statistics, the calibration and the divergence monitor (\<open>prediction\<close>); the
  entry decision (\<open>prediction/entry-decision-service.ts\<close>) puts a signal before the risk engine
  (\<open>betting/risk-engine.ts\<close>). The betting state machine (\<open>core/state-machine\<close>) accepts or rejects
  each event. The idempotency store (\<open>betting/idempotency.ts\<close>), the asynchronous locks
  (\<open>utils/async.ts\<close>) and the distributed mutex (\<open>core/distributed-mutex.ts\<close>) keep a round from being
  bet twice, the daily ledger (\<open>ledger/daily-entries.ts\<close>) bounds the entries of a day. The executors
  (\<open>betting/executor.ts\<close>, \<open>betting/live-executor.ts\<close>) place the bet, the monitor of
  \<open>betting/cashout.ts\<close> watches it, and the repository (\<open>persistence/repositories/bet-repo.ts\<close>) stores it. A bet
  becomes an order of the settlement engine (\<open>settlement\<close>), which books it in a double-entry journal
  that the drift guard compares with the operator's balance; open orders are reconciled at boot. Bets
  of unknown outcome go to the recovery (\<open>core/recovery-manager.ts\<close>, \<open>ledger/unknown-state-recovery.ts\<close>)
  and the reconciliation engine (\<open>ledger/reconciliation.ts\<close>); the emergency stop cancels what is
  pending. Sheath mode (\<open>core/sheath-mode\<close>) suspends betting on triggers. Retry and circuit breakers
  wrap calls, the job queue (\<open>core/job-queue\<close>) runs background work, and dry-run mode
  (\<open>core/dry-run\<close>) does all of this with a virtual balance. The learning engine (\<open>prediction/acie\<close>) learns from each
  crash and gives the entry decision its probability. \<open>app/composition.ts\<close> builds the objects, subscribes
  the bridges of dry run and live mode to the rounds and offers the operations that the operator's commands
  (\<open>telegram\<close>) call; the configuration is a tree edited by key. The analytics (\<open>analytics\<close>) are
  computed from recorded outcomes; nothing in the composition calls them.

  \<^bold>\<open>Theories.\<close>
  \<^item> \<open>Prelude\<close>: the locales \<open>stepwise\<close>, \<open>started\<close> and \<open>persists\<close> for invariants of runs, and lemmas on
    lists and strings that several components use. \<open>JsNumber\<close>: JavaScript numbers as correctly rounded
    rationals with the infinities and \<open>NaN\<close> (the two zeros are one value), and the facts about rounding the money proofs need.
  \<^item> \<open>SmTypes\<close>, \<open>SmTransitions\<close>, \<open>SmGuards\<close>, \<open>SmMachine\<close>: \<open>types.ts\<close>, \<open>transitions.ts\<close>,
    \<open>guards.ts\<close> and \<open>machine.ts\<close> of the state machine, a record for its context, a datatype for
    its events, \<open>send\<close> for a step. \<open>SmSafety\<close>: what a run guarantees: a bet only under every entry
    condition, no second bet, an open bet tracked, a halt that lasts, no dead end.
  \<^item> \<open>CircuitBreaker\<close>: both breakers and \<open>withRetry\<close>. \<open>RiskEngine\<close>: \<open>evaluate\<close> and its checks.
  \<^item> \<open>JobQueue\<close>: \<open>PriorityJobQueue\<close>; handlers finish by later events, so every interleaving of
    enqueues, completions, failures and timers is a run.
  \<^item> \<open>Mutex\<close>: \<open>DistributedMutex\<close>; the locale \<open>lock_store\<close> is the contract, interpreted for the
    in-memory locks, and proved of Redis with the program's own release script, under the documented behaviour
    of \<open>SET\<close>, \<open>GET\<close> and \<open>DEL\<close> (\<open>redis_lock_laws\<close>).
    \<open>AsyncLocks\<close>: the mutex and the semaphore of \<open>utils/async.ts\<close>, the first a refinement of the second.
  \<^item> \<open>DailyEntries\<close>: the PostgreSQL ledger, its in-memory replacement and the counter; both ledgers
    interpret the locale \<open>slot_ledger\<close>. \<open>Idempotency\<close>: the Redis store and the in-memory store over
    the locale \<open>reservation_store\<close>.
  \<^item> \<open>PnL\<close>, \<open>BalanceTracker\<close>, \<open>Reconciliation\<close>: the calculators and the tracker of \<open>ledger\<close>.
    \<open>SheathMode\<close>, \<open>Settlement\<close>, \<open>DryRun\<close>: the files of the directories they are named after.
  \<^item> \<open>GameObservation\<close>: \<open>game/adapter.ts\<close> and \<open>game/observer.ts\<close>, each alone and the first feeding the
    second; \<open>processStateChange\<close> runs in one turn per \<open>await\<close> (a \<open>change_call\<close> is what a waiting call keeps), the
    turns of several calls interleave freely, and what reaches the listeners is the output. \<open>Supervisor\<close>: the phases of the session, with the
    browser's answers as one environment record for each call.
  \<^item> \<open>IncrementalState\<close>: the statistics that are updated round by round, related to the window and the
    whole history they stand for and to the functions that recompute them. \<open>Calibration\<close>: isotonic
    regression, whose loop moves back after each merge. \<open>LiveDivergence\<close>, \<open>ModelLifecycle\<close>: the
    divergence monitor, the stages of models and the rollout controller over both.
  \<^item> \<open>EntryDecision\<close>: the gates of \<open>evaluateEntry\<close> in front of the risk engine. \<open>BetExecution\<close>,
    \<open>CashOut\<close>, \<open>LiveExecution\<close>: the executor over an idempotency store given by the locale
    \<open>round_store\<close>, with the clean-up timer of the in-memory store as a step, the cash-out monitor, and the live
    executor with its mode gate and the bridge.
  \<^item> \<open>BetStore\<close>: the repository of bets and the emergency stop over it. \<open>Recovery\<close>: the sweep over unknown
    bets, the comparison of balances, and the decision to resume. \<open>BootSettlement\<close>: the classification
    of the operator's evidence, the boot reconciliation as a run of the settlement engine, and the
    settlement service. \<open>CapitalLimits\<close>: the capital guard and the velocity controller,
    which the composition does not wire in; the actions of any window are bounded. \<open>Ranking\<close>: the windows of
    scored opportunities, the decision engine and the caches it reads, as refinements of a map that forgets nothing.
  \<^item> \<open>Confirmation\<close>: the waits for a placement and a cash-out, with the matching of socket messages; a
    reader that never settles hangs them. \<open>Safeguards\<close>:
    the checks before and after an execution, the reconciliation after a reconnect, and the lock of the
    active instance over the documented behaviour of its Redis commands.
  \<^item> \<open>ConfigTree\<close>: the configuration as a tree of values, read and changed by dotted keys. \<open>System\<close>: the state of
    the composition as one record, its operations, subscriptions and the two bridges as events; an evaluation of the
    dry-run bridge and a resume are under way between two events. \<open>Operator\<close>: identity, rate limits, parsing,
    dispatch and the commands that change state, with their pending confirmations, over \<open>System\<close>.
  \<^item> \<open>Metrics\<close>, \<open>Advice\<close>, \<open>Analytics\<close>: the metrics, the two rule sets, and the engine with its windows and reports.
  \<^item> \<open>Acie\<close>, \<open>AcieEngine\<close>: outcome records, sequence features, the online state and the calibration report; the
    evidence, the ensemble, the strategy and the engine with its snapshots. \<open>Math.sqrt\<close>, \<open>log\<close>, \<open>exp\<close>
    and \<open>pow\<close> are parameters here and in the metrics.

  \<^bold>\<open>How state and operations correspond.\<close> A class is a record of its fields and each method a
  function that returns the record changed; the time (\<open>Date.now()\<close>), generated identifiers, random
  values and what other tasks do at an \<open>await\<close> are arguments. Exceptions are the left side of a sum.
  Logging is left out, and a human-readable text is a constructor that names it. Redis, PostgreSQL's
  schema, the page, the log-in pipeline, the evidence provider and the callbacks are parameters; what a proof needs of
  them is a named definition (\<open>redis_lock_laws\<close>, \<open>redis_kv_laws\<close>), and each witness instantiates them with a concrete
  function. A serializable transaction is, as PostgreSQL documents, a function applied to the tables
  whole or not at all; after an error inside a transaction PostgreSQL turns its commit into a rollback (\<open>BetStore\<close>).

  \<^bold>\<open>What the lemmas show.\<close> Invariants of every run from the initial state (state machine, queue,
  ledgers, journal, sheath, dry run, cash-out, observation, supervisor, model stages), obtained from
  the run locales of the prelude; exclusion and idempotency from the store locales; functional results
  on every branch (risk engine, retry, settlement, execution); refinement of an abstract specification
  (statistics against the history, mutex against semaphore); equivalence of two computations (drawdown,
  recomputed features); round trips (configuration); termination and bounds (calibration, ensemble probabilities,
  rounded counts). Where the code departs from its own comments or documents, the fact is a lemma of its
  theory, named after the case: \<open>login_while_observing_hides_it\<close>, \<open>high_divergence_promotes_canary\<close>,
  \<open>halt_and_reset_drop_open_bet\<close>, \<open>late_answer_completes_twice\<close>, \<open>failed_count_resumes\<close>.

  \<^bold>\<open>Bounds.\<close> There is no fuel but the source's own: \<open>tx_loop\<close> has the three attempts of
  \<open>withSerializableTransaction\<close>, \<open>retry_loop\<close> and \<open>acquire_loop\<close> the configured number of attempts
  plus one, \<open>pump_loop\<close> ends because each turn fills a slot, and \<open>pav_loop\<close> because a merge shortens
  the list. The loops of \<open>Confirmation\<close> may run for ever and are partial functions; everything else is total, and
  everything is executable.

  \<^bold>\<open>Not modelled.\<close> Page, network and storage drivers, the merging of source adapters (the supervisor constructs the
  modelled adapter instead), the read-only reports and texts of the chat, logging and health end points, the loading
  of the configuration, the worker processes, the event bus beyond the delivery the composition relies on, and the
  statistical models, features and learning jobs of \<open>prediction\<close> beside the parts above, whose signal is an argument
  of the entry decision.
\<close>

end
